(* ===== verification/Prelude.thy ===== *)
theory Prelude
  imports
    Complex_Main
    "HOL-Library.AList"
    "HOL-Library.Multiset"
    "HOL-Library.Log_Nat"
    "HOL-Library.List_Lexorder"
    "HOL-Library.Char_ord"
    "HOL-Library.Product_Lexorder"
begin

text \<open>
  Shared vocabulary of the development: results that may be an exception, insertion-ordered
  dictionaries, the stable sorts of Python, decimal rounding, and the generic lemmas on them.
  A finite double is represented by the rational number it denotes; the arithmetic of doubles is
  idealised to the exact arithmetic of rationals, and only the explicit roundings of the program
  (\<^verbatim>\<open>round(x, n)\<close>, storage in 32-bit arrays) are modelled.
\<close>

named_theorems model_defs "definitions that proofs about one operation unfold"
named_theorems inv_intros "introduction rules for the preservation of invariants"
named_theorems frame_simps "what an operation leaves unchanged"

subsection \<open>Results\<close>

text \<open>The exceptions that the modelled code raises or catches.\<close>

datatype pyexc =
    ValueError string
  | TypeError
  | OverflowError
  | KeyError
  | IndexError
  | ZeroDivisionError
  | RuntimeError string
  | DatabaseError string
  | CsvError string

type_synonym 'a result = "pyexc + 'a"

fun rbind :: "'e + 'a \<Rightarrow> ('a \<Rightarrow> 'e + 'b) \<Rightarrow> 'e + 'b" where
  "rbind (Inl e) f = Inl e"
| "rbind (Inr x) f = f x"

fun rmap :: "('a \<Rightarrow> 'e + 'b) \<Rightarrow> 'a list \<Rightarrow> 'e + 'b list" where
  "rmap f [] = Inr []"
| "rmap f (x # xs) = rbind (f x) (\<lambda>y. rbind (rmap f xs) (\<lambda>ys. Inr (y # ys)))"

fun rfilter :: "('a \<Rightarrow> 'e + bool) \<Rightarrow> 'a list \<Rightarrow> 'e + 'a list" where
  "rfilter f [] = Inr []"
| "rfilter f (x # xs) =
     rbind (f x) (\<lambda>b. rbind (rfilter f xs) (\<lambda>ys. Inr (if b then x # ys else ys)))"

text \<open>\<^verbatim>\<open>try: r except <errors caught by c>: h\<close>.\<close>

definition catching :: "('e \<Rightarrow> bool) \<Rightarrow> 'e + 'a \<Rightarrow> 'e + 'a \<Rightarrow> 'e + 'a" where
  "catching c r h = (case r of Inr x \<Rightarrow> Inr x | Inl e \<Rightarrow> if c e then h else Inl e)"

definition is_ok :: "'e + 'a \<Rightarrow> bool" where
  "is_ok r = (case r of Inl _ \<Rightarrow> False | Inr _ \<Rightarrow> True)"

lemma is_ok_simps [simp]: "is_ok (Inl e) = False" "is_ok (Inr x) = True"
  by (simp_all add: is_ok_def)

lemma is_ok_iff: "is_ok r \<longleftrightarrow> (\<exists>x. r = Inr x)"
  by (cases r) auto

lemma rbind_Inr_iff: "rbind r f = Inr y \<longleftrightarrow> (\<exists>x. r = Inr x \<and> f x = Inr y)"
  by (cases r) auto

lemma rbind_Inl_iff: "rbind r f = Inl e \<longleftrightarrow> r = Inl e \<or> (\<exists>x. r = Inr x \<and> f x = Inl e)"
  by (cases r) auto

lemma is_ok_rbind: "is_ok (rbind r f) \<longleftrightarrow> (\<exists>x. r = Inr x \<and> is_ok (f x))"
  by (cases r) auto

lemma rmap_length: "rmap f xs = Inr ys \<Longrightarrow> length ys = length xs"
  by (induction xs arbitrary: ys) (auto simp: rbind_Inr_iff)

lemma rmap_Inr_total: "(\<And>x. x \<in> set xs \<Longrightarrow> f x = Inr (g x)) \<Longrightarrow> rmap f xs = Inr (map g xs)"
  by (induction xs) auto

lemma rmap_Inl: "rmap f xs = Inl e \<Longrightarrow> \<exists>x \<in> set xs. f x = Inl e"
  by (induction xs) (auto simp: rbind_Inl_iff)

lemma rmap_nth: "rmap f xs = Inr ys \<Longrightarrow> i < length xs \<Longrightarrow> f (xs ! i) = Inr (ys ! i)"
  by (induction xs arbitrary: ys i) (auto simp: rbind_Inr_iff nth_Cons split: nat.splits)

lemma rfilter_Inr:
  "rfilter f xs = Inr ys \<longleftrightarrow> (\<forall>x \<in> set xs. is_ok (f x)) \<and> ys = filter (\<lambda>x. f x = Inr True) xs"
proof (induction xs arbitrary: ys)
  case (Cons x xs)
  then show ?case by (cases "f x") (auto simp: rbind_Inr_iff)
qed auto

lemma rfilter_Inl: "rfilter f xs = Inl e \<Longrightarrow> \<exists>x \<in> set xs. f x = Inl e"
  by (induction xs) (auto simp: rbind_Inl_iff)

lemma catching_simps [simp]:
  "catching c (Inr x) h = Inr x" "c e \<Longrightarrow> catching c (Inl e) h = h"
  "\<not> c e \<Longrightarrow> catching c (Inl e) h = Inl e"
  by (simp_all add: catching_def)

lemma catching_ok: "(\<And>e. r = Inl e \<Longrightarrow> c e) \<Longrightarrow> is_ok h \<Longrightarrow> is_ok (catching c r h)"
  by (cases r) auto

subsection \<open>Dictionaries: insertion-ordered association lists\<close>

text \<open>
  A Python dictionary is an association list with distinct keys in insertion order:
  \<^verbatim>\<open>d[k] = v\<close> is \<^const>\<open>AList.update\<close>, which replaces in place or appends, and
  \<^verbatim>\<open>del d[k]\<close> or \<^verbatim>\<open>d.pop(k, None)\<close> is \<^const>\<open>AList.delete\<close>.
\<close>

type_synonym ('k, 'v) dict = "('k \<times> 'v) list"

definition dict_ok :: "('k, 'v) dict \<Rightarrow> bool" where
  "dict_ok d = distinct (map fst d)"

definition get_or :: "('k, 'v) dict \<Rightarrow> 'k \<Rightarrow> 'v \<Rightarrow> 'v" where
  "get_or d k dflt = (case map_of d k of None \<Rightarrow> dflt | Some v \<Rightarrow> v)"

definition has_key :: "('k, 'v) dict \<Rightarrow> 'k \<Rightarrow> bool" where
  "has_key d k = (map_of d k \<noteq> None)"

definition values_of :: "('k, 'v) dict \<Rightarrow> 'v list" where
  "values_of d = map snd d"

fun dict_update_all :: "('k, 'v) dict \<Rightarrow> ('k, 'v) dict \<Rightarrow> ('k, 'v) dict" where
  "dict_update_all d [] = d"
| "dict_update_all d ((k, v) # es) = dict_update_all (AList.update k v d) es"

lemma dict_ok_Nil [simp, inv_intros]: "dict_ok []"
  by (simp add: dict_ok_def)

lemma dict_ok_update [simp, inv_intros]: "dict_ok d \<Longrightarrow> dict_ok (AList.update k v d)"
  by (simp add: dict_ok_def distinct_update)

lemma dict_ok_delete [simp, inv_intros]: "dict_ok d \<Longrightarrow> dict_ok (AList.delete k d)"
  by (simp add: dict_ok_def distinct_delete)

lemma dict_ok_update_all [inv_intros]: "dict_ok d \<Longrightarrow> dict_ok (dict_update_all d es)"
  by (induction d es rule: dict_update_all.induct) simp_all

lemma map_of_update: "map_of (AList.update k v d) = (map_of d)(k \<mapsto> v)"
  by (rule update_conv')

lemma map_of_update_same [simp]: "map_of (AList.update k v d) k = Some v"
  by (simp add: map_of_update)

lemma map_of_update_other [simp]: "k' \<noteq> k \<Longrightarrow> map_of (AList.update k v d) k' = map_of d k'"
  by (simp add: map_of_update)

lemma map_of_delete: "map_of (AList.delete k d) = (map_of d)(k := None)"
  by (rule delete_conv')

lemma map_of_delete_same [simp]: "map_of (AList.delete k d) k = None"
  by (simp add: map_of_delete)

lemma map_of_delete_other [simp]: "k' \<noteq> k \<Longrightarrow> map_of (AList.delete k d) k' = map_of d k'"
  by (simp add: map_of_delete)

lemma keys_update: "set (map fst (AList.update k v d)) = insert k (set (map fst d))"
  by (induction d) auto

lemma dict_ok_map_of: "dict_ok d \<Longrightarrow> (k, v) \<in> set d \<longleftrightarrow> map_of d k = Some v"
  by (auto simp: dict_ok_def map_of_is_SomeI dest: map_of_SomeD)

lemma list_all_dict:
  "dict_ok d \<Longrightarrow> list_all P d \<longleftrightarrow> (\<forall>k v. map_of d k = Some v \<longrightarrow> P (k, v))"
  by (auto simp: list_all_iff dict_ok_map_of[symmetric])

lemma list_all_update: "list_all (\<lambda>kv. P (snd kv)) d \<Longrightarrow> P v \<Longrightarrow> list_all (\<lambda>kv. P (snd kv)) (AList.update k v d)"
  by (induction d) auto

lemma list_all_delete: "list_all P d \<Longrightarrow> list_all P (AList.delete k d)"
  by (auto simp: AList.delete_eq list_all_iff)

lemma list_all_update_pair: "list_all P d \<Longrightarrow> P (k, v) \<Longrightarrow> list_all P (AList.update k v d)"
  by (induction d) auto

lemma list_all_lookup: "list_all (\<lambda>kv. P (snd kv)) d \<Longrightarrow> map_of d k = Some v \<Longrightarrow> P v"
  by (auto simp: list_all_iff dest!: map_of_SomeD)

lemma map_of_map_values:
  "map_of (map (\<lambda>kv. (fst kv, f (fst kv) (snd kv))) d) k = map_option (f k) (map_of d k)"
  by (induction d) auto

lemma has_key_update [simp]: "has_key (AList.update k v d) k' \<longleftrightarrow> k' = k \<or> has_key d k'"
  by (auto simp: has_key_def map_of_update)

lemma has_key_delete [simp]: "has_key (AList.delete k d) k' \<longleftrightarrow> k' \<noteq> k \<and> has_key d k'"
  by (auto simp: has_key_def map_of_delete)

lemma has_keyI: "(k, v) \<in> set d \<Longrightarrow> has_key d k"
  by (force simp: has_key_def map_of_eq_None_iff)

lemma has_key_iff: "has_key d k \<longleftrightarrow> k \<in> set (map fst d)"
  by (simp add: has_key_def map_of_eq_None_iff)

lemma map_of_update_all:
  "map_of (dict_update_all d es) k = (case map_of (rev es) k of None \<Rightarrow> map_of d k | Some v \<Rightarrow> Some v)"
  by (induction d es rule: dict_update_all.induct)
     (auto simp: map_of_update map_add_def split: option.splits)

subsection \<open>Sorting, grouping and removing duplicates\<close>

text \<open>
  \<^verbatim>\<open>sorted(xs, key=f)\<close> is the stable \<^const>\<open>sort_key\<close>; with \<^verbatim>\<open>reverse=True\<close> Python
  keeps equal elements in their original order as well.  \<^verbatim>\<open>dict.fromkeys(xs)\<close> keeps first
  occurrences.
\<close>

definition sort_desc :: "('a \<Rightarrow> 'b :: linorder) \<Rightarrow> 'a list \<Rightarrow> 'a list" where
  "sort_desc f xs = rev (sort_key f (rev xs))"

fun first_occurrences :: "'a list \<Rightarrow> 'a list" where
  "first_occurrences [] = []"
| "first_occurrences (x # xs) = x # filter (\<lambda>y. y \<noteq> x) (first_occurrences xs)"

definition sorted_set :: "'a :: linorder list \<Rightarrow> 'a list" where
  "sorted_set xs = sort (remdups xs)"

fun group_by :: "('a \<Rightarrow> 'k) \<Rightarrow> 'a list \<Rightarrow> ('k, 'a list) dict \<Rightarrow> ('k, 'a list) dict" where
  "group_by f [] d = d"
| "group_by f (x # xs) d =
     group_by f xs (AList.update (f x) ((case map_of d (f x) of None \<Rightarrow> [] | Some ys \<Rightarrow> ys) @ [x]) d)"

definition count_true :: "('a \<Rightarrow> bool) \<Rightarrow> 'a list \<Rightarrow> nat" where
  "count_true P xs = length (filter P xs)"

lemma set_sort_desc [simp]: "set (sort_desc f xs) = set xs"
  by (simp add: sort_desc_def)

lemma length_sort_desc [simp]: "length (sort_desc f xs) = length xs"
  by (simp add: sort_desc_def)

lemma mset_sort_desc [simp]: "mset (sort_desc f xs) = mset xs"
  by (simp add: sort_desc_def)

lemma sorted_sort_desc: "sorted (rev (map f (sort_desc f xs)))"
  by (simp add: sort_desc_def rev_map)

lemma set_first_occurrences [simp]: "set (first_occurrences xs) = set xs"
  by (induction xs) auto

lemma distinct_first_occurrences [simp]: "distinct (first_occurrences xs)"
  by (induction xs) auto

lemma set_sorted_set [simp]: "set (sorted_set xs) = set xs"
  by (simp add: sorted_set_def)

lemma sorted_sorted_set [simp]: "sorted (sorted_set xs)"
  by (simp add: sorted_set_def)

lemma distinct_sorted_set [simp]: "distinct (sorted_set xs)"
  by (simp add: sorted_set_def)

lemma dict_ok_group_by [inv_intros]: "dict_ok d \<Longrightarrow> dict_ok (group_by f xs d)"
  by (induction f xs d rule: group_by.induct) simp_all

lemma map_of_group_by:
  "map_of (group_by f xs d) k =
     (let old = (case map_of d k of None \<Rightarrow> [] | Some ys \<Rightarrow> ys); new = filter (\<lambda>x. f x = k) xs
      in if new = [] then map_of d k else Some (old @ new))"
  by (induction f xs d rule: group_by.induct)
     (auto simp: Let_def map_of_update split: option.splits)

lemma group_by_member:
  assumes "map_of (group_by f xs []) k = Some ys"
  shows "ys = filter (\<lambda>x. f x = k) xs"
  using assms by (simp add: map_of_group_by Let_def split: if_splits)

lemma filter_length_partition: "length (filter P xs) + length (filter (\<lambda>x. \<not> P x) xs) = length xs"
  by (rule sum_length_filter_compl)

subsection \<open>Rounding\<close>

text \<open>Round half to even, and Python's \<^verbatim>\<open>round(x, n)\<close> on the number a double denotes.\<close>

definition round_half_even :: "rat \<Rightarrow> int" where
  "round_half_even x =
     (let f = \<lfloor>x\<rfloor>; d = x - of_int f
      in if d < 1/2 then f else if d > 1/2 then f + 1 else if even f then f else f + 1)"

definition pyround :: "nat \<Rightarrow> rat \<Rightarrow> rat" where
  "pyround n x = of_int (round_half_even (x * 10 ^ n)) / 10 ^ n"

definition trunc :: "rat \<Rightarrow> int" where
  "trunc x = (if 0 \<le> x then \<lfloor>x\<rfloor> else \<lceil>x\<rceil>)"

lemma round_half_even_bounds: "\<bar>of_int (round_half_even x) - x\<bar> \<le> 1/2"
proof -
  have "of_int \<lfloor>x\<rfloor> \<le> x" "x < of_int \<lfloor>x\<rfloor> + 1" by linarith+
  then show ?thesis by (auto simp: round_half_even_def Let_def abs_le_iff)
qed

lemma round_half_even_of_int [simp]: "round_half_even (of_int i) = i"
  by (simp add: round_half_even_def)

lemma round_half_even_mono:
  assumes "x \<le> y"
  shows "round_half_even x \<le> round_half_even y"
proof (cases "\<lfloor>x\<rfloor> = \<lfloor>y\<rfloor>")
  case True
  with assms show ?thesis by (auto simp: round_half_even_def Let_def)
next
  case False
  with assms have "\<lfloor>x\<rfloor> + 1 \<le> \<lfloor>y\<rfloor>" using floor_mono[OF assms] by linarith
  moreover have "round_half_even x \<le> \<lfloor>x\<rfloor> + 1" "\<lfloor>y\<rfloor> \<le> round_half_even y"
    by (auto simp: round_half_even_def Let_def)
  ultimately show ?thesis by linarith
qed

lemma round_half_even_nonneg: "0 \<le> x \<Longrightarrow> 0 \<le> round_half_even x"
  using round_half_even_mono[of 0 x] round_half_even_of_int[of 0] by simp

lemma pyround_mono: "x \<le> y \<Longrightarrow> pyround n x \<le> pyround n y"
  by (auto simp: pyround_def divide_le_cancel intro!: round_half_even_mono mult_right_mono)

lemma pyround_error: "\<bar>pyround n x - x\<bar> \<le> 1 / (2 * 10 ^ n)"
proof -
  have "\<bar>of_int (round_half_even (x * 10 ^ n)) - x * 10 ^ n\<bar> / 10 ^ n \<le> (1/2 :: rat) / 10 ^ n"
    by (intro divide_right_mono round_half_even_bounds) simp
  moreover have "pyround n x - x = (of_int (round_half_even (x * 10 ^ n)) - x * 10 ^ n) / 10 ^ n"
    by (simp add: pyround_def field_simps)
  ultimately show ?thesis by (simp add: abs_divide)
qed

lemma pyround_of_int [simp]: "pyround n (of_int i) = of_int i"
proof -
  have "of_int i * 10 ^ n = (of_int (i * 10 ^ n) :: rat)" by simp
  then show ?thesis by (simp only: pyround_def round_half_even_of_int) simp
qed

lemma pyround_0 [simp]: "pyround n 0 = 0"
  using pyround_of_int[of n 0] by simp

lemma pyround_nonneg: "0 \<le> x \<Longrightarrow> 0 \<le> pyround n x"
  using pyround_mono[of 0 x n] by simp

lemma pyround_le_of_int: "x \<le> of_int i \<Longrightarrow> pyround n x \<le> of_int i"
  using pyround_mono[of x "of_int i" n] by simp

lemma trunc_of_int [simp]: "trunc (of_int i) = i"
  by (simp add: trunc_def)

lemma trunc_nonneg: "0 \<le> x \<Longrightarrow> 0 \<le> trunc x"
  by (simp add: trunc_def)

lemma trunc_le: "0 \<le> x \<Longrightarrow> of_int (trunc x) \<le> x"
  by (simp add: trunc_def)

lemma trunc_mono:
  assumes "x \<le> y"
  shows "trunc x \<le> trunc y"
proof (cases "0 \<le> x \<or> \<not> 0 \<le> y")
  case True
  with assms floor_mono[OF assms] ceiling_mono[OF assms] show ?thesis
    by (auto simp: trunc_def)
next
  case False
  then have "\<lceil>x\<rceil> \<le> 0" "0 \<le> \<lfloor>y\<rfloor>" by (simp_all add: ceiling_le_iff)
  then have "\<lceil>x\<rceil> \<le> \<lfloor>y\<rfloor>" by (rule order_trans)
  with False show ?thesis by (simp add: trunc_def)
qed

subsection \<open>Minima and maxima of lists\<close>

fun min_list1 :: "'a :: linorder \<Rightarrow> 'a list \<Rightarrow> 'a" where
  "min_list1 x [] = x"
| "min_list1 x (y # ys) = min_list1 (if y < x then y else x) ys"

fun max_list1 :: "'a :: linorder \<Rightarrow> 'a list \<Rightarrow> 'a" where
  "max_list1 x [] = x"
| "max_list1 x (y # ys) = max_list1 (if x < y then y else x) ys"

definition min_opt :: "'a :: linorder list \<Rightarrow> 'a option" where
  "min_opt xs = (case xs of [] \<Rightarrow> None | x # ys \<Rightarrow> Some (min_list1 x ys))"

definition max_opt :: "'a :: linorder list \<Rightarrow> 'a option" where
  "max_opt xs = (case xs of [] \<Rightarrow> None | x # ys \<Rightarrow> Some (max_list1 x ys))"

lemma max_list1_ge: "x \<le> max_list1 x ys" "y \<in> set ys \<Longrightarrow> y \<le> max_list1 x ys"
proof -
  have "(\<forall>z \<in> insert x (set ys). z \<le> max_list1 x ys)"
    by (induction x ys rule: max_list1.induct) (auto split: if_splits)
  then show "x \<le> max_list1 x ys" "y \<in> set ys \<Longrightarrow> y \<le> max_list1 x ys" by auto
qed

lemma max_list1_in: "max_list1 x ys \<in> insert x (set ys)"
  by (induction x ys rule: max_list1.induct) auto

lemma min_list1_le: "min_list1 x ys \<le> x" "y \<in> set ys \<Longrightarrow> min_list1 x ys \<le> y"
proof -
  have "(\<forall>z \<in> insert x (set ys). min_list1 x ys \<le> z)"
    by (induction x ys rule: min_list1.induct) (auto split: if_splits)
  then show "min_list1 x ys \<le> x" "y \<in> set ys \<Longrightarrow> min_list1 x ys \<le> y" by auto
qed

lemma min_list1_in: "min_list1 x ys \<in> insert x (set ys)"
  by (induction x ys rule: min_list1.induct) auto

lemma max_opt_eq: "max_opt xs = Some m \<longleftrightarrow> m \<in> set xs \<and> (\<forall>x \<in> set xs. x \<le> m)"
proof (cases xs)
  case (Cons y ys)
  show ?thesis
    using max_list1_in[of y ys] max_list1_ge(1)[of y ys] max_list1_ge(2)[of _ ys y]
    by (auto simp: max_opt_def Cons intro: antisym)
qed (simp add: max_opt_def)

lemma min_opt_eq: "min_opt xs = Some m \<longleftrightarrow> m \<in> set xs \<and> (\<forall>x \<in> set xs. m \<le> x)"
proof (cases xs)
  case (Cons y ys)
  show ?thesis
    using min_list1_in[of y ys] min_list1_le(1)[of y ys] min_list1_le(2)[of _ ys y]
    by (auto simp: min_opt_def Cons intro: antisym)
qed (simp add: min_opt_def)

lemma max_opt_None [simp]: "max_opt xs = None \<longleftrightarrow> xs = []"
  by (auto simp: max_opt_def split: list.splits)

lemma min_opt_None [simp]: "min_opt xs = None \<longleftrightarrow> xs = []"
  by (auto simp: min_opt_def split: list.splits)

subsection \<open>Sums, averages and orders that do not depend on the order of a list\<close>

lemma max_opt_set:
  assumes "set xs = set ys"
  shows "max_opt xs = max_opt ys"
proof (cases "max_opt xs")
  case None
  with assms show ?thesis by simp
next
  case (Some m)
  then have "max_opt ys = Some m" using assms by (simp add: max_opt_eq)
  with Some show ?thesis by simp
qed

lemma sum_list_map_mset: "mset xs = mset ys \<Longrightarrow> sum_list (map f xs) = (sum_list (map f ys) :: 'a :: comm_monoid_add)"
  by (metis mset_map sum_mset_sum_list)

lemma sum_list_filter_mset:
  "mset xs = mset ys \<Longrightarrow>
     sum_list (map f (filter P xs)) = (sum_list (map f (filter P ys)) :: 'a :: comm_monoid_add)"
  by (rule sum_list_map_mset) simp

lemma length_remdups_set: "set xs = set ys \<Longrightarrow> length (remdups xs) = length (remdups ys)"
  by (simp add: length_remdups_card_conv)

lemma sum_list_map_concat:
  "sum_list (map f (concat (map g xs))) = (sum_list (map (\<lambda>x. sum_list (map f (g x))) xs) :: 'a :: comm_monoid_add)"
  by (induction xs) simp_all

lemma sort_key_unique:
  assumes "mset xs = mset ys" "distinct (map f xs)"
  shows "sort_key f xs = sort_key f ys"
proof (rule map_sorted_distinct_set_unique)
  have s: "set xs = set ys" by (rule mset_eq_setD[OF assms(1)])
  have "mset (map f xs) = mset (map f ys)" using assms(1) by simp
  then have d: "distinct (map f ys)" using assms(2) by (rule mset_eq_imp_distinct_iff[THEN iffD1])
  show "inj_on f (set (sort_key f xs) \<union> set (sort_key f ys))"
    using assms(2) by (simp add: s[symmetric] distinct_map)
  show "sorted (map f (sort_key f xs))" "sorted (map f (sort_key f ys))" by simp_all
  show "distinct (map f (sort_key f xs))" "distinct (map f (sort_key f ys))"
    using assms(2) d by (simp_all add: distinct_map)
  show "set (sort_key f xs) = set (sort_key f ys)" by (simp add: s)
qed

lemma avg_le:
  fixes xs :: "rat list"
  assumes "\<And>x. x \<in> set xs \<Longrightarrow> 0 \<le> x \<and> x \<le> b" "xs \<noteq> []"
  shows "0 \<le> sum_list xs / of_nat (length xs)" "sum_list xs / of_nat (length xs) \<le> b"
proof -
  have "0 \<le> sum_list xs" using assms(1) by (intro sum_list_nonneg) auto
  then show "0 \<le> sum_list xs / of_nat (length xs)" by simp
  have "sum_list xs \<le> of_nat (length xs) * b"
    using sum_list_mono[of xs "\<lambda>x. x" "\<lambda>_. b"] assms(1) by (simp add: sum_list_triv)
  then show "sum_list xs / of_nat (length xs) \<le> b"
    using assms(2) by (simp add: divide_le_eq mult.commute)
qed

subsection \<open>Bounded queues\<close>

text \<open>\<^verbatim>\<open>deque(maxlen=n).append\<close>.\<close>

definition push_bounded :: "nat \<Rightarrow> 'a list \<Rightarrow> 'a \<Rightarrow> 'a list" where
  "push_bounded n xs x = (let ys = xs @ [x] in drop (length ys - n) ys)"

lemma length_push_bounded [simp]: "length (push_bounded n xs x) = min n (Suc (length xs))"
  by (simp add: push_bounded_def Let_def)

end
