(* ===== verification/PyValue.thy ===== *)
theory PyValue
  imports Prelude
begin

text \<open>
  The Python values that reach the program from outside (decoded JSON, rows, settings) and the
  built-in operations the program applies to them: truth, \<^verbatim>\<open>dict.get\<close>, \<^verbatim>\<open>str\<close>,
  \<^verbatim>\<open>repr\<close>, \<^verbatim>\<open>int\<close>, \<^verbatim>\<open>float\<close> and the string methods.  Strings are sequences of the
  code points below 256.  A double is a finite rational, an infinity or NaN; negative zero is
  identified with zero.
\<close>

datatype flt = Fin rat | PInf | NInf | NaN

datatype pyval =
    PNone
  | PBool bool
  | PInt int
  | PFlt flt
  | PStr string
  | PList "pyval list"
  | PDict "(string \<times> pyval) list"

text \<open>The number a finite double denotes.\<close>

fun flt_num :: "flt \<Rightarrow> rat" where
  "flt_num (Fin x) = x" | "flt_num _ = 0"

text \<open>\<^verbatim>\<open>round(x, n)\<close> leaves infinities and NaN.\<close>

fun flt_round :: "nat \<Rightarrow> flt \<Rightarrow> flt" where
  "flt_round n (Fin x) = Fin (pyround n x)"
| "flt_round n x = x"

subsection \<open>Truth and lookup\<close>

fun truthy :: "pyval \<Rightarrow> bool" where
  "truthy PNone = False"
| "truthy (PBool b) = b"
| "truthy (PInt i) = (i \<noteq> 0)"
| "truthy (PFlt f) = (f \<noteq> Fin 0)"
| "truthy (PStr s) = (s \<noteq> [])"
| "truthy (PList xs) = (xs \<noteq> [])"
| "truthy (PDict d) = (d \<noteq> [])"

definition py_or :: "pyval \<Rightarrow> pyval \<Rightarrow> pyval" where
  "py_or a b = (if truthy a then a else b)"

definition dget :: "(string, pyval) dict \<Rightarrow> string \<Rightarrow> pyval" where
  "dget d k = (case map_of d k of None \<Rightarrow> PNone | Some v \<Rightarrow> v)"

definition dget_or :: "(string, pyval) dict \<Rightarrow> string \<Rightarrow> pyval \<Rightarrow> pyval" where
  "dget_or d k v0 = (case map_of d k of None \<Rightarrow> v0 | Some v \<Rightarrow> v)"

fun is_dict :: "pyval \<Rightarrow> bool" where
  "is_dict (PDict d) = True" | "is_dict _ = False"

fun is_list :: "pyval \<Rightarrow> bool" where
  "is_list (PList xs) = True" | "is_list _ = False"

fun is_str :: "pyval \<Rightarrow> bool" where
  "is_str (PStr s) = True" | "is_str _ = False"

fun hashable :: "pyval \<Rightarrow> bool" where
  "hashable (PList xs) = False"
| "hashable (PDict d) = False"
| "hashable _ = True"

subsection \<open>Strings\<close>

definition py_ws :: "char \<Rightarrow> bool" where
  "py_ws c = (let n = (of_char c :: nat) in n \<in> {9, 10, 11, 12, 13, 28, 29, 30, 31, 32, 133, 160})"

definition py_strip :: "string \<Rightarrow> string" where
  "py_strip s = rev (dropWhile py_ws (rev (dropWhile py_ws s)))"

definition lower_char :: "char \<Rightarrow> char" where
  "lower_char c = (let n = (of_char c :: nat)
     in if (65 \<le> n \<and> n \<le> 90) \<or> (192 \<le> n \<and> n \<le> 222 \<and> n \<noteq> 215) then char_of (n + 32) else c)"

definition py_lower :: "string \<Rightarrow> string" where
  "py_lower = map lower_char"

definition upper_char :: "char \<Rightarrow> char" where
  "upper_char c = (let n = (of_char c :: nat)
     in if (97 \<le> n \<and> n \<le> 122) \<or> (224 \<le> n \<and> n \<le> 254 \<and> n \<noteq> 247) then char_of (n - 32) else c)"

definition py_upper :: "string \<Rightarrow> string" where
  "py_upper = map upper_char"

fun py_startswith :: "string \<Rightarrow> string \<Rightarrow> bool" where
  "py_startswith s [] = True"
| "py_startswith [] (p # ps) = False"
| "py_startswith (c # s) (p # ps) = (c = p \<and> py_startswith s ps)"

definition py_endswith :: "string \<Rightarrow> string \<Rightarrow> bool" where
  "py_endswith s t = py_startswith (rev s) (rev t)"

fun py_contains :: "string \<Rightarrow> string \<Rightarrow> bool" where
  "py_contains needle [] = (needle = [])"
| "py_contains needle (c # s) = (py_startswith (c # s) needle \<or> py_contains needle s)"

fun py_split :: "char \<Rightarrow> string \<Rightarrow> string list" where
  "py_split c [] = [[]]"
| "py_split c (x # s) =
     (if x = c then [] # py_split c s
      else (case py_split c s of [] \<Rightarrow> [[x]] | w # ws \<Rightarrow> (x # w) # ws))"

fun py_split_ws_acc :: "string \<Rightarrow> string \<Rightarrow> string list" where
  "py_split_ws_acc w [] = (if w = [] then [] else [rev w])"
| "py_split_ws_acc w (c # s) =
     (if py_ws c then (if w = [] then py_split_ws_acc [] s else rev w # py_split_ws_acc [] s)
      else py_split_ws_acc (c # w) s)"

definition py_split_ws :: "string \<Rightarrow> string list" where
  "py_split_ws s = py_split_ws_acc [] s"

fun py_join :: "string \<Rightarrow> string list \<Rightarrow> string" where
  "py_join sep [] = []"
| "py_join sep [w] = w"
| "py_join sep (w # v # ws) = w @ sep @ py_join sep (v # ws)"

text \<open>\<^verbatim>\<open>PurePosixPath(s).name\<close>: the last component other than empty and dot.\<close>

definition path_name :: "string \<Rightarrow> string" where
  "path_name s =
     (case rev (filter (\<lambda>w. w \<noteq> [] \<and> w \<noteq> ''.'') (py_split (CHR ''/'') s)) of
        [] \<Rightarrow> [] | w # _ \<Rightarrow> w)"

lemma py_split_nonempty [simp]: "py_split c s \<noteq> []"
  by (induction s) (auto split: list.splits)

lemma py_join_split: "py_join [c] (py_split c s) = s"
proof (induction s)
  case (Cons x s)
  then show ?case
    by (cases "py_split c s"; cases "tl (py_split c s)") auto
qed simp

lemma py_strip_idem [simp]: "py_strip (py_strip s) = py_strip s"
proof -
  have d: "dropWhile P (dropWhile P xs) = dropWhile P xs" for P and xs :: string
    by (induction xs) auto
  have r: "dropWhile P (rev (dropWhile P (rev (dropWhile P xs)))) = rev (dropWhile P (rev (dropWhile P xs)))"
    for P and xs :: string
  proof (cases "dropWhile P xs")
    case (Cons y ys)
    then have "\<not> P y" by (metis dropWhile_eq_Cons_conv)
    then have "dropWhile P (rev (y # ys)) = dropWhile P (rev ys) @ [y]"
      by (simp add: dropWhile_append)
    then show ?thesis using \<open>\<not> P y\<close> by (simp add: Cons)
  next
    case Nil
    then show ?thesis by (simp only: Nil) simp
  qed
  show ?thesis by (simp add: py_strip_def d r)
qed

subsection \<open>Decimal numerals\<close>

definition digit_char :: "int \<Rightarrow> char" where
  "digit_char n = ''0123456789'' ! nat n"

function nat_str :: "int \<Rightarrow> string" where
  "nat_str n = (if n < 10 then [digit_char n] else nat_str (n div 10) @ [digit_char (n mod 10)])"
  by pat_completeness auto
termination
  by (relation "measure nat") auto

declare nat_str.simps [simp del]

definition int_str :: "int \<Rightarrow> string" where
  "int_str i = (if i < 0 then ''-'' @ nat_str (- i) else nat_str i)"

definition is_digit :: "char \<Rightarrow> bool" where
  "is_digit c = (c \<in> set ''0123456789'')"

definition digit_val :: "char \<Rightarrow> int" where
  "digit_val c = of_char c - 48"

definition digits_val :: "string \<Rightarrow> int" where
  "digits_val s = foldl (\<lambda>a c. 10 * a + digit_val c) 0 s"

text \<open>\<^verbatim>\<open>str.isdigit\<close> also accepts the superscript digits of Latin-1.\<close>

definition py_isdigit :: "string \<Rightarrow> bool" where
  "py_isdigit s =
     (s \<noteq> [] \<and> list_all (\<lambda>c. is_digit c \<or> c \<in> set [CHR 0xB2, CHR 0xB3, CHR 0xB9]) s)"

text \<open>Digits with single underscores between them, as \<^verbatim>\<open>int\<close> and \<^verbatim>\<open>float\<close> accept.\<close>

fun digit_run :: "string \<Rightarrow> bool" where
  "digit_run [] = False"
| "digit_run [c] = is_digit c"
| "digit_run (c # d # s) =
     (is_digit c \<and> (if d = CHR ''_'' then digit_run s else digit_run (d # s)))"

definition run_val :: "string \<Rightarrow> int" where
  "run_val s = digits_val (filter (\<lambda>c. c \<noteq> CHR ''_'') s)"

definition split_sign :: "string \<Rightarrow> int \<times> string" where
  "split_sign s = (case s of [] \<Rightarrow> (1, [])
     | c # t \<Rightarrow> if c = CHR ''-'' then (- 1, t) else if c = CHR ''+'' then (1, t) else (1, s))"

definition parse_int :: "string \<Rightarrow> int option" where
  "parse_int s = (case split_sign (py_strip s) of (sg, t) \<Rightarrow>
     if digit_run t then Some (sg * run_val t) else None)"

lemma digit_cases:
  assumes "0 \<le> n" "n < (10 :: int)"
  shows "n \<in> {0, 1, 2, 3, 4, 5, 6, 7, 8, 9}"
  using assms by (simp, arith)

lemma is_digit_digit_char: "0 \<le> n \<Longrightarrow> n < 10 \<Longrightarrow> is_digit (digit_char n)"
  unfolding is_digit_def digit_char_def by (rule nth_mem) simp

lemma digit_val_digit_char: "0 \<le> n \<Longrightarrow> n < 10 \<Longrightarrow> digit_val (digit_char n) = n"
  by (drule (1) digit_cases) (auto simp: digit_val_def digit_char_def)

lemma nat_str_digits: "0 \<le> n \<Longrightarrow> list_all is_digit (nat_str n) \<and> nat_str n \<noteq> []"
proof (induction n rule: nat_str.induct)
  case (1 n)
  then show ?case by (subst (1 2) nat_str.simps) (auto simp: is_digit_digit_char)
qed

lemma digits_val_nat_str: "0 \<le> n \<Longrightarrow> digits_val (nat_str n) = n"
proof (induction n rule: nat_str.induct)
  case (1 n)
  then show ?case
    by (subst nat_str.simps) (auto simp: digits_val_def digit_val_digit_char)
qed

lemma digit_run_digits: "list_all is_digit s \<Longrightarrow> s \<noteq> [] \<Longrightarrow> digit_run s"
  by (induction s rule: digit_run.induct) (auto simp: is_digit_def)

lemma digits_not_special:
  "list_all is_digit s \<Longrightarrow> filter (\<lambda>c. c \<noteq> CHR ''_'') s = s"
  "list_all is_digit s \<Longrightarrow> c \<in> set s \<Longrightarrow> \<not> py_ws c \<and> c \<noteq> CHR ''-'' \<and> c \<noteq> CHR ''+'' \<and> c \<noteq> CHR '':''"
  by (induction s) (auto simp: is_digit_def py_ws_def Let_def)

lemma py_strip_id: "\<forall>c \<in> set s. \<not> py_ws c \<Longrightarrow> py_strip s = s"
proof -
  assume ws: "\<forall>c \<in> set s. \<not> py_ws c"
  then have "dropWhile py_ws s = s" by (metis dropWhile_eq_self_iff hd_in_set)
  moreover have "dropWhile py_ws (rev s) = rev s"
    using ws by (metis dropWhile_eq_self_iff hd_in_set set_rev)
  ultimately show ?thesis by (simp add: py_strip_def)
qed

lemma parse_int_nat_str:
  assumes "0 \<le> n"
  shows "parse_int (nat_str n) = Some n"
proof -
  have a: "list_all is_digit (nat_str n)" "nat_str n \<noteq> []"
    using nat_str_digits[OF assms] by auto
  then have s: "py_strip (nat_str n) = nat_str n"
    by (intro py_strip_id) (use digits_not_special(2) in blast)
  obtain c t where ct: "nat_str n = c # t" using a(2) by (cases "nat_str n") auto
  then have "c \<noteq> CHR ''-''" "c \<noteq> CHR ''+''"
    using digits_not_special(2)[OF a(1), of c] by auto
  then have "split_sign (nat_str n) = (1, nat_str n)"
    by (simp add: split_sign_def ct)
  then show ?thesis
    using a by (simp add: parse_int_def s digit_run_digits run_val_def digits_not_special(1)
        digits_val_nat_str assms)
qed

lemma int_str_inject: "int_str i = int_str j \<Longrightarrow> i = j"
proof -
  have m: "hd (nat_str n) \<noteq> CHR ''-''" if "0 \<le> n" for n
    using nat_str_digits[OF that] digits_not_special(2)[of "nat_str n" "hd (nat_str n)"] by auto
  assume e: "int_str i = int_str j"
  show "i = j"
  proof (cases "i < 0 \<longleftrightarrow> j < 0")
    case True
    with e have "nat_str \<bar>i\<bar> = nat_str \<bar>j\<bar>" by (auto simp: int_str_def split: if_splits)
    then have "\<bar>i\<bar> = \<bar>j\<bar>" by (metis abs_ge_zero digits_val_nat_str)
    with True show ?thesis by linarith
  next
    case False
    with e have "\<exists>n \<ge> 0. hd (nat_str n) = CHR ''-''"
      by (auto simp: int_str_def split: if_splits) (metis list.sel(1) not_le)+
    with m show ?thesis by blast
  qed
qed

subsection \<open>Binary floating point formats\<close>

definition floor_log2 :: "rat \<Rightarrow> int" where
  "floor_log2 x = (case quotient_of x of (a, b) \<Rightarrow>
     let k = bitlen a - bitlen b in if 2 powi k \<le> x then k else k - 1)"

text \<open>Round to nearest, ties to even, with \<open>p\<close> bits of significand and least exponent \<open>emin\<close>.\<close>

definition rnd_bits :: "int \<Rightarrow> int \<Rightarrow> rat \<Rightarrow> rat" where
  "rnd_bits p emin x =
     (if x = 0 then 0
      else let e = max (floor_log2 \<bar>x\<bar> - (p - 1)) emin
           in of_int (round_half_even (x / 2 powi e)) * 2 powi e)"

definition to_format :: "int \<Rightarrow> int \<Rightarrow> int \<Rightarrow> rat \<Rightarrow> flt" where
  "to_format p emin emax x =
     (let r = rnd_bits p emin x
      in if 2 powi emax \<le> r then PInf else if r \<le> - (2 powi emax) then NInf else Fin r)"

definition to_double :: "rat \<Rightarrow> flt" where
  "to_double = to_format 53 (- 1074) 1024"

definition to_single :: "rat \<Rightarrow> flt" where
  "to_single = to_format 24 (- 149) 128"

definition dec_len :: "int \<Rightarrow> int" where
  "dec_len i = int (length (nat_str i))"

definition floor_log10 :: "rat \<Rightarrow> int" where
  "floor_log10 x = (case quotient_of x of (a, b) \<Rightarrow>
     let k = dec_len a - dec_len b in if 10 powi k \<le> x then k else k - 1)"

text \<open>The shortest digits that read back as the same double, and the format of \<^verbatim>\<open>repr\<close>.\<close>

definition dec_round :: "nat \<Rightarrow> rat \<Rightarrow> int \<times> int" where
  "dec_round n x =
     (let k = floor_log10 x; sh = k - int n + 1
      in (round_half_even (x / 10 powi sh), sh))"

fun shortest_from :: "nat \<Rightarrow> nat \<Rightarrow> rat \<Rightarrow> int \<times> int" where
  "shortest_from 0 n x = dec_round n x"
| "shortest_from (Suc fuel) n x =
     (case dec_round n x of (m, sh) \<Rightarrow>
        if to_double (of_int m * 10 powi sh) = Fin x then (m, sh) else shortest_from fuel (Suc n) x)"

definition exp_str :: "int \<Rightarrow> string" where
  "exp_str k = (let s = nat_str \<bar>k\<bar>
     in (if k < 0 then ''-'' else ''+'') @ (if length s < 2 then ''0'' @ s else s))"

definition pos_float_repr :: "rat \<Rightarrow> string" where
  "pos_float_repr x =
     (case shortest_from 16 1 x of (m, sh) \<Rightarrow>
        let ds = rev (dropWhile (\<lambda>c. c = CHR ''0'') (rev (nat_str m)));
            k = sh + dec_len m - 1
        in if - 4 \<le> k \<and> k < 16 then
             (if k < 0 then ''0.'' @ replicate (nat (- k - 1)) (CHR ''0'') @ ds
              else if int (length ds) \<le> k + 1
                then ds @ replicate (nat (k + 1) - length ds) (CHR ''0'') @ ''.0''
                else take (nat (k + 1)) ds @ ''.'' @ drop (nat (k + 1)) ds)
           else (case ds of [] \<Rightarrow> ''0.0''
                 | c # t \<Rightarrow> [c] @ (if t = [] then [] else ''.'' @ t) @ ''e'' @ exp_str k))"

fun float_repr :: "flt \<Rightarrow> string" where
  "float_repr PInf = ''inf''"
| "float_repr NInf = ''-inf''"
| "float_repr NaN = ''nan''"
| "float_repr (Fin x) =
     (if x = 0 then ''0.0'' else if x < 0 then ''-'' @ pos_float_repr (- x) else pos_float_repr x)"

text \<open>The format \<^verbatim>\<open>{x:.nf}\<close>.\<close>

definition fixed_str :: "nat \<Rightarrow> rat \<Rightarrow> string" where
  "fixed_str n x =
     (let m = round_half_even (\<bar>x\<bar> * 10 ^ n); f = nat_str (m mod 10 ^ n)
      in (if x < 0 then ''-'' else []) @ nat_str (m div 10 ^ n) @
         (if n = 0 then [] else ''.'' @ replicate (n - length f) (CHR ''0'') @ f))"

subsection \<open>\<^verbatim>\<open>str\<close> and \<^verbatim>\<open>repr\<close>\<close>

definition hex_digit :: "nat \<Rightarrow> char" where
  "hex_digit n = (if n < 10 then char_of (48 + n) else char_of (87 + n))"

definition repr_char :: "char \<Rightarrow> char \<Rightarrow> string" where
  "repr_char q c =
     (let n = (of_char c :: nat)
      in if n = 92 then [c, c]
         else if c = q then [CHR 0x5C, c]
         else if n = 10 then [CHR 0x5C, CHR ''n'']
         else if n = 13 then [CHR 0x5C, CHR ''r'']
         else if n = 9 then [CHR 0x5C, CHR ''t'']
         else if n < 32 \<or> (127 \<le> n \<and> n \<le> 160) \<or> n = 173
           then [CHR 0x5C, CHR ''x'', hex_digit (n div 16), hex_digit (n mod 16)]
         else [c])"

definition repr_str :: "string \<Rightarrow> string" where
  "repr_str s =
     (let q = (if CHR 0x27 \<in> set s \<and> CHR 0x22 \<notin> set s then CHR 0x22 else CHR 0x27)
      in [q] @ concat (map (repr_char q) s) @ [q])"

fun py_repr :: "pyval \<Rightarrow> string" where
  "py_repr PNone = ''None''"
| "py_repr (PBool b) = (if b then ''True'' else ''False'')"
| "py_repr (PInt i) = int_str i"
| "py_repr (PFlt f) = float_repr f"
| "py_repr (PStr s) = repr_str s"
| "py_repr (PList xs) = ''['' @ py_join '', '' (map py_repr xs) @ '']''"
| "py_repr (PDict d) =
     ''{'' @ py_join '', '' (map (\<lambda>kv. repr_str (fst kv) @ '': '' @ py_repr (snd kv)) d) @ ''}''"

definition py_str :: "pyval \<Rightarrow> string" where
  "py_str v = (case v of PStr s \<Rightarrow> s | _ \<Rightarrow> py_repr v)"

lemma py_str_PStr [simp]: "py_str (PStr s) = s"
  by (simp add: py_str_def)

subsection \<open>\<^verbatim>\<open>int\<close> and \<^verbatim>\<open>float\<close>\<close>

fun py_int :: "pyval \<Rightarrow> int result" where
  "py_int (PBool b) = Inr (if b then 1 else 0)"
| "py_int (PInt i) = Inr i"
| "py_int (PFlt (Fin x)) = Inr (trunc x)"
| "py_int (PFlt NaN) = Inl (ValueError ''cannot convert float NaN to integer'')"
| "py_int (PFlt PInf) = Inl OverflowError"
| "py_int (PFlt NInf) = Inl OverflowError"
| "py_int (PStr s) =
     (case parse_int s of Some i \<Rightarrow> Inr i | None \<Rightarrow> Inl (ValueError ''invalid literal for int()''))"
| "py_int PNone = Inl TypeError"
| "py_int (PList xs) = Inl TypeError"
| "py_int (PDict d) = Inl TypeError"

text \<open>The literals of \<^verbatim>\<open>float\<close>: a run of digits, a fraction, an exponent.\<close>

definition parse_exp :: "string \<Rightarrow> int option" where
  "parse_exp t = (case split_sign t of (sg, u) \<Rightarrow>
     if digit_run u then Some (sg * run_val u) else None)"

definition parse_mant :: "string \<Rightarrow> rat option" where
  "parse_mant t =
     (let ip = takeWhile (\<lambda>c. c \<noteq> CHR ''.'') t; rest = dropWhile (\<lambda>c. c \<noteq> CHR ''.'') t
      in (case rest of
            [] \<Rightarrow> (if digit_run ip then Some (of_int (run_val ip)) else None)
          | _ # fp \<Rightarrow>
              if (ip = [] \<and> fp = []) \<or> (ip \<noteq> [] \<and> \<not> digit_run ip) \<or> (fp \<noteq> [] \<and> \<not> digit_run fp) then None
              else Some (of_int (run_val ip) +
                of_int (run_val fp) / 10 ^ length (filter (\<lambda>c. c \<noteq> CHR ''_'') fp))))"

definition parse_float :: "string \<Rightarrow> flt option" where
  "parse_float s =
     (case split_sign (py_lower (py_strip s)) of (sg, t) \<Rightarrow>
        if t = ''inf'' \<or> t = ''infinity'' then Some (if sg < 0 then NInf else PInf)
        else if t = ''nan'' then Some NaN
        else
          let mant = takeWhile (\<lambda>c. c \<noteq> CHR ''e'') t; rest = dropWhile (\<lambda>c. c \<noteq> CHR ''e'') t
          in (case (parse_mant mant, (case rest of [] \<Rightarrow> Some 0 | _ # u \<Rightarrow> parse_exp u)) of
                (Some m, Some e) \<Rightarrow> Some (to_double (of_int sg * m * 10 powi e))
              | _ \<Rightarrow> None))"

fun py_float :: "pyval \<Rightarrow> flt result" where
  "py_float (PBool b) = Inr (Fin (if b then 1 else 0))"
| "py_float (PInt i) =
     (case to_double (of_int i) of Fin x \<Rightarrow> Inr (Fin x) | _ \<Rightarrow> Inl OverflowError)"
| "py_float (PFlt f) = Inr f"
| "py_float (PStr s) =
     (case parse_float s of Some f \<Rightarrow> Inr f | None \<Rightarrow> Inl (ValueError ''could not convert string to float''))"
| "py_float PNone = Inl TypeError"
| "py_float (PList xs) = Inl TypeError"
| "py_float (PDict d) = Inl TypeError"

text \<open>The exceptions these conversions raise are the ones the ingestion code catches.\<close>

fun conversion_error :: "pyexc \<Rightarrow> bool" where
  "conversion_error (ValueError m) = True"
| "conversion_error TypeError = True"
| "conversion_error OverflowError = True"
| "conversion_error _ = False"

lemma py_int_error: "py_int v = Inl e \<Longrightarrow> conversion_error e"
  by (cases v rule: py_int.cases) (auto split: option.splits)

lemma py_float_error: "py_float v = Inl e \<Longrightarrow> conversion_error e"
  by (cases v rule: py_float.cases) (auto split: option.splits flt.splits)

subsection \<open>Exactness of the 32-bit format\<close>

lemma rnd_bits_int:
  assumes "floor_log2 \<bar>of_int i\<bar> < p" "emin \<le> 0"
  shows "rnd_bits p emin (of_int i) = of_int i"
proof (cases "i = 0")
  case False
  define e where "e = max (floor_log2 \<bar>of_int i\<bar> - (p - 1)) emin"
  have "e \<le> 0" using assms by (simp add: e_def)
  then obtain n where n: "e = - int n" by (metis nonpos_int_cases)
  have "of_int i / 2 powi e = (of_int (i * 2 ^ n) :: rat)"
    by (simp add: n power_int_minus field_simps)
  then have "round_half_even (of_int i / 2 powi e) = i * 2 ^ n"
    by (simp only: round_half_even_of_int)
  then show ?thesis
    using False by (simp add: rnd_bits_def e_def[symmetric] n power_int_minus)
qed (simp add: rnd_bits_def)

lemma floor_log2_int: "0 < i \<Longrightarrow> floor_log2 (of_int i) < bitlen i"
  by (simp add: floor_log2_def Let_def bitlen_alt_def[of 1])

lemma to_format_int:
  assumes "\<bar>i\<bar> < 2 ^ n" "int n \<le> p" "emin \<le> 0" "int n \<le> emax"
  shows "to_format p emin emax (of_int i) = Fin (of_int i)"
proof -
  have "floor_log2 \<bar>of_int i\<bar> < p" if "i \<noteq> 0"
    using floor_log2_int[of "\<bar>i\<bar>"] that assms bitlen_le_iff_power[of "\<bar>i\<bar>" n] by simp
  then have r: "rnd_bits p emin (of_int i) = of_int i"
    using rnd_bits_int[of i p emin] assms by (cases "i = 0") (simp_all add: rnd_bits_def)
  have "(2 :: rat) powi int n \<le> 2 powi emax" using assms(4) by (intro power_int_increasing) auto
  moreover have "\<bar>of_int i :: rat\<bar> < 2 ^ n"
    using assms(1) by (metis of_int_abs of_int_less_iff of_int_numeral of_int_power)
  ultimately have "\<bar>of_int i :: rat\<bar> < 2 powi emax" by simp
  then show ?thesis by (auto simp: to_format_def Let_def r)
qed

lemma to_single_int: "\<bar>i\<bar> < 2 ^ 24 \<Longrightarrow> to_single (of_int i) = Fin (of_int i)"
  by (simp add: to_single_def to_format_int[where n = 24])

lemma to_double_int: "\<bar>i\<bar> < 2 ^ 53 \<Longrightarrow> to_double (of_int i) = Fin (of_int i)"
  by (simp add: to_double_def to_format_int[where n = 53])

lemma py_float_int: "\<bar>i\<bar> < 2 ^ 53 \<Longrightarrow> py_float (PInt i) = Inr (Fin (of_int i))"
  by (simp add: to_double_int)

end
