(* ===== verification/Telemetry.thy ===== *)
theory Telemetry
  imports PyValue
begin

text \<open>
  \<open>packages/backend/src/constella/telemetry.py\<close> and \<open>performance.py\<close>: the numeric rules, the
  scans that report invalid readings, the filters that drop them, and the last-resort cleaning of
  a value before it goes on the wire.
\<close>

subsection \<open>Numeric rules\<close>

definition FLOAT32_MAX :: rat where
  "FLOAT32_MAX = 340282346638528859811704183484516925440"

definition SQLITE_INT_MAX :: rat where
  "SQLITE_INT_MAX = 2 ^ 63 - 1"

record numeric_rule =
  minimum :: rat
  maximum :: rat
  integer :: bool
  optional :: bool

definition default_rule :: numeric_rule where
  "default_rule = \<lparr>minimum = 0, maximum = SQLITE_INT_MAX, integer = False, optional = False\<rparr>"

text \<open>
  \<^verbatim>\<open>NumericRule.accepts\<close>: \<^verbatim>\<open>type(value) in (int, float)\<close> excludes booleans, and every
  comparison with NaN is false, so a rule with finite bounds never reaches \<^verbatim>\<open>int(value)\<close>
  with a value that has no integer part.
\<close>

fun accepts :: "numeric_rule \<Rightarrow> pyval \<Rightarrow> bool" where
  "accepts r PNone = optional r"
| "accepts r (PInt i) = (minimum r \<le> of_int i \<and> of_int i \<le> maximum r)"
| "accepts r (PFlt (Fin x)) =
     (minimum r \<le> x \<and> x \<le> maximum r \<and> (\<not> integer r \<or> of_int (trunc x) = x))"
| "accepts r _ = False"

definition COUNT :: numeric_rule where
  "COUNT = default_rule\<lparr>integer := True\<rparr>"

definition OPTIONAL_COUNT :: numeric_rule where
  "OPTIONAL_COUNT = default_rule\<lparr>integer := True, optional := True\<rparr>"

definition PERCENT :: numeric_rule where
  "PERCENT = default_rule\<lparr>maximum := 100\<rparr>"

definition READING :: numeric_rule where
  "READING = default_rule\<lparr>minimum := - FLOAT32_MAX, maximum := FLOAT32_MAX\<rparr>"

definition TIMESTAMP :: numeric_rule where
  "TIMESTAMP = default_rule\<lparr>maximum := 253402300799, optional := True\<rparr>"

definition SAMPLE_TIME :: numeric_rule where
  "SAMPLE_TIME = default_rule\<lparr>minimum := 1 / 1000000, maximum := 253402300799\<rparr>"

definition INTERVAL :: numeric_rule where
  "INTERVAL = default_rule\<lparr>minimum := 1 / 1000000, maximum := 86400\<rparr>"

definition NONNEGATIVE :: numeric_rule where
  "NONNEGATIVE = default_rule"

definition GPU_METRIC_RULES :: "(string, numeric_rule) dict" where
  "GPU_METRIC_RULES =
    [(''utilization_gpu'', PERCENT),
     (''utilization_mem'', PERCENT),
     (''memory_total_mb'', COUNT),
     (''memory_used_mb'', COUNT),
     (''memory_free_mb'', COUNT),
     (''temperature_c'', default_rule\<lparr>minimum := - 27315 / 100\<rparr>),
     (''power_watts'', default_rule),
     (''power_limit_watts'', default_rule),
     (''clock_sm_mhz'', OPTIONAL_COUNT),
     (''clock_mem_mhz'', OPTIONAL_COUNT),
     (''max_clock_sm_mhz'', OPTIONAL_COUNT),
     (''max_clock_mem_mhz'', OPTIONAL_COUNT)]"

definition BASIC_METRICS :: "string list" where
  "BASIC_METRICS = map fst (filter (\<lambda>nr. \<not> optional (snd nr)) GPU_METRIC_RULES)"

definition PROCESS_METRIC_RULES :: "(string, numeric_rule) dict" where
  "PROCESS_METRIC_RULES =
    [(''pid'', default_rule\<lparr>minimum := 1, integer := True\<rparr>),
     (''gpu_memory_mb'', COUNT),
     (''ppid'', OPTIONAL_COUNT),
     (''user_uid'', OPTIONAL_COUNT),
     (''runtime_seconds'', OPTIONAL_COUNT),
     (''process_start_time'', TIMESTAMP),
     (''parent_start_time'', TIMESTAMP)]"

definition PID_RULE :: numeric_rule where
  "PID_RULE = default_rule\<lparr>minimum := 1, integer := True\<rparr>"

definition OWNER_METRIC_RULES :: "(string, numeric_rule) dict" where
  "OWNER_METRIC_RULES =
    [(''process_count'', COUNT), (''total_memory_mb'', COUNT), (''runtime_seconds'', OPTIONAL_COUNT)]"

definition numeric_issues ::
    "(string, pyval) dict \<Rightarrow> (string, numeric_rule) dict \<Rightarrow> (string, string) dict" where
  "numeric_issues vals rules =
     map (\<lambda>nr. (fst nr, ''Invalid numeric reading; sample omitted''))
       (filter (\<lambda>nr. case map_of vals (fst nr) of None \<Rightarrow> False | Some v \<Rightarrow> \<not> accepts (snd nr) v) rules)"

definition filter_readings ::
    "(string, pyval) dict \<Rightarrow> (string, numeric_rule) dict \<Rightarrow> (string, pyval) dict \<times> string list" where
  "filter_readings metrics rules =
     (let ok = (\<lambda>n v. accepts (case map_of rules n of None \<Rightarrow> READING | Some r \<Rightarrow> r) v);
          invalid = map fst (filter (\<lambda>nv. \<not> ok (fst nv) (snd nv)) metrics)
      in if invalid = [] then (metrics, []) else (fold AList.delete invalid metrics, invalid))"

text \<open>
  \<^verbatim>\<open>math.isfinite\<close> raises \<^verbatim>\<open>OverflowError\<close> on an integer too large for a double, and
  \<^verbatim>\<open>finite_number\<close> turns that into \<^term>\<open>False\<close>.
\<close>

fun finite_number :: "pyval \<Rightarrow> bool" where
  "finite_number (PInt i) = (case to_double (of_int i) of Fin x \<Rightarrow> True | _ \<Rightarrow> False)"
| "finite_number (PFlt (Fin x)) = True"
| "finite_number _ = False"

fun finite_reading :: "pyval \<Rightarrow> bool" where
  "finite_reading (PInt i) = (- FLOAT32_MAX \<le> of_int i \<and> of_int i \<le> FLOAT32_MAX)"
| "finite_reading (PFlt (Fin x)) = (- FLOAT32_MAX \<le> x \<and> x \<le> FLOAT32_MAX)"
| "finite_reading _ = False"

fun json_safe :: "pyval \<Rightarrow> pyval" where
  "json_safe (PFlt (Fin x)) = PFlt (Fin x)"
| "json_safe (PFlt _) = PNone"
| "json_safe (PDict d) = PDict (map (\<lambda>kv. (fst kv, json_safe (snd kv))) d)"
| "json_safe (PList xs) = PList (map json_safe xs)"
| "json_safe v = v"

text \<open>
  What \<^verbatim>\<open>json.dumps(..., allow_nan=False)\<close> refuses: an infinity or NaN anywhere.
  \<^verbatim>\<open>telemetry_json\<close> cleans the value only when the dump refuses it, so the value it encodes
  is \<^verbatim>\<open>wire_value\<close>.
\<close>

fun json_encodable :: "pyval \<Rightarrow> bool" where
  "json_encodable (PFlt (Fin x)) = True"
| "json_encodable (PFlt _) = False"
| "json_encodable (PDict d) = list_all (\<lambda>kv. json_encodable (snd kv)) d"
| "json_encodable (PList xs) = list_all json_encodable xs"
| "json_encodable v = True"

definition wire_value :: "pyval \<Rightarrow> pyval" where
  "wire_value v = (if json_encodable v then v else json_safe v)"

subsection \<open>Performance metrics\<close>

definition NVIDIA_GPM_PROFILE :: string where
  "NVIDIA_GPM_PROFILE = ''nvidia.gpm.v1''"

definition NVIDIA_GPM_METRICS :: "string list" where
  "NVIDIA_GPM_METRICS =
    [''nvidia.gpm.sm_active'',
     ''nvidia.gpm.sm_occupancy'',
     ''nvidia.gpm.tensor_active'',
     ''nvidia.gpm.dram_bw_active'',
     ''nvidia.gpm.fp16_non_tensor_active'',
     ''nvidia.gpm.fp32_non_tensor_active'',
     ''nvidia.gpm.fp64_non_tensor_active'',
     ''nvidia.gpm.pcie_tx_per_second'',
     ''nvidia.gpm.pcie_rx_per_second'',
     ''nvidia.gpm.nvlink_tx_per_second'',
     ''nvidia.gpm.nvlink_rx_per_second'']"

definition PERFORMANCE_STATUSES :: "string list" where
  "PERFORMANCE_STATUSES = [''warming'', ''available'', ''unsupported'', ''error'']"

definition gpm_rule :: "string \<Rightarrow> numeric_rule" where
  "gpm_rule metric =
     (if py_endswith metric ''_per_second'' then default_rule\<lparr>maximum := FLOAT32_MAX\<rparr> else PERCENT)"

definition NVIDIA_GPM_RULES :: "(string, numeric_rule) dict" where
  "NVIDIA_GPM_RULES = map (\<lambda>m. (m, gpm_rule m)) NVIDIA_GPM_METRICS"

text \<open>The environment is a parameter: \<^verbatim>\<open>env k\<close> is \<^verbatim>\<open>os.environ.get(k)\<close>.\<close>

type_synonym environ = "string \<Rightarrow> string option"

definition env_flag :: "environ \<Rightarrow> string \<Rightarrow> string \<Rightarrow> bool" where
  "env_flag env name dflt =
     (py_lower (py_strip (case env name of None \<Rightarrow> dflt | Some v \<Rightarrow> v))
        \<notin> set [''0'', ''false'', ''no'', ''off''])"

definition nvidia_gpm_enabled :: "environ \<Rightarrow> bool" where
  "nvidia_gpm_enabled env = env_flag env ''CONSTELLA_NVML_GPM'' ''auto''"

definition nvidia_gpm_rollup_enabled :: "environ \<Rightarrow> bool" where
  "nvidia_gpm_rollup_enabled env = env_flag env ''CONSTELLA_NVIDIA_GPM_ROLLUP'' ''on''"

definition nvidia_gpm_highres_enabled :: "environ \<Rightarrow> bool" where
  "nvidia_gpm_highres_enabled env = env_flag env ''CONSTELLA_NVIDIA_GPM_HIGHRES'' ''on''"

definition performance_profiles :: "environ \<Rightarrow> string \<Rightarrow> string list" where
  "performance_profiles env device_type =
     (if device_type = ''nvidia'' \<and> nvidia_gpm_enabled env then [NVIDIA_GPM_PROFILE] else [])"

subsection \<open>Accepted values are finite numbers within the bounds\<close>

text \<open>The number an accepted value stands for.\<close>

fun num_val :: "pyval \<Rightarrow> rat" where
  "num_val (PInt i) = of_int i"
| "num_val (PFlt (Fin x)) = x"
| "num_val _ = 0"

lemmas rule_defs = default_rule_def COUNT_def OPTIONAL_COUNT_def PERCENT_def READING_def
  TIMESTAMP_def SAMPLE_TIME_def INTERVAL_def NONNEGATIVE_def PID_RULE_def SQLITE_INT_MAX_def
  FLOAT32_MAX_def

lemma accepts_bounds:
  "accepts r v \<Longrightarrow> v \<noteq> PNone \<Longrightarrow> minimum r \<le> num_val v \<and> num_val v \<le> maximum r"
  by (cases "(r, v)" rule: accepts.cases) auto

lemma accepts_integer:
  "accepts r v \<Longrightarrow> v \<noteq> PNone \<Longrightarrow> integer r \<Longrightarrow> num_val v \<in> \<int>"
  by (cases "(r, v)" rule: accepts.cases) (auto, metis Ints_of_int)

lemma accepts_shape:
  "accepts r v \<Longrightarrow> (v = PNone \<and> optional r) \<or> (\<exists>i. v = PInt i) \<or> (\<exists>x. v = PFlt (Fin x))"
  by (cases "(r, v)" rule: accepts.cases) auto

lemma accepts_py_int:
  "accepts r v \<Longrightarrow> v \<noteq> PNone \<Longrightarrow> py_int v = Inr (trunc (num_val v))"
  by (cases "(r, v)" rule: accepts.cases) auto

lemma not_accepts_PNone [simp]: "accepts r PNone \<longleftrightarrow> optional r"
  by simp

lemma numeric_issues_iff:
  "name \<in> fst ` set (numeric_issues vals rules) \<longleftrightarrow>
     (\<exists>r v. (name, r) \<in> set rules \<and> map_of vals name = Some v \<and> \<not> accepts r v)"
  by (force simp: numeric_issues_def image_iff split: option.splits)

lemma numeric_issues_Nil:
  "numeric_issues vals rules = [] \<longleftrightarrow>
     (\<forall>(n, r) \<in> set rules. \<forall>v. map_of vals n = Some v \<longrightarrow> accepts r v)"
  by (auto simp: numeric_issues_def filter_empty_conv split: option.splits)

lemma dict_ok_numeric_issues: "dict_ok rules \<Longrightarrow> dict_ok (numeric_issues vals rules)"
  by (simp add: numeric_issues_def dict_ok_def o_def distinct_map_filter)

lemma dict_ok_GPU_METRIC_RULES [simp]: "dict_ok GPU_METRIC_RULES"
  by (simp add: dict_ok_def GPU_METRIC_RULES_def)

lemma map_of_fold_delete:
  "map_of (fold AList.delete ks d) k = (if k \<in> set ks then None else map_of d k)"
  by (induction ks arbitrary: d) (auto simp: map_of_delete)

lemma dict_ok_fold_delete [inv_intros]: "dict_ok d \<Longrightarrow> dict_ok (fold AList.delete ks d)"
  by (induction ks arbitrary: d) auto

lemma json_safe_encodable: "json_encodable (json_safe v)"
  by (induction v rule: json_safe.induct) (auto simp: list_all_iff)

lemma json_safe_id: "json_encodable v \<Longrightarrow> json_safe v = v"
  by (induction v rule: json_safe.induct)
     (auto simp: list_all_iff intro!: map_idI split: prod.splits)

text \<open>
  Every value the rule accepts is a finite number within the rule's bounds, integral when the
  rule asks for it, and converts with \<^verbatim>\<open>int\<close> without raising; the one other value a rule can
  accept is \<^verbatim>\<open>None\<close>, exactly when the rule is optional.
\<close>

theorem accepts_sound:
  assumes "accepts r v"
  shows "(v = PNone \<and> optional r) \<or>
    (minimum r \<le> num_val v \<and> num_val v \<le> maximum r \<and> (integer r \<longrightarrow> num_val v \<in> \<int>) \<and>
     py_int v = Inr (trunc (num_val v)))"
  using assms accepts_shape[OF assms] accepts_bounds[OF assms] accepts_integer[OF assms]
    accepts_py_int[OF assms]
  by auto

theorem accepts_sound_witness:
  "accepts COUNT (PFlt (Fin 5)) \<and> py_int (PFlt (Fin 5)) = Inr 5"
proof -
  have a: "accepts COUNT (PFlt (Fin 5))" by (simp add: rule_defs trunc_def)
  from accepts_sound[OF a] have "py_int (PFlt (Fin 5)) = Inr (trunc 5)" by simp
  then show ?thesis using a by (simp add: trunc_def)
qed

text \<open>
  Filtering keeps exactly the readings their rule accepts, unchanged and in order of key, and
  reports exactly the names it removed.
\<close>

theorem filter_readings_exact:
  assumes "dict_ok metrics" "filter_readings metrics rules = (cleaned, invalid)"
  shows "map_of cleaned n =
      (case map_of metrics n of None \<Rightarrow> None
       | Some v \<Rightarrow> if accepts (case map_of rules n of None \<Rightarrow> READING | Some r \<Rightarrow> r) v
           then Some v else None) \<and>
    (n \<in> set invalid \<longleftrightarrow> has_key metrics n \<and> \<not> has_key cleaned n)"
proof -
  define ok where "ok = (\<lambda>n v. accepts (case map_of rules n of None \<Rightarrow> READING | Some r \<Rightarrow> r) v)"
  have inv: "invalid = map fst (filter (\<lambda>nv. \<not> ok (fst nv) (snd nv)) metrics)"
    using assms(2) by (auto simp: filter_readings_def ok_def Let_def split: if_splits)
  have "cleaned = fold AList.delete invalid metrics"
    using assms(2) by (auto simp: filter_readings_def ok_def[symmetric] Let_def inv split: if_splits)
  then have cl: "map_of cleaned n = (if n \<in> set invalid then None else map_of metrics n)"
    by (simp add: map_of_fold_delete)
  have mem: "n \<in> set invalid \<longleftrightarrow> (\<exists>v. map_of metrics n = Some v \<and> \<not> ok n v)"
    by (force simp: inv dict_ok_map_of[OF assms(1), symmetric])
  show ?thesis
    unfolding ok_def[symmetric] using cl mem by (auto simp: has_key_def ok_def split: option.splits)
qed

theorem filter_readings_exact_witness:
  "map_of (fst (filter_readings [(''a'', PInt 5), (''b'', PFlt NaN)] [])) ''b'' = None"
  using filter_readings_exact[of "[(''a'', PInt 5), (''b'', PFlt NaN)]" "[]" _ _ "''b''",
      OF _ prod.collapse[symmetric]]
  by (simp add: dict_ok_def)

text \<open>
  Whatever value is handed to the wire, the value that is encoded contains no infinity and no
  NaN, and a value that was already encodable is sent unchanged.
\<close>

theorem wire_value_encodable:
  "json_encodable (wire_value v) \<and> (json_encodable v \<longrightarrow> wire_value v = v)"
  by (simp add: wire_value_def json_safe_encodable)

theorem wire_value_encodable_witness:
  "json_encodable (wire_value (PDict [(''x'', PFlt NaN)])) \<and>
   wire_value (PList [PInt 1]) = PList [PInt 1]"
proof -
  have "json_encodable (PList [PInt 1])" by simp
  then show ?thesis
    using wire_value_encodable[of "PDict [(''x'', PFlt NaN)]"] wire_value_encodable[of "PList [PInt 1]"]
    by blast
qed

end
