(* ===== verification/Schema.thy ===== *)
theory Schema
  imports Telemetry
begin

text \<open>
  \<open>packages/backend/src/constella/schema.py\<close>: the data of a sample (processes, accelerators,
  nodes, the cluster), the validation of readings, the identifiers and the totals.

  Fields that the ingestion code copies from a message without converting them keep the type
  \<^typ>\<open>pyval\<close>.  The readings of an accelerator have a type parameter: \<^typ>\<open>pyval\<close> for what a
  sampler produced, \<^typ>\<open>rat\<close> once the readings are known to be numbers.
\<close>

subsection \<open>Processes and owners\<close>

record gpu_process =
  p_pid :: int
  p_name :: string
  p_gpu_memory_mb :: int
  p_ppid :: pyval
  p_user :: pyval
  p_task_name :: pyval
  p_exe :: pyval
  p_cmdline :: pyval
  p_cmdline_hash :: pyval
  p_kind :: string
  p_runtime_seconds :: pyval
  p_start_time :: pyval
  p_parent_start_time :: pyval
  p_detail_status :: string
  p_detail_error :: pyval
  p_user_uid :: pyval

record other_user =
  o_user :: string
  o_process_count :: int
  o_total_memory_mb :: int
  o_runtime_seconds :: pyval

record hw_gpu =
  h_index :: int
  h_uuid :: string
  h_name :: string
  h_architecture :: pyval

subsection \<open>Accelerator performance\<close>

record performance =
  f_profile :: string
  f_status :: string
  f_sampled_at :: rat
  f_interval_ms :: "rat option"
  f_metrics :: "(string, pyval) dict"
  f_supported_metrics :: "string list"
  f_error :: "string option"
  f_invalid_metrics :: "string list"

text \<open>\<^verbatim>\<open>AcceleratorPerformance.__post_init__\<close>, on the arguments of the constructor.\<close>

definition mk_performance ::
    "string \<Rightarrow> string \<Rightarrow> pyval \<Rightarrow> pyval \<Rightarrow> (string, pyval) dict \<Rightarrow> string list \<Rightarrow> string option
      \<Rightarrow> string list \<Rightarrow> performance result" where
  "mk_performance profile status sampled_at interval_ms metrics supported err invalid0 =
     (if status \<notin> set PERFORMANCE_STATUSES
        then Inl (ValueError ''invalid accelerator performance status'')
      else
        let (kept, invalid) =
              filter_readings metrics (if profile = NVIDIA_GPM_PROFILE then NVIDIA_GPM_RULES else []);
            invalid_metrics = first_occurrences (invalid0 @ invalid);
            status' = (if invalid_metrics \<noteq> [] \<and> kept = [] \<and> status = ''available''
                       then ''error'' else status)
        in if \<not> finite_number sampled_at
             then Inl (ValueError ''invalid performance sample timestamp'')
           else Inr \<lparr>f_profile = profile, f_status = status', f_sampled_at = num_val sampled_at,
                     f_interval_ms = (if finite_number interval_ms then Some (num_val interval_ms) else None),
                     f_metrics = kept, f_supported_metrics = supported, f_error = err,
                     f_invalid_metrics = invalid_metrics\<rparr>)"

definition opt_val :: "('a \<Rightarrow> pyval) \<Rightarrow> 'a option \<Rightarrow> pyval" where
  "opt_val f x = (case x of None \<Rightarrow> PNone | Some y \<Rightarrow> f y)"

definition perf_to_dict :: "performance \<Rightarrow> pyval" where
  "perf_to_dict p = PDict
     [(''profile'', PStr (f_profile p)), (''status'', PStr (f_status p)),
      (''sampled_at'', PFlt (Fin (f_sampled_at p))),
      (''interval_ms'', opt_val (\<lambda>x. PFlt (Fin x)) (f_interval_ms p)),
      (''metrics'', PDict (f_metrics p)),
      (''supported_metrics'', PList (map PStr (f_supported_metrics p))),
      (''error'', opt_val PStr (f_error p)),
      (''invalid_metrics'', PList (map PStr (f_invalid_metrics p)))]"

subsection \<open>Accelerators\<close>

record 'n gpu_info =
  g_index :: int
  g_node_id :: "string option"
  g_gpu_id :: "string option"
  g_device_type :: string
  g_card_id :: "string option"
  g_die_id :: "int option"
  g_uuid :: string
  g_name :: string
  g_pci_bus_id :: pyval
  g_utilization_gpu :: 'n
  g_utilization_mem :: 'n
  g_memory_total_mb :: 'n
  g_memory_used_mb :: 'n
  g_memory_free_mb :: 'n
  g_temperature_c :: 'n
  g_power_watts :: 'n
  g_power_limit_watts :: 'n
  g_clock_sm_mhz :: pyval
  g_clock_mem_mhz :: pyval
  g_max_clock_sm_mhz :: pyval
  g_max_clock_mem_mhz :: pyval
  g_pstate :: pyval
  g_compute_mode :: pyval
  g_mig_mode :: pyval
  g_ecc_mode :: pyval
  g_performance :: "performance option"
  g_processes :: "gpu_process list"
  g_other_users :: "other_user list"
  g_error :: pyval
  g_telemetry_errors :: "(string, string) dict"

type_synonym gpu = "rat gpu_info"
type_synonym raw_gpu = "pyval gpu_info"

definition blank_gpu :: "int \<Rightarrow> string \<Rightarrow> string \<Rightarrow> string \<Rightarrow> string \<Rightarrow> gpu" where
  "blank_gpu index node_id uuid name err =
     \<lparr>g_index = index, g_node_id = Some node_id, g_gpu_id = None, g_device_type = ''nvidia'',
      g_card_id = None, g_die_id = None, g_uuid = uuid, g_name = name, g_pci_bus_id = PNone,
      g_utilization_gpu = 0, g_utilization_mem = 0, g_memory_total_mb = 0, g_memory_used_mb = 0,
      g_memory_free_mb = 0, g_temperature_c = 0, g_power_watts = 0, g_power_limit_watts = 0,
      g_clock_sm_mhz = PNone, g_clock_mem_mhz = PNone, g_max_clock_sm_mhz = PNone,
      g_max_clock_mem_mhz = PNone, g_pstate = PNone, g_compute_mode = PNone, g_mig_mode = PNone,
      g_ecc_mode = PNone, g_performance = None, g_processes = [], g_other_users = [],
      g_error = PStr err, g_telemetry_errors = []\<rparr>"

text \<open>\<^verbatim>\<open>{name: getattr(self, name) for name in GPU_METRIC_RULES}\<close>.\<close>

definition gpu_readings :: "raw_gpu \<Rightarrow> (string, pyval) dict" where
  "gpu_readings g =
    [(''utilization_gpu'', g_utilization_gpu g), (''utilization_mem'', g_utilization_mem g),
     (''memory_total_mb'', g_memory_total_mb g), (''memory_used_mb'', g_memory_used_mb g),
     (''memory_free_mb'', g_memory_free_mb g), (''temperature_c'', g_temperature_c g),
     (''power_watts'', g_power_watts g), (''power_limit_watts'', g_power_limit_watts g),
     (''clock_sm_mhz'', g_clock_sm_mhz g), (''clock_mem_mhz'', g_clock_mem_mhz g),
     (''max_clock_sm_mhz'', g_max_clock_sm_mhz g), (''max_clock_mem_mhz'', g_max_clock_mem_mhz g)]"

text \<open>\<^verbatim>\<open>setattr(self, name, v)\<close> for the metric names.\<close>

definition set_reading :: "string \<Rightarrow> pyval \<Rightarrow> raw_gpu \<Rightarrow> raw_gpu" where
  "set_reading name v g =
     (if name = ''utilization_gpu'' then g\<lparr>g_utilization_gpu := v\<rparr>
      else if name = ''utilization_mem'' then g\<lparr>g_utilization_mem := v\<rparr>
      else if name = ''memory_total_mb'' then g\<lparr>g_memory_total_mb := v\<rparr>
      else if name = ''memory_used_mb'' then g\<lparr>g_memory_used_mb := v\<rparr>
      else if name = ''memory_free_mb'' then g\<lparr>g_memory_free_mb := v\<rparr>
      else if name = ''temperature_c'' then g\<lparr>g_temperature_c := v\<rparr>
      else if name = ''power_watts'' then g\<lparr>g_power_watts := v\<rparr>
      else if name = ''power_limit_watts'' then g\<lparr>g_power_limit_watts := v\<rparr>
      else if name = ''clock_sm_mhz'' then g\<lparr>g_clock_sm_mhz := v\<rparr>
      else if name = ''clock_mem_mhz'' then g\<lparr>g_clock_mem_mhz := v\<rparr>
      else if name = ''max_clock_sm_mhz'' then g\<lparr>g_max_clock_sm_mhz := v\<rparr>
      else if name = ''max_clock_mem_mhz'' then g\<lparr>g_max_clock_mem_mhz := v\<rparr>
      else g)"

definition reset_value :: "string \<Rightarrow> pyval" where
  "reset_value name =
     (case map_of GPU_METRIC_RULES name of
        Some r \<Rightarrow> if optional r then PNone else PInt 0 | None \<Rightarrow> PInt 0)"

definition reading_issues :: "raw_gpu \<Rightarrow> (string, string) dict" where
  "reading_issues g =
     (let issues = numeric_issues (gpu_readings g) GPU_METRIC_RULES
      in if \<not> has_key issues ''memory_used_mb'' \<and> \<not> has_key issues ''memory_total_mb'' \<and>
            num_val (g_memory_total_mb g) > 0 \<and>
            num_val (g_memory_used_mb g) > num_val (g_memory_total_mb g)
         then AList.update ''memory_used_mb'' ''Memory usage exceeds capacity; sample omitted'' issues
         else issues)"

definition validate_readings :: "raw_gpu \<Rightarrow> raw_gpu" where
  "validate_readings g =
     (let issues = reading_issues g
      in fold (\<lambda>name. set_reading name (reset_value name)) (map fst issues)
           (g\<lparr>g_telemetry_errors := dict_update_all (g_telemetry_errors g) issues\<rparr>))"

definition basic_metrics_valid :: "'n gpu_info \<Rightarrow> bool" where
  "basic_metrics_valid g =
     (\<not> truthy (g_error g) \<and> list_all (\<lambda>n. \<not> has_key (g_telemetry_errors g) n) BASIC_METRICS)"

definition percent_of :: "rat \<Rightarrow> rat \<Rightarrow> rat" where
  "percent_of part whole = (if whole \<le> 0 then 0 else pyround 1 (part / whole * 100))"

definition memory_percent :: "gpu \<Rightarrow> rat" where
  "memory_percent g = percent_of (g_memory_used_mb g) (g_memory_total_mb g)"

definition power_percent :: "gpu \<Rightarrow> rat" where
  "power_percent g = percent_of (g_power_watts g) (g_power_limit_watts g)"

text \<open>The readings of a sampler read as numbers.\<close>

definition numeric_gpu :: "raw_gpu \<Rightarrow> gpu" where
  "numeric_gpu g =
     \<lparr>g_index = g_index g, g_node_id = g_node_id g, g_gpu_id = g_gpu_id g,
      g_device_type = g_device_type g, g_card_id = g_card_id g, g_die_id = g_die_id g,
      g_uuid = g_uuid g, g_name = g_name g, g_pci_bus_id = g_pci_bus_id g,
      g_utilization_gpu = num_val (g_utilization_gpu g),
      g_utilization_mem = num_val (g_utilization_mem g),
      g_memory_total_mb = num_val (g_memory_total_mb g),
      g_memory_used_mb = num_val (g_memory_used_mb g),
      g_memory_free_mb = num_val (g_memory_free_mb g),
      g_temperature_c = num_val (g_temperature_c g),
      g_power_watts = num_val (g_power_watts g),
      g_power_limit_watts = num_val (g_power_limit_watts g),
      g_clock_sm_mhz = g_clock_sm_mhz g, g_clock_mem_mhz = g_clock_mem_mhz g,
      g_max_clock_sm_mhz = g_max_clock_sm_mhz g, g_max_clock_mem_mhz = g_max_clock_mem_mhz g,
      g_pstate = g_pstate g, g_compute_mode = g_compute_mode g, g_mig_mode = g_mig_mode g,
      g_ecc_mode = g_ecc_mode g, g_performance = g_performance g, g_processes = g_processes g,
      g_other_users = g_other_users g, g_error = g_error g,
      g_telemetry_errors = g_telemetry_errors g\<rparr>"

text \<open>\<^verbatim>\<open>dataclasses.asdict\<close> of a process and of an owner, and \<^verbatim>\<open>GpuInfo.to_dict\<close>.\<close>

definition process_to_dict :: "gpu_process \<Rightarrow> pyval" where
  "process_to_dict p = PDict
     [(''pid'', PInt (p_pid p)), (''name'', PStr (p_name p)), (''gpu_memory_mb'', PInt (p_gpu_memory_mb p)),
      (''ppid'', p_ppid p), (''user'', p_user p), (''task_name'', p_task_name p), (''exe'', p_exe p),
      (''cmdline'', p_cmdline p), (''cmdline_hash'', p_cmdline_hash p), (''kind'', PStr (p_kind p)),
      (''runtime_seconds'', p_runtime_seconds p), (''process_start_time'', p_start_time p),
      (''parent_start_time'', p_parent_start_time p), (''detail_status'', PStr (p_detail_status p)),
      (''detail_error'', p_detail_error p), (''user_uid'', p_user_uid p)]"

definition other_user_to_dict :: "other_user \<Rightarrow> pyval" where
  "other_user_to_dict u = PDict
     [(''user'', PStr (o_user u)), (''process_count'', PInt (o_process_count u)),
      (''total_memory_mb'', PInt (o_total_memory_mb u)), (''runtime_seconds'', o_runtime_seconds u)]"

definition gpu_fields :: "raw_gpu \<Rightarrow> (string, pyval) dict" where
  "gpu_fields g =
     [(''index'', PInt (g_index g)), (''node_id'', opt_val PStr (g_node_id g)),
      (''gpu_id'', opt_val PStr (g_gpu_id g)), (''device_type'', PStr (g_device_type g)),
      (''card_id'', opt_val PStr (g_card_id g)), (''die_id'', opt_val PInt (g_die_id g)),
      (''uuid'', PStr (g_uuid g)), (''name'', PStr (g_name g)), (''pci_bus_id'', g_pci_bus_id g),
      (''utilization_gpu'', g_utilization_gpu g), (''utilization_mem'', g_utilization_mem g),
      (''memory_total_mb'', g_memory_total_mb g), (''memory_used_mb'', g_memory_used_mb g),
      (''memory_free_mb'', g_memory_free_mb g), (''temperature_c'', g_temperature_c g),
      (''power_watts'', g_power_watts g), (''power_limit_watts'', g_power_limit_watts g),
      (''clock_sm_mhz'', g_clock_sm_mhz g), (''clock_mem_mhz'', g_clock_mem_mhz g),
      (''max_clock_sm_mhz'', g_max_clock_sm_mhz g), (''max_clock_mem_mhz'', g_max_clock_mem_mhz g),
      (''pstate'', g_pstate g), (''compute_mode'', g_compute_mode g), (''mig_mode'', g_mig_mode g),
      (''ecc_mode'', g_ecc_mode g), (''performance'', opt_val perf_to_dict (g_performance g)),
      (''processes'', PList (map process_to_dict (g_processes g))),
      (''other_users'', PList (map other_user_to_dict (g_other_users g))),
      (''error'', g_error g),
      (''telemetry_errors'', PDict (map (\<lambda>kv. (fst kv, PStr (snd kv))) (g_telemetry_errors g)))]"

definition gpu_to_dict :: "raw_gpu \<Rightarrow> pyval" where
  "gpu_to_dict g = PDict (gpu_fields g @
     [(''memory_percent'', PFlt (Fin (memory_percent (numeric_gpu g)))),
      (''power_percent'', PFlt (Fin (power_percent (numeric_gpu g))))])"

subsection \<open>Totals\<close>

record node_totals =
  t_gpu_count :: nat
  t_accelerator_count :: nat
  t_card_count :: nat
  t_active_processes :: int
  t_avg_gpu_utilization :: rat
  t_avg_memory_utilization :: rat
  t_memory_used_mb :: rat
  t_memory_total_mb :: rat
  t_power_watts :: rat
  t_power_limit_watts :: rat
  t_max_temperature_c :: rat

record cluster_totals = node_totals +
  t_node_count :: nat
  t_online_node_count :: nat
  t_stale_node_count :: nat
  t_offline_node_count :: nat

definition card_key :: "gpu \<Rightarrow> string option \<times> string \<times> string" where
  "card_key g = (g_node_id g, g_device_type g,
     (case g_card_id g of None \<Rightarrow> g_uuid g | Some c \<Rightarrow> if c = [] then g_uuid g else c))"

definition usable :: "string list \<Rightarrow> gpu \<Rightarrow> bool" where
  "usable names g = (\<not> truthy (g_error g) \<and> list_all (\<lambda>n. \<not> has_key (g_telemetry_errors g) n) names)"

definition node_totals_from_gpus :: "gpu list \<Rightarrow> node_totals" where
  "node_totals_from_gpus gpus =
     (let memory_gpus = filter (usable [''memory_used_mb'', ''memory_total_mb'']) gpus;
          power_gpus = filter (usable [''power_watts'', ''power_limit_watts'']) gpus;
          memory_total = sum_list (map g_memory_total_mb memory_gpus);
          memory_used = sum_list (map g_memory_used_mb memory_gpus);
          power_limit = sum_list (map g_power_limit_watts power_gpus);
          power_used = sum_list (map g_power_watts power_gpus);
          pids = remdups (concat (map (\<lambda>g. map (\<lambda>p. (g_node_id g, p_pid p)) (g_processes g)) gpus));
          others = sum_list (map o_process_count (concat (map g_other_users gpus)));
          valid = map g_utilization_gpu (filter (usable [''utilization_gpu'']) gpus)
      in \<lparr>t_gpu_count = length gpus,
          t_accelerator_count = length gpus,
          t_card_count = length (remdups (map card_key gpus)),
          t_active_processes = int (length pids) + others,
          t_avg_gpu_utilization =
            (if valid = [] then 0 else pyround 1 (sum_list valid / of_nat (length valid))),
          t_avg_memory_utilization =
            (if memory_total = 0 then 0 else pyround 1 (memory_used / memory_total * 100)),
          t_memory_used_mb = memory_used,
          t_memory_total_mb = memory_total,
          t_power_watts = pyround 1 power_used,
          t_power_limit_watts = pyround 1 power_limit,
          t_max_temperature_c = (case max_opt (map g_temperature_c gpus) of None \<Rightarrow> 0 | Some t \<Rightarrow> t)\<rparr>)"

subsection \<open>Nodes and the cluster\<close>

text \<open>The statuses the program writes, ordered by how far a node is from serving samples.\<close>

datatype node_status = Online | ErrorStatus | Stale | Offline

instantiation node_status :: linorder
begin

fun severity_of :: "node_status \<Rightarrow> nat" where
  "severity_of Online = 0"
| "severity_of ErrorStatus = 1"
| "severity_of Stale = 2"
| "severity_of Offline = 3"

definition less_eq_node_status :: "node_status \<Rightarrow> node_status \<Rightarrow> bool" where
  "a \<le> b \<longleftrightarrow> severity_of a \<le> severity_of b"

definition less_node_status :: "node_status \<Rightarrow> node_status \<Rightarrow> bool" where
  "a < b \<longleftrightarrow> severity_of a < severity_of b"

instance
proof
  fix x y z :: node_status
  show "x < y \<longleftrightarrow> x \<le> y \<and> \<not> y \<le> x" by (auto simp: less_eq_node_status_def less_node_status_def)
  show "x \<le> x" by (simp add: less_eq_node_status_def)
  show "x \<le> z" if "x \<le> y" "y \<le> z" using that by (auto simp: less_eq_node_status_def)
  show "x = y" if "x \<le> y" "y \<le> x"
    using that by (cases x; cases y) (auto simp: less_eq_node_status_def)
  show "x \<le> y \<or> y \<le> x" by (auto simp: less_eq_node_status_def)
qed

end

type_synonym history = "(string, (string, rat list) dict) dict"

record 'g snapshot =
  n_ok :: bool
  n_source :: string
  n_hostname :: string
  n_timestamp :: rat
  n_elapsed_ms :: rat
  n_gpus :: "'g list"
  n_driver_version :: pyval
  n_cuda_driver_version :: pyval
  n_nvml_version :: pyval
  n_error :: pyval
  n_seq :: int
  n_refresh_interval :: rat
  n_history :: history

record node_snapshot =
  s_node_id :: string
  s_hostname :: string
  s_seq :: int
  s_sampled_at :: rat
  s_received_at :: "rat option"
  s_refresh_interval :: rat
  s_process_interval :: rat
  s_status :: node_status
  s_source :: string
  s_gpus :: "gpu list"
  s_totals :: node_totals
  s_error :: pyval
  s_agent_version :: pyval
  s_driver_version :: pyval
  s_cuda_driver_version :: pyval
  s_nvml_version :: pyval
  s_elapsed_ms :: rat
  s_history :: history
  s_hardware :: "hw_gpu list option"
  s_performance_profiles :: "string list"
  s_telemetry_errors :: "(string, string) dict"

record cluster_snapshot =
  c_ok :: bool
  c_seq :: nat
  c_timestamp :: rat
  c_nodes :: "node_snapshot list"
  c_totals :: cluster_totals
  c_history :: history

subsection \<open>Names and identifiers\<close>

definition SCRIPT_SUFFIXES :: "string list" where
  "SCRIPT_SUFFIXES = [''.py'', ''.sh'', ''.pl'', ''.R'', ''.ipynb'']"

definition LAUNCHERS :: "string list" where
  "LAUNCHERS = [''torchrun'', ''accelerate'', ''python'', ''python3'', ''uvicorn'']"

definition infer_task_name ::
    "string option \<Rightarrow> string option \<Rightarrow> string option \<Rightarrow> string option \<Rightarrow> int option \<Rightarrow> string" where
  "infer_task_name cmdline exe comm process_name pid =
     (let present = (\<lambda>v. case v of None \<Rightarrow> None | Some s \<Rightarrow> if s = [] then None else Some s);
          rest = (case present exe of Some e \<Rightarrow> path_name e | None \<Rightarrow>
                   (case present comm of Some c \<Rightarrow> c | None \<Rightarrow>
                     (case present process_name of Some p \<Rightarrow> path_name p | None \<Rightarrow>
                       (case pid of Some i \<Rightarrow> ''unknown:'' @ int_str i | None \<Rightarrow> ''unknown''))))
      in case present cmdline of
           None \<Rightarrow> rest
         | Some c \<Rightarrow>
             let parts = py_split_ws c; names = map path_name parts
             in case find (\<lambda>b. list_ex (py_endswith b) SCRIPT_SUFFIXES) names of
                  Some b \<Rightarrow> b
                | None \<Rightarrow>
                   (case find (\<lambda>b. b \<in> set LAUNCHERS) names of
                      Some b \<Rightarrow> b
                    | None \<Rightarrow> (case names of b # _ \<Rightarrow> b | [] \<Rightarrow> rest)))"

definition process_session_id :: "string \<Rightarrow> gpu_process \<Rightarrow> string" where
  "process_session_id node_id p =
     node_id @ '':'' @ int_str (p_pid p) @ '':'' @
     (case p_start_time p of
        PFlt (Fin x) \<Rightarrow> fixed_str 6 x
      | PFlt f \<Rightarrow> float_repr f
      | _ \<Rightarrow> ''unknown'')"

definition gpu_global_id :: "string \<Rightarrow> 'n gpu_info \<Rightarrow> string" where
  "gpu_global_id node_id g =
     (if g_uuid g \<noteq> [] \<and> g_uuid g \<noteq> ''unknown'' then node_id @ '':'' @ g_uuid g
      else node_id @ '':index:'' @ int_str (g_index g))"

definition str_or :: "string option \<Rightarrow> string \<Rightarrow> string" where
  "str_or a b = (case a of None \<Rightarrow> b | Some s \<Rightarrow> if s = [] then b else s)"

definition local_node_id :: "environ \<Rightarrow> string \<Rightarrow> string option \<Rightarrow> string" where
  "local_node_id env gethostname dflt =
     str_or (env ''CONSTELLA_NODE_ID'') (str_or (env ''CONSTELLA_MANAGER_HOSTNAME'')
       (str_or dflt (str_or (Some gethostname) ''local'')))"

definition local_hostname :: "environ \<Rightarrow> string \<Rightarrow> string option \<Rightarrow> string" where
  "local_hostname env gethostname dflt =
     str_or (env ''CONSTELLA_MANAGER_HOSTNAME'') (str_or dflt (str_or (Some gethostname) ''local''))"

subsection \<open>Snapshots\<close>

definition snapshot_history :: "gpu snapshot \<Rightarrow> gpu list \<Rightarrow> history" where
  "snapshot_history snap gpus =
     fold (\<lambda>g h. case (map_of (n_history snap) (int_str (g_index g)), g_gpu_id g) of
         (Some series, Some gid) \<Rightarrow> AList.update gid series h
       | _ \<Rightarrow> h) gpus []"

definition snapshot_to_node_snapshot ::
    "environ \<Rightarrow> string \<Rightarrow> gpu snapshot \<Rightarrow> string option \<Rightarrow> string option \<Rightarrow> rat option \<Rightarrow> rat
      \<Rightarrow> node_status option \<Rightarrow> pyval \<Rightarrow> node_snapshot" where
  "snapshot_to_node_snapshot env gethostname snap node_id hostname received_at process_interval
      status agent_version =
     (let nid = str_or node_id (local_node_id env gethostname (Some (n_hostname snap)));
          host = str_or hostname (if node_id = None
                   then local_hostname env gethostname (Some (n_hostname snap)) else n_hostname snap);
          gpus = map (\<lambda>g. g\<lparr>g_node_id := Some nid, g_gpu_id := Some (gpu_global_id nid g)\<rparr>) (n_gpus snap)
      in \<lparr>s_node_id = nid, s_hostname = host, s_seq = n_seq snap, s_sampled_at = n_timestamp snap,
          s_received_at = received_at, s_refresh_interval = n_refresh_interval snap,
          s_process_interval = process_interval,
          s_status = (case status of Some s \<Rightarrow> s | None \<Rightarrow> if n_ok snap then Online else ErrorStatus),
          s_source = n_source snap, s_gpus = gpus, s_totals = node_totals_from_gpus gpus,
          s_error = n_error snap, s_agent_version = agent_version,
          s_driver_version = n_driver_version snap,
          s_cuda_driver_version = n_cuda_driver_version snap,
          s_nvml_version = n_nvml_version snap, s_elapsed_ms = n_elapsed_ms snap,
          s_history = snapshot_history snap gpus, s_hardware = None,
          s_performance_profiles =
            sorted_set (map f_profile (List.map_filter g_performance gpus)),
          s_telemetry_errors = []\<rparr>)"

definition cluster_totals_from_nodes :: "node_snapshot list \<Rightarrow> cluster_totals" where
  "cluster_totals_from_nodes nodes =
     (let gpus = concat (map s_gpus (filter (\<lambda>n. s_status n \<noteq> Offline) nodes))
      in node_totals.extend (node_totals_from_gpus gpus)
           (cluster_totals.fields (length nodes)
              (count_true (\<lambda>n. s_status n = Online) nodes)
              (count_true (\<lambda>n. s_status n = Stale) nodes)
              (count_true (\<lambda>n. s_status n = Offline) nodes)))"

definition cluster_snapshot_from_nodes :: "node_snapshot list \<Rightarrow> nat \<Rightarrow> rat \<Rightarrow> cluster_snapshot" where
  "cluster_snapshot_from_nodes nodes seq timestamp =
     (let sorted_nodes = sort_key s_node_id nodes
      in \<lparr>c_ok = list_ex (\<lambda>n. s_status n = Online) sorted_nodes,
          c_seq = seq, c_timestamp = timestamp, c_nodes = sorted_nodes,
          c_totals = cluster_totals_from_nodes sorted_nodes,
          c_history = fold (\<lambda>n h. dict_update_all h (s_history n)) sorted_nodes []\<rparr>)"

subsection \<open>What validation, the totals and the snapshot guarantee\<close>

lemma perf_status: "mk_performance pr st t i m sm e bad = Inr p \<Longrightarrow> f_status p \<in> set PERFORMANCE_STATUSES"
  by (auto simp: mk_performance_def Let_def rbind_Inr_iff PERFORMANCE_STATUSES_def split: if_splits prod.splits)

lemma gpu_readings_set_reading:
  "map_of (gpu_readings (set_reading n v g)) m =
     (if m = n \<and> has_key (gpu_readings g) n then Some v else map_of (gpu_readings g) m)"
proof (cases "n \<in> set (map fst GPU_METRIC_RULES)")
  case True
  then show ?thesis
    unfolding GPU_METRIC_RULES_def list.map fst_conv list.set insert_iff empty_iff
    by (elim disjE FalseE) (simp_all add: gpu_readings_def set_reading_def has_key_def)
next
  case False
  then have "set_reading n v g = g" by (simp add: GPU_METRIC_RULES_def set_reading_def)
  moreover have "\<not> has_key (gpu_readings g) n"
    using False by (simp add: has_key_iff GPU_METRIC_RULES_def gpu_readings_def)
  ultimately show ?thesis by simp
qed

lemma has_key_gpu_readings: "has_key (gpu_readings g) n \<longleftrightarrow> has_key GPU_METRIC_RULES n"
  by (simp add: gpu_readings_def has_key_iff GPU_METRIC_RULES_def)

lemma gpu_readings_fold:
  "map_of (gpu_readings (fold (\<lambda>n. set_reading n (f n)) ns g)) m =
     (if m \<in> set ns \<and> has_key GPU_METRIC_RULES m then Some (f m) else map_of (gpu_readings g) m)"
proof (induction ns arbitrary: g)
  case (Cons n ns)
  then show ?case by (auto simp: gpu_readings_set_reading has_key_gpu_readings)
qed simp

lemma gpu_readings_errors [simp]: "gpu_readings (g\<lparr>g_telemetry_errors := e\<rparr>) = gpu_readings g"
  by (simp add: gpu_readings_def)

lemma validate_readings_nth:
  "map_of (gpu_readings (validate_readings g)) n =
     (if has_key (reading_issues g) n \<and> has_key GPU_METRIC_RULES n then Some (reset_value n)
      else map_of (gpu_readings g) n)"
  by (simp add: validate_readings_def Let_def gpu_readings_fold has_key_def map_of_eq_None_iff)

lemma reset_value_accepted:
  "(n, r) \<in> set GPU_METRIC_RULES \<Longrightarrow> accepts r (reset_value n)"
  unfolding GPU_METRIC_RULES_def list.set insert_iff empty_iff prod.inject
  by (elim disjE FalseE conjE) (simp_all add: GPU_METRIC_RULES_def reset_value_def rule_defs)

lemma numeric_issues_key:
  "dict_ok rules \<Longrightarrow> (n, r) \<in> set rules \<Longrightarrow>
   has_key (numeric_issues vals rules) n \<longleftrightarrow> (\<exists>v. map_of vals n = Some v \<and> \<not> accepts r v)"
  using numeric_issues_iff[of n vals rules]
  by (auto simp: has_key_def map_of_eq_None_iff dict_ok_map_of)

lemma reading_issues_key:
  "has_key (reading_issues g) n \<longleftrightarrow> has_key (numeric_issues (gpu_readings g) GPU_METRIC_RULES) n \<or>
    (n = ''memory_used_mb'' \<and> accepts COUNT (g_memory_used_mb g) \<and> accepts COUNT (g_memory_total_mb g) \<and>
     num_val (g_memory_total_mb g) > 0 \<and> num_val (g_memory_used_mb g) > num_val (g_memory_total_mb g))"
proof -
  have m: "(''memory_used_mb'', COUNT) \<in> set GPU_METRIC_RULES" "(''memory_total_mb'', COUNT) \<in> set GPU_METRIC_RULES"
    by (simp_all add: GPU_METRIC_RULES_def)
  have "has_key (numeric_issues (gpu_readings g) GPU_METRIC_RULES) ''memory_used_mb'' \<longleftrightarrow> \<not> accepts COUNT (g_memory_used_mb g)"
    "has_key (numeric_issues (gpu_readings g) GPU_METRIC_RULES) ''memory_total_mb'' \<longleftrightarrow> \<not> accepts COUNT (g_memory_total_mb g)"
    using m by (simp_all add: numeric_issues_key) (simp_all add: gpu_readings_def)
  then show ?thesis
    by (auto simp: reading_issues_def Let_def)
qed

lemma validate_readings_accepts:
  assumes "(n, r) \<in> set GPU_METRIC_RULES"
  shows "\<exists>v. map_of (gpu_readings (validate_readings g)) n = Some v \<and> accepts r v"
proof -
  have k: "has_key GPU_METRIC_RULES n" using assms by (rule has_keyI)
  then obtain v where v: "map_of (gpu_readings g) n = Some v"
    using has_key_gpu_readings[of g n] by (auto simp: has_key_def)
  show ?thesis
    using k v reset_value_accepted[OF assms] numeric_issues_key[OF dict_ok_GPU_METRIC_RULES assms, of "gpu_readings g"]
    by (auto simp: validate_readings_nth reading_issues_key)
qed

lemma validate_readings_memory:
  "num_val (g_memory_total_mb (validate_readings g)) = 0 \<or>
   num_val (g_memory_used_mb (validate_readings g)) \<le> num_val (g_memory_total_mb (validate_readings g))"
proof -
  let ?h = "validate_readings g"
  have t: "map_of (gpu_readings h) ''memory_total_mb'' = Some (g_memory_total_mb h)"
    and u: "map_of (gpu_readings h) ''memory_used_mb'' = Some (g_memory_used_mb h)" for h
    by (simp_all add: gpu_readings_def)
  have k: "(''memory_used_mb'', COUNT) \<in> set GPU_METRIC_RULES" "(''memory_total_mb'', COUNT) \<in> set GPU_METRIC_RULES"
    by (simp_all add: GPU_METRIC_RULES_def)
  then have kk: "has_key GPU_METRIC_RULES ''memory_used_mb''" "has_key GPU_METRIC_RULES ''memory_total_mb''"
    by (blast intro: has_keyI)+
  have r: "reset_value ''memory_used_mb'' = PInt 0" "reset_value ''memory_total_mb'' = PInt 0"
    by (simp_all add: reset_value_def GPU_METRIC_RULES_def COUNT_def default_rule_def)
  have "accepts COUNT (g_memory_total_mb ?h)"
    using validate_readings_accepts[OF k(2), of g] t[of ?h] by auto
  then have pos: "0 \<le> num_val (g_memory_total_mb ?h)"
    using accepts_bounds[of COUNT "g_memory_total_mb ?h"] by (cases "g_memory_total_mb ?h = PNone") (auto simp: rule_defs)
  have T: "g_memory_total_mb ?h = (if accepts COUNT (g_memory_total_mb g) then g_memory_total_mb g else PInt 0)"
    using t[of ?h] t[of g] kk r k by (simp add: validate_readings_nth reading_issues_key numeric_issues_key split: if_splits)
  have U: "g_memory_used_mb ?h = (if accepts COUNT (g_memory_used_mb g) \<and>
      \<not> (accepts COUNT (g_memory_total_mb g) \<and> num_val (g_memory_total_mb g) > 0 \<and>
        num_val (g_memory_used_mb g) > num_val (g_memory_total_mb g)) then g_memory_used_mb g else PInt 0)"
    using u[of ?h] u[of g] kk r k
    by (auto simp: validate_readings_nth reading_issues_key numeric_issues_key split: if_splits)
  show ?thesis using pos by (auto simp: T U split: if_splits)
qed


lemma gpu_readings_inject_frame:
  "g_error (validate_readings g) = g_error g \<and> g_processes (validate_readings g) = g_processes g \<and>
   g_other_users (validate_readings g) = g_other_users g \<and> g_uuid (validate_readings g) = g_uuid g \<and>
   g_telemetry_errors (validate_readings g) = dict_update_all (g_telemetry_errors g) (reading_issues g)"
proof -
  have "g_error (fold (\<lambda>n. set_reading n (reset_value n)) ns h) = g_error h \<and>
    g_processes (fold (\<lambda>n. set_reading n (reset_value n)) ns h) = g_processes h \<and>
    g_other_users (fold (\<lambda>n. set_reading n (reset_value n)) ns h) = g_other_users h \<and>
    g_uuid (fold (\<lambda>n. set_reading n (reset_value n)) ns h) = g_uuid h \<and>
    g_telemetry_errors (fold (\<lambda>n. set_reading n (reset_value n)) ns h) = g_telemetry_errors h"
    for ns and h :: raw_gpu
    by (induction ns arbitrary: h) (simp_all add: set_reading_def)
  then show ?thesis by (simp add: validate_readings_def Let_def)
qed

lemma gpu_global_id_iff:
  "gpu_global_id node g = gpu_global_id node h \<longleftrightarrow>
     (if g_uuid g \<notin> {[], ''unknown''} then
        (if g_uuid h \<notin> {[], ''unknown''} then g_uuid g = g_uuid h
         else g_uuid g = ''index:'' @ int_str (g_index h))
      else if g_uuid h \<notin> {[], ''unknown''} then g_uuid h = ''index:'' @ int_str (g_index g)
      else g_index g = g_index h)"
  using int_str_inject by (auto simp: gpu_global_id_def)

lemma node_totals_mset:
  assumes "mset gpus = mset gpus'"
  shows "node_totals_from_gpus gpus = node_totals_from_gpus gpus'"
proof -
  have s: "set gpus = set gpus'" by (rule mset_eq_setD[OF assms])
  have l: "length gpus = length gpus'" by (rule mset_eq_length[OF assms])
  have f: "sum_list (map h (filter P gpus)) = sum_list (map h (filter P gpus'))" for h :: "gpu \<Rightarrow> rat" and P
    by (rule sum_list_filter_mset[OF assms])
  have m: "mset (filter P gpus) = mset (filter P gpus')" for P using assms by simp
  have n: "length (filter P gpus) = length (filter P gpus')" "filter P gpus = [] \<longleftrightarrow> filter P gpus' = []" for P
    using mset_eq_length[OF m] by (simp_all, metis length_0_conv)
  have o: "sum_list (map o_process_count (concat (map g_other_users gpus))) =
    sum_list (map o_process_count (concat (map g_other_users gpus')))"
    using sum_list_map_mset[OF assms, of "\<lambda>g. sum_list (map o_process_count (g_other_users g))"]
    by (simp add: sum_list_map_concat)
  have p: "length (remdups (concat (map (\<lambda>g. map (\<lambda>p. (g_node_id g, p_pid p)) (g_processes g)) gpus))) =
    length (remdups (concat (map (\<lambda>g. map (\<lambda>p. (g_node_id g, p_pid p)) (g_processes g)) gpus')))"
    "length (remdups (map card_key gpus)) = length (remdups (map card_key gpus'))"
    by (rule length_remdups_set, simp add: s)+
  have x: "max_opt (map g_temperature_c gpus) = max_opt (map g_temperature_c gpus')"
    by (rule max_opt_set) (simp add: s)
  show ?thesis by (simp add: node_totals_from_gpus_def Let_def l f n o p x)
qed

lemma status_partition:
  "count_true (\<lambda>n. s_status n = Online) ns + count_true (\<lambda>n. s_status n = ErrorStatus) ns +
   count_true (\<lambda>n. s_status n = Stale) ns + count_true (\<lambda>n. s_status n = Offline) ns = length ns"
  by (induction ns) (auto simp: count_true_def, metis node_status.exhaust)

definition gpu_sane :: "gpu \<Rightarrow> bool" where
  "gpu_sane g = (0 \<le> g_utilization_gpu g \<and> g_utilization_gpu g \<le> 100 \<and> 0 \<le> g_memory_used_mb g \<and>
     0 \<le> g_memory_total_mb g \<and> (usable [''memory_used_mb'', ''memory_total_mb''] g \<longrightarrow>
        g_memory_used_mb g \<le> g_memory_total_mb g))"

text \<open>Concrete values for the witnesses.\<close>

definition sample_node :: "string \<Rightarrow> node_status \<Rightarrow> gpu list \<Rightarrow> node_snapshot" where
  "sample_node nid st gpus =
     \<lparr>s_node_id = nid, s_hostname = nid, s_seq = 1, s_sampled_at = 10, s_received_at = Some 10,
      s_refresh_interval = 1, s_process_interval = 5, s_status = st, s_source = ''nvml'',
      s_gpus = gpus, s_totals = node_totals_from_gpus gpus, s_error = PNone,
      s_agent_version = PNone, s_driver_version = PNone, s_cuda_driver_version = PNone,
      s_nvml_version = PNone, s_elapsed_ms = 3, s_history = [], s_hardware = None,
      s_performance_profiles = [], s_telemetry_errors = []\<rparr>"

definition sample_gpu :: "int \<Rightarrow> rat \<Rightarrow> rat \<Rightarrow> gpu" where
  "sample_gpu i util used =
     (blank_gpu i ''n'' ''unknown'' ''A100'' [])\<lparr>g_utilization_gpu := util, g_memory_total_mb := 80,
        g_memory_used_mb := used, g_error := PNone\<rparr>"

text \<open>
  After validation every reading is one its rule accepts, a reading differs from what the
  sampler reported only when its name is in the error table, and the memory in use does not exceed
  the capacity.
\<close>

theorem validate_readings_sound:
  assumes "(n, r) \<in> set GPU_METRIC_RULES"
  shows "accepts r (dget (gpu_readings (validate_readings g)) n) \<and>
    (dget (gpu_readings (validate_readings g)) n = dget (gpu_readings g) n \<or>
      has_key (g_telemetry_errors (validate_readings g)) n) \<and>
    (num_val (g_memory_total_mb (validate_readings g)) = 0 \<or>
     num_val (g_memory_used_mb (validate_readings g)) \<le> num_val (g_memory_total_mb (validate_readings g)))"
proof -
  have "has_key (dict_update_all d es) k \<longleftrightarrow> has_key d k \<or> has_key es k" for d es :: "(string, string) dict" and k
    by (auto simp: has_key_def map_of_update_all map_of_eq_None_iff split: option.splits
        simp flip: not_None_eq)
  then show ?thesis
    using validate_readings_accepts[OF assms, of g] validate_readings_memory[of g]
    by (auto simp: gpu_readings_inject_frame dget_def validate_readings_nth)
qed

theorem validate_readings_sound_witness:
  "accepts PERCENT (dget (gpu_readings (validate_readings
     ((undefined :: raw_gpu)\<lparr>g_utilization_gpu := PInt 250\<rparr>))) ''utilization_gpu'')"
proof -
  have "(''utilization_gpu'', PERCENT) \<in> set GPU_METRIC_RULES" by (simp add: GPU_METRIC_RULES_def)
  from validate_readings_sound[OF this] show ?thesis by blast
qed

text \<open>
  The averages of a node or a cluster stay between 0 and 100 percent and the memory in use does
  not exceed the total when every accelerator's own readings are within range; accelerators with an
  error or an invalid reading do not count.
\<close>

theorem node_totals_bounds:
  assumes "\<forall>g \<in> set gpus. gpu_sane g"
  shows "0 \<le> t_avg_gpu_utilization (node_totals_from_gpus gpus) \<and>
    t_avg_gpu_utilization (node_totals_from_gpus gpus) \<le> 100 \<and>
    0 \<le> t_avg_memory_utilization (node_totals_from_gpus gpus) \<and>
    t_avg_memory_utilization (node_totals_from_gpus gpus) \<le> 100 \<and>
    t_memory_used_mb (node_totals_from_gpus gpus) \<le> t_memory_total_mb (node_totals_from_gpus gpus)"
proof -
  let ?u = "map g_utilization_gpu (filter (usable [''utilization_gpu'']) gpus)"
  let ?m = "filter (usable [''memory_used_mb'', ''memory_total_mb'']) gpus"
  let ?used = "sum_list (map g_memory_used_mb ?m)" and ?total = "sum_list (map g_memory_total_mb ?m)"
  have "0 \<le> sum_list ?u / of_nat (length ?u) \<and> sum_list ?u / of_nat (length ?u) \<le> 100" if "?u \<noteq> []"
    using that assms by (intro conjI avg_le) (auto simp: gpu_sane_def)
  then have U: "?u \<noteq> [] \<Longrightarrow> 0 \<le> pyround 1 (sum_list ?u / of_nat (length ?u)) \<and>
      pyround 1 (sum_list ?u / of_nat (length ?u)) \<le> 100"
    using pyround_nonneg pyround_le_of_int[of _ 100 1] by simp
  have M: "0 \<le> ?used" "?used \<le> ?total"
    using assms by (auto simp: gpu_sane_def intro!: sum_list_nonneg sum_list_mono)
  then have "?total \<noteq> 0 \<Longrightarrow> 0 \<le> ?used / ?total * 100 \<and> ?used / ?total * 100 \<le> 100"
    by (simp add: divide_le_eq)
  then have "?total \<noteq> 0 \<Longrightarrow> 0 \<le> pyround 1 (?used / ?total * 100) \<and> pyround 1 (?used / ?total * 100) \<le> 100"
    using pyround_nonneg pyround_le_of_int[of _ 100 1] by simp
  with U M show ?thesis by (simp add: node_totals_from_gpus_def Let_def)
qed

theorem node_totals_bounds_witness:
  "t_avg_gpu_utilization (node_totals_from_gpus [sample_gpu 0 50 20, sample_gpu 1 100 80]) \<le> 100"
proof -
  have "\<forall>g \<in> set [sample_gpu 0 50 20, sample_gpu 1 100 80]. gpu_sane g"
    by (simp add: gpu_sane_def sample_gpu_def blank_gpu_def)
  from node_totals_bounds[OF this] show ?thesis by blast
qed

text \<open>
  The cluster snapshot does not depend on the order in which the nodes registered.
\<close>

theorem cluster_snapshot_order_independent:
  assumes "mset nodes = mset nodes'" "distinct (map s_node_id nodes)"
  shows "cluster_snapshot_from_nodes nodes seq t = cluster_snapshot_from_nodes nodes' seq t"
  by (simp add: cluster_snapshot_from_nodes_def sort_key_unique[OF assms])

theorem cluster_snapshot_order_independent_witness:
  "cluster_snapshot_from_nodes [sample_node ''b'' Online [], sample_node ''a'' Stale []] 4 9 =
   cluster_snapshot_from_nodes [sample_node ''a'' Stale [], sample_node ''b'' Online []] 4 9"
  by (rule cluster_snapshot_order_independent) (simp_all add: sample_node_def)

text \<open>
  Every node of a cluster snapshot is counted under exactly one status, offline nodes contribute
  no accelerator, and the cluster is ok exactly when a node is online.
\<close>

theorem cluster_snapshot_counts:
  "let c = cluster_snapshot_from_nodes nodes seq t in
    t_online_node_count (c_totals c) + t_stale_node_count (c_totals c) +
      t_offline_node_count (c_totals c) + count_true (\<lambda>n. s_status n = ErrorStatus) nodes = length nodes \<and>
    t_node_count (c_totals c) = length nodes \<and>
    t_gpu_count (c_totals c) = sum_list (map (\<lambda>n. length (s_gpus n)) (filter (\<lambda>n. s_status n \<noteq> Offline) nodes)) \<and>
    (c_ok c \<longleftrightarrow> t_online_node_count (c_totals c) > 0)"
proof -
  let ?s = "sort_key s_node_id nodes"
  have m: "mset (filter P ?s) = mset (filter P nodes)" for P by simp
  have c: "count_true P ?s = count_true P nodes" for P
    using mset_eq_length[OF m] by (simp add: count_true_def)
  have g: "sum_list (map (\<lambda>n. length (s_gpus n)) (filter (\<lambda>n. s_status n \<noteq> Offline) ?s)) =
    sum_list (map (\<lambda>n. length (s_gpus n)) (filter (\<lambda>n. s_status n \<noteq> Offline) nodes))"
    by (rule sum_list_map_mset) simp
  have k: "count_true P nodes > 0 \<longleftrightarrow> list_ex P ?s" for P
    by (auto simp: count_true_def list_ex_iff filter_empty_conv)
  show ?thesis
    using status_partition[of nodes]
    by (simp add: cluster_snapshot_from_nodes_def cluster_totals_from_nodes_def
        node_totals_from_gpus_def node_totals.defs cluster_totals.defs Let_def c g k length_concat o_def)
qed

text \<open>
  On one node, two accelerators get the same global identifier exactly when they have the same
  known UUID, or when neither has one and the indices agree, as long as no UUID is spelt like an
  index.
\<close>

theorem gpu_global_id_injective:
  assumes "\<not> py_startswith (g_uuid g) ''index:''" "\<not> py_startswith (g_uuid h) ''index:''"
  shows "gpu_global_id node g = gpu_global_id node h \<longleftrightarrow>
    (if g_uuid g \<in> {[], ''unknown''} then g_uuid h \<in> {[], ''unknown''} \<and> g_index g = g_index h
     else g_uuid g = g_uuid h)"
  using assms by (auto simp: gpu_global_id_iff)

theorem gpu_global_id_injective_witness:
  "gpu_global_id ''n'' (sample_gpu 0 1 2) \<noteq> gpu_global_id ''n'' (sample_gpu 1 1 2)"
  using gpu_global_id_injective[of "sample_gpu 0 1 2" "sample_gpu 1 1 2" "''n''"]
  by (simp add: sample_gpu_def blank_gpu_def)

end
