(* ===== verification/ProcessFilter.thy ===== *)
theory ProcessFilter
  imports Schema
begin

text \<open>
  \<open>packages/backend/src/constella/process_filter.py\<close>: desktop infrastructure is excluded from the
  process lists.  The user and the executable of a process come unconverted from the agent, so the
  test may raise \<^const>\<open>TypeError\<close>: an unhashable user cannot be looked up in a set, and a value
  that is neither empty nor a string is no path.
\<close>

definition EXCLUDED_USERS :: "string list" where
  "EXCLUDED_USERS = [''gdm'', ''Debian-gdm'']"

definition EXCLUDED_PROCESS_NAMES :: "string list" where
  "EXCLUDED_PROCESS_NAMES =
    [''X'', ''Xorg'', ''Xwayland'', ''gnome-shell'', ''kwin_x11'', ''kwin_wayland'',
     ''plasmashell'', ''mutter'', ''cinnamon'', ''muffin'', ''xfwm4'', ''picom'', ''compton'']"

fun excluded_path :: "pyval \<Rightarrow> bool result" where
  "excluded_path (PStr s) = Inr (s \<noteq> [] \<and> path_name s \<in> set EXCLUDED_PROCESS_NAMES)"
| "excluded_path v = (if truthy v then Inl TypeError else Inr False)"

definition is_excluded_process :: "gpu_process \<Rightarrow> bool result" where
  "is_excluded_process p =
     (if \<not> hashable (p_user p) then Inl TypeError
      else if p_user p \<in> PStr ` set EXCLUDED_USERS then Inr True
      else rbind (excluded_path (PStr (p_name p))) (\<lambda>b.
        if b then Inr True else excluded_path (p_exe p)))"

definition filter_gpu_processes :: "gpu \<Rightarrow> gpu result" where
  "filter_gpu_processes g =
     rbind (rfilter (\<lambda>p. rbind (is_excluded_process p) (\<lambda>b. Inr (\<not> b))) (g_processes g)) (\<lambda>ps.
       Inr (g\<lparr>g_processes := ps,
              g_other_users := filter (\<lambda>u. o_user u \<notin> set EXCLUDED_USERS) (g_other_users g)\<rparr>))"

text \<open>The process entries the filter can judge: a hashable user and a textual or empty path.\<close>

definition filterable :: "gpu_process \<Rightarrow> bool" where
  "filterable p = (hashable (p_user p) \<and> (is_str (p_exe p) \<or> \<not> truthy (p_exe p)))"

definition desktop_process :: "gpu_process \<Rightarrow> bool" where
  "desktop_process p =
     (p_user p \<in> PStr ` set EXCLUDED_USERS \<or> path_name (p_name p) \<in> set EXCLUDED_PROCESS_NAMES \<or>
      (\<exists>s. p_exe p = PStr s \<and> path_name s \<in> set EXCLUDED_PROCESS_NAMES))"

lemma path_name_Nil [simp]: "path_name [] = []"
  by (simp add: path_name_def)

lemma Nil_not_excluded [simp]: "[] \<notin> set EXCLUDED_PROCESS_NAMES"
  by (simp add: EXCLUDED_PROCESS_NAMES_def)

lemma excluded_path_PStr:
  "excluded_path (PStr s) = Inr (path_name s \<in> set EXCLUDED_PROCESS_NAMES)"
  by (cases s) auto

lemma is_excluded_filterable:
  assumes "filterable p"
  shows "is_excluded_process p = Inr (desktop_process p)"
  using assms
  by (cases "p_exe p")
     (auto simp: is_excluded_process_def filterable_def desktop_process_def excluded_path_PStr
       simp del: excluded_path.simps(1))

lemma is_excluded_error: "is_excluded_process p = Inl e \<Longrightarrow> e = TypeError \<and> \<not> filterable p"
  by (cases "p_exe p")
     (auto simp: is_excluded_process_def filterable_def excluded_path_PStr rbind_Inl_iff
       simp del: excluded_path.simps(1) split: if_splits)

lemma filter_gpu_processes_error:
  "filter_gpu_processes g = Inl e \<Longrightarrow> e = TypeError \<and> (\<exists>p \<in> set (g_processes g). \<not> filterable p)"
  by (auto simp: filter_gpu_processes_def rbind_Inl_iff dest!: rfilter_Inl is_excluded_error)

text \<open>
  Filtering the processes of an accelerator whose entries are well formed never raises, removes
  exactly the desktop processes and the desktop owners, keeps the others in order, and changes
  nothing else.
\<close>

theorem filter_gpu_processes_exact:
  assumes "\<forall>p \<in> set (g_processes g). filterable p"
  shows "filter_gpu_processes g =
    Inr (g\<lparr>g_processes := filter (\<lambda>p. \<not> desktop_process p) (g_processes g),
           g_other_users := filter (\<lambda>u. o_user u \<notin> set EXCLUDED_USERS) (g_other_users g)\<rparr>)"
proof -
  have e: "is_excluded_process p = Inr (desktop_process p)" if "p \<in> set (g_processes g)" for p
    using that assms by (simp add: is_excluded_filterable)
  then have "rfilter (\<lambda>p. rbind (is_excluded_process p) (\<lambda>b. Inr (\<not> b))) (g_processes g) =
      Inr (filter (\<lambda>p. rbind (is_excluded_process p) (\<lambda>b. Inr (\<not> b)) = Inr True) (g_processes g))"
    by (simp add: rfilter_Inr)
  also have "filter (\<lambda>p. rbind (is_excluded_process p) (\<lambda>b. Inr (\<not> b)) = Inr True) (g_processes g) =
      filter (\<lambda>p. \<not> desktop_process p) (g_processes g)"
    using e by (intro filter_cong) auto
  finally show ?thesis by (simp add: filter_gpu_processes_def)
qed

definition sample_process :: "string \<Rightarrow> pyval \<Rightarrow> pyval \<Rightarrow> gpu_process" where
  "sample_process name user exe =
     \<lparr>p_pid = 7, p_name = name, p_gpu_memory_mb = 10, p_ppid = PNone, p_user = user,
      p_task_name = PNone, p_exe = exe, p_cmdline = PNone, p_cmdline_hash = PNone,
      p_kind = ''compute'', p_runtime_seconds = PNone, p_start_time = PNone,
      p_parent_start_time = PNone, p_detail_status = ''ok'', p_detail_error = PNone,
      p_user_uid = PNone\<rparr>"

theorem filter_gpu_processes_exact_witness:
  "filter_gpu_processes ((sample_gpu 0 1 2)\<lparr>g_processes :=
      [sample_process ''python'' (PStr ''alice'') PNone, sample_process ''X'' (PStr ''gdm'') PNone]\<rparr>) =
   Inr ((sample_gpu 0 1 2)\<lparr>g_processes := [sample_process ''python'' (PStr ''alice'') PNone]\<rparr>)"
  by (subst filter_gpu_processes_exact)
     (simp_all add: filterable_def desktop_process_def sample_process_def sample_gpu_def
       blank_gpu_def path_name_def EXCLUDED_USERS_def EXCLUDED_PROCESS_NAMES_def)

text \<open>
  An entry whose user is a list, or whose executable is a number, makes the filter raise, and
  with it the whole accelerator.
\<close>

theorem filter_gpu_processes_raises:
  "filter_gpu_processes ((sample_gpu 0 1 2)\<lparr>g_processes :=
      [sample_process ''python'' (PStr ''alice'') PNone, sample_process ''python'' (PList []) PNone]\<rparr>) =
     Inl TypeError \<and>
   filter_gpu_processes ((sample_gpu 0 1 2)\<lparr>g_processes :=
      [sample_process ''python'' PNone (PInt 1)]\<rparr>) = Inl TypeError"
  by (simp add: filter_gpu_processes_def is_excluded_process_def sample_process_def
      path_name_def EXCLUDED_USERS_def EXCLUDED_PROCESS_NAMES_def)

end
