(* ===== verification/Ingest.thy ===== *)
theory Ingest
  imports ProcessFilter
begin

text \<open>
  \<open>packages/backend/src/constella/cluster.py\<close>, the functions after \<^verbatim>\<open>ClusterState\<close>: decoding
  what an agent sends.  A message is a decoded JSON object; every conversion that Python may refuse
  is a branch that raises.
\<close>

record agent_hello =
  a_node_id :: string
  a_hostname :: string
  a_agent_version :: pyval
  a_capabilities :: "(string, pyval) dict option"
  a_hardware :: "hw_gpu list option"

text \<open>\<^verbatim>\<open>str(data.get(key) or default)\<close>, and \<^verbatim>\<open>int(data.get(key) or 0)\<close>.\<close>

definition str_field :: "(string, pyval) dict \<Rightarrow> string \<Rightarrow> string \<Rightarrow> string" where
  "str_field d k dflt = py_str (py_or (dget d k) (PStr dflt))"

definition int_field :: "(string, pyval) dict \<Rightarrow> string \<Rightarrow> int result" where
  "int_field d k = py_int (py_or (dget d k) (PInt 0))"

definition float_field :: "(string, pyval) dict \<Rightarrow> string \<Rightarrow> flt result" where
  "float_field d k = py_float (py_or (dget d k) (PFlt (Fin 0)))"

text \<open>\<^verbatim>\<open>f(data[key]) if data.get(key) is not None else None\<close>.\<close>

definition opt_conv :: "(pyval \<Rightarrow> 'a result) \<Rightarrow> pyval \<Rightarrow> 'a option result" where
  "opt_conv f v = (if v = PNone then Inr None else rbind (f v) (\<lambda>x. Inr (Some x)))"

subsection \<open>Hardware, capabilities, hello\<close>

text \<open>What a \<^verbatim>\<open>for\<close> loop visits: the elements of a list, the keys of a dictionary, the characters
  of a string; any other JSON value is not iterable.\<close>

fun py_iter :: "pyval \<Rightarrow> pyval list result" where
  "py_iter (PList xs) = Inr xs"
| "py_iter (PDict d) = Inr (map (\<lambda>kv. PStr (fst kv)) d)"
| "py_iter (PStr s) = Inr (map (\<lambda>c. PStr [c]) s)"
| "py_iter _ = Inl TypeError"

definition hw_gpu_from_dict :: "(string, pyval) dict \<Rightarrow> hw_gpu result" where
  "hw_gpu_from_dict item =
     rbind (int_field item ''index'') (\<lambda>i.
       Inr \<lparr>h_index = i, h_uuid = str_field item ''uuid'' ''unknown'',
            h_name = str_field item ''name'' ''unknown'',
            h_architecture = py_or (dget item ''architecture'') PNone\<rparr>)"

fun dict_of :: "pyval \<Rightarrow> (string, pyval) dict option" where
  "dict_of (PDict d) = Some d"
| "dict_of _ = None"

definition hardware_from_dict :: "pyval \<Rightarrow> hw_gpu list option result" where
  "hardware_from_dict payload =
     (case payload of
        PDict d \<Rightarrow>
          rbind (py_iter (dget_or d ''gpus'' (PList []))) (\<lambda>items.
            rbind (rmap hw_gpu_from_dict (List.map_filter dict_of items)) (\<lambda>gpus.
              Inr (if gpus = [] then None else Some gpus)))
      | _ \<Rightarrow> Inr None)"

definition capability_profiles :: "(string, pyval) dict option \<Rightarrow> string list" where
  "capability_profiles capabilities =
     (case capabilities of
        None \<Rightarrow> []
      | Some d \<Rightarrow> (case dget d ''performance_profiles'' of
            PList ps \<Rightarrow> sorted_set (filter (\<lambda>s. py_strip s \<noteq> []) (map py_str ps))
          | _ \<Rightarrow> []))"

definition parse_agent_hello :: "(string, pyval) dict \<Rightarrow> agent_hello result" where
  "parse_agent_hello message =
     (if dget message ''type'' \<noteq> PStr ''hello''
        then Inl (ValueError ''first agent message must be hello'')
      else
        let node_id = py_strip (str_field message ''node_id'' [])
        in if node_id = [] then Inl (ValueError ''agent hello is missing node_id'')
           else rbind (hardware_from_dict (dget message ''hardware'')) (\<lambda>hardware.
             Inr \<lparr>a_node_id = node_id, a_hostname = str_field message ''hostname'' node_id,
                  a_agent_version = dget message ''agent_version'',
                  a_capabilities = dict_of (dget message ''capabilities''),
                  a_hardware = hardware\<rparr>))"

subsection \<open>Performance\<close>

fun strings_of :: "pyval list \<Rightarrow> string list" where
  "strings_of [] = []"
| "strings_of (PStr s # xs) = s # strings_of xs"
| "strings_of (_ # xs) = strings_of xs"

definition supported_from :: "pyval \<Rightarrow> string list" where
  "supported_from raw =
     (case raw of
        PList xs \<Rightarrow> first_occurrences (map py_strip (filter (\<lambda>s. py_strip s \<noteq> []) (strings_of xs)))
      | _ \<Rightarrow> [])"

definition build_performance ::
    "(string, pyval) dict \<Rightarrow> string \<Rightarrow> string \<Rightarrow> performance result" where
  "build_performance payload profile status =
     rbind (float_field payload ''sampled_at'') (\<lambda>t.
       rbind (opt_conv py_float (dget payload ''interval_ms'')) (\<lambda>interval.
         mk_performance profile status (PFlt t) (opt_val PFlt interval)
           (case dget payload ''metrics'' of PDict m \<Rightarrow> m | _ \<Rightarrow> [])
           (supported_from (dget payload ''supported_metrics''))
           (if truthy (dget payload ''error'') then Some (py_str (dget payload ''error'')) else None)
           (case dget payload ''invalid_metrics'' of PList xs \<Rightarrow> map py_str xs | _ \<Rightarrow> [])))"

definition performance_from_dict :: "pyval \<Rightarrow> performance option result" where
  "performance_from_dict payload =
     (case payload of
        PDict d \<Rightarrow>
          let profile = py_strip (str_field d ''profile'' []);
              status = py_strip (str_field d ''status'' [])
          in if profile = [] \<or> status = [] then Inr None
             else rbind (catching conversion_error (build_performance d profile status)
                    (mk_performance profile ''error'' (PInt 0) PNone [] []
                      (Some ''Invalid performance metadata; sample isolated'') [])) (\<lambda>p. Inr (Some p))
      | _ \<Rightarrow> Inr None)"

subsection \<open>Processes and owners\<close>

definition process_from_dict :: "(string, pyval) dict \<Rightarrow> gpu_process result" where
  "process_from_dict d =
     rbind (int_field d ''pid'') (\<lambda>pid.
     rbind (int_field d ''gpu_memory_mb'') (\<lambda>mb.
       Inr \<lparr>p_pid = pid, p_name = str_field d ''name'' ''?'', p_gpu_memory_mb = mb,
            p_ppid = dget d ''ppid'', p_user = dget d ''user'', p_task_name = dget d ''task_name'',
            p_exe = dget d ''exe'', p_cmdline = dget d ''cmdline'',
            p_cmdline_hash = dget d ''cmdline_hash'', p_kind = str_field d ''kind'' ''compute'',
            p_runtime_seconds = dget d ''runtime_seconds'',
            p_start_time = dget d ''process_start_time'',
            p_parent_start_time = dget d ''parent_start_time'',
            p_detail_status = str_field d ''detail_status'' ''unknown'',
            p_detail_error = dget d ''detail_error'', p_user_uid = dget d ''user_uid''\<rparr>))"

definition owner_from_dict :: "(string, pyval) dict \<Rightarrow> other_user result" where
  "owner_from_dict d =
     rbind (int_field d ''process_count'') (\<lambda>n.
     rbind (int_field d ''total_memory_mb'') (\<lambda>mb.
       Inr \<lparr>o_user = str_field d ''user'' ''?'', o_process_count = n, o_total_memory_mb = mb,
            o_runtime_seconds = dget d ''runtime_seconds''\<rparr>))"

text \<open>The entries that pass the checks of the loop; the others are named in the error table.\<close>

definition valid_process :: "pyval \<Rightarrow> bool" where
  "valid_process item =
     (case item of
        PDict d \<Rightarrow> accepts PID_RULE (dget d ''pid'') \<and> numeric_issues d PROCESS_METRIC_RULES = []
      | _ \<Rightarrow> False)"

definition valid_owner :: "pyval \<Rightarrow> bool" where
  "valid_owner item =
     (case item of PDict d \<Rightarrow> numeric_issues d OWNER_METRIC_RULES = [] | _ \<Rightarrow> False)"

definition list_errors ::
    "string \<Rightarrow> string \<Rightarrow> string \<Rightarrow> (pyval \<Rightarrow> bool) \<Rightarrow> pyval \<Rightarrow> (string, string) dict \<Rightarrow> (string, string) dict" where
  "list_errors key not_list bad_item valid raw errors =
     (case raw of
        PList xs \<Rightarrow> if list_all valid xs then errors else AList.update key bad_item errors
      | _ \<Rightarrow> AList.update key not_list errors)"

definition list_items :: "(pyval \<Rightarrow> bool) \<Rightarrow> pyval \<Rightarrow> (string, pyval) dict list" where
  "list_items valid raw =
     (case raw of PList xs \<Rightarrow> List.map_filter dict_of (filter valid xs) | _ \<Rightarrow> [])"

subsection \<open>Accelerators\<close>

definition perf_of_previous ::
    "pyval \<Rightarrow> gpu option \<Rightarrow> performance option \<Rightarrow> performance option" where
  "perf_of_previous raw previous perf =
     (case (perf, raw, previous) of
        (Some p, PDict d, Some g) \<Rightarrow>
          (case g_performance g of
             Some q \<Rightarrow> if \<not> has_key d ''supported_metrics'' \<and> f_profile q = f_profile p
               then Some (p\<lparr>f_supported_metrics := f_supported_metrics q\<rparr>) else perf
           | None \<Rightarrow> perf)
      | _ \<Rightarrow> perf)"

definition gpu_from_dict ::
    "string \<Rightarrow> (string, pyval) dict \<Rightarrow> gpu option \<Rightarrow> (string, string) dict \<Rightarrow> gpu result" where
  "gpu_from_dict node_id data previous errors0 =
     (let raw_processes = dget_or data ''processes'' (PList []);
          raw_owners = dget_or data ''other_users'' (PList []);
          errors1 = list_errors ''processes'' ''Invalid process list; entries omitted''
            ''Invalid process reading; affected entries omitted'' valid_process raw_processes errors0;
          errors2 = list_errors ''other_users'' ''Invalid process owner list; entries omitted''
            ''Invalid process owner reading; affected entries omitted'' valid_owner raw_owners errors1;
          int_of = (\<lambda>k. int_field data k)
      in rbind (rmap process_from_dict (list_items valid_process raw_processes)) (\<lambda>processes.
         rbind (rmap owner_from_dict (list_items valid_owner raw_owners)) (\<lambda>owners.
         rbind (performance_from_dict (dget data ''performance'')) (\<lambda>perf.
         rbind (int_of ''index'') (\<lambda>index.
         rbind (opt_conv py_int (dget data ''die_id'')) (\<lambda>die.
         rbind (int_of ''utilization_gpu'') (\<lambda>ug.
         rbind (int_of ''utilization_mem'') (\<lambda>um.
         rbind (int_of ''memory_total_mb'') (\<lambda>mt.
         rbind (int_of ''memory_used_mb'') (\<lambda>mu.
         rbind (int_of ''memory_free_mb'') (\<lambda>mf.
         rbind (int_of ''temperature_c'') (\<lambda>tc.
         rbind (float_field data ''power_watts'') (\<lambda>pw.
         rbind (float_field data ''power_limit_watts'') (\<lambda>pl.
           let gpu = \<lparr>g_index = index, g_node_id = Some node_id, g_gpu_id = None,
                 g_device_type = str_field data ''device_type'' ''nvidia'',
                 g_card_id = (if dget data ''card_id'' = PNone then None
                   else Some (py_str (dget data ''card_id''))),
                 g_die_id = die, g_uuid = str_field data ''uuid'' ''unknown'',
                 g_name = str_field data ''name'' ''unknown'', g_pci_bus_id = dget data ''pci_bus_id'',
                 g_utilization_gpu = of_int ug, g_utilization_mem = of_int um,
                 g_memory_total_mb = of_int mt, g_memory_used_mb = of_int mu,
                 g_memory_free_mb = of_int mf, g_temperature_c = of_int tc,
                 g_power_watts = flt_num pw, g_power_limit_watts = flt_num pl,
                 g_clock_sm_mhz = dget data ''clock_sm_mhz'',
                 g_clock_mem_mhz = dget data ''clock_mem_mhz'',
                 g_max_clock_sm_mhz = dget data ''max_clock_sm_mhz'',
                 g_max_clock_mem_mhz = dget data ''max_clock_mem_mhz'',
                 g_pstate = dget data ''pstate'', g_compute_mode = dget data ''compute_mode'',
                 g_mig_mode = dget data ''mig_mode'', g_ecc_mode = dget data ''ecc_mode'',
                 g_performance = perf_of_previous (dget data ''performance'') previous perf,
                 g_processes = processes, g_other_users = owners, g_error = dget data ''error'',
                 g_telemetry_errors = errors2\<rparr>
           in Inr (gpu\<lparr>g_gpu_id := Some (gpu_global_id node_id gpu)\<rparr>)))))))))))))))"

text \<open>The entry of the previous sample with this UUID and index: the last one, as in the
  dictionary built from the previous accelerators.\<close>

definition previous_gpu :: "gpu list \<Rightarrow> string \<Rightarrow> int \<Rightarrow> gpu option" where
  "previous_gpu gs uuid index = find (\<lambda>g. g_uuid g = uuid \<and> g_index g = index) (rev gs)"

definition clean_reported ::
    "(string, pyval) dict \<Rightarrow> (string, pyval) dict \<times> (string, string) dict" where
  "clean_reported d =
     (let errors = (case dget d ''telemetry_errors'' of
              PDict e \<Rightarrow> map (\<lambda>kv. (fst kv, py_str (snd kv))) e | _ \<Rightarrow> []);
          issues = numeric_issues d GPU_METRIC_RULES
      in (fold (\<lambda>n. AList.update n PNone) (map fst issues) d, dict_update_all errors issues))"

definition check_capacity :: "gpu \<Rightarrow> gpu" where
  "check_capacity g =
     (if g_memory_total_mb g > 0 \<and> g_memory_used_mb g > g_memory_total_mb g
      then g\<lparr>g_telemetry_errors := AList.update ''memory_used_mb''
               ''Memory usage exceeds capacity; sample omitted'' (g_telemetry_errors g),
             g_memory_used_mb := 0\<rparr>
      else g)"

definition checked_gpu ::
    "string \<Rightarrow> (string, pyval) dict \<Rightarrow> nat \<Rightarrow> gpu list \<Rightarrow> (string, string) dict \<Rightarrow> gpu result" where
  "checked_gpu node_id data fallback previous_gpus errors =
     (let raw_index = dget_or data ''index'' (dget_or data ''gpu_index'' (PInt (int fallback)))
      in if \<not> accepts COUNT raw_index then Inl (ValueError ''invalid GPU index'')
         else if dget data ''die_id'' \<noteq> PNone \<and> \<not> accepts COUNT (dget data ''die_id'')
           then Inl (ValueError ''invalid die index'')
         else rbind (py_int raw_index) (\<lambda>index.
           let previous = previous_gpu previous_gpus (str_field data ''uuid'' ''unknown'') index
           in rbind (gpu_from_dict node_id data previous errors) (\<lambda>g0.
             Inr (check_capacity (g0\<lparr>g_index := index\<rparr>)))))"

definition gpu_from_telemetry :: "string \<Rightarrow> pyval \<Rightarrow> nat \<Rightarrow> gpu list \<Rightarrow> gpu result" where
  "gpu_from_telemetry node_id item fallback previous_gpus =
     (case item of
        PDict d \<Rightarrow>
          (case clean_reported d of (data, errors) \<Rightarrow>
             catching conversion_error (checked_gpu node_id data fallback previous_gpus errors)
               (Inr (blank_gpu (int fallback) node_id (str_field data ''uuid'' ''unknown'')
                  (str_field data ''name'' ''unknown'') ''Invalid GPU snapshot; sample isolated'')))
      | _ \<Rightarrow> Inr (blank_gpu (int fallback) node_id ''unknown'' ''unknown'' ''Invalid GPU snapshot''))"

subsection \<open>Samples\<close>

definition decode_gpus ::
    "string \<Rightarrow> pyval list \<Rightarrow> gpu list \<Rightarrow> gpu list result" where
  "decode_gpus node_id items previous_gpus =
     rbind (rmap (\<lambda>(i, item). gpu_from_telemetry node_id item i previous_gpus)
              (enumerate 0 items)) (rmap filter_gpu_processes)"

definition sample_from_gpus ::
    "(string, pyval) dict \<Rightarrow> (string, pyval) dict \<Rightarrow> string \<Rightarrow> rat \<Rightarrow> string option \<Rightarrow> pyval
      \<Rightarrow> hw_gpu list option \<Rightarrow> string list option \<Rightarrow> gpu list \<Rightarrow> node_snapshot result" where
  "sample_from_gpus message payload node_id received_at hostname agent_version hardware profiles gpus =
     (let sampled_at = dget_or message ''sampled_at''
            (dget_or payload ''timestamp'' (PFlt (Fin received_at)));
          refresh = dget_or message ''refresh_interval''
            (dget_or payload ''refresh_interval'' (PFlt (Fin 1)));
          process = dget_or message ''process_interval''
            (dget_or payload ''process_interval'' (PFlt (Fin 5)));
          raw_elapsed = dget_or payload ''elapsed_ms'' (PFlt (Fin 0));
          elapsed_ok = accepts NONNEGATIVE raw_elapsed
      in if \<not> accepts SAMPLE_TIME sampled_at \<or> \<not> accepts INTERVAL refresh \<or> \<not> accepts INTERVAL process
           then Inl (ValueError ''invalid sample timestamp or interval'')
         else
           rbind (py_int (py_or (dget message ''seq'') (py_or (dget payload ''seq'') (PInt 0)))) (\<lambda>seq.
           rbind (py_float (if elapsed_ok then raw_elapsed else PFlt (Fin 0))) (\<lambda>ms.
             Inr \<lparr>s_node_id = node_id,
               s_hostname = py_str (py_or (dget payload ''hostname'') (PStr (str_or hostname node_id))),
               s_seq = seq, s_sampled_at = num_val sampled_at,
               s_received_at = Some received_at, s_refresh_interval = num_val refresh,
               s_process_interval = num_val process,
               s_status = (if truthy (dget_or payload ''ok'' (PBool True)) then Online else ErrorStatus),
               s_source = str_field payload ''source'' ''none'', s_gpus = gpus,
               s_totals = node_totals_from_gpus gpus, s_error = dget payload ''error'',
               s_agent_version = agent_version,
               s_driver_version = dget payload ''driver_version'',
               s_cuda_driver_version = dget payload ''cuda_driver_version'',
               s_nvml_version = dget payload ''nvml_version'',
               s_elapsed_ms = flt_num ms, s_history = [], s_hardware = hardware,
               s_performance_profiles = (case profiles of None \<Rightarrow> [] | Some ps \<Rightarrow> ps),
               s_telemetry_errors = (if elapsed_ok then []
                 else [(''elapsed_ms'', ''Invalid collection latency; reading omitted'')])\<rparr>)))"

definition node_snapshot_from_agent_sample ::
    "(string, pyval) dict \<Rightarrow> rat \<Rightarrow> string option \<Rightarrow> pyval \<Rightarrow> hw_gpu list option \<Rightarrow> string list option
      \<Rightarrow> node_snapshot option \<Rightarrow> node_snapshot result" where
  "node_snapshot_from_agent_sample message received_at hostname agent_version hardware profiles previous =
     (let node_id = py_strip (str_field message ''node_id'' [])
      in if dget message ''type'' \<noteq> PStr ''sample'' then Inl (ValueError ''agent message is not a sample'')
         else if node_id = [] then Inl (ValueError ''agent sample is missing node_id'')
         else case dget message ''snapshot'' of
           PDict payload \<Rightarrow>
             (case dget_or payload ''gpus'' (PList []) of
                PList raw_gpus \<Rightarrow>
                  rbind (decode_gpus node_id raw_gpus (case previous of None \<Rightarrow> [] | Some s \<Rightarrow> s_gpus s))
                    (sample_from_gpus message payload node_id received_at hostname agent_version hardware profiles)
              | _ \<Rightarrow> Inl (ValueError ''agent sample gpus must be a list''))
         | _ \<Rightarrow> Inl (ValueError ''agent sample is missing snapshot''))"

subsection \<open>Errors of the conversions\<close>

lemma int_field_error: "int_field d k = Inl e \<Longrightarrow> conversion_error e"
  by (simp add: int_field_def py_int_error)

lemma float_field_error: "float_field d k = Inl e \<Longrightarrow> conversion_error e"
  by (simp add: float_field_def py_float_error)

lemma opt_int_error: "opt_conv py_int v = Inl e \<Longrightarrow> conversion_error e"
  by (auto simp: opt_conv_def rbind_Inl_iff dest: py_int_error split: if_splits)

lemma opt_float_error: "opt_conv py_float v = Inl e \<Longrightarrow> conversion_error e"
  by (auto simp: opt_conv_def rbind_Inl_iff dest: py_float_error split: if_splits)

lemma process_from_dict_error: "process_from_dict d = Inl e \<Longrightarrow> conversion_error e"
  by (auto simp: process_from_dict_def rbind_Inl_iff dest: int_field_error)

lemma owner_from_dict_error: "owner_from_dict d = Inl e \<Longrightarrow> conversion_error e"
  by (auto simp: owner_from_dict_def rbind_Inl_iff dest: int_field_error)

lemma mk_performance_error: "mk_performance p s t i m sm er bad = Inl e \<Longrightarrow> conversion_error e"
  by (auto simp: mk_performance_def Let_def split: if_splits prod.splits)

lemma build_performance_error: "build_performance d p s = Inl e \<Longrightarrow> conversion_error e"
  unfolding build_performance_def rbind_Inl_iff
  by (elim disjE exE conjE; blast dest: float_field_error mk_performance_error opt_float_error)

lemma mk_performance_fallback:
  "is_ok (mk_performance p ''error'' (PInt 0) PNone [] [] er [])"
  using to_double_int[of 0]
  by (simp add: mk_performance_def PERFORMANCE_STATUSES_def filter_readings_def Let_def)

lemma performance_from_dict_ok: "is_ok (performance_from_dict v)"
proof (cases v)
  case (PDict d)
  have "is_ok (catching conversion_error (build_performance d p s)
      (mk_performance p ''error'' (PInt 0) PNone [] [] er []))" for p s er
    using build_performance_error mk_performance_fallback by (intro catching_ok)
  then have "is_ok (rbind (catching conversion_error (build_performance d p s)
      (mk_performance p ''error'' (PInt 0) PNone [] [] er [])) (\<lambda>p. Inr (Some p)))" for p s er
    by (metis is_ok_iff is_ok_rbind)
  then show ?thesis by (simp add: performance_from_dict_def PDict Let_def)
qed (simp_all add: performance_from_dict_def)

lemma performance_from_dict_no_error [simp]: "performance_from_dict v \<noteq> Inl e"
  using performance_from_dict_ok[of v] by auto

lemma gpu_from_dict_error: "gpu_from_dict n d pr er = Inl e \<Longrightarrow> conversion_error e"
  unfolding gpu_from_dict_def Let_def rbind_Inl_iff
  by (auto dest!: rmap_Inl dest: process_from_dict_error owner_from_dict_error int_field_error float_field_error
      opt_int_error)

lemma checked_gpu_error: "checked_gpu n d i prev er = Inl e \<Longrightarrow> conversion_error e"
  by (auto simp: checked_gpu_def Let_def rbind_Inl_iff dest: gpu_from_dict_error py_int_error split: if_splits)

lemma gpu_from_telemetry_total: "\<exists>g. gpu_from_telemetry n item i prev = Inr g"
proof (cases item)
  case (PDict d)
  then show ?thesis
    using checked_gpu_error
    by (auto simp: gpu_from_telemetry_def is_ok_iff[symmetric] intro!: catching_ok split: prod.splits)
qed (simp_all add: gpu_from_telemetry_def)

subsection \<open>The readings of a decoded accelerator are within range\<close>

lemma map_of_fold_update:
  "map_of (fold (\<lambda>n. AList.update n v) ns d) k = (if k \<in> set ns then Some v else map_of d k)"
  by (induction ns arbitrary: d) (auto simp: map_of_update)

lemma int_field_accepted:
  "dget d k = PNone \<or> accepts r (dget d k) \<Longrightarrow> int_field d k = Inr (trunc (num_val (dget d k)))"
  using accepts_shape[of r "dget d k"] trunc_of_int[of 0]
  by (auto simp: int_field_def py_or_def)

lemma clean_reported_metric:
  assumes "clean_reported d = (data, errors)" "(n, r) \<in> set GPU_METRIC_RULES"
  shows "dget data n = PNone \<or> accepts r (dget data n)"
proof -
  have "data = fold (\<lambda>n. AList.update n PNone) (map fst (numeric_issues d GPU_METRIC_RULES)) d"
    using assms(1) by (simp add: clean_reported_def Let_def)
  then show ?thesis
    using numeric_issues_key[OF dict_ok_GPU_METRIC_RULES assms(2), of d]
    by (auto simp: dget_def map_of_fold_update has_key_iff split: option.splits)
qed

lemma clean_reported_other:
  assumes "clean_reported d = (data, errors)" "\<not> has_key GPU_METRIC_RULES k"
  shows "map_of data k = map_of d k"
proof -
  have "data = fold (\<lambda>n. AList.update n PNone) (map fst (numeric_issues d GPU_METRIC_RULES)) d"
    using assms(1) by (simp add: clean_reported_def Let_def)
  moreover have "k \<notin> set (map fst (numeric_issues d GPU_METRIC_RULES))"
    using assms(2) by (auto simp: numeric_issues_def has_key_iff)
  ultimately show ?thesis by (simp add: map_of_fold_update del: set_map)
qed

text \<open>
  The ranges, written out: a number within bounds, whole or not, as an integer or as a float; a count, a time, and
  their absence; and the bounds of a performance metric.
\<close>

fun lies_in :: "rat \<Rightarrow> rat \<Rightarrow> bool \<Rightarrow> pyval \<Rightarrow> bool" where
  "lies_in lo hi whole (PInt i) = (lo \<le> of_int i \<and> of_int i \<le> hi)"
| "lies_in lo hi whole (PFlt (Fin x)) = (lo \<le> x \<and> x \<le> hi \<and> (whole \<longrightarrow> of_int \<lfloor>x\<rfloor> = x))"
| "lies_in lo hi whole _ = False"

definition count_or_none :: "pyval \<Rightarrow> bool" where
  "count_or_none v \<longleftrightarrow> v = PNone \<or> lies_in 0 (2 ^ 63 - 1) True v"

definition time_or_none :: "pyval \<Rightarrow> bool" where
  "time_or_none v \<longleftrightarrow> v = PNone \<or> lies_in 0 253402300799 False v"

definition is_count :: "int \<Rightarrow> bool" where
  "is_count i \<longleftrightarrow> 0 \<le> i \<and> i \<le> 2 ^ 63 - 1"

definition process_in_range :: "gpu_process \<Rightarrow> bool" where
  "process_in_range p =
     (1 \<le> p_pid p \<and> is_count (p_pid p) \<and> is_count (p_gpu_memory_mb p) \<and> count_or_none (p_ppid p) \<and> count_or_none (p_user_uid p) \<and>
      count_or_none (p_runtime_seconds p) \<and> time_or_none (p_start_time p) \<and> time_or_none (p_parent_start_time p))"

definition owner_in_range :: "other_user \<Rightarrow> bool" where
  "owner_in_range u = (is_count (o_process_count u) \<and> is_count (o_total_memory_mb u) \<and> count_or_none (o_runtime_seconds u))"

text \<open>The largest number of the 32-bit format; percentages and rates of the GPM profile.\<close>

definition metric_in_range :: "string \<Rightarrow> string \<times> pyval \<Rightarrow> bool" where
  "metric_in_range profile nv =
     (let m = 340282346638528859811704183484516925440
      in if profile = ''nvidia.gpm.v1'' \<and> fst nv \<in> set [''nvidia.gpm.pcie_tx_per_second'', ''nvidia.gpm.pcie_rx_per_second'',
              ''nvidia.gpm.nvlink_tx_per_second'', ''nvidia.gpm.nvlink_rx_per_second'']
           then lies_in 0 m False (snd nv)
         else if profile = ''nvidia.gpm.v1'' \<and> fst nv \<in> set [''nvidia.gpm.sm_active'', ''nvidia.gpm.sm_occupancy'',
              ''nvidia.gpm.tensor_active'', ''nvidia.gpm.dram_bw_active'', ''nvidia.gpm.fp16_non_tensor_active'',
              ''nvidia.gpm.fp32_non_tensor_active'', ''nvidia.gpm.fp64_non_tensor_active'']
           then lies_in 0 100 False (snd nv)
         else lies_in (- m) m False (snd nv))"

definition performance_in_range :: "performance \<Rightarrow> bool" where
  "performance_in_range p =
     (f_status p \<in> set PERFORMANCE_STATUSES \<and>
      list_all (\<lambda>(n, v). accepts (case map_of (if f_profile p = NVIDIA_GPM_PROFILE then NVIDIA_GPM_RULES else []) n
        of None \<Rightarrow> READING | Some r \<Rightarrow> r) v) (f_metrics p))"

definition gpu_in_range :: "gpu \<Rightarrow> bool" where
  "gpu_in_range g =
     (0 \<le> g_index g \<and> (case g_die_id g of None \<Rightarrow> True | Some i \<Rightarrow> is_count i) \<and>
      0 \<le> g_utilization_gpu g \<and> g_utilization_gpu g \<le> 100 \<and>
      0 \<le> g_utilization_mem g \<and> g_utilization_mem g \<le> 100 \<and>
      0 \<le> g_memory_total_mb g \<and> g_memory_total_mb g \<le> 2 ^ 63 - 1 \<and>
      0 \<le> g_memory_used_mb g \<and> g_memory_used_mb g \<le> 2 ^ 63 - 1 \<and>
      0 \<le> g_memory_free_mb g \<and> g_memory_free_mb g \<le> 2 ^ 63 - 1 \<and>
      (0 < g_memory_total_mb g \<longrightarrow> g_memory_used_mb g \<le> g_memory_total_mb g) \<and>
      - 273 \<le> g_temperature_c g \<and> g_temperature_c g \<le> 2 ^ 63 - 1 \<and>
      0 \<le> g_power_watts g \<and> g_power_watts g \<le> 2 ^ 63 \<and> 0 \<le> g_power_limit_watts g \<and> g_power_limit_watts g \<le> 2 ^ 63 \<and>
      count_or_none (g_clock_sm_mhz g) \<and> count_or_none (g_clock_mem_mhz g) \<and>
      count_or_none (g_max_clock_sm_mhz g) \<and> count_or_none (g_max_clock_mem_mhz g) \<and>
      list_all process_in_range (g_processes g) \<and> list_all owner_in_range (g_other_users g) \<and>
      (case g_performance g of None \<Rightarrow> True
       | Some p \<Rightarrow> performance_in_range p \<and> list_all (metric_in_range (f_profile p)) (f_metrics p)))"

lemma rmap_all:
  assumes "rmap f xs = Inr ys" "\<And>x y. x \<in> set xs \<Longrightarrow> f x = Inr y \<Longrightarrow> P y"
  shows "list_all P ys"
proof -
  have "\<forall>x y. x \<in> set xs \<longrightarrow> f x = Inr y \<longrightarrow> P y" using assms(2) by blast
  with assms(1) show ?thesis by (induction xs arbitrary: ys) (auto simp: rbind_Inr_iff)
qed

lemma issues_Nil_field:
  assumes "numeric_issues d rules = []" "(k, r) \<in> set rules"
  shows "dget d k = PNone \<or> accepts r (dget d k)"
  using assms by (auto simp: numeric_issues_Nil dget_def split: option.splits)

lemma accepts_trunc_nonneg:
  "v = PNone \<or> accepts r v \<Longrightarrow> 0 \<le> minimum r \<Longrightarrow> 0 \<le> trunc (num_val v)"
  using accepts_bounds[of r v] by (cases "v = PNone") (auto intro: trunc_nonneg order_trans simp: trunc_def)

lemma accepts_trunc_le:
  assumes "v = PNone \<or> accepts r v" "maximum r \<le> of_int m" "0 \<le> m"
  shows "trunc (num_val v) \<le> m"
proof (cases "v = PNone")
  case False
  then have "num_val v \<le> of_int m" using assms(1,2) accepts_bounds[of r v] by (meson order_trans)
  then show ?thesis using trunc_mono[of "num_val v" "of_int m"] trunc_of_int[of m] by simp
qed (use assms(3) trunc_of_int[of 0] in simp)

lemma accepts_count_trunc:
  "v = PNone \<or> accepts r v \<Longrightarrow> 0 \<le> minimum r \<Longrightarrow> maximum r \<le> SQLITE_INT_MAX \<Longrightarrow> is_count (trunc (num_val v))"
  using accepts_trunc_nonneg[of v r] accepts_trunc_le[of v r "2 ^ 63 - 1"] by (simp add: is_count_def SQLITE_INT_MAX_def)

lemma whole_floor: "0 \<le> x \<Longrightarrow> of_int (trunc x) = x \<Longrightarrow> of_int \<lfloor>x\<rfloor> = (x :: rat)"
  by (simp add: trunc_def)

lemma accepts_count_or_none: "v = PNone \<or> accepts OPTIONAL_COUNT v \<Longrightarrow> count_or_none v"
  using accepts_shape[of OPTIONAL_COUNT v] whole_floor by (auto simp: count_or_none_def rule_defs simp del: of_int_eq_iff) (metis floor_of_int)

lemma accepts_time_or_none: "v = PNone \<or> accepts TIMESTAMP v \<Longrightarrow> time_or_none v"
  using accepts_shape[of TIMESTAMP v] by (auto simp: time_or_none_def rule_defs)

lemma process_decoded_in_range:
  assumes "PDict d \<in> set (filter valid_process xs)" "process_from_dict d = Inr p"
  shows "process_in_range p"
proof -
  have v: "accepts PID_RULE (dget d ''pid'')" "numeric_issues d PROCESS_METRIC_RULES = []"
    using assms(1) by (auto simp: valid_process_def)
  note field = issues_Nil_field[OF v(2)]
  have m: "dget d ''gpu_memory_mb'' = PNone \<or> accepts COUNT (dget d ''gpu_memory_mb'')"
    "dget d ''ppid'' = PNone \<or> accepts OPTIONAL_COUNT (dget d ''ppid'')"
    "dget d ''user_uid'' = PNone \<or> accepts OPTIONAL_COUNT (dget d ''user_uid'')"
    "dget d ''runtime_seconds'' = PNone \<or> accepts OPTIONAL_COUNT (dget d ''runtime_seconds'')"
    "dget d ''process_start_time'' = PNone \<or> accepts TIMESTAMP (dget d ''process_start_time'')"
    "dget d ''parent_start_time'' = PNone \<or> accepts TIMESTAMP (dget d ''parent_start_time'')"
    by (rule field, simp add: PROCESS_METRIC_RULES_def)+
  have n: "dget d ''pid'' \<noteq> PNone" using v(1) by (auto simp: rule_defs)
  then have "1 \<le> num_val (dget d ''pid'')"
    using accepts_bounds[OF v(1)] by (simp add: rule_defs)
  then have "1 \<le> trunc (num_val (dget d ''pid''))"
    using trunc_mono[of 1 "num_val (dget d ''pid'')"] trunc_of_int[of 1] by simp
  moreover have "is_count (trunc (num_val (dget d ''pid'')))" "is_count (trunc (num_val (dget d ''gpu_memory_mb'')))"
    using accepts_count_trunc[OF disjI2[OF v(1)]] accepts_count_trunc[OF m(1)] by (simp_all add: rule_defs)
  moreover have "p_pid p = trunc (num_val (dget d ''pid''))" "p_gpu_memory_mb p = trunc (num_val (dget d ''gpu_memory_mb''))"
    "p_ppid p = dget d ''ppid''" "p_user_uid p = dget d ''user_uid''" "p_runtime_seconds p = dget d ''runtime_seconds''"
    "p_start_time p = dget d ''process_start_time''" "p_parent_start_time p = dget d ''parent_start_time''"
    using assms(2) unfolding process_from_dict_def int_field_accepted[OF disjI2[OF v(1)]] int_field_accepted[OF m(1)] by auto
  ultimately show ?thesis
    using m(2-4)[THEN accepts_count_or_none] m(5,6)[THEN accepts_time_or_none] by (simp only: process_in_range_def simp_thms)
qed

lemma owner_decoded_in_range:
  assumes "PDict d \<in> set (filter valid_owner xs)" "owner_from_dict d = Inr u"
  shows "owner_in_range u"
proof -
  have v: "numeric_issues d OWNER_METRIC_RULES = []"
    using assms(1) by (auto simp: valid_owner_def)
  have m: "dget d ''process_count'' = PNone \<or> accepts COUNT (dget d ''process_count'')"
    "dget d ''total_memory_mb'' = PNone \<or> accepts COUNT (dget d ''total_memory_mb'')"
    "dget d ''runtime_seconds'' = PNone \<or> accepts OPTIONAL_COUNT (dget d ''runtime_seconds'')"
    by (rule issues_Nil_field[OF v], simp add: OWNER_METRIC_RULES_def)+
  have "is_count (trunc (num_val (dget d ''process_count'')))" "is_count (trunc (num_val (dget d ''total_memory_mb'')))"
    using accepts_count_trunc[OF m(1)] accepts_count_trunc[OF m(2)] by (simp_all add: rule_defs)
  then show ?thesis
    using assms(2) int_field_accepted[OF m(1)] int_field_accepted[OF m(2)] accepts_count_or_none[OF m(3)]
    by (auto simp: owner_from_dict_def owner_in_range_def)
qed

lemma dict_of_Some [simp]: "dict_of v = Some d \<longleftrightarrow> v = PDict d"
  by (cases v) auto

lemma list_items_member: "d \<in> set (list_items valid raw) \<Longrightarrow> \<exists>xs. raw = PList xs \<and> PDict d \<in> set (filter valid xs)"
  by (cases raw) (auto simp: list_items_def map_filter_def)

lemma set_fold_delete: "set (fold AList.delete ks d) = {kv \<in> set d. fst kv \<notin> set ks}"
  by (induction ks arbitrary: d) (auto simp: AList.delete_eq)

lemma filter_readings_accepted:
  assumes "filter_readings metrics rules = (kept, bad)"
  shows "list_all (\<lambda>(n, v). accepts (case map_of rules n of None \<Rightarrow> READING | Some r \<Rightarrow> r) v) kept"
proof -
  let ?ok = "\<lambda>n v. accepts (case map_of rules n of None \<Rightarrow> READING | Some r \<Rightarrow> r) v"
  let ?bad = "map fst (filter (\<lambda>nv. \<not> ?ok (fst nv) (snd nv)) metrics)"
  have "kept = fold AList.delete ?bad metrics"
    using assms by (auto simp: filter_readings_def Let_def split: if_splits)
  then show ?thesis by (force simp: list_all_iff set_fold_delete)
qed

lemma mk_performance_in_range:
  assumes "mk_performance p s t i m sm er bad = Inr q"
  shows "performance_in_range q"
proof -
  obtain kept invalid where fr:
    "filter_readings m (if p = NVIDIA_GPM_PROFILE then NVIDIA_GPM_RULES else []) = (kept, invalid)"
    by fastforce
  have "f_profile q = p" "f_metrics q = kept" "f_status q = s \<or> f_status q = ''error''"
    "s \<in> set PERFORMANCE_STATUSES"
    using assms by (auto simp: mk_performance_def fr Let_def split: if_splits)
  then show ?thesis
    using filter_readings_accepted[OF fr] by (auto simp: performance_in_range_def PERFORMANCE_STATUSES_def)
qed

lemma performance_from_dict_in_range:
  assumes "performance_from_dict v = Inr (Some p)"
  shows "performance_in_range p"
proof (cases v)
  case (PDict d)
  have "performance_in_range p" if "catching conversion_error (build_performance d pr st)
      (mk_performance pr ''error'' (PInt 0) PNone [] [] er []) = Inr p" for pr st er
    using that mk_performance_in_range
    by (auto simp: catching_def build_performance_def rbind_Inr_iff split: sum.splits if_splits)
  then show ?thesis
    using assms by (auto simp: performance_from_dict_def PDict Let_def rbind_Inr_iff split: if_splits)
qed (use assms in \<open>simp_all add: performance_from_dict_def\<close>)

lemma accepts_lies_in: "accepts r v \<Longrightarrow> \<not> optional r \<Longrightarrow> minimum r = lo \<Longrightarrow> maximum r = hi \<Longrightarrow> lies_in lo hi False v"
  by (cases "(r, v)" rule: accepts.cases) auto

lemma map_of_map_names: "map_of (map (\<lambda>n. (n, f n)) ns) k = (if k \<in> set ns then Some (f k) else None)"
  by (induction ns) auto

lemma metrics_in_range:
  assumes "performance_in_range p"
  shows "list_all (metric_in_range (f_profile p)) (f_metrics p)"
proof -
  have "metric_in_range (f_profile p) (n, v)" if nv: "(n, v) \<in> set (f_metrics p)" for n v
  proof -
    let ?rules = "if f_profile p = NVIDIA_GPM_PROFILE then NVIDIA_GPM_RULES else []"
    have a: "accepts (case map_of ?rules n of None \<Rightarrow> READING | Some r \<Rightarrow> r) v"
      using assms nv by (auto simp: performance_in_range_def list_all_iff)
    consider "f_profile p = NVIDIA_GPM_PROFILE" "n \<in> set NVIDIA_GPM_METRICS"
      | "f_profile p \<noteq> NVIDIA_GPM_PROFILE \<or> n \<notin> set NVIDIA_GPM_METRICS" by blast
    then show ?thesis
    proof cases
      case 1
      then have "accepts (gpm_rule n) v" using a by (auto simp: NVIDIA_GPM_RULES_def map_of_map_names split: option.splits)
      then have "lies_in 0 (if py_endswith n ''_per_second'' then FLOAT32_MAX else 100) False v"
        by (intro accepts_lies_in[of "gpm_rule n"]) (simp_all add: gpm_rule_def default_rule_def PERCENT_def)
      then show ?thesis
        using 1(2) unfolding NVIDIA_GPM_METRICS_def list.set insert_iff empty_iff
        by (elim disjE FalseE) (simp_all add: metric_in_range_def 1(1) NVIDIA_GPM_PROFILE_def py_endswith_def FLOAT32_MAX_def Let_def)
    next
      case 2
      then have "accepts READING v"
        using a by (auto simp: NVIDIA_GPM_RULES_def map_of_map_names split: option.splits if_splits)
      then have "lies_in (- FLOAT32_MAX) FLOAT32_MAX False v"
        by (rule accepts_lies_in) (simp_all add: READING_def default_rule_def)
      then show ?thesis
        using 2 unfolding metric_in_range_def NVIDIA_GPM_PROFILE_def NVIDIA_GPM_METRICS_def FLOAT32_MAX_def Let_def fst_conv snd_conv
        by auto
    qed
  qed
  then show ?thesis by (auto simp: list_all_iff)
qed

lemma perf_of_previous_in_range:
  "perf_of_previous raw prev perf = Some p \<Longrightarrow> perf = Some q \<Longrightarrow> performance_in_range q \<Longrightarrow>
     performance_in_range p"
  by (auto simp: perf_of_previous_def performance_in_range_def split: pyval.splits option.splits if_splits)

lemma perf_of_previous_None [simp]: "perf_of_previous raw prev None = None"
  by (simp add: perf_of_previous_def)

lemma metric_members:
  "(''utilization_gpu'', PERCENT) \<in> set GPU_METRIC_RULES" "(''utilization_mem'', PERCENT) \<in> set GPU_METRIC_RULES"
  "(''memory_total_mb'', COUNT) \<in> set GPU_METRIC_RULES" "(''memory_used_mb'', COUNT) \<in> set GPU_METRIC_RULES"
  "(''memory_free_mb'', COUNT) \<in> set GPU_METRIC_RULES"
  "(''temperature_c'', default_rule\<lparr>minimum := - 27315 / 100\<rparr>) \<in> set GPU_METRIC_RULES"
  "(''power_watts'', default_rule) \<in> set GPU_METRIC_RULES"
  "(''power_limit_watts'', default_rule) \<in> set GPU_METRIC_RULES"
  by (simp_all add: GPU_METRIC_RULES_def)

lemma float_field_nonneg:
  assumes "dget d k = PNone \<or> accepts default_rule (dget d k)" "float_field d k = Inr f"
  shows "0 \<le> flt_num f"
proof -
  have "0 \<le> rnd_bits 53 (- 1074) x" if "0 \<le> x" for x
    using that by (auto simp: rnd_bits_def Let_def intro!: mult_nonneg_nonneg round_half_even_nonneg)
  then have d: "0 \<le> flt_num (to_double x)" if "0 \<le> x" for x
    using that by (auto simp: to_double_def to_format_def Let_def)
  consider "dget d k = PNone" | i where "dget d k = PInt i" "0 \<le> i" | x where "dget d k = PFlt (Fin x)" "0 \<le> x"
    using assms(1) accepts_shape[of default_rule "dget d k"] by (auto simp: default_rule_def)
  then show ?thesis
  proof cases
    case 2
    then have "0 \<le> flt_num (to_double (of_int i))" by (intro d) simp
    moreover have "f = to_double (of_int i) \<or> f = Fin 0"
      using assms(2) 2 by (auto simp: float_field_def py_or_def split: if_splits flt.splits)
    ultimately show ?thesis by auto
  qed (use assms(2) in \<open>auto simp: float_field_def py_or_def split: if_splits\<close>)
qed

lemma rnd_bits_le:
  fixes x :: rat
  assumes "0 \<le> x" "x \<le> 2 ^ n" "floor_log2 x - (p - 1) \<le> int n" "emin \<le> int n"
  shows "rnd_bits p emin x \<le> 2 ^ n"
proof (cases "x = 0")
  case False
  define e where "e = max (floor_log2 \<bar>x\<bar> - (p - 1)) emin"
  have "e \<le> int n" using assms by (simp add: e_def)
  then obtain k where k: "int n = e + int k" by (metis zle_iff_zadd)
  have pe: "(2 :: rat) powi e \<noteq> 0" "(0 :: rat) \<le> 2 powi e" by simp_all
  have n: "(2 :: rat) ^ n = 2 powi e * 2 ^ k" by (metis k power_int_add power_int_of_nat zero_neq_numeral)
  then have "x / 2 powi e \<le> of_int (2 ^ k)" using assms(2) pe by (simp add: divide_le_eq mult.commute)
  then have "round_half_even (x / 2 powi e) \<le> 2 ^ k" using round_half_even_mono round_half_even_of_int by metis
  then have "(of_int (round_half_even (x / 2 powi e)) :: rat) \<le> of_int (2 ^ k)" by (simp only: of_int_le_iff)
  then have "(of_int (round_half_even (x / 2 powi e)) :: rat) * 2 powi e \<le> of_int (2 ^ k) * 2 powi e" using pe(2) by (rule mult_right_mono)
  then show ?thesis using False n by (simp add: rnd_bits_def e_def[symmetric] mult.commute)
qed (simp add: rnd_bits_def)

lemma double_of_count: "0 \<le> i \<Longrightarrow> of_int i \<le> SQLITE_INT_MAX \<Longrightarrow> flt_num (to_double (of_int i)) \<le> 2 ^ 63"
proof -
  assume i: "0 \<le> i" "of_int i \<le> SQLITE_INT_MAX"
  then have "(of_int i :: rat) \<le> of_int (2 ^ 63 - 1)" by (simp add: SQLITE_INT_MAX_def)
  then have lt: "i \<le> 2 ^ 63 - 1" by (simp only: of_int_le_iff)
  have "floor_log2 (of_int i) \<le> 63" if "i \<noteq> 0"
    using floor_log2_int[of i] bitlen_le_iff_power[of i 63] i(1) lt that by simp
  then have "rnd_bits 53 (- 1074) (of_int i) \<le> 2 ^ 63"
    using rnd_bits_le[of "of_int i" 63 53 "- 1074"] i(1) lt by (cases "i = 0") (simp_all add: rnd_bits_def)
  then show ?thesis by (auto simp: to_double_def to_format_def Let_def)
qed

lemma float_field_le:
  assumes "dget d k = PNone \<or> accepts default_rule (dget d k)" "float_field d k = Inr f"
  shows "flt_num f \<le> 2 ^ 63"
proof -
  consider "dget d k = PNone" | i where "dget d k = PInt i" "0 \<le> i" "of_int i \<le> SQLITE_INT_MAX"
    | x where "dget d k = PFlt (Fin x)" "x \<le> SQLITE_INT_MAX"
    using assms(1) accepts_shape[of default_rule "dget d k"] by (auto simp: default_rule_def)
  then show ?thesis
  proof cases
    case 2
    then have "f = to_double (of_int i) \<or> f = Fin 0"
      using assms(2) by (auto simp: float_field_def py_or_def split: if_splits flt.splits)
    then show ?thesis using double_of_count[OF 2(2,3)] by auto
  qed (use assms(2) in \<open>auto simp: float_field_def py_or_def SQLITE_INT_MAX_def split: if_splits\<close>)
qed

lemma clock_members:
  "(''clock_sm_mhz'', OPTIONAL_COUNT) \<in> set GPU_METRIC_RULES" "(''clock_mem_mhz'', OPTIONAL_COUNT) \<in> set GPU_METRIC_RULES"
  "(''max_clock_sm_mhz'', OPTIONAL_COUNT) \<in> set GPU_METRIC_RULES" "(''max_clock_mem_mhz'', OPTIONAL_COUNT) \<in> set GPU_METRIC_RULES"
  by (simp_all add: GPU_METRIC_RULES_def)

lemma gpu_from_dict_in_range:
  assumes c: "clean_reported d = (data, errors)" and g: "gpu_from_dict n data prev er = Inr g"
  shows "gpu_in_range (g\<lparr>g_index := 0, g_memory_total_mb := 0, g_die_id := None\<rparr>)"
    "0 \<le> g_memory_total_mb g" "g_memory_total_mb g \<le> 2 ^ 63 - 1" "opt_conv py_int (dget data ''die_id'') = Inr (g_die_id g)"
proof -
  note f = clean_reported_metric[OF c]
  obtain processes owners perf index die ug um mt mu mf tc pw pl where r:
    "rmap process_from_dict (list_items valid_process (dget_or data ''processes'' (PList []))) = Inr processes"
    "rmap owner_from_dict (list_items valid_owner (dget_or data ''other_users'' (PList []))) = Inr owners"
    "performance_from_dict (dget data ''performance'') = Inr perf"
    "int_field data ''index'' = Inr index" "opt_conv py_int (dget data ''die_id'') = Inr die"
    "int_field data ''utilization_gpu'' = Inr ug" "int_field data ''utilization_mem'' = Inr um"
    "int_field data ''memory_total_mb'' = Inr mt" "int_field data ''memory_used_mb'' = Inr mu"
    "int_field data ''memory_free_mb'' = Inr mf" "int_field data ''temperature_c'' = Inr tc"
    "float_field data ''power_watts'' = Inr pw" "float_field data ''power_limit_watts'' = Inr pl"
    and g': "g_utilization_gpu g = of_int ug" "g_utilization_mem g = of_int um"
    "g_memory_total_mb g = of_int mt" "g_memory_used_mb g = of_int mu" "g_memory_free_mb g = of_int mf"
    "g_temperature_c g = of_int tc" "g_power_watts g = flt_num pw" "g_power_limit_watts g = flt_num pl"
    "g_processes g = processes" "g_other_users g = owners"
    "g_performance g = perf_of_previous (dget data ''performance'') prev perf" "g_die_id g = die"
    "g_clock_sm_mhz g = dget data ''clock_sm_mhz''" "g_clock_mem_mhz g = dget data ''clock_mem_mhz''"
    "g_max_clock_sm_mhz g = dget data ''max_clock_sm_mhz''" "g_max_clock_mem_mhz g = dget data ''max_clock_mem_mhz''"
    using g unfolding gpu_from_dict_def Let_def rbind_Inr_iff by auto
  note i = f[OF metric_members(1)] f[OF metric_members(2)] f[OF metric_members(3)]
    f[OF metric_members(4)] f[OF metric_members(5)] f[OF metric_members(6)]
  have t: "ug = trunc (num_val (dget data ''utilization_gpu''))"
    "um = trunc (num_val (dget data ''utilization_mem''))"
    "mt = trunc (num_val (dget data ''memory_total_mb''))"
    "mu = trunc (num_val (dget data ''memory_used_mb''))"
    "mf = trunc (num_val (dget data ''memory_free_mb''))"
    "tc = trunc (num_val (dget data ''temperature_c''))"
    using r int_field_accepted[OF i(1)] int_field_accepted[OF i(2)] int_field_accepted[OF i(3)]
      int_field_accepted[OF i(4)] int_field_accepted[OF i(5)] int_field_accepted[OF i(6)] by simp_all
  have nn: "0 \<le> ug" "0 \<le> um" "0 \<le> mt" "0 \<le> mu" "0 \<le> mf"
    unfolding t by (rule accepts_trunc_nonneg[OF i(1)] accepts_trunc_nonneg[OF i(2)]
      accepts_trunc_nonneg[OF i(3)] accepts_trunc_nonneg[OF i(4)] accepts_trunc_nonneg[OF i(5)],
      simp add: rule_defs)+
  have le: "trunc (num_val v) \<le> 100" if "v = PNone \<or> accepts PERCENT v" for v
    using that accepts_bounds[of PERCENT v] trunc_mono[of "num_val v" 100] trunc_of_int[of 100] trunc_of_int[of 0]
    by (cases "v = PNone") (auto simp: rule_defs)
  have tmp: "- 273 \<le> tc"
    unfolding t using i(6) accepts_bounds[OF _, of "default_rule\<lparr>minimum := - 27315 / 100\<rparr>" "dget data ''temperature_c''"]
      trunc_mono[of "- 27315 / 100" "num_val (dget data ''temperature_c'')"] trunc_of_int[of 0]
    by (cases "dget data ''temperature_c'' = PNone") (auto simp: default_rule_def trunc_def)
  have pr: "list_all process_in_range processes"
    by (rule rmap_all[OF r(1)]) (auto dest!: list_items_member intro: process_decoded_in_range)
  have ow: "list_all owner_in_range owners"
    by (rule rmap_all[OF r(2)]) (auto dest!: list_items_member intro: owner_decoded_in_range)
  have pe: "\<forall>p. perf_of_previous (dget data ''performance'') prev perf = Some p \<longrightarrow>
      performance_in_range p \<and> list_all (metric_in_range (f_profile p)) (f_metrics p)"
  proof (cases perf)
    case (Some q)
    then show ?thesis
      using r(3) performance_from_dict_in_range perf_of_previous_in_range metrics_in_range by blast
  qed simp
  have ck: "count_or_none (dget data ''clock_sm_mhz'')" "count_or_none (dget data ''clock_mem_mhz'')"
    "count_or_none (dget data ''max_clock_sm_mhz'')" "count_or_none (dget data ''max_clock_mem_mhz'')"
    using clock_members[THEN f] accepts_count_or_none by blast+
  have pw: "0 \<le> flt_num pw" "0 \<le> flt_num pl" "flt_num pw \<le> 2 ^ 63" "flt_num pl \<le> 2 ^ 63"
    using float_field_nonneg[OF f[OF metric_members(7)] r(12)] float_field_nonneg[OF f[OF metric_members(8)] r(13)]
      float_field_le[OF f[OF metric_members(7)] r(12)] float_field_le[OF f[OF metric_members(8)] r(13)]
    by simp_all
  have up: "mt \<le> 2 ^ 63 - 1" "mu \<le> 2 ^ 63 - 1" "mf \<le> 2 ^ 63 - 1" "tc \<le> 2 ^ 63 - 1"
    unfolding t by (rule accepts_trunc_le[OF i(3)] accepts_trunc_le[OF i(4)] accepts_trunc_le[OF i(5)] accepts_trunc_le[OF i(6)],
      simp_all add: rule_defs)+
  have cast: "(of_int k :: rat) \<le> 2 ^ 63 - 1" if "k \<le> 2 ^ 63 - 1" for k
  proof -
    have "(of_int k :: rat) \<le> of_int (2 ^ 63 - 1)" using that by (simp only: of_int_le_iff)
    then show ?thesis by simp
  qed
  have "(of_int ug :: rat) \<le> 100" "(of_int um :: rat) \<le> 100" "- 273 \<le> (of_int tc :: rat)"
    using le[OF i(1)] le[OF i(2)] tmp unfolding t by linarith+
  then show "gpu_in_range (g\<lparr>g_index := 0, g_memory_total_mb := 0, g_die_id := None\<rparr>)"
    using nn pr ow pe pw ck up[THEN cast] unfolding gpu_in_range_def by (simp add: g' split: option.splits)
  show "0 \<le> g_memory_total_mb g" "g_memory_total_mb g \<le> 2 ^ 63 - 1" "opt_conv py_int (dget data ''die_id'') = Inr (g_die_id g)"
    using nn cast[OF up(1)] r(5) by (simp_all add: g')
qed

lemma checked_gpu_in_range:
  assumes c: "clean_reported d = (data, errors)" and g: "checked_gpu n data i prev er = Inr g"
  shows "gpu_in_range g"
proof -
  let ?raw = "dget_or data ''index'' (dget_or data ''gpu_index'' (PInt (int i)))"
  obtain index g0 where a: "accepts COUNT ?raw" "py_int ?raw = Inr index"
    and g0: "gpu_from_dict n data (previous_gpu prev (str_field data ''uuid'' ''unknown'') index) er = Inr g0"
    and gg: "g = check_capacity (g0\<lparr>g_index := index\<rparr>)"
    using g by (auto simp: checked_gpu_def Let_def rbind_Inr_iff split: if_splits)
  have n: "?raw \<noteq> PNone" using a(1) by (auto simp: rule_defs)
  have "0 \<le> index"
    using accepts_py_int[OF a(1) n] a(2) accepts_bounds[OF a(1) n] by (auto simp: rule_defs trunc_nonneg)
  moreover have "case g_die_id g0 of None \<Rightarrow> True | Some i \<Rightarrow> is_count i"
  proof (cases "dget data ''die_id'' = PNone")
    case False
    then have die: "accepts COUNT (dget data ''die_id'')" using g by (auto simp: checked_gpu_def Let_def split: if_splits)
    have "g_die_id g0 = Some (trunc (num_val (dget data ''die_id'')))"
      using gpu_from_dict_in_range(4)[OF c g0] accepts_py_int[OF die False] False by (auto simp: opt_conv_def)
    then show ?thesis using accepts_count_trunc[OF disjI2[OF die]] by (simp add: rule_defs)
  qed (use gpu_from_dict_in_range(4)[OF c g0] in \<open>auto simp: opt_conv_def\<close>)
  ultimately show ?thesis
    using gpu_from_dict_in_range(1-3)[OF c g0] unfolding gg gpu_in_range_def check_capacity_def by simp
qed

lemma blank_gpu_in_range: "gpu_in_range (blank_gpu (int i) n u nm e)"
  by (simp add: gpu_in_range_def blank_gpu_def count_or_none_def)

lemma gpu_from_telemetry_in_range:
  assumes "gpu_from_telemetry n item i prev = Inr g"
  shows "gpu_in_range g"
proof (cases item)
  case (PDict d)
  obtain data errors where c: "clean_reported d = (data, errors)" by fastforce
  show ?thesis
    using assms checked_gpu_in_range[OF c] blank_gpu_in_range
    by (auto simp: gpu_from_telemetry_def PDict c catching_def split: sum.splits if_splits)
qed (use assms blank_gpu_in_range in \<open>auto simp: gpu_from_telemetry_def\<close>)

lemma processes_in_range:
  "gpu_in_range g \<Longrightarrow> list_all process_in_range ps \<Longrightarrow> list_all owner_in_range us \<Longrightarrow>
     gpu_in_range (g\<lparr>g_processes := ps, g_other_users := us\<rparr>)"
  by (simp add: gpu_in_range_def)

lemma filter_gpu_in_range:
  assumes "filter_gpu_processes g = Inr h" "gpu_in_range g"
  shows "gpu_in_range h"
proof -
  have "list_all process_in_range (g_processes g)" "list_all owner_in_range (g_other_users g)"
    using assms(2) by (simp_all add: gpu_in_range_def)
  then show ?thesis
    using assms by (auto simp: filter_gpu_processes_def rbind_Inr_iff rfilter_Inr list_all_iff intro!: processes_in_range)
qed

lemma decode_gpus_nth:
  assumes "decode_gpus node items prev = Inr gs" "i < length items"
  shows "\<exists>raw. gpu_from_telemetry node (items ! i) i prev = Inr raw \<and> filter_gpu_processes raw = Inr (gs ! i)"
proof -
  obtain raws where r: "rmap (\<lambda>(i, item). gpu_from_telemetry node item i prev) (enumerate 0 items) = Inr raws"
    "rmap filter_gpu_processes raws = Inr gs"
    using assms(1) by (auto simp: decode_gpus_def rbind_Inr_iff)
  have "length raws = length items" using rmap_length[OF r(1)] by simp
  then show ?thesis
    using rmap_nth[OF r(1), of i] rmap_nth[OF r(2), of i] assms(2) by (auto simp: nth_enumerate_eq)
qed

lemma decode_gpus_length: "decode_gpus node items prev = Inr gs \<Longrightarrow> length gs = length items"
  by (auto simp: decode_gpus_def rbind_Inr_iff dest!: rmap_length)

lemma decode_gpus_in_range:
  assumes "decode_gpus node items prev = Inr gs" "g \<in> set gs"
  shows "gpu_in_range g"
proof -
  obtain i where "i < length items" "g = gs ! i"
    using assms decode_gpus_length[OF assms(1)] by (auto simp: in_set_conv_nth)
  then show ?thesis
    using decode_gpus_nth[OF assms(1)] gpu_from_telemetry_in_range filter_gpu_in_range by blast
qed

lemma gpu_from_telemetry_no_error [simp]: "gpu_from_telemetry n item i prev \<noteq> Inl e"
  using gpu_from_telemetry_total[of n item i prev] by auto

lemma decode_gpus_error:
  assumes "decode_gpus node items prev = Inl e"
  shows "e = TypeError \<and> (\<exists>i < length items. \<exists>raw. gpu_from_telemetry node (items ! i) i prev = Inr raw \<and>
     (\<exists>p \<in> set (g_processes raw). \<not> filterable p))"
proof -
  let ?f = "\<lambda>(i, item). gpu_from_telemetry node item i prev"
  have "rmap ?f (enumerate 0 items) \<noteq> Inl x" for x
    using rmap_Inl[of ?f "enumerate 0 items"] by (auto split: prod.splits)
  then obtain raws where r: "rmap ?f (enumerate 0 items) = Inr raws" "rmap filter_gpu_processes raws = Inl e"
    using assms by (auto simp: decode_gpus_def rbind_Inl_iff)
  obtain raw where raw: "raw \<in> set raws" "filter_gpu_processes raw = Inl e" using rmap_Inl[OF r(2)] by blast
  then obtain i where i: "i < length items" "raw = raws ! i"
    using rmap_length[OF r(1)] by (auto simp: in_set_conv_nth)
  then have "gpu_from_telemetry node (items ! i) i prev = Inr raw"
    using rmap_nth[OF r(1), of i] by (simp add: nth_enumerate_eq)
  with i(1) raw(2) show ?thesis using filter_gpu_processes_error by blast
qed

lemma gpu_from_telemetry_index:
  assumes "gpu_from_telemetry n item i prev = Inr g"
  shows "g_index g = int i \<or> is_count (g_index g)"
proof (cases item)
  case (PDict d)
  obtain data errors where c: "clean_reported d = (data, errors)" by fastforce
  have "is_count (g_index g)" if k: "checked_gpu n data i prev errors = Inr g"
  proof -
    let ?raw = "dget_or data ''index'' (dget_or data ''gpu_index'' (PInt (int i)))"
    obtain index g0 where a: "accepts COUNT ?raw" "py_int ?raw = Inr index" "g = check_capacity (g0\<lparr>g_index := index\<rparr>)"
      using k by (auto simp: checked_gpu_def Let_def rbind_Inr_iff split: if_splits)
    have "?raw \<noteq> PNone" using a(1) by (auto simp: rule_defs)
    then have "index = trunc (num_val ?raw)" using accepts_py_int[OF a(1)] a(2) by simp
    then show ?thesis using accepts_count_trunc[OF disjI2[OF a(1)]] a(3) by (simp add: check_capacity_def rule_defs)
  qed
  then show ?thesis
    using assms by (auto simp: gpu_from_telemetry_def PDict c catching_def blank_gpu_def split: sum.splits if_splits)
qed (use assms in \<open>auto simp: gpu_from_telemetry_def blank_gpu_def\<close>)

text \<open>
  C7: decoding an accelerator never raises, whatever the agent sent, and every number of the result is within its
  range: the readings, the clocks, the identifiers, the amounts and times of every process and owner, and every metric
  of the performance.  The index is that of the list or a count.
\<close>

theorem gpu_from_telemetry_safe:
  "\<exists>g. gpu_from_telemetry node item i prev = Inr g \<and> gpu_in_range g \<and> (g_index g = int i \<or> is_count (g_index g))"
  using gpu_from_telemetry_total[of node item i prev] gpu_from_telemetry_in_range gpu_from_telemetry_index by blast

text \<open>
  A sample is decoded accelerator by accelerator: each result depends on its own entry (and
  on the previous sample) only, nothing is dropped or reordered, and the only way to lose a sample at this
  point is a process entry that the desktop filter cannot judge.
\<close>

theorem decode_gpus_isolated:
  "case decode_gpus node items prev of
     Inr gs \<Rightarrow> length gs = length items \<and>
       (\<forall>i < length items. gpu_in_range (gs ! i) \<and>
          (\<exists>raw. gpu_from_telemetry node (items ! i) i prev = Inr raw \<and> filter_gpu_processes raw = Inr (gs ! i)))
   | Inl e \<Rightarrow> e = TypeError \<and>
       (\<exists>i < length items. \<exists>raw. gpu_from_telemetry node (items ! i) i prev = Inr raw \<and>
          (\<exists>p \<in> set (g_processes raw). \<not> filterable p))"
proof (cases "decode_gpus node items prev")
  case (Inr gs)
  then show ?thesis
    using decode_gpus_length[OF Inr] decode_gpus_nth[OF Inr] decode_gpus_in_range[OF Inr] by simp
qed (use decode_gpus_error in simp)

theorem decode_gpus_isolated_witness:
  "\<exists>gs. decode_gpus ''n'' [PInt 3, PNone] [] = Inr gs \<and> length gs = 2 \<and> gpu_in_range (gs ! 1)"
proof -
  have "g_processes raw = []" if "gpu_from_telemetry ''n'' ([PInt 3, PNone] ! i) i [] = Inr raw" "i < 2" for i raw
    using that by (auto simp: less_2_cases_iff gpu_from_telemetry_def blank_gpu_def)
  then show ?thesis
    using decode_gpus_isolated[where node = "''n''" and items = "[PInt 3, PNone]" and prev = "[]"]
    by (cases "decode_gpus ''n'' [PInt 3, PNone] []") fastforce+
qed

definition sample_ok :: "node_snapshot \<Rightarrow> bool" where
  "sample_ok s =
     (s_node_id s \<noteq> [] \<and> py_strip (s_node_id s) = s_node_id s \<and>
      1 / 1000000 \<le> s_sampled_at s \<and> s_sampled_at s \<le> 253402300799 \<and>
      0 < s_refresh_interval s \<and> s_refresh_interval s \<le> 86400 \<and>
      0 < s_process_interval s \<and> s_process_interval s \<le> 86400 \<and> 0 \<le> s_elapsed_ms s \<and>
      list_all gpu_in_range (s_gpus s) \<and> s_totals s = node_totals_from_gpus (s_gpus s))"

lemma elapsed_nonneg:
  assumes "py_float (if accepts NONNEGATIVE v then v else PFlt (Fin 0)) = Inr f"
  shows "0 \<le> flt_num f"
proof -
  let ?v = "if accepts NONNEGATIVE v then v else PFlt (Fin 0)"
  have a: "accepts default_rule ?v" by (simp add: rule_defs)
  then have n: "?v \<noteq> PNone" by (auto simp: rule_defs)
  have "float_field [(''x'', ?v)] ''x'' = Inr f"
    using assms n accepts_shape[OF a] to_double_int[of 0]
    by (auto simp: float_field_def dget_def py_or_def)
  then show ?thesis using a by (intro float_field_nonneg[of "[(''x'', ?v)]" "''x''"]) (simp_all add: dget_def)
qed

lemma accepts_SAMPLE_TIME: "accepts SAMPLE_TIME v \<Longrightarrow> 1 / 1000000 \<le> num_val v \<and> num_val v \<le> 253402300799"
  using accepts_bounds[of SAMPLE_TIME v] by (cases "v = PNone") (simp_all add: rule_defs)

lemma accepts_INTERVAL: "accepts INTERVAL v \<Longrightarrow> 0 < num_val v \<and> num_val v \<le> 86400"
  using accepts_bounds[of INTERVAL v] by (cases "v = PNone") (simp_all add: rule_defs)

lemma sample_from_gpus_ok:
  assumes "sample_from_gpus m pl nid t host ver hw prof gpus = Inr s"
    "nid \<noteq> []" "py_strip nid = nid" "list_all gpu_in_range gpus"
  shows "sample_ok s \<and> s_received_at s = Some t \<and> s_history s = [] \<and> s_hardware s = hw \<and>
     s_agent_version s = ver \<and> s_node_id s = nid \<and> s_gpus s = gpus"
proof -
  let ?st = "dget_or m ''sampled_at'' (dget_or pl ''timestamp'' (PFlt (Fin t)))"
  let ?re = "dget_or m ''refresh_interval'' (dget_or pl ''refresh_interval'' (PFlt (Fin 1)))"
  let ?pr = "dget_or m ''process_interval'' (dget_or pl ''process_interval'' (PFlt (Fin 5)))"
  let ?el = "dget_or pl ''elapsed_ms'' (PFlt (Fin 0))"
  have ok: "accepts SAMPLE_TIME ?st" "accepts INTERVAL ?re" "accepts INTERVAL ?pr"
    using assms(1) by (simp_all add: sample_from_gpus_def Let_def del: accepts.simps split: if_splits)
  obtain q ms where "py_int (py_or (dget m ''seq'') (py_or (dget pl ''seq'') (PInt 0))) = Inr q"
    and ms: "py_float (if accepts NONNEGATIVE ?el then ?el else PFlt (Fin 0)) = Inr ms"
    and s: "s_node_id s = nid" "s_received_at s = Some t" "s_sampled_at s = num_val ?st"
      "s_refresh_interval s = num_val ?re" "s_process_interval s = num_val ?pr" "s_elapsed_ms s = flt_num ms"
      "s_gpus s = gpus" "s_totals s = node_totals_from_gpus gpus" "s_history s = []" "s_hardware s = hw"
      "s_agent_version s = ver"
    using assms(1) ok by (auto simp: sample_from_gpus_def Let_def rbind_Inr_iff simp del: accepts.simps py_float.simps)
  show ?thesis
    using accepts_SAMPLE_TIME[OF ok(1)] accepts_INTERVAL[OF ok(2)] accepts_INTERVAL[OF ok(3)]
      elapsed_nonneg[OF ms] assms(2-4)
    by (simp add: sample_ok_def s)
qed

lemma node_snapshot_decoded:
  assumes "node_snapshot_from_agent_sample m t host ver hw prof prev = Inr s"
  shows "sample_ok s \<and> s_received_at s = Some t \<and> s_history s = [] \<and> s_hardware s = hw \<and>
     s_agent_version s = ver \<and> s_node_id s = py_strip (str_field m ''node_id'' [])"
proof -
  let ?nid = "py_strip (str_field m ''node_id'' [])"
  obtain pl gpus items where "?nid \<noteq> []"
    and d: "decode_gpus ?nid items (case prev of None \<Rightarrow> [] | Some s \<Rightarrow> s_gpus s) = Inr gpus"
    and b: "sample_from_gpus m pl ?nid t host ver hw prof gpus = Inr s"
    using assms
    by (auto simp: node_snapshot_from_agent_sample_def Let_def rbind_Inr_iff split: if_splits pyval.splits)
  then show ?thesis
    using sample_from_gpus_ok[OF b] decode_gpus_in_range[OF d] by (simp add: list_all_iff)
qed

text \<open>
  A sample the manager accepts has a node name without surrounding blanks, a time and intervals
  within their limits, a nonnegative latency, accelerators within range and the totals of exactly
  these accelerators.
\<close>

theorem node_snapshot_from_agent_sample_ok:
  assumes "node_snapshot_from_agent_sample m t host ver hw prof prev = Inr s"
  shows "sample_ok s \<and> s_received_at s = Some t \<and> s_hardware s = hw \<and> s_agent_version s = ver"
  using node_snapshot_decoded[OF assms] by blast

definition sample_message :: "pyval list \<Rightarrow> (string, pyval) dict" where
  "sample_message gpus =
     [(''type'', PStr ''sample''), (''node_id'', PStr '' n1 ''), (''seq'', PInt 4),
      (''sampled_at'', PInt 100), (''snapshot'', PDict [(''gpus'', PList gpus), (''elapsed_ms'', PStr ''x'')])]"

lemma strip_sample_node: "py_strip '' n1 '' = ''n1''"
  by (simp add: py_strip_def py_ws_def Let_def)

theorem node_snapshot_from_agent_sample_ok_witness:
  "\<exists>s. node_snapshot_from_agent_sample (sample_message [PInt 3]) 101 None PNone None None None = Inr s \<and>
     sample_ok s"
proof -
  have "is_ok (node_snapshot_from_agent_sample (sample_message [PInt 3]) 101 None PNone None None None)"
    by (simp add: node_snapshot_from_agent_sample_def sample_message_def sample_from_gpus_def Let_def dget_def
        dget_or_def str_field_def py_or_def strip_sample_node decode_gpus_def gpu_from_telemetry_def blank_gpu_def
        filter_gpu_processes_def enumerate_eq_zip rule_defs)
  then show ?thesis using node_snapshot_from_agent_sample_ok unfolding is_ok_iff by blast
qed

lemmas decode_defs = gpu_from_telemetry_def clean_reported_def numeric_issues_def GPU_METRIC_RULES_def
  checked_gpu_def gpu_from_dict_def Let_def dget_def dget_or_def int_field_def float_field_def str_field_def
  py_or_def rule_defs list_items_def list_errors_def opt_conv_def performance_from_dict_def
  check_capacity_def perf_of_previous_def map_filter_simps

lemma decode_bare_gpu:
  "\<exists>g. gpu_from_telemetry ''n'' (PDict [(''index'', PInt 0)]) 0 [] = Inr g \<and> g_processes g = []"
  by (simp add: decode_defs)

definition process_entry :: "pyval \<Rightarrow> pyval" where
  "process_entry user = PDict [(''pid'', PInt 1), (''user'', user)]"

lemma decode_process_entry:
  "valid_process (process_entry user) \<and>
   (\<exists>d p. process_entry user = PDict d \<and> process_from_dict d = Inr p \<and> p_user p = user \<and> p_exe p = PNone \<and> p_name p = ''?'')"
  by (simp add: process_entry_def valid_process_def process_from_dict_def numeric_issues_def
      PROCESS_METRIC_RULES_def dget_def int_field_def str_field_def py_or_def rule_defs)

lemma decode_gpu_with_process:
  "\<exists>g p. gpu_from_telemetry ''n'' (PDict [(''index'', PInt 1), (''processes'', PList [process_entry user])]) 1 [] =
      Inr g \<and> g_processes g = [p] \<and> p_user p = user \<and> p_exe p = PNone \<and> p_name p = ''?''"
proof -
  obtain d p where "valid_process (process_entry user)" "process_entry user = PDict d" "process_from_dict d = Inr p"
    "p_user p = user \<and> p_exe p = PNone \<and> p_name p = ''?''"
    using decode_process_entry by blast
  then show ?thesis by (simp add: decode_defs)
qed

text \<open>
  One process entry whose user is a list makes the decoding of the whole sample raise, and the
  healthy accelerator beside it is lost with it; with a textual user the sample is decoded.
\<close>

theorem bad_process_discards_siblings:
  "decode_gpus ''n'' [PDict [(''index'', PInt 0)],
       PDict [(''index'', PInt 1), (''processes'', PList [process_entry (PList [])])]] [] = Inl TypeError \<and>
   is_ok (decode_gpus ''n'' [PDict [(''index'', PInt 0)],
       PDict [(''index'', PInt 1), (''processes'', PList [process_entry (PStr ''a'')])]] [])"
proof -
  obtain g where g: "gpu_from_telemetry ''n'' (PDict [(''index'', PInt 0)]) 0 [] = Inr g" "g_processes g = []"
    using decode_bare_gpu by blast
  obtain h p where h: "gpu_from_telemetry ''n'' (PDict [(''index'', PInt 1), (''processes'', PList [process_entry (PList [])])]) 1 [] =
      Inr h" "g_processes h = [p]" "p_user p = PList []"
    using decode_gpu_with_process by blast
  obtain k q where k: "gpu_from_telemetry ''n'' (PDict [(''index'', PInt 1), (''processes'', PList [process_entry (PStr ''a'')])]) 1 [] =
      Inr k" "g_processes k = [q]" "p_user q = PStr ''a''" "p_exe q = PNone" "p_name q = ''?''"
    using decode_gpu_with_process by blast
  show ?thesis
    using g h k by (simp add: decode_gpus_def filter_gpu_processes_def is_excluded_process_def
        EXCLUDED_USERS_def EXCLUDED_PROCESS_NAMES_def path_name_def)
qed

text \<open>
  The global identifier of an accelerator that reports no UUID and gives its position as
  gpu_index, not as index, is that of index 0, although the accelerator is stored under the position
  it reported.
\<close>

theorem gpu_index_not_in_global_id:
  "\<exists>g. gpu_from_telemetry ''n'' (PDict [(''gpu_index'', PInt 3)]) 3 [] = Inr g \<and> g_index g = 3 \<and>
     g_gpu_id g = Some ''n:index:0'' \<and> gpu_global_id ''n'' g = ''n:index:3''"
proof -
  show ?thesis
    by (simp add: decode_defs gpu_global_id_def int_str_def nat_str.simps digit_char_def)
qed

end
