(* ===== verification/Wire.thy ===== *)
theory Wire
  imports Ingest
begin

text \<open>
  The round trip between \<^verbatim>\<open>GpuInfo.to_dict\<close> on the agent (\<open>schema.py\<close>) and
  \<^verbatim>\<open>gpu_from_telemetry\<close> on the manager (\<open>cluster.py\<close>).
\<close>

subsection \<open>What an agent sends is what the manager decodes\<close>

definition wire_process :: "gpu_process \<Rightarrow> bool" where
  "wire_process p =
     (accepts PID_RULE (PInt (p_pid p)) \<and> accepts COUNT (PInt (p_gpu_memory_mb p)) \<and>
      accepts OPTIONAL_COUNT (p_ppid p) \<and> accepts OPTIONAL_COUNT (p_user_uid p) \<and>
      accepts OPTIONAL_COUNT (p_runtime_seconds p) \<and> accepts TIMESTAMP (p_start_time p) \<and>
      accepts TIMESTAMP (p_parent_start_time p) \<and>
      p_name p \<noteq> [] \<and> p_kind p \<noteq> [] \<and> p_detail_status p \<noteq> [])"

definition wire_owner :: "other_user \<Rightarrow> bool" where
  "wire_owner u =
     (o_user u \<noteq> [] \<and> accepts COUNT (PInt (o_process_count u)) \<and>
      accepts COUNT (PInt (o_total_memory_mb u)) \<and> accepts OPTIONAL_COUNT (o_runtime_seconds u))"

definition wire_performance :: "performance \<Rightarrow> bool" where
  "wire_performance p =
     (performance_in_range p \<and> f_profile p \<noteq> [] \<and> py_strip (f_profile p) = f_profile p \<and>
      distinct (f_supported_metrics p) \<and>
      list_all (\<lambda>s. s \<noteq> [] \<and> py_strip s = s) (f_supported_metrics p) \<and>
      f_error p \<noteq> Some [] \<and> distinct (f_invalid_metrics p) \<and>
      (f_status p = ''available'' \<longrightarrow> f_invalid_metrics p = [] \<or> f_metrics p \<noteq> []))"

definition wire_gpu :: "raw_gpu \<Rightarrow> bool" where
  "wire_gpu g =
     (accepts COUNT (PInt (g_index g)) \<and>
      (case g_die_id g of None \<Rightarrow> True | Some i \<Rightarrow> accepts COUNT (PInt i)) \<and>
      g_device_type g \<noteq> [] \<and> g_uuid g \<noteq> [] \<and> g_name g \<noteq> [] \<and>
      numeric_issues (gpu_readings g) GPU_METRIC_RULES = [] \<and>
      list_all (\<lambda>v. case v of PInt _ \<Rightarrow> True | _ \<Rightarrow> False)
        [g_utilization_gpu g, g_utilization_mem g, g_memory_total_mb g, g_memory_used_mb g,
         g_memory_free_mb g, g_temperature_c g] \<and>
      list_all (\<lambda>v. case v of PFlt _ \<Rightarrow> True | _ \<Rightarrow> False) [g_power_watts g, g_power_limit_watts g] \<and>
      (num_val (g_memory_total_mb g) > 0 \<longrightarrow> num_val (g_memory_used_mb g) \<le> num_val (g_memory_total_mb g)) \<and>
      (case g_performance g of None \<Rightarrow> True | Some p \<Rightarrow> wire_performance p) \<and>
      list_all wire_process (g_processes g) \<and> list_all wire_owner (g_other_users g))"

lemma first_occurrences_distinct: "distinct xs \<Longrightarrow> first_occurrences xs = xs"
proof (induction xs)
  case (Cons x xs)
  then show ?case by (auto intro!: filter_True)
qed simp

lemma process_roundtrip:
  assumes "wire_process p"
  shows "\<exists>d. process_to_dict p = PDict d \<and> valid_process (PDict d) \<and> process_from_dict d = Inr p"
  using assms
  by (simp add: process_to_dict_def wire_process_def valid_process_def process_from_dict_def
      numeric_issues_Nil PROCESS_METRIC_RULES_def int_field_def str_field_def py_or_def dget_def PID_RULE_def)

lemma owner_roundtrip:
  assumes "wire_owner u"
  shows "\<exists>d. other_user_to_dict u = PDict d \<and> valid_owner (PDict d) \<and> owner_from_dict d = Inr u"
  using assms
  by (simp add: other_user_to_dict_def wire_owner_def valid_owner_def owner_from_dict_def
      numeric_issues_Nil OWNER_METRIC_RULES_def int_field_def str_field_def py_or_def dget_def)

lemma items_roundtrip:
  assumes "\<And>x. x \<in> set xs \<Longrightarrow> \<exists>d. enc x = PDict d \<and> valid (PDict d) \<and> dec d = Inr x"
  shows "list_all valid (map enc xs) \<and> rmap dec (list_items valid (PList (map enc xs))) = Inr xs"
  using assms
proof (induction xs)
  case (Cons x xs)
  then obtain d where d: "enc x = PDict d" "valid (PDict d)" "dec d = Inr x" by auto
  have "list_all valid (map enc xs) \<and> rmap dec (list_items valid (PList (map enc xs))) = Inr xs"
    by (rule Cons.IH) (use Cons.prems in simp)
  with d show ?case by (simp add: list_items_def map_filter_simps)
qed (simp add: list_items_def map_filter_simps)

lemma status_strip: "s \<in> set PERFORMANCE_STATUSES \<Longrightarrow> py_strip s = s \<and> s \<noteq> []"
  by (auto simp: PERFORMANCE_STATUSES_def py_strip_def py_ws_def Let_def)

lemma strings_of_PStr: "strings_of (map PStr xs) = xs"
  by (induction xs) auto

lemma filter_readings_all:
  "list_all (\<lambda>(n, v). accepts (case map_of rules n of None \<Rightarrow> READING | Some r \<Rightarrow> r) v) m \<Longrightarrow>
     filter_readings m rules = (m, [])"
  by (auto simp: filter_readings_def Let_def list_all_iff filter_empty_conv)

lemma supported_roundtrip:
  assumes "wire_performance p"
  shows "supported_from (PList (map PStr (f_supported_metrics p))) = f_supported_metrics p"
proof -
  have "filter (\<lambda>s. py_strip s \<noteq> []) (f_supported_metrics p) = f_supported_metrics p"
    "map py_strip (f_supported_metrics p) = f_supported_metrics p"
    using assms by (auto simp: wire_performance_def list_all_iff intro!: filter_True map_idI)
  then show ?thesis using assms by (simp add: wire_performance_def supported_from_def strings_of_PStr first_occurrences_distinct)
qed

text \<open>Decoding a dictionary that differs from the encoded one at most in the supported metrics.\<close>

lemma performance_decodes:
  assumes w: "wire_performance p" and d: "perf_to_dict p = PDict d"
    and same: "\<And>k. k \<noteq> ''supported_metrics'' \<Longrightarrow> dget d' k = dget d k"
  shows "performance_from_dict (PDict d') =
    Inr (Some (p\<lparr>f_supported_metrics := supported_from (dget d' ''supported_metrics'')\<rparr>))"
proof -
  note w = assms(1)[unfolded wire_performance_def performance_in_range_def]
  have lk: "dget d' ''profile'' = PStr (f_profile p)" "dget d' ''status'' = PStr (f_status p)"
    "dget d' ''sampled_at'' = PFlt (Fin (f_sampled_at p))"
    "dget d' ''interval_ms'' = opt_val (\<lambda>x. PFlt (Fin x)) (f_interval_ms p)"
    "dget d' ''metrics'' = PDict (f_metrics p)"
    "dget d' ''error'' = opt_val PStr (f_error p)"
    "dget d' ''invalid_metrics'' = PList (map PStr (f_invalid_metrics p))"
    using d by (auto simp: same perf_to_dict_def dget_def[of d])
  have s: "f_status p \<in> set PERFORMANCE_STATUSES" "py_strip (f_status p) = f_status p" "f_status p \<noteq> []"
    using w status_strip by auto
  have t: "float_field d' ''sampled_at'' = Inr (Fin (f_sampled_at p))"
    by (simp add: float_field_def lk py_or_def)
  have iv: "opt_conv py_float (dget d' ''interval_ms'') = Inr (map_option Fin (f_interval_ms p))"
    by (cases "f_interval_ms p") (auto simp: lk opt_conv_def opt_val_def)
  have er: "(if truthy (dget d' ''error'') then Some (py_str (dget d' ''error'')) else None) = f_error p"
    using w by (cases "f_error p") (auto simp: lk opt_val_def)
  have inv: "map py_str (map PStr (f_invalid_metrics p)) = f_invalid_metrics p" by (simp add: o_def)
  have "build_performance d' (f_profile p) (f_status p) =
      Inr (p\<lparr>f_supported_metrics := supported_from (dget d' ''supported_metrics'')\<rparr>)"
    using w by (cases "f_interval_ms p")
      (auto simp: build_performance_def t iv er inv lk(5) lk(7) mk_performance_def s(1) Let_def
        filter_readings_all first_occurrences_distinct opt_val_def simp del: map_map)
  then show ?thesis
    using w s by (simp add: performance_from_dict_def Let_def str_field_def lk py_or_def)
qed

lemma performance_roundtrip:
  assumes "wire_performance p"
  shows "performance_from_dict (perf_to_dict p) = Inr (Some p)"
proof -
  obtain d where d: "perf_to_dict p = PDict d" "dget d ''supported_metrics'' = PList (map PStr (f_supported_metrics p))"
    by (simp add: perf_to_dict_def dget_def)
  show ?thesis using performance_decodes[OF assms d(1), of d] supported_roundtrip[OF assms] by (simp add: d)
qed

lemma map_of_gpu_fields:
  "map_of (gpu_fields g) ''index'' = Some (PInt (g_index g))"
  "map_of (gpu_fields g) ''device_type'' = Some (PStr (g_device_type g))"
  "map_of (gpu_fields g) ''card_id'' = Some (opt_val PStr (g_card_id g))"
  "map_of (gpu_fields g) ''die_id'' = Some (opt_val PInt (g_die_id g))"
  "map_of (gpu_fields g) ''uuid'' = Some (PStr (g_uuid g))"
  "map_of (gpu_fields g) ''name'' = Some (PStr (g_name g))"
  "map_of (gpu_fields g) ''pci_bus_id'' = Some (g_pci_bus_id g)"
  "map_of (gpu_fields g) ''pstate'' = Some (g_pstate g)"
  "map_of (gpu_fields g) ''compute_mode'' = Some (g_compute_mode g)"
  "map_of (gpu_fields g) ''mig_mode'' = Some (g_mig_mode g)"
  "map_of (gpu_fields g) ''ecc_mode'' = Some (g_ecc_mode g)"
  "map_of (gpu_fields g) ''performance'' = Some (opt_val perf_to_dict (g_performance g))"
  "map_of (gpu_fields g) ''processes'' = Some (PList (map process_to_dict (g_processes g)))"
  "map_of (gpu_fields g) ''other_users'' = Some (PList (map other_user_to_dict (g_other_users g)))"
  "map_of (gpu_fields g) ''error'' = Some (g_error g)"
  "map_of (gpu_fields g) ''telemetry_errors'' =
     Some (PDict (map (\<lambda>kv. (fst kv, PStr (snd kv))) (g_telemetry_errors g)))"
  by (simp_all add: gpu_fields_def)

lemma map_of_gpu_readings:
  "map_of (gpu_readings g) ''utilization_gpu'' = Some (g_utilization_gpu g)"
  "map_of (gpu_readings g) ''utilization_mem'' = Some (g_utilization_mem g)"
  "map_of (gpu_readings g) ''memory_total_mb'' = Some (g_memory_total_mb g)"
  "map_of (gpu_readings g) ''memory_used_mb'' = Some (g_memory_used_mb g)"
  "map_of (gpu_readings g) ''memory_free_mb'' = Some (g_memory_free_mb g)"
  "map_of (gpu_readings g) ''temperature_c'' = Some (g_temperature_c g)"
  "map_of (gpu_readings g) ''power_watts'' = Some (g_power_watts g)"
  "map_of (gpu_readings g) ''power_limit_watts'' = Some (g_power_limit_watts g)"
  "map_of (gpu_readings g) ''clock_sm_mhz'' = Some (g_clock_sm_mhz g)"
  "map_of (gpu_readings g) ''clock_mem_mhz'' = Some (g_clock_mem_mhz g)"
  "map_of (gpu_readings g) ''max_clock_sm_mhz'' = Some (g_max_clock_sm_mhz g)"
  "map_of (gpu_readings g) ''max_clock_mem_mhz'' = Some (g_max_clock_mem_mhz g)"
  by (simp_all add: gpu_readings_def)

lemma map_of_gpu_fields_reading:
  assumes "has_key GPU_METRIC_RULES n"
  shows "map_of (gpu_fields g) n = map_of (gpu_readings g) n"
proof -
  have "n \<in> set (map fst GPU_METRIC_RULES)" using assms by (simp add: has_key_iff)
  then show ?thesis
    unfolding GPU_METRIC_RULES_def list.map fst_conv list.set insert_iff empty_iff
    by (elim disjE FalseE) (simp_all add: gpu_fields_def gpu_readings_def)
qed

lemma numeric_issues_cong:
  "(\<And>n. has_key rules n \<Longrightarrow> map_of a n = map_of b n) \<Longrightarrow> numeric_issues a rules = numeric_issues b rules"
proof -
  assume e: "\<And>n. has_key rules n \<Longrightarrow> map_of a n = map_of b n"
  have "map_of a (fst nr) = map_of b (fst nr)" if "nr \<in> set rules" for nr
    using that by (intro e has_keyI[of _ "snd nr"]) simp
  then show ?thesis by (auto simp: numeric_issues_def cong: filter_cong)
qed

lemma has_key_metric_names:
  "has_key GPU_METRIC_RULES n \<longleftrightarrow> n \<in> set [''utilization_gpu'', ''utilization_mem'', ''memory_total_mb'',
     ''memory_used_mb'', ''memory_free_mb'', ''temperature_c'', ''power_watts'', ''power_limit_watts'',
     ''clock_sm_mhz'', ''clock_mem_mhz'', ''max_clock_sm_mhz'', ''max_clock_mem_mhz'']"
  by (simp add: has_key_iff GPU_METRIC_RULES_def)

lemma int_field_PInt: "map_of d k = Some (PInt i) \<Longrightarrow> int_field d k = Inr i"
  by (simp add: int_field_def dget_def py_or_def)

lemma float_field_Fin: "map_of d k = Some (PFlt (Fin x)) \<Longrightarrow> float_field d k = Inr (Fin x)"
  by (simp add: float_field_def dget_def py_or_def)

lemma str_field_PStr: "map_of d k = Some (PStr s) \<Longrightarrow> s \<noteq> [] \<Longrightarrow> str_field d k x = s"
  by (simp add: str_field_def dget_def py_or_def)

lemma accepts_COUNT_PInt: "accepts COUNT (PInt i) \<Longrightarrow> 0 \<le> i"
  by (simp add: rule_defs)

definition received_gpu :: "string \<Rightarrow> raw_gpu \<Rightarrow> gpu" where
  "received_gpu node g =
     (numeric_gpu g)\<lparr>g_node_id := Some node, g_gpu_id := Some (gpu_global_id node g)\<rparr>"

text \<open>A dictionary that agrees with the one of the accelerator, except perhaps on its performance.\<close>

definition carries :: "(string, pyval) dict \<Rightarrow> raw_gpu \<Rightarrow> bool" where
  "carries d g \<longleftrightarrow> (\<forall>n. n \<noteq> ''performance'' \<longrightarrow> map_of (gpu_fields g) n \<noteq> None \<longrightarrow> map_of d n = map_of (gpu_fields g) n)"

lemma carries_reading:
  assumes "carries d g" "has_key GPU_METRIC_RULES n"
  shows "map_of d n = map_of (gpu_readings g) n"
proof -
  have "n \<noteq> ''performance''" using assms(2) by (auto simp: has_key_metric_names)
  moreover have "map_of (gpu_fields g) n \<noteq> None"
    using assms(2) map_of_gpu_fields_reading[OF assms(2)] has_key_gpu_readings[of g n] by (simp add: has_key_def)
  ultimately show ?thesis using assms(1) map_of_gpu_fields_reading[OF assms(2)] by (simp add: carries_def)
qed

lemma gpu_from_dict_roundtrip:
  assumes w: "wire_gpu g" and m: "carries d g"
    and perf: "performance_from_dict (dget d ''performance'') = Inr q"
      "perf_of_previous (dget d ''performance'') prev q = g_performance g"
  shows "gpu_from_dict node d prev (g_telemetry_errors g) = Inr (received_gpu node g)"
proof -
  note lk = map_of_gpu_fields[of g] map_of_gpu_readings[of g]
  have f: "map_of d n = map_of (gpu_fields g) n" if "n \<noteq> ''performance''" "map_of (gpu_fields g) n \<noteq> None" for n
    using m that by (simp add: carries_def)
  have r: "map_of d n = map_of (gpu_readings g) n" if "has_key GPU_METRIC_RULES n" for n by (rule carries_reading[OF m that])
  note names = has_key_metric_names
  obtain ug um mt mu mf tc pw pl where n: "g_utilization_gpu g = PInt ug" "g_utilization_mem g = PInt um"
    "g_memory_total_mb g = PInt mt" "g_memory_used_mb g = PInt mu" "g_memory_free_mb g = PInt mf"
    "g_temperature_c g = PInt tc" "g_power_watts g = PFlt (Fin pw)" "g_power_limit_watts g = PFlt (Fin pl)"
  proof -
    have a: "\<exists>x. g_power_watts g = PFlt (Fin x)" "\<exists>x. g_power_limit_watts g = PFlt (Fin x)"
      using w accepts_shape[of default_rule "g_power_watts g"] accepts_shape[of default_rule "g_power_limit_watts g"]
        metric_members(7,8)
      by (auto simp: wire_gpu_def numeric_issues_Nil lk split: pyval.splits)
    have b: "\<exists>i. g_utilization_gpu g = PInt i" "\<exists>i. g_utilization_mem g = PInt i" "\<exists>i. g_memory_total_mb g = PInt i"
      "\<exists>i. g_memory_used_mb g = PInt i" "\<exists>i. g_memory_free_mb g = PInt i" "\<exists>i. g_temperature_c g = PInt i"
      using w by (simp_all add: wire_gpu_def split: pyval.splits)
    from a b that show thesis by blast
  qed
  have i: "int_field d ''index'' = Inr (g_index g)" "int_field d ''utilization_gpu'' = Inr ug"
    "int_field d ''utilization_mem'' = Inr um" "int_field d ''memory_total_mb'' = Inr mt"
    "int_field d ''memory_used_mb'' = Inr mu" "int_field d ''memory_free_mb'' = Inr mf"
    "int_field d ''temperature_c'' = Inr tc"
    by (rule int_field_PInt, simp add: f r names lk n)+
  have p: "float_field d ''power_watts'' = Inr (Fin pw)" "float_field d ''power_limit_watts'' = Inr (Fin pl)"
    by (rule float_field_Fin, simp add: r names lk n)+
  have s: "str_field d ''device_type'' ''nvidia'' = g_device_type g" "str_field d ''uuid'' ''unknown'' = g_uuid g"
    "str_field d ''name'' ''unknown'' = g_name g"
    using w by (intro str_field_PStr; simp add: f lk wire_gpu_def)+
  have die: "opt_conv py_int (dget d ''die_id'') = Inr (g_die_id g)"
    by (cases "g_die_id g") (simp_all add: dget_def f lk opt_conv_def opt_val_def)
  have card: "(if dget d ''card_id'' = PNone then None else Some (py_str (dget d ''card_id''))) = g_card_id g"
    by (cases "g_card_id g") (simp_all add: dget_def f lk opt_val_def)
  have procs: "dget_or d ''processes'' (PList []) = PList (map process_to_dict (g_processes g))"
    "dget_or d ''other_users'' (PList []) = PList (map other_user_to_dict (g_other_users g))"
    by (simp_all add: dget_or_def f lk)
  have pr: "list_all valid_process (map process_to_dict (g_processes g))"
    "rmap process_from_dict (list_items valid_process (PList (map process_to_dict (g_processes g)))) = Inr (g_processes g)"
    using items_roundtrip[of "g_processes g" process_to_dict valid_process process_from_dict] process_roundtrip w
    by (auto simp: wire_gpu_def list_all_iff)
  have ow: "list_all valid_owner (map other_user_to_dict (g_other_users g))"
    "rmap owner_from_dict (list_items valid_owner (PList (map other_user_to_dict (g_other_users g)))) = Inr (g_other_users g)"
    using items_roundtrip[of "g_other_users g" other_user_to_dict valid_owner owner_from_dict] owner_roundtrip w
    by (auto simp: wire_gpu_def list_all_iff)
  have rest: "dget d ''pci_bus_id'' = g_pci_bus_id g" "dget d ''clock_sm_mhz'' = g_clock_sm_mhz g"
    "dget d ''clock_mem_mhz'' = g_clock_mem_mhz g" "dget d ''max_clock_sm_mhz'' = g_max_clock_sm_mhz g"
    "dget d ''max_clock_mem_mhz'' = g_max_clock_mem_mhz g" "dget d ''pstate'' = g_pstate g"
    "dget d ''compute_mode'' = g_compute_mode g" "dget d ''mig_mode'' = g_mig_mode g"
    "dget d ''ecc_mode'' = g_ecc_mode g" "dget d ''error'' = g_error g"
    by (simp_all add: dget_def f r names lk)
  show ?thesis
    by (simp add: gpu_from_dict_def Let_def procs pr ow list_errors_def perf i p s die card rest
        received_gpu_def numeric_gpu_def n gpu_global_id_def)
qed

lemma carried_roundtrip:
  assumes w: "wire_gpu g" and m: "carries d g"
    and perf: "performance_from_dict (dget d ''performance'') = Inr q"
      "perf_of_previous (dget d ''performance'') (previous_gpu prev (g_uuid g) (g_index g)) q = g_performance g"
  shows "gpu_from_telemetry node (PDict d) i prev = Inr (received_gpu node g)"
proof -
  note lk = map_of_gpu_fields[of g]
  have f: "map_of d n = map_of (gpu_fields g) n" if "n \<noteq> ''performance''" "map_of (gpu_fields g) n \<noteq> None" for n
    using m that by (simp add: carries_def)
  have "numeric_issues d GPU_METRIC_RULES = numeric_issues (gpu_readings g) GPU_METRIC_RULES"
    using carries_reading[OF m] by (rule numeric_issues_cong)
  then have none: "numeric_issues d GPU_METRIC_RULES = []" using w by (simp add: wire_gpu_def)
  have cl: "clean_reported d = (d, g_telemetry_errors g)"
    by (simp add: clean_reported_def Let_def none dget_def f lk o_def)
  have idx: "dget_or d ''index'' x = PInt (g_index g)" for x by (simp add: dget_or_def f lk)
  have uuid: "str_field d ''uuid'' ''unknown'' = g_uuid g" using w by (intro str_field_PStr) (simp_all add: f lk wire_gpu_def)
  have die: "dget d ''die_id'' \<noteq> PNone \<longrightarrow> accepts COUNT (dget d ''die_id'')"
    using w by (cases "g_die_id g") (simp_all add: dget_def f lk opt_val_def wire_gpu_def)
  have cap: "check_capacity (received_gpu node g) = received_gpu node g"
    using w by (auto simp: check_capacity_def received_gpu_def numeric_gpu_def wire_gpu_def)
  have "received_gpu node g\<lparr>g_index := g_index g\<rparr> = received_gpu node g"
    by (simp add: received_gpu_def numeric_gpu_def)
  moreover have "accepts COUNT (PInt (g_index g))" using w by (simp add: wire_gpu_def)
  ultimately have "checked_gpu node d i prev (g_telemetry_errors g) = Inr (received_gpu node g)"
    using die by (auto simp: checked_gpu_def idx uuid gpu_from_dict_roundtrip[OF w m perf] cap)
  then show ?thesis by (simp add: gpu_from_telemetry_def cl)
qed

lemma gpu_to_dict_carries: "\<exists>d. gpu_to_dict g = PDict d \<and> carries d g \<and> dget d ''performance'' = opt_val perf_to_dict (g_performance g)"
proof -
  obtain extra where d: "gpu_to_dict g = PDict (gpu_fields g @ extra)" unfolding gpu_to_dict_def by blast
  have m: "map_of (gpu_fields g @ extra) n = map_of (gpu_fields g) n" if "map_of (gpu_fields g) n \<noteq> None" for n
    unfolding map_of_append using that by (cases "map_of (gpu_fields g) n") (simp_all add: map_add_def)
  have "map_of (gpu_fields g @ extra) ''performance'' = Some (opt_val perf_to_dict (g_performance g))"
    using m[of "''performance''"] map_of_gpu_fields(12)[of g] by (simp only: option.distinct not_False_eq_True simp_thms)
  then show ?thesis using d m unfolding carries_def dget_def by (metis option.simps(5))
qed

lemma perf_of_previous_full: "perf_of_previous (opt_val perf_to_dict p) prev p = p"
  by (cases p) (simp_all add: opt_val_def perf_of_previous_def perf_to_dict_def has_key_def split: option.splits)

lemma performance_roundtrip_opt:
  "(case p of None \<Rightarrow> True | Some q \<Rightarrow> wire_performance q) \<Longrightarrow> performance_from_dict (opt_val perf_to_dict p) = Inr p"
  using performance_roundtrip by (cases p) (simp_all add: opt_val_def performance_from_dict_def)

lemma gpu_roundtrip:
  assumes w: "wire_gpu g"
  shows "gpu_from_telemetry node (gpu_to_dict g) i prev = Inr (received_gpu node g)"
proof -
  obtain d where d: "gpu_to_dict g = PDict d" "carries d g" "dget d ''performance'' = opt_val perf_to_dict (g_performance g)"
    using gpu_to_dict_carries by blast
  have "performance_from_dict (dget d ''performance'') = Inr (g_performance g)"
    unfolding d(3) using w by (intro performance_roundtrip_opt) (simp add: wire_gpu_def)
  then show ?thesis using carried_roundtrip[OF w d(2)] by (simp add: d(1,3) perf_of_previous_full)
qed

text \<open>
  C8: an accelerator that passed the agent's own validation arrives at the manager as it was sent:
  encoding it and decoding it changes nothing but the node and the global identifier.
\<close>

theorem gpu_wire_roundtrip:
  assumes "wire_gpu g"
  shows "gpu_from_telemetry node (gpu_to_dict g) i prev = Inr (received_gpu node g)"
  by (rule gpu_roundtrip[OF assms])

definition sample_raw_gpu :: raw_gpu where
  "sample_raw_gpu =
     \<lparr>g_index = 1, g_node_id = None, g_gpu_id = None, g_device_type = ''nvidia'',
      g_card_id = Some ''c'', g_die_id = Some 0, g_uuid = ''u'', g_name = ''A100'', g_pci_bus_id = PNone,
      g_utilization_gpu = PInt 40, g_utilization_mem = PInt 10, g_memory_total_mb = PInt 80,
      g_memory_used_mb = PInt 20, g_memory_free_mb = PInt 60, g_temperature_c = PInt 55,
      g_power_watts = PFlt (Fin (201 / 2)), g_power_limit_watts = PFlt (Fin 400), g_clock_sm_mhz = PInt 1410,
      g_clock_mem_mhz = PNone, g_max_clock_sm_mhz = PNone, g_max_clock_mem_mhz = PNone,
      g_pstate = PStr ''P0'', g_compute_mode = PNone, g_mig_mode = PNone, g_ecc_mode = PNone,
      g_performance = None, g_processes = [sample_process ''python'' (PStr ''alice'') PNone],
      g_other_users = [], g_error = PNone, g_telemetry_errors = []\<rparr>"

theorem gpu_wire_roundtrip_witness:
  "gpu_from_telemetry ''n'' (gpu_to_dict sample_raw_gpu) 0 [] = Inr (received_gpu ''n'' sample_raw_gpu)"
proof (rule gpu_wire_roundtrip)
  have "numeric_issues (gpu_readings sample_raw_gpu) GPU_METRIC_RULES = []"
    by (simp add: numeric_issues_def gpu_readings_def GPU_METRIC_RULES_def sample_raw_gpu_def rule_defs)
  then show "wire_gpu sample_raw_gpu"
    by (simp add: wire_gpu_def) (simp add: sample_raw_gpu_def rule_defs wire_process_def sample_process_def)
qed

end
