(* ===== verification/Cluster.thy ===== *)
theory Cluster
  imports Ingest
begin

text \<open>
  \<open>packages/backend/src/constella/cluster.py\<close>: the bounded history of every accelerator
  (\<^verbatim>\<open>HistoryAccumulator\<close>) and the state of the manager (\<^verbatim>\<open>ClusterState\<close>).

  The objects a method mutates in place are returned updated.  A connection is an identity, a
  natural number here; the clock is an argument of every operation that reads it.  What
  \<^verbatim>\<open>wait_for_update\<close> waits for is the sequence number.
\<close>

subsection \<open>History\<close>

definition HISTORY_SIZE :: nat where
  "HISTORY_SIZE = 120"

definition HISTORY_METRICS :: "string list" where
  "HISTORY_METRICS = [''gpu'', ''memory'', ''power'', ''temperature'']"

definition history_key :: "string \<Rightarrow> gpu \<Rightarrow> string" where
  "history_key node_id g = str_or (g_gpu_id g) (gpu_global_id node_id g)"

definition series_for :: "history \<Rightarrow> string \<Rightarrow> (string, rat list) dict" where
  "series_for h gid = (case map_of h gid of Some s \<Rightarrow> s | None \<Rightarrow> map (\<lambda>m. (m, [])) HISTORY_METRICS)"

text \<open>Every series holds the four metrics, so the lookup in it never fails.\<close>

definition append_metric :: "nat \<Rightarrow> string \<Rightarrow> rat \<Rightarrow> (string, rat list) dict \<Rightarrow> (string, rat list) dict" where
  "append_metric n metric v series =
     (case map_of series metric of
        None \<Rightarrow> series
      | Some xs \<Rightarrow> AList.update metric (push_bounded n xs v) series)"

definition push_gpu :: "nat \<Rightarrow> string \<Rightarrow> gpu \<Rightarrow> history \<Rightarrow> history" where
  "push_gpu n node_id g h =
     (let gid = history_key node_id g
      in if \<not> basic_metrics_valid g then AList.delete gid h
         else AList.update gid
                (append_metric n ''temperature'' (g_temperature_c g)
                  (append_metric n ''power'' (power_percent g)
                    (append_metric n ''memory'' (memory_percent g)
                      (append_metric n ''gpu'' (g_utilization_gpu g) (series_for h gid))))) h)"

definition history_payload :: "history \<Rightarrow> string \<Rightarrow> gpu list \<Rightarrow> history" where
  "history_payload h node_id gpus =
     fold (\<lambda>g p. case map_of h (history_key node_id g) of
         Some s \<Rightarrow> AList.update (history_key node_id g) s p | None \<Rightarrow> p) gpus []"

definition history_update :: "nat \<Rightarrow> node_snapshot \<Rightarrow> history \<Rightarrow> node_snapshot \<times> history" where
  "history_update n s h =
     (let gpus = map (\<lambda>g. g\<lparr>g_gpu_id := Some (history_key (s_node_id s) g)\<rparr>) (s_gpus s);
          h' = fold (push_gpu n (s_node_id s)) gpus h
      in (s\<lparr>s_gpus := gpus, s_history := history_payload h' (s_node_id s) gpus\<rparr>, h'))"

subsection \<open>State\<close>

record node_runtime =
  r_node_id :: string
  r_hostname :: string
  r_snapshot :: node_snapshot
  r_last_seq :: int
  r_connected :: bool
  r_last_seen_at :: rat
  r_agent_version :: pyval
  r_connection_id :: "nat option"
  r_hardware :: "hw_gpu list option"
  r_performance_profiles :: "string list"

record cluster_state =
  k_local_node_id :: string
  k_stale_after :: "rat option"
  k_offline_after :: "rat option"
  k_history_size :: nat
  k_latest :: "(string, node_runtime) dict"
  k_history :: history
  k_seq :: nat

definition new_cluster :: "string \<Rightarrow> rat option \<Rightarrow> rat option \<Rightarrow> nat \<Rightarrow> cluster_state" where
  "new_cluster local_node stale offline n =
     \<lparr>k_local_node_id = local_node, k_stale_after = stale, k_offline_after = offline,
      k_history_size = n, k_latest = [], k_history = [], k_seq = 0\<rparr>"

definition bump :: "cluster_state \<Rightarrow> cluster_state" where
  "bump st = st\<lparr>k_seq := Suc (k_seq st)\<rparr>"

definition connection_matches :: "node_runtime \<Rightarrow> nat option \<Rightarrow> bool" where
  "connection_matches r conn =
     (conn = None \<or> r_connection_id r = None \<or> conn = r_connection_id r)"

definition set_runtime :: "string \<Rightarrow> node_runtime \<Rightarrow> cluster_state \<Rightarrow> cluster_state" where
  "set_runtime node_id r st = st\<lparr>k_latest := AList.update node_id r (k_latest st)\<rparr>"

definition hello_snapshot :: "agent_hello \<Rightarrow> rat \<Rightarrow> node_snapshot" where
  "hello_snapshot hello seen_at =
     \<lparr>s_node_id = a_node_id hello, s_hostname = a_hostname hello, s_seq = 0, s_sampled_at = seen_at,
      s_received_at = Some seen_at, s_refresh_interval = 1, s_process_interval = 5,
      s_status = Online, s_source = ''none'', s_gpus = [], s_totals = node_totals_from_gpus [],
      s_error = PNone, s_agent_version = a_agent_version hello, s_driver_version = PNone,
      s_cuda_driver_version = PNone, s_nvml_version = PNone, s_elapsed_ms = 0, s_history = [],
      s_hardware = a_hardware hello,
      s_performance_profiles = capability_profiles (a_capabilities hello), s_telemetry_errors = []\<rparr>"

definition register_hello :: "agent_hello \<Rightarrow> rat \<Rightarrow> nat option \<Rightarrow> cluster_state \<Rightarrow> cluster_state" where
  "register_hello hello seen_at conn st =
     (let profiles = capability_profiles (a_capabilities hello)
      in bump (set_runtime (a_node_id hello)
          (case map_of (k_latest st) (a_node_id hello) of
             None \<Rightarrow>
               \<lparr>r_node_id = a_node_id hello, r_hostname = a_hostname hello,
                r_snapshot = hello_snapshot hello seen_at, r_last_seq = 0, r_connected = True,
                r_last_seen_at = seen_at, r_agent_version = a_agent_version hello,
                r_connection_id = conn, r_hardware = a_hardware hello,
                r_performance_profiles = profiles\<rparr>
           | Some r \<Rightarrow>
               let version = py_or (a_agent_version hello) (r_agent_version r);
                   hardware = (case a_hardware hello of None \<Rightarrow> r_hardware r | Some h \<Rightarrow> Some h)
               in r\<lparr>r_hostname := a_hostname hello, r_connected := True, r_last_seen_at := seen_at,
                    r_last_seq := 0, r_connection_id := conn, r_agent_version := version,
                    r_hardware := hardware, r_performance_profiles := profiles,
                    r_snapshot := (r_snapshot r)\<lparr>s_hostname := a_hostname hello,
                      s_agent_version := version, s_hardware := hardware,
                      s_performance_profiles := profiles\<rparr>\<rparr>) st))"

definition ingest_sample ::
    "(string, pyval) dict \<Rightarrow> rat \<Rightarrow> nat option \<Rightarrow> cluster_state \<Rightarrow> (bool \<times> cluster_state) result" where
  "ingest_sample message now conn st =
     (let node_id = str_field message ''node_id'' []; raw_seq = dget_or message ''seq'' (PInt 0)
      in if node_id = [] then Inl (ValueError ''agent sample is missing node_id'')
         else if \<not> accepts COUNT raw_seq then Inl (ValueError ''invalid sample sequence'')
         else rbind (py_int raw_seq) (\<lambda>seq.
           let runtime = map_of (k_latest st) node_id
           in if (case runtime of None \<Rightarrow> False | Some r \<Rightarrow> \<not> connection_matches r conn \<or> seq \<le> r_last_seq r)
                then Inr (False, st)
              else rbind (node_snapshot_from_agent_sample message now
                       (map_option r_hostname runtime)
                       (case runtime of None \<Rightarrow> PNone | Some r \<Rightarrow> r_agent_version r)
                       (case runtime of None \<Rightarrow> None | Some r \<Rightarrow> r_hardware r)
                       (map_option r_performance_profiles runtime)
                       (map_option r_snapshot runtime)) (\<lambda>snap0.
                case history_update (k_history_size st) snap0 (k_history st) of (snap, h) \<Rightarrow>
                  Inr (True, bump (set_runtime node_id
                    \<lparr>r_node_id = node_id, r_hostname = s_hostname snap, r_snapshot = snap,
                     r_last_seq = seq, r_connected = True, r_last_seen_at = now,
                     r_agent_version = s_agent_version snap, r_connection_id = conn,
                     r_hardware = s_hardware snap,
                     r_performance_profiles = s_performance_profiles snap\<rparr> (st\<lparr>k_history := h\<rparr>))))))"

definition heartbeat_hello :: "string \<Rightarrow> agent_hello" where
  "heartbeat_hello node_id =
     \<lparr>a_node_id = node_id, a_hostname = node_id, a_agent_version = PNone,
      a_capabilities = None, a_hardware = None\<rparr>"

definition ingest_heartbeat ::
    "string \<Rightarrow> int option \<Rightarrow> rat \<Rightarrow> nat option \<Rightarrow> cluster_state \<Rightarrow> cluster_state" where
  "ingest_heartbeat node_id seq now conn st =
     (let st1 = (if has_key (k_latest st) node_id then st
                 else register_hello (heartbeat_hello node_id) now conn st)
      in case map_of (k_latest st1) node_id of
           None \<Rightarrow> st1
         | Some r \<Rightarrow>
             if \<not> connection_matches r conn then st1
             else bump (set_runtime node_id
               (r\<lparr>r_connected := True, r_last_seen_at := now,
                  r_last_seq := (case seq of None \<Rightarrow> r_last_seq r | Some q \<Rightarrow> max (r_last_seq r) q)\<rparr>) st1))"

definition REJECTED_SAMPLE :: pyval where
  "REJECTED_SAMPLE = PStr ''Invalid sample metadata; showing last valid readings''"

definition reject_sample :: "string \<Rightarrow> nat option \<Rightarrow> cluster_state \<Rightarrow> cluster_state" where
  "reject_sample node_id conn st =
     (case map_of (k_latest st) node_id of
        None \<Rightarrow> st
      | Some r \<Rightarrow>
          if \<not> connection_matches r conn then st
          else if s_error (r_snapshot r) = REJECTED_SAMPLE then st
          else bump (set_runtime node_id
                 (r\<lparr>r_snapshot := (r_snapshot r)\<lparr>s_error := REJECTED_SAMPLE\<rparr>\<rparr>) st))"

definition disconnect :: "string \<Rightarrow> rat option \<Rightarrow> nat option \<Rightarrow> cluster_state \<Rightarrow> cluster_state" where
  "disconnect node_id now conn st =
     (case map_of (k_latest st) node_id of
        None \<Rightarrow> st
      | Some r \<Rightarrow>
          if \<not> connection_matches r conn then st
          else bump (set_runtime node_id
                 (r\<lparr>r_connected := False,
                    r_last_seen_at := (case now of None \<Rightarrow> r_last_seen_at r | Some t \<Rightarrow> t)\<rparr>) st))"

definition runtime_status :: "rat option \<Rightarrow> rat option \<Rightarrow> node_runtime \<Rightarrow> rat \<Rightarrow> node_status" where
  "runtime_status stale offline r now =
     (if \<not> r_connected r then Offline
      else
        let elapsed = now - r_last_seen_at r;
            refresh = max (s_refresh_interval (r_snapshot r)) (1 / 10);
            stale_after = (case stale of Some x \<Rightarrow> x | None \<Rightarrow> max (3 * refresh) 5);
            offline_after = (case offline of Some x \<Rightarrow> x | None \<Rightarrow> max (10 * refresh) 30)
        in if elapsed > offline_after then Offline
           else if elapsed > stale_after then Stale
           else if truthy (s_error (r_snapshot r)) then ErrorStatus
           else Online)"

definition runtime_snapshot :: "cluster_state \<Rightarrow> rat \<Rightarrow> node_runtime \<Rightarrow> node_runtime" where
  "runtime_snapshot st now r =
     r\<lparr>r_snapshot := (r_snapshot r)\<lparr>
         s_status := runtime_status (k_stale_after st) (k_offline_after st) r now,
         s_received_at := (if r_last_seen_at r \<noteq> 0 then Some (r_last_seen_at r)
                           else s_received_at (r_snapshot r))\<rparr>\<rparr>"

definition take_snapshot :: "rat \<Rightarrow> cluster_state \<Rightarrow> cluster_snapshot \<times> cluster_state" where
  "take_snapshot now st =
     (let latest = map (\<lambda>kr. (fst kr, runtime_snapshot st now (snd kr))) (k_latest st)
      in (cluster_snapshot_from_nodes (map (\<lambda>kr. r_snapshot (snd kr)) latest) (k_seq st) now,
          st\<lparr>k_latest := latest\<rparr>))"

subsection \<open>Events\<close>

text \<open>
  What the manager does to the state, as the messages and the calls arrive: a rejected message
  leaves the state as it was.
\<close>

datatype cluster_event =
    HelloEv agent_hello rat "nat option"
  | SampleEv "(string, pyval) dict" rat "nat option"
  | HeartbeatEv string "int option" rat "nat option"
  | RejectEv string "nat option"
  | DisconnectEv string "rat option" "nat option"
  | SnapshotEv rat

fun handle_event :: "cluster_event \<Rightarrow> cluster_state \<Rightarrow> cluster_state" where
  "handle_event (HelloEv hello now conn) st = register_hello hello now conn st"
| "handle_event (SampleEv m now conn) st =
     (case ingest_sample m now conn st of Inl e \<Rightarrow> st | Inr (b, st') \<Rightarrow> st')"
| "handle_event (HeartbeatEv n seq now conn) st = ingest_heartbeat n seq now conn st"
| "handle_event (RejectEv n conn) st = reject_sample n conn st"
| "handle_event (DisconnectEv n now conn) st = disconnect n now conn st"
| "handle_event (SnapshotEv now) st = snd (take_snapshot now st)"

inductive cluster_step :: "cluster_state \<Rightarrow> cluster_event \<Rightarrow> cluster_state \<Rightarrow> bool" where
  "cluster_step st ev (handle_event ev st)"

inductive cluster_reachable :: "cluster_state \<Rightarrow> bool" where
  reach_init: "cluster_reachable (new_cluster local_node stale offline n)"
| reach_step: "cluster_reachable st \<Longrightarrow> cluster_step st ev st' \<Longrightarrow> cluster_reachable st'"

inductive_simps cluster_step_iff: "cluster_step st ev st'"

subsection \<open>The history stays bounded and aligned\<close>

definition series_ok :: "nat \<Rightarrow> (string, rat list) dict \<Rightarrow> bool" where
  "series_ok n s =
     (map fst s = HISTORY_METRICS \<and>
      list_all (\<lambda>kv. length (snd kv) = length (snd (hd s)) \<and> length (snd kv) \<le> n) s)"

definition history_ok :: "nat \<Rightarrow> history \<Rightarrow> bool" where
  "history_ok n h = (dict_ok h \<and> list_all (\<lambda>kv. series_ok n (snd kv)) h)"

lemma series_ok_cases:
  assumes "series_ok n s"
  obtains a b c d where "s = [(''gpu'', a), (''memory'', b), (''power'', c), (''temperature'', d)]"
    "length b = length a" "length c = length a" "length d = length a" "length a \<le> n"
proof -
  have "length s = 4" using arg_cong[OF conjunct1[OF assms[unfolded series_ok_def]], of length]
    by (simp add: HISTORY_METRICS_def)
  then obtain x y z w where "s = [x, y, z, w]"
    by (auto simp: length_Suc_conv eval_nat_numeral)
  with assms show thesis
    by (cases x; cases y; cases z; cases w) (auto simp: series_ok_def HISTORY_METRICS_def intro!: that)
qed

lemma series_ok_append:
  assumes "series_ok n s"
  shows "series_ok n (append_metric n ''temperature'' t (append_metric n ''power'' p
    (append_metric n ''memory'' m (append_metric n ''gpu'' u s))))"
  using assms by (elim series_ok_cases) (simp add: append_metric_def series_ok_def HISTORY_METRICS_def)

lemma series_ok_empty: "series_ok n (map (\<lambda>m. (m, [])) HISTORY_METRICS)"
  by (simp add: series_ok_def HISTORY_METRICS_def)

lemma history_ok_update [inv_intros]: "history_ok n h \<Longrightarrow> series_ok n s \<Longrightarrow> history_ok n (AList.update k s h)"
  by (simp add: history_ok_def list_all_update)

lemma history_ok_delete [inv_intros]: "history_ok n h \<Longrightarrow> history_ok n (AList.delete k h)"
  by (simp add: history_ok_def list_all_delete)

lemma history_ok_Nil [simp]: "history_ok n []"
  by (simp add: history_ok_def)

lemma history_ok_lookup: "history_ok n h \<Longrightarrow> map_of h k = Some s \<Longrightarrow> series_ok n s"
  by (auto simp: history_ok_def list_all_iff dest!: map_of_SomeD)

lemma history_ok_push: "history_ok n h \<Longrightarrow> history_ok n (push_gpu n node g h)"
  by (auto simp: push_gpu_def Let_def series_for_def
      intro!: history_ok_update history_ok_delete series_ok_append series_ok_empty history_ok_lookup
      split: option.splits)

lemma history_ok_fold: "history_ok n h \<Longrightarrow> history_ok n (fold (push_gpu n node) gs h)"
  by (induction gs arbitrary: h) (auto intro: history_ok_push)

lemma history_ok_payload:
  assumes "history_ok n h"
  shows "history_ok n (history_payload h node gs)"
proof -
  let ?f = "\<lambda>g p. case map_of h (history_key node g) of
      Some s \<Rightarrow> AList.update (history_key node g) s p | None \<Rightarrow> p"
  have "history_ok n p \<Longrightarrow> history_ok n (fold ?f gs p)" for p
  proof (induction gs arbitrary: p)
    case (Cons g gs)
    have "history_ok n (?f g p)"
      using Cons.prems history_ok_lookup[OF assms] by (auto intro: history_ok_update split: option.splits)
    with Cons.IH show ?case by simp
  qed simp
  then show ?thesis by (simp add: history_payload_def)
qed

lemma history_update_ok:
  assumes "history_update n s h = (s', h')" "history_ok n h"
  shows "history_ok n h' \<and> history_ok n (s_history s')"
  using assms history_ok_fold history_ok_payload by (auto simp: history_update_def Let_def)

lemma history_update_frame:
  assumes "history_update n s h = (s', h')"
  shows "s_node_id s' = s_node_id s" "s_hostname s' = s_hostname s" "s_agent_version s' = s_agent_version s"
    "s_hardware s' = s_hardware s" "s_totals s' = s_totals s" "s_refresh_interval s' = s_refresh_interval s"
    "list_all gpu_in_range (s_gpus s) \<Longrightarrow> list_all gpu_in_range (s_gpus s')"
  using assms by (auto simp: history_update_def Let_def list_all_iff gpu_in_range_def)

subsection \<open>The invariant of the manager\<close>

definition runtime_ok :: "nat \<Rightarrow> string \<times> node_runtime \<Rightarrow> bool" where
  "runtime_ok n nr =
     (r_node_id (snd nr) = fst nr \<and> 0 \<le> r_last_seq (snd nr) \<and>
      0 < s_refresh_interval (r_snapshot (snd nr)) \<and>
      list_all gpu_in_range (s_gpus (r_snapshot (snd nr))) \<and>
      history_ok n (s_history (r_snapshot (snd nr))))"

definition cluster_inv :: "cluster_state \<Rightarrow> bool" where
  "cluster_inv st =
     (dict_ok (k_latest st) \<and> list_all (runtime_ok (k_history_size st)) (k_latest st) \<and>
      history_ok (k_history_size st) (k_history st))"

lemma cluster_inv_bump [simp]: "cluster_inv (bump st) = cluster_inv st"
  by (simp add: cluster_inv_def bump_def)

lemma cluster_inv_set_runtime:
  "cluster_inv st \<Longrightarrow> runtime_ok (k_history_size st) (n, r) \<Longrightarrow> cluster_inv (set_runtime n r st)"
  by (simp add: cluster_inv_def set_runtime_def list_all_update_pair)

lemma cluster_inv_lookup:
  "cluster_inv st \<Longrightarrow> map_of (k_latest st) n = Some r \<Longrightarrow> runtime_ok (k_history_size st) (n, r)"
  by (auto simp: cluster_inv_def list_all_iff dest!: map_of_SomeD)

lemma inv_register_hello [inv_intros]: "cluster_inv st \<Longrightarrow> cluster_inv (register_hello hello now conn st)"
  unfolding register_hello_def Let_def cluster_inv_bump
  by (rule cluster_inv_set_runtime)
     (auto simp: runtime_ok_def hello_snapshot_def dest: cluster_inv_lookup split: option.splits)

lemma inv_heartbeat [inv_intros]:
  assumes "cluster_inv st"
  shows "cluster_inv (ingest_heartbeat n q now conn st)"
proof -
  define st1 where "st1 = (if has_key (k_latest st) n then st else register_hello (heartbeat_hello n) now conn st)"
  have i: "cluster_inv st1" using assms inv_register_hello by (simp add: st1_def)
  show ?thesis
    unfolding ingest_heartbeat_def Let_def st1_def[symmetric]
    using i cluster_inv_lookup[OF i]
    by (auto intro!: cluster_inv_set_runtime simp: runtime_ok_def le_max_iff_disj split: option.splits)
qed

lemma inv_reject [inv_intros]: "cluster_inv st \<Longrightarrow> cluster_inv (reject_sample n conn st)"
  by (auto simp: reject_sample_def intro!: cluster_inv_set_runtime split: option.splits)
     (auto simp: runtime_ok_def dest: cluster_inv_lookup)

lemma inv_disconnect [inv_intros]: "cluster_inv st \<Longrightarrow> cluster_inv (disconnect n t conn st)"
  by (auto simp: disconnect_def intro!: cluster_inv_set_runtime split: option.splits)
     (auto simp: runtime_ok_def dest: cluster_inv_lookup)

lemma inv_take_snapshot [inv_intros]: "cluster_inv st \<Longrightarrow> cluster_inv (snd (take_snapshot now st))"
  by (auto simp: take_snapshot_def Let_def cluster_inv_def dict_ok_def o_def list_all_iff runtime_ok_def runtime_snapshot_def)

text \<open>A sample that the manager accepts, taken apart.\<close>

text \<open>The snapshot a message stands for, given what is known of its node.\<close>

definition decoded_sample :: "(string, pyval) dict \<Rightarrow> rat \<Rightarrow> node_runtime option \<Rightarrow> node_snapshot result" where
  "decoded_sample m now runtime =
     node_snapshot_from_agent_sample m now (map_option r_hostname runtime)
       (case runtime of None \<Rightarrow> PNone | Some r \<Rightarrow> r_agent_version r)
       (case runtime of None \<Rightarrow> None | Some r \<Rightarrow> r_hardware r)
       (map_option r_performance_profiles runtime) (map_option r_snapshot runtime)"

lemma ingest_sample_accepted:
  assumes "ingest_sample m now conn st = Inr (True, st')"
  obtains node q snap0 snap h where
    "node = str_field m ''node_id'' []" "node \<noteq> []" "accepts COUNT (dget_or m ''seq'' (PInt 0))"
    "py_int (dget_or m ''seq'' (PInt 0)) = Inr q"
    "\<And>r. map_of (k_latest st) node = Some r \<Longrightarrow> connection_matches r conn \<and> r_last_seq r < q"
    "sample_ok snap0" "s_history snap0 = []" "history_update (k_history_size st) snap0 (k_history st) = (snap, h)"
    "decoded_sample m now (map_of (k_latest st) node) = Inr snap0"
    "st' = bump (set_runtime node
        \<lparr>r_node_id = node, r_hostname = s_hostname snap, r_snapshot = snap, r_last_seq = q,
         r_connected = True, r_last_seen_at = now, r_agent_version = s_agent_version snap,
         r_connection_id = conn, r_hardware = s_hardware snap,
         r_performance_profiles = s_performance_profiles snap\<rparr> (st\<lparr>k_history := h\<rparr>))"
proof -
  let ?node = "str_field m ''node_id'' []" and ?raw = "dget_or m ''seq'' (PInt 0)"
  have n: "?node \<noteq> []" "accepts COUNT ?raw"
    using assms by (auto simp: ingest_sample_def Let_def split: if_splits)
  then obtain q where q: "py_int ?raw = Inr q" using assms by (auto simp: ingest_sample_def Let_def rbind_Inr_iff)
  let ?rt = "map_of (k_latest st) ?node"
  have ne: "\<not> (case ?rt of None \<Rightarrow> False | Some r \<Rightarrow> \<not> connection_matches r conn \<or> q \<le> r_last_seq r)"
    using assms n q by (auto simp: ingest_sample_def Let_def simp del: accepts.simps split: if_splits)
  then obtain snap0 where s0: "node_snapshot_from_agent_sample m now (map_option r_hostname ?rt)
      (case ?rt of None \<Rightarrow> PNone | Some r \<Rightarrow> r_agent_version r)
      (case ?rt of None \<Rightarrow> None | Some r \<Rightarrow> r_hardware r)
      (map_option r_performance_profiles ?rt) (map_option r_snapshot ?rt) = Inr snap0"
    using assms n q by (auto simp: ingest_sample_def Let_def rbind_Inr_iff simp del: accepts.simps)
  obtain snap h where u: "history_update (k_history_size st) snap0 (k_history st) = (snap, h)" by fastforce
  show thesis
  proof (rule that[OF refl n q _ _ _ u])
    show "decoded_sample m now ?rt = Inr snap0" using s0 by (simp add: decoded_sample_def)
    show "connection_matches r conn \<and> r_last_seq r < q" if "?rt = Some r" for r using ne that by auto
    show "sample_ok snap0" "s_history snap0 = []" using node_snapshot_decoded[OF s0] by simp_all
  qed (use assms n q ne s0 u in \<open>auto simp: ingest_sample_def Let_def simp del: accepts.simps\<close>)
qed

lemma ingest_sample_refused: "ingest_sample m now conn st = Inr (False, st') \<Longrightarrow> st' = st"
  by (auto simp: ingest_sample_def Let_def rbind_Inr_iff split: if_splits prod.splits)

lemma accepts_COUNT_py_int: "accepts COUNT v \<Longrightarrow> py_int v = Inr q \<Longrightarrow> 0 \<le> q"
  using accepts_py_int[of COUNT v] accepts_bounds[of COUNT v]
  by (cases "v = PNone") (auto simp: rule_defs trunc_nonneg)

lemma inv_ingest_sample:
  assumes "cluster_inv st" "ingest_sample m now conn st = Inr (b, st')"
  shows "cluster_inv st'"
proof (cases b)
  case False
  then show ?thesis using assms ingest_sample_refused by metis
next
  case True
  with assms(2) have "ingest_sample m now conn st = Inr (True, st')" by simp
  then show ?thesis
  proof (rule ingest_sample_accepted)
    fix node q snap0 snap h
    assume s: "accepts COUNT (dget_or m ''seq'' (PInt 0))" "py_int (dget_or m ''seq'' (PInt 0)) = Inr q"
      "sample_ok snap0" "history_update (k_history_size st) snap0 (k_history st) = (snap, h)"
      and st': "st' = bump (set_runtime node
        \<lparr>r_node_id = node, r_hostname = s_hostname snap, r_snapshot = snap, r_last_seq = q,
         r_connected = True, r_last_seen_at = now, r_agent_version = s_agent_version snap,
         r_connection_id = conn, r_hardware = s_hardware snap,
         r_performance_profiles = s_performance_profiles snap\<rparr> (st\<lparr>k_history := h\<rparr>))"
    have h: "history_ok (k_history_size st) h \<and> history_ok (k_history_size st) (s_history snap)"
      using history_update_ok[OF s(4)] assms(1) by (simp add: cluster_inv_def)
    then have "cluster_inv (st\<lparr>k_history := h\<rparr>)" using assms(1) by (simp add: cluster_inv_def)
    then show ?thesis
      unfolding st' cluster_inv_bump
      using h s(3) history_update_frame[OF s(4)] accepts_COUNT_py_int[OF s(1,2)]
      by (auto intro!: cluster_inv_set_runtime simp: runtime_ok_def sample_ok_def)
  qed
qed

lemma inv_handle_event: "cluster_inv st \<Longrightarrow> cluster_inv (handle_event ev st)"
  by (cases ev) (auto intro: inv_intros inv_ingest_sample split: sum.splits)

lemma inv_new_cluster: "cluster_inv (new_cluster local_node stale offline n)"
  by (simp add: cluster_inv_def new_cluster_def)

lemma reachable_inv: "cluster_reachable st \<Longrightarrow> cluster_inv st"
  by (induction rule: cluster_reachable.induct)
     (simp_all add: inv_new_cluster cluster_step_iff inv_handle_event)

text \<open>
  In every state the manager can reach, each node is stored once under its own name, and the
  history of every accelerator holds the four metrics with equally many points, at most the
  configured number; the same holds for the histories inside the stored snapshots.
\<close>

theorem cluster_reachable_inv:
  assumes "cluster_reachable st"
  shows "cluster_inv st"
  by (rule reachable_inv[OF assms])

lemma dget_sample_message:
  "str_field (sample_message gpus) ''node_id'' [] = '' n1 ''" "dget_or (sample_message gpus) ''seq'' (PInt 0) = PInt 4"
  by (simp_all add: sample_message_def str_field_def dget_def dget_or_def py_or_def)

theorem cluster_reachable_inv_witness:
  "cluster_inv (handle_event (SampleEv (sample_message [PInt 3]) 101 (Some 1)) (new_cluster ''m'' None None 120))"
  by (rule cluster_reachable_inv) (rule reach_step[OF reach_init cluster_step.intros])

subsection \<open>Replays and stale connections\<close>

lemma accepted_stored:
  assumes "ingest_sample m now conn st = Inr (True, st')"
  shows "\<exists>r. map_of (k_latest st') (str_field m ''node_id'' []) = Some r \<and>
     py_int (dget_or m ''seq'' (PInt 0)) = Inr (r_last_seq r) \<and> r_connected r \<and> r_last_seen_at r = now \<and>
     r_connection_id r = conn \<and>
     (\<exists>snap0. decoded_sample m now (map_of (k_latest st) (str_field m ''node_id'' [])) = Inr snap0 \<and>
        history_update (k_history_size st) snap0 (k_history st) = (r_snapshot r, k_history st')) \<and>
     (\<forall>r0. map_of (k_latest st) (str_field m ''node_id'' []) = Some r0 \<longrightarrow>
        connection_matches r0 conn \<and> r_last_seq r0 < r_last_seq r)"
  using assms by (rule ingest_sample_accepted) (simp add: bump_def set_runtime_def)

text \<open>
  The snapshot that is stored is the decoded one, with its accelerators named and the history filled in; the
  history changes for these accelerators only.
\<close>

lemma push_gpu_other: "k \<noteq> history_key node g \<Longrightarrow> map_of (push_gpu n node g h) k = map_of h k"
  by (simp add: push_gpu_def Let_def map_of_update map_of_delete)

lemma push_gpus_other: "k \<notin> history_key node ` set gs \<Longrightarrow> map_of (fold (push_gpu n node) gs h) k = map_of h k"
  by (induction gs arbitrary: h) (auto simp: push_gpu_other)

lemma history_key_named [simp]: "history_key node (g\<lparr>g_gpu_id := Some (history_key node g)\<rparr>) = history_key node g"
  by (auto simp: history_key_def str_or_def gpu_global_id_def split: option.splits)

lemma history_update_stores:
  assumes "history_update n s h = (s', h')"
  shows "s'\<lparr>s_gpus := [], s_history := []\<rparr> = s\<lparr>s_gpus := [], s_history := []\<rparr> \<and>
    map (\<lambda>g. g\<lparr>g_gpu_id := None\<rparr>) (s_gpus s') = map (\<lambda>g. g\<lparr>g_gpu_id := None\<rparr>) (s_gpus s) \<and>
    (\<forall>k. k \<notin> history_key (s_node_id s) ` set (s_gpus s) \<longrightarrow> map_of h' k = map_of h k)"
  using assms by (auto simp: history_update_def Let_def push_gpus_other image_image)

lemma accepted_frame:
  assumes "ingest_sample m now conn st = Inr (True, st')"
  shows "k_seq st' = Suc (k_seq st) \<and>
    (\<forall>node. node \<noteq> str_field m ''node_id'' [] \<longrightarrow> map_of (k_latest st') node = map_of (k_latest st) node)"
  using assms by (rule ingest_sample_accepted) (simp add: bump_def set_runtime_def)

text \<open>
  C9: an accepted sample is new for its node (its sequence number exceeds the last one) and comes from
  the registered connection.  The node's state then is that of this sample: its number, its connection and, up to the
  names of the accelerators and the history, the snapshot its message decodes to.  It is announced by exactly one step of
  the sequence number, and neither the state of another node nor the history of an accelerator it does not list
  changes.  A sample that is not accepted changes nothing.
\<close>

theorem ingest_sample_monotone:
  assumes "ingest_sample m now conn st = Inr (b, st')" "node = str_field m ''node_id'' []"
  shows "if b then
      (\<exists>r snap0. map_of (k_latest st') node = Some r \<and> py_int (dget_or m ''seq'' (PInt 0)) = Inr (r_last_seq r) \<and>
         r_connected r \<and> r_last_seen_at r = now \<and> r_connection_id r = conn \<and>
         (\<forall>r0. map_of (k_latest st) node = Some r0 \<longrightarrow> connection_matches r0 conn \<and> r_last_seq r0 < r_last_seq r) \<and>
         decoded_sample m now (map_of (k_latest st) node) = Inr snap0 \<and>
         (r_snapshot r)\<lparr>s_gpus := [], s_history := []\<rparr> = snap0\<lparr>s_gpus := [], s_history := []\<rparr> \<and>
         map (\<lambda>g. g\<lparr>g_gpu_id := None\<rparr>) (s_gpus (r_snapshot r)) = map (\<lambda>g. g\<lparr>g_gpu_id := None\<rparr>) (s_gpus snap0) \<and>
         (\<forall>k. k \<notin> history_key (s_node_id snap0) ` set (s_gpus snap0) \<longrightarrow> map_of (k_history st') k = map_of (k_history st) k)) \<and>
      k_seq st' = Suc (k_seq st) \<and>
      (\<forall>n. n \<noteq> node \<longrightarrow> map_of (k_latest st') n = map_of (k_latest st) n)
    else st' = st"
proof (cases b)
  case True
  then have a: "ingest_sample m now conn st = Inr (True, st')" using assms(1) by simp
  obtain r snap0 where r: "map_of (k_latest st') node = Some r" "py_int (dget_or m ''seq'' (PInt 0)) = Inr (r_last_seq r)"
    "r_connected r" "r_last_seen_at r = now" "r_connection_id r = conn"
    "decoded_sample m now (map_of (k_latest st) node) = Inr snap0"
    "history_update (k_history_size st) snap0 (k_history st) = (r_snapshot r, k_history st')"
    "\<forall>r0. map_of (k_latest st) node = Some r0 \<longrightarrow> connection_matches r0 conn \<and> r_last_seq r0 < r_last_seq r"
    using accepted_stored[OF a] unfolding assms(2) by blast
  show ?thesis
    unfolding if_P[OF True] using accepted_frame[OF a] unfolding assms(2)[symmetric]
    by (intro conjI exI[of _ r] exI[of _ snap0]) (use r history_update_stores[OF r(7)] in simp_all)
next
  case False
  with assms show ?thesis using ingest_sample_refused[of m now conn st st'] by simp
qed

definition sample_runtime :: "int \<Rightarrow> nat option \<Rightarrow> node_runtime" where
  "sample_runtime q conn =
     \<lparr>r_node_id = '' n1 '', r_hostname = ''h'', r_snapshot = sample_node ''n1'' Online [], r_last_seq = q,
      r_connected = True, r_last_seen_at = 90, r_agent_version = PNone, r_connection_id = conn,
      r_hardware = None, r_performance_profiles = []\<rparr>"

definition sample_cluster :: "int \<Rightarrow> nat option \<Rightarrow> cluster_state" where
  "sample_cluster q conn =
     (new_cluster ''m'' None None 120)\<lparr>k_latest := [('' n1 '', sample_runtime q conn)]\<rparr>"

lemma empty_sample_decodes:
  "\<exists>snap0. decoded_sample (sample_message []) 101 (Some (sample_runtime 3 (Some 1))) = Inr snap0 \<and> s_sampled_at snap0 = 100"
  by (simp add: decoded_sample_def node_snapshot_from_agent_sample_def sample_message_def sample_from_gpus_def Let_def dget_def
      dget_or_def str_field_def py_or_def strip_sample_node decode_gpus_def enumerate_eq_zip rule_defs)

theorem ingest_sample_monotone_witness:
  "(\<exists>st'. ingest_sample (sample_message []) 101 (Some 1) (sample_cluster 9 None) = Inr (False, st') \<and>
     st' = sample_cluster 9 None) \<and>
   (\<exists>st' r. ingest_sample (sample_message []) 101 (Some 1) (sample_cluster 3 (Some 1)) = Inr (True, st') \<and>
     map_of (k_latest st') '' n1 '' = Some r \<and> r_last_seq r = 4 \<and> s_sampled_at (r_snapshot r) = 100)"
proof
  have "\<exists>st'. ingest_sample (sample_message []) 101 (Some 1) (sample_cluster 9 None) = Inr (False, st')"
    by (simp add: ingest_sample_def Let_def dget_sample_message sample_cluster_def sample_runtime_def
        connection_matches_def rule_defs)
  then obtain st' where s: "ingest_sample (sample_message []) 101 (Some 1) (sample_cluster 9 None) = Inr (False, st')"
    by blast
  from ingest_sample_monotone[OF s refl] s
  show "\<exists>st'. ingest_sample (sample_message []) 101 (Some 1) (sample_cluster 9 None) = Inr (False, st') \<and> st' = sample_cluster 9 None"
    by simp
next
  obtain snap0 where d: "decoded_sample (sample_message []) 101 (Some (sample_runtime 3 (Some 1))) = Inr snap0" "s_sampled_at snap0 = 100"
    using empty_sample_decodes by blast
  have l: "map_of (k_latest (sample_cluster 3 (Some 1))) '' n1 '' = Some (sample_runtime 3 (Some 1))" by (simp add: sample_cluster_def)
  have "\<exists>st'. ingest_sample (sample_message []) 101 (Some 1) (sample_cluster 3 (Some 1)) = Inr (True, st')"
    unfolding ingest_sample_def Let_def dget_sample_message l option.case option.map
    using d(1)[unfolded decoded_sample_def option.case option.map]
    by (simp add: rule_defs connection_matches_def sample_runtime_def split: prod.splits)
  then obtain st' where a: "ingest_sample (sample_message []) 101 (Some 1) (sample_cluster 3 (Some 1)) = Inr (True, st')" by blast
  obtain r snap1 where r: "map_of (k_latest st') '' n1 '' = Some r" "py_int (PInt 4) = Inr (r_last_seq r)"
    "decoded_sample (sample_message []) 101 (Some (sample_runtime 3 (Some 1))) = Inr snap1"
    "(r_snapshot r)\<lparr>s_gpus := [], s_history := []\<rparr> = snap1\<lparr>s_gpus := [], s_history := []\<rparr>"
    using ingest_sample_monotone[OF a dget_sample_message(1)[symmetric]] unfolding dget_sample_message l if_True by blast
  have "s_sampled_at (r_snapshot r) = s_sampled_at snap1" using arg_cong[OF r(4), of s_sampled_at] by simp
  then show "\<exists>st' r. ingest_sample (sample_message []) 101 (Some 1) (sample_cluster 3 (Some 1)) = Inr (True, st') \<and>
     map_of (k_latest st') '' n1 '' = Some r \<and> r_last_seq r = 4 \<and> s_sampled_at (r_snapshot r) = 100"
    using a r d by (intro exI[of _ st'] exI[of _ r]) simp
qed

text \<open>
  Once a node's connection has been replaced, whatever still arrives on the old connection
  (samples, heartbeats, rejections, its disconnection) leaves the state of the manager unchanged.
\<close>

theorem stale_connection_ignored:
  assumes "map_of (k_latest st) node = Some r" "r_connection_id r = Some current" "old \<noteq> current"
    "ev \<in> {HeartbeatEv node q now (Some old), RejectEv node (Some old), DisconnectEv node t (Some old)} \<or>
     (ev = SampleEv m now (Some old) \<and> str_field m ''node_id'' [] = node)"
  shows "handle_event ev st = st"
proof -
  have c: "\<not> connection_matches r (Some old)" using assms(2,3) by (simp add: connection_matches_def)
  have "ingest_sample m now (Some old) st \<noteq> Inr (True, st')" if "str_field m ''node_id'' [] = node" for st'
    using accepted_stored[of m now "Some old" st st'] assms(1) c that by auto
  then have "handle_event (SampleEv m now (Some old)) st = st" if "str_field m ''node_id'' [] = node"
    using that ingest_sample_refused by (auto split: sum.splits) (metis (full_types))
  then show ?thesis
    using assms(1,4) c by (auto simp: ingest_heartbeat_def reject_sample_def disconnect_def has_key_def)
qed

theorem stale_connection_ignored_witness:
  "handle_event (DisconnectEv '' n1 '' None (Some 1)) (sample_cluster 3 (Some 2)) = sample_cluster 3 (Some 2)"
  by (rule stale_connection_ignored[where r = "sample_runtime 3 (Some 2)" and current = 2 and old = 1
        and node = "'' n1 ''" and t = None])
     (simp_all add: sample_cluster_def sample_runtime_def)

subsection \<open>Every change is announced\<close>

text \<open>
  The sequence number never decreases, and apart from taking a snapshot (which refreshes the
  statuses) every change of the state increases it: a client that waits for a larger number misses
  no update.
\<close>

theorem every_change_announced:
  "k_seq st \<le> k_seq (handle_event ev st) \<and>
   (handle_event ev st = st \<or> k_seq st < k_seq (handle_event ev st) \<or> (\<exists>now. ev = SnapshotEv now))"
proof (cases ev)
  case (SampleEv m now conn)
  show ?thesis
  proof (cases "ingest_sample m now conn st")
    case (Inr bs)
    obtain b st' where bs: "bs = (b, st')" by (cases bs)
    show ?thesis
    proof (cases b)
      case True
      then show ?thesis using Inr accepted_frame[of m now conn st st'] by (simp add: SampleEv bs)
    next
      case False
      then show ?thesis using Inr ingest_sample_refused[of m now conn st st'] by (simp add: SampleEv bs)
    qed
  qed (simp add: SampleEv)
qed (auto simp: register_hello_def ingest_heartbeat_def reject_sample_def disconnect_def take_snapshot_def
       bump_def set_runtime_def Let_def split: option.splits)

theorem every_change_announced_witness:
  "k_seq (handle_event (RejectEv '' n1 '' None) (sample_cluster 3 None)) > 0"
proof -
  have "handle_event (RejectEv '' n1 '' None) (sample_cluster 3 None) \<noteq> sample_cluster 3 None"
    by (simp add: sample_cluster_def reject_sample_def sample_runtime_def sample_node_def connection_matches_def
        REJECTED_SAMPLE_def bump_def set_runtime_def new_cluster_def)
  then show ?thesis using every_change_announced[of "sample_cluster 3 None" "RejectEv '' n1 '' None"] by auto
qed

subsection \<open>No sample is accepted twice\<close>

fun accepted_seqs :: "string \<Rightarrow> cluster_event list \<Rightarrow> cluster_state \<Rightarrow> int list" where
  "accepted_seqs node [] st = []"
| "accepted_seqs node (ev # evs) st =
     (case ev of
        SampleEv m now conn \<Rightarrow>
          (case ingest_sample m now conn st of
             Inr (True, st') \<Rightarrow>
               (if str_field m ''node_id'' [] = node
                then map r_last_seq (case map_of (k_latest st') node of None \<Rightarrow> [] | Some r \<Rightarrow> [r]) else [])
           | _ \<Rightarrow> [])
      | _ \<Rightarrow> []) @ accepted_seqs node evs (handle_event ev st)"

definition last_seq_of :: "cluster_state \<Rightarrow> string \<Rightarrow> int option" where
  "last_seq_of st node = map_option r_last_seq (map_of (k_latest st) node)"

definition no_hello :: "string \<Rightarrow> cluster_event \<Rightarrow> bool" where
  "no_hello node ev = (case ev of HelloEv hello now conn \<Rightarrow> a_node_id hello \<noteq> node | _ \<Rightarrow> True)"

lemma last_seq_grows:
  assumes "last_seq_of st node = Some q" "no_hello node ev"
  shows "\<exists>q' \<ge> q. last_seq_of (handle_event ev st) node = Some q'"
proof (cases ev)
  case (SampleEv m now conn)
  show ?thesis
  proof (cases "ingest_sample m now conn st")
    case (Inr bs)
    obtain b st' where bs: "bs = (b, st')" by (cases bs)
    then show ?thesis
      using Inr assms accepted_stored[of m now conn st st'] accepted_frame[of m now conn st st']
        ingest_sample_refused[of m now conn st st']
      by (cases b; cases "str_field m ''node_id'' [] = node") (auto simp: SampleEv last_seq_of_def)
  qed (use assms in \<open>simp add: SampleEv\<close>)
next
  case (SnapshotEv now)
  have m: "map_of (map (\<lambda>kr. (fst kr, runtime_snapshot st now (snd kr))) d) k =
      map_option (runtime_snapshot st now) (map_of d k)" for d k
    by (induction d) auto
  have "r_last_seq (runtime_snapshot st now r) = r_last_seq r" for r by (simp add: runtime_snapshot_def)
  then show ?thesis
    using assms by (auto simp: SnapshotEv take_snapshot_def Let_def last_seq_of_def m)
qed (use assms in \<open>auto simp: no_hello_def last_seq_of_def register_hello_def ingest_heartbeat_def reject_sample_def
       heartbeat_hello_def disconnect_def bump_def set_runtime_def Let_def has_key_def map_of_update split: option.splits\<close>)

lemma accepted_seqs_above:
  assumes "list_all (no_hello node) evs"
  shows "sorted_wrt (<) (accepted_seqs node evs st) \<and>
    (\<forall>q. last_seq_of st node = Some q \<longrightarrow> (\<forall>s \<in> set (accepted_seqs node evs st). q < s))"
  using assms
proof (induction evs arbitrary: st)
  case (Cons ev evs)
  let ?st = "handle_event ev st"
  have IH: "sorted_wrt (<) (accepted_seqs node evs ?st)"
    "\<And>q s. last_seq_of ?st node = Some q \<Longrightarrow> s \<in> set (accepted_seqs node evs ?st) \<Longrightarrow> q < s"
    using Cons.IH[of ?st] Cons.prems by auto
  have grow: "\<And>q s. last_seq_of st node = Some q \<Longrightarrow> s \<in> set (accepted_seqs node evs ?st) \<Longrightarrow> q < s"
    using last_seq_grows[of st node _ ev] IH(2) Cons.prems by (fastforce intro: le_less_trans)
  show ?case
  proof (cases "\<exists>m now conn st'. ev = SampleEv m now conn \<and> ingest_sample m now conn st = Inr (True, st') \<and>
      str_field m ''node_id'' [] = node")
    case True
    then obtain m now conn st' where e: "ev = SampleEv m now conn" "ingest_sample m now conn st = Inr (True, st')"
      "str_field m ''node_id'' [] = node" by blast
    obtain r where r: "map_of (k_latest st') node = Some r"
      "\<And>r0. map_of (k_latest st) node = Some r0 \<Longrightarrow> r_last_seq r0 < r_last_seq r"
      using accepted_stored[OF e(2)] e(3) by auto
    have "accepted_seqs node (ev # evs) st = r_last_seq r # accepted_seqs node evs st'" "?st = st'"
      using e r(1) by simp_all
    moreover have "last_seq_of st' node = Some (r_last_seq r)" using r(1) by (simp add: last_seq_of_def)
    ultimately show ?thesis using IH r(2) by (fastforce simp: last_seq_of_def)
  next
    case False
    then have "accepted_seqs node (ev # evs) st = accepted_seqs node evs ?st"
      by (auto split: cluster_event.splits sum.splits prod.splits bool.splits)
    then show ?thesis using IH grow by auto
  qed
qed simp

text \<open>
  C10: between two greetings of a node, whatever happens in between, the samples accepted for it
  carry strictly increasing sequence numbers: none is accepted twice and none out of order.
\<close>

theorem accepted_seqs_strictly_increase:
  assumes "list_all (no_hello node) evs"
  shows "sorted_wrt (<) (accepted_seqs node evs st)"
  using accepted_seqs_above[OF assms] by blast

theorem accepted_seqs_strictly_increase_witness:
  "sorted_wrt (<) (accepted_seqs '' n1 '' [SampleEv (sample_message [PInt 3]) 101 (Some 1),
     HeartbeatEv '' n1 '' (Some 7) 102 (Some 1), SampleEv (sample_message []) 103 (Some 1)] (sample_cluster 3 None))"
  by (rule accepted_seqs_strictly_increase) (simp add: no_hello_def)

subsection \<open>Statuses\<close>

lemma severity_le: "a \<le> b \<longleftrightarrow> severity_of a \<le> severity_of b" for a b :: node_status
  by (rule less_eq_node_status_def)

text \<open>
  While nothing arrives from a node its status only gets worse as time passes (online or error,
  then stale, then offline), and from its offline limit on it is offline.
\<close>

theorem runtime_status_monotone:
  assumes "now \<le> later"
  shows "severity_of (runtime_status stale offline r now) \<le> severity_of (runtime_status stale offline r later) \<and>
    (later - r_last_seen_at r > (case offline of Some x \<Rightarrow> x
        | None \<Rightarrow> max (10 * max (s_refresh_interval (r_snapshot r)) (1 / 10)) 30) \<longrightarrow>
      runtime_status stale offline r later = Offline)"
  using assms by (auto simp: runtime_status_def Let_def)

theorem runtime_status_monotone_witness:
  "runtime_status None None (sample_runtime 3 None) 121 = Offline"
  using runtime_status_monotone[of 100 121 None None "sample_runtime 3 None"]
  by (simp add: sample_runtime_def sample_node_def)

end
