(* ===== verification/AgentRpc.thy ===== *)
theory AgentRpc
  imports Ingest
begin

text \<open>
  \<open>packages/backend/src/constella/agent_rpc.py\<close>: requests from the manager to an agent and the
  responses that come back.

  A future is waiting, holds a response, or holds an error.  A request is two steps, as in the
  coroutine: everything up to its \<^verbatim>\<open>await\<close>, and what follows when the future is done or the time is
  up.  The request identifier that \<^verbatim>\<open>uuid4\<close> makes is an argument.  The send queue of a connection is the
  list of the messages in it with its capacity; the writer of the connection empties it.
\<close>

datatype rpc_error = AgentUnavailable string | AgentCapability string | AgentRpcTimeout string

datatype future = Waiting | Response "(string, pyval) dict" | Failure rpc_error

record agent_connection =
  ac_connection_id :: nat
  ac_queue :: "(string, pyval) dict list"
  ac_capacity :: nat
  ac_capabilities :: "(string, pyval) dict"

type_synonym request_key = "string \<times> string \<times> string"

record broker =
  b_connections :: "(string, agent_connection) dict"
  b_pending :: "(request_key, future) dict"

definition new_broker :: broker where
  "new_broker = \<lparr>b_connections = [], b_pending = []\<rparr>"

definition fail_future :: "string \<Rightarrow> rpc_error \<Rightarrow> request_key \<Rightarrow> future \<Rightarrow> future" where
  "fail_future node e k f = (if fst k = node \<and> f = Waiting then Failure e else f)"

definition fail_pending :: "string \<Rightarrow> rpc_error \<Rightarrow> broker \<Rightarrow> broker" where
  "fail_pending node e b =
     b\<lparr>b_pending := map (\<lambda>kf. (fst kf, fail_future node e (fst kf) (snd kf))) (b_pending b)\<rparr>"

definition rpc_register ::
    "string \<Rightarrow> nat \<Rightarrow> (string, pyval) dict list \<Rightarrow> nat \<Rightarrow> (string, pyval) dict option \<Rightarrow> broker \<Rightarrow> broker" where
  "rpc_register node conn queue capacity caps b =
     (let b1 = (case map_of (b_connections b) node of
            Some p \<Rightarrow> if ac_connection_id p \<noteq> conn
              then fail_pending node (AgentUnavailable ''agent connection was replaced'') b else b
          | None \<Rightarrow> b)
      in b1\<lparr>b_connections := AList.update node
             \<lparr>ac_connection_id = conn, ac_queue = queue, ac_capacity = capacity,
              ac_capabilities = (case caps of None \<Rightarrow> [] | Some d \<Rightarrow> d)\<rparr> (b_connections b1)\<rparr>)"

definition rpc_unregister :: "string \<Rightarrow> nat \<Rightarrow> broker \<Rightarrow> broker" where
  "rpc_unregister node conn b =
     (case map_of (b_connections b) node of
        None \<Rightarrow> b
      | Some c \<Rightarrow>
          if ac_connection_id c \<noteq> conn then b
          else fail_pending node (AgentUnavailable ''agent disconnected'')
                 (b\<lparr>b_connections := AList.delete node (b_connections b)\<rparr>))"

definition has_capability :: "agent_connection \<Rightarrow> string \<Rightarrow> bool" where
  "has_capability c cap = (map_of (ac_capabilities c) cap = Some (PBool True))"

definition nodes_with_capability :: "string \<Rightarrow> broker \<Rightarrow> string list" where
  "nodes_with_capability cap b =
     sort (map fst (filter (\<lambda>nc. has_capability (snd nc) cap) (b_connections b)))"

definition node_capabilities :: "string \<Rightarrow> broker \<Rightarrow> (string, pyval) dict option" where
  "node_capabilities node b = map_option ac_capabilities (map_of (b_connections b) node)"

text \<open>\<^verbatim>\<open>_request\<close> up to the \<^verbatim>\<open>await\<close>: the key of the pending future, or the error raised.\<close>

definition request_start ::
    "string \<Rightarrow> string \<Rightarrow> string \<Rightarrow> string \<Rightarrow> (string, pyval) dict \<Rightarrow> string \<Rightarrow> broker
      \<Rightarrow> (rpc_error + request_key) \<times> broker" where
  "request_start node capability request_type response_type payload request_id b =
     (case map_of (b_connections b) node of
        None \<Rightarrow> (Inl (AgentUnavailable (''node '' @ repr_str node @ '' is not connected'')), b)
      | Some c \<Rightarrow>
          if \<not> has_capability c capability
            then (Inl (AgentCapability (''node '' @ repr_str node @ '' does not support '' @ capability)), b)
          else
            let key = (node, request_id, response_type);
                message = dict_update_all [(''type'', PStr request_type), (''request_id'', PStr request_id),
                  (''node_id'', PStr node)] payload;
                b1 = b\<lparr>b_pending := AList.update key Waiting (b_pending b)\<rparr>
            in if ac_capacity c \<noteq> 0 \<and> ac_capacity c \<le> length (ac_queue c)
                 then (Inl (AgentUnavailable (''node '' @ repr_str node @ '' request queue is full'')),
                       b1\<lparr>b_pending := AList.delete key (b_pending b1)\<rparr>)
               else (Inr key, b1\<lparr>b_connections := AList.update node
                       (c\<lparr>ac_queue := ac_queue c @ [message]\<rparr>) (b_connections b1)\<rparr>))"

text \<open>What follows the \<^verbatim>\<open>await\<close>: the future is done, or \<^verbatim>\<open>wait_for\<close> gave up; the key is removed.\<close>

definition request_finish ::
    "request_key \<Rightarrow> string \<Rightarrow> broker \<Rightarrow> (rpc_error + (string, pyval) dict) \<times> broker" where
  "request_finish key request_type b =
     ((case map_of (b_pending b) key of
         Some (Response m) \<Rightarrow> Inr m
       | Some (Failure e) \<Rightarrow> Inl e
       | _ \<Rightarrow> Inl (AgentRpcTimeout (''node '' @ repr_str (fst key) @ '' '' @ request_type @ '' timed out''))),
      b\<lparr>b_pending := AList.delete key (b_pending b)\<rparr>)"

definition account_lookup_start :: "string \<Rightarrow> string \<Rightarrow> string \<Rightarrow> broker \<Rightarrow> (rpc_error + request_key) \<times> broker" where
  "account_lookup_start node username request_id =
     request_start node ''account_lookup_v1'' ''account_lookup_request'' ''account_lookup_response''
       [(''username'', PStr username)] request_id"

definition restart_start :: "string \<Rightarrow> string \<Rightarrow> broker \<Rightarrow> (rpc_error + request_key) \<times> broker" where
  "restart_start node request_id =
     request_start node ''agent_restart_v1'' ''agent_restart_request'' ''agent_restart_response'' [] request_id"

definition response_key :: "(string, pyval) dict \<Rightarrow> request_key" where
  "response_key m = (str_field m ''node_id'' [], str_field m ''request_id'' [], str_field m ''type'' [])"

definition resolve_response :: "(string, pyval) dict \<Rightarrow> nat \<Rightarrow> broker \<Rightarrow> bool \<times> broker" where
  "resolve_response m conn b =
     (case response_key m of (node, request_id, ty) \<Rightarrow>
        if node = [] \<or> request_id = [] \<or>
           (case map_of (b_connections b) node of None \<Rightarrow> True | Some c \<Rightarrow> ac_connection_id c \<noteq> conn)
          then (False, b)
        else if map_of (b_pending b) (node, request_id, ty) = Some Waiting
          then (True, b\<lparr>b_pending := AList.update (node, request_id, ty) (Response m) (b_pending b)\<rparr>)
        else (False, b))"

definition resolve_account_lookup :: "(string, pyval) dict \<Rightarrow> nat \<Rightarrow> broker \<Rightarrow> bool \<times> broker" where
  "resolve_account_lookup m conn b =
     (if dget m ''type'' \<noteq> PStr ''account_lookup_response'' then (False, b) else resolve_response m conn b)"

definition resolve_restart :: "(string, pyval) dict \<Rightarrow> nat \<Rightarrow> broker \<Rightarrow> bool \<times> broker" where
  "resolve_restart m conn b =
     (if dget m ''type'' \<noteq> PStr ''agent_restart_response'' then (False, b) else resolve_response m conn b)"

subsection \<open>The broker as a step relation\<close>

datatype rpc_event =
    RegisterEv string nat "(string, pyval) dict list" nat "(string, pyval) dict option"
  | UnregisterEv string nat
  | StartEv string string string string "(string, pyval) dict" string
  | FinishEv request_key string
  | ResolveEv "(string, pyval) dict" nat
  | DrainEv string

text \<open>\<^const>\<open>DrainEv\<close> is the writer of a connection taking one message off its queue.\<close>

fun rpc_handle :: "rpc_event \<Rightarrow> broker \<Rightarrow> broker" where
  "rpc_handle (RegisterEv n c q cap caps) b = rpc_register n c q cap caps b"
| "rpc_handle (UnregisterEv n c) b = rpc_unregister n c b"
| "rpc_handle (StartEv n cap rq rs pl i) b = snd (request_start n cap rq rs pl i b)"
| "rpc_handle (FinishEv k rq) b = snd (request_finish k rq b)"
| "rpc_handle (ResolveEv m c) b = snd (resolve_response m c b)"
| "rpc_handle (DrainEv n) b =
     (case map_of (b_connections b) n of
        None \<Rightarrow> b
      | Some c \<Rightarrow> b\<lparr>b_connections := AList.update n (c\<lparr>ac_queue := tl (ac_queue c)\<rparr>) (b_connections b)\<rparr>)"

inductive rpc_reachable :: "broker \<Rightarrow> bool" where
  rpc_init: "rpc_reachable new_broker"
| rpc_step: "rpc_reachable b \<Longrightarrow> rpc_reachable (rpc_handle ev b)"

definition broker_ok :: "broker \<Rightarrow> bool" where
  "broker_ok b =
     (dict_ok (b_connections b) \<and> dict_ok (b_pending b) \<and>
      list_all (\<lambda>(k, f). f = Waiting \<longrightarrow> has_key (b_connections b) (fst k)) (b_pending b))"

lemma dict_ok_fail_pending: "dict_ok (b_pending (fail_pending node e b)) = dict_ok (b_pending b)"
  by (simp add: fail_pending_def dict_ok_def o_def case_prod_unfold)

lemma fail_pending_lookup:
  "map_of (b_pending (fail_pending node e b)) k = map_option (fail_future node e k) (map_of (b_pending b) k)"
  by (simp add: fail_pending_def map_of_map_values)

lemma fail_future_Waiting [simp]: "fail_future node e k f = Waiting \<longleftrightarrow> f = Waiting \<and> fst k \<noteq> node"
  by (auto simp: fail_future_def)

lemma fail_future_other: "fst k \<noteq> node \<Longrightarrow> fail_future node e k = (\<lambda>f. f)"
  by (auto simp: fail_future_def)

lemma fail_pending_connections [simp]: "b_connections (fail_pending node e b) = b_connections b"
  by (simp add: fail_pending_def)

lemma broker_ok_iff:
  "broker_ok b \<longleftrightarrow> dict_ok (b_connections b) \<and> dict_ok (b_pending b) \<and>
     (\<forall>k. map_of (b_pending b) k = Some Waiting \<longrightarrow> has_key (b_connections b) (fst k))"
  by (auto simp: broker_ok_def list_all_dict split: prod.splits) blast+

lemma ok_register: "broker_ok b \<Longrightarrow> broker_ok (rpc_register n c q cap caps b)"
  by (auto simp: broker_ok_iff rpc_register_def Let_def fail_pending_lookup dict_ok_fail_pending
      split: option.splits if_splits)

lemma ok_unregister: "broker_ok b \<Longrightarrow> broker_ok (rpc_unregister n c b)"
  by (auto simp: broker_ok_iff rpc_unregister_def fail_pending_lookup dict_ok_fail_pending
      split: option.splits if_splits)

lemma ok_start: "broker_ok b \<Longrightarrow> broker_ok (snd (request_start n cap rq rs pl i b))"
  by (auto simp: broker_ok_iff request_start_def Let_def map_of_update map_of_delete has_key_def
      split: option.splits if_splits)

lemma ok_finish: "broker_ok b \<Longrightarrow> broker_ok (snd (request_finish k rq b))"
  by (auto simp: broker_ok_iff request_finish_def map_of_delete)

lemma ok_resolve: "broker_ok b \<Longrightarrow> broker_ok (snd (resolve_response m c b))"
  by (auto simp: broker_ok_iff resolve_response_def map_of_update split: option.splits prod.splits if_splits)

lemma ok_handle: "broker_ok b \<Longrightarrow> broker_ok (rpc_handle ev b)"
proof (cases ev)
  case (DrainEv n)
  assume "broker_ok b"
  then show ?thesis by (auto simp: DrainEv broker_ok_iff has_key_def map_of_update split: option.splits)
qed (simp_all add: ok_register ok_unregister ok_start ok_finish ok_resolve)

text \<open>
  In every state the broker can reach, a request that still waits belongs to a node that is
  connected: when a connection goes, every request waiting on it has been failed.
\<close>

theorem rpc_no_orphan_requests:
  assumes "rpc_reachable b" "map_of (b_pending b) (node, request_id, ty) = Some Waiting"
  shows "has_key (b_connections b) node"
proof -
  have "broker_ok b"
    using assms(1) by (induction rule: rpc_reachable.induct) (simp_all add: ok_handle, simp add: broker_ok_def new_broker_def)
  with assms(2) show ?thesis by (auto simp: broker_ok_iff)
qed

text \<open>
  Replacing a node's connection by another one, or unregistering it, fails every request that
  waits on it and only those; a late unregistration by a connection that has been replaced changes nothing.
\<close>

theorem rpc_connection_change_fails_waiting:
  assumes "map_of (b_connections b) node = Some c"
  shows "(ac_connection_id c \<noteq> conn \<longrightarrow>
      map_of (b_pending (rpc_register node conn q cap caps b)) k \<noteq> Some Waiting \<or> fst k \<noteq> node) \<and>
    (ac_connection_id c = conn \<longrightarrow>
      map_of (b_pending (rpc_unregister node conn b)) k \<noteq> Some Waiting \<or> fst k \<noteq> node) \<and>
    (fst k \<noteq> node \<longrightarrow>
      map_of (b_pending (rpc_register node conn q cap caps b)) k = map_of (b_pending b) k \<and>
      map_of (b_pending (rpc_unregister node conn b)) k = map_of (b_pending b) k) \<and>
    (ac_connection_id c \<noteq> conn \<longrightarrow> rpc_unregister node conn b = b)"
  using assms by (auto simp: rpc_register_def rpc_unregister_def Let_def fail_pending_lookup fail_future_other option.map_ident)

text \<open>
  A response is taken only from the connection that is registered for its node and only for a
  request that still waits under exactly its node, identifier and type; it then fills that request
  and no other.  Anything else is refused without a change, in particular a second response to the
  same request.
\<close>

theorem resolve_response_exact:
  "case resolve_response m conn b of
     (True, b') \<Rightarrow>
       (\<exists>c. map_of (b_connections b) (fst (response_key m)) = Some c \<and> ac_connection_id c = conn) \<and>
       map_of (b_pending b) (response_key m) = Some Waiting \<and>
       map_of (b_pending b') = (map_of (b_pending b))(response_key m \<mapsto> Response m) \<and>
       b_connections b' = b_connections b \<and> resolve_response m conn b' = (False, b')
   | (False, b') \<Rightarrow> b' = b"
  by (auto simp: resolve_response_def map_of_update split: prod.splits option.splits)

text \<open>
  A request that cannot be sent raises and leaves the broker as it was; one that is sent waits under a
  key of its own, and whether it then gets its response, an error or the timeout, its key is gone afterwards.
\<close>

theorem request_leaves_no_trace:
  assumes "request_start node cap rq rs pl i b = (r, b')" "\<not> has_key (b_pending b) (node, i, rs)"
  shows "case r of
      Inl e \<Rightarrow> map_of (b_pending b') = map_of (b_pending b) \<and> b_connections b' = b_connections b
    | Inr k \<Rightarrow> k = (node, i, rs) \<and> map_of (b_pending b') = (map_of (b_pending b))(k \<mapsto> Waiting) \<and>
        \<not> has_key (b_pending (snd (request_finish k rq b''))) k \<and>
        (\<forall>k'. k' \<noteq> k \<longrightarrow> map_of (b_pending (snd (request_finish k rq b''))) k' = map_of (b_pending b'') k')"
  using assms
  by (auto simp: request_start_def request_finish_def Let_def map_of_update map_of_delete has_key_def
      fun_upd_idem split: option.splits if_splits)

definition sample_broker :: broker where
  "sample_broker = rpc_register ''n'' 1 [] 2 (Some [(''agent_restart_v1'', PBool True)]) new_broker"

lemma sample_broker_lookup:
  "b_connections sample_broker = [(''n'', \<lparr>ac_connection_id = 1, ac_queue = [], ac_capacity = 2,
     ac_capabilities = [(''agent_restart_v1'', PBool True)]\<rparr>)] \<and> b_pending sample_broker = []"
  by (simp add: sample_broker_def rpc_register_def new_broker_def)

lemma sample_request:
  "\<exists>b. restart_start ''n'' ''r'' sample_broker = (Inr (''n'', ''r'', ''agent_restart_response''), b) \<and>
     b_pending b = [((''n'', ''r'', ''agent_restart_response''), Waiting)] \<and> has_key (b_connections b) ''n'' \<and>
     (\<exists>c. map_of (b_connections b) ''n'' = Some c \<and> ac_connection_id c = 1)"
  by (simp add: restart_start_def request_start_def sample_broker_lookup has_capability_def has_key_def Let_def)

theorem rpc_no_orphan_requests_witness:
  "has_key (b_connections (snd (restart_start ''n'' ''r'' sample_broker))) ''n''"
proof -
  have "rpc_reachable sample_broker"
    using rpc_step[OF rpc_init, of "RegisterEv ''n'' 1 [] 2 (Some [(''agent_restart_v1'', PBool True)])"]
    by (simp add: sample_broker_def)
  then have r: "rpc_reachable (snd (restart_start ''n'' ''r'' sample_broker))"
    using rpc_step[of sample_broker
        "StartEv ''n'' ''agent_restart_v1'' ''agent_restart_request'' ''agent_restart_response'' [] ''r''"]
    by (simp add: restart_start_def)
  have "map_of (b_pending (snd (restart_start ''n'' ''r'' sample_broker))) (''n'', ''r'', ''agent_restart_response'') =
      Some Waiting"
    using sample_request by auto
  from rpc_no_orphan_requests[OF r this] show ?thesis .
qed

theorem rpc_connection_change_fails_waiting_witness:
  "rpc_unregister ''n'' 2 sample_broker = sample_broker"
  using rpc_connection_change_fails_waiting[of sample_broker "''n''" _ 2] by (simp add: sample_broker_lookup)

theorem resolve_response_exact_witness:
  "snd (resolve_response [(''node_id'', PStr ''n'')] 1 sample_broker) = sample_broker"
proof -
  obtain b' where e: "resolve_response [(''node_id'', PStr ''n'')] 1 sample_broker = (False, b')"
    by (simp add: resolve_response_def response_key_def str_field_def dget_def py_or_def)
  have "b' = sample_broker"
    using resolve_response_exact[where m = "[(''node_id'', PStr ''n'')]" and conn = 1 and b = sample_broker]
    by (simp add: e del: One_nat_def)
  then show ?thesis by (simp only: e snd_conv)
qed

theorem request_leaves_no_trace_witness:
  "\<not> has_key (b_pending (snd (request_finish (''n'', ''r'', ''agent_restart_response'') ''agent_restart_request''
      (snd (restart_start ''n'' ''r'' sample_broker))))) (''n'', ''r'', ''agent_restart_response'')"
proof -
  obtain b where b: "restart_start ''n'' ''r'' sample_broker = (Inr (''n'', ''r'', ''agent_restart_response''), b)"
    using sample_request by blast
  have "\<not> has_key (b_pending sample_broker) (''n'', ''r'', ''agent_restart_response'')"
    by (simp add: sample_broker_lookup has_key_def)
  from request_leaves_no_trace[OF b[unfolded restart_start_def] this, of b] show ?thesis
    by (simp add: b)
qed

end
