(* ===== verification/Rollup.thy ===== *)
theory Rollup
  imports Schema
begin

text \<open>
  The time buckets of \<open>packages/backend/src/constella/db.py\<close> and \<open>performance_rollup.py\<close>: the
  running sums of a 20-second bucket, the row a bucket becomes, and the merging of rows into
  buckets of two minutes and of an hour.

  The two SQL statements that merge rows have the same shape, which \<^verbatim>\<open>roll_up\<close> states once: group
  the rows of one width by the start of the wider bucket, the node and the accelerator, keep the
  groups that ended at least one wider bucket ago and that counted something, and write one row per
  group over whatever the table holds under its key.  \<^verbatim>\<open>CAST(x AS INTEGER)\<close> cuts off the fraction.
\<close>

subsection \<open>Constants\<close>

definition ROLLUP_20S :: int where "ROLLUP_20S = 20"
definition ROLLUP_2M :: int where "ROLLUP_2M = 120"
definition ROLLUP_1H :: int where "ROLLUP_1H = 3600"

definition ROLLUP_RETENTION_SECONDS :: "(int, int) dict" where
  "ROLLUP_RETENTION_SECONDS =
     [(ROLLUP_20S, 7 * 24 * 60 * 60), (ROLLUP_2M, 60 * 24 * 60 * 60), (ROLLUP_1H, 365 * 24 * 60 * 60)]"

definition ROLLUP_SOURCE_BUCKETS :: "(int, int) dict" where
  "ROLLUP_SOURCE_BUCKETS = [(ROLLUP_2M, ROLLUP_20S), (ROLLUP_1H, ROLLUP_2M)]"

lemmas rollup_consts = ROLLUP_20S_def ROLLUP_2M_def ROLLUP_1H_def ROLLUP_RETENTION_SECONDS_def ROLLUP_SOURCE_BUCKETS_def

subsection \<open>The bucket of the basic readings\<close>

record rollup_bucket =
  rb_bucket_start :: rat
  rb_node_id :: string
  rb_gpu_uuid :: string
  rb_sum_gpu_utilization :: rat
  rb_max_gpu_utilization :: rat
  rb_sum_memory_used_mb :: rat
  rb_max_memory_used_mb :: int
  rb_sum_power_watts :: rat
  rb_max_power_watts :: rat
  rb_sum_temperature_c :: rat
  rb_max_temperature_c :: int
  rb_sample_count :: nat

definition new_bucket :: "rat \<Rightarrow> string \<Rightarrow> string \<Rightarrow> rollup_bucket" where
  "new_bucket start node uuid =
     \<lparr>rb_bucket_start = start, rb_node_id = node, rb_gpu_uuid = uuid,
      rb_sum_gpu_utilization = 0, rb_max_gpu_utilization = 0,
      rb_sum_memory_used_mb = 0, rb_max_memory_used_mb = 0,
      rb_sum_power_watts = 0, rb_max_power_watts = 0,
      rb_sum_temperature_c = 0, rb_max_temperature_c = 0, rb_sample_count = 0\<rparr>"

definition add_gpu :: "gpu \<Rightarrow> rollup_bucket \<Rightarrow> rollup_bucket" where
  "add_gpu g b = b\<lparr>
     rb_sample_count := rb_sample_count b + 1,
     rb_sum_gpu_utilization := rb_sum_gpu_utilization b + g_utilization_gpu g,
     rb_max_gpu_utilization := max (rb_max_gpu_utilization b) (g_utilization_gpu g),
     rb_sum_memory_used_mb := rb_sum_memory_used_mb b + g_memory_used_mb g,
     rb_max_memory_used_mb := max (rb_max_memory_used_mb b) (trunc (g_memory_used_mb g)),
     rb_sum_power_watts := rb_sum_power_watts b + g_power_watts g,
     rb_max_power_watts := max (rb_max_power_watts b) (g_power_watts g),
     rb_sum_temperature_c := rb_sum_temperature_c b + g_temperature_c g,
     rb_max_temperature_c := max (rb_max_temperature_c b) (trunc (g_temperature_c g))\<rparr>"

record rollup_row =
  rr_bucket_start :: rat
  rr_bucket_seconds :: int
  rr_node_id :: string
  rr_gpu_uuid :: string
  rr_avg_gpu_utilization :: rat
  rr_max_gpu_utilization :: rat
  rr_avg_memory_used_mb :: rat
  rr_max_memory_used_mb :: int
  rr_avg_power_watts :: rat
  rr_max_power_watts :: rat
  rr_avg_temperature_c :: rat
  rr_max_temperature_c :: int
  rr_sample_count :: nat

definition bucket_to_row :: "int \<Rightarrow> rollup_bucket \<Rightarrow> rollup_row" where
  "bucket_to_row bucket_seconds b =
     (let count = of_nat (max 1 (rb_sample_count b))
      in \<lparr>rr_bucket_start = rb_bucket_start b, rr_bucket_seconds = bucket_seconds,
          rr_node_id = rb_node_id b, rr_gpu_uuid = rb_gpu_uuid b,
          rr_avg_gpu_utilization = rb_sum_gpu_utilization b / count,
          rr_max_gpu_utilization = rb_max_gpu_utilization b,
          rr_avg_memory_used_mb = rb_sum_memory_used_mb b / count,
          rr_max_memory_used_mb = rb_max_memory_used_mb b,
          rr_avg_power_watts = rb_sum_power_watts b / count,
          rr_max_power_watts = rb_max_power_watts b,
          rr_avg_temperature_c = rb_sum_temperature_c b / count,
          rr_max_temperature_c = rb_max_temperature_c b,
          rr_sample_count = rb_sample_count b\<rparr>)"

subsection \<open>Merging rows\<close>

text \<open>\<^verbatim>\<open>SUM(avg * count) / SUM(count)\<close> and \<^verbatim>\<open>MAX(column)\<close> of a group.\<close>

definition weighted :: "('r \<Rightarrow> nat) \<Rightarrow> ('r \<Rightarrow> rat) \<Rightarrow> 'r list \<Rightarrow> rat" where
  "weighted cnt f rows = sum_list (map (\<lambda>r. f r * of_nat (cnt r)) rows) / of_nat (sum_list (map cnt rows))"

definition column_max :: "('r \<Rightarrow> 'v :: linorder) \<Rightarrow> 'v \<Rightarrow> 'r list \<Rightarrow> 'v" where
  "column_max f dflt rows = (case max_opt (map f rows) of None \<Rightarrow> dflt | Some m \<Rightarrow> m)"

definition merged_row :: "int \<Rightarrow> rat \<Rightarrow> string \<Rightarrow> string \<Rightarrow> rollup_row list \<Rightarrow> rollup_row" where
  "merged_row bucket_seconds start node uuid rows =
     \<lparr>rr_bucket_start = start, rr_bucket_seconds = bucket_seconds, rr_node_id = node, rr_gpu_uuid = uuid,
      rr_avg_gpu_utilization = weighted rr_sample_count rr_avg_gpu_utilization rows,
      rr_max_gpu_utilization = column_max rr_max_gpu_utilization 0 rows,
      rr_avg_memory_used_mb = weighted rr_sample_count rr_avg_memory_used_mb rows,
      rr_max_memory_used_mb = column_max rr_max_memory_used_mb 0 rows,
      rr_avg_power_watts = weighted rr_sample_count rr_avg_power_watts rows,
      rr_max_power_watts = column_max rr_max_power_watts 0 rows,
      rr_avg_temperature_c = weighted rr_sample_count rr_avg_temperature_c rows,
      rr_max_temperature_c = column_max rr_max_temperature_c 0 rows,
      rr_sample_count = sum_list (map rr_sample_count rows)\<rparr>"

type_synonym bucket_key = "rat \<times> string \<times> string"
type_synonym rollup_key = "rat \<times> int \<times> string \<times> string"

definition row_key :: "rollup_row \<Rightarrow> rollup_key" where
  "row_key r = (rr_bucket_start r, rr_bucket_seconds r, rr_node_id r, rr_gpu_uuid r)"

text \<open>\<^verbatim>\<open>INSERT ... ON CONFLICT(key) DO UPDATE SET every other column\<close>, row by row.\<close>

definition upsert_rows :: "('r \<Rightarrow> 'k) \<Rightarrow> 'r list \<Rightarrow> ('k, 'r) dict \<Rightarrow> ('k, 'r) dict" where
  "upsert_rows key rows table = fold (\<lambda>r. AList.update (key r) r) rows table"

definition target_start :: "int \<Rightarrow> rat \<Rightarrow> rat" where
  "target_start to_bucket_seconds start = of_int (trunc (start / of_int to_bucket_seconds) * to_bucket_seconds)"

definition group_key :: "('r \<Rightarrow> rollup_key) \<Rightarrow> int \<Rightarrow> 'r \<Rightarrow> bucket_key" where
  "group_key key to_s r = (case key r of (start, secs, node, uuid) \<Rightarrow> (target_start to_s start, node, uuid))"

definition row_seconds :: "('r \<Rightarrow> rollup_key) \<Rightarrow> 'r \<Rightarrow> int" where
  "row_seconds key r = fst (snd (key r))"

definition roll_up_rows ::
    "('r \<Rightarrow> rollup_key) \<Rightarrow> ('r \<Rightarrow> nat) \<Rightarrow> (int \<Rightarrow> rat \<Rightarrow> string \<Rightarrow> string \<Rightarrow> 'r list \<Rightarrow> 'r)
      \<Rightarrow> int \<Rightarrow> int \<Rightarrow> rat \<Rightarrow> (rollup_key, 'r) dict \<Rightarrow> 'r list" where
  "roll_up_rows key cnt merge from_s to_s now table =
     (let groups = group_by (group_key key to_s) (filter (\<lambda>r. row_seconds key r = from_s) (values_of table)) []
      in map (\<lambda>((start, node, uuid), rows). merge to_s start node uuid rows)
           (filter (\<lambda>((start, node, uuid), rows).
              start + of_int to_s \<le> now - of_int to_s \<and> 0 < sum_list (map cnt rows)) groups))"

definition roll_up ::
    "('r \<Rightarrow> rollup_key) \<Rightarrow> ('r \<Rightarrow> nat) \<Rightarrow> (int \<Rightarrow> rat \<Rightarrow> string \<Rightarrow> string \<Rightarrow> 'r list \<Rightarrow> 'r)
      \<Rightarrow> int \<Rightarrow> int \<Rightarrow> rat \<Rightarrow> (rollup_key, 'r) dict \<Rightarrow> ((rollup_key, 'r) dict \<times> nat) result" where
  "roll_up key cnt merge from_s to_s now table =
     (if map_of ROLLUP_SOURCE_BUCKETS to_s \<noteq> Some from_s
      then Inl (ValueError (''unsupported rollup path: '' @ int_str from_s @ '' -> '' @ int_str to_s))
      else let rows = roll_up_rows key cnt merge from_s to_s now table
           in Inr (upsert_rows key rows table, length rows))"

definition rollup_gpu_metric_rollups ::
    "int \<Rightarrow> int \<Rightarrow> rat \<Rightarrow> (rollup_key, rollup_row) dict \<Rightarrow> ((rollup_key, rollup_row) dict \<times> nat) result" where
  "rollup_gpu_metric_rollups = roll_up row_key rr_sample_count merged_row"

subsection \<open>Running sums\<close>

text \<open>
  What every accumulator of the program does with a value that may be missing: it adds the value to a
  total, joins it to a peak and counts it.
\<close>

locale running_stat =
  fixes add :: "'x \<Rightarrow> 'b \<Rightarrow> 'b" and total :: "'b \<Rightarrow> rat" and peak :: "'b \<Rightarrow> 'p" and cnt :: "'b \<Rightarrow> nat"
    and val :: "'x \<Rightarrow> rat option" and join :: "'p \<Rightarrow> rat \<Rightarrow> 'p"
  assumes add_none: "val x = None \<Longrightarrow> total (add x b) = total b \<and> peak (add x b) = peak b \<and> cnt (add x b) = cnt b"
    and add_some: "val x = Some v \<Longrightarrow>
      total (add x b) = total b + v \<and> peak (add x b) = join (peak b) v \<and> cnt (add x b) = cnt b + 1"
begin

lemma fold_stat:
  "total (fold add xs b) = total b + sum_list (List.map_filter val xs) \<and>
   peak (fold add xs b) = foldl join (peak b) (List.map_filter val xs) \<and>
   cnt (fold add xs b) = cnt b + length (List.map_filter val xs)"
proof (induction xs arbitrary: b)
  case (Cons x xs)
  show ?case
  proof (cases "val x")
    case None
    then show ?thesis using Cons[of "add x b"] add_none[OF None, of b] by (simp add: List.map_filter_simps)
  next
    case (Some v)
    then show ?thesis using Cons[of "add x b"] add_some[OF Some, of b] by (simp add: List.map_filter_simps)
  qed
qed (simp add: List.map_filter_simps)

lemma cnt_fold_le: "cnt (fold add xs b) \<le> cnt b + length xs"
  using fold_stat[of xs b] by (simp add: List.map_filter_def)

end

interpretation util_stat: running_stat add_gpu rb_sum_gpu_utilization rb_max_gpu_utilization rb_sample_count
    "\<lambda>g. Some (g_utilization_gpu g)" max
  by unfold_locales (simp_all add: add_gpu_def)

interpretation mem_stat: running_stat add_gpu rb_sum_memory_used_mb rb_max_memory_used_mb rb_sample_count
    "\<lambda>g. Some (g_memory_used_mb g)" "\<lambda>m v. max m (trunc v)"
  by unfold_locales (simp_all add: add_gpu_def)

interpretation power_stat: running_stat add_gpu rb_sum_power_watts rb_max_power_watts rb_sample_count
    "\<lambda>g. Some (g_power_watts g)" max
  by unfold_locales (simp_all add: add_gpu_def)

interpretation temp_stat: running_stat add_gpu rb_sum_temperature_c rb_max_temperature_c rb_sample_count
    "\<lambda>g. Some (g_temperature_c g)" "\<lambda>m v. max m (trunc v)"
  by unfold_locales (simp_all add: add_gpu_def)

lemma map_filter_Some [simp]: "List.map_filter (\<lambda>x. Some (f x)) xs = map f xs"
  by (induction xs) (simp_all add: List.map_filter_simps)

lemmas bucket_folds = util_stat.fold_stat mem_stat.fold_stat power_stat.fold_stat temp_stat.fold_stat

definition bucket_of :: "rat \<Rightarrow> string \<Rightarrow> string \<Rightarrow> gpu list \<Rightarrow> rollup_bucket" where
  "bucket_of start node uuid gs = fold add_gpu gs (new_bucket start node uuid)"

definition row_of_samples :: "int \<Rightarrow> rat \<Rightarrow> string \<Rightarrow> string \<Rightarrow> gpu list \<Rightarrow> rollup_row" where
  "row_of_samples secs start node uuid gs = bucket_to_row secs (bucket_of start node uuid gs)"

lemma bucket_of_key [simp]:
  "rb_bucket_start (bucket_of start node uuid gs) = start" "rb_node_id (bucket_of start node uuid gs) = node"
  "rb_gpu_uuid (bucket_of start node uuid gs) = uuid"
proof -
  have "rb_bucket_start (fold add_gpu gs b) = rb_bucket_start b \<and> rb_node_id (fold add_gpu gs b) = rb_node_id b \<and>
      rb_gpu_uuid (fold add_gpu gs b) = rb_gpu_uuid b" for b
    by (induction gs arbitrary: b) (simp_all add: add_gpu_def)
  then show "rb_bucket_start (bucket_of start node uuid gs) = start" "rb_node_id (bucket_of start node uuid gs) = node"
    "rb_gpu_uuid (bucket_of start node uuid gs) = uuid"
    by (simp_all add: bucket_of_def new_bucket_def)
qed

text \<open>The row of a list of samples, column by column.\<close>

definition mean :: "('a \<Rightarrow> rat) \<Rightarrow> 'a list \<Rightarrow> rat" where
  "mean f xs = sum_list (map f xs) / of_nat (length xs)"

definition peak_of :: "('a \<Rightarrow> 'v :: linorder) \<Rightarrow> 'v \<Rightarrow> 'a list \<Rightarrow> 'v" where
  "peak_of f z xs = foldl (\<lambda>m x. max m (f x)) z xs"

lemma peak_of_map: "foldl (\<lambda>m v. max m (t v)) z (map f xs) = peak_of (\<lambda>x. t (f x)) z xs"
  by (simp add: peak_of_def foldl_map)

lemma peak_of_simps [simp]: "peak_of f z [] = z" "peak_of f z (x # xs) = peak_of f (max z (f x)) xs"
  by (simp_all add: peak_of_def)

lemma peak_of_Max: "peak_of f z xs = Max (insert z (f ` set xs))"
proof (induction xs arbitrary: z)
  case (Cons x xs)
  then show ?case by (cases "xs = []") (simp_all add: max.assoc)
qed simp

lemma row_of_samples_eq:
  assumes "gs \<noteq> []"
  shows "row_of_samples secs start node uuid gs =
    \<lparr>rr_bucket_start = start, rr_bucket_seconds = secs, rr_node_id = node, rr_gpu_uuid = uuid,
     rr_avg_gpu_utilization = mean g_utilization_gpu gs,
     rr_max_gpu_utilization = peak_of g_utilization_gpu 0 gs,
     rr_avg_memory_used_mb = mean g_memory_used_mb gs,
     rr_max_memory_used_mb = peak_of (\<lambda>g. trunc (g_memory_used_mb g)) 0 gs,
     rr_avg_power_watts = mean g_power_watts gs,
     rr_max_power_watts = peak_of g_power_watts 0 gs,
     rr_avg_temperature_c = mean g_temperature_c gs,
     rr_max_temperature_c = peak_of (\<lambda>g. trunc (g_temperature_c g)) 0 gs,
     rr_sample_count = length gs\<rparr>"
proof -
  have "max 1 (length gs) = length gs" using assms by (cases gs) simp_all
  then show ?thesis
    using bucket_folds[of gs "new_bucket start node uuid"] peak_of_map[of "\<lambda>v. v"]
    by (simp add: row_of_samples_def bucket_to_row_def Let_def bucket_of_def[of _ _ _ gs] mean_def peak_of_map
        new_bucket_def del: One_nat_def)
       (simp add: bucket_of_key[of start node uuid gs, unfolded bucket_of_def new_bucket_def])
qed

subsection \<open>Merging is exact\<close>

lemma weighted_mean:
  assumes "\<forall>gs \<in> set css. gs \<noteq> []" "\<And>gs. gs \<noteq> [] \<Longrightarrow> f (row gs) = mean h gs \<and> cnt (row gs) = length gs"
  shows "weighted cnt f (map row css) = mean h (concat css)"
proof -
  have "f (row gs) * of_nat (cnt (row gs)) = sum_list (map h gs)" if "gs \<in> set css" for gs
    using assms that by (simp add: mean_def)
  then have "map (\<lambda>gs. f (row gs) * of_nat (cnt (row gs))) css = map (\<lambda>gs. sum_list (map h gs)) css"
    by (rule map_cong[OF refl])
  moreover have "map (\<lambda>gs. cnt (row gs)) css = map length css"
    using assms by (intro map_cong) simp_all
  ultimately have "weighted cnt f (map row css) =
      sum_list (map (\<lambda>gs. sum_list (map h gs)) css) / of_nat (sum_list (map length css))"
    by (simp only: weighted_def map_map o_def)
  moreover have "sum_list (map (\<lambda>gs. sum_list (map h gs)) css) = sum_list (map h (concat css))"
    by (induction css) simp_all
  ultimately show ?thesis by (simp add: mean_def length_concat)
qed

lemma column_max_peak:
  assumes "css \<noteq> []" "\<And>gs. gs \<in> set css \<Longrightarrow> f (row gs) = peak_of h z gs"
  shows "column_max f dflt (map row css) = peak_of h z (concat css)"
proof -
  have m: "map (\<lambda>gs. f (row gs)) css = map (peak_of h z) css" using assms(2) by simp
  have "max_opt (map (peak_of h z) css) = Some (peak_of h z (concat css))"
  proof -
    let ?S = "insert z (h ` set (concat css))"
    have fin: "finite ?S" by simp
    have le: "peak_of h z gs \<le> Max ?S" if "gs \<in> set css" for gs
      unfolding peak_of_Max using that by (intro Max_mono) auto
    have "Max ?S \<in> ?S" using fin by (intro Max_in) auto
    then obtain gs where gs: "gs \<in> set css" "Max ?S \<in> insert z (h ` set gs)"
      using assms(1) by (cases css) auto
    then have "Max ?S \<le> peak_of h z gs" unfolding peak_of_Max by (intro Max_ge) simp_all
    then have "peak_of h z gs = Max ?S" by (rule antisym[OF le[OF gs(1)]])
    then have e: "peak_of h z (concat css) = peak_of h z gs" by (simp add: peak_of_Max)
    then have "peak_of h z (concat css) \<in> set (map (peak_of h z) css)" using gs(1) by simp
    moreover have "\<forall>x \<in> set (map (peak_of h z) css). x \<le> peak_of h z (concat css)"
      using le by (simp add: peak_of_Max)
    ultimately show ?thesis by (simp only: max_opt_eq)
  qed
  then show ?thesis by (simp add: column_max_def o_def m)
qed

text \<open>
  C27: merging is exact: the row SQL computes from the rows of the parts of a longer bucket is the row
  the samples of all parts would have given, so an hourly row built in two stages from 20-second
  rows holds the true mean, peak and count of every metric.
\<close>

theorem merged_row_exact:
  assumes "css \<noteq> []" "\<forall>gs \<in> set css. gs \<noteq> []"
  shows "merged_row to_s start node uuid (map (\<lambda>gs. row_of_samples from_s (first gs) node uuid gs) css) =
    row_of_samples to_s start node uuid (concat css)"
proof -
  let ?row = "\<lambda>gs. row_of_samples from_s (first gs) node uuid gs"
  have ne: "concat css \<noteq> []" using assms by (cases css) auto
  note r = row_of_samples_eq[of _ from_s _ node uuid]
  note w = weighted_mean[OF assms(2), where row = ?row and cnt = rr_sample_count]
  note c = column_max_peak[OF assms(1), where row = ?row]
  have n: "map (\<lambda>gs. rr_sample_count (?row gs)) css = map length css" using assms(2) by (simp add: r)
  show ?thesis
    unfolding merged_row_def row_of_samples_eq[OF ne]
    using w[of rr_avg_gpu_utilization g_utilization_gpu] w[of rr_avg_memory_used_mb g_memory_used_mb]
      w[of rr_avg_power_watts g_power_watts] w[of rr_avg_temperature_c g_temperature_c]
      c[of rr_max_gpu_utilization g_utilization_gpu 0 0] c[of rr_max_memory_used_mb "\<lambda>g. trunc (g_memory_used_mb g)" 0 0]
      c[of rr_max_power_watts g_power_watts 0 0] c[of rr_max_temperature_c "\<lambda>g. trunc (g_temperature_c g)" 0 0] assms(2)
    by (simp add: r o_def n length_concat)
qed

theorem merged_row_exact_witness:
  "merged_row 120 0 ''n'' ''u'' [row_of_samples 20 0 ''n'' ''u'' [sample_gpu 0 10 1, sample_gpu 0 20 1],
      row_of_samples 20 20 ''n'' ''u'' [sample_gpu 0 90 2]] =
    row_of_samples 120 0 ''n'' ''u'' [sample_gpu 0 10 1, sample_gpu 0 20 1, sample_gpu 0 90 2]"
  using merged_row_exact[of "[[sample_gpu 0 10 1, sample_gpu 0 20 1], [sample_gpu 0 90 2]]" 120 0 "''n''" "''u''" 20
      "\<lambda>gs. if length gs = 2 then 0 else 20"] by simp

subsection \<open>Merging a table\<close>

lemma map_of_upsert_rows:
  "distinct (map key rows) \<Longrightarrow> map_of (upsert_rows key rows table) k =
     (case find (\<lambda>r. key r = k) rows of Some r \<Rightarrow> Some r | None \<Rightarrow> map_of table k)"
proof (induction rows arbitrary: table)
  case (Cons r rows)
  have "find (\<lambda>r'. key r' = key r) rows = None"
    unfolding find_None_iff using Cons.prems by (simp add: image_iff) metis
  then show ?case using Cons by (auto simp: upsert_rows_def map_of_update split: option.splits)
qed (simp add: upsert_rows_def)

lemma find_key: "distinct (map key rows) \<Longrightarrow> r \<in> set rows \<Longrightarrow> find (\<lambda>x. key x = key r) rows = Some r"
  by (induction rows) force+

lemma dict_ok_upsert [inv_intros]: "dict_ok table \<Longrightarrow> dict_ok (upsert_rows key rows table)"
  by (induction rows arbitrary: table) (simp_all add: upsert_rows_def)

lemma keyed_upsert: "\<forall>(k, r) \<in> set table. key r = k \<Longrightarrow> \<forall>(k, r) \<in> set (upsert_rows key rows table). key r = k"
proof (induction rows arbitrary: table)
  case (Cons r rows)
  have "\<forall>(k, r) \<in> set (AList.update (key r) r table). key r = k"
    using list_all_update_pair[of "\<lambda>(k, r). key r = k" table "key r" r] Cons.prems by (simp add: list_all_iff)
  from Cons.IH[OF this] show ?case by (simp add: upsert_rows_def)
qed (simp add: upsert_rows_def)

text \<open>A merge function that puts the key of the group into the row it makes.\<close>

definition keyed_merge :: "('r \<Rightarrow> rollup_key) \<Rightarrow> (int \<Rightarrow> rat \<Rightarrow> string \<Rightarrow> string \<Rightarrow> 'r list \<Rightarrow> 'r) \<Rightarrow> bool" where
  "keyed_merge key merge \<longleftrightarrow> (\<forall>secs start node uuid rows. key (merge secs start node uuid rows) = (start, secs, node, uuid))"

lemma keyed_merged_row [simp]: "keyed_merge row_key merged_row"
  by (simp add: keyed_merge_def row_key_def merged_row_def)

definition group_rows :: "('r \<Rightarrow> rollup_key) \<Rightarrow> int \<Rightarrow> int \<Rightarrow> (rollup_key, 'r) dict \<Rightarrow> bucket_key \<Rightarrow> 'r list" where
  "group_rows key from_s to_s table b =
     filter (\<lambda>r. row_seconds key r = from_s \<and> group_key key to_s r = b) (values_of table)"

definition complete_group :: "('r \<Rightarrow> nat) \<Rightarrow> int \<Rightarrow> rat \<Rightarrow> rat \<Rightarrow> 'r list \<Rightarrow> bool" where
  "complete_group cnt to_s now start rows =
     (rows \<noteq> [] \<and> start + of_int to_s \<le> now - of_int to_s \<and> 0 < sum_list (map cnt rows))"

lemma map_of_roll_up:
  assumes km: "keyed_merge key merge"
  shows "map_of (upsert_rows key (roll_up_rows key cnt merge from_s to_s now table) table) (start, secs, node, uuid) =
    (let rows = group_rows key from_s to_s table (start, node, uuid)
     in if secs = to_s \<and> complete_group cnt to_s now start rows
        then Some (merge to_s start node uuid rows) else map_of table (start, secs, node, uuid))"
proof -
  let ?src = "filter (\<lambda>r. row_seconds key r = from_s) (values_of table)"
  let ?groups = "group_by (group_key key to_s) ?src []"
  let ?ok = "\<lambda>((b, node :: string, uuid :: string), rows).
      b + of_int to_s \<le> now - of_int to_s \<and> 0 < sum_list (map cnt rows)"
  let ?mk = "\<lambda>((b, node, uuid), rows). merge to_s b node uuid rows"
  let ?rows = "map ?mk (filter ?ok ?groups)" and ?g = "group_rows key from_s to_s table (start, node, uuid)"
  have R: "roll_up_rows key cnt merge from_s to_s now table = ?rows" by (simp add: roll_up_rows_def Let_def)
  have dk: "dict_ok ?groups" by (rule dict_ok_group_by) simp
  have key: "key (?mk g) = (fst (fst g), to_s, fst (snd (fst g)), snd (snd (fst g)))" for g
    using km by (cases g) (auto simp: keyed_merge_def)
  have d: "distinct (map key ?rows)"
  proof -
    have "distinct (map fst (filter ?ok ?groups))" using dk by (simp add: dict_ok_def distinct_map_filter)
    then have "distinct (map (\<lambda>k. (fst k, to_s, fst (snd k), snd (snd k))) (map fst (filter ?ok ?groups)))"
      by (rule distinct_map[THEN iffD2, OF conjI]) (auto simp: inj_on_def prod_eq_iff)
    moreover have "map key ?rows = map (\<lambda>k. (fst k, to_s, fst (snd k), snd (snd k))) (map fst (filter ?ok ?groups))"
      by (simp add: key)
    ultimately show ?thesis by (simp only:)
  qed
  have grp: "?g = filter (\<lambda>r. group_key key to_s r = (start, node, uuid)) ?src"
    by (simp add: group_rows_def conj_commute)
  have mem: "((start, node, uuid), rs) \<in> set ?groups \<longleftrightarrow> ?g \<noteq> [] \<and> rs = ?g" for rs
    unfolding dict_ok_map_of[OF dk] map_of_group_by grp by (auto simp: Let_def)
  note U = map_of_upsert_rows[OF d, of table "(start, secs, node, uuid)"]
  show ?thesis
  proof (cases "secs = to_s \<and> complete_group cnt to_s now start ?g")
    case True
    then have "((start, node, uuid), ?g) \<in> set (filter ?ok ?groups)" by (simp add: mem complete_group_def)
    then have "?mk ((start, node, uuid), ?g) \<in> set ?rows" by (simp only: set_map image_eqI)
    then have "merge to_s start node uuid ?g \<in> set ?rows" by simp
    moreover have "key (merge to_s start node uuid ?g) = (start, secs, node, uuid)"
      using km True by (simp add: keyed_merge_def)
    ultimately have "find (\<lambda>r. key r = (start, secs, node, uuid)) ?rows = Some (merge to_s start node uuid ?g)"
      using find_key[OF d] by metis
    then show ?thesis unfolding R U using True by (simp only: option.case Let_def if_True simp_thms)
  next
    case False
    have "find (\<lambda>r. key r = (start, secs, node, uuid)) ?rows = None"
    proof (rule ccontr)
      assume "find (\<lambda>r. key r = (start, secs, node, uuid)) ?rows \<noteq> None"
      then obtain g where g: "g \<in> set (filter ?ok ?groups)" "key (?mk g) = (start, secs, node, uuid)"
        unfolding find_None_iff set_map by blast
      obtain b n u rs where gb: "g = ((b, n, u), rs)" by (metis surj_pair)
      have e: "b = start" "n = node" "u = uuid" "secs = to_s" using g(2) unfolding key gb by simp_all
      have "?g \<noteq> [] \<and> rs = ?g" using g(1) mem[of rs] by (simp add: gb e)
      then show False using g(1) False by (simp add: gb e complete_group_def)
    qed
    then show ?thesis unfolding R U using False by (simp only: option.case Let_def if_False)
  qed
qed

text \<open>
  Merging a table writes exactly the complete groups: the row of a wider bucket is the merge of all
  its narrower rows once the bucket ended one bucket ago, and every other row stays as it was.
\<close>

theorem rollup_gpu_metric_rollups_exact:
  assumes "map_of ROLLUP_SOURCE_BUCKETS to_s = Some from_s"
  shows "\<exists>table' n. rollup_gpu_metric_rollups from_s to_s now table = Inr (table', n) \<and>
    (\<forall>start secs node uuid. map_of table' (start, secs, node, uuid) =
      (let rows = group_rows row_key from_s to_s table (start, node, uuid)
       in if secs = to_s \<and> complete_group rr_sample_count to_s now start rows
          then Some (merged_row to_s start node uuid rows) else map_of table (start, secs, node, uuid)))"
  using assms map_of_roll_up[OF keyed_merged_row, of rr_sample_count from_s to_s now table]
  by (simp add: rollup_gpu_metric_rollups_def roll_up_def Let_def)

theorem rollup_gpu_metric_rollups_exact_witness:
  "\<exists>table' n. rollup_gpu_metric_rollups 20 120 1000 [] = Inr (table', n) \<and> map_of table' (0, 120, ''n'', ''u'') = None"
  using rollup_gpu_metric_rollups_exact[of 120 20 1000 "[]"]
  by (auto simp: rollup_consts group_rows_def values_of_def complete_group_def Let_def)

subsection \<open>The bucket of the GPM metrics\<close>

definition NVIDIA_GPM_ROLLUP_METRICS :: "(string, string) dict" where
  "NVIDIA_GPM_ROLLUP_METRICS =
    [(''nvidia.gpm.sm_active'', ''sm_active''),
     (''nvidia.gpm.sm_occupancy'', ''sm_occupancy''),
     (''nvidia.gpm.tensor_active'', ''tensor_active''),
     (''nvidia.gpm.dram_bw_active'', ''dram_bw_active''),
     (''nvidia.gpm.fp16_non_tensor_active'', ''fp16_non_tensor_active''),
     (''nvidia.gpm.fp32_non_tensor_active'', ''fp32_non_tensor_active''),
     (''nvidia.gpm.fp64_non_tensor_active'', ''fp64_non_tensor_active''),
     (''nvidia.gpm.pcie_tx_per_second'', ''pcie_tx_per_second''),
     (''nvidia.gpm.pcie_rx_per_second'', ''pcie_rx_per_second''),
     (''nvidia.gpm.nvlink_tx_per_second'', ''nvlink_tx_per_second''),
     (''nvidia.gpm.nvlink_rx_per_second'', ''nvlink_rx_per_second'')]"

record gpm_bucket =
  wb_bucket_start :: rat
  wb_node_id :: string
  wb_gpu_uuid :: string
  wb_expected_count :: nat
  wb_sums :: "(string, rat) dict"
  wb_maxima :: "(string, rat) dict"
  wb_counts :: "(string, nat) dict"

definition new_gpm_bucket :: "rat \<Rightarrow> string \<Rightarrow> string \<Rightarrow> gpm_bucket" where
  "new_gpm_bucket start node uuid =
     \<lparr>wb_bucket_start = start, wb_node_id = node, wb_gpu_uuid = uuid, wb_expected_count = 0,
      wb_sums = [], wb_maxima = [], wb_counts = []\<rparr>"

definition float_of :: "pyval \<Rightarrow> rat" where
  "float_of v = (case py_float v of Inr f \<Rightarrow> flt_num f | Inl e \<Rightarrow> 0)"

definition add_metric :: "string \<times> pyval \<Rightarrow> gpm_bucket \<Rightarrow> gpm_bucket" where
  "add_metric mv b =
     (case mv of (metric, v) \<Rightarrow>
        case map_of NVIDIA_GPM_ROLLUP_METRICS metric of
          None \<Rightarrow> b
        | Some stem \<Rightarrow>
            if \<not> accepts (gpm_rule metric) v then b
            else let numeric = float_of v
                 in b\<lparr>wb_sums := AList.update stem (get_or (wb_sums b) stem 0 + numeric) (wb_sums b),
                      wb_maxima := AList.update stem (max (get_or (wb_maxima b) stem numeric) numeric) (wb_maxima b),
                      wb_counts := AList.update stem (get_or (wb_counts b) stem 0 + 1) (wb_counts b)\<rparr>)"

definition gpm_bucket_add :: "performance \<Rightarrow> gpm_bucket \<Rightarrow> gpm_bucket" where
  "gpm_bucket_add p b =
     (if f_profile p \<noteq> NVIDIA_GPM_PROFILE \<or> f_status p = ''unsupported'' then b
      else let b' = b\<lparr>wb_expected_count := wb_expected_count b + 1\<rparr>
           in if f_status p \<noteq> ''available'' then b' else fold add_metric (f_metrics p) b')"

record stem_stat =
  sx_avg :: "rat option"
  sx_max :: "rat option"
  sx_count :: nat

record gpm_row =
  wr_bucket_start :: rat
  wr_bucket_seconds :: int
  wr_node_id :: string
  wr_gpu_uuid :: string
  wr_expected_count :: nat
  wr_stats :: "(string, stem_stat) dict"

definition ROLLUP_STEMS :: "string list" where
  "ROLLUP_STEMS = map snd NVIDIA_GPM_ROLLUP_METRICS"

definition stem_stat_of :: "gpm_bucket \<Rightarrow> string \<Rightarrow> stem_stat" where
  "stem_stat_of b stem =
     (let count = get_or (wb_counts b) stem 0
      in if count = 0 then \<lparr>sx_avg = None, sx_max = None, sx_count = 0\<rparr>
         else \<lparr>sx_avg = Some (get_or (wb_sums b) stem 0 / of_nat count),
               sx_max = map_of (wb_maxima b) stem, sx_count = count\<rparr>)"

definition gpm_bucket_to_row :: "int \<Rightarrow> gpm_bucket \<Rightarrow> gpm_row" where
  "gpm_bucket_to_row bucket_seconds b =
     \<lparr>wr_bucket_start = wb_bucket_start b, wr_bucket_seconds = bucket_seconds,
      wr_node_id = wb_node_id b, wr_gpu_uuid = wb_gpu_uuid b, wr_expected_count = wb_expected_count b,
      wr_stats = map (\<lambda>stem. (stem, stem_stat_of b stem)) ROLLUP_STEMS\<rparr>"

definition gpm_row_key :: "gpm_row \<Rightarrow> rollup_key" where
  "gpm_row_key r = (wr_bucket_start r, wr_bucket_seconds r, wr_node_id r, wr_gpu_uuid r)"

definition nvidia_gpm_row_columns :: "string list" where
  "nvidia_gpm_row_columns =
     [''bucket_start'', ''bucket_seconds'', ''node_id'', ''gpu_uuid'', ''expected_count''] @
     concat (map (\<lambda>stem. [''avg_'' @ stem, ''max_'' @ stem, stem @ ''_count'']) ROLLUP_STEMS)"

text \<open>
  The columns of one metric in the merging statement: a missing average or maximum is NULL, which
  \<^verbatim>\<open>SUM\<close> and \<^verbatim>\<open>MAX\<close> skip.
\<close>

definition stat_of :: "string \<Rightarrow> gpm_row \<Rightarrow> stem_stat" where
  "stat_of stem r = get_or (wr_stats r) stem \<lparr>sx_avg = None, sx_max = None, sx_count = 0\<rparr>"

definition merged_stat :: "gpm_row list \<Rightarrow> string \<Rightarrow> stem_stat" where
  "merged_stat rows stem =
     (let stats = map (stat_of stem) rows; n = sum_list (map sx_count stats);
          products = List.map_filter (\<lambda>s. map_option (\<lambda>a. a * of_nat (sx_count s)) (sx_avg s)) stats
      in \<lparr>sx_avg = (if 0 < n then (if products = [] then None else Some (sum_list products / of_nat n)) else None),
          sx_max = max_opt (List.map_filter sx_max stats), sx_count = n\<rparr>)"

definition merged_gpm_row :: "int \<Rightarrow> rat \<Rightarrow> string \<Rightarrow> string \<Rightarrow> gpm_row list \<Rightarrow> gpm_row" where
  "merged_gpm_row bucket_seconds start node uuid rows =
     \<lparr>wr_bucket_start = start, wr_bucket_seconds = bucket_seconds, wr_node_id = node, wr_gpu_uuid = uuid,
      wr_expected_count = sum_list (map wr_expected_count rows),
      wr_stats = map (\<lambda>stem. (stem, merged_stat rows stem)) ROLLUP_STEMS\<rparr>"

definition rollup_nvidia_gpm_rollups ::
    "int \<Rightarrow> int \<Rightarrow> rat \<Rightarrow> (rollup_key, gpm_row) dict \<Rightarrow> ((rollup_key, gpm_row) dict \<times> nat) result" where
  "rollup_nvidia_gpm_rollups = roll_up gpm_row_key wr_expected_count merged_gpm_row"

subsection \<open>The GPM rows hold true averages\<close>

definition join_max :: "rat option \<Rightarrow> rat \<Rightarrow> rat option" where
  "join_max m v = Some (case m of None \<Rightarrow> v | Some x \<Rightarrow> max x v)"

definition stem_value :: "string \<Rightarrow> string \<times> pyval \<Rightarrow> rat option" where
  "stem_value stem mv =
     (if map_of NVIDIA_GPM_ROLLUP_METRICS (fst mv) = Some stem \<and> accepts (gpm_rule (fst mv)) (snd mv)
      then Some (float_of (snd mv)) else None)"

interpretation gpm_stat: running_stat add_metric "\<lambda>b. get_or (wb_sums b) stem 0" "\<lambda>b. map_of (wb_maxima b) stem"
    "\<lambda>b. get_or (wb_counts b) stem 0" "stem_value stem" join_max
  for stem
proof
  fix x :: "string \<times> pyval" and b :: gpm_bucket and v :: rat
  obtain metric w where x: "x = (metric, w)" by (cases x)
  show "get_or (wb_sums (add_metric x b)) stem 0 = get_or (wb_sums b) stem 0 \<and>
      map_of (wb_maxima (add_metric x b)) stem = map_of (wb_maxima b) stem \<and>
      get_or (wb_counts (add_metric x b)) stem 0 = get_or (wb_counts b) stem 0" if "stem_value stem x = None"
    using that by (cases "map_of NVIDIA_GPM_ROLLUP_METRICS metric")
      (auto simp: x stem_value_def add_metric_def Let_def get_or_def map_of_update)
  show "get_or (wb_sums (add_metric x b)) stem 0 = get_or (wb_sums b) stem 0 + v \<and>
      map_of (wb_maxima (add_metric x b)) stem = join_max (map_of (wb_maxima b) stem) v \<and>
      get_or (wb_counts (add_metric x b)) stem 0 = get_or (wb_counts b) stem 0 + 1" if "stem_value stem x = Some v"
    using that by (auto simp: x stem_value_def add_metric_def Let_def get_or_def join_max_def
        split: if_splits option.splits)
qed

text \<open>The metrics of a sample that a bucket looks at, and whether it counts the sample at all.\<close>

definition gpm_counted :: "performance \<Rightarrow> bool" where
  "gpm_counted p \<longleftrightarrow> f_profile p = NVIDIA_GPM_PROFILE \<and> f_status p \<noteq> ''unsupported''"

definition gpm_items :: "performance \<Rightarrow> (string, pyval) dict" where
  "gpm_items p = (if gpm_counted p \<and> f_status p = ''available'' then f_metrics p else [])"

lemma add_metric_expected [simp]: "wb_expected_count (fold add_metric ms b) = wb_expected_count b"
proof (induction ms arbitrary: b)
  case (Cons m ms)
  have "wb_expected_count (add_metric m b) = wb_expected_count b"
    by (cases m) (simp add: add_metric_def Let_def split: option.split)
  then show ?case using Cons by simp
qed simp

lemma gpm_bucket_add_items:
  "gpm_bucket_add p b = fold add_metric (gpm_items p) (b\<lparr>wb_expected_count := wb_expected_count b + of_bool (gpm_counted p)\<rparr>)"
  by (simp add: gpm_bucket_add_def gpm_items_def gpm_counted_def Let_def)

definition stem_values :: "performance list \<Rightarrow> string \<Rightarrow> rat list" where
  "stem_values ps stem = List.map_filter (stem_value stem) (concat (map gpm_items ps))"

lemma map_filter_append [simp]: "List.map_filter f (xs @ ys) = List.map_filter f xs @ List.map_filter f ys"
  by (simp add: List.map_filter_def)

lemma gpm_bucket_folds:
  "wb_expected_count (fold gpm_bucket_add ps b) = wb_expected_count b + length (filter gpm_counted ps) \<and>
   get_or (wb_sums (fold gpm_bucket_add ps b)) stem 0 = get_or (wb_sums b) stem 0 + sum_list (stem_values ps stem) \<and>
   map_of (wb_maxima (fold gpm_bucket_add ps b)) stem = foldl join_max (map_of (wb_maxima b) stem) (stem_values ps stem) \<and>
   get_or (wb_counts (fold gpm_bucket_add ps b)) stem 0 = get_or (wb_counts b) stem 0 + length (stem_values ps stem)"
proof (induction ps arbitrary: b)
  case (Cons p ps)
  show ?case
    using Cons[of "gpm_bucket_add p b"] gpm_stat.fold_stat[of "gpm_items p" "b\<lparr>wb_expected_count := wb_expected_count b + of_bool (gpm_counted p)\<rparr>" stem]
    by (simp add: gpm_bucket_add_items stem_values_def foldl_append)
qed (simp add: stem_values_def List.map_filter_simps)

definition stat_of_values :: "rat list \<Rightarrow> stem_stat" where
  "stat_of_values vs =
     \<lparr>sx_avg = (if vs = [] then None else Some (sum_list vs / of_nat (length vs))),
      sx_max = max_opt vs, sx_count = length vs\<rparr>"

lemma foldl_join_max: "foldl join_max (Some m) vs = Some (max_list1 m vs)"
  by (induction vs arbitrary: m) (simp_all add: join_max_def max_def)

lemma max_opt_Nil [simp]: "max_opt [] = None"
  by simp

lemma foldl_join_max_None: "foldl join_max None vs = max_opt vs"
  by (cases vs) (simp_all add: max_opt_def join_max_def foldl_join_max)

lemma stem_stat_of_fold:
  "stem_stat_of (fold gpm_bucket_add ps (new_gpm_bucket start node uuid)) stem = stat_of_values (stem_values ps stem)"
  using gpm_bucket_folds[of ps "new_gpm_bucket start node uuid" stem]
  by (auto simp: stem_stat_of_def new_gpm_bucket_def Let_def get_or_def[of "[]"] stat_of_values_def foldl_join_max_None)

lemma sx_simps [simp]:
  "sx_count (stat_of_values vs) = length vs" "sx_max (stat_of_values vs) = max_opt vs"
  "sx_avg (stat_of_values vs) = (if vs = [] then None else Some (sum_list vs / of_nat (length vs)))"
  by (simp_all add: stat_of_values_def)

lemma max_opt_append:
  "max_opt (xs @ ys) = (case (max_opt xs, max_opt ys) of (None, m) \<Rightarrow> m | (m, None) \<Rightarrow> m | (Some a, Some b) \<Rightarrow> Some (max a b))"
proof (cases "max_opt xs")
  case (Some a)
  note a = this
  show ?thesis
  proof (cases "max_opt ys")
    case (Some b)
    have "max_opt (xs @ ys) = Some (max a b)"
      using a Some by (auto simp: max_opt_eq max_def intro: order_trans)
    then show ?thesis using a Some by simp
  qed (use a in simp)
qed simp

lemma max_opt_concat: "max_opt (List.map_filter max_opt vss) = max_opt (concat vss)"
proof (induction vss)
  case (Cons vs vss)
  show ?case
  proof (cases "max_opt vs")
    case (Some m)
    have "max_opt (List.map_filter max_opt (vs # vss)) = max_opt ([m] @ List.map_filter max_opt vss)"
      by (simp add: List.map_filter_simps Some)
    then show ?thesis using Some by (simp only: max_opt_append Cons concat.simps) (simp add: max_opt_def)
  qed (use Cons in \<open>simp add: List.map_filter_simps\<close>)
qed (simp add: List.map_filter_simps)

lemma merged_stat_values:
  assumes "map (stat_of stem) rows = map stat_of_values vss"
  shows "merged_stat rows stem = stat_of_values (concat vss)"
proof -
  let ?f = "\<lambda>s. map_option (\<lambda>a. a * of_nat (sx_count s)) (sx_avg s)"
  have n: "sum_list (map sx_count (map stat_of_values vss)) = length (concat vss)"
    by (simp add: o_def length_concat)
  have p: "sum_list (List.map_filter ?f (map stat_of_values vss)) = sum_list (concat vss) \<and>
      (List.map_filter ?f (map stat_of_values vss) = [] \<longleftrightarrow> concat vss = [])"
    by (induction vss) (simp_all add: List.map_filter_simps)
  have m: "List.map_filter sx_max (map stat_of_values vss) = List.map_filter max_opt vss"
    by (induction vss) (simp_all add: List.map_filter_simps split: option.split)
  show ?thesis
    unfolding merged_stat_def assms Let_def n m max_opt_concat using p by (simp add: stat_of_values_def del: concat_eq_Nil_conv)
qed

lemma stem_values_concat: "stem_values (concat pss) stem = concat (map (\<lambda>ps. stem_values ps stem) pss)"
  by (induction pss) (simp_all add: stem_values_def List.map_filter_simps)

definition stem_metric :: "string \<Rightarrow> string" where
  "stem_metric stem = ''nvidia.gpm.'' @ stem"

lemma stem_metric_unique: "map_of NVIDIA_GPM_ROLLUP_METRICS m = Some stem \<Longrightarrow> m = stem_metric stem"
  by (auto simp: NVIDIA_GPM_ROLLUP_METRICS_def stem_metric_def split: if_splits)

lemma filter_key_le_1: "distinct (map fst d) \<Longrightarrow> length (filter (\<lambda>kv. fst kv = k) d) \<le> 1"
proof (induction d)
  case (Cons kv d)
  have "filter (\<lambda>kv. fst kv = k) d = []" if "fst kv = k"
    using Cons.prems that by (auto simp: filter_empty_conv) (metis fst_conv image_eqI)
  then show ?case using Cons by auto
qed simp

lemma stem_values_one_key:
  "List.map_filter (stem_value stem) d =
    List.map_filter (stem_value stem) (filter (\<lambda>mv. fst mv = stem_metric stem) d)"
proof (induction d)
  case (Cons mv d)
  show ?case
  proof (cases "fst mv = stem_metric stem")
    case False
    then have "stem_value stem mv = None"
      using stem_metric_unique[of "fst mv" stem] by (auto simp: stem_value_def)
    then show ?thesis using Cons False by (simp add: List.map_filter_simps)
  qed (use Cons in \<open>simp add: List.map_filter_simps split: option.split\<close>)
qed simp

lemma length_map_filter_le: "length (List.map_filter f xs) \<le> length xs"
  by (simp add: List.map_filter_def)

lemma stem_values_item:
  assumes "dict_ok (f_metrics p)"
  shows "length (List.map_filter (stem_value stem) (gpm_items p)) \<le> of_bool (gpm_counted p)"
proof -
  have "length (List.map_filter (stem_value stem) (f_metrics p)) \<le> 1"
    using stem_values_one_key[of stem "f_metrics p"] filter_key_le_1[OF assms[unfolded dict_ok_def], of "stem_metric stem"]
      length_map_filter_le[of "stem_value stem" "filter (\<lambda>mv. fst mv = stem_metric stem) (f_metrics p)"]
    by (metis le_trans)
  then show ?thesis by (simp add: gpm_items_def List.map_filter_simps)
qed

lemma stem_values_le_counted:
  "(\<And>p. p \<in> set ps \<Longrightarrow> dict_ok (f_metrics p)) \<Longrightarrow> length (stem_values ps stem) \<le> length (filter gpm_counted ps)"
proof (induction ps)
  case (Cons p ps)
  have "length (stem_values ps stem) \<le> length (filter gpm_counted ps)" using Cons by simp
  then show ?case using stem_values_item[OF Cons.prems[of p], of stem] by (auto simp: stem_values_def)
qed (simp add: stem_values_def List.map_filter_simps)

definition gpm_row_of :: "int \<Rightarrow> rat \<Rightarrow> string \<Rightarrow> string \<Rightarrow> performance list \<Rightarrow> gpm_row" where
  "gpm_row_of secs start node uuid ps =
     gpm_bucket_to_row secs (fold gpm_bucket_add ps (new_gpm_bucket start node uuid))"

lemma map_of_stems: "map_of (map (\<lambda>stem. (stem, f stem)) stems) stem = (if stem \<in> set stems then Some (f stem) else None)"
  by (induction stems) auto

lemma stat_of_gpm_row_of: "stem \<in> set ROLLUP_STEMS \<Longrightarrow> stat_of stem (gpm_row_of secs start node uuid ps) = stat_of_values (stem_values ps stem)"
  by (simp add: stat_of_def gpm_row_of_def gpm_bucket_to_row_def get_or_def map_of_stems stem_stat_of_fold)

lemma expected_gpm_row_of: "wr_expected_count (gpm_row_of secs start node uuid ps) = length (filter gpm_counted ps)"
  using gpm_bucket_folds[of ps "new_gpm_bucket start node uuid" stem]
  by (simp add: gpm_row_of_def gpm_bucket_to_row_def) (simp add: new_gpm_bucket_def)

text \<open>
  C28: the GPM rows hold true averages at every width: merging the rows of the parts gives, for each
  metric, the mean, the maximum and the number of all accepted readings of all parts, and no metric
  counts more readings than samples were expected, so a coverage never exceeds 100 percent.
\<close>

theorem gpm_rollups_exact:
  assumes "stem \<in> set ROLLUP_STEMS" "\<forall>ps \<in> set pss. \<forall>p \<in> set ps. dict_ok (f_metrics p)"
    "row = merged_gpm_row to_s start node uuid (map (\<lambda>ps. gpm_row_of from_s (first ps) node uuid ps) pss)"
  shows "stat_of stem row = stat_of_values (stem_values (concat pss) stem) \<and>
    wr_expected_count row = length (filter gpm_counted (concat pss)) \<and>
    sx_count (stat_of stem row) \<le> wr_expected_count row"
proof -
  let ?rows = "map (\<lambda>ps. gpm_row_of from_s (first ps) node uuid ps) pss"
  have "stat_of stem row = merged_stat ?rows stem"
    using assms(1) by (simp add: assms(3) stat_of_def merged_gpm_row_def get_or_def map_of_stems)
  also have "\<dots> = stat_of_values (concat (map (\<lambda>ps. stem_values ps stem) pss))"
    by (rule merged_stat_values) (simp add: stat_of_gpm_row_of[OF assms(1)])
  finally have s: "stat_of stem row = stat_of_values (stem_values (concat pss) stem)" by (simp add: stem_values_concat)
  have "wr_expected_count row = sum_list (map (\<lambda>ps. length (filter gpm_counted ps)) pss)"
    by (simp add: assms(3) merged_gpm_row_def expected_gpm_row_of o_def)
  also have "\<dots> = length (filter gpm_counted (concat pss))" by (induction pss) simp_all
  finally show ?thesis using s assms(2) by (auto intro!: stem_values_le_counted)
qed

theorem gpm_rollups_exact_witness:
  "sx_avg (stat_of ''sm_active'' (merged_gpm_row 120 0 ''n'' ''u'' (map (\<lambda>ps. gpm_row_of 20 0 ''n'' ''u'' ps)
      [[\<lparr>f_profile = NVIDIA_GPM_PROFILE, f_status = ''available'', f_sampled_at = 1, f_interval_ms = None,
         f_metrics = [(''nvidia.gpm.sm_active'', PFlt (Fin 10))], f_supported_metrics = [], f_error = None, f_invalid_metrics = []\<rparr>],
       []]))) = Some 10"
proof -
  let ?p = "\<lparr>f_profile = NVIDIA_GPM_PROFILE, f_status = ''available'', f_sampled_at = 1, f_interval_ms = None,
         f_metrics = [(''nvidia.gpm.sm_active'', PFlt (Fin 10))], f_supported_metrics = [], f_error = None, f_invalid_metrics = []\<rparr>"
  have v: "stem_values [?p] ''sm_active'' = [10]"
    by (simp add: stem_values_def gpm_items_def gpm_counted_def List.map_filter_simps stem_value_def
        NVIDIA_GPM_ROLLUP_METRICS_def gpm_rule_def py_endswith_def PERCENT_def default_rule_def float_of_def)
  then show ?thesis
    using gpm_rollups_exact[OF _ _ refl, of "''sm_active''" "[[?p], []]" 120 0 "''n''" "''u''" 20 "\<lambda>_. 0"]
    by (simp add: ROLLUP_STEMS_def NVIDIA_GPM_ROLLUP_METRICS_def dict_ok_def)
qed

end
