(* ===== verification/Database.thy ===== *)
theory Database
  imports Rollup ProcessFilter
begin

text \<open>
  \<open>packages/backend/src/constella/db.py\<close>, \<^verbatim>\<open>SQLiteStore\<close>: the tables, the statements that write a
  snapshot, the maintenance of sessions and rollups, and the queries.

  A table is a dictionary from its primary key to the other columns.  An upsert inserts or updates
  one row; a statement inside \<^verbatim>\<open>with con:\<close> either takes effect with all others of its block or, when one
  raises, not at all, so a block is a function into \<^typ>\<open>'a result\<close> and the caller keeps the old
  database on \<^const>\<open>Inl\<close>.  A parameter that sqlite3 cannot bind raises: a list, a dictionary, an integer
  beyond 64 bits; a NaN becomes NULL.  The rendering of a value stored in a column of another type
  (a number in a TEXT column) is not modelled, nor is the order of rows with equal keys in an
  ORDER BY, which SQLite leaves open and which is the order of insertion here.
\<close>

subsection \<open>Binding parameters\<close>

fun db_value :: "pyval \<Rightarrow> pyval result" where
  "db_value (PBool b) = Inr (PInt (if b then 1 else 0))"
| "db_value (PInt i) = (if - (2 ^ 63) \<le> i \<and> i < 2 ^ 63 then Inr (PInt i) else Inl OverflowError)"
| "db_value (PFlt f) = Inr (if f = NaN then PNone else PFlt f)"
| "db_value (PList xs) = Inl (DatabaseError ''type list is not supported'')"
| "db_value (PDict d) = Inl (DatabaseError ''type dict is not supported'')"
| "db_value v = Inr v"

definition db_int :: "int \<Rightarrow> int result" where
  "db_int i = (if - (2 ^ 63) \<le> i \<and> i < 2 ^ 63 then Inr i else Inl OverflowError)"

text \<open>\<^verbatim>\<open>COALESCE(new, old)\<close>.\<close>

definition coalesce :: "pyval \<Rightarrow> pyval \<Rightarrow> pyval" where
  "coalesce a b = (if a = PNone then b else a)"

subsection \<open>The tables\<close>

record node_row =
  nr_hostname :: string
  nr_display_name :: "string option"
  nr_first_seen_at :: rat
  nr_last_seen_at :: rat
  nr_agent_version :: pyval
  nr_status :: node_status

record gpu_row =
  gw_node_id :: string
  gw_uuid :: string
  gw_gpu_index :: int
  gw_pci_bus_id :: pyval
  gw_name :: string
  gw_device_type :: string
  gw_card_id :: "string option"
  gw_die_id :: "int option"
  gw_memory_total_mb :: rat
  gw_first_seen_at :: rat
  gw_last_seen_at :: rat

record metric_sample =
  ms_sampled_at :: rat
  ms_node_id :: string
  ms_gpu_uuid :: string
  ms_utilization_gpu :: rat
  ms_memory_used_mb :: int
  ms_power_watts :: rat
  ms_temperature_c :: int

datatype session_status = Running | Ended

fun status_text :: "session_status \<Rightarrow> string" where
  "status_text Running = ''running''"
| "status_text Ended = ''ended''"

record session_row =
  ss_node_id :: string
  ss_pid :: int
  ss_ppid :: pyval
  ss_process_start_time :: pyval
  ss_parent_start_time :: pyval
  ss_user :: pyval
  ss_user_uid :: pyval
  ss_task_name :: pyval
  ss_process_name :: string
  ss_exe :: pyval
  ss_cmdline_hash :: pyval
  ss_cmdline_text :: pyval
  ss_first_seen_at :: rat
  ss_last_seen_at :: rat
  ss_duration_seconds :: rat
  ss_status :: session_status
  ss_sample_count :: nat

record usage_row =
  us_node_id :: string
  us_first_seen_at :: rat
  us_last_seen_at :: rat
  us_max_memory_mb :: int
  us_avg_memory_mb :: rat
  us_last_memory_mb :: int
  us_sample_count :: nat

record database =
  db_nodes :: "(string, node_row) dict"
  db_gpus :: "(string, gpu_row) dict"
  db_metric_samples :: "metric_sample list"
  db_rollups :: "(rollup_key, rollup_row) dict"
  db_gpm_rollups :: "(rollup_key, gpm_row) dict"
  db_sessions :: "(string, session_row) dict"
  db_usages :: "(string \<times> string, usage_row) dict"
  db_raw :: "(rat \<times> string \<times> node_snapshot) list"

definition empty_db :: database where
  "empty_db = \<lparr>db_nodes = [], db_gpus = [], db_metric_samples = [], db_rollups = [], db_gpm_rollups = [],
     db_sessions = [], db_usages = [], db_raw = []\<rparr>"

text \<open>An upsert: insert the new row, or change the old one.\<close>

definition upsert :: "'k \<Rightarrow> 'r \<Rightarrow> ('r \<Rightarrow> 'r) \<Rightarrow> ('k, 'r) dict \<Rightarrow> ('k, 'r) dict" where
  "upsert k new change table =
     AList.update k (case map_of table k of None \<Rightarrow> new | Some old \<Rightarrow> change old) table"

lemma map_of_upsert: "map_of (upsert k new change table) k' =
    (if k' = k then Some (case map_of table k of None \<Rightarrow> new | Some old \<Rightarrow> change old) else map_of table k')"
  by (simp add: upsert_def map_of_update)

subsection \<open>Writing a snapshot\<close>

definition write_node :: "node_snapshot \<Rightarrow> database \<Rightarrow> database result" where
  "write_node s db =
     rbind (db_value (s_agent_version s)) (\<lambda>version.
       let new = \<lparr>nr_hostname = s_hostname s, nr_display_name = None, nr_first_seen_at = s_sampled_at s,
                  nr_last_seen_at = s_sampled_at s, nr_agent_version = version, nr_status = s_status s\<rparr>
       in Inr (db\<lparr>db_nodes := upsert (s_node_id s) new
            (\<lambda>old. new\<lparr>nr_display_name := nr_display_name old, nr_first_seen_at := nr_first_seen_at old\<rparr>) (db_nodes db)\<rparr>))"

definition stored_gpu_id :: "node_snapshot \<Rightarrow> gpu \<Rightarrow> string" where
  "stored_gpu_id s g = str_or (g_gpu_id g) (s_node_id s @ '':'' @ g_uuid g)"

definition write_gpu :: "node_snapshot \<Rightarrow> gpu \<Rightarrow> database \<Rightarrow> database result" where
  "write_gpu s g db =
     rbind (db_int (g_index g)) (\<lambda>index.
     rbind (db_value (g_pci_bus_id g)) (\<lambda>pci.
       let new = \<lparr>gw_node_id = s_node_id s, gw_uuid = g_uuid g, gw_gpu_index = index, gw_pci_bus_id = pci,
                  gw_name = g_name g, gw_device_type = g_device_type g, gw_card_id = g_card_id g,
                  gw_die_id = g_die_id g, gw_memory_total_mb = g_memory_total_mb g,
                  gw_first_seen_at = s_sampled_at s, gw_last_seen_at = s_sampled_at s\<rparr>
       in Inr (db\<lparr>db_gpus := upsert (stored_gpu_id s g) new
            (\<lambda>old. new\<lparr>gw_node_id := gw_node_id old, gw_uuid := gw_uuid old,
                       gw_first_seen_at := gw_first_seen_at old\<rparr>) (db_gpus db)\<rparr>)))"

text \<open>The row of a process, with its parameters bound in order.\<close>

definition session_task_name :: "gpu_process \<Rightarrow> pyval" where
  "session_task_name p = py_or (p_task_name p) (py_or (PStr (p_name p)) (PStr (''unknown:'' @ int_str (p_pid p))))"

definition session_row_of :: "node_snapshot \<Rightarrow> gpu_process \<Rightarrow> session_row result" where
  "session_row_of s p =
     rbind (db_int (p_pid p)) (\<lambda>pid.
     rbind (rmap db_value [p_ppid p, p_start_time p, p_parent_start_time p, p_user p, p_user_uid p,
                           session_task_name p, p_exe p, p_cmdline_hash p, p_cmdline p]) (\<lambda>vs.
       Inr \<lparr>ss_node_id = s_node_id s, ss_pid = pid, ss_ppid = vs ! 0, ss_process_start_time = vs ! 1,
            ss_parent_start_time = vs ! 2, ss_user = vs ! 3, ss_user_uid = vs ! 4, ss_task_name = vs ! 5,
            ss_process_name = p_name p, ss_exe = vs ! 6, ss_cmdline_hash = vs ! 7, ss_cmdline_text = vs ! 8,
            ss_first_seen_at = s_sampled_at s, ss_last_seen_at = s_sampled_at s, ss_duration_seconds = 0,
            ss_status = Running, ss_sample_count = 1\<rparr>))"

definition merge_session :: "session_row \<Rightarrow> session_row \<Rightarrow> session_row" where
  "merge_session new old = old\<lparr>
     ss_ppid := coalesce (ss_ppid new) (ss_ppid old),
     ss_parent_start_time := coalesce (ss_parent_start_time new) (ss_parent_start_time old),
     ss_user := coalesce (ss_user new) (ss_user old),
     ss_user_uid := coalesce (ss_user_uid new) (ss_user_uid old),
     ss_task_name := ss_task_name new,
     ss_process_name := ss_process_name new,
     ss_exe := coalesce (ss_exe new) (ss_exe old),
     ss_cmdline_hash := coalesce (ss_cmdline_hash new) (ss_cmdline_hash old),
     ss_cmdline_text := coalesce (ss_cmdline_text new) (ss_cmdline_text old),
     ss_last_seen_at := ss_last_seen_at new,
     ss_duration_seconds := ss_last_seen_at new - ss_first_seen_at old,
     ss_status := Running,
     ss_sample_count := ss_sample_count old + 1\<rparr>"

definition merge_usage :: "usage_row \<Rightarrow> usage_row \<Rightarrow> usage_row" where
  "merge_usage new old = old\<lparr>
     us_last_seen_at := us_last_seen_at new,
     us_max_memory_mb := max (us_max_memory_mb old) (us_last_memory_mb new),
     us_avg_memory_mb := (us_avg_memory_mb old * of_nat (us_sample_count old) + of_int (us_last_memory_mb new))
                         / of_nat (us_sample_count old + 1),
     us_last_memory_mb := us_last_memory_mb new,
     us_sample_count := us_sample_count old + 1\<rparr>"

definition usage_row_of :: "node_snapshot \<Rightarrow> gpu_process \<Rightarrow> usage_row result" where
  "usage_row_of s p =
     rbind (db_int (p_gpu_memory_mb p)) (\<lambda>mb.
       Inr \<lparr>us_node_id = s_node_id s, us_first_seen_at = s_sampled_at s, us_last_seen_at = s_sampled_at s,
            us_max_memory_mb = mb, us_avg_memory_mb = of_int mb, us_last_memory_mb = mb, us_sample_count = 1\<rparr>)"

definition write_process ::
    "node_snapshot \<Rightarrow> string \<Rightarrow> gpu_process \<Rightarrow> database \<times> string list \<Rightarrow> (database \<times> string list) result" where
  "write_process s gpu_uuid p st =
     (case st of (db, written_sessions) \<Rightarrow>
        let sid = process_session_id (s_node_id s) p
        in rbind (if sid \<in> set written_sessions then Inr (db, written_sessions)
                  else rbind (session_row_of s p) (\<lambda>new.
                    Inr (db\<lparr>db_sessions := upsert sid new (merge_session new) (db_sessions db)\<rparr>, sid # written_sessions)))
             (\<lambda>(db', written').
                rbind (usage_row_of s p) (\<lambda>new.
                  Inr (db'\<lparr>db_usages := upsert (sid, gpu_uuid) new (merge_usage new) (db_usages db')\<rparr>, written'))))"

text \<open>A loop whose body may raise.\<close>

fun rfold :: "('x \<Rightarrow> 's \<Rightarrow> 'e + 's) \<Rightarrow> 'x list \<Rightarrow> 's \<Rightarrow> 'e + 's" where
  "rfold f [] st = Inr st"
| "rfold f (x # xs) st = rbind (f x st) (rfold f xs)"

definition write_gpu_processes ::
    "node_snapshot \<Rightarrow> gpu \<Rightarrow> database \<times> string list \<Rightarrow> (database \<times> string list) result" where
  "write_gpu_processes s g st =
     rbind (write_gpu s g (fst st)) (\<lambda>db. rfold (write_process s (g_uuid g)) (g_processes g) (db, snd st))"

definition filtered_snapshot :: "node_snapshot \<Rightarrow> node_snapshot result" where
  "filtered_snapshot s =
     rbind (rmap filter_gpu_processes (s_gpus s)) (\<lambda>gpus.
       Inr (s\<lparr>s_gpus := gpus, s_totals := node_totals_from_gpus gpus\<rparr>))"

definition write_node_snapshot :: "node_snapshot \<Rightarrow> bool \<Rightarrow> database \<Rightarrow> database result" where
  "write_node_snapshot snapshot write_raw db =
     rbind (filtered_snapshot snapshot) (\<lambda>s.
     rbind (write_node s db) (\<lambda>db1.
     rbind (rfold (write_gpu_processes s) (s_gpus s) (db1, [])) (\<lambda>(db2, written).
       Inr (if write_raw then db2\<lparr>db_raw := db_raw db2 @ [(s_sampled_at s, s_node_id s, s)]\<rparr> else db2))))"

subsection \<open>Maintenance\<close>

definition stale_session :: "rat \<Rightarrow> session_row \<Rightarrow> bool" where
  "stale_session cutoff r \<longleftrightarrow> ss_status r = Running \<and> ss_last_seen_at r < cutoff"

definition end_session :: "session_row \<Rightarrow> session_row" where
  "end_session r = r\<lparr>ss_status := Ended, ss_duration_seconds := ss_last_seen_at r - ss_first_seen_at r\<rparr>"

definition close_stale_sessions :: "rat \<Rightarrow> rat \<Rightarrow> database \<Rightarrow> database \<times> nat" where
  "close_stale_sessions now stale_after_seconds db =
     (let cutoff = now - stale_after_seconds
      in (db\<lparr>db_sessions := map (\<lambda>kr. (fst kr, if stale_session cutoff (snd kr) then end_session (snd kr) else snd kr)) (db_sessions db)\<rparr>,
          length (filter (\<lambda>kr. stale_session cutoff (snd kr)) (db_sessions db))))"

definition legacy_row :: "int \<Rightarrow> bucket_key \<times> metric_sample list \<Rightarrow> rollup_row" where
  "legacy_row bucket_seconds g =
     (case g of ((start, node, uuid), rows) \<Rightarrow>
        \<lparr>rr_bucket_start = start, rr_bucket_seconds = bucket_seconds, rr_node_id = node, rr_gpu_uuid = uuid,
         rr_avg_gpu_utilization = mean ms_utilization_gpu rows,
         rr_max_gpu_utilization = column_max ms_utilization_gpu 0 rows,
         rr_avg_memory_used_mb = mean (\<lambda>r. of_int (ms_memory_used_mb r)) rows,
         rr_max_memory_used_mb = column_max ms_memory_used_mb 0 rows,
         rr_avg_power_watts = mean ms_power_watts rows,
         rr_max_power_watts = column_max ms_power_watts 0 rows,
         rr_avg_temperature_c = mean (\<lambda>r. of_int (ms_temperature_c r)) rows,
         rr_max_temperature_c = column_max ms_temperature_c 0 rows,
         rr_sample_count = length rows\<rparr>)"

definition rollup_legacy_gpu_metric_samples :: "int \<Rightarrow> database \<Rightarrow> database \<times> nat" where
  "rollup_legacy_gpu_metric_samples bucket_seconds db =
     (let rows = map (legacy_row bucket_seconds)
            (group_by (\<lambda>r. (target_start bucket_seconds (ms_sampled_at r), ms_node_id r, ms_gpu_uuid r)) (db_metric_samples db) [])
      in (db\<lparr>db_rollups := upsert_rows row_key rows (db_rollups db)\<rparr>, length rows))"

text \<open>\<^verbatim>\<open>DELETE FROM ... WHERE bucket_seconds = ? AND bucket_start < ?\<close> and its row count.\<close>

definition expired :: "int \<Rightarrow> rat \<Rightarrow> rollup_key \<Rightarrow> bool" where
  "expired bucket cutoff k = (case k of (start, secs, _) \<Rightarrow> secs = bucket \<and> start < cutoff)"

definition delete_where :: "('k \<Rightarrow> bool) \<Rightarrow> ('k, 'r) dict \<Rightarrow> ('k, 'r) dict \<times> nat" where
  "delete_where P table = (filter (\<lambda>kr. \<not> P (fst kr)) table, length (filter (\<lambda>kr. P (fst kr)) table))"

definition prune_bucket :: "rat \<Rightarrow> int \<Rightarrow> database \<times> nat \<Rightarrow> (database \<times> nat) result" where
  "prune_bucket now bucket st =
     (case map_of ROLLUP_RETENTION_SECONDS bucket of
        None \<Rightarrow> Inl KeyError
      | Some retention \<Rightarrow>
          let cutoff = now - of_int retention;
              (rollups, n) = delete_where (expired bucket cutoff) (db_rollups (fst st));
              (gpm, m) = delete_where (expired bucket cutoff) (db_gpm_rollups (fst st))
          in Inr ((fst st)\<lparr>db_rollups := rollups, db_gpm_rollups := gpm\<rparr>, snd st + n + m))"

definition prune_rollups :: "rat \<Rightarrow> int option \<Rightarrow> database \<Rightarrow> (database \<times> nat) result" where
  "prune_rollups now bucket_seconds db =
     rfold (prune_bucket now)
       (case bucket_seconds of Some b \<Rightarrow> [b] | None \<Rightarrow> map fst ROLLUP_RETENTION_SECONDS) (db, 0)"

definition RAW_SNAPSHOT_RETENTION_SECONDS :: int where "RAW_SNAPSHOT_RETENTION_SECONDS = 12 * 60 * 60"
definition SESSION_CLOSE_INTERVAL_SECONDS :: int where "SESSION_CLOSE_INTERVAL_SECONDS = 30 * 60"

definition prune_raw_snapshots :: "rat \<Rightarrow> rat \<Rightarrow> database \<Rightarrow> database \<times> nat" where
  "prune_raw_snapshots now retention_seconds db =
     (let old = (\<lambda>r. fst r < now - retention_seconds)
      in (db\<lparr>db_raw := filter (\<lambda>r. \<not> old r) (db_raw db)\<rparr>, length (filter old (db_raw db))))"

text \<open>The two merging statements, on the whole database.\<close>

definition db_rollup :: "int \<Rightarrow> int \<Rightarrow> rat \<Rightarrow> database \<Rightarrow> (database \<times> nat) result" where
  "db_rollup from_s to_s now db =
     rbind (rollup_gpu_metric_rollups from_s to_s now (db_rollups db)) (\<lambda>(t, n). Inr (db\<lparr>db_rollups := t\<rparr>, n))"

definition db_gpm_rollup :: "int \<Rightarrow> int \<Rightarrow> rat \<Rightarrow> database \<Rightarrow> (database \<times> nat) result" where
  "db_gpm_rollup from_s to_s now db =
     rbind (rollup_nvidia_gpm_rollups from_s to_s now (db_gpm_rollups db)) (\<lambda>(t, n). Inr (db\<lparr>db_gpm_rollups := t\<rparr>, n))"

record maintenance_report =
  mr_closed_sessions :: nat
  mr_rollups_2m :: nat
  mr_rollups_1h :: nat
  mr_gpm_rollups_2m :: nat
  mr_gpm_rollups_1h :: nat
  mr_pruned_rollups :: nat
  mr_pruned_raw_snapshots :: nat

definition maintain :: "rat \<Rightarrow> rat \<Rightarrow> rat \<Rightarrow> database \<Rightarrow> (database \<times> maintenance_report) result" where
  "maintain now stale_session_seconds raw_retention_seconds db =
     (let (db1, n1) = close_stale_sessions now stale_session_seconds db
      in rbind (db_rollup ROLLUP_20S ROLLUP_2M now db1) (\<lambda>(db2, n2).
         rbind (db_rollup ROLLUP_2M ROLLUP_1H now db2) (\<lambda>(db3, n3).
         rbind (db_gpm_rollup ROLLUP_20S ROLLUP_2M now db3) (\<lambda>(db4, n4).
         rbind (db_gpm_rollup ROLLUP_2M ROLLUP_1H now db4) (\<lambda>(db5, n5).
         rbind (prune_rollups now None db5) (\<lambda>(db6, n6).
           let (db7, n7) = prune_raw_snapshots now raw_retention_seconds db6
           in Inr (db7, \<lparr>mr_closed_sessions = n1, mr_rollups_2m = n2, mr_rollups_1h = n3, mr_gpm_rollups_2m = n4,
                        mr_gpm_rollups_1h = n5, mr_pruned_rollups = n6, mr_pruned_raw_snapshots = n7\<rparr>)))))))"

subsection \<open>Queries\<close>

text \<open>\<^verbatim>\<open>LIMIT n\<close>: a negative limit is none.\<close>

definition sql_limit :: "int \<Rightarrow> 'a list \<Rightarrow> 'a list" where
  "sql_limit n xs = (if n < 0 then xs else take (nat n) xs)"

definition select_history_bucket :: "rat \<Rightarrow> rat option \<Rightarrow> rat option \<Rightarrow> int" where
  "select_history_bucket time since until =
     (case since of
        None \<Rightarrow> ROLLUP_20S
      | Some t \<Rightarrow>
          let span = max 0 ((case until of None \<Rightarrow> time | Some u \<Rightarrow> u) - t)
          in if span \<le> of_int (get_or ROLLUP_RETENTION_SECONDS ROLLUP_20S 0) then ROLLUP_20S
             else if span \<le> of_int (get_or ROLLUP_RETENTION_SECONDS ROLLUP_2M 0) then ROLLUP_2M
             else ROLLUP_1H)"

definition normalize_history_bucket :: "int \<Rightarrow> int result" where
  "normalize_history_bucket bucket =
     (if has_key ROLLUP_RETENTION_SECONDS bucket then Inr bucket
      else Inl (ValueError (''unsupported history bucket: '' @ int_str bucket)))"

definition history_bucket :: "rat \<Rightarrow> rat option \<Rightarrow> rat option \<Rightarrow> int option \<Rightarrow> int result" where
  "history_bucket time since until bucket_seconds =
     (case bucket_seconds of None \<Rightarrow> Inr (select_history_bucket time since until) | Some b \<Rightarrow> normalize_history_bucket b)"

definition opt_holds :: "('a \<Rightarrow> bool) \<Rightarrow> 'a option \<Rightarrow> bool" where
  "opt_holds P v = (case v of None \<Rightarrow> True | Some x \<Rightarrow> P x)"

text \<open>The WHERE clause of \<^verbatim>\<open>_rollup_filters\<close>: empty strings filter nothing.\<close>

definition rollup_filters ::
    "string option \<Rightarrow> string option \<Rightarrow> rat option \<Rightarrow> rat option \<Rightarrow> int \<Rightarrow> rollup_row \<Rightarrow> bool" where
  "rollup_filters node_id gpu_uuid since until bucket_seconds r =
     (rr_bucket_seconds r = bucket_seconds \<and>
      opt_holds (\<lambda>n. n = [] \<or> rr_node_id r = n) node_id \<and> opt_holds (\<lambda>u. u = [] \<or> rr_gpu_uuid r = u) gpu_uuid \<and>
      opt_holds (\<lambda>t. t \<le> rr_bucket_start r) since \<and> opt_holds (\<lambda>t. rr_bucket_start r \<le> t) until)"

definition query_gpu_history ::
    "rat \<Rightarrow> string option \<Rightarrow> string option \<Rightarrow> rat option \<Rightarrow> rat option \<Rightarrow> int option \<Rightarrow> int \<Rightarrow> database \<Rightarrow> rollup_row list result" where
  "query_gpu_history time node_id gpu_uuid since until bucket_seconds limit db =
     rbind (history_bucket time since until bucket_seconds) (\<lambda>b.
       Inr (sql_limit limit (sort_key rr_bucket_start
         (filter (rollup_filters node_id gpu_uuid since until b) (values_of (db_rollups db))))))"

record gpm_history_value =
  gh_avg :: "rat option"
  gh_max :: "rat option"
  gh_valid_count :: nat
  gh_coverage :: rat

record gpm_history_row =
  gh_bucket_start :: rat
  gh_bucket_seconds :: int
  gh_node_id :: string
  gh_gpu_uuid :: string
  gh_expected_count :: nat
  gh_metrics :: "(string, gpm_history_value) dict"

definition nvidia_gpm_history_row :: "string list \<Rightarrow> gpm_row \<Rightarrow> gpm_history_row" where
  "nvidia_gpm_history_row metrics r =
     (let expected = wr_expected_count r;
          value = (\<lambda>metric. let st = stat_of (get_or NVIDIA_GPM_ROLLUP_METRICS metric []) r
             in \<lparr>gh_avg = sx_avg st, gh_max = sx_max st, gh_valid_count = sx_count st,
                 gh_coverage = (if expected \<noteq> 0 then pyround 2 (of_nat (sx_count st) / of_nat expected * 100) else 0)\<rparr>)
      in \<lparr>gh_bucket_start = wr_bucket_start r, gh_bucket_seconds = wr_bucket_seconds r, gh_node_id = wr_node_id r,
          gh_gpu_uuid = wr_gpu_uuid r, gh_expected_count = expected,
          gh_metrics = fold (\<lambda>m. AList.update m (value m)) metrics []\<rparr>)"

definition query_nvidia_gpm_history ::
    "rat \<Rightarrow> string \<Rightarrow> string \<Rightarrow> rat option \<Rightarrow> rat option \<Rightarrow> int option \<Rightarrow> string list option \<Rightarrow> int \<Rightarrow> database
      \<Rightarrow> gpm_history_row list result" where
  "query_nvidia_gpm_history time node_id gpu_uuid since until bucket_seconds metrics limit db =
     rbind (history_bucket time since until bucket_seconds) (\<lambda>b.
       let selected = filter (has_key NVIDIA_GPM_ROLLUP_METRICS)
             (case metrics of None \<Rightarrow> map fst NVIDIA_GPM_ROLLUP_METRICS
              | Some ms \<Rightarrow> if ms = [] then map fst NVIDIA_GPM_ROLLUP_METRICS else ms);
           match = (\<lambda>r. wr_node_id r = node_id \<and> wr_gpu_uuid r = gpu_uuid \<and> wr_bucket_seconds r = b \<and>
             opt_holds (\<lambda>t. t \<le> wr_bucket_start r) since \<and> opt_holds (\<lambda>t. wr_bucket_start r \<le> t) until)
       in if selected = [] then Inr []
          else Inr (map (nvidia_gpm_history_row selected)
                 (sql_limit (max 1 (min limit 20000)) (sort_key wr_bucket_start (filter match (values_of (db_gpm_rollups db)))))))"

definition query_tasks :: "string option \<Rightarrow> string option \<Rightarrow> int \<Rightarrow> database \<Rightarrow> (string \<times> session_row) list" where
  "query_tasks user status limit db =
     sql_limit limit (sort_desc (\<lambda>kr. ss_last_seen_at (snd kr))
       (filter (\<lambda>kr. opt_holds (\<lambda>u. u = [] \<or> ss_user (snd kr) = PStr u) user \<and>
                     opt_holds (\<lambda>st. st = [] \<or> status_text (ss_status (snd kr)) = st) status) (db_sessions db)))"

record user_summary =
  su_user :: pyval
  su_task_count :: nat
  su_total_duration_seconds :: rat
  su_last_seen_at :: rat

definition user_summary_of :: "pyval \<times> session_row list \<Rightarrow> user_summary" where
  "user_summary_of g =
     \<lparr>su_user = fst g, su_task_count = length (snd g),
      su_total_duration_seconds = sum_list (map ss_duration_seconds (snd g)),
      su_last_seen_at = column_max ss_last_seen_at 0 (snd g)\<rparr>"

definition query_users :: "database \<Rightarrow> user_summary list" where
  "query_users db =
     sort_desc su_last_seen_at (map user_summary_of
       (group_by ss_user (filter (\<lambda>r. ss_user r \<noteq> PNone) (values_of (db_sessions db))) []))"

subsection \<open>Sessions\<close>

text \<open>The sessions a snapshot mentions, and what it does to the row of one of them.\<close>

definition seen_sessions :: "node_snapshot \<Rightarrow> string list" where
  "seen_sessions s = concat (map (\<lambda>g. map (process_session_id (s_node_id s)) (g_processes g)) (s_gpus s))"

definition session_after :: "node_snapshot \<Rightarrow> session_row option \<Rightarrow> session_row \<Rightarrow> bool" where
  "session_after s old r \<longleftrightarrow>
     ss_status r = Running \<and> ss_last_seen_at r = s_sampled_at s \<and>
     (case old of
        None \<Rightarrow> ss_first_seen_at r = s_sampled_at s \<and> ss_sample_count r = 1 \<and> ss_duration_seconds r = 0
      | Some ro \<Rightarrow> ss_first_seen_at r = ss_first_seen_at ro \<and> ss_sample_count r = ss_sample_count ro + 1 \<and>
          ss_duration_seconds r = s_sampled_at s - ss_first_seen_at ro \<and>
          ss_node_id r = ss_node_id ro \<and> (ss_user ro \<noteq> PNone \<longrightarrow> ss_user r \<noteq> PNone))"

lemma rfold_invariant:
  assumes "rfold f xs st = Inr st'" "P [] st"
    "\<And>x ys st st'. x \<in> set xs \<Longrightarrow> P ys st \<Longrightarrow> f x st = Inr st' \<Longrightarrow> P (ys @ [x]) st'"
  shows "P xs st'"
proof -
  have "P (ys @ xs) st'" if "rfold f xs st = Inr st'" "P ys st" "set xs \<subseteq> X"
    "\<And>x ys st st'. x \<in> X \<Longrightarrow> P ys st \<Longrightarrow> f x st = Inr st' \<Longrightarrow> P (ys @ [x]) st'" for ys st X
    using that
  proof (induction xs arbitrary: ys st)
    case (Cons x xs)
    from Cons.prems(1) obtain st1 where st1: "f x st = Inr st1" "rfold f xs st1 = Inr st'"
      by (auto simp: rbind_Inr_iff)
    have "P (ys @ [x]) st1" using Cons.prems(2,3) st1(1) by (intro Cons.prems(4)) auto
    from Cons.IH[OF st1(2) this] Cons.prems(3,4) show ?case by simp
  qed simp
  from this[OF assms(1,2) subset_refl assms(3)] show ?thesis by simp
qed

lemma session_row_of_shape:
  "session_row_of s p = Inr r \<Longrightarrow> ss_status r = Running \<and> ss_last_seen_at r = s_sampled_at s \<and>
     ss_first_seen_at r = s_sampled_at s \<and> ss_sample_count r = 1 \<and> ss_duration_seconds r = 0 \<and> ss_node_id r = s_node_id s"
  by (auto simp: session_row_of_def rbind_Inr_iff)

lemma merged_session_after:
  "session_row_of s p = Inr r \<Longrightarrow> session_after s (Some ro) (merge_session r ro)"
  using session_row_of_shape[of s p r] by (simp add: session_after_def merge_session_def coalesce_def)

text \<open>The invariant of the loop over processes: exactly the sessions written so far were touched.\<close>

definition sessions_written :: "node_snapshot \<Rightarrow> database \<Rightarrow> string list \<Rightarrow> database \<times> string list \<Rightarrow> bool" where
  "sessions_written s db0 sids st \<longleftrightarrow>
     set (snd st) = set sids \<and>
     (\<forall>sid \<in> set sids. \<exists>r. map_of (db_sessions (fst st)) sid = Some r \<and> session_after s (map_of (db_sessions db0) sid) r) \<and>
     (\<forall>sid. sid \<notin> set sids \<longrightarrow> map_of (db_sessions (fst st)) sid = map_of (db_sessions db0) sid)"

lemma write_process_sessions:
  assumes "sessions_written s db0 sids st" "write_process s uuid p st = Inr st'"
  shows "sessions_written s db0 (sids @ [process_session_id (s_node_id s) p]) st'"
proof -
  obtain db w where st: "st = (db, w)" by (cases st)
  let ?sid = "process_session_id (s_node_id s) p"
  have w: "set w = set sids" using assms(1) by (simp add: sessions_written_def st)
  from assms(2) obtain db1 w1 u where
    s1: "(if ?sid \<in> set w then Inr (db, w)
          else rbind (session_row_of s p) (\<lambda>new.
            Inr (db\<lparr>db_sessions := upsert ?sid new (merge_session new) (db_sessions db)\<rparr>, ?sid # w))) = Inr (db1, w1)"
    and st': "st' = (db1\<lparr>db_usages := u\<rparr>, w1)"
    by (auto simp: write_process_def st Let_def rbind_Inr_iff)
  show ?thesis
  proof (cases "?sid \<in> set w")
    case True
    then have "db1 = db" "w1 = w" using s1 by simp_all
    then show ?thesis using assms(1) True w by (auto simp: sessions_written_def st st' split: if_splits)
  next
    case False
    then obtain new where new: "session_row_of s p = Inr new"
      and d: "db1 = db\<lparr>db_sessions := upsert ?sid new (merge_session new) (db_sessions db)\<rparr>" "w1 = ?sid # w"
      using s1 by (auto simp: rbind_Inr_iff)
    have old: "map_of (db_sessions db) ?sid = map_of (db_sessions db0) ?sid"
      using assms(1) False w by (auto simp: sessions_written_def st)
    have "session_after s (map_of (db_sessions db0) ?sid)
        (case map_of (db_sessions db) ?sid of None \<Rightarrow> new | Some r \<Rightarrow> merge_session new r)"
      unfolding old using session_row_of_shape[OF new] merged_session_after[OF new]
      by (cases "map_of (db_sessions db0) ?sid") (simp_all add: session_after_def)
    then show ?thesis
      using assms(1) w by (simp add: sessions_written_def st st' d map_of_upsert)
  qed
qed

lemma write_gpu_sessions: "write_gpu s g db = Inr db' \<Longrightarrow> db_sessions db' = db_sessions db"
  by (auto simp: write_gpu_def rbind_Inr_iff Let_def)

lemma write_node_sessions: "write_node s db = Inr db' \<Longrightarrow> db_sessions db' = db_sessions db"
  by (auto simp: write_node_def rbind_Inr_iff Let_def)

lemma write_gpu_processes_sessions:
  assumes "sessions_written s db0 sids st" "write_gpu_processes s g st = Inr st'"
  shows "sessions_written s db0 (sids @ map (process_session_id (s_node_id s)) (g_processes g)) st'"
proof -
  from assms(2) obtain db where db: "write_gpu s g (fst st) = Inr db"
    and r: "rfold (write_process s (g_uuid g)) (g_processes g) (db, snd st) = Inr st'"
    by (auto simp: write_gpu_processes_def rbind_Inr_iff)
  have start: "sessions_written s db0 sids (db, snd st)"
    using assms(1) write_gpu_sessions[OF db] by (simp add: sessions_written_def)
  show ?thesis
  proof (rule rfold_invariant[OF r, where P = "\<lambda>ps. sessions_written s db0 (sids @ map (process_session_id (s_node_id s)) ps)"])
    fix p ps sa sb
    assume "sessions_written s db0 (sids @ map (process_session_id (s_node_id s)) ps) sa" "write_process s (g_uuid g) p sa = Inr sb"
    then show "sessions_written s db0 (sids @ map (process_session_id (s_node_id s)) (ps @ [p])) sb"
      using write_process_sessions by fastforce
  qed (simp add: start)
qed

text \<open>
  Writing a snapshot extends each process session it mentions by exactly one sample, on however
  many accelerators the process runs: the first sighting is kept, the duration reaches from it to the
  sample, a known user is never forgotten, and every other session stays as it was.
\<close>

theorem write_snapshot_sessions:
  assumes "write_node_snapshot snapshot write_raw db = Inr db'" "filtered_snapshot snapshot = Inr s"
  shows "(\<forall>sid \<in> set (seen_sessions s). \<exists>r. map_of (db_sessions db') sid = Some r \<and>
      session_after s (map_of (db_sessions db) sid) r) \<and>
    (\<forall>sid. sid \<notin> set (seen_sessions s) \<longrightarrow> map_of (db_sessions db') sid = map_of (db_sessions db) sid)"
proof -
  from assms obtain db1 st2 where db1: "write_node s db = Inr db1"
    and r: "rfold (write_gpu_processes s) (s_gpus s) (db1, []) = Inr st2" and d: "db_sessions db' = db_sessions (fst st2)"
    by (auto simp: write_node_snapshot_def rbind_Inr_iff)
  have start: "sessions_written s db [] (db1, [])" using write_node_sessions[OF db1] by (simp add: sessions_written_def)
  let ?sids = "\<lambda>gs :: gpu list. concat (map (\<lambda>g. map (process_session_id (s_node_id s)) (g_processes g)) gs)"
  have "sessions_written s db (?sids (s_gpus s)) st2"
  proof (rule rfold_invariant[OF r, where P = "\<lambda>gs. sessions_written s db (?sids gs)"])
    fix g gs sa sb
    assume "sessions_written s db (?sids gs) sa" "write_gpu_processes s g sa = Inr sb"
    then show "sessions_written s db (?sids (gs @ [g])) sb" using write_gpu_processes_sessions by fastforce
  qed (simp add: start)
  then show ?thesis by (simp add: sessions_written_def seen_sessions_def d)
qed

definition sample_process :: "int \<Rightarrow> string \<Rightarrow> int \<Rightarrow> gpu_process" where
  "sample_process pid user mb =
     \<lparr>p_pid = pid, p_name = ''python'', p_gpu_memory_mb = mb, p_ppid = PNone, p_user = PStr user, p_task_name = PStr ''train'',
      p_exe = PNone, p_cmdline = PNone, p_cmdline_hash = PNone, p_kind = ''compute'', p_runtime_seconds = PNone,
      p_start_time = PNone, p_parent_start_time = PNone, p_detail_status = ''ok'', p_detail_error = PNone, p_user_uid = PNone\<rparr>"

definition shared_process_node :: node_snapshot where
  "shared_process_node = sample_node ''n'' Online
     [(sample_gpu 0 1 2)\<lparr>g_processes := [sample_process 7 ''ann'' 100]\<rparr>,
      (sample_gpu 1 1 2)\<lparr>g_processes := [sample_process 7 ''ann'' 300]\<rparr>]"

lemma shared_process_filtered:
  "filtered_snapshot shared_process_node = Inr (shared_process_node\<lparr>s_totals := node_totals_from_gpus (s_gpus shared_process_node)\<rparr>)"
  by (simp add: filtered_snapshot_def shared_process_node_def sample_node_def filter_gpu_processes_def sample_process_def
      is_excluded_process_def EXCLUDED_USERS_def EXCLUDED_PROCESS_NAMES_def path_name_def sample_gpu_def blank_gpu_def)

theorem write_snapshot_sessions_witness:
  "\<exists>db' r. write_node_snapshot shared_process_node False empty_db = Inr db' \<and>
    map_of (db_sessions db') (process_session_id ''n'' (sample_process 7 ''ann'' 100)) = Some r \<and> ss_sample_count r = 1"
proof -
  let ?s = "shared_process_node\<lparr>s_totals := node_totals_from_gpus (s_gpus shared_process_node)\<rparr>"
  have "is_ok (write_node_snapshot shared_process_node False empty_db)"
    by (simp add: write_node_snapshot_def shared_process_filtered write_node_def Let_def)
       (simp add: shared_process_node_def sample_node_def write_gpu_processes_def write_gpu_def sample_gpu_def blank_gpu_def
         db_int_def Let_def write_process_def session_row_of_def sample_process_def session_task_name_def py_or_def
         process_session_id_def usage_row_of_def empty_db_def)
  then obtain db' where db': "write_node_snapshot shared_process_node False empty_db = Inr db'" by (auto simp: is_ok_iff)
  have "process_session_id ''n'' (sample_process 7 ''ann'' 100) \<in> set (seen_sessions ?s)"
    by (simp add: seen_sessions_def shared_process_node_def sample_node_def sample_process_def)
  with write_snapshot_sessions[OF db' shared_process_filtered] obtain r
    where "map_of (db_sessions db') (process_session_id ''n'' (sample_process 7 ''ann'' 100)) = Some r"
      "session_after ?s (map_of (db_sessions empty_db) (process_session_id ''n'' (sample_process 7 ''ann'' 100))) r"
    by blast
  then show ?thesis using db' by (auto simp: session_after_def empty_db_def)
qed

subsection \<open>Usage of an accelerator by a session\<close>

definition add_usage :: "rat \<times> int \<Rightarrow> usage_row \<Rightarrow> usage_row" where
  "add_usage tm old = merge_usage
     \<lparr>us_node_id = us_node_id old, us_first_seen_at = fst tm, us_last_seen_at = fst tm, us_max_memory_mb = snd tm,
      us_avg_memory_mb = of_int (snd tm), us_last_memory_mb = snd tm, us_sample_count = 1\<rparr> old"

definition usage_total :: "usage_row \<Rightarrow> rat" where
  "usage_total u = us_avg_memory_mb u * of_nat (us_sample_count u)"

interpretation usage_stat: running_stat add_usage usage_total us_max_memory_mb us_sample_count
    "\<lambda>tm. Some (of_int (snd tm))" "\<lambda>m v. max m (trunc v)"
  by unfold_locales (auto simp: add_usage_def merge_usage_def usage_total_def simp del: of_nat_Suc)

text \<open>
  The memory statistics of a session on an accelerator are exact: after any samples the stored
  average is the mean of all of them, and the maximum, the count, the first and the last sighting
  are theirs.
\<close>

theorem usage_average_exact:
  fixes samples :: "(rat \<times> int) list"
  assumes "u = fold add_usage samples \<lparr>us_node_id = node, us_first_seen_at = t0, us_last_seen_at = t0,
     us_max_memory_mb = m0, us_avg_memory_mb = of_int m0, us_last_memory_mb = m0, us_sample_count = 1\<rparr>"
  shows "us_avg_memory_mb u = mean (\<lambda>tm. of_int (snd tm)) ((t0, m0) # samples) \<and>
    us_max_memory_mb u = Max (snd ` set ((t0, m0) # samples)) \<and>
    us_sample_count u = length samples + 1 \<and> us_first_seen_at u = t0 \<and>
    us_last_seen_at u = fst (last ((t0, m0) # samples)) \<and> us_last_memory_mb u = snd (last ((t0, m0) # samples))"
proof -
  let ?u0 = "\<lparr>us_node_id = node, us_first_seen_at = t0, us_last_seen_at = t0,
     us_max_memory_mb = m0, us_avg_memory_mb = of_int m0, us_last_memory_mb = m0, us_sample_count = 1\<rparr>"
  note f = usage_stat.fold_stat[of samples ?u0, folded assms]
  have c: "us_sample_count u = length samples + 1" using f by simp
  have "us_avg_memory_mb u * of_nat (length samples + 1) = of_int m0 + sum_list (map (\<lambda>tm. of_int (snd tm)) samples)"
    using f c by (simp add: usage_total_def del: of_nat_Suc)
  then have a: "us_avg_memory_mb u = mean (\<lambda>tm. of_int (snd tm)) ((t0, m0) # samples)"
    by (simp add: mean_def eq_divide_eq del: of_nat_Suc)
  have m: "us_max_memory_mb u = Max (snd ` set ((t0, m0) # samples))"
    using f by (simp add: peak_of_map peak_of_Max)
  have "us_first_seen_at (fold add_usage xs v) = us_first_seen_at v \<and>
      us_last_seen_at (fold add_usage xs v) = (if xs = [] then us_last_seen_at v else fst (last xs)) \<and>
      us_last_memory_mb (fold add_usage xs v) = (if xs = [] then us_last_memory_mb v else snd (last xs))" for xs v
    by (induction xs arbitrary: v) (auto simp: add_usage_def merge_usage_def)
  from this[of samples ?u0] show ?thesis using a m c by (simp add: assms)
qed

theorem usage_average_exact_witness:
  "us_avg_memory_mb (fold add_usage [(1, 10), (2, 60)] \<lparr>us_node_id = ''n'', us_first_seen_at = 0, us_last_seen_at = 0,
     us_max_memory_mb = 20, us_avg_memory_mb = of_int 20, us_last_memory_mb = 20, us_sample_count = 1\<rparr>) = 30"
  using usage_average_exact[OF refl, of "[(1, 10), (2, 60)]" "''n''" 0 20] by (simp add: mean_def)

subsection \<open>Ending sessions\<close>

text \<open>
  Closing stale sessions ends exactly the running sessions last seen before the cutoff, with the
  duration between their first and last sighting, leaves no such session behind, and doing it again
  changes nothing.
\<close>

theorem close_stale_sessions_exact:
  "map_of (db_sessions (fst (close_stale_sessions now stale_after db))) sid =
     map_option (\<lambda>r. if ss_status r = Running \<and> ss_last_seen_at r < now - stale_after
        then r\<lparr>ss_status := Ended, ss_duration_seconds := ss_last_seen_at r - ss_first_seen_at r\<rparr> else r)
       (map_of (db_sessions db) sid) \<and>
   list_all (\<lambda>kr. \<not> stale_session (now - stale_after) (snd kr)) (db_sessions (fst (close_stale_sessions now stale_after db))) \<and>
   close_stale_sessions now stale_after (fst (close_stale_sessions now stale_after db)) =
     (fst (close_stale_sessions now stale_after db), 0)"
proof -
  have e: "\<not> stale_session c (end_session r)" for c r by (simp add: stale_session_def end_session_def)
  show ?thesis
    by (simp add: close_stale_sessions_def Let_def o_def e map_of_map_values[of "\<lambda>_ r. if stale_session c r then end_session r else r" for c]
        filter_map list_all_iff)
       (simp add: stale_session_def end_session_def cong: if_cong)
qed

subsection \<open>Pruning before merging loses samples\<close>

definition plain_row :: "int \<Rightarrow> rat \<Rightarrow> rat \<Rightarrow> nat \<Rightarrow> rollup_row" where
  "plain_row secs start util n =
     \<lparr>rr_bucket_start = start, rr_bucket_seconds = secs, rr_node_id = ''n'', rr_gpu_uuid = ''u'',
      rr_avg_gpu_utilization = util, rr_max_gpu_utilization = util, rr_avg_memory_used_mb = 0, rr_max_memory_used_mb = 0,
      rr_avg_power_watts = 0, rr_max_power_watts = 0, rr_avg_temperature_c = 0, rr_max_temperature_c = 0, rr_sample_count = n\<rparr>"

definition aging_db :: database where
  "aging_db = empty_db\<lparr>db_rollups := map (\<lambda>r. (row_key r, r)) [plain_row 20 0 100 6, plain_row 20 100 0 6]\<rparr>"

definition two_minute_row :: "database \<Rightarrow> (rat \<times> nat) option" where
  "two_minute_row db = map_option (\<lambda>r. (rr_avg_gpu_utilization r, rr_sample_count r)) (map_of (db_rollups db) (0, 120, ''n'', ''u''))"

text \<open>
  A two-minute row that was complete loses samples with age: when the retention of the 20-second
  rows ends inside its bucket, pruning removes some of its sources and the next merge overwrites it
  with what is left, here a mean of 0 over 6 samples instead of 50 over 12.
\<close>

theorem prune_then_rollup_loses_samples:
  "rbind (db_rollup 20 120 300 aging_db) (\<lambda>(db1, n1).
   rbind (prune_rollups 604860 None db1) (\<lambda>(db2, n2).
   rbind (db_rollup 20 120 604860 db2) (\<lambda>(db3, n3). Inr (two_minute_row db1, two_minute_row db3)))) =
   (Inr (Some (50, 12), Some (0, 6)) :: ((rat \<times> nat) option \<times> (rat \<times> nat) option) result)"
  by code_simp

subsection \<open>Queries\<close>

lemma set_sql_limit: "set (sql_limit n xs) \<subseteq> set xs"
  by (simp add: sql_limit_def set_take_subset)

lemma sorted_sql_limit: "sorted (map f xs) \<Longrightarrow> sorted (map f (sql_limit n xs))"
  by (simp add: sql_limit_def sorted_wrt_take flip: take_map)

lemma sql_limit_all: "int (length xs) \<le> n \<or> n < 0 \<Longrightarrow> sql_limit n xs = xs"
  by (auto simp: sql_limit_def)

text \<open>
  A history query answers from the finest width whose retention covers the span that was asked
  for, in the order of time, only with rows that match the filters, and with all of them when the
  limit allows it; an unknown width is an error.
\<close>

theorem query_gpu_history_exact:
  assumes "query_gpu_history time node_id gpu_uuid since until bucket_seconds limit db = Inr rows"
  shows "\<exists>b. history_bucket time since until bucket_seconds = Inr b \<and> has_key ROLLUP_RETENTION_SECONDS b \<and>
    sorted (map rr_bucket_start rows) \<and>
    set rows \<subseteq> {r \<in> set (values_of (db_rollups db)). rollup_filters node_id gpu_uuid since until b r} \<and>
    (limit < 0 \<or> int (length (filter (rollup_filters node_id gpu_uuid since until b) (values_of (db_rollups db)))) \<le> limit \<longrightarrow>
      mset rows = mset (filter (rollup_filters node_id gpu_uuid since until b) (values_of (db_rollups db))))"
proof -
  from assms obtain b where b: "history_bucket time since until bucket_seconds = Inr b"
    and rows: "rows = sql_limit limit (sort_key rr_bucket_start
         (filter (rollup_filters node_id gpu_uuid since until b) (values_of (db_rollups db))))"
    by (auto simp: query_gpu_history_def rbind_Inr_iff)
  have "has_key ROLLUP_RETENTION_SECONDS b"
    using b by (auto simp: history_bucket_def select_history_bucket_def normalize_history_bucket_def Let_def
        split: option.splits if_splits) (simp_all add: rollup_consts has_key_def)
  moreover have "sorted (map rr_bucket_start rows)" unfolding rows by (rule sorted_sql_limit) simp
  moreover have "set rows \<subseteq> {r \<in> set (values_of (db_rollups db)). rollup_filters node_id gpu_uuid since until b r}"
    unfolding rows using set_sql_limit by fastforce
  ultimately show ?thesis using b by (auto simp: rows sql_limit_all)
qed

theorem query_gpu_history_exact_witness:
  "\<exists>rows. query_gpu_history 700 None None (Some 0) None None 10 aging_db = Inr rows \<and> sorted (map rr_bucket_start rows)"
proof -
  have "is_ok (query_gpu_history 700 None None (Some 0) None None 10 aging_db)"
    by (simp add: query_gpu_history_def history_bucket_def)
  then obtain rows where "query_gpu_history 700 None None (Some 0) None None 10 aging_db = Inr rows" by (auto simp: is_ok_iff)
  then show ?thesis using query_gpu_history_exact by blast
qed

end
