(* ===== verification/DbSink.thy ===== *)
theory DbSink
  imports Database
begin

text \<open>
  \<open>packages/backend/src/constella/db.py\<close>, \<^verbatim>\<open>AsyncDBSink\<close>: the bounded queue of snapshots, the 20-second
  buckets in memory, the worker that writes and maintains, its error accounting and its backoff.

  The clocks are arguments, one reading per operation.  A statement of the store may fail for reasons
  outside the program (a full disk, a locked file): \<^verbatim>\<open>faults\<close> names the store methods that raise, and with
  what.  An operation that raises half-way keeps the changes made before, so it returns the new state
  together with the exception.
\<close>

type_synonym faults = "string \<Rightarrow> pyexc option"

record db_sink =
  sk_db :: database
  sk_queue :: "(node_snapshot \<times> bool) list"
  sk_queue_size :: nat
  sk_raw_snapshot_interval :: rat
  sk_last_raw_at :: rat
  sk_maintenance_retry_at :: rat
  sk_maintenance_failures :: nat
  sk_last_20s_flush_at :: rat
  sk_last_2m_rollup_at :: rat
  sk_last_1h_rollup_at :: rat
  sk_last_prune_at :: rat
  sk_last_session_close_at :: rat
  sk_rollup_20s :: "(bucket_key, rollup_bucket) dict"
  sk_gpm_rollup_20s :: "(bucket_key, gpm_bucket) dict"
  sk_performance_rollups_enabled :: bool
  sk_dropped_samples :: nat
  sk_write_errors :: nat
  sk_consecutive_errors :: nat
  sk_last_success_at :: "rat option"
  sk_last_write_at :: "rat option"
  sk_last_error_at :: "rat option"
  sk_last_error_operation :: "string option"
  sk_last_error :: "pyexc option"

definition new_sink :: "nat \<Rightarrow> rat \<Rightarrow> environ \<Rightarrow> database \<Rightarrow> db_sink" where
  "new_sink queue_size raw_snapshot_interval env db =
     \<lparr>sk_db = db, sk_queue = [], sk_queue_size = queue_size, sk_raw_snapshot_interval = raw_snapshot_interval,
      sk_last_raw_at = 0, sk_maintenance_retry_at = 0, sk_maintenance_failures = 0, sk_last_20s_flush_at = 0,
      sk_last_2m_rollup_at = 0, sk_last_1h_rollup_at = 0, sk_last_prune_at = 0, sk_last_session_close_at = 0,
      sk_rollup_20s = [], sk_gpm_rollup_20s = [], sk_performance_rollups_enabled = nvidia_gpm_rollup_enabled env,
      sk_dropped_samples = 0, sk_write_errors = 0, sk_consecutive_errors = 0, sk_last_success_at = None,
      sk_last_write_at = None, sk_last_error_at = None, sk_last_error_operation = None, sk_last_error = None\<rparr>"

subsection \<open>The queue\<close>

definition submit_node_snapshot :: "node_snapshot \<Rightarrow> db_sink \<Rightarrow> db_sink \<times> bool" where
  "submit_node_snapshot snapshot k =
     (let write_raw = (0 < sk_raw_snapshot_interval k \<and>
            sk_raw_snapshot_interval k \<le> s_sampled_at snapshot - sk_last_raw_at k);
          k1 = (if write_raw then k\<lparr>sk_last_raw_at := s_sampled_at snapshot\<rparr> else k)
      in if 0 < sk_queue_size k1 \<and> sk_queue_size k1 \<le> length (sk_queue k1)
         then (k1\<lparr>sk_dropped_samples := sk_dropped_samples k1 + 1\<rparr>, False)
         else (k1\<lparr>sk_queue := sk_queue k1 @ [(snapshot, write_raw)]\<rparr>, True))"

subsection \<open>The buckets in memory\<close>

definition bucket_start_of :: "rat \<Rightarrow> rat" where
  "bucket_start_of sampled_at = of_int (\<lfloor>sampled_at / of_int ROLLUP_20S\<rfloor> * ROLLUP_20S)"

definition bucket_key_of :: "node_snapshot \<Rightarrow> gpu \<Rightarrow> bucket_key" where
  "bucket_key_of s g = (bucket_start_of (s_sampled_at s), s_node_id s, g_uuid g)"

definition accumulate_gpu :: "node_snapshot \<Rightarrow> gpu \<Rightarrow> db_sink \<Rightarrow> db_sink" where
  "accumulate_gpu s g k =
     (let key = bucket_key_of s g; start = bucket_start_of (s_sampled_at s);
          k1 = (if basic_metrics_valid g
                then k\<lparr>sk_rollup_20s := AList.update key
                    (add_gpu g (get_or (sk_rollup_20s k) key (new_bucket start (s_node_id s) (g_uuid g)))) (sk_rollup_20s k)\<rparr>
                else k)
      in case g_performance g of
           None \<Rightarrow> k1
         | Some p \<Rightarrow>
             if \<not> sk_performance_rollups_enabled k1 \<or> f_profile p \<noteq> NVIDIA_GPM_PROFILE \<or> f_status p = ''unsupported'' then k1
             else k1\<lparr>sk_gpm_rollup_20s := AList.update key
                    (gpm_bucket_add p (get_or (sk_gpm_rollup_20s k1) key (new_gpm_bucket start (s_node_id s) (g_uuid g))))
                    (sk_gpm_rollup_20s k1)\<rparr>)"

definition accumulate_snapshot :: "node_snapshot \<Rightarrow> db_sink \<Rightarrow> db_sink" where
  "accumulate_snapshot s k = fold (accumulate_gpu s) (s_gpus s) k"

subsection \<open>Operations that may raise\<close>

type_synonym op = "db_sink \<Rightarrow> db_sink \<times> pyexc option"

definition then_op :: "op \<Rightarrow> op \<Rightarrow> op" where
  "then_op f g k = (case f k of (k', None) \<Rightarrow> g k' | (k', Some e) \<Rightarrow> (k', Some e))"

definition when_op :: "(db_sink \<Rightarrow> bool) \<Rightarrow> op \<Rightarrow> op" where
  "when_op P f k = (if P k then f k else (k, None))"

text \<open>A store method: it raises when it is at fault, and otherwise runs on the database.\<close>

definition store_op :: "faults \<Rightarrow> string \<Rightarrow> (database \<Rightarrow> database result) \<Rightarrow> op" where
  "store_op faults name f k =
     (case faults name of
        Some e \<Rightarrow> (k, Some e)
      | None \<Rightarrow> (case f (sk_db k) of Inl e \<Rightarrow> (k, Some e) | Inr db \<Rightarrow> (k\<lparr>sk_db := db\<rparr>, None)))"

definition due :: "rat \<Rightarrow> rat \<Rightarrow> bool" where
  "due now start \<longleftrightarrow> start + of_int ROLLUP_20S \<le> now - of_int ROLLUP_20S"

definition flush_rollups :: "faults \<Rightarrow> rat \<Rightarrow> op" where
  "flush_rollups faults now k =
     (let ready = filter (\<lambda>kb. due now (rb_bucket_start (snd kb))) (sk_rollup_20s k);
          performance_ready = filter (\<lambda>kb. due now (wb_bucket_start (snd kb))) (sk_gpm_rollup_20s k)
      in then_op (store_op faults ''upsert_gpu_metric_rollups''
              (\<lambda>db. Inr (db\<lparr>db_rollups := upsert_rows row_key (map (\<lambda>kb. bucket_to_row ROLLUP_20S (snd kb)) ready) (db_rollups db)\<rparr>)))
           (then_op (store_op faults ''upsert_nvidia_gpm_rollups''
              (\<lambda>db. Inr (db\<lparr>db_gpm_rollups := upsert_rows gpm_row_key (map (\<lambda>kb. gpm_bucket_to_row ROLLUP_20S (snd kb)) performance_ready) (db_gpm_rollups db)\<rparr>)))
           (\<lambda>k. (k\<lparr>sk_rollup_20s := fold (\<lambda>kb. AList.delete (fst kb)) ready (sk_rollup_20s k),
                   sk_gpm_rollup_20s := fold (\<lambda>kb. AList.delete (fst kb)) performance_ready (sk_gpm_rollup_20s k)\<rparr>, None))) k)"

definition drop_count :: "('s \<times> nat) result \<Rightarrow> 's result" where
  "drop_count r = rbind r (\<lambda>(s, n). Inr s)"

definition run_scheduled_maintenance :: "faults \<Rightarrow> rat \<Rightarrow> op" where
  "run_scheduled_maintenance faults now =
     then_op (when_op (\<lambda>k. 10 \<le> now - sk_last_20s_flush_at k)
       (then_op (flush_rollups faults now) (\<lambda>k. (k\<lparr>sk_last_20s_flush_at := now\<rparr>, None))))
    (then_op (when_op (\<lambda>k. 120 \<le> now - sk_last_2m_rollup_at k)
       (then_op (store_op faults ''rollup_gpu_metric_rollups'' (\<lambda>db. drop_count (db_rollup ROLLUP_20S ROLLUP_2M now db)))
       (then_op (when_op sk_performance_rollups_enabled
           (store_op faults ''rollup_nvidia_gpm_rollups'' (\<lambda>db. drop_count (db_gpm_rollup ROLLUP_20S ROLLUP_2M now db))))
           (\<lambda>k. (k\<lparr>sk_last_2m_rollup_at := now\<rparr>, None)))))
    (then_op (when_op (\<lambda>k. 3600 \<le> now - sk_last_1h_rollup_at k)
       (then_op (store_op faults ''rollup_gpu_metric_rollups'' (\<lambda>db. drop_count (db_rollup ROLLUP_2M ROLLUP_1H now db)))
       (then_op (when_op sk_performance_rollups_enabled
           (store_op faults ''rollup_nvidia_gpm_rollups'' (\<lambda>db. drop_count (db_gpm_rollup ROLLUP_2M ROLLUP_1H now db))))
           (\<lambda>k. (k\<lparr>sk_last_1h_rollup_at := now\<rparr>, None)))))
    (then_op (when_op (\<lambda>k. 600 \<le> now - sk_last_prune_at k)
       (then_op (store_op faults ''prune_rollups'' (\<lambda>db. drop_count (prune_rollups now None db)))
       (then_op (store_op faults ''prune_raw_snapshots''
           (\<lambda>db. Inr (fst (prune_raw_snapshots now (of_int RAW_SNAPSHOT_RETENTION_SECONDS) db))))
           (\<lambda>k. (k\<lparr>sk_last_prune_at := now\<rparr>, None)))))
    (when_op (\<lambda>k. of_int SESSION_CLOSE_INTERVAL_SECONDS \<le> now - sk_last_session_close_at k)
       (then_op (store_op faults ''close_stale_sessions'' (\<lambda>db. Inr (fst (close_stale_sessions now 300 db))))
           (\<lambda>k. (k\<lparr>sk_last_session_close_at := now\<rparr>, None)))))))"

text \<open>The backoff after the n-th consecutive failure, counted from one.\<close>

definition maintenance_delay :: "nat \<Rightarrow> rat" where
  "maintenance_delay n = min 300 (10 * 2 ^ min (n - 1) 5)"

datatype maintained = Skipped | Maintained | Raised pyexc

definition maintain_sink :: "faults \<Rightarrow> rat \<Rightarrow> rat \<Rightarrow> db_sink \<Rightarrow> db_sink \<times> maintained" where
  "maintain_sink faults now tick k =
     (if tick < sk_maintenance_retry_at k then (k, Skipped)
      else case run_scheduled_maintenance faults now k of
          (k', Some e) \<Rightarrow>
            let n = sk_maintenance_failures k' + 1
            in (k'\<lparr>sk_maintenance_failures := n, sk_maintenance_retry_at := tick + maintenance_delay n\<rparr>, Raised e)
        | (k', None) \<Rightarrow> (k'\<lparr>sk_maintenance_failures := 0, sk_maintenance_retry_at := 0\<rparr>, Maintained))"

definition record_success :: "rat \<Rightarrow> db_sink \<Rightarrow> db_sink" where
  "record_success now k = k\<lparr>sk_consecutive_errors := 0, sk_last_success_at := Some now\<rparr>"

definition record_error :: "rat \<Rightarrow> string \<Rightarrow> pyexc \<Rightarrow> db_sink \<Rightarrow> db_sink" where
  "record_error now operation e k =
     k\<lparr>sk_write_errors := sk_write_errors k + 1, sk_consecutive_errors := sk_consecutive_errors k + 1,
       sk_last_error_at := Some now, sk_last_error_operation := Some operation, sk_last_error := Some e\<rparr>"

definition finish_maintenance :: "faults \<Rightarrow> string \<Rightarrow> rat \<Rightarrow> rat \<Rightarrow> rat \<Rightarrow> db_sink \<Rightarrow> db_sink" where
  "finish_maintenance faults operation time now tick k =
     (case maintain_sink faults now tick k of
        (k', Skipped) \<Rightarrow> k'
      | (k', Maintained) \<Rightarrow> record_success time k'
      | (k', Raised e) \<Rightarrow> record_error time operation e k')"

definition idle_maintenance :: "faults \<Rightarrow> rat \<Rightarrow> rat \<Rightarrow> db_sink \<Rightarrow> db_sink" where
  "idle_maintenance faults time tick k = finish_maintenance faults ''idle_maintenance'' time time tick k"

definition write_snapshot :: "faults \<Rightarrow> rat \<Rightarrow> rat \<Rightarrow> node_snapshot \<times> bool \<Rightarrow> db_sink \<Rightarrow> db_sink" where
  "write_snapshot faults time tick item k =
     (case item of (snapshot, write_raw) \<Rightarrow>
        case store_op faults ''write_node_snapshot'' (write_node_snapshot snapshot write_raw) (accumulate_snapshot snapshot k) of
          (k', Some e) \<Rightarrow> record_error time ''write_node_snapshot'' e k'
        | (k', None) \<Rightarrow> finish_maintenance faults ''scheduled_maintenance'' time (max time (s_sampled_at snapshot)) tick
                         (k'\<lparr>sk_last_write_at := Some time\<rparr>))"

text \<open>One turn of the worker: the next item, or idle maintenance when none came in ten seconds.\<close>

definition worker_turn :: "faults \<Rightarrow> rat \<Rightarrow> rat \<Rightarrow> db_sink \<Rightarrow> db_sink" where
  "worker_turn faults time tick k =
     (case sk_queue k of
        [] \<Rightarrow> idle_maintenance faults time tick k
      | item # rest \<Rightarrow> write_snapshot faults time tick item (k\<lparr>sk_queue := rest\<rparr>))"

definition sink_healthy :: "bool \<Rightarrow> bool \<Rightarrow> db_sink \<Rightarrow> bool" where
  "sink_healthy is_open worker_failed k =
     (is_open \<and> \<not> worker_failed \<and> sk_consecutive_errors k = 0 \<and> length (sk_queue k) < sk_queue_size k)"

subsection \<open>Accumulation\<close>

definition samples_for :: "bucket_key \<Rightarrow> node_snapshot \<Rightarrow> gpu list" where
  "samples_for key s = filter (\<lambda>g. basic_metrics_valid g \<and> bucket_key_of s g = key) (s_gpus s)"

definition start_bucket :: "bucket_key \<Rightarrow> rollup_bucket" where
  "start_bucket key = (case key of (start, node, uuid) \<Rightarrow> new_bucket start node uuid)"

definition bucket_in :: "bucket_key \<Rightarrow> db_sink \<Rightarrow> rollup_bucket option" where
  "bucket_in key k = map_of (sk_rollup_20s k) key"

lemma bucket_in_accumulate_gpu:
  "bucket_in key (accumulate_gpu s g k) =
    (if basic_metrics_valid g \<and> bucket_key_of s g = key
     then Some (add_gpu g (case bucket_in key k of None \<Rightarrow> start_bucket key | Some b \<Rightarrow> b)) else bucket_in key k)"
  by (auto simp: bucket_in_def accumulate_gpu_def Let_def map_of_update get_or_def start_bucket_def bucket_key_of_def
      split: option.splits)

lemma bucket_in_fold:
  "bucket_in key (fold (accumulate_gpu s) gs k) =
    (let new = filter (\<lambda>g. basic_metrics_valid g \<and> bucket_key_of s g = key) gs
     in if new = [] then bucket_in key k
        else Some (fold add_gpu new (case bucket_in key k of None \<Rightarrow> start_bucket key | Some b \<Rightarrow> b)))"
proof (induction gs arbitrary: k)
  case (Cons g gs)
  show ?case by (auto simp: Cons bucket_in_accumulate_gpu Let_def)
qed simp

text \<open>
  The bucket in memory of an interval, a node and an accelerator is the bucket of exactly the
  valid samples of that accelerator that fell into the interval, in whatever order snapshots of
  other nodes and intervals arrived between them.
\<close>

theorem accumulate_exact:
  fixes ss :: "node_snapshot list"
  assumes "sk_rollup_20s k = []"
  shows "map_of (sk_rollup_20s (fold accumulate_snapshot ss k)) (start, node, uuid) =
    (let gs = concat (map (samples_for (start, node, uuid)) ss)
     in if gs = [] then None else Some (bucket_of start node uuid gs))"
proof -
  let ?key = "(start, node, uuid)"
  have "bucket_in ?key (fold accumulate_snapshot ss k) =
      (let gs = concat (map (samples_for ?key) ss)
       in if gs = [] then bucket_in ?key k
          else Some (fold add_gpu gs (case bucket_in ?key k of None \<Rightarrow> start_bucket ?key | Some b \<Rightarrow> b)))" for k
  proof (induction ss arbitrary: k)
    case (Cons s ss)
    have "bucket_in ?key (accumulate_snapshot s k) =
        (if samples_for ?key s = [] then bucket_in ?key k
         else Some (fold add_gpu (samples_for ?key s) (case bucket_in ?key k of None \<Rightarrow> start_bucket ?key | Some b \<Rightarrow> b)))"
      by (simp add: accumulate_snapshot_def bucket_in_fold samples_for_def Let_def)
    then show ?case using Cons[of "accumulate_snapshot s k"]
      by (cases "samples_for ?key s = []"; cases "concat (map (samples_for ?key) ss) = []")
         (simp_all add: Let_def del: concat_eq_Nil_conv)
  qed simp
  from this[of k] assms show ?thesis by (simp add: bucket_in_def bucket_of_def start_bucket_def Let_def)
qed

theorem accumulate_exact_witness:
  "map_of (sk_rollup_20s (fold accumulate_snapshot [sample_node ''n'' Online [sample_gpu 0 10 1]] (new_sink 4 0 (\<lambda>_. None) empty_db)))
     (0, ''n'', ''elsewhere'') = None"
  using accumulate_exact[of "new_sink 4 0 (\<lambda>_. None) empty_db" "[sample_node ''n'' Online [sample_gpu 0 10 1]]" 0 "''n''" "''elsewhere''"]
  by (simp add: new_sink_def samples_for_def sample_node_def bucket_key_of_def sample_gpu_def blank_gpu_def)

subsection \<open>Flushing\<close>

definition bucket_key_in :: "rollup_bucket \<Rightarrow> bucket_key" where
  "bucket_key_in b = (rb_bucket_start b, rb_node_id b, rb_gpu_uuid b)"

definition gpm_bucket_key_in :: "gpm_bucket \<Rightarrow> bucket_key" where
  "gpm_bucket_key_in b = (wb_bucket_start b, wb_node_id b, wb_gpu_uuid b)"

text \<open>Both kinds of buckets sit under their own keys.\<close>

definition buckets_ok :: "db_sink \<Rightarrow> bool" where
  "buckets_ok k \<longleftrightarrow> dict_ok (sk_rollup_20s k) \<and>
     list_all (\<lambda>kb. bucket_key_in (snd kb) = fst kb \<and> 0 < rb_sample_count (snd kb)) (sk_rollup_20s k) \<and>
     dict_ok (sk_gpm_rollup_20s k) \<and> list_all (\<lambda>kb. gpm_bucket_key_in (snd kb) = fst kb) (sk_gpm_rollup_20s k)"

lemma map_of_delete_keys:
  "map_of (fold (\<lambda>kb. AList.delete (fst kb)) ready d) key = (if key \<in> fst ` set ready then None else map_of d key)"
  by (induction ready arbitrary: d) (auto simp: map_of_delete)

lemma flush_rollups_cases:
  assumes "flush_rollups faults now k = (k', e)"
  defines "ready \<equiv> filter (\<lambda>kb. due now (rb_bucket_start (snd kb))) (sk_rollup_20s k)"
    and "performance_ready \<equiv> filter (\<lambda>kb. due now (wb_bucket_start (snd kb))) (sk_gpm_rollup_20s k)"
  shows "e \<noteq> None \<and> sk_rollup_20s k' = sk_rollup_20s k \<and> sk_gpm_rollup_20s k' = sk_gpm_rollup_20s k \<or>
    e = None \<and> sk_rollup_20s k' = fold (\<lambda>kb. AList.delete (fst kb)) ready (sk_rollup_20s k) \<and>
      sk_gpm_rollup_20s k' = fold (\<lambda>kb. AList.delete (fst kb)) performance_ready (sk_gpm_rollup_20s k) \<and>
      db_rollups (sk_db k') = upsert_rows row_key (map (\<lambda>kb. bucket_to_row ROLLUP_20S (snd kb)) ready) (db_rollups (sk_db k)) \<and>
      db_gpm_rollups (sk_db k') =
        upsert_rows gpm_row_key (map (\<lambda>kb. gpm_bucket_to_row ROLLUP_20S (snd kb)) performance_ready) (db_gpm_rollups (sk_db k))"
  using assms(1)
  by (auto simp: flush_rollups_def then_op_def store_op_def Let_def ready_def performance_ready_def split: option.splits)

text \<open>What a flush does with one kind of buckets, each under its own key.\<close>

lemma flushed_buckets:
  fixes key_in :: "'b \<Rightarrow> bucket_key" and to_row :: "'b \<Rightarrow> 'r" and P :: "'b \<Rightarrow> bool"
  assumes ok: "dict_ok d" "list_all (\<lambda>kb. key_in (snd kb) = fst kb) d"
    and key: "\<And>b. row_of (to_row b) = (fst (key_in b), ROLLUP_20S, fst (snd (key_in b)), snd (snd (key_in b)))"
    and m: "map_of d (start, node, uuid) = Some b"
  defines "ready \<equiv> filter (\<lambda>kb. P (snd kb)) d"
  shows "map_of (fold (\<lambda>kb. AList.delete (fst kb)) ready d) (start, node, uuid) = (if P b then None else Some b)"
    "P b \<Longrightarrow> map_of (upsert_rows row_of (map (\<lambda>kb. to_row (snd kb)) ready) table) (start, ROLLUP_20S, node, uuid) = Some (to_row b)"
proof -
  have ready: "kb \<in> set ready \<longleftrightarrow> map_of d (fst kb) = Some (snd kb) \<and> P (snd kb)" for kb
    using dict_ok_map_of[OF ok(1), of "fst kb" "snd kb"] by (auto simp: ready_def)
  show "map_of (fold (\<lambda>kb. AList.delete (fst kb)) ready d) (start, node, uuid) = (if P b then None else Some b)"
    using m ready[of "((start, node, uuid), b)"] ready by (force simp: map_of_delete_keys)
  have keys: "map (\<lambda>kb. row_of (to_row (snd kb))) ready = map (\<lambda>x. (fst x, ROLLUP_20S, fst (snd x), snd (snd x))) (map fst ready)"
    using ok(2) by (auto simp: key ready_def list_all_iff)
  have "distinct (map fst ready)" using ok(1) by (simp add: ready_def dict_ok_def distinct_map_filter)
  then have "distinct (map (\<lambda>x. (fst x, ROLLUP_20S, fst (snd x), snd (snd x))) (map fst ready))"
    by (rule distinct_map[THEN iffD2, OF conjI]) (auto simp: inj_on_def prod_eq_iff)
  then have d: "distinct (map row_of (map (\<lambda>kb. to_row (snd kb)) ready))" by (simp only: map_map comp_def keys)
  assume "P b"
  then have "((start, node, uuid), b) \<in> set ready" using ready m by simp
  then have "to_row b \<in> set (map (\<lambda>kb. to_row (snd kb)) ready)" by force
  from find_key[OF d this] have "find (\<lambda>r. row_of r = row_of (to_row b)) (map (\<lambda>kb. to_row (snd kb)) ready) = Some (to_row b)" .
  moreover have "key_in b = (start, node, uuid)" using ok(2) map_of_SomeD[OF m] by (auto simp: list_all_iff)
  then have "row_of (to_row b) = (start, ROLLUP_20S, node, uuid)" by (simp add: key)
  ultimately show "map_of (upsert_rows row_of (map (\<lambda>kb. to_row (snd kb)) ready) table) (start, ROLLUP_20S, node, uuid) = Some (to_row b)"
    using map_of_upsert_rows[OF d] by simp
qed

subsection \<open>Backoff\<close>

lemma maintenance_delay_bounds: "10 \<le> maintenance_delay n \<and> maintenance_delay n \<le> 300"
  by (simp add: maintenance_delay_def)

lemma maintenance_delay_mono: "m \<le> n \<Longrightarrow> maintenance_delay m \<le> maintenance_delay n"
  unfolding maintenance_delay_def by (intro min.mono mult_left_mono power_increasing) auto

text \<open>An operation keeps what an observer sees; the frame of a composition is that of its parts.\<close>

definition keeps :: "(db_sink \<Rightarrow> 'a) \<Rightarrow> op \<Rightarrow> bool" where
  "keeps obs f \<longleftrightarrow> (\<forall>k. obs (fst (f k)) = obs k)"

lemma keeps_then: "keeps obs f \<Longrightarrow> keeps obs g \<Longrightarrow> keeps obs (then_op f g)"
  unfolding keeps_def then_op_def by (auto split: prod.split option.split) (metis fst_conv)+

lemma keeps_when: "keeps obs f \<Longrightarrow> keeps obs (when_op P f)"
  by (simp add: keeps_def when_op_def)

lemma keeps_store: "(\<And>k db. obs (k\<lparr>sk_db := db\<rparr>) = obs k) \<Longrightarrow> keeps obs (store_op faults name f)"
  by (simp add: keeps_def store_op_def split: option.split sum.split)

lemma keeps_set: "(\<And>k. obs (f k) = obs k) \<Longrightarrow> keeps obs (\<lambda>k. (f k, None))"
  by (simp add: keeps_def)

lemmas keeps_intros = keeps_then keeps_when keeps_store keeps_set

lemma flush_keeps_failures: "keeps sk_maintenance_failures (flush_rollups faults now)"
proof -
  have "sk_maintenance_failures (fst (flush_rollups faults now k)) = sk_maintenance_failures k" for k
    unfolding flush_rollups_def Let_def
    by (rule keeps_def[THEN iffD1, THEN spec]) (intro keeps_intros; simp)
  then show ?thesis by (simp add: keeps_def)
qed

lemma maintenance_keeps_failures: "keeps sk_maintenance_failures (run_scheduled_maintenance faults now)"
  unfolding run_scheduled_maintenance_def by (intro keeps_intros flush_keeps_failures; simp)

text \<open>
  A failed maintenance backs off: the next attempts leave the sink untouched until a delay between
  ten seconds and five minutes has passed, a delay that never shrinks while failures continue, and
  the first success clears it.
\<close>

theorem maintenance_backoff:
  assumes "maintain_sink faults now tick k = (k', Raised e)"
  shows "\<exists>delay. delay = maintenance_delay (sk_maintenance_failures k') \<and> 10 \<le> delay \<and> delay \<le> 300 \<and>
    maintenance_delay (sk_maintenance_failures k) \<le> delay \<and>
    (\<forall>faults' now' tick'. tick' < tick + delay \<longrightarrow> maintain_sink faults' now' tick' k' = (k', Skipped)) \<and>
    (\<forall>faults' now' tick'. tick + delay \<le> tick' \<longrightarrow> snd (maintain_sink faults' now' tick' k') \<noteq> Skipped) \<and>
    (\<forall>faults' now' tick' k''. maintain_sink faults' now' tick' k' = (k'', Maintained) \<longrightarrow>
       sk_maintenance_failures k'' = 0 \<and> sk_maintenance_retry_at k'' = 0)"
proof -
  have fl: "sk_maintenance_failures (fst (run_scheduled_maintenance faults now k)) = sk_maintenance_failures k"
    using maintenance_keeps_failures by (simp add: keeps_def)
  have k': "sk_maintenance_failures k' = sk_maintenance_failures k + 1"
    "sk_maintenance_retry_at k' = tick + maintenance_delay (sk_maintenance_failures k')"
    using assms fl by (auto simp: maintain_sink_def Let_def split: if_splits prod.splits option.splits)
  have skip: "maintain_sink f n t k' = (k', Skipped)" if "t < tick + maintenance_delay (sk_maintenance_failures k')" for f n t
    using that k'(2) by (simp add: maintain_sink_def)
  have go: "snd (maintain_sink f n t k') \<noteq> Skipped" if "tick + maintenance_delay (sk_maintenance_failures k') \<le> t" for f n t
    using that k'(2) by (auto simp: maintain_sink_def Let_def split: prod.splits option.splits)
  have clear: "sk_maintenance_failures k'' = 0 \<and> sk_maintenance_retry_at k'' = 0"
    if "maintain_sink f n t k' = (k'', Maintained)" for f n t k''
    using that by (auto simp: maintain_sink_def Let_def split: if_splits prod.splits option.splits)
  show ?thesis
    using maintenance_delay_bounds maintenance_delay_mono[of "sk_maintenance_failures k" "sk_maintenance_failures k'"] k'(1)
      skip go clear by auto
qed

theorem maintenance_backoff_witness:
  "\<exists>k'. maintain_sink (\<lambda>_. Some OverflowError) 1000 5 (new_sink 4 0 (\<lambda>_. None) empty_db) = (k', Raised OverflowError) \<and>
     maintain_sink (\<lambda>_. None) 1000 6 k' = (k', Skipped)"
proof -
  let ?k = "new_sink 4 0 (\<lambda>_. None) empty_db"
  have "snd (maintain_sink (\<lambda>_. Some OverflowError) 1000 5 ?k) = Raised OverflowError"
    by (simp add: maintain_sink_def new_sink_def run_scheduled_maintenance_def then_op_def when_op_def flush_rollups_def
        store_op_def Let_def)
  then obtain k' where k': "maintain_sink (\<lambda>_. Some OverflowError) 1000 5 ?k = (k', Raised OverflowError)"
    by (metis prod.collapse)
  then show ?thesis using maintenance_backoff[OF k'] by force
qed

subsection \<open>Late samples\<close>

definition late_node :: "rat \<Rightarrow> rat \<Rightarrow> node_snapshot" where
  "late_node t util = (sample_node ''n'' Online [sample_gpu 0 util 1])\<lparr>s_sampled_at := t\<rparr>"

definition late_sink :: db_sink where
  "late_sink =
     (let k1 = accumulate_snapshot (late_node 1 100) (new_sink 4 0 (\<lambda>_. None) empty_db);
          k2 = fst (flush_rollups (\<lambda>_. None) 100 k1);
          k3 = accumulate_snapshot (late_node 5 0) k2
      in fst (flush_rollups (\<lambda>_. None) 200 k3))"

text \<open>
  A sample that arrives after its interval was flushed replaces the row of the interval instead of
  joining it: after a sample of 100 percent was flushed and one of 0 percent came late, the row has
  a mean of 0 over one sample.
\<close>

theorem late_sample_overwrites:
  "map (\<lambda>kr. (rr_avg_gpu_utilization (snd kr), rr_sample_count (snd kr))) (db_rollups (sk_db late_sink)) = [(0, 1)]"
  by code_simp

subsection \<open>Reachable sinks\<close>

inductive sink_step :: "db_sink \<Rightarrow> db_sink \<Rightarrow> bool" where
  submit_step: "sink_step k (fst (submit_node_snapshot s k))"
| worker_step: "sink_step k (worker_turn faults time tick k)"
| stop_step: "sink_step k (fst (flush_rollups faults time k))"

inductive_cases sink_stepE: "sink_step k k'"

definition sink_inv :: "db_sink \<Rightarrow> bool" where
  "sink_inv k \<longleftrightarrow>
     (0 < sk_queue_size k \<longrightarrow> length (sk_queue k) \<le> sk_queue_size k) \<and>
     sk_consecutive_errors k \<le> sk_write_errors k \<and>
     (0 < sk_consecutive_errors k \<longrightarrow> sk_last_error k \<noteq> None \<and> sk_last_error_operation k \<noteq> None \<and> sk_last_error_at k \<noteq> None) \<and>
     buckets_ok k"

text \<open>An operation preserves a predicate; like the frame, this composes.\<close>

definition preserves :: "(db_sink \<Rightarrow> bool) \<Rightarrow> op \<Rightarrow> bool" where
  "preserves P f \<longleftrightarrow> (\<forall>k. P k \<longrightarrow> P (fst (f k)))"

lemma preserves_then: "preserves P f \<Longrightarrow> preserves P g \<Longrightarrow> preserves P (then_op f g)"
  unfolding preserves_def then_op_def by (force split: prod.split option.split)

lemma preserves_when: "preserves P f \<Longrightarrow> preserves P (when_op b f)"
  by (simp add: preserves_def when_op_def)

lemma preserves_store: "(\<And>k db. P k \<Longrightarrow> P (k\<lparr>sk_db := db\<rparr>)) \<Longrightarrow> preserves P (store_op faults name f)"
  by (simp add: preserves_def store_op_def split: option.split sum.split)

lemma preserves_set: "(\<And>k. P k \<Longrightarrow> P (f k)) \<Longrightarrow> preserves P (\<lambda>k. (f k, None))"
  by (simp add: preserves_def)

lemmas preserves_intros = preserves_then preserves_when preserves_store preserves_set

lemma buckets_ok_set [simp]:
  "buckets_ok (k\<lparr>sk_db := db\<rparr>) = buckets_ok k" "buckets_ok (k\<lparr>sk_queue := q\<rparr>) = buckets_ok k"
  "buckets_ok (k\<lparr>sk_last_20s_flush_at := t\<rparr>) = buckets_ok k" "buckets_ok (k\<lparr>sk_last_2m_rollup_at := t\<rparr>) = buckets_ok k"
  "buckets_ok (k\<lparr>sk_last_1h_rollup_at := t\<rparr>) = buckets_ok k" "buckets_ok (k\<lparr>sk_last_prune_at := t\<rparr>) = buckets_ok k"
  "buckets_ok (k\<lparr>sk_last_session_close_at := t\<rparr>) = buckets_ok k" "buckets_ok (k\<lparr>sk_last_write_at := u\<rparr>) = buckets_ok k"
  by (simp_all add: buckets_ok_def)

lemma sink_inv_frame [simp]:
  "sink_inv (k\<lparr>sk_db := db\<rparr>) = sink_inv k" "sink_inv (k\<lparr>sk_last_20s_flush_at := t\<rparr>) = sink_inv k"
  "sink_inv (k\<lparr>sk_last_2m_rollup_at := t\<rparr>) = sink_inv k" "sink_inv (k\<lparr>sk_last_1h_rollup_at := t\<rparr>) = sink_inv k"
  "sink_inv (k\<lparr>sk_last_prune_at := t\<rparr>) = sink_inv k" "sink_inv (k\<lparr>sk_last_session_close_at := t\<rparr>) = sink_inv k"
  "sink_inv (k\<lparr>sk_last_write_at := u\<rparr>) = sink_inv k" "sink_inv (k\<lparr>sk_maintenance_failures := n\<rparr>) = sink_inv k"
  "sink_inv (k\<lparr>sk_maintenance_retry_at := t\<rparr>) = sink_inv k"
  by (simp_all add: sink_inv_def) (simp_all add: buckets_ok_def)

lemma dict_ok_delete_keys: "dict_ok d \<Longrightarrow> dict_ok (fold (\<lambda>kb. AList.delete (fst kb)) bs d)"
  by (induction bs arbitrary: d) simp_all

lemma list_all_delete_keys: "list_all P d \<Longrightarrow> list_all P (fold (\<lambda>kb. AList.delete (fst kb)) bs d)"
  by (induction bs arbitrary: d) (simp_all add: list_all_delete)

lemma sink_inv_delete:
  "sink_inv k \<Longrightarrow> sink_inv (k\<lparr>sk_rollup_20s := fold (\<lambda>kb. AList.delete (fst kb)) bs (sk_rollup_20s k),
     sk_gpm_rollup_20s := fold (\<lambda>kb. AList.delete (fst kb)) cs (sk_gpm_rollup_20s k)\<rparr>)"
  by (simp add: sink_inv_def buckets_ok_def dict_ok_delete_keys list_all_delete_keys)

lemma flush_preserves: "preserves sink_inv (flush_rollups faults now)"
proof -
  have "preserves sink_inv (then_op (store_op faults n1 f1) (then_op (store_op faults n2 f2)
      (\<lambda>k. (k\<lparr>sk_rollup_20s := fold (\<lambda>kb. AList.delete (fst kb)) bs (sk_rollup_20s k),
              sk_gpm_rollup_20s := fold (\<lambda>kb. AList.delete (fst kb)) cs (sk_gpm_rollup_20s k)\<rparr>, None))))" for n1 f1 n2 f2 bs cs
    by (intro preserves_intros sink_inv_delete) simp_all
  then show ?thesis unfolding preserves_def flush_rollups_def Let_def by blast
qed

lemma maintenance_preserves: "preserves sink_inv (run_scheduled_maintenance faults now)"
  unfolding run_scheduled_maintenance_def by (intro preserves_intros flush_preserves; simp)

lemma maintain_sink_inv:
  assumes "sink_inv k" "maintain_sink faults now tick k = (k', m)"
  shows "sink_inv k'"
proof -
  obtain k1 e where r: "run_scheduled_maintenance faults now k = (k1, e)" by fastforce
  have "sink_inv k1" using maintenance_preserves[of faults now] assms(1) r by (metis fst_conv preserves_def)
  then show ?thesis using assms r by (auto simp: maintain_sink_def Let_def split: if_splits option.splits)
qed

lemma record_inv:
  "sink_inv k \<Longrightarrow> sink_inv (record_success now k)" "sink_inv k \<Longrightarrow> sink_inv (record_error now name e k)"
  by (simp_all add: sink_inv_def record_success_def record_error_def buckets_ok_def)

lemma finish_maintenance_inv: "sink_inv k \<Longrightarrow> sink_inv (finish_maintenance faults name time now tick k)"
  using maintain_sink_inv[of k faults now tick] record_inv
  by (auto simp: finish_maintenance_def split: prod.split maintained.split)

lemma bucket_key_in_add_gpu [simp]: "bucket_key_in (add_gpu g b) = bucket_key_in b"
  by (simp add: bucket_key_in_def add_gpu_def)

lemma gpm_bucket_key_in_add [simp]: "gpm_bucket_key_in (gpm_bucket_add p b) = gpm_bucket_key_in b"
proof -
  have "gpm_bucket_key_in (add_metric m b) = gpm_bucket_key_in b" for m b
    by (simp add: add_metric_def gpm_bucket_key_in_def Let_def split: prod.split option.split)
  then have "gpm_bucket_key_in (fold add_metric ms b) = gpm_bucket_key_in b" for ms b
    by (induction ms arbitrary: b) simp_all
  then show ?thesis by (simp add: gpm_bucket_add_def Let_def) (simp add: gpm_bucket_key_in_def)
qed

lemma get_or_key_in:
  assumes "list_all (\<lambda>kb. key_in (snd kb) = fst kb) d" "key_in dflt = key"
  shows "key_in (get_or d key dflt) = key"
  using assms by (auto simp: get_or_def list_all_iff dest!: map_of_SomeD split: option.split)

lemma accumulate_gpu_inv:
  assumes "sink_inv k"
  shows "sink_inv (accumulate_gpu s g k)"
proof -
  let ?key = "bucket_key_of s g"
  let ?old = "get_or (sk_rollup_20s k) ?key (new_bucket (bucket_start_of (s_sampled_at s)) (s_node_id s) (g_uuid g))"
  let ?gpm = "get_or (sk_gpm_rollup_20s k) ?key (new_gpm_bucket (bucket_start_of (s_sampled_at s)) (s_node_id s) (g_uuid g))"
  have all: "list_all (\<lambda>kb. bucket_key_in (snd kb) = fst kb \<and> 0 < rb_sample_count (snd kb)) (sk_rollup_20s k)"
    and gpm: "list_all (\<lambda>kb. gpm_bucket_key_in (snd kb) = fst kb) (sk_gpm_rollup_20s k)"
    using assms by (simp_all add: sink_inv_def buckets_ok_def)
  have "bucket_key_in ?old = ?key"
    using all by (intro get_or_key_in[where key_in = bucket_key_in])
      (auto simp: list_all_iff, simp add: bucket_key_in_def new_bucket_def bucket_key_of_def)
  then have 1: "list_all (\<lambda>kb. bucket_key_in (snd kb) = fst kb \<and> 0 < rb_sample_count (snd kb))
      (AList.update ?key (add_gpu g ?old) (sk_rollup_20s k))"
    by (intro list_all_update_pair[OF all]) (simp add: add_gpu_def bucket_key_in_def)
  have "gpm_bucket_key_in ?gpm = ?key"
    by (rule get_or_key_in[where key_in = gpm_bucket_key_in, OF gpm])
       (simp add: gpm_bucket_key_in_def new_gpm_bucket_def bucket_key_of_def)
  then have 2: "list_all (\<lambda>kb. gpm_bucket_key_in (snd kb) = fst kb) (AList.update ?key (gpm_bucket_add p ?gpm) (sk_gpm_rollup_20s k))" for p
    by (intro list_all_update_pair[OF gpm]) simp
  show ?thesis
    using assms 1 2 by (simp add: sink_inv_def accumulate_gpu_def Let_def buckets_ok_def split: option.split)
qed

lemma accumulate_snapshot_inv: "sink_inv k \<Longrightarrow> sink_inv (accumulate_snapshot s k)"
proof -
  have "sink_inv k \<Longrightarrow> sink_inv (fold (accumulate_gpu s) gs k)" for gs
    by (induction gs arbitrary: k) (simp_all add: accumulate_gpu_inv)
  then show "sink_inv k \<Longrightarrow> sink_inv (accumulate_snapshot s k)" by (simp add: accumulate_snapshot_def)
qed

lemma write_snapshot_inv: "sink_inv k \<Longrightarrow> sink_inv (write_snapshot faults time tick item k)"
  by (auto simp: write_snapshot_def store_op_def accumulate_snapshot_inv record_inv finish_maintenance_inv
      split: prod.split option.split sum.split)

lemma sink_step_inv: "sink_step k k' \<Longrightarrow> sink_inv k \<Longrightarrow> sink_inv k'"
proof (induction rule: sink_step.induct)
  case (submit_step k s)
  then show ?case by (auto simp: submit_node_snapshot_def Let_def sink_inv_def buckets_ok_def)
next
  case (worker_step k faults time tick)
  have "sink_inv (k\<lparr>sk_queue := rest\<rparr>)" if "sk_queue k = item # rest" for item rest
    using worker_step that by (auto simp: sink_inv_def)
  then show ?case
    using worker_step by (auto simp: worker_turn_def idle_maintenance_def finish_maintenance_inv write_snapshot_inv split: list.split)
next
  case (stop_step k faults time)
  then show ?case using flush_preserves by (simp add: preserves_def)
qed

lemma sink_reachable_ok:
  assumes "sink_step\<^sup>*\<^sup>* (new_sink queue_size raw_interval env db) k"
  shows "sink_inv k"
  using assms
proof (induction rule: rtranclp_induct)
  case base
  show ?case by (simp add: sink_inv_def new_sink_def buckets_ok_def)
next
  case (step k k')
  then show ?case using sink_step_inv by blast
qed

text \<open>
  Whatever is submitted, whichever statements fail and whenever the worker runs, the queue stays
  within its capacity, every bucket in memory holds at least one sample and sits under its own key,
  and the sink reports consecutive errors only together with the operation and the error that
  happened last.
\<close>

theorem sink_reachable_inv:
  assumes "sink_step\<^sup>*\<^sup>* (new_sink queue_size raw_interval env db) k"
  shows "(0 < sk_queue_size k \<longrightarrow> length (sk_queue k) \<le> sk_queue_size k) \<and> sk_consecutive_errors k \<le> sk_write_errors k \<and>
    (0 < sk_consecutive_errors k \<longrightarrow> sk_last_error k \<noteq> None \<and> sk_last_error_operation k \<noteq> None \<and> sk_last_error_at k \<noteq> None) \<and>
    (\<forall>key b. map_of (sk_rollup_20s k) key = Some b \<longrightarrow> bucket_key_in b = key \<and> 0 < rb_sample_count b)"
  using sink_reachable_ok[OF assms] by (auto simp: sink_inv_def buckets_ok_def list_all_iff dest!: map_of_SomeD)

theorem sink_reachable_inv_witness:
  "length (sk_queue (fst (submit_node_snapshot (late_node 1 2) (new_sink 1 0 (\<lambda>_. None) empty_db)))) \<le> 1"
proof -
  let ?k = "fst (submit_node_snapshot (late_node 1 2) (new_sink 1 0 (\<lambda>_. None) empty_db))"
  have "sk_queue_size ?k = 1" by (simp add: submit_node_snapshot_def new_sink_def Let_def)
  then show ?thesis
    using sink_reachable_inv[OF r_into_rtranclp[where r = sink_step, OF submit_step[of _ "late_node 1 2"]], of 1 0 "\<lambda>_. None" empty_db]
    by simp
qed

subsection \<open>A flush loses nothing\<close>

text \<open>
  C26: a flush loses nothing: in every reachable sink, a failing database keeps all buckets in memory, those of the
  basic readings and those of the profiling metrics; otherwise each bucket whose interval ended at least twenty
  seconds ago moves from the memory into the database, as the row of its interval, node and accelerator,
  and every other bucket stays in memory unchanged.
\<close>

theorem flush_loses_nothing:
  assumes "sink_step\<^sup>*\<^sup>* (new_sink queue_size raw_interval env db) k" "flush_rollups faults now k = (k', e)"
  shows "(e \<noteq> None \<longrightarrow> sk_rollup_20s k' = sk_rollup_20s k \<and> sk_gpm_rollup_20s k' = sk_gpm_rollup_20s k) \<and>
    (e = None \<longrightarrow> (\<forall>start node uuid.
      (\<forall>b. map_of (sk_rollup_20s k) (start, node, uuid) = Some b \<longrightarrow>
        (if start + 20 \<le> now - 20
         then map_of (sk_rollup_20s k') (start, node, uuid) = None \<and>
           map_of (db_rollups (sk_db k')) (start, 20, node, uuid) = Some (bucket_to_row 20 b)
         else map_of (sk_rollup_20s k') (start, node, uuid) = Some b)) \<and>
      (\<forall>b. map_of (sk_gpm_rollup_20s k) (start, node, uuid) = Some b \<longrightarrow>
        (if start + 20 \<le> now - 20
         then map_of (sk_gpm_rollup_20s k') (start, node, uuid) = None \<and>
           map_of (db_gpm_rollups (sk_db k')) (start, 20, node, uuid) = Some (gpm_bucket_to_row 20 b)
         else map_of (sk_gpm_rollup_20s k') (start, node, uuid) = Some b))))"
proof -
  have ok: "dict_ok (sk_rollup_20s k)" "list_all (\<lambda>kb. bucket_key_in (snd kb) = fst kb) (sk_rollup_20s k)"
    "dict_ok (sk_gpm_rollup_20s k)" "list_all (\<lambda>kb. gpm_bucket_key_in (snd kb) = fst kb) (sk_gpm_rollup_20s k)"
    using sink_reachable_ok[OF assms(1)] by (auto simp: sink_inv_def buckets_ok_def list_all_iff)
  have keys: "row_key (bucket_to_row ROLLUP_20S b) = (fst (bucket_key_in b), ROLLUP_20S, fst (snd (bucket_key_in b)), snd (snd (bucket_key_in b)))"
    "gpm_row_key (gpm_bucket_to_row ROLLUP_20S c) =
      (fst (gpm_bucket_key_in c), ROLLUP_20S, fst (snd (gpm_bucket_key_in c)), snd (snd (gpm_bucket_key_in c)))" for b c
    by (simp_all add: row_key_def bucket_to_row_def bucket_key_in_def gpm_row_key_def gpm_bucket_to_row_def gpm_bucket_key_in_def Let_def)
  have due: "due now t \<longleftrightarrow> t + 20 \<le> now - 20" for t by (simp add: due_def ROLLUP_20S_def)
  have start: "rb_bucket_start b = start" if "map_of (sk_rollup_20s k) (start, node, uuid) = Some b" for start node uuid b
    using ok(2) map_of_SomeD[OF that] by (auto simp: list_all_iff bucket_key_in_def)
  have gpm_start: "wb_bucket_start b = start" if "map_of (sk_gpm_rollup_20s k) (start, node, uuid) = Some b" for start node uuid b
    using ok(4) map_of_SomeD[OF that] by (auto simp: list_all_iff gpm_bucket_key_in_def)
  note basic = flushed_buckets[where key_in = bucket_key_in and to_row = "bucket_to_row ROLLUP_20S" and row_of = row_key, OF ok(1,2) keys(1), where P = "\<lambda>b. due now (rb_bucket_start b)"]
  note gpm = flushed_buckets[where key_in = gpm_bucket_key_in and to_row = "gpm_bucket_to_row ROLLUP_20S" and row_of = gpm_row_key, OF ok(3,4) keys(2), where P = "\<lambda>b. due now (wb_bucket_start b)"]
  from flush_rollups_cases[OF assms(2)] show ?thesis
  proof (elim disjE conjE)
    assume "e = None"
      and s: "sk_rollup_20s k' = fold (\<lambda>kb. AList.delete (fst kb)) (filter (\<lambda>kb. due now (rb_bucket_start (snd kb))) (sk_rollup_20s k)) (sk_rollup_20s k)"
      "sk_gpm_rollup_20s k' = fold (\<lambda>kb. AList.delete (fst kb)) (filter (\<lambda>kb. due now (wb_bucket_start (snd kb))) (sk_gpm_rollup_20s k)) (sk_gpm_rollup_20s k)"
      "db_rollups (sk_db k') = upsert_rows row_key (map (\<lambda>kb. bucket_to_row ROLLUP_20S (snd kb))
        (filter (\<lambda>kb. due now (rb_bucket_start (snd kb))) (sk_rollup_20s k))) (db_rollups (sk_db k))"
      "db_gpm_rollups (sk_db k') = upsert_rows gpm_row_key (map (\<lambda>kb. gpm_bucket_to_row ROLLUP_20S (snd kb))
        (filter (\<lambda>kb. due now (wb_bucket_start (snd kb))) (sk_gpm_rollup_20s k))) (db_gpm_rollups (sk_db k))"
    have 1: "if start + 20 \<le> now - 20
       then map_of (sk_rollup_20s k') (start, node, uuid) = None \<and>
         map_of (db_rollups (sk_db k')) (start, 20, node, uuid) = Some (bucket_to_row 20 b)
       else map_of (sk_rollup_20s k') (start, node, uuid) = Some b"
      if "map_of (sk_rollup_20s k) (start, node, uuid) = Some b" for start node uuid b
      using basic[OF that] start[OF that] by (simp add: s due ROLLUP_20S_def)
    have 2: "if start + 20 \<le> now - 20
       then map_of (sk_gpm_rollup_20s k') (start, node, uuid) = None \<and>
         map_of (db_gpm_rollups (sk_db k')) (start, 20, node, uuid) = Some (gpm_bucket_to_row 20 b)
       else map_of (sk_gpm_rollup_20s k') (start, node, uuid) = Some b"
      if "map_of (sk_gpm_rollup_20s k) (start, node, uuid) = Some b" for start node uuid b
      using gpm[OF that] gpm_start[OF that] by (simp add: s due ROLLUP_20S_def)
    show ?thesis using 1 2 \<open>e = None\<close> by blast
  qed auto
qed

text \<open>A sink that took one sample with profiling metrics while the database was unreachable.\<close>

definition profiled_node :: node_snapshot where
  "profiled_node = sample_node ''n'' Online [(sample_gpu 0 10 1)\<lparr>g_performance := Some
     \<lparr>f_profile = NVIDIA_GPM_PROFILE, f_status = ''warming'', f_sampled_at = 10, f_interval_ms = None, f_metrics = [],
      f_supported_metrics = [], f_error = None, f_invalid_metrics = []\<rparr>\<rparr>]"

definition profiled_sink :: db_sink where
  "profiled_sink = worker_turn (\<lambda>_. Some OverflowError) 12 12 (fst (submit_node_snapshot profiled_node (new_sink 4 0 (\<lambda>_. None) empty_db)))"

lemma profiled_sink_reached: "sink_step\<^sup>*\<^sup>* (new_sink 4 0 (\<lambda>_. None) empty_db) profiled_sink"
  unfolding profiled_sink_def
  by (rule converse_rtranclp_into_rtranclp, rule submit_step, rule r_into_rtranclp, rule worker_step)

lemma profiled_sink_buckets:
  "map (\<lambda>kb. (fst kb, rb_sample_count (snd kb))) (sk_rollup_20s profiled_sink) = [((0, ''n'', ''unknown''), 1)] \<and>
   map (\<lambda>kb. (fst kb, wb_expected_count (snd kb))) (sk_gpm_rollup_20s profiled_sink) = [((0, ''n'', ''unknown''), 1)]"
  by code_simp

theorem flush_loses_nothing_witness:
  "\<exists>k' b c. flush_rollups (\<lambda>_. None) 1000 profiled_sink = (k', None) \<and>
     map_of (db_rollups (sk_db k')) (0, 20, ''n'', ''unknown'') = Some (bucket_to_row 20 b) \<and>
     map_of (db_gpm_rollups (sk_db k')) (0, 20, ''n'', ''unknown'') = Some (gpm_bucket_to_row 20 c) \<and>
     rb_sample_count b = 1 \<and> wb_expected_count c = 1"
proof -
  obtain k' e where f: "flush_rollups (\<lambda>_. None) 1000 profiled_sink = (k', e)" by fastforce
  then have e: "e = None" by (auto simp: flush_rollups_def then_op_def store_op_def Let_def)
  obtain b where b: "map_of (sk_rollup_20s profiled_sink) (0, ''n'', ''unknown'') = Some b" "rb_sample_count b = 1"
    using profiled_sink_buckets by (auto simp: map_eq_Cons_conv)
  obtain c where c: "map_of (sk_gpm_rollup_20s profiled_sink) (0, ''n'', ''unknown'') = Some c" "wb_expected_count c = 1"
    using profiled_sink_buckets by (auto simp: map_eq_Cons_conv)
  have "(0 :: rat) + 20 \<le> 1000 - 20" by simp
  with flush_loses_nothing[OF profiled_sink_reached f] b c e f show ?thesis
    by (intro exI[of _ k'] exI[of _ b] exI[of _ c]) simp
qed

end
