(* ===== verification/Analytics.thy ===== *)
theory Analytics
  imports Database
begin

text \<open>
  \<open>packages/backend/src/constella/analytics.py\<close>: the usage of accelerators by users and jobs over a
  range of time, the idle jobs, the off-hours statistics and the rollup series of a node.

  A query row is a record with the columns of its SELECT; a REAL column holds a number or NULL and a
  TEXT column a text or NULL.  The local time of the configured zone is a parameter: \<^verbatim>\<open>local t\<close> gives
  the hour and the weekday (Monday is 0) of a timestamp.
\<close>

subsection \<open>Columns\<close>

fun real_column :: "pyval \<Rightarrow> rat option" where
  "real_column (PInt i) = Some (of_int i)"
| "real_column (PFlt (Fin x)) = Some x"
| "real_column _ = None"

fun int_column :: "pyval \<Rightarrow> int option" where
  "int_column (PInt i) = Some i"
| "int_column _ = None"

fun text_column :: "pyval \<Rightarrow> string option" where
  "text_column PNone = None"
| "text_column v = Some (py_str v)"

record usage_view =
  uv_session_id :: string
  uv_node_id :: string
  uv_pid :: int
  uv_ppid :: "int option"
  uv_process_start_time :: "rat option"
  uv_parent_start_time :: "rat option"
  uv_user :: "string option"
  uv_task_name :: "string option"
  uv_session_first_seen_at :: rat
  uv_session_last_seen_at :: rat
  uv_status :: session_status
  uv_gpu_uuid :: string
  uv_first_seen_at :: rat
  uv_last_seen_at :: rat
  uv_avg_memory_mb :: rat
  uv_gpu_name :: "string option"
  uv_gpu_index :: "int option"
  uv_device_type :: "string option"
  uv_card_id :: "string option"

subsection \<open>Constants\<close>

definition DEFAULT_GPU_WEIGHTS :: "(string, rat) dict" where
  "DEFAULT_GPU_WEIGHTS =
     [(''H100'', 1), (''PRO 6000'', 9 / 10), (''PRO 5000'', 8 / 10), (''RTX 4090'', 75 / 100), (''DEFAULT'', 1)]"

definition RANGES :: "(string, int) dict" where
  "RANGES = [(''1h'', 60 * 60), (''24h'', 24 * 60 * 60), (''7d'', 7 * 24 * 60 * 60), (''30d'', 30 * 24 * 60 * 60)]"

definition JOB_PARENT_GROUP_MAX_AGE_SECONDS :: rat where
  "JOB_PARENT_GROUP_MAX_AGE_SECONDS = 10 * 60"

subsection \<open>Names, weights and keys\<close>

definition gpu_weight :: "string option \<Rightarrow> rat" where
  "gpu_weight name =
     (let normalized = py_join '' '' (py_split_ws (py_upper (case name of None \<Rightarrow> [] | Some n \<Rightarrow> n)))
      in case find (\<lambda>kw. fst kw \<noteq> ''DEFAULT'' \<and> py_contains (fst kw) normalized) DEFAULT_GPU_WEIGHTS of
           Some kw \<Rightarrow> snd kw | None \<Rightarrow> get_or DEFAULT_GPU_WEIGHTS ''DEFAULT'' 1)"

text \<open>\<^verbatim>\<open>s.replace(sub, "")\<close> for a non-empty \<^verbatim>\<open>sub\<close>: leftmost, non-overlapping occurrences.\<close>

function py_remove :: "string \<Rightarrow> string \<Rightarrow> string" where
  "py_remove sub s =
     (if sub = [] then s
      else case s of [] \<Rightarrow> []
        | c # t \<Rightarrow> if py_startswith s sub then py_remove sub (drop (length sub) s) else c # py_remove sub t)"
  by pat_completeness auto
termination
  by (relation "measure (\<lambda>(sub, s). length s)") auto

declare py_remove.simps [simp del]

definition compact_gpu_name :: "string option \<Rightarrow> string" where
  "compact_gpu_name name = py_remove ''NVIDIA '' (str_or name ''unknown'')"

definition overlap_seconds :: "rat \<Rightarrow> rat \<Rightarrow> rat \<Rightarrow> rat \<Rightarrow> rat" where
  "overlap_seconds first_seen_at last_seen_at range_start range_end =
     max 0 (min last_seen_at range_end - max first_seen_at range_start)"

text \<open>\<^verbatim>\<open>a or b\<close> for a number or NULL.\<close>

definition num_or :: "'a :: zero option \<Rightarrow> 'a option \<Rightarrow> 'a option" where
  "num_or a b = (case a of None \<Rightarrow> b | Some x \<Rightarrow> if x = 0 then b else a)"

definition num_text :: "rat option \<Rightarrow> string" where
  "num_text v = (case v of None \<Rightarrow> ''None'' | Some x \<Rightarrow> float_repr (Fin x))"

definition int_text :: "int option \<Rightarrow> string" where
  "int_text v = (case v of None \<Rightarrow> ''None'' | Some i \<Rightarrow> int_str i)"

text \<open>The fields of a row that identify its job.\<close>

record job_ident =
  ji_node_id :: string
  ji_user :: "string option"
  ji_pid :: int
  ji_ppid :: "int option"
  ji_process_start_time :: "rat option"
  ji_parent_start_time :: "rat option"
  ji_first_seen_at :: rat

definition grouped_with_parent :: "job_ident \<Rightarrow> bool" where
  "grouped_with_parent r =
     (case (num_or (ji_process_start_time r) (Some (ji_first_seen_at r)), ji_parent_start_time r, ji_ppid r) of
        (Some process_start, Some parent_start, Some ppid) \<Rightarrow>
          0 \<le> process_start - parent_start \<and> process_start - parent_start \<le> JOB_PARENT_GROUP_MAX_AGE_SECONDS
      | _ \<Rightarrow> False)"

definition job_start :: "job_ident \<Rightarrow> rat option" where
  "job_start r =
     (if grouped_with_parent r then ji_parent_start_time r
      else num_or (num_or (ji_process_start_time r) (Some (ji_first_seen_at r)))
             (num_or (ji_parent_start_time r) (Some (ji_first_seen_at r))))"

definition job_owner :: "job_ident \<Rightarrow> int option" where
  "job_owner r = (if grouped_with_parent r then ji_ppid r else num_or (Some (ji_pid r)) (ji_ppid r))"

definition user_or_unknown :: "string option \<Rightarrow> string" where
  "user_or_unknown u = str_or u ''unknown''"

definition job_key :: "job_ident \<Rightarrow> string" where
  "job_key r = ji_node_id r @ '':'' @ user_or_unknown (ji_user r) @ '':'' @ num_text (job_start r) @ '':'' @ int_text (job_owner r)"

definition usage_ident :: "usage_view \<Rightarrow> job_ident" where
  "usage_ident r =
     \<lparr>ji_node_id = uv_node_id r, ji_user = uv_user r, ji_pid = uv_pid r, ji_ppid = uv_ppid r,
      ji_process_start_time = uv_process_start_time r, ji_parent_start_time = uv_parent_start_time r,
      ji_first_seen_at = uv_first_seen_at r\<rparr>"

definition physical_card_key :: "usage_view \<Rightarrow> string" where
  "physical_card_key r =
     (case uv_card_id r of
        Some cid \<Rightarrow> if uv_device_type r = Some ''ascend'' then uv_node_id r @ '':ascend:'' @ cid
                     else uv_node_id r @ '':'' @ uv_gpu_uuid r
      | None \<Rightarrow> uv_node_id r @ '':'' @ uv_gpu_uuid r)"

subsection \<open>The rows of a range\<close>

text \<open>\<^verbatim>\<open>LEFT JOIN gpus g ON g.node_id = u.node_id AND g.uuid = u.gpu_uuid\<close>.\<close>

definition joined_gpus :: "database \<Rightarrow> string \<Rightarrow> string \<Rightarrow> gpu_row option list" where
  "joined_gpus db node_id uuid =
     (case filter (\<lambda>g. gw_node_id g = node_id \<and> gw_uuid g = uuid) (values_of (db_gpus db)) of
        [] \<Rightarrow> [None] | gs \<Rightarrow> map Some gs)"

definition usage_view_of :: "string \<Rightarrow> session_row \<Rightarrow> string \<Rightarrow> usage_row \<Rightarrow> gpu_row option \<Rightarrow> usage_view" where
  "usage_view_of sid s uuid u g =
     \<lparr>uv_session_id = sid, uv_node_id = ss_node_id s, uv_pid = ss_pid s, uv_ppid = int_column (ss_ppid s),
      uv_process_start_time = real_column (ss_process_start_time s),
      uv_parent_start_time = real_column (ss_parent_start_time s),
      uv_user = text_column (ss_user s), uv_task_name = text_column (ss_task_name s),
      uv_session_first_seen_at = ss_first_seen_at s, uv_session_last_seen_at = ss_last_seen_at s,
      uv_status = ss_status s, uv_gpu_uuid = uuid, uv_first_seen_at = us_first_seen_at u,
      uv_last_seen_at = us_last_seen_at u, uv_avg_memory_mb = us_avg_memory_mb u,
      uv_gpu_name = map_option gw_name g, uv_gpu_index = map_option gw_gpu_index g,
      uv_device_type = map_option gw_device_type g,
      uv_card_id = (case g of None \<Rightarrow> None | Some gr \<Rightarrow> gw_card_id gr)\<rparr>"

definition usage_rows :: "database \<Rightarrow> rat \<Rightarrow> rat \<Rightarrow> usage_view list" where
  "usage_rows db range_start range_end =
     concat (map (\<lambda>((sid, uuid), u).
        case map_of (db_sessions db) sid of
          None \<Rightarrow> []
        | Some s \<Rightarrow> map (usage_view_of sid s uuid u) (joined_gpus db (us_node_id u) uuid))
       (filter (\<lambda>ku. range_start \<le> us_last_seen_at (snd ku) \<and> us_first_seen_at (snd ku) \<le> range_end) (db_usages db)))"

subsection \<open>Usage per user and per job\<close>

record user_usage =
  ug_user :: string
  ug_gpu_hours :: rat
  ug_weighted_gpu_hours :: rat
  ug_sessions :: "string set"
  ug_jobs :: "string set"
  ug_last_seen_at :: rat
  ug_gpu_model_seconds :: "(string, rat) dict"

definition new_user_usage :: "string \<Rightarrow> user_usage" where
  "new_user_usage user =
     \<lparr>ug_user = user, ug_gpu_hours = 0, ug_weighted_gpu_hours = 0, ug_sessions = {}, ug_jobs = {},
      ug_last_seen_at = 0, ug_gpu_model_seconds = []\<rparr>"

record job_usage =
  ju_job_key :: string
  ju_user :: string
  ju_node_id :: string
  ju_task_name :: "string option"
  ju_started_at :: rat
  ju_last_seen_at :: rat
  ju_status :: session_status
  ju_gpu_hours :: rat
  ju_weighted_gpu_hours :: rat
  ju_sessions :: "string set"
  ju_gpu_uuids :: "string set"
  ju_gpu_indices :: "int set"
  ju_card_keys :: "string set"
  ju_pids :: "int set"
  ju_memory_seconds :: rat
  ju_usage_seconds :: rat

definition new_job_usage :: "string \<Rightarrow> usage_view \<Rightarrow> job_usage" where
  "new_job_usage key r =
     \<lparr>ju_job_key = key, ju_user = user_or_unknown (uv_user r), ju_node_id = uv_node_id r, ju_task_name = uv_task_name r,
      ju_started_at = uv_session_first_seen_at r, ju_last_seen_at = uv_session_last_seen_at r, ju_status = uv_status r,
      ju_gpu_hours = 0, ju_weighted_gpu_hours = 0, ju_sessions = {}, ju_gpu_uuids = {}, ju_gpu_indices = {},
      ju_card_keys = {}, ju_pids = {}, ju_memory_seconds = 0, ju_usage_seconds = 0\<rparr>"

definition avg_memory_mb :: "job_usage \<Rightarrow> rat" where
  "avg_memory_mb j = (if ju_usage_seconds j \<le> 0 then 0 else ju_memory_seconds j / ju_usage_seconds j)"

definition charge_user :: "bool \<Rightarrow> string \<Rightarrow> rat \<Rightarrow> usage_view \<Rightarrow> user_usage \<Rightarrow> user_usage" where
  "charge_user first key seconds r u =
     (let u1 = (if first then u\<lparr>
            ug_gpu_hours := ug_gpu_hours u + seconds / 3600,
            ug_weighted_gpu_hours := ug_weighted_gpu_hours u + seconds * gpu_weight (uv_gpu_name r) / 3600,
            ug_gpu_model_seconds := AList.update (compact_gpu_name (uv_gpu_name r))
              (get_or (ug_gpu_model_seconds u) (compact_gpu_name (uv_gpu_name r)) 0 + seconds) (ug_gpu_model_seconds u)\<rparr> else u)
      in u1\<lparr>ug_sessions := insert (uv_session_id r) (ug_sessions u1), ug_jobs := insert key (ug_jobs u1),
            ug_last_seen_at := max (ug_last_seen_at u1) (uv_last_seen_at r)\<rparr>)"

definition insert_opt :: "'a option \<Rightarrow> 'a set \<Rightarrow> 'a set" where
  "insert_opt v s = (case v of None \<Rightarrow> s | Some x \<Rightarrow> insert x s)"

definition charge_job :: "bool \<Rightarrow> rat \<Rightarrow> usage_view \<Rightarrow> job_usage \<Rightarrow> job_usage" where
  "charge_job first seconds r j = j\<lparr>
     ju_started_at := min (ju_started_at j) (uv_session_first_seen_at r),
     ju_last_seen_at := max (ju_last_seen_at j) (uv_session_last_seen_at r),
     ju_status := (if uv_status r = Running then Running else ju_status j),
     ju_gpu_hours := ju_gpu_hours j + (if first then seconds / 3600 else 0),
     ju_weighted_gpu_hours := ju_weighted_gpu_hours j + (if first then seconds * gpu_weight (uv_gpu_name r) / 3600 else 0),
     ju_card_keys := insert (physical_card_key r) (ju_card_keys j),
     ju_sessions := insert (uv_session_id r) (ju_sessions j),
     ju_gpu_uuids := insert (uv_gpu_uuid r) (ju_gpu_uuids j),
     ju_gpu_indices := insert_opt (uv_gpu_index r) (ju_gpu_indices j),
     ju_pids := insert (uv_pid r) (ju_pids j),
     ju_memory_seconds := ju_memory_seconds j + uv_avg_memory_mb r * seconds,
     ju_usage_seconds := ju_usage_seconds j + seconds\<rparr>"

record usage_state =
  st_users :: "(string, user_usage) dict"
  st_jobs :: "(string, job_usage) dict"
  st_counted_card_usage :: "(string \<times> string) set"
  st_counted_job_card_usage :: "(string \<times> string \<times> string) set"

definition row_seconds_in :: "rat \<Rightarrow> rat \<Rightarrow> usage_view \<Rightarrow> rat" where
  "row_seconds_in range_start range_end r = overlap_seconds (uv_first_seen_at r) (uv_last_seen_at r) range_start range_end"

definition roll_up_row :: "rat \<Rightarrow> rat \<Rightarrow> usage_view \<Rightarrow> usage_state \<Rightarrow> usage_state" where
  "roll_up_row range_start range_end r st =
     (let seconds = row_seconds_in range_start range_end r;
          user = user_or_unknown (uv_user r); key = job_key (usage_ident r);
          usage_key = (uv_session_id r, physical_card_key r); job_usage_key = (key, uv_session_id r, physical_card_key r)
      in if seconds \<le> 0 then st
         else st\<lparr>
           st_users := AList.update user
             (charge_user (usage_key \<notin> st_counted_card_usage st) key seconds r
               (get_or (st_users st) user (new_user_usage user))) (st_users st),
           st_counted_card_usage := insert usage_key (st_counted_card_usage st),
           st_jobs := AList.update key
             (charge_job (job_usage_key \<notin> st_counted_job_card_usage st) seconds r
               (get_or (st_jobs st) key (new_job_usage key r))) (st_jobs st),
           st_counted_job_card_usage := insert job_usage_key (st_counted_job_card_usage st)\<rparr>)"

definition roll_up_usage :: "usage_view list \<Rightarrow> rat \<Rightarrow> rat \<Rightarrow> usage_state" where
  "roll_up_usage rows range_start range_end =
     fold (roll_up_row range_start range_end) rows
       \<lparr>st_users = [], st_jobs = [], st_counted_card_usage = {}, st_counted_job_card_usage = {}\<rparr>"

subsection \<open>Idle jobs\<close>

definition select_rollup_bucket :: "rat \<Rightarrow> rat \<Rightarrow> int" where
  "select_rollup_bucket range_start range_end =
     (let width = range_end - range_start
      in if width \<le> 7 * 24 * 60 * 60 then ROLLUP_20S else if width \<le> 60 * 24 * 60 * 60 then ROLLUP_2M else ROLLUP_1H)"

definition avg_gpu_utilization :: "database \<Rightarrow> string \<Rightarrow> string set \<Rightarrow> rat \<Rightarrow> rat \<Rightarrow> rat option" where
  "avg_gpu_utilization db node_id gpu_uuids since until =
     (if gpu_uuids = {} \<or> until \<le> since then None
      else
        let bucket = select_rollup_bucket since until;
            rows = filter (\<lambda>r. rr_bucket_seconds r = bucket \<and> rr_node_id r = node_id \<and> rr_gpu_uuid r \<in> gpu_uuids \<and>
                since \<le> rr_bucket_start r \<and> rr_bucket_start r \<le> until) (values_of (db_rollups db))
        in if sum_list (map rr_sample_count rows) = 0 then None
           else Some (weighted rr_sample_count rr_avg_gpu_utilization rows))"

record anomaly =
  an_user :: string
  an_node_id :: string
  an_task_name :: "string option"
  an_duration_seconds :: rat
  an_gpu_memory_gb :: rat
  an_recent_avg :: rat
  an_lifetime_avg :: rat
  an_idle_tail_seconds :: int
  an_gpu_uuids :: "string list"
  an_gpu_indices :: "int list"
  an_pids :: "int list"
  an_last_seen_at :: rat

definition job_duration :: "job_usage \<Rightarrow> rat" where
  "job_duration j = max 0 (ju_last_seen_at j - ju_started_at j)"

definition anomaly_of :: "database \<Rightarrow> rat \<Rightarrow> rat \<Rightarrow> job_usage \<Rightarrow> anomaly option" where
  "anomaly_of db range_start range_end j =
     (if job_duration j < 7200 \<or> avg_memory_mb j < 20 * 1024 then None
      else
        let recent_start = max range_start (range_end - 3600);
            recent_avg = avg_gpu_utilization db (ju_node_id j) (ju_gpu_uuids j) recent_start range_end;
            lifetime_avg = avg_gpu_utilization db (ju_node_id j) (ju_gpu_uuids j)
              (max range_start (ju_started_at j)) (min range_end (ju_last_seen_at j));
            decision_avg = (case recent_avg of Some x \<Rightarrow> Some x | None \<Rightarrow> lifetime_avg)
        in case decision_avg of
             None \<Rightarrow> None
           | Some d \<Rightarrow>
               if 5 \<le> d then None
               else Some \<lparr>an_user = ju_user j, an_node_id = ju_node_id j, an_task_name = ju_task_name j,
                 an_duration_seconds = job_duration j, an_gpu_memory_gb = pyround 1 (avg_memory_mb j / 1024),
                 an_recent_avg = pyround 1 (case recent_avg of Some x \<Rightarrow> x | None \<Rightarrow> d),
                 an_lifetime_avg = pyround 1 (case lifetime_avg of Some x \<Rightarrow> x | None \<Rightarrow> 0),
                 an_idle_tail_seconds = (if recent_avg \<noteq> None then 3600 else 0),
                 an_gpu_uuids = sorted_list_of_set (ju_gpu_uuids j), an_gpu_indices = sorted_list_of_set (ju_gpu_indices j),
                 an_pids = sorted_list_of_set (ju_pids j), an_last_seen_at = ju_last_seen_at j\<rparr>)"

definition anomaly_payloads :: "database \<Rightarrow> job_usage list \<Rightarrow> rat \<Rightarrow> rat \<Rightarrow> anomaly list" where
  "anomaly_payloads db jobs range_start range_end =
     take 20 (List.map_filter (anomaly_of db range_start range_end) jobs)"

subsection \<open>Off hours\<close>

record off_state =
  of_night_sessions :: "string set"
  of_weekend_sessions :: "string set"
  of_user_counts :: "(string, nat) dict"
  of_night_seconds :: rat
  of_weekend_seconds :: rat
  of_night_usage :: "(string \<times> string) set"
  of_weekend_usage :: "(string \<times> string) set"
  of_night_users :: "(string \<times> string) set"
  of_weekend_users :: "(string \<times> string) set"

definition count_user :: "string \<Rightarrow> bool \<Rightarrow> (string, nat) dict \<Rightarrow> (string, nat) dict" where
  "count_user user fresh d = (if fresh then AList.update user (get_or d user 0 + 1) d else d)"

definition off_night :: "rat \<Rightarrow> usage_view \<Rightarrow> off_state \<Rightarrow> off_state" where
  "off_night seconds r st =
     (let user = user_or_unknown (uv_user r); sid = uv_session_id r; usage_key = (sid, physical_card_key r)
      in st\<lparr>of_night_sessions := insert sid (of_night_sessions st),
            of_user_counts := count_user user ((user, sid) \<notin> of_night_users st) (of_user_counts st),
            of_night_users := insert (user, sid) (of_night_users st),
            of_night_seconds := of_night_seconds st + (if usage_key \<notin> of_night_usage st then seconds else 0),
            of_night_usage := insert usage_key (of_night_usage st)\<rparr>)"

definition off_weekend :: "rat \<Rightarrow> usage_view \<Rightarrow> off_state \<Rightarrow> off_state" where
  "off_weekend seconds r st =
     (let user = user_or_unknown (uv_user r); sid = uv_session_id r; usage_key = (sid, physical_card_key r)
      in st\<lparr>of_weekend_sessions := insert sid (of_weekend_sessions st),
            of_user_counts := count_user user ((user, sid) \<notin> of_weekend_users st) (of_user_counts st),
            of_weekend_users := insert (user, sid) (of_weekend_users st),
            of_weekend_seconds := of_weekend_seconds st + (if usage_key \<notin> of_weekend_usage st then seconds else 0),
            of_weekend_usage := insert usage_key (of_weekend_usage st)\<rparr>)"

definition off_row :: "(rat \<Rightarrow> nat \<times> nat) \<Rightarrow> rat \<Rightarrow> rat \<Rightarrow> usage_view \<Rightarrow> off_state \<Rightarrow> off_state" where
  "off_row local range_start range_end r st =
     (let (hour, weekday) = local (max (uv_session_first_seen_at r) range_start);
          seconds = row_seconds_in range_start range_end r;
          st1 = (if hour < 6 then off_night seconds r st else st)
      in if 5 \<le> weekday then off_weekend seconds r st1 else st1)"

record off_hours_payload =
  oh_night_job_count :: nat
  oh_weekend_job_count :: nat
  oh_night_gpu_hours :: rat
  oh_weekend_gpu_hours :: rat
  oh_top_users :: "(string \<times> nat) list"

text \<open>\<^verbatim>\<open>Counter.most_common(n)\<close>: by count, ties in the order of insertion.\<close>

definition most_common :: "nat \<Rightarrow> ('k, 'v :: linorder) dict \<Rightarrow> ('k \<times> 'v) list" where
  "most_common n d = take n (sort_desc snd d)"

definition off_hours :: "(rat \<Rightarrow> nat \<times> nat) \<Rightarrow> usage_view list \<Rightarrow> rat \<Rightarrow> rat \<Rightarrow> off_hours_payload" where
  "off_hours local rows range_start range_end =
     (let st = fold (off_row local range_start range_end) rows
            \<lparr>of_night_sessions = {}, of_weekend_sessions = {}, of_user_counts = [], of_night_seconds = 0,
             of_weekend_seconds = 0, of_night_usage = {}, of_weekend_usage = {}, of_night_users = {}, of_weekend_users = {}\<rparr>
      in \<lparr>oh_night_job_count = card (of_night_sessions st), oh_weekend_job_count = card (of_weekend_sessions st),
          oh_night_gpu_hours = pyround 2 (of_night_seconds st / 3600),
          oh_weekend_gpu_hours = pyround 2 (of_weekend_seconds st / 3600),
          oh_top_users = most_common 8 (of_user_counts st)\<rparr>)"

subsection \<open>Payloads\<close>

record user_payload =
  up_user :: string
  up_gpu_hours :: rat
  up_weighted_gpu_hours :: rat
  up_task_count :: nat
  up_job_count :: nat
  up_last_seen_at :: rat
  up_top_gpu_models :: "(string \<times> rat) list"

definition user_payload_of :: "user_usage \<Rightarrow> user_payload" where
  "user_payload_of u =
     \<lparr>up_user = ug_user u, up_gpu_hours = pyround 2 (ug_gpu_hours u),
      up_weighted_gpu_hours = pyround 2 (ug_weighted_gpu_hours u), up_task_count = card (ug_sessions u),
      up_job_count = card (ug_jobs u), up_last_seen_at = ug_last_seen_at u,
      up_top_gpu_models = map (\<lambda>nv. (fst nv, pyround 2 (snd nv / 3600))) (most_common 3 (ug_gpu_model_seconds u))\<rparr>"

record job_payload =
  jp_job_key :: string
  jp_user :: string
  jp_node_id :: string
  jp_task_name :: "string option"
  jp_started_at :: rat
  jp_last_seen_at :: rat
  jp_duration_seconds :: rat
  jp_gpu_count :: nat
  jp_session_count :: nat
  jp_gpu_hours :: rat
  jp_weighted_gpu_hours :: rat
  jp_status :: session_status

definition job_payload_of :: "job_usage \<Rightarrow> job_payload" where
  "job_payload_of j =
     \<lparr>jp_job_key = ju_job_key j, jp_user = ju_user j, jp_node_id = ju_node_id j, jp_task_name = ju_task_name j,
      jp_started_at = ju_started_at j, jp_last_seen_at = ju_last_seen_at j, jp_duration_seconds = job_duration j,
      jp_gpu_count = card (if ju_card_keys j = {} then ju_gpu_uuids j else ju_card_keys j),
      jp_session_count = card (ju_sessions j), jp_gpu_hours = pyround 2 (ju_gpu_hours j),
      jp_weighted_gpu_hours = pyround 2 (ju_weighted_gpu_hours j), jp_status = ju_status j\<rparr>"

definition range_seconds :: "string \<Rightarrow> string \<Rightarrow> int" where
  "range_seconds name dflt = get_or RANGES name (get_or RANGES dflt 0)"

record 'p overview =
  ov_range_start :: rat
  ov_range_end :: rat
  ov_user_gpu_hours :: "'p + user_payload list"
  ov_job_rankings :: "job_payload list"
  ov_anomalies :: "anomaly list"
  ov_off_hours :: off_hours_payload

text \<open>The optional resolver of users is a parameter.\<close>

definition overview_analytics ::
    "(rat \<Rightarrow> nat \<times> nat) \<Rightarrow> database \<Rightarrow> string \<Rightarrow> rat \<Rightarrow> (usage_view list \<Rightarrow> rat \<Rightarrow> rat \<Rightarrow> 'p) option \<Rightarrow> 'p overview" where
  "overview_analytics local db range_name now user_resolver =
     (let range_start = now - of_int (range_seconds range_name ''7d'');
          rows = usage_rows db range_start now;
          st = roll_up_usage rows range_start now;
          jobs_sorted = sort_desc ju_weighted_gpu_hours (values_of (st_jobs st));
          anomaly_start = now - of_int (get_or RANGES ''24h'' 0);
          anomaly_st = roll_up_usage (usage_rows db anomaly_start now) anomaly_start now;
          anomaly_jobs = sort_desc ju_weighted_gpu_hours (values_of (st_jobs anomaly_st))
      in \<lparr>ov_range_start = range_start, ov_range_end = now,
          ov_user_gpu_hours = (case user_resolver of
             Some f \<Rightarrow> Inl (f rows range_start now)
           | None \<Rightarrow> Inr (map user_payload_of (take 20 (sort_desc ug_weighted_gpu_hours (values_of (st_users st)))))),
          ov_job_rankings = map job_payload_of (take 20 jobs_sorted),
          ov_anomalies = anomaly_payloads db anomaly_jobs anomaly_start now,
          ov_off_hours = off_hours local rows range_start now\<rparr>)"

subsection \<open>The rollup series of a node\<close>

definition ceil_rat :: "rat \<Rightarrow> int" where
  "ceil_rat x = \<lceil>x\<rceil>"

definition target_bucket :: "rat \<Rightarrow> int \<Rightarrow> int \<Rightarrow> int" where
  "target_bucket width source_bucket target_points =
     (let wanted = max source_bucket (ceil_rat (width / of_int target_points))
      in ceil_rat (of_int wanted / of_int source_bucket) * source_bucket)"

definition heatmap_bucket :: "rat \<Rightarrow> int" where
  "heatmap_bucket width =
     (if width \<le> 60 * 60 then 5 * 60 else if width \<le> 24 * 60 * 60 then 60 * 60
      else if width \<le> 7 * 24 * 60 * 60 then 6 * 60 * 60 else 24 * 60 * 60)"

record grouped_rollup =
  gq_bucket_start :: rat
  gq_gpu_uuid :: string
  gq_gpu_index :: "int option"
  gq_gpu_name :: "string option"
  gq_avg_gpu_utilization :: rat
  gq_max_gpu_utilization :: rat
  gq_avg_memory_used_mb :: rat
  gq_max_memory_used_mb :: int
  gq_avg_power_watts :: rat
  gq_max_power_watts :: rat
  gq_avg_temperature_c :: rat
  gq_max_temperature_c :: int
  gq_sample_count :: nat

text \<open>
  The columns \<^verbatim>\<open>g.gpu_index\<close> and \<^verbatim>\<open>g.name\<close> are the same for all rows of a group unless an accelerator
  is stored twice; SQLite then picks a row, here the first.
\<close>

definition grouped_rollup_of :: "(rat \<times> string) \<times> (rollup_row \<times> gpu_row option) list \<Rightarrow> grouped_rollup" where
  "grouped_rollup_of g =
     (let rows = map fst (snd g); gpu = (case snd g of [] \<Rightarrow> None | rg # _ \<Rightarrow> snd rg)
      in \<lparr>gq_bucket_start = fst (fst g), gq_gpu_uuid = snd (fst g),
          gq_gpu_index = map_option gw_gpu_index gpu, gq_gpu_name = map_option gw_name gpu,
          gq_avg_gpu_utilization = weighted rr_sample_count rr_avg_gpu_utilization rows,
          gq_max_gpu_utilization = column_max rr_max_gpu_utilization 0 rows,
          gq_avg_memory_used_mb = weighted rr_sample_count rr_avg_memory_used_mb rows,
          gq_max_memory_used_mb = column_max rr_max_memory_used_mb 0 rows,
          gq_avg_power_watts = weighted rr_sample_count rr_avg_power_watts rows,
          gq_max_power_watts = column_max rr_max_power_watts 0 rows,
          gq_avg_temperature_c = weighted rr_sample_count rr_avg_temperature_c rows,
          gq_max_temperature_c = column_max rr_max_temperature_c 0 rows,
          gq_sample_count = sum_list (map rr_sample_count rows)\<rparr>)"

text \<open>NULL sorts before every number.\<close>

definition null_first :: "int option \<Rightarrow> int \<times> int" where
  "null_first v = (case v of None \<Rightarrow> (0, 0) | Some i \<Rightarrow> (1, i))"

definition joined_rollups :: "database \<Rightarrow> string \<Rightarrow> rat \<Rightarrow> rat \<Rightarrow> int \<Rightarrow> (rollup_row \<times> gpu_row option) list" where
  "joined_rollups db node_id range_start range_end source_bucket =
     concat (map (\<lambda>r. map (Pair r) (joined_gpus db (rr_node_id r) (rr_gpu_uuid r)))
       (filter (\<lambda>r. rr_bucket_seconds r = source_bucket \<and> rr_node_id r = node_id \<and>
          range_start \<le> rr_bucket_start r \<and> rr_bucket_start r \<le> range_end) (values_of (db_rollups db))))"

definition grouped_rollups :: "database \<Rightarrow> string \<Rightarrow> rat \<Rightarrow> rat \<Rightarrow> int \<Rightarrow> int \<Rightarrow> grouped_rollup list" where
  "grouped_rollups db node_id range_start range_end source_bucket target =
     sort_key (\<lambda>g. (gq_bucket_start g, null_first (gq_gpu_index g)))
       (map grouped_rollup_of (group_by (\<lambda>rg. (target_start target (rr_bucket_start (fst rg)), rr_gpu_uuid (fst rg)))
          (joined_rollups db node_id range_start range_end source_bucket) []))"

record series_point =
  sp_bucket_start :: rat
  sp_avg_gpu_utilization :: rat
  sp_max_gpu_utilization :: rat
  sp_avg_memory_used_mb :: rat
  sp_max_memory_used_mb :: int
  sp_avg_power_watts :: rat
  sp_max_power_watts :: rat
  sp_avg_temperature_c :: rat
  sp_max_temperature_c :: int
  sp_sample_count :: nat

definition point_of :: "grouped_rollup \<Rightarrow> series_point" where
  "point_of g =
     \<lparr>sp_bucket_start = gq_bucket_start g, sp_avg_gpu_utilization = pyround 1 (gq_avg_gpu_utilization g),
      sp_max_gpu_utilization = pyround 1 (gq_max_gpu_utilization g),
      sp_avg_memory_used_mb = pyround 1 (gq_avg_memory_used_mb g), sp_max_memory_used_mb = gq_max_memory_used_mb g,
      sp_avg_power_watts = pyround 1 (gq_avg_power_watts g), sp_max_power_watts = pyround 1 (gq_max_power_watts g),
      sp_avg_temperature_c = pyround 1 (gq_avg_temperature_c g), sp_max_temperature_c = gq_max_temperature_c g,
      sp_sample_count = gq_sample_count g\<rparr>"

record heat_cell =
  hc_bucket_start :: rat
  hc_avg_gpu_utilization :: rat
  hc_max_gpu_utilization :: rat
  hc_avg_memory_used_mb :: rat
  hc_sample_count :: nat

definition heat_cell_of :: "grouped_rollup \<Rightarrow> heat_cell" where
  "heat_cell_of g =
     \<lparr>hc_bucket_start = gq_bucket_start g, hc_avg_gpu_utilization = pyround 1 (gq_avg_gpu_utilization g),
      hc_max_gpu_utilization = pyround 1 (gq_max_gpu_utilization g),
      hc_avg_memory_used_mb = pyround 1 (gq_avg_memory_used_mb g), hc_sample_count = gq_sample_count g\<rparr>"

record 'p gpu_series =
  gx_gpu_uuid :: string
  gx_gpu_index :: "int option"
  gx_gpu_name :: "string option"
  gx_points :: "'p list"

text \<open>The key \<^verbatim>\<open>(gpu_index is None, gpu_index or 0, gpu_uuid)\<close>.\<close>

definition series_order :: "'p gpu_series \<Rightarrow> int \<times> int \<times> string" where
  "series_order x =
     (case gx_gpu_index x of None \<Rightarrow> (1, 0, gx_gpu_uuid x) | Some i \<Rightarrow> (0, i, gx_gpu_uuid x))"

definition by_gpu :: "(grouped_rollup \<Rightarrow> 'p) \<Rightarrow> grouped_rollup list \<Rightarrow> 'p gpu_series list" where
  "by_gpu f rows =
     sort_key series_order (map (\<lambda>(uuid, gs).
        \<lparr>gx_gpu_uuid = uuid, gx_gpu_index = gq_gpu_index (hd gs), gx_gpu_name = gq_gpu_name (hd gs), gx_points = map f gs\<rparr>)
       (group_by gq_gpu_uuid rows []))"

definition rollup_series :: "database \<Rightarrow> string \<Rightarrow> rat \<Rightarrow> rat \<Rightarrow> int \<Rightarrow> int \<Rightarrow> series_point gpu_series list" where
  "rollup_series db node_id range_start range_end source_bucket target =
     by_gpu point_of (grouped_rollups db node_id range_start range_end source_bucket target)"

definition rollup_heatmap :: "database \<Rightarrow> string \<Rightarrow> rat \<Rightarrow> rat \<Rightarrow> int \<Rightarrow> int \<Rightarrow> heat_cell gpu_series list" where
  "rollup_heatmap db node_id range_start range_end source_bucket target =
     by_gpu heat_cell_of (grouped_rollups db node_id range_start range_end source_bucket target)"

definition node_gpus :: "database \<Rightarrow> string \<Rightarrow> gpu_row list" where
  "node_gpus db node_id = sort_key gw_gpu_index (filter (\<lambda>g. gw_node_id g = node_id) (values_of (db_gpus db)))"

record node_report =
  nd_range_start :: rat
  nd_range_end :: rat
  nd_bucket_seconds :: int
  nd_gpus :: "gpu_row list"
  nd_series :: "series_point gpu_series list"
  nd_heatmap :: "heat_cell gpu_series list"
  nd_heatmap_bucket_seconds :: int

definition node_analytics :: "database \<Rightarrow> string \<Rightarrow> string \<Rightarrow> rat \<Rightarrow> node_report" where
  "node_analytics db node_id range_name now =
     (let range_start = now - of_int (range_seconds range_name ''24h'');
          source_bucket = select_rollup_bucket range_start now;
          series_bucket = target_bucket (now - range_start) source_bucket 560;
          heat_bucket = heatmap_bucket (now - range_start)
      in \<lparr>nd_range_start = range_start, nd_range_end = now, nd_bucket_seconds = series_bucket,
          nd_gpus = node_gpus db node_id,
          nd_series = rollup_series db node_id range_start now source_bucket series_bucket,
          nd_heatmap = rollup_heatmap db node_id range_start now source_bucket heat_bucket,
          nd_heatmap_bucket_seconds = heat_bucket\<rparr>)"

subsection \<open>Buckets\<close>

text \<open>
  The width of a series is a positive multiple of the width of its source rows, wide enough that
  a range is cut into at most the wanted number of points, and less than one source row wider than
  needed.
\<close>

theorem target_bucket_bounds:
  assumes "0 < source_bucket" "0 < target_points" "0 \<le> width"
  shows "source_bucket dvd target_bucket width source_bucket target_points \<and>
    source_bucket \<le> target_bucket width source_bucket target_points \<and>
    width \<le> of_int (target_points * target_bucket width source_bucket target_points) \<and>
    target_bucket width source_bucket target_points < max source_bucket \<lceil>width / of_int target_points\<rceil> + source_bucket"
proof -
  define wanted where "wanted = max source_bucket \<lceil>width / of_int target_points\<rceil>"
  define k where "k = \<lceil>of_int wanted / (of_int source_bucket :: rat)\<rceil>"
  have s: "(0 :: rat) < of_int source_bucket" using assms(1) by simp
  have t: "target_bucket width source_bucket target_points = k * source_bucket"
    by (simp add: target_bucket_def ceil_rat_def wanted_def k_def)
  have "of_int wanted / (of_int source_bucket :: rat) \<le> of_int k" unfolding k_def by (rule le_of_int_ceiling)
  then have "(of_int wanted :: rat) \<le> of_int (k * source_bucket)" using s by (simp add: divide_le_eq)
  then have ge: "wanted \<le> k * source_bucket" by linarith
  have "(of_int k :: rat) < of_int wanted / of_int source_bucket + 1"
    unfolding k_def using ceiling_correct[of "of_int wanted / (of_int source_bucket :: rat)"] by linarith
  then have "(of_int (k * source_bucket) :: rat) < of_int wanted + of_int source_bucket"
    using s by (simp add: field_simps)
  then have lt: "k * source_bucket < wanted + source_bucket" by linarith
  have "width / of_int target_points \<le> of_int wanted"
    unfolding wanted_def by (meson le_of_int_ceiling max.cobounded2 of_int_le_iff order_trans)
  then have "width \<le> of_int wanted * of_int target_points" using assms(2) by (simp add: divide_le_eq)
  also have "\<dots> \<le> of_int (k * source_bucket) * of_int target_points"
    using ge assms(2) by (intro mult_right_mono) (simp_all flip: of_int_mult)
  finally have "width \<le> of_int (target_points * (k * source_bucket))" by (simp add: mult.commute)
  moreover have "source_bucket \<le> k * source_bucket" using ge by (simp add: wanted_def)
  ultimately show ?thesis using lt by (simp add: t wanted_def)
qed

theorem target_bucket_bounds_witness:
  "20 dvd target_bucket 86400 20 560 \<and> 20 \<le> target_bucket 86400 20 560"
  using target_bucket_bounds[of 20 560 86400] by simp

subsection \<open>Conservation of usage\<close>

definition total_of :: "('v \<Rightarrow> rat) \<Rightarrow> ('k, 'v) dict \<Rightarrow> rat" where
  "total_of f d = sum_list (map (\<lambda>kv. f (snd kv)) d)"

lemma total_of_update:
  "total_of f (AList.update k v d) = total_of f d + f v - (case map_of d k of None \<Rightarrow> 0 | Some w \<Rightarrow> f w)"
  by (induction d) (auto simp: total_of_def)

lemma total_of_update_default:
  assumes "f dflt = 0"
  shows "total_of f (AList.update k (change (get_or d k dflt)) d) = total_of f d + (f (change (get_or d k dflt)) - f (get_or d k dflt))"
  using assms by (cases "map_of d k") (simp_all add: total_of_update get_or_def)

lemma charged_hours [simp]:
  "ug_gpu_hours (charge_user first key seconds r u) = ug_gpu_hours u + (if first then seconds / 3600 else 0)"
  "ug_weighted_gpu_hours (charge_user first key seconds r u) =
     ug_weighted_gpu_hours u + (if first then seconds * gpu_weight (uv_gpu_name r) / 3600 else 0)"
  "ju_gpu_hours (charge_job first seconds r j) = ju_gpu_hours j + (if first then seconds / 3600 else 0)"
  "ju_weighted_gpu_hours (charge_job first seconds r j) =
     ju_weighted_gpu_hours j + (if first then seconds * gpu_weight (uv_gpu_name r) / 3600 else 0)"
  by (simp_all add: charge_user_def charge_job_def Let_def)

text \<open>The rows that come first for their key, and what a fold over rows charges them.\<close>

fun first_by :: "('a \<Rightarrow> 'k) \<Rightarrow> 'a list \<Rightarrow> 'a list" where
  "first_by key [] = []"
| "first_by key (x # xs) = x # filter (\<lambda>y. key y \<noteq> key x) (first_by key xs)"

lemma set_first_by: "set (first_by key xs) \<subseteq> set xs"
  by (induction xs) auto

lemma first_by_cong:
  assumes "\<And>x y. x \<in> set xs \<Longrightarrow> y \<in> set xs \<Longrightarrow> key x = key y \<longleftrightarrow> key' x = key' y"
  shows "first_by key xs = first_by key' xs"
  using assms
proof (induction xs)
  case (Cons x xs)
  have "filter (\<lambda>y. key y \<noteq> key x) (first_by key' xs) = filter (\<lambda>y. key' y \<noteq> key' x) (first_by key' xs)"
    using Cons.prems set_first_by[of key' xs] by (intro filter_cong[OF refl]) (metis list.set_intros subsetD)
  then show ?case using Cons by simp
qed simp

lemma fold_charges:
  fixes w :: "'r \<Rightarrow> rat"
  assumes "\<And>r st. counted (step r st) = (if P r then insert (key r) (counted st) else counted st)"
    "\<And>r st. h (step r st) = h st + (if P r \<and> key r \<notin> counted st then w r else 0)"
  shows "h (fold step rows st) =
    h st + sum_list (map w (filter (\<lambda>r. key r \<notin> counted st) (first_by key (filter P rows))))"
proof (induction rows arbitrary: st)
  case (Cons r rows)
  have eq: "filter (\<lambda>x. key x \<noteq> key r \<and> key x \<notin> counted st) xs =
      filter (\<lambda>x. key x \<notin> counted st \<and> key x \<noteq> key r) xs" for xs :: "'r list"
    by (rule filter_cong) auto
  show ?case by (auto simp: Cons assms eq)
qed simp

text \<open>
  What is counted, in terms of the columns alone: the overlap of a row with the range, the card a
  session used (the dies of an Ascend card are one card), and the user.
\<close>

definition overlap :: "rat \<Rightarrow> rat \<Rightarrow> usage_view \<Rightarrow> rat" where
  "overlap since until r = max 0 (min (uv_last_seen_at r) until - max (uv_first_seen_at r) since)"

definition card_use :: "usage_view \<Rightarrow> string \<times> string" where
  "card_use r = (uv_session_id r,
     if uv_device_type r = Some ''ascend'' \<and> uv_card_id r \<noteq> None
     then uv_node_id r @ '':ascend:'' @ the (uv_card_id r) else uv_node_id r @ '':'' @ uv_gpu_uuid r)"

definition user_of :: "usage_view \<Rightarrow> string" where
  "user_of r = (if uv_user r = None \<or> uv_user r = Some [] then ''unknown'' else the (uv_user r))"

definition job_of :: "usage_view \<Rightarrow> string" where
  "job_of r = job_key (usage_ident r)"

definition charged_rows :: "rat \<Rightarrow> rat \<Rightarrow> usage_view list \<Rightarrow> usage_view list" where
  "charged_rows since until rows = first_by card_use (filter (\<lambda>r. 0 < overlap since until r) rows)"

definition job_charged_rows :: "rat \<Rightarrow> rat \<Rightarrow> usage_view list \<Rightarrow> usage_view list" where
  "job_charged_rows since until rows =
     first_by (\<lambda>r. (job_of r, card_use r)) (filter (\<lambda>r. 0 < overlap since until r) rows)"

definition hours_in :: "('v \<Rightarrow> rat) \<Rightarrow> ('k, 'v) dict \<Rightarrow> 'k \<Rightarrow> rat" where
  "hours_in f d k = (case map_of d k of None \<Rightarrow> 0 | Some v \<Rightarrow> f v)"

definition overlap_hours :: "rat \<Rightarrow> rat \<Rightarrow> (usage_view \<Rightarrow> rat) \<Rightarrow> usage_view list \<Rightarrow> rat" where
  "overlap_hours since until factor rows = sum_list (map (\<lambda>r. overlap since until r * factor r / 3600) rows)"

lemma hours_in_update [simp]:
  "hours_in f (AList.update k v d) k' = (if k' = k then f v else hours_in f d k')"
  by (simp add: hours_in_def update_conv)

lemma hours_in_get_or: "f dflt = 0 \<Longrightarrow> f (get_or d k dflt) = hours_in f d k"
  by (simp add: hours_in_def get_or_def split: option.split)

lemma row_columns:
  "row_seconds_in since until r = overlap since until r"
  "(uv_session_id r, physical_card_key r) = card_use r"
  "user_or_unknown (uv_user r) = user_of r"
  by (simp_all add: row_seconds_in_def overlap_seconds_def overlap_def physical_card_key_def card_use_def
      user_or_unknown_def str_or_def user_of_def split: option.split)

lemma roll_up_row_counted:
  "st_counted_card_usage (roll_up_row since until r st) =
     (if 0 < overlap since until r then insert (card_use r) (st_counted_card_usage st) else st_counted_card_usage st)"
  "st_counted_job_card_usage (roll_up_row since until r st) =
     (if 0 < overlap since until r then insert (job_of r, card_use r) (st_counted_job_card_usage st)
      else st_counted_job_card_usage st)"
  by (simp_all add: roll_up_row_def Let_def row_columns job_of_def)

lemma roll_up_row_hours:
  "hours_in ug_gpu_hours (st_users (roll_up_row since until r st)) u = hours_in ug_gpu_hours (st_users st) u +
     (if 0 < overlap since until r \<and> card_use r \<notin> st_counted_card_usage st
      then if user_of r = u then overlap since until r / 3600 else 0 else 0)"
  "hours_in ug_weighted_gpu_hours (st_users (roll_up_row since until r st)) u = hours_in ug_weighted_gpu_hours (st_users st) u +
     (if 0 < overlap since until r \<and> card_use r \<notin> st_counted_card_usage st
      then if user_of r = u then overlap since until r * gpu_weight (uv_gpu_name r) / 3600 else 0 else 0)"
  "hours_in ju_gpu_hours (st_jobs (roll_up_row since until r st)) j = hours_in ju_gpu_hours (st_jobs st) j +
     (if 0 < overlap since until r \<and> (job_of r, card_use r) \<notin> st_counted_job_card_usage st
      then if job_of r = j then overlap since until r / 3600 else 0 else 0)"
  "hours_in ju_weighted_gpu_hours (st_jobs (roll_up_row since until r st)) j = hours_in ju_weighted_gpu_hours (st_jobs st) j +
     (if 0 < overlap since until r \<and> (job_of r, card_use r) \<notin> st_counted_job_card_usage st
      then if job_of r = j then overlap since until r * gpu_weight (uv_gpu_name r) / 3600 else 0 else 0)"
  by (simp_all add: roll_up_row_def Let_def row_columns job_of_def[symmetric] hours_in_get_or new_user_usage_def
      new_job_usage_def)

lemma roll_up_row_totals:
  "total_of ug_gpu_hours (st_users (roll_up_row since until r st)) = total_of ug_gpu_hours (st_users st) +
     (if 0 < overlap since until r \<and> card_use r \<notin> st_counted_card_usage st then overlap since until r / 3600 else 0)"
  "total_of ug_weighted_gpu_hours (st_users (roll_up_row since until r st)) = total_of ug_weighted_gpu_hours (st_users st) +
     (if 0 < overlap since until r \<and> card_use r \<notin> st_counted_card_usage st
      then overlap since until r * gpu_weight (uv_gpu_name r) / 3600 else 0)"
  "total_of ju_gpu_hours (st_jobs (roll_up_row since until r st)) = total_of ju_gpu_hours (st_jobs st) +
     (if 0 < overlap since until r \<and> (job_of r, card_use r) \<notin> st_counted_job_card_usage st
      then overlap since until r / 3600 else 0)"
  "total_of ju_weighted_gpu_hours (st_jobs (roll_up_row since until r st)) = total_of ju_weighted_gpu_hours (st_jobs st) +
     (if 0 < overlap since until r \<and> (job_of r, card_use r) \<notin> st_counted_job_card_usage st
      then overlap since until r * gpu_weight (uv_gpu_name r) / 3600 else 0)"
  by (simp_all add: roll_up_row_def Let_def row_columns job_of_def[symmetric] total_of_update_default
      new_user_usage_def new_job_usage_def)

lemmas usage_folds =
  fold_charges[where counted = st_counted_card_usage, OF roll_up_row_counted(1) roll_up_row_hours(1)]
  fold_charges[where counted = st_counted_card_usage, OF roll_up_row_counted(1) roll_up_row_hours(2)]
  fold_charges[where counted = st_counted_job_card_usage, OF roll_up_row_counted(2) roll_up_row_hours(3)]
  fold_charges[where counted = st_counted_job_card_usage, OF roll_up_row_counted(2) roll_up_row_hours(4)]
  fold_charges[where counted = st_counted_card_usage, OF roll_up_row_counted(1) roll_up_row_totals(1)]
  fold_charges[where counted = st_counted_card_usage, OF roll_up_row_counted(1) roll_up_row_totals(2)]
  fold_charges[where counted = st_counted_job_card_usage, OF roll_up_row_counted(2) roll_up_row_totals(3)]
  fold_charges[where counted = st_counted_job_card_usage, OF roll_up_row_counted(2) roll_up_row_totals(4)]

lemma sum_list_if: "sum_list (map (\<lambda>r. if P r then w r else 0) xs) = sum_list (map w (filter P xs))"
  for w :: "'a \<Rightarrow> rat"
  by (induction xs) auto

lemma job_charged_rows_single:
  assumes "\<forall>r \<in> set rows. job_of r = K (uv_session_id r)"
  shows "job_charged_rows since until rows = charged_rows since until rows"
  unfolding job_charged_rows_def charged_rows_def
  by (rule first_by_cong) (use assms in \<open>auto simp: card_use_def\<close>)

text \<open>
  C32: usage is counted exactly: the hours of a user, plain and weighted, are the overlaps with the
  range of the rows of that user, each pair of session and card counted once, with its first row; the
  hours of a job count each card of each of its sessions once.  When every session belongs to one
  job, the hours of all users and of all jobs have the same total, the overlap of the rows counted.
\<close>

theorem usage_conserved:
  assumes "st = roll_up_usage rows since until"
  shows "hours_in ug_gpu_hours (st_users st) u =
      overlap_hours since until (\<lambda>_. 1) [r \<leftarrow> charged_rows since until rows. user_of r = u] \<and>
    hours_in ug_weighted_gpu_hours (st_users st) u =
      overlap_hours since until (\<lambda>r. gpu_weight (uv_gpu_name r)) [r \<leftarrow> charged_rows since until rows. user_of r = u] \<and>
    hours_in ju_gpu_hours (st_jobs st) j =
      overlap_hours since until (\<lambda>_. 1) [r \<leftarrow> job_charged_rows since until rows. job_of r = j] \<and>
    hours_in ju_weighted_gpu_hours (st_jobs st) j =
      overlap_hours since until (\<lambda>r. gpu_weight (uv_gpu_name r)) [r \<leftarrow> job_charged_rows since until rows. job_of r = j] \<and>
    total_of ug_gpu_hours (st_users st) = overlap_hours since until (\<lambda>_. 1) (charged_rows since until rows) \<and>
    total_of ug_weighted_gpu_hours (st_users st) =
      overlap_hours since until (\<lambda>r. gpu_weight (uv_gpu_name r)) (charged_rows since until rows) \<and>
    ((\<forall>r \<in> set rows. job_of r = K (uv_session_id r)) \<longrightarrow>
      total_of ju_gpu_hours (st_jobs st) = total_of ug_gpu_hours (st_users st) \<and>
      total_of ju_weighted_gpu_hours (st_jobs st) = total_of ug_weighted_gpu_hours (st_users st))"
proof -
  have users: "hours_in ug_gpu_hours (st_users st) u =
        overlap_hours since until (\<lambda>_. 1) [r \<leftarrow> charged_rows since until rows. user_of r = u]"
      "hours_in ug_weighted_gpu_hours (st_users st) u =
        overlap_hours since until (\<lambda>r. gpu_weight (uv_gpu_name r)) [r \<leftarrow> charged_rows since until rows. user_of r = u]"
    and jobs: "hours_in ju_gpu_hours (st_jobs st) j =
        overlap_hours since until (\<lambda>_. 1) [r \<leftarrow> job_charged_rows since until rows. job_of r = j]"
      "hours_in ju_weighted_gpu_hours (st_jobs st) j =
        overlap_hours since until (\<lambda>r. gpu_weight (uv_gpu_name r)) [r \<leftarrow> job_charged_rows since until rows. job_of r = j]"
    and totals: "total_of ug_gpu_hours (st_users st) = overlap_hours since until (\<lambda>_. 1) (charged_rows since until rows)"
      "total_of ug_weighted_gpu_hours (st_users st) =
        overlap_hours since until (\<lambda>r. gpu_weight (uv_gpu_name r)) (charged_rows since until rows)"
      "total_of ju_gpu_hours (st_jobs st) = overlap_hours since until (\<lambda>_. 1) (job_charged_rows since until rows)"
      "total_of ju_weighted_gpu_hours (st_jobs st) =
        overlap_hours since until (\<lambda>r. gpu_weight (uv_gpu_name r)) (job_charged_rows since until rows)"
    unfolding assms roll_up_usage_def usage_folds charged_rows_def job_charged_rows_def overlap_hours_def
    by (simp_all add: sum_list_if hours_in_def total_of_def)
  have "total_of ju_gpu_hours (st_jobs st) = total_of ug_gpu_hours (st_users st) \<and>
      total_of ju_weighted_gpu_hours (st_jobs st) = total_of ug_weighted_gpu_hours (st_users st)"
    if "\<forall>r \<in> set rows. job_of r = K (uv_session_id r)"
    using job_charged_rows_single[OF that] by (simp add: totals)
  with users jobs totals show ?thesis by blast
qed

definition plain_usage :: "rat \<Rightarrow> rat \<Rightarrow> usage_view" where
  "plain_usage first_seen last_seen =
     \<lparr>uv_session_id = ''s'', uv_node_id = ''n'', uv_pid = 7, uv_ppid = None, uv_process_start_time = None,
      uv_parent_start_time = None, uv_user = Some ''ann'', uv_task_name = None, uv_session_first_seen_at = first_seen,
      uv_session_last_seen_at = last_seen, uv_status = Running, uv_gpu_uuid = ''u'', uv_first_seen_at = first_seen,
      uv_last_seen_at = last_seen, uv_avg_memory_mb = 0, uv_gpu_name = None, uv_gpu_index = None,
      uv_device_type = None, uv_card_id = None\<rparr>"

lemma plain_usage_charged:
  "charged_rows 0 7200 [plain_usage 0 3600, plain_usage 0 3600] = [plain_usage 0 3600]"
  "overlap 0 7200 (plain_usage 0 3600) = 3600" "user_of (plain_usage 0 3600) = ''ann''"
  "uv_session_id (plain_usage 0 3600) = ''s''"
  by (simp_all add: charged_rows_def overlap_def plain_usage_def user_of_def)

theorem usage_conserved_witness:
  "hours_in ug_gpu_hours (st_users (roll_up_usage [plain_usage 0 3600, plain_usage 0 3600] 0 7200)) ''ann'' = 1 \<and>
   total_of ju_gpu_hours (st_jobs (roll_up_usage [plain_usage 0 3600, plain_usage 0 3600] 0 7200)) = 1"
  using usage_conserved[OF refl, of "[plain_usage 0 3600, plain_usage 0 3600]" 0 7200 "''ann''" _
      "\<lambda>_. job_of (plain_usage 0 3600)"]
  by (simp add: plain_usage_charged overlap_hours_def)

text \<open>
  Without a start time the job of a session is not well defined: the usage rows of one session
  take the first sighting of each accelerator as the start of the job, so a session that moves to a
  second accelerator later counts as two jobs.
\<close>

theorem job_split_per_gpu:
  assumes "ss_process_start_time s = PNone" "ss_parent_start_time s = PNone"
    "us_first_seen_at u1 \<noteq> us_first_seen_at u2" "us_first_seen_at u1 \<noteq> 0" "us_first_seen_at u2 \<noteq> 0"
  shows "job_start (usage_ident (usage_view_of sid s uuid1 u1 g1)) = Some (us_first_seen_at u1) \<and>
    job_start (usage_ident (usage_view_of sid s uuid2 u2 g2)) = Some (us_first_seen_at u2) \<and>
    job_start (usage_ident (usage_view_of sid s uuid1 u1 g1)) \<noteq> job_start (usage_ident (usage_view_of sid s uuid2 u2 g2))"
  using assms by (simp add: job_start_def grouped_with_parent_def usage_ident_def usage_view_of_def num_or_def)

end
