(* ===== verification/SampleRings.thy ===== *)
theory SampleRings
  imports Schema "HOL-Library.Word"
begin

text \<open>
  The fixed-size sample rings: \<^verbatim>\<open>GpuSampleRing\<close> of \<open>highres.py\<close> and \<^verbatim>\<open>NvidiaGpmSampleRing\<close> of
  \<open>performance_highres.py\<close>.  Both are circular arrays with a write index and a count; the locale
  states what an append has to do to the arrays and concludes that the ring then holds, in
  chronological order, exactly what a queue of bounded length would hold.

  An array of 32-bit floats rounds what is stored in it; the readings the program stores are
  within the range of the format, so no infinity can appear.  The capacity of a ring is positive.
\<close>

unbundle bit_operations_syntax

subsection \<open>Circular arrays\<close>

definition ring_index :: "nat \<Rightarrow> nat \<Rightarrow> nat \<Rightarrow> nat \<Rightarrow> nat" where
  "ring_index capacity write_index cnt offset =
     (if cnt < capacity then offset else (write_index + offset) mod capacity)"

locale circular_array =
  fixes cap :: "'r \<Rightarrow> nat" and cnt :: "'r \<Rightarrow> nat" and wix :: "'r \<Rightarrow> nat"
    and slot :: "'r \<Rightarrow> nat \<Rightarrow> 'a" and entry :: "'e \<Rightarrow> 'a" and push :: "'e \<Rightarrow> 'r \<Rightarrow> 'r" and good :: "'r \<Rightarrow> bool"
  assumes good_bounds: "good r \<Longrightarrow> 0 < cap r \<and> wix r < cap r \<and> cnt r \<le> cap r \<and> (cnt r < cap r \<longrightarrow> wix r = cnt r)"
    and push_good: "good r \<Longrightarrow> good (push x r)"
    and push_cap: "good r \<Longrightarrow> cap (push x r) = cap r"
    and push_cnt: "good r \<Longrightarrow> cnt (push x r) = min (cap r) (cnt r + 1)"
    and push_wix: "good r \<Longrightarrow> wix (push x r) = (wix r + 1) mod cap r"
    and push_slot: "good r \<Longrightarrow> i < cap r \<Longrightarrow> slot (push x r) i = (if i = wix r then entry x else slot r i)"
begin

definition contents :: "'r \<Rightarrow> 'a list" where
  "contents r = map (\<lambda>i. slot r (ring_index (cap r) (wix r) (cnt r) i)) [0..<cnt r]"

lemma length_contents [simp]: "length (contents r) = cnt r"
  by (simp add: contents_def)

lemma contents_nth: "i < cnt r \<Longrightarrow> contents r ! i = slot r (ring_index (cap r) (wix r) (cnt r) i)"
  by (simp add: contents_def)

lemma contents_push_filling:
  assumes "good r" "cnt r < cap r"
  shows "contents (push x r) = contents r @ [entry x]"
proof (rule nth_equalityI)
  note b = good_bounds[OF assms(1)]
  show l: "length (contents (push x r)) = length (contents r @ [entry x])"
    using assms by (simp add: push_cnt)
  fix i assume "i < length (contents (push x r))"
  then have i: "i \<le> cnt r" using l by simp
  have "ring_index (cap r) ((wix r + 1) mod cap r) (cnt r + 1) i = i"
  proof (cases "Suc (cnt r) = cap r")
    case True
    then show ?thesis using b i by (auto simp: ring_index_def)
  next
    case False
    then show ?thesis using assms(2) by (simp add: ring_index_def)
  qed
  then show "contents (push x r) ! i = (contents r @ [entry x]) ! i"
    using assms b i
    by (auto simp: contents_nth nth_append push_cnt push_cap push_wix push_slot ring_index_def)
qed

lemma contents_push_full:
  assumes "good r" "cnt r = cap r"
  shows "contents (push x r) = tl (contents r) @ [entry x]"
proof (rule nth_equalityI)
  note b = good_bounds[OF assms(1)]
  show l: "length (contents (push x r)) = length (tl (contents r) @ [entry x])"
    using assms b by (simp add: push_cnt)
  fix i assume "i < length (contents (push x r))"
  then have i: "i < cap r" using assms by (simp add: push_cnt)
  have e: "(Suc (wix r) mod cap r + i) mod cap r = Suc (wix r + i) mod cap r"
    using mod_add_left_eq[of "Suc (wix r)" "cap r" i] by simp
  have n: "contents (push x r) ! i = slot (push x r) ((wix r + Suc i) mod cap r)"
    using assms i by (simp add: contents_nth push_cnt push_cap push_wix ring_index_def e)
  have lt: "(wix r + Suc i) mod cap r < cap r" using b by simp
  show "contents (push x r) ! i = (tl (contents r) @ [entry x]) ! i"
  proof (cases "Suc i < cap r")
    case True
    then have "(wix r + Suc i) mod cap r \<noteq> wix r"
      using b by (auto simp: mod_if split: if_splits)
    moreover have "i < cap r - Suc 0" using True by simp
    ultimately show ?thesis
      using assms b True i lt n
      by (simp add: nth_append nth_tl contents_nth push_slot ring_index_def)
  next
    case False
    then have "Suc i = cap r" using i by simp
    moreover then have "\<not> i < cap r - Suc 0" by simp
    ultimately show ?thesis
      using assms b n by (simp add: nth_append push_slot)
  qed
qed

lemma contents_push:
  assumes "good r"
  shows "contents (push x r) = push_bounded (cap r) (contents r) (entry x)"
proof (cases "cnt r < cap r")
  case True
  then show ?thesis using contents_push_filling[OF assms True] by (simp add: push_bounded_def)
next
  case False
  then have c: "cnt r = cap r" using good_bounds[OF assms] by simp
  then have "contents r \<noteq> []" using good_bounds[OF assms] by (auto simp: contents_def)
  then show ?thesis
    using contents_push_full[OF assms c] length_contents[of r] c
    by (cases "contents r") (auto simp: push_bounded_def Let_def)
qed

lemma good_fold: "good r \<Longrightarrow> good (fold push xs r)"
  by (induction xs arbitrary: r) (auto intro: push_good)

lemma cap_fold: "good r \<Longrightarrow> cap (fold push xs r) = cap r"
  by (induction xs arbitrary: r) (auto simp: push_cap push_good)

lemma drop_push_bounded:
  "push_bounded n (drop (length ys - n) ys) x = drop (length (ys @ [x]) - n) (ys @ [x])"
  by (cases "n = 0"; cases "length ys < n") (auto simp: push_bounded_def Let_def Suc_diff_le)

lemma contents_fold:
  assumes "good r" "cnt r = 0"
  shows "contents (fold push xs r) = drop (length xs - cap r) (map entry xs)"
proof (induction xs rule: rev_induct)
  case Nil
  then show ?case using assms(2) by (simp add: contents_def)
next
  case (snoc x xs)
  have "contents (fold push (xs @ [x]) r) = push_bounded (cap r) (contents (fold push xs r)) (entry x)"
    using good_fold[OF assms(1)] by (simp add: contents_push cap_fold[OF assms(1)])
  then show ?case
    using drop_push_bounded[of "cap r" "map entry xs" "entry x"] by (simp add: snoc)
qed

end

subsection \<open>Scanning a window of time\<close>

text \<open>
  The loop that skips what is older than \<^verbatim>\<open>since\<close> and stops at the first entry newer than
  \<^verbatim>\<open>until\<close>.  The two rings test these in different orders; an entry passes both tests only in an
  empty window, where either order returns nothing.
\<close>

fun scan_window :: "('a \<Rightarrow> rat) \<Rightarrow> rat \<Rightarrow> rat \<Rightarrow> 'a list \<Rightarrow> 'a list" where
  "scan_window t since until [] = []"
| "scan_window t since until (x # xs) =
     (if until < t x then []
      else if t x < since then scan_window t since until xs
      else x # scan_window t since until xs)"

lemma scan_window_sorted:
  "sorted (map t xs) \<Longrightarrow> scan_window t since until xs = filter (\<lambda>x. since \<le> t x \<and> t x \<le> until) xs"
proof (induction xs)
  case (Cons x xs)
  have "filter (\<lambda>x. since \<le> t x \<and> t x \<le> until) xs = []" if "until < t x"
    using Cons.prems that by (auto simp: filter_empty_conv)
  with Cons show ?case by auto
qed simp

lemma set_scan_window: "x \<in> set (scan_window t since until xs) \<Longrightarrow> x \<in> set xs \<and> since \<le> t x \<and> t x \<le> until"
  by (induction xs) (auto split: if_splits)

subsection \<open>The ring of basic readings\<close>

definition store_f32 :: "rat \<Rightarrow> rat" where
  "store_f32 x = flt_num (to_single x)"

record ring_sample =
  e_sampled_at :: rat
  e_gpu_utilization :: rat
  e_mem_utilization :: rat
  e_memory_used_mb :: rat
  e_memory_total_mb :: rat
  e_power_watts :: rat
  e_temperature_c :: rat

record gpu_ring =
  gr_capacity :: nat
  gr_timestamps :: "rat list"
  gr_gpu_utilization :: "rat list"
  gr_mem_utilization :: "rat list"
  gr_memory_used_mb :: "rat list"
  gr_memory_total_mb :: "rat list"
  gr_power_watts :: "rat list"
  gr_temperature_c :: "rat list"
  gr_write_index :: nat
  gr_count :: nat

definition new_gpu_ring :: "nat \<Rightarrow> gpu_ring" where
  "new_gpu_ring n =
     \<lparr>gr_capacity = n, gr_timestamps = replicate n 0, gr_gpu_utilization = replicate n 0,
      gr_mem_utilization = replicate n 0, gr_memory_used_mb = replicate n 0,
      gr_memory_total_mb = replicate n 0, gr_power_watts = replicate n 0,
      gr_temperature_c = replicate n 0, gr_write_index = 0, gr_count = 0\<rparr>"

definition gpu_ring_write :: "rat \<times> gpu \<Rightarrow> gpu_ring \<Rightarrow> gpu_ring" where
  "gpu_ring_write tg r =
     (case tg of (sampled_at, g) \<Rightarrow>
        let i = gr_write_index r
        in r\<lparr>gr_timestamps := (gr_timestamps r)[i := sampled_at],
             gr_gpu_utilization := (gr_gpu_utilization r)[i := store_f32 (g_utilization_gpu g)],
             gr_mem_utilization := (gr_mem_utilization r)[i := store_f32 (g_utilization_mem g)],
             gr_memory_used_mb := (gr_memory_used_mb r)[i := store_f32 (g_memory_used_mb g)],
             gr_memory_total_mb := (gr_memory_total_mb r)[i := store_f32 (g_memory_total_mb g)],
             gr_power_watts := (gr_power_watts r)[i := store_f32 (g_power_watts g)],
             gr_temperature_c := (gr_temperature_c r)[i := store_f32 (g_temperature_c g)],
             gr_write_index := (i + 1) mod gr_capacity r,
             gr_count := min (gr_capacity r) (gr_count r + 1)\<rparr>)"

definition gpu_ring_append :: "rat \<Rightarrow> gpu \<Rightarrow> gpu_ring \<Rightarrow> gpu_ring" where
  "gpu_ring_append sampled_at g r =
     (if \<not> basic_metrics_valid g then r else gpu_ring_write (sampled_at, g) r)"

definition gr_slot :: "gpu_ring \<Rightarrow> nat \<Rightarrow> ring_sample" where
  "gr_slot r i =
     \<lparr>e_sampled_at = gr_timestamps r ! i, e_gpu_utilization = gr_gpu_utilization r ! i,
      e_mem_utilization = gr_mem_utilization r ! i, e_memory_used_mb = gr_memory_used_mb r ! i,
      e_memory_total_mb = gr_memory_total_mb r ! i, e_power_watts = gr_power_watts r ! i,
      e_temperature_c = gr_temperature_c r ! i\<rparr>"

definition gr_index :: "gpu_ring \<Rightarrow> nat \<Rightarrow> nat" where
  "gr_index r = ring_index (gr_capacity r) (gr_write_index r) (gr_count r)"

definition gr_oldest_at :: "gpu_ring \<Rightarrow> rat option" where
  "gr_oldest_at r = (if gr_count r = 0 then None else Some (gr_timestamps r ! gr_index r 0))"

definition gr_newest_at :: "gpu_ring \<Rightarrow> rat option" where
  "gr_newest_at r =
     (if gr_count r = 0 then None else Some (gr_timestamps r ! gr_index r (gr_count r - 1)))"

definition ring_point :: "ring_sample \<Rightarrow> (string, rat) dict" where
  "ring_point e =
     [(''sampled_at'', e_sampled_at e), (''bucket_start'', e_sampled_at e),
      (''utilization_gpu'', pyround 1 (e_gpu_utilization e)),
      (''utilization_mem'', pyround 1 (e_mem_utilization e)),
      (''memory_used_mb'', pyround 1 (e_memory_used_mb e)),
      (''memory_total_mb'', pyround 1 (e_memory_total_mb e)),
      (''power_watts'', pyround 1 (e_power_watts e)),
      (''temperature_c'', pyround 1 (e_temperature_c e)),
      (''avg_gpu_utilization'', pyround 1 (e_gpu_utilization e)),
      (''avg_memory_used_mb'', pyround 1 (e_memory_used_mb e)),
      (''avg_power_watts'', pyround 1 (e_power_watts e)),
      (''avg_temperature_c'', pyround 1 (e_temperature_c e))]"

definition gpu_ring_points :: "gpu_ring \<Rightarrow> rat \<Rightarrow> rat \<Rightarrow> (string, rat) dict list" where
  "gpu_ring_points r since until =
     map (\<lambda>i. ring_point (gr_slot r (gr_index r i)))
       (scan_window (\<lambda>i. gr_timestamps r ! gr_index r i) since until [0..<gr_count r])"

definition observed_interval_seconds :: "gpu_ring \<Rightarrow> rat option" where
  "observed_interval_seconds r =
     (if gr_count r < 2 then None
      else case (gr_newest_at r, gr_oldest_at r) of
          (Some newest, Some oldest) \<Rightarrow>
            if newest \<le> oldest then None else Some ((newest - oldest) / of_nat (gr_count r - 1))
        | _ \<Rightarrow> None)"

definition gpu_ring_ok :: "gpu_ring \<Rightarrow> bool" where
  "gpu_ring_ok r =
     (0 < gr_capacity r \<and> gr_write_index r < gr_capacity r \<and> gr_count r \<le> gr_capacity r \<and>
      (gr_count r < gr_capacity r \<longrightarrow> gr_write_index r = gr_count r) \<and>
      list_all (\<lambda>n. n = gr_capacity r)
        [length (gr_timestamps r), length (gr_gpu_utilization r), length (gr_mem_utilization r),
         length (gr_memory_used_mb r), length (gr_memory_total_mb r), length (gr_power_watts r),
         length (gr_temperature_c r)])"

definition stored_sample :: "rat \<times> gpu \<Rightarrow> ring_sample" where
  "stored_sample tg =
     \<lparr>e_sampled_at = fst tg, e_gpu_utilization = store_f32 (g_utilization_gpu (snd tg)),
      e_mem_utilization = store_f32 (g_utilization_mem (snd tg)),
      e_memory_used_mb = store_f32 (g_memory_used_mb (snd tg)),
      e_memory_total_mb = store_f32 (g_memory_total_mb (snd tg)),
      e_power_watts = store_f32 (g_power_watts (snd tg)),
      e_temperature_c = store_f32 (g_temperature_c (snd tg))\<rparr>"

lemma mod_Suc_less: "n < c \<Longrightarrow> c \<noteq> Suc n \<Longrightarrow> Suc n mod c = Suc n"
  by simp

interpretation gr: circular_array gr_capacity gr_count gr_write_index gr_slot stored_sample gpu_ring_write gpu_ring_ok
proof
  fix r :: gpu_ring and x :: "rat \<times> gpu" and i :: nat
  assume g: "gpu_ring_ok r"
  then show "0 < gr_capacity r \<and> gr_write_index r < gr_capacity r \<and> gr_count r \<le> gr_capacity r \<and>
      (gr_count r < gr_capacity r \<longrightarrow> gr_write_index r = gr_count r)"
    by (simp add: gpu_ring_ok_def)
  show "gpu_ring_ok (gpu_ring_write x r)"
    using g by (cases x) (auto simp: gpu_ring_ok_def gpu_ring_write_def Let_def mod_Suc_less)
  show "gr_capacity (gpu_ring_write x r) = gr_capacity r"
    "gr_count (gpu_ring_write x r) = min (gr_capacity r) (gr_count r + 1)"
    "gr_write_index (gpu_ring_write x r) = (gr_write_index r + 1) mod gr_capacity r"
    by (cases x, simp add: gpu_ring_write_def Let_def)+
  show "gr_slot (gpu_ring_write x r) i = (if i = gr_write_index r then stored_sample x else gr_slot r i)"
    if "i < gr_capacity r"
    using g that by (cases x) (auto simp: gpu_ring_write_def Let_def gr_slot_def stored_sample_def gpu_ring_ok_def)
qed

lemma gr_contents_eq: "gr.contents r = map (\<lambda>i. gr_slot r (gr_index r i)) [0..<gr_count r]"
  by (simp add: gr.contents_def gr_index_def)

lemma gpu_ring_ok_new: "0 < n \<Longrightarrow> gpu_ring_ok (new_gpu_ring n)"
  by (simp add: gpu_ring_ok_def new_gpu_ring_def)

lemma gpu_ring_append_fold:
  "fold (\<lambda>(t, g). gpu_ring_append t g) xs r = fold gpu_ring_write (filter (\<lambda>tg. basic_metrics_valid (snd tg)) xs) r"
  by (induction xs arbitrary: r) (auto simp: gpu_ring_append_def)

lemma scan_window_map: "scan_window t since until (map f xs) = map f (scan_window (t \<circ> f) since until xs)"
  by (induction xs) auto

text \<open>
  After any sequence of appends a ring of capacity n holds exactly the last n samples with
  valid basic readings, oldest first, and a query returns those of them that lie in its window.
\<close>

theorem gpu_ring_keeps_latest:
  fixes xs :: "(rat \<times> gpu) list"
  assumes "0 < n" "r = fold (\<lambda>(t, g). gpu_ring_append t g) xs (new_gpu_ring n)"
    "ys = map stored_sample (filter (\<lambda>tg. basic_metrics_valid (snd tg)) xs)"
  shows "map (\<lambda>i. gr_slot r (gr_index r i)) [0..<gr_count r] = drop (length ys - n) ys \<and>
    gpu_ring_points r since until =
      map ring_point (scan_window e_sampled_at since until (drop (length ys - n) ys))"
proof -
  have r: "r = fold gpu_ring_write (filter (\<lambda>tg. basic_metrics_valid (snd tg)) xs) (new_gpu_ring n)"
    using assms(2) by (simp add: gpu_ring_append_fold)
  have c: "gr.contents r = drop (length ys - n) ys"
    unfolding r using gr.contents_fold[OF gpu_ring_ok_new[OF assms(1)]] assms(3) by (simp add: new_gpu_ring_def)
  then have e: "map (\<lambda>i. gr_slot r (gr_index r i)) [0..<gr_count r] = drop (length ys - n) ys"
    by (simp add: gr_contents_eq)
  have "gpu_ring_points r since until =
      map ring_point (map (\<lambda>i. gr_slot r (gr_index r i))
        (scan_window (e_sampled_at \<circ> (\<lambda>i. gr_slot r (gr_index r i))) since until [0..<gr_count r]))"
    by (simp add: gpu_ring_points_def gr_slot_def o_def)
  then show ?thesis using e by (simp add: scan_window_map[symmetric])
qed

definition timed_samples :: "(rat \<times> gpu) list" where
  "timed_samples = [(10, sample_gpu 0 1 2), (11, (sample_gpu 0 9 9)\<lparr>g_error := PStr ''lost''\<rparr>),
     (12, sample_gpu 0 3 4), (14, sample_gpu 0 5 6)]"

theorem gpu_ring_keeps_latest_witness:
  "gpu_ring_points (fold (\<lambda>(t, g). gpu_ring_append t g) timed_samples (new_gpu_ring 2)) 11 13 =
     [ring_point (stored_sample (12, sample_gpu 0 3 4))]"
proof -
  let ?v = "\<lambda>tg :: rat \<times> gpu. basic_metrics_valid (snd tg)"
  have "map stored_sample (filter ?v timed_samples) =
      [stored_sample (10, sample_gpu 0 1 2), stored_sample (12, sample_gpu 0 3 4), stored_sample (14, sample_gpu 0 5 6)]"
    by (simp add: timed_samples_def basic_metrics_valid_def sample_gpu_def blank_gpu_def has_key_def list_all_iff)
  then show ?thesis
    using gpu_ring_keeps_latest[of 2 _ timed_samples, OF _ refl refl, of 11 13]
    by (simp add: stored_sample_def)
qed

subsection \<open>Storage in 32-bit floats\<close>

lemma powi_int: "0 \<le> n \<Longrightarrow> (2 :: rat) powi n = of_int (2 ^ nat n)"
  by (simp add: power_int_def)

lemma bitlen_rat:
  assumes "0 < a"
  shows "(2 :: rat) powi (bitlen a - 1) \<le> of_int a" "of_int a < (2 :: rat) powi bitlen a"
proof -
  have n: "0 \<le> bitlen a - 1" using assms by (simp add: bitlen_alt_def)
  note b = bitlen_bounds[OF assms]
  show "(2 :: rat) powi (bitlen a - 1) \<le> of_int a"
    unfolding powi_int[OF n] of_int_le_iff using b by blast
  show "of_int a < (2 :: rat) powi bitlen a"
    unfolding powi_int[OF bitlen_nonneg] of_int_less_iff using b by blast
qed

lemma floor_log2_bounds:
  assumes "0 < x"
  shows "2 powi floor_log2 x \<le> x \<and> x < 2 powi (floor_log2 x + 1)"
proof -
  obtain a b where ab: "quotient_of x = (a, b)" by fastforce
  have b: "0 < b" by (rule quotient_of_denom_pos[OF ab])
  have x: "x = of_int a / of_int b" by (rule quotient_of_div[OF ab])
  have a: "0 < a" using assms b by (simp add: x zero_less_divide_iff)
  let ?k = "bitlen a - bitlen b"
  have "x < 2 powi bitlen a / 2 powi (bitlen b - 1)"
    unfolding x using a b bitlen_rat(2)[OF a] bitlen_rat(1)[OF b] by (intro frac_less) auto
  also have "\<dots> = 2 powi (?k + 1)" by (simp add: power_int_diff[symmetric] algebra_simps)
  finally have u: "x < 2 powi (?k + 1)" .
  have "2 powi (bitlen a - 1) / 2 powi bitlen b \<le> x"
    unfolding x using a b bitlen_rat(1)[OF a] less_imp_le[OF bitlen_rat(2)[OF b]] by (intro frac_le) auto
  moreover have "2 powi (bitlen a - 1) / 2 powi bitlen b = (2 :: rat) powi (?k - 1)"
    by (simp add: power_int_diff[symmetric] algebra_simps)
  ultimately have l: "2 powi (?k - 1) \<le> x" by simp
  show ?thesis using u l by (simp add: floor_log2_def ab Let_def)
qed

lemma round_half_even_abs:
  assumes "\<bar>x\<bar> \<le> of_int n"
  shows "\<bar>round_half_even x\<bar> \<le> n"
proof -
  have "of_int (- n) \<le> x" "x \<le> of_int n" using assms by auto
  from round_half_even_mono[OF this(1)] round_half_even_mono[OF this(2)] show ?thesis
    by (simp only: round_half_even_of_int abs_le_iff) simp
qed

lemma FLOAT32_MAX_eq: "FLOAT32_MAX = of_int (2 ^ 24 - 1) * 2 ^ 104"
  by (simp add: FLOAT32_MAX_def)

lemma rnd_single_bounded:
  assumes "\<bar>x\<bar> \<le> FLOAT32_MAX"
  shows "\<bar>rnd_bits 24 (- 149) x\<bar> \<le> FLOAT32_MAX"
proof (cases "x = 0")
  case False
  let ?k = "floor_log2 \<bar>x\<bar>" and ?m = "\<bar>x\<bar>"
  define e where "e = max (?k - 23) (- 149)"
  have k: "2 powi ?k \<le> ?m" "?m < 2 powi (?k + 1)" using floor_log2_bounds[of ?m] False by simp_all
  have "2 powi ?k < (2 :: rat) powi 128" using k(1) assms by (simp add: FLOAT32_MAX_def)
  then have "?k < 128" using power_int_increasing[of 128 ?k "2 :: rat"] by (cases "?k < 128") auto
  then have e: "e \<le> 104" "?k - 23 \<le> e" by (auto simp: e_def)
  have "(2 :: rat) powi (?k + 1) \<le> 2 powi (24 + e)" using e by (intro power_int_increasing) auto
  then have "?m / 2 powi e \<le> of_int (2 ^ 24)"
    using k(2) by (simp add: power_int_add divide_le_eq)
  then have n: "\<bar>round_half_even (x / 2 powi e)\<bar> \<le> 2 ^ 24"
    by (intro round_half_even_abs) (simp add: abs_divide)
  have r: "\<bar>rnd_bits 24 (- 149) x\<bar> = of_int \<bar>round_half_even (x / 2 powi e)\<bar> * 2 powi e"
    using False by (simp add: rnd_bits_def Let_def e_def abs_mult)
  show ?thesis
  proof (cases "e = 104")
    case True
    have "?m / 2 powi e \<le> of_int (2 ^ 24 - 1)"
      using assms unfolding FLOAT32_MAX_eq True by (simp add: divide_le_eq)
    then have "\<bar>round_half_even (x / 2 powi e)\<bar> \<le> 2 ^ 24 - 1"
      by (intro round_half_even_abs) (simp add: abs_divide)
    then have "of_int \<bar>round_half_even (x / 2 powi e)\<bar> \<le> (of_int (2 ^ 24 - 1) :: rat)"
      by (simp only: of_int_le_iff)
    then show ?thesis unfolding r FLOAT32_MAX_eq True
      by (intro mult_mono) (simp_all add: power_int_def)
  next
    case False
    then have "(2 :: rat) powi e \<le> 2 powi 103" using e by (intro power_int_increasing) auto
    moreover have "of_int \<bar>round_half_even (x / 2 powi e)\<bar> \<le> (of_int (2 ^ 24) :: rat)"
      using n by (simp only: of_int_le_iff)
    ultimately have "of_int \<bar>round_half_even (x / 2 powi e)\<bar> * 2 powi e \<le> (of_int (2 ^ 24) :: rat) * 2 powi 103"
      by (intro mult_mono) simp_all
    then show ?thesis by (simp add: r FLOAT32_MAX_def)
  qed
qed (simp add: rnd_bits_def FLOAT32_MAX_def)

text \<open>
  A reading that the default rule accepts can be stored in a 32-bit float: it is rounded to a
  finite number, never to an infinity, and integers below 2 to the 24 are stored exactly.
\<close>

theorem accepted_reading_fits_float32:
  assumes "accepts READING v" "v \<noteq> PNone"
  shows "\<exists>y. to_single (num_val v) = Fin y \<and> \<bar>y\<bar> \<le> FLOAT32_MAX \<and>
    (\<forall>i. num_val v = of_int i \<longrightarrow> \<bar>i\<bar> < 2 ^ 24 \<longrightarrow> y = num_val v)"
proof -
  have "\<bar>num_val v\<bar> \<le> FLOAT32_MAX" using accepts_bounds[OF assms] by (auto simp: rule_defs)
  then have b: "\<bar>rnd_bits 24 (- 149) (num_val v)\<bar> \<le> FLOAT32_MAX" by (rule rnd_single_bounded)
  moreover have "FLOAT32_MAX < 2 powi 128" by (simp add: FLOAT32_MAX_def)
  ultimately have "to_single (num_val v) = Fin (rnd_bits 24 (- 149) (num_val v))"
    by (auto simp: to_single_def to_format_def Let_def)
  then show ?thesis using b to_single_int by auto
qed

theorem accepted_reading_fits_float32_witness:
  "\<exists>y. to_single (1 / 10) = Fin y \<and> \<bar>y\<bar> \<le> FLOAT32_MAX"
  using accepted_reading_fits_float32[of "PFlt (Fin (1 / 10))"] by (auto simp: rule_defs)

end
