(* ===== verification/GpmRing.thy ===== *)
theory GpmRing
  imports SampleRings
begin

text \<open>
  \<open>packages/backend/src/constella/performance_highres.py\<close>: the ring of NVIDIA GPM metrics with its
  validity masks, the search for a window of time, the summary and the downsampling of a series,
  and the cache of the rings.
\<close>

subsection \<open>Binary search\<close>

text \<open>The loops of \<^verbatim>\<open>bisect.bisect_left\<close> and \<^verbatim>\<open>bisect.bisect_right\<close> with a key.\<close>

function bisect_left :: "(nat \<Rightarrow> rat) \<Rightarrow> rat \<Rightarrow> nat \<Rightarrow> nat \<Rightarrow> nat" where
  "bisect_left key x lo hi =
     (if lo < hi then
        let mid = (lo + hi) div 2
        in if key mid < x then bisect_left key x (mid + 1) hi else bisect_left key x lo mid
      else lo)"
  by pat_completeness auto
termination
  by (relation "measure (\<lambda>(key, x, lo, hi). hi - lo)") auto

function bisect_right :: "(nat \<Rightarrow> rat) \<Rightarrow> rat \<Rightarrow> nat \<Rightarrow> nat \<Rightarrow> nat" where
  "bisect_right key x lo hi =
     (if lo < hi then
        let mid = (lo + hi) div 2
        in if x < key mid then bisect_right key x lo mid else bisect_right key x (mid + 1) hi
      else lo)"
  by pat_completeness auto
termination
  by (relation "measure (\<lambda>(key, x, lo, hi). hi - lo)") auto

declare bisect_left.simps [simp del] bisect_right.simps [simp del]

lemma bisect_left_sound:
  assumes "lo \<le> hi" "\<And>i j. lo \<le> i \<Longrightarrow> i \<le> j \<Longrightarrow> j < hi \<Longrightarrow> key i \<le> key j"
  shows "lo \<le> bisect_left key x lo hi \<and> bisect_left key x lo hi \<le> hi \<and>
    (\<forall>i. lo \<le> i \<longrightarrow> i < hi \<longrightarrow> (i < bisect_left key x lo hi \<longleftrightarrow> key i < x))"
  using assms
proof (induction key x lo hi rule: bisect_left.induct)
  case (1 key x lo hi)
  show ?case
  proof (cases "lo < hi")
    case True
    define mid where "mid = (lo + hi) div 2"
    have m: "lo \<le> mid" "mid < hi" using True by (auto simp: mid_def)
    show ?thesis
    proof (cases "key mid < x")
      case k: True
      have e: "bisect_left key x lo hi = bisect_left key x (mid + 1) hi"
        using True k by (subst bisect_left.simps) (simp add: mid_def Let_def)
      have IH: "mid + 1 \<le> bisect_left key x (mid + 1) hi \<and> bisect_left key x (mid + 1) hi \<le> hi \<and>
          (\<forall>i. mid + 1 \<le> i \<longrightarrow> i < hi \<longrightarrow> (i < bisect_left key x (mid + 1) hi \<longleftrightarrow> key i < x))"
        using 1(1)[OF True mid_def k] 1(4) m by simp
      have "key i < x" if "lo \<le> i" "i \<le> mid" for i using 1(4)[of i mid] that m k by simp
      note low = this
      have "i < bisect_left key x (mid + 1) hi \<longleftrightarrow> key i < x" if "lo \<le> i" "i < hi" for i
        using IH low[of i] that by (cases "i \<le> mid") auto
      then show ?thesis unfolding e using IH m by auto
    next
      case k: False
      have e: "bisect_left key x lo hi = bisect_left key x lo mid"
        using True k by (subst bisect_left.simps) (simp add: mid_def Let_def)
      have IH: "lo \<le> bisect_left key x lo mid \<and> bisect_left key x lo mid \<le> mid \<and>
          (\<forall>i. lo \<le> i \<longrightarrow> i < mid \<longrightarrow> (i < bisect_left key x lo mid \<longleftrightarrow> key i < x))"
        using 1(2)[OF True mid_def k] 1(4) m by simp
      have "\<not> key i < x" if "mid \<le> i" "i < hi" for i using 1(4)[of mid i] that m k by simp
      note high = this
      have "i < bisect_left key x lo mid \<longleftrightarrow> key i < x" if "lo \<le> i" "i < hi" for i
        using IH high[of i] that by (cases "mid \<le> i") auto
      then show ?thesis unfolding e using IH m by auto
    qed
  next
    case False
    then have "bisect_left key x lo hi = lo" by (subst bisect_left.simps) simp
    then show ?thesis using False 1(3) by auto
  qed
qed

lemma bisect_right_sound:
  assumes "lo \<le> hi" "\<And>i j. lo \<le> i \<Longrightarrow> i \<le> j \<Longrightarrow> j < hi \<Longrightarrow> key i \<le> key j"
  shows "lo \<le> bisect_right key x lo hi \<and> bisect_right key x lo hi \<le> hi \<and>
    (\<forall>i. lo \<le> i \<longrightarrow> i < hi \<longrightarrow> (i < bisect_right key x lo hi \<longleftrightarrow> key i \<le> x))"
  using assms
proof (induction key x lo hi rule: bisect_right.induct)
  case (1 key x lo hi)
  show ?case
  proof (cases "lo < hi")
    case True
    define mid where "mid = (lo + hi) div 2"
    have m: "lo \<le> mid" "mid < hi" using True by (auto simp: mid_def)
    show ?thesis
    proof (cases "x < key mid")
      case k: True
      have e: "bisect_right key x lo hi = bisect_right key x lo mid"
        using True k by (subst bisect_right.simps) (simp add: mid_def Let_def)
      have IH: "lo \<le> bisect_right key x lo mid \<and> bisect_right key x lo mid \<le> mid \<and>
          (\<forall>i. lo \<le> i \<longrightarrow> i < mid \<longrightarrow> (i < bisect_right key x lo mid \<longleftrightarrow> key i \<le> x))"
        using 1(1)[OF True mid_def k] 1(4) m by simp
      have "\<not> key i \<le> x" if "mid \<le> i" "i < hi" for i using 1(4)[of mid i] that m k by simp
      note high = this
      have "i < bisect_right key x lo mid \<longleftrightarrow> key i \<le> x" if "lo \<le> i" "i < hi" for i
        using IH high[of i] that by (cases "mid \<le> i") auto
      then show ?thesis unfolding e using IH m by auto
    next
      case k: False
      have e: "bisect_right key x lo hi = bisect_right key x (mid + 1) hi"
        using True k by (subst bisect_right.simps) (simp add: mid_def Let_def)
      have IH: "mid + 1 \<le> bisect_right key x (mid + 1) hi \<and> bisect_right key x (mid + 1) hi \<le> hi \<and>
          (\<forall>i. mid + 1 \<le> i \<longrightarrow> i < hi \<longrightarrow> (i < bisect_right key x (mid + 1) hi \<longleftrightarrow> key i \<le> x))"
        using 1(2)[OF True mid_def k] 1(4) m by simp
      have "key i \<le> x" if "lo \<le> i" "i \<le> mid" for i using 1(4)[of i mid] that m k by simp
      note low = this
      have "i < bisect_right key x (mid + 1) hi \<longleftrightarrow> key i \<le> x" if "lo \<le> i" "i < hi" for i
        using IH low[of i] that by (cases "i \<le> mid") auto
      then show ?thesis unfolding e using IH m by auto
    qed
  next
    case False
    then have "bisect_right key x lo hi = lo" by (subst bisect_right.simps) simp
    then show ?thesis using False 1(3) by auto
  qed
qed

subsection \<open>The ring\<close>

record gpm_ring =
  pr_capacity :: nat
  pr_timestamps :: "rat list"
  pr_values :: "(string, rat list) dict"
  pr_valid_masks :: "16 word list"
  pr_write_index :: nat
  pr_count :: nat
  pr_time_ordered :: bool

definition new_gpm_ring :: "nat \<Rightarrow> gpm_ring" where
  "new_gpm_ring n =
     \<lparr>pr_capacity = n, pr_timestamps = replicate n 0,
      pr_values = map (\<lambda>m. (m, replicate n 0)) NVIDIA_GPM_METRICS,
      pr_valid_masks = replicate n 0, pr_write_index = 0, pr_count = 0, pr_time_ordered = True\<rparr>"

definition pr_index :: "gpm_ring \<Rightarrow> nat \<Rightarrow> nat" where
  "pr_index r = ring_index (pr_capacity r) (pr_write_index r) (pr_count r)"

definition pr_time_at :: "gpm_ring \<Rightarrow> nat \<Rightarrow> rat" where
  "pr_time_at r offset = pr_timestamps r ! pr_index r offset"

definition pr_oldest_at :: "gpm_ring \<Rightarrow> rat option" where
  "pr_oldest_at r = (if pr_count r = 0 then None else Some (pr_time_at r 0))"

definition pr_newest_at :: "gpm_ring \<Rightarrow> rat option" where
  "pr_newest_at r = (if pr_count r = 0 then None else Some (pr_time_at r (pr_count r - 1)))"

text \<open>What is stored for a value the rule accepts: \<^verbatim>\<open>float(value)\<close> in a 32-bit array.\<close>

definition stored_reading :: "pyval \<Rightarrow> rat" where
  "stored_reading v = store_f32 (flt_num (case py_float v of Inr f \<Rightarrow> f | Inl e \<Rightarrow> Fin 0))"

definition gpm_metric_of :: "(string, pyval) dict \<Rightarrow> string \<Rightarrow> pyval" where
  "gpm_metric_of perf metric = (case dget perf ''metrics'' of PDict m \<Rightarrow> dget m metric | _ \<Rightarrow> PNone)"

text \<open>One turn of the loop over the metrics: store the value and set its bit.\<close>

definition write_metric ::
    "(string, pyval) dict \<Rightarrow> nat \<Rightarrow> nat \<times> string \<Rightarrow> 16 word \<times> (string, rat list) dict
      \<Rightarrow> 16 word \<times> (string, rat list) dict" where
  "write_metric perf i bm mv =
     (case (bm, mv) of ((b, metric), (bits, vals)) \<Rightarrow>
        if accepts (gpm_rule metric) (gpm_metric_of perf metric)
        then (bits OR push_bit b 1,
              (case map_of vals metric of
                 None \<Rightarrow> vals
               | Some xs \<Rightarrow> AList.update metric (xs[i := stored_reading (gpm_metric_of perf metric)]) vals))
        else (bits, vals))"

definition gpm_ring_append :: "rat \<times> (string, pyval) dict \<Rightarrow> gpm_ring \<Rightarrow> gpm_ring" where
  "gpm_ring_append tp r =
     (case tp of (sampled_at, perf) \<Rightarrow>
        let i = pr_write_index r;
            mv = (if dget perf ''status'' = PStr ''available''
                  then fold (write_metric perf i) (enumerate 0 NVIDIA_GPM_METRICS) (0, pr_values r)
                  else (0, pr_values r))
        in r\<lparr>pr_time_ordered := (pr_time_ordered r \<and>
                \<not> (pr_count r \<noteq> 0 \<and> sampled_at < pr_time_at r (pr_count r - 1))),
             pr_timestamps := (pr_timestamps r)[i := sampled_at],
             pr_values := snd mv,
             pr_valid_masks := (pr_valid_masks r)[i := fst mv],
             pr_write_index := (i + 1) mod pr_capacity r,
             pr_count := min (pr_capacity r) (pr_count r + 1)\<rparr>)"

text \<open>What a position of the ring holds: its time and, per metric, the value if its bit is set.\<close>

definition metric_at :: "gpm_ring \<Rightarrow> nat \<Rightarrow> nat \<times> string \<Rightarrow> rat option" where
  "metric_at r i bm =
     (if bit (pr_valid_masks r ! i) (fst bm) then map_option (\<lambda>xs. xs ! i) (map_of (pr_values r) (snd bm)) else None)"

definition pr_slot :: "gpm_ring \<Rightarrow> nat \<Rightarrow> rat \<times> rat option list" where
  "pr_slot r i = (pr_timestamps r ! i, map (metric_at r i) (enumerate 0 NVIDIA_GPM_METRICS))"

definition gpm_reading :: "(string, pyval) dict \<Rightarrow> string \<Rightarrow> rat option" where
  "gpm_reading perf metric =
     (if dget perf ''status'' = PStr ''available'' \<and> accepts (gpm_rule metric) (gpm_metric_of perf metric)
      then Some (stored_reading (gpm_metric_of perf metric)) else None)"

definition gpm_entry :: "rat \<times> (string, pyval) dict \<Rightarrow> rat \<times> rat option list" where
  "gpm_entry tp = (fst tp, map (gpm_reading (snd tp)) NVIDIA_GPM_METRICS)"

definition gpm_ring_ok :: "gpm_ring \<Rightarrow> bool" where
  "gpm_ring_ok r =
     (0 < pr_capacity r \<and> pr_write_index r < pr_capacity r \<and> pr_count r \<le> pr_capacity r \<and>
      (pr_count r < pr_capacity r \<longrightarrow> pr_write_index r = pr_count r) \<and>
      length (pr_timestamps r) = pr_capacity r \<and> length (pr_valid_masks r) = pr_capacity r \<and>
      map fst (pr_values r) = NVIDIA_GPM_METRICS \<and>
      list_all (\<lambda>kv. length (snd kv) = pr_capacity r) (pr_values r))"

lemma distinct_metrics: "distinct NVIDIA_GPM_METRICS"
  by (simp add: NVIDIA_GPM_METRICS_def)

lemma length_metrics: "length NVIDIA_GPM_METRICS = 11"
  by (simp add: NVIDIA_GPM_METRICS_def)

lemma bit_set_bit: "b < 16 \<Longrightarrow> bit ((m :: 16 word) OR 2 ^ b) n \<longleftrightarrow> bit m n \<or> n = b"
  by (auto simp: bit_or_iff bit_exp_iff possible_bit_word)

lemma keys_write_metric:
  "map fst (snd (write_metric perf i bm mv)) = map fst (snd mv)"
  by (auto simp: write_metric_def update_keys split: prod.splits option.splits dest!: map_of_SomeD)
     (force dest: map_of_SomeD)+

lemma write_metric_other_bit:
  "b' \<noteq> b \<Longrightarrow> b < 16 \<Longrightarrow> bit (fst (write_metric perf i (b, metric) mv)) b' = bit (fst mv) b'"
  by (auto simp: write_metric_def bit_set_bit split: prod.splits option.splits)

lemma write_metric_other_key:
  "metric' \<noteq> metric \<Longrightarrow> map_of (snd (write_metric perf i (b, metric) mv)) metric' = map_of (snd mv) metric'"
  by (auto simp: write_metric_def split: prod.splits option.splits)

lemma write_metric_same:
  assumes "b < 16" "\<not> bit (fst mv) b"
  shows "bit (fst (write_metric perf i (b, metric) mv)) b \<longleftrightarrow> accepts (gpm_rule metric) (gpm_metric_of perf metric)"
    "map_of (snd (write_metric perf i (b, metric) mv)) metric =
       (if accepts (gpm_rule metric) (gpm_metric_of perf metric)
        then map_option (\<lambda>xs. xs[i := stored_reading (gpm_metric_of perf metric)]) (map_of (snd mv) metric)
        else map_of (snd mv) metric)"
  using assms by (auto simp: write_metric_def bit_set_bit split: prod.splits option.splits)

lemma fold_write_metric_other:
  assumes "\<forall>(b, m) \<in> set bs. b < 16 \<and> b \<noteq> b' \<and> m \<noteq> metric'"
  shows "bit (fst (fold (write_metric perf i) bs mv)) b' = bit (fst mv) b' \<and>
    map_of (snd (fold (write_metric perf i) bs mv)) metric' = map_of (snd mv) metric'"
  using assms by (induction bs arbitrary: mv) (auto simp: write_metric_other_bit write_metric_other_key)

lemma fold_write_metric:
  assumes "distinct (map fst bs)" "distinct (map snd bs)" "\<forall>b \<in> fst ` set bs. b < 16 \<and> \<not> bit (fst mv) b"
    "(b, metric) \<in> set bs"
  shows "(bit (fst (fold (write_metric perf i) bs mv)) b \<longleftrightarrow> accepts (gpm_rule metric) (gpm_metric_of perf metric)) \<and>
    map_of (snd (fold (write_metric perf i) bs mv)) metric =
       (if accepts (gpm_rule metric) (gpm_metric_of perf metric)
        then map_option (\<lambda>xs. xs[i := stored_reading (gpm_metric_of perf metric)]) (map_of (snd mv) metric)
        else map_of (snd mv) metric)"
  using assms
proof (induction bs arbitrary: mv)
  case (Cons bm bs)
  obtain b0 m0 where bm: "bm = (b0, m0)" by (cases bm)
  let ?mv = "write_metric perf i (b0, m0) mv"
  have other: "\<forall>(b', m') \<in> set bs. b' < 16 \<and> b' \<noteq> b0 \<and> m' \<noteq> m0"
    using Cons.prems by (force simp: bm)
  have b0: "b0 < 16" "\<not> bit (fst mv) b0" using Cons.prems by (auto simp: bm)
  show ?case
  proof (cases "(b, metric) = (b0, m0)")
    case True
    then show ?thesis
      using fold_write_metric_other[OF other, of perf i ?mv] write_metric_same[OF b0, of perf i m0] by (simp add: bm)
  next
    case False
    then have mem: "(b, metric) \<in> set bs" using Cons.prems by (auto simp: bm)
    have "b' < 16 \<and> \<not> bit (fst ?mv) b'" if "b' \<in> fst ` set bs" for b'
    proof -
      from that have "b' \<noteq> b0" "b' < 16" "\<not> bit (fst mv) b'" using Cons.prems(3) other by (auto simp: bm)
      then show ?thesis using b0 by (simp add: write_metric_other_bit)
    qed
    moreover have "map_of (snd ?mv) metric = map_of (snd mv) metric"
      using other mem by (intro write_metric_other_key) auto
    ultimately show ?thesis using Cons.IH[of ?mv] Cons.prems mem by (simp add: bm)
  qed
qed simp

lemma metric_pairs:
  "distinct (map fst (enumerate 0 NVIDIA_GPM_METRICS))" "distinct (map snd (enumerate 0 NVIDIA_GPM_METRICS))"
  "b \<in> fst ` set (enumerate 0 NVIDIA_GPM_METRICS) \<Longrightarrow> b < 11"
  by (auto simp: distinct_metrics in_set_enumerate_eq length_metrics)

lemma keys_fold_write_metric: "map fst (snd (fold (write_metric perf i) bs mv)) = map fst (snd mv)"
  by (induction bs arbitrary: mv) (simp_all add: keys_write_metric)

lemma lengths_write_metric:
  "list_all (\<lambda>kv. length (snd kv) = n) (snd mv) \<Longrightarrow>
     list_all (\<lambda>kv. length (snd kv) = n) (snd (write_metric perf i bm mv))"
  using list_all_lookup[of "\<lambda>xs. length xs = n" "snd mv"]
  by (auto simp: write_metric_def split: prod.splits option.splits intro!: list_all_update)

lemma lengths_fold_write_metric:
  "list_all (\<lambda>kv. length (snd kv) = n) (snd mv) \<Longrightarrow>
     list_all (\<lambda>kv. length (snd kv) = n) (snd (fold (write_metric perf i) bs mv))"
  by (induction bs arbitrary: mv) (simp_all add: lengths_write_metric)

lemma metric_series:
  assumes "gpm_ring_ok r" "metric \<in> set NVIDIA_GPM_METRICS"
  shows "\<exists>xs. map_of (pr_values r) metric = Some xs \<and> length xs = pr_capacity r"
proof -
  have "has_key (pr_values r) metric" using assms by (simp add: gpm_ring_ok_def has_key_iff)
  then obtain xs where "map_of (pr_values r) metric = Some xs" by (auto simp: has_key_def)
  then show ?thesis using assms(1) list_all_lookup[of "\<lambda>xs. length xs = pr_capacity r"] by (auto simp: gpm_ring_ok_def)
qed

lemma gpm_ring_ok_append: "gpm_ring_ok r \<Longrightarrow> gpm_ring_ok (gpm_ring_append tp r)"
  by (cases tp) (auto simp: gpm_ring_ok_def gpm_ring_append_def Let_def keys_fold_write_metric lengths_fold_write_metric
      mod_Suc_less)

lemma append_metric_at:
  assumes ok: "gpm_ring_ok r" and i: "i < pr_capacity r" and bm: "(b, metric) \<in> set (enumerate 0 NVIDIA_GPM_METRICS)"
  shows "metric_at (gpm_ring_append tp r) i (b, metric) =
    (if i = pr_write_index r then gpm_reading (snd tp) metric else metric_at r i (b, metric))"
proof -
  obtain t perf where tp: "tp = (t, perf)" by (cases tp)
  let ?w = "pr_write_index r" and ?v = "gpm_metric_of perf metric"
  define mv where "mv = (if dget perf ''status'' = PStr ''available''
      then fold (write_metric perf ?w) (enumerate 0 NVIDIA_GPM_METRICS) (0, pr_values r) else (0, pr_values r))"
  define acc where "acc \<longleftrightarrow> dget perf ''status'' = PStr ''available'' \<and> accepts (gpm_rule metric) ?v"
  have "metric \<in> set NVIDIA_GPM_METRICS" using bm by (auto simp: in_set_enumerate_eq)
  then obtain xs where xs: "map_of (pr_values r) metric = Some xs" "length xs = pr_capacity r"
    using metric_series[OF ok] by blast
  have m: "bit (fst mv) b \<longleftrightarrow> acc" "map_of (snd mv) metric = Some (if acc then xs[?w := stored_reading ?v] else xs)"
  proof -
    have "\<forall>b \<in> fst ` set (enumerate 0 NVIDIA_GPM_METRICS). b < 16 \<and> \<not> bit (fst (0 :: 16 word, pr_values r)) b"
      using metric_pairs(3) by force
    note f = fold_write_metric[OF metric_pairs(1,2) this bm, of perf ?w]
    show "bit (fst mv) b \<longleftrightarrow> acc" "map_of (snd mv) metric = Some (if acc then xs[?w := stored_reading ?v] else xs)"
      using f xs by (auto simp: mv_def acc_def)
  qed
  have r': "pr_valid_masks (gpm_ring_append tp r) = (pr_valid_masks r)[?w := fst mv]"
    "pr_values (gpm_ring_append tp r) = snd mv"
    by (simp_all add: gpm_ring_append_def tp Let_def mv_def)
  have rd: "gpm_reading perf metric = (if acc then Some (stored_reading ?v) else None)"
    by (simp add: gpm_reading_def acc_def)
  have l: "?w < length (pr_valid_masks r)" "i < length (pr_valid_masks r)" "?w < length xs" "i < length xs"
    using ok i xs(2) by (auto simp: gpm_ring_ok_def)
  show ?thesis
    by (cases "i = ?w") (simp_all add: metric_at_def r' m xs(1) l rd tp[symmetric], simp_all add: tp rd)
qed

interpretation pr: circular_array pr_capacity pr_count pr_write_index pr_slot gpm_entry gpm_ring_append gpm_ring_ok
proof
  fix r :: gpm_ring and x :: "rat \<times> (string, pyval) dict" and i :: nat
  assume g: "gpm_ring_ok r"
  then show "0 < pr_capacity r \<and> pr_write_index r < pr_capacity r \<and> pr_count r \<le> pr_capacity r \<and>
      (pr_count r < pr_capacity r \<longrightarrow> pr_write_index r = pr_count r)"
    by (simp add: gpm_ring_ok_def)
  show "gpm_ring_ok (gpm_ring_append x r)" by (rule gpm_ring_ok_append[OF g])
  show "pr_capacity (gpm_ring_append x r) = pr_capacity r"
    "pr_count (gpm_ring_append x r) = min (pr_capacity r) (pr_count r + 1)"
    "pr_write_index (gpm_ring_append x r) = (pr_write_index r + 1) mod pr_capacity r"
    by (cases x, simp add: gpm_ring_append_def Let_def)+
  assume i: "i < pr_capacity r"
  have "map (metric_at (gpm_ring_append x r) i) (enumerate 0 NVIDIA_GPM_METRICS) =
      (if i = pr_write_index r then map (gpm_reading (snd x)) NVIDIA_GPM_METRICS
       else map (metric_at r i) (enumerate 0 NVIDIA_GPM_METRICS))"
  proof -
    have "map (metric_at (gpm_ring_append x r) i) (enumerate 0 NVIDIA_GPM_METRICS) =
        map (\<lambda>(b, m). if i = pr_write_index r then gpm_reading (snd x) m else metric_at r i (b, m))
          (enumerate 0 NVIDIA_GPM_METRICS)"
      using append_metric_at[OF g i, where tp = x] by auto
    also have "\<dots> = (if i = pr_write_index r then map (gpm_reading (snd x)) (map snd (enumerate 0 NVIDIA_GPM_METRICS))
       else map (metric_at r i) (enumerate 0 NVIDIA_GPM_METRICS))"
      by (simp add: case_prod_beta' o_def del: map_snd_enumerate)
    finally show ?thesis by simp
  qed
  then show "pr_slot (gpm_ring_append x r) i = (if i = pr_write_index r then gpm_entry x else pr_slot r i)"
    using g i by (cases x) (auto simp: pr_slot_def gpm_entry_def gpm_ring_append_def Let_def gpm_ring_ok_def)
qed

subsection \<open>The window of a query\<close>

definition window_slice :: "gpm_ring \<Rightarrow> rat \<Rightarrow> rat \<Rightarrow> 'a list \<Rightarrow> 'a list" where
  "window_slice r since until xs =
     (if \<not> pr_time_ordered r
      then map (\<lambda>k. xs ! pr_index r k) (scan_window (pr_time_at r) since until [0..<pr_count r])
      else
        let start = bisect_left (pr_time_at r) since 0 (pr_count r);
            stop = bisect_right (pr_time_at r) until start (pr_count r)
        in if start = stop then []
           else
             let first = pr_index r start; final = first + stop - start
             in if final \<le> pr_capacity r then take (final - first) (drop first xs)
                else drop first xs @ take (final - pr_capacity r) xs)"

text \<open>The flag promises that the times are in order.\<close>

definition gpm_times_ok :: "gpm_ring \<Rightarrow> bool" where
  "gpm_times_ok r = (pr_time_ordered r \<longrightarrow> sorted (map (pr_time_at r) [0..<pr_count r]))"

lemma pr_time_at_contents: "map (pr_time_at r) [0..<pr_count r] = map fst (pr.contents r)"
  by (simp add: pr.contents_def pr_time_at_def pr_index_def pr_slot_def o_def)

lemma sorted_push_bounded:
  assumes "sorted (map f xs)" "\<And>x. x \<in> set xs \<Longrightarrow> f x \<le> f y"
  shows "sorted (map f (push_bounded n xs y))"
proof -
  have "sorted (map f (xs @ [y]))" using assms by (auto simp: sorted_append)
  from sorted_wrt_drop[OF this, of "length (xs @ [y]) - n"] show ?thesis
    by (simp only: push_bounded_def Let_def drop_map)
qed

lemma gpm_times_ok_append:
  assumes ok: "gpm_ring_ok r" and t: "gpm_times_ok r"
  shows "gpm_times_ok (gpm_ring_append tp r)"
proof (cases "pr_time_ordered (gpm_ring_append tp r)")
  case True
  obtain time perf where tp: "tp = (time, perf)" by (cases tp)
  have o: "pr_time_ordered r" "\<not> (pr_count r \<noteq> 0 \<and> time < pr_time_at r (pr_count r - 1))"
    using True by (simp_all add: gpm_ring_append_def tp Let_def)
  let ?c = "map fst (pr.contents r)"
  have s: "sorted ?c" using t o(1) by (simp add: gpm_times_ok_def pr_time_at_contents)
  have "x \<le> time" if "x \<in> set ?c" for x
  proof -
    have l: "length ?c = pr_count r" by simp
    obtain i where i: "i < pr_count r" "?c ! i = x" using \<open>x \<in> set ?c\<close> by (metis in_set_conv_nth l)
    then have "x \<le> ?c ! (pr_count r - 1)"
      using sorted_nth_mono[OF s, of i "pr_count r - 1"] l by simp
    moreover have "?c ! (pr_count r - 1) = pr_time_at r (pr_count r - 1)"
      using i(1) by (simp flip: pr_time_at_contents)
    ultimately show ?thesis using o(2) i(1) by auto
  qed
  then have "sorted (map fst (push_bounded (pr_capacity r) (pr.contents r) (gpm_entry tp)))"
    using s by (intro sorted_push_bounded) (auto simp: gpm_entry_def tp)
  then show ?thesis by (simp add: gpm_times_ok_def pr_time_at_contents pr.contents_push[OF ok])
qed (simp add: gpm_times_ok_def)

lemma filter_upt_interval:
  assumes "a \<le> b" "b \<le> n" "\<And>i. i < n \<Longrightarrow> P i \<longleftrightarrow> a \<le> i \<and> i < b"
  shows "filter P [0..<n] = [a..<b]"
proof -
  have "[0..<n] = [0..<a] @ [a..<b] @ [b..<n]"
    using assms(1,2) upt_add_eq_append[of 0 b "n - b"] upt_add_eq_append[of 0 a "b - a"] by simp
  then have "filter P [0..<n] = filter P [0..<a] @ filter P [a..<b] @ filter P [b..<n]" by simp
  moreover have "filter P [0..<a] = []" "filter P [a..<b] = [a..<b]" "filter P [b..<n] = []"
    using assms by (auto simp: filter_empty_conv filter_id_conv)
  ultimately show ?thesis by simp
qed

lemma slice_wrap:
  assumes "length xs = cap" "first < cap" "len \<le> cap"
  shows "map (\<lambda>j. xs ! ((first + j) mod cap)) [0..<len] =
    (if first + len \<le> cap then take len (drop first xs)
     else drop first xs @ take (first + len - cap) xs)"
proof (rule nth_equalityI)
  show "length (map (\<lambda>j. xs ! ((first + j) mod cap)) [0..<len]) =
      length (if first + len \<le> cap then take len (drop first xs) else drop first xs @ take (first + len - cap) xs)"
    using assms by auto
  fix j assume "j < length (map (\<lambda>j. xs ! ((first + j) mod cap)) [0..<len])"
  then have j: "j < len" by simp
  have "(first + j) mod cap = (if first + j < cap then first + j else first + j - cap)"
    using assms j by (auto simp: mod_if)
  then show "map (\<lambda>j. xs ! ((first + j) mod cap)) [0..<len] ! j =
      (if first + len \<le> cap then take len (drop first xs) else drop first xs @ take (first + len - cap) xs) ! j"
    using assms j by (auto simp: nth_append add.commute)
qed

lemma window_slice_eq:
  assumes ok: "gpm_ring_ok r" and t: "gpm_times_ok r" and l: "length xs = pr_capacity r"
  shows "window_slice r since until xs =
    map (\<lambda>k. xs ! pr_index r k) (scan_window (pr_time_at r) since until [0..<pr_count r])"
proof (cases "pr_time_ordered r")
  case True
  let ?n = "pr_count r" and ?key = "pr_time_at r"
  have s: "sorted (map ?key [0..<?n])" using t True by (simp add: gpm_times_ok_def)
  have mono: "?key i \<le> ?key j" if "i \<le> j" "j < ?n" for i j
    using sorted_nth_mono[OF s, of i j] that by simp
  define a where "a = bisect_left ?key since 0 ?n"
  define b where "b = bisect_right ?key until a ?n"
  have A: "a \<le> ?n" "\<And>i. i < ?n \<Longrightarrow> (i < a \<longleftrightarrow> ?key i < since)"
    using bisect_left_sound[of 0 ?n ?key since] mono by (auto simp: a_def)
  have B: "a \<le> b" "b \<le> ?n" "\<And>i. a \<le> i \<Longrightarrow> i < ?n \<Longrightarrow> (i < b \<longleftrightarrow> ?key i \<le> until)"
    using bisect_right_sound[of a ?n ?key until] mono A(1) by (auto simp: b_def)
  have f: "scan_window ?key since until [0..<?n] = [a..<b]"
    unfolding scan_window_sorted[OF s]
  proof (rule filter_upt_interval[OF B(1,2)])
    fix i assume i: "i < ?n"
    then show "since \<le> ?key i \<and> ?key i \<le> until \<longleftrightarrow> a \<le> i \<and> i < b"
      using A(2)[OF i] B(3)[of i] by auto
  qed
  note bounds = pr.good_bounds[OF ok]
  have shift: "map g [a..<b] = map (\<lambda>j. g (a + j)) [0..<b - a]" for g :: "nat \<Rightarrow> 'a"
    by (rule nth_equalityI) auto
  have idx: "pr_index r (a + j) = (pr_index r a + j) mod pr_capacity r" if "j < b - a" for j
  proof (cases "?n < pr_capacity r")
    case True
    then show ?thesis using that B by (simp add: pr_index_def ring_index_def)
  next
    case False
    then show ?thesis by (simp add: pr_index_def ring_index_def mod_add_left_eq add.assoc)
  qed
  have "map (\<lambda>k. xs ! pr_index r k) [a..<b] = map (\<lambda>j. xs ! ((pr_index r a + j) mod pr_capacity r)) [0..<b - a]"
    by (simp add: shift idx)
  moreover have "pr_index r a < pr_capacity r" if "a \<noteq> b"
    using that B bounds by (auto simp: pr_index_def ring_index_def)
  moreover have "b - a \<le> pr_capacity r" using B bounds by linarith
  ultimately have "a \<noteq> b \<Longrightarrow> map (\<lambda>k. xs ! pr_index r k) [a..<b] =
      (if pr_index r a + (b - a) \<le> pr_capacity r then take (b - a) (drop (pr_index r a) xs)
       else drop (pr_index r a) xs @ take (pr_index r a + (b - a) - pr_capacity r) xs)"
    using slice_wrap[OF l] by simp
  then show ?thesis
    using True B(1) by (auto simp: window_slice_def Let_def a_def[symmetric] b_def[symmetric] f)
qed (simp add: window_slice_def)

end
