(* ===== verification/GpmCache.thy ===== *)
theory GpmCache
  imports GpmRing
begin

text \<open>
  \<open>packages/backend/src/constella/performance_highres.py\<close>, continued: the summary and the
  downsampling of a series of readings, and the cache of the rings of all devices.

  The code sorts a \<^verbatim>\<open>set\<close> of points by time; points of the same time come out in the order of the set,
  which Python leaves open, and here in the order of their first occurrence.
\<close>

subsection \<open>Summary\<close>

record series_summary =
  y_avg :: "rat option"
  y_min :: "rat option"
  y_max :: "rat option"
  y_p95 :: "rat option"
  y_sample_count :: nat
  y_expected_count :: nat
  y_coverage :: rat

definition p95_index :: "nat \<Rightarrow> nat" where
  "p95_index n = nat (min (int n - 1) (max 0 (\<lceil>of_nat n * (95 / 100 :: rat)\<rceil> - 1)))"

definition summary :: "rat list \<Rightarrow> nat \<Rightarrow> series_summary" where
  "summary vals expected =
     (if vals = []
      then \<lparr>y_avg = None, y_min = None, y_max = None, y_p95 = None, y_sample_count = 0,
            y_expected_count = expected, y_coverage = 0\<rparr>
      else let n = length vals; ordered = sort vals
           in \<lparr>y_avg = Some (pyround 3 (sum_list vals / of_nat n)),
               y_min = Some (pyround 3 (ordered ! 0)),
               y_max = Some (pyround 3 (ordered ! (n - 1))),
               y_p95 = Some (pyround 3 (ordered ! p95_index n)),
               y_sample_count = n, y_expected_count = expected,
               y_coverage = (if expected \<noteq> 0 then pyround 2 (of_nat n / of_nat expected * 100) else 0)\<rparr>)"

lemma p95_index_less: "0 < n \<Longrightarrow> p95_index n < n"
  by (simp add: p95_index_def)

lemma sum_list_ge:
  fixes xs :: "rat list"
  assumes "\<And>x. x \<in> set xs \<Longrightarrow> a \<le> x"
  shows "of_nat (length xs) * a \<le> sum_list xs"
  using sum_list_mono[of xs "\<lambda>_. a" "\<lambda>x. x"] assms by (simp add: sum_list_triv)

lemma sum_list_le:
  fixes xs :: "rat list"
  assumes "\<And>x. x \<in> set xs \<Longrightarrow> x \<le> b"
  shows "sum_list xs \<le> of_nat (length xs) * b"
  using sum_list_mono[of xs "\<lambda>x. x" "\<lambda>_. b"] assms by (simp add: sum_list_triv)

lemma sorted_bounds:
  fixes xs :: "rat list"
  assumes "x \<in> set xs"
  shows "sort xs ! 0 \<le> x \<and> x \<le> sort xs ! (length xs - 1)"
proof -
  obtain i where i: "i < length (sort xs)" "sort xs ! i = x"
    using assms by (metis in_set_conv_nth set_sort)
  then show ?thesis
    using sorted_nth_mono[of "sort xs" 0 i] sorted_nth_mono[of "sort xs" i "length xs - 1"] by auto
qed

text \<open>
  The summary of a series is consistent: the minimum, the average and the 95th percentile lie
  between the minimum and the maximum, every value does up to the rounding, and the coverage is a
  percentage whenever no more values are counted than were expected.
\<close>

theorem summary_consistent:
  assumes "vals \<noteq> []" "s = summary vals expected"
  shows "\<exists>lo avg hi p. y_min s = Some lo \<and> y_avg s = Some avg \<and> y_max s = Some hi \<and> y_p95 s = Some p \<and>
    lo \<le> avg \<and> avg \<le> hi \<and> lo \<le> p \<and> p \<le> hi \<and>
    (\<forall>x \<in> set vals. lo \<le> pyround 3 x \<and> pyround 3 x \<le> hi) \<and>
    y_sample_count s = length vals \<and>
    (length vals \<le> expected \<longrightarrow> 0 \<le> y_coverage s \<and> y_coverage s \<le> 100)"
proof -
  let ?n = "length vals" and ?o = "sort vals"
  have n: "0 < ?n" using assms(1) by simp
  have b: "?o ! 0 \<le> x \<and> x \<le> ?o ! (?n - 1)" if "x \<in> set vals" for x using sorted_bounds[OF that] by simp
  have p: "?o ! p95_index ?n \<in> set vals" using p95_index_less[OF n] by (metis length_sort nth_mem set_sort)
  have a: "?o ! 0 \<le> sum_list vals / of_nat ?n" "sum_list vals / of_nat ?n \<le> ?o ! (?n - 1)"
    using sum_list_ge[of vals "?o ! 0"] sum_list_le[of vals "?o ! (?n - 1)"] b n
    by (simp_all add: le_divide_eq divide_le_eq mult.commute)
  have c: "0 \<le> y_coverage s \<and> y_coverage s \<le> 100" if "?n \<le> expected"
  proof -
    have "of_nat ?n / of_nat expected * 100 \<le> (100 :: rat)" using that n by (simp add: divide_le_eq)
    then show ?thesis
      using assms pyround_le_of_int[of "of_nat ?n / of_nat expected * 100" 100 2]
      by (simp add: summary_def Let_def pyround_nonneg)
  qed
  show ?thesis
    using assms a b[OF p] b c by (simp add: summary_def Let_def pyround_mono)
qed

theorem summary_consistent_witness:
  "\<exists>lo hi. y_min (summary [3, 1, 2] 4) = Some lo \<and> y_max (summary [3, 1, 2] 4) = Some hi \<and> lo \<le> pyround 3 2 \<and> pyround 3 2 \<le> hi"
  using summary_consistent[of "[3, 1, 2]" "summary [3, 1, 2] 4" 4] by auto

subsection \<open>Downsampling\<close>

type_synonym timeline = "(rat \<times> rat option) list"

function chunks :: "nat \<Rightarrow> 'a list \<Rightarrow> 'a list list" where
  "chunks n xs = (if xs = [] \<or> n = 0 then [] else take n xs # chunks n (drop n xs))"
  by pat_completeness auto
termination
  by (relation "measure (\<lambda>(n, xs). length xs)") auto

declare chunks.simps [simp del]

text \<open>\<^verbatim>\<open>min(xs, key=f)\<close> and \<^verbatim>\<open>max(xs, key=f)\<close>: the first of the best.\<close>

fun min_by :: "('a \<Rightarrow> rat) \<Rightarrow> 'a \<Rightarrow> 'a list \<Rightarrow> 'a" where
  "min_by f x [] = x"
| "min_by f x (y # ys) = min_by f (if f y < f x then y else x) ys"

fun max_by :: "('a \<Rightarrow> rat) \<Rightarrow> 'a \<Rightarrow> 'a list \<Rightarrow> 'a" where
  "max_by f x [] = x"
| "max_by f x (y # ys) = max_by f (if f x < f y then y else x) ys"

definition reading_of :: "rat \<times> rat option \<Rightarrow> rat" where
  "reading_of p = (case snd p of Some v \<Rightarrow> v | None \<Rightarrow> 0)"

definition valid_points :: "timeline \<Rightarrow> timeline" where
  "valid_points b = filter (\<lambda>p. snd p \<noteq> None) b"

definition missing_points :: "timeline \<Rightarrow> timeline" where
  "missing_points b = filter (\<lambda>p. snd p = None) b"

definition bucket_points :: "timeline \<Rightarrow> timeline" where
  "bucket_points b =
     (case valid_points b of
        [] \<Rightarrow> [(fst (last b), None)]
      | v # vs \<Rightarrow>
          [min_by reading_of v vs, max_by reading_of v vs] @
          (case missing_points b of [] \<Rightarrow> [] | m # ms \<Rightarrow> [m]))"

definition bucket_size :: "nat \<Rightarrow> nat \<Rightarrow> nat" where
  "bucket_size len max_points =
     (let count = max 1 ((max_points - 2) div 3) in max 1 ((len + count - 1) div count))"

definition downsample_minmax :: "timeline \<Rightarrow> nat \<Rightarrow> timeline" where
  "downsample_minmax timeline max_points =
     (if length timeline \<le> max_points then timeline
      else sort_key fst (first_occurrences ([hd timeline, last timeline] @
             concat (map bucket_points (chunks (bucket_size (length timeline) max_points) timeline)))))"

lemma chunks_Nil [simp]: "chunks n [] = []"
  by (subst chunks.simps) simp

lemma chunks_step: "xs \<noteq> [] \<Longrightarrow> 0 < n \<Longrightarrow> chunks n xs = take n xs # chunks n (drop n xs)"
  by (subst chunks.simps) simp

lemma chunks_0 [simp]: "chunks 0 xs = []"
  by (subst chunks.simps) simp

lemma chunks_induct [consumes 1, case_names Nil Step]:
  assumes "0 < n" "P []" "\<And>xs. xs \<noteq> [] \<Longrightarrow> P (drop n xs) \<Longrightarrow> P xs"
  shows "P xs"
proof (induction "length xs" arbitrary: xs rule: less_induct)
  case less
  show ?case
  proof (cases "xs = []")
    case False
    then have "length (drop n xs) < length xs" using assms(1) by simp
    then show ?thesis using less assms(3) False by blast
  qed (simp add: assms(2))
qed

lemma concat_chunks:
  assumes "0 < n"
  shows "concat (chunks n xs) = xs"
  using assms by (induction xs rule: chunks_induct) (simp_all add: chunks_step assms)

lemma chunks_nonempty_all:
  assumes "0 < n"
  shows "[] \<notin> set (chunks n xs)"
  using assms by (induction xs rule: chunks_induct) (use assms in \<open>simp_all add: chunks_step\<close>)

lemma chunks_nonempty: "b \<in> set (chunks n xs) \<Longrightarrow> b \<noteq> []"
  using chunks_nonempty_all[of n xs] by (cases "n = 0") auto

lemma ceil_div_step:
  fixes n l :: nat
  assumes "0 < n" "0 < l"
  shows "Suc ((l - n + n - 1) div n) = (l + n - 1) div n"
proof (cases "n \<le> l")
  case True
  then have "l + n - 1 = (l - n + n - 1) + n" using assms by linarith
  then show ?thesis using assms by (metis Suc_eq_plus1 div_add_self2 not_less_zero)
next
  case False
  have e: "l + n - 1 = (l - 1) + n" using assms by linarith
  have z: "(l - 1) div n = 0" "(n - 1) div n = 0" using False assms by simp_all
  have "(l + n - 1) div n = (l - 1) div n + 1" unfolding e by (rule div_add_self2) (use assms in simp)
  then show ?thesis using False z by simp
qed

lemma length_chunks:
  assumes "0 < n"
  shows "length (chunks n xs) = (length xs + n - 1) div n"
  using assms
proof (induction xs rule: chunks_induct)
  case Nil
  then show ?case using assms by simp
next
  case (Step xs)
  then show ?case using assms ceil_div_step[of n "length xs"] by (simp add: chunks_step del: One_nat_def)
qed

lemma min_by_in: "min_by f x xs \<in> insert x (set xs)"
  by (induction f x xs rule: min_by.induct) auto

lemma max_by_in: "max_by f x xs \<in> insert x (set xs)"
  by (induction f x xs rule: max_by.induct) auto

lemma min_by_le: "y \<in> insert x (set xs) \<Longrightarrow> f (min_by f x xs) \<le> f y"
  by (induction f x xs arbitrary: y rule: min_by.induct) (force split: if_splits)+

lemma max_by_ge: "y \<in> insert x (set xs) \<Longrightarrow> f y \<le> f (max_by f x xs)"
  by (induction f x xs arbitrary: y rule: max_by.induct) (force split: if_splits)+

lemma valid_points_iff: "p \<in> set (valid_points b) \<longleftrightarrow> p \<in> set b \<and> snd p \<noteq> None"
  by (simp add: valid_points_def)

lemma missing_points_iff: "p \<in> set (missing_points b) \<longleftrightarrow> p \<in> set b \<and> snd p = None"
  by (simp add: missing_points_def)

lemma valid_points_ConsD:
  assumes "valid_points b = v # vs" "p \<in> insert v (set vs)"
  shows "p \<in> set b \<and> snd p \<noteq> None"
  using assms valid_points_iff[of p b] by simp

lemma bucket_points_subset:
  assumes "b \<noteq> []"
  shows "set (bucket_points b) \<subseteq> set b"
proof (cases "valid_points b")
  case Nil
  then have "snd (last b) = None" using assms valid_points_iff[of "last b" b] by simp
  then have "(fst (last b), None) = last b" by (metis prod.collapse)
  then show ?thesis using assms Nil by (simp add: bucket_points_def)
next
  case (Cons v vs)
  note v = valid_points_ConsD[OF Cons, THEN conjunct1]
  show ?thesis
    using v[OF min_by_in] v[OF max_by_in] missing_points_iff[of "hd (missing_points b)" b]
    by (cases "missing_points b") (simp_all add: bucket_points_def Cons)
qed

lemma bucket_points_length: "length (bucket_points b) \<le> 3"
  by (simp add: bucket_points_def split: list.splits)

lemma bucket_points_extremes:
  assumes "(t, Some v) \<in> set b"
  shows "(\<exists>t' v'. (t', Some v') \<in> set (bucket_points b) \<and> v' \<le> v) \<and>
    (\<exists>t' v'. (t', Some v') \<in> set (bucket_points b) \<and> v \<le> v')"
proof -
  have m: "(t, Some v) \<in> set (valid_points b)" using assms by (simp add: valid_points_iff)
  then obtain x xs where f: "valid_points b = x # xs" by (cases "valid_points b") simp_all
  let ?lo = "min_by reading_of x xs" and ?hi = "max_by reading_of x xs"
  have "(t, Some v) \<in> insert x (set xs)" using m f by simp
  from min_by_le[OF this, of reading_of] max_by_ge[OF this, of reading_of]
  have r: "reading_of ?lo \<le> v" "v \<le> reading_of ?hi" by (simp_all add: reading_of_def)
  obtain t1 v1 t2 v2 where e: "?lo = (t1, Some v1)" "?hi = (t2, Some v2)"
    using valid_points_ConsD[OF f min_by_in[of reading_of x xs]] valid_points_ConsD[OF f max_by_in[of reading_of x xs]]
    by (metis not_None_eq prod.collapse)
  have "?lo \<in> set (bucket_points b)" "?hi \<in> set (bucket_points b)" by (simp_all add: bucket_points_def f)
  then show ?thesis using r e by (auto simp: reading_of_def)
qed

lemma length_concat_le: "(\<And>x. x \<in> set xs \<Longrightarrow> length (f x) \<le> k) \<Longrightarrow> length (concat (map f xs)) \<le> k * length xs"
  by (induction xs) fastforce+

lemma length_first_occurrences: "length (first_occurrences xs) \<le> length xs"
proof (induction xs)
  case (Cons x xs)
  then show ?case using le_trans[OF length_filter_le[of "\<lambda>y. y \<noteq> x" "first_occurrences xs"] Cons.IH] by simp
qed simp

lemma ceil_div_le_iff:
  fixes l c k :: nat
  assumes "0 < c"
  shows "(l + c - 1) div c \<le> k \<longleftrightarrow> l \<le> k * c"
proof -
  have "(l + c - 1) div c \<le> k \<longleftrightarrow> (l + c - 1) div c < k + 1" by linarith
  also have "\<dots> \<longleftrightarrow> l + c - 1 < (k + 1) * c" using assms by (rule div_less_iff_less_mult)
  also have "\<dots> \<longleftrightarrow> l \<le> k * c" using assms by (simp add: add_mult_distrib del: One_nat_def) linarith
  finally show ?thesis .
qed

lemma bucket_count_bound:
  fixes len c n :: nat
  assumes "0 < c" "n = max 1 ((len + c - 1) div c)"
  shows "(len + n - 1) div n \<le> c"
proof -
  have "len \<le> n * c" using assms ceil_div_le_iff[of c len n] by simp
  then show ?thesis using assms ceil_div_le_iff[of n len c] by (simp add: mult.commute)
qed

lemma bucket_size_pos [simp]: "0 < bucket_size len max_points"
  by (simp add: bucket_size_def Let_def)

lemma downsample_pieces:
  "length (chunks (bucket_size (length ts) max_points) ts) \<le> max 1 ((max_points - 2) div 3)"
  unfolding length_chunks[OF bucket_size_pos]
  by (rule bucket_count_bound) (simp, simp only: bucket_size_def Let_def)

definition picked :: "timeline \<Rightarrow> nat \<Rightarrow> timeline" where
  "picked ts max_points =
     [hd ts, last ts] @ concat (map bucket_points (chunks (bucket_size (length ts) max_points) ts))"

lemma picked_length: "length (picked ts max_points) \<le> max 5 max_points"
proof -
  let ?cs = "chunks (bucket_size (length ts) max_points) ts"
  have "length (concat (map bucket_points ?cs)) \<le> 3 * length ?cs"
    by (rule length_concat_le) (rule bucket_points_length)
  then show ?thesis using downsample_pieces[of ts max_points] by (simp add: picked_def)
qed

lemma chunks_subset: "b \<in> set (chunks n ts) \<Longrightarrow> set b \<subseteq> set ts"
  using concat_chunks[of n ts] by (cases "n = 0") (simp, metis UN_upper gr0I set_concat)

lemma picked_subset:
  assumes "ts \<noteq> []"
  shows "set (picked ts max_points) \<subseteq> set ts"
proof -
  have "set (bucket_points b) \<subseteq> set ts" if "b \<in> set (chunks (bucket_size (length ts) max_points) ts)" for b
    using bucket_points_subset[OF chunks_nonempty[OF that]] chunks_subset[OF that] by blast
  then show ?thesis using assms by (auto simp: picked_def)
qed

lemma picked_extremes:
  assumes "(t, Some v) \<in> set ts"
  shows "(\<exists>t' v'. (t', Some v') \<in> set (picked ts max_points) \<and> v' \<le> v) \<and>
    (\<exists>t' v'. (t', Some v') \<in> set (picked ts max_points) \<and> v \<le> v')"
proof -
  let ?cs = "chunks (bucket_size (length ts) max_points) ts"
  obtain b where b: "b \<in> set ?cs" "(t, Some v) \<in> set b"
    using assms concat_chunks[OF bucket_size_pos, of "length ts" max_points ts] by (metis UN_E set_concat)
  have "set (bucket_points b) \<subseteq> set (picked ts max_points)" using b(1) by (auto simp: picked_def)
  then show ?thesis using bucket_points_extremes[OF b(2)] by blast
qed

lemma downsample_minmax_picked:
  "downsample_minmax ts max_points =
     (if length ts \<le> max_points then ts else sort_key fst (first_occurrences (picked ts max_points)))"
  by (simp add: downsample_minmax_def picked_def)

text \<open>
  The downsampling of a series invents nothing and hides no peak: the points are points of the
  series, in the order of time, never more than the limit (or five), the first and the last one
  kept, and for every reading of the series there is one at least as low and one at least as high.
\<close>

theorem downsample_keeps_extremes:
  assumes "sorted (map fst ts)" "ts \<noteq> []" "out = downsample_minmax ts max_points"
  shows "set out \<subseteq> set ts \<and> sorted (map fst out) \<and> length out \<le> max 5 max_points \<and>
    hd ts \<in> set out \<and> last ts \<in> set out \<and>
    (\<forall>t v. (t, Some v) \<in> set ts \<longrightarrow>
       (\<exists>t' v'. (t', Some v') \<in> set out \<and> v' \<le> v) \<and> (\<exists>t' v'. (t', Some v') \<in> set out \<and> v \<le> v'))"
proof (cases "length ts \<le> max_points")
  case True
  then show ?thesis using assms by (auto simp: downsample_minmax_def)
next
  case False
  then have o: "out = sort_key fst (first_occurrences (picked ts max_points))"
    by (simp add: assms(3) downsample_minmax_picked)
  have s: "set out = set (picked ts max_points)" by (simp add: o)
  have "length out \<le> max 5 max_points"
    using le_trans[OF length_first_occurrences picked_length] by (simp add: o)
  moreover have "hd ts \<in> set out" "last ts \<in> set out" by (simp_all add: s picked_def)
  moreover have "set out \<subseteq> set ts" using picked_subset[OF assms(2)] s by simp
  moreover have "sorted (map fst out)" by (simp add: o)
  ultimately show ?thesis using picked_extremes[of _ _ ts max_points] by (simp add: s)
qed

theorem downsample_keeps_extremes_witness:
  "\<exists>t v. (t, Some v) \<in> set (downsample_minmax [(0, Some 1), (1, Some 9), (2, None), (3, Some 2), (4, Some 0), (5, Some 1)] 5) \<and> 9 \<le> v"
  using downsample_keeps_extremes[OF _ _ refl, of "[(0, Some 1), (1, Some 9), (2, None), (3, Some 2), (4, Some 0), (5, Some 1)]" 5]
  by auto

subsection \<open>The series of a ring\<close>

definition metric_bit :: "string \<Rightarrow> nat" where
  "metric_bit metric = length (takeWhile (\<lambda>m. m \<noteq> metric) NVIDIA_GPM_METRICS)"

text \<open>The body of the loop of \<^verbatim>\<open>metric_series_many\<close>: one metric from the three slices.\<close>

definition series_of_slices ::
    "string \<Rightarrow> nat \<Rightarrow> bool \<Rightarrow> rat list \<Rightarrow> 16 word list \<Rightarrow> rat list \<Rightarrow> series_summary \<times> timeline" where
  "series_of_slices metric max_points summary_only timestamps masks samples =
     (let valid = (\<lambda>m. bit m (metric_bit metric));
          vals = map fst (filter (\<lambda>(v, m). valid m) (zip samples masks));
          tline = map (\<lambda>(t, v, m). (t, if valid m then Some v else None)) (zip timestamps (zip samples masks))
      in (summary vals (length timestamps),
          if summary_only then [] else downsample_minmax tline max_points))"

definition metric_series_many ::
    "gpm_ring \<Rightarrow> string list \<Rightarrow> rat \<Rightarrow> rat \<Rightarrow> nat \<Rightarrow> bool \<Rightarrow> (string, series_summary \<times> timeline) dict result" where
  "metric_series_many r metrics since until max_points summary_only =
     (if list_all (has_key (pr_values r)) metrics
      then let timestamps = window_slice r since until (pr_timestamps r);
              masks = window_slice r since until (pr_valid_masks r)
           in Inr (fold (\<lambda>m. AList.update m (series_of_slices m max_points summary_only timestamps masks
                 (window_slice r since until (the (map_of (pr_values r) m))))) metrics [])
      else Inl KeyError)"

definition metric_series_one ::
    "gpm_ring \<Rightarrow> string \<Rightarrow> rat \<Rightarrow> rat \<Rightarrow> nat \<Rightarrow> bool \<Rightarrow> (series_summary \<times> timeline) result" where
  "metric_series_one r metric since until max_points summary_only =
     rbind (metric_series_many r [metric] since until max_points summary_only)
       (\<lambda>d. case map_of d metric of None \<Rightarrow> Inl KeyError | Some s \<Rightarrow> Inr s)"

text \<open>What the series is meant to be, over the entries of a queue.\<close>

definition series_spec ::
    "(rat \<times> rat option list) list \<Rightarrow> string \<Rightarrow> rat \<Rightarrow> rat \<Rightarrow> nat \<Rightarrow> bool \<Rightarrow> series_summary \<times> timeline" where
  "series_spec es metric since until max_points summary_only =
     (let w = map (\<lambda>e. (fst e, snd e ! metric_bit metric)) (scan_window fst since until es)
      in (summary (List.map_filter snd w) (length w),
          if summary_only then [] else downsample_minmax w max_points))"

lemma metric_bit_nth: "metric \<in> set NVIDIA_GPM_METRICS \<Longrightarrow>
    metric_bit metric < length NVIDIA_GPM_METRICS \<and> NVIDIA_GPM_METRICS ! metric_bit metric = metric"
  using nth_length_takeWhile[of "\<lambda>m. m \<noteq> metric" NVIDIA_GPM_METRICS]
    takeWhile_eq_all_conv[of "\<lambda>m. m \<noteq> metric" NVIDIA_GPM_METRICS]
    length_takeWhile_le[of "\<lambda>m. m \<noteq> metric" NVIDIA_GPM_METRICS]
  by (metis (mono_tags, lifting) le_neq_implies_less metric_bit_def takeWhile_eq_take take_all_iff)

lemma slot_metric:
  assumes "metric \<in> set NVIDIA_GPM_METRICS"
  shows "snd (pr_slot r i) ! metric_bit metric = metric_at r i (metric_bit metric, metric)"
  using metric_bit_nth[OF assms] by (simp add: pr_slot_def nth_enumerate_eq)

lemma map_filter_zip_valid:
  "map fst (filter (\<lambda>(v, m). P m) (map (\<lambda>k. (f k, g k)) ks)) =
    List.map_filter snd (map (\<lambda>k. (h k, if P (g k) then Some (f k) else None)) ks)"
  by (induction ks) (simp_all add: List.map_filter_def)

lemma zip_maps: "zip (map f ks) (map g ks) = map (\<lambda>k. (f k, g k)) ks"
  by (induction ks) simp_all

text \<open>
  The state every ring reaches from an empty one.
\<close>

lemma gpm_ring_ok_new: "0 < n \<Longrightarrow> gpm_ring_ok (new_gpm_ring n)"
  by (simp add: gpm_ring_ok_def new_gpm_ring_def o_def list_all_iff)

lemma gpm_times_ok_fold:
  "gpm_ring_ok r \<Longrightarrow> gpm_times_ok r \<Longrightarrow> gpm_times_ok (fold gpm_ring_append xs r)"
  by (induction xs arbitrary: r) (simp_all add: gpm_times_ok_append gpm_ring_ok_append)

lemma series_of_ring:
  assumes "gpm_ring_ok r" "gpm_times_ok r" "metric \<in> set NVIDIA_GPM_METRICS"
  shows "metric_series_one r metric since until max_points summary_only =
    Inr (series_spec (pr.contents r) metric since until max_points summary_only)"
proof -
  let ?ks = "scan_window (pr_time_at r) since until [0..<pr_count r]" and ?b = "metric_bit metric"
  obtain xs where xs: "map_of (pr_values r) metric = Some xs" "length xs = pr_capacity r"
    using metric_series[OF assms(1,3)] by blast
  have l: "length (pr_timestamps r) = pr_capacity r" "length (pr_valid_masks r) = pr_capacity r"
    using assms(1) by (simp_all add: gpm_ring_ok_def)
  note w = window_slice_eq[OF assms(1,2)]
  have c: "map (\<lambda>e. (fst e, snd e ! ?b)) (scan_window fst since until (pr.contents r)) =
      map (\<lambda>k. (pr_timestamps r ! pr_index r k,
        if bit (pr_valid_masks r ! pr_index r k) ?b then Some (xs ! pr_index r k) else None)) ?ks"
  proof -
    have "scan_window fst since until (pr.contents r) = map (\<lambda>k. pr_slot r (pr_index r k)) ?ks"
      by (simp add: pr.contents_def scan_window_map o_def pr_slot_def pr_time_at_def[abs_def] pr_index_def)
    then show ?thesis
      by (simp add: slot_metric[OF assms(3)] metric_at_def xs(1) o_def) (simp add: pr_slot_def)
  qed
  show ?thesis
    using xs(1)
    by (simp add: metric_series_one_def metric_series_many_def has_key_def Let_def series_of_slices_def
        series_spec_def w[OF l(1)] w[OF l(2)] w[OF xs(2)] zip_maps c o_def case_prod_beta'
        map_filter_zip_valid[where P = "\<lambda>m. bit m ?b" and h = "\<lambda>k. pr_timestamps r ! pr_index r k", unfolded case_prod_beta']
        cong: if_cong)
qed

text \<open>
  C29: a query of a ring refines the same query of a plain list: after any sequence of appends to an
  empty ring of capacity n, the series of a metric, with its binary search over wrapped arrays and
  its validity bits, is the one computed by scanning the last n samples, whether or not the clock
  ever went backwards.
\<close>

theorem gpm_series_refines_queue:
  fixes xs :: "(rat \<times> (string, pyval) dict) list"
  assumes "0 < n" "metric \<in> set NVIDIA_GPM_METRICS"
  shows "metric_series_one (fold gpm_ring_append xs (new_gpm_ring n)) metric since until max_points summary_only =
    Inr (series_spec (drop (length xs - n) (map gpm_entry xs)) metric since until max_points summary_only)"
proof -
  let ?r = "fold gpm_ring_append xs (new_gpm_ring n)"
  note ok = gpm_ring_ok_new[OF assms(1)]
  have "gpm_times_ok ?r"
    by (rule gpm_times_ok_fold[OF ok]) (simp add: gpm_times_ok_def new_gpm_ring_def)
  moreover have "pr.contents ?r = drop (length xs - n) (map gpm_entry xs)"
    using pr.contents_fold[OF ok, of xs] by (simp add: new_gpm_ring_def)
  ultimately show ?thesis using series_of_ring[OF pr.good_fold[OF ok] _ assms(2)] by simp
qed

theorem gpm_series_refines_queue_witness:
  "metric_series_one (fold gpm_ring_append [(0, []), (1, [])] (new_gpm_ring 1)) ''nvidia.gpm.sm_active'' 0 9 10 True =
    Inr (series_spec [gpm_entry (1, [])] ''nvidia.gpm.sm_active'' 0 9 10 True)"
  using gpm_series_refines_queue[of 1 "''nvidia.gpm.sm_active''" "[(0, []), (1, [])]" 0 9 10 True]
  by (simp add: NVIDIA_GPM_METRICS_def)

subsection \<open>The cache\<close>

definition VALID_MASK_BYTES :: nat where
  "VALID_MASK_BYTES = 2"

record gpm_device =
  dv_node_id :: string
  dv_gpu_uuid :: string
  dv_gpu_index :: int
  dv_name :: string
  dv_status :: string

record gpm_cache =
  gc_capacity :: nat
  gc_enabled :: bool
  gc_rings :: "(string \<times> string, gpm_ring) dict"
  gc_devices :: "(string \<times> string, gpm_device) dict"

definition new_gpm_cache :: "nat \<Rightarrow> bool \<Rightarrow> gpm_cache" where
  "new_gpm_cache capacity enabled =
     \<lparr>gc_capacity = capacity, gc_enabled = enabled, gc_rings = [], gc_devices = []\<rparr>"

definition gpm_cache_append ::
    "string \<Rightarrow> string \<Rightarrow> int \<Rightarrow> string \<Rightarrow> rat \<Rightarrow> (string, pyval) dict option \<Rightarrow> gpm_cache \<Rightarrow> gpm_cache" where
  "gpm_cache_append node_id gpu_uuid gpu_index name sampled_at performance c =
     (case performance of
        None \<Rightarrow> c
      | Some p \<Rightarrow>
          if \<not> gc_enabled c \<or> p = [] \<or> dget p ''profile'' \<noteq> PStr NVIDIA_GPM_PROFILE then c
          else
            let key = (node_id, gpu_uuid);
                r = (case map_of (gc_rings c) key of None \<Rightarrow> new_gpm_ring (gc_capacity c) | Some r \<Rightarrow> r)
            in c\<lparr>gc_devices := AList.update key
                     \<lparr>dv_node_id = node_id, dv_gpu_uuid = gpu_uuid, dv_gpu_index = gpu_index, dv_name = name,
                      dv_status = py_str (py_or (dget p ''status'') (PStr ''error''))\<rparr> (gc_devices c),
                   gc_rings := AList.update key (gpm_ring_append (sampled_at, p) r) (gc_rings c)\<rparr>)"

record gpm_query =
  gq_enabled :: bool
  gq_metrics :: "string list"
  gq_series :: "(gpm_device \<times> (string, series_summary \<times> timeline) dict) list"

definition device_order :: "gpm_device \<Rightarrow> int \<times> string" where
  "device_order d = (dv_gpu_index d, dv_gpu_uuid d)"

text \<open>One turn of the loop over the rings; a device without its description would be a \<^verbatim>\<open>KeyError\<close>.\<close>

definition ring_series ::
    "gpm_cache \<Rightarrow> string list \<Rightarrow> rat \<Rightarrow> rat \<Rightarrow> nat \<Rightarrow> bool \<Rightarrow> (string \<times> string) \<times> gpm_ring
      \<Rightarrow> (gpm_device \<times> (string, series_summary \<times> timeline) dict) result" where
  "ring_series c metrics since until max_points summary_only kr =
     (case map_of (gc_devices c) (fst kr) of
        None \<Rightarrow> Inl KeyError
      | Some d \<Rightarrow> rbind (metric_series_many (snd kr) metrics since until max_points summary_only) (\<lambda>s. Inr (d, s)))"

definition selected_metrics :: "string list option \<Rightarrow> string list" where
  "selected_metrics metrics =
     filter (\<lambda>m. m \<in> set NVIDIA_GPM_METRICS)
       (case metrics of None \<Rightarrow> NVIDIA_GPM_METRICS | Some ms \<Rightarrow> if ms = [] then NVIDIA_GPM_METRICS else ms)"

definition gpm_cache_query ::
    "gpm_cache \<Rightarrow> string \<Rightarrow> string list option \<Rightarrow> string list option \<Rightarrow> rat \<Rightarrow> rat \<Rightarrow> nat \<Rightarrow> bool \<Rightarrow> gpm_query result" where
  "gpm_cache_query c node_id gpu_uuids metrics since until max_points summary_only =
     (let ms = selected_metrics metrics; uuids = (case gpu_uuids of None \<Rightarrow> [] | Some us \<Rightarrow> us)
      in if \<not> gc_enabled c then Inr \<lparr>gq_enabled = False, gq_metrics = ms, gq_series = []\<rparr>
         else rbind (rmap (ring_series c ms since until max_points summary_only)
                (filter (\<lambda>kr. fst (fst kr) = node_id \<and> (uuids = [] \<or> snd (fst kr) \<in> set uuids)) (gc_rings c)))
              (\<lambda>series. Inr \<lparr>gq_enabled = True, gq_metrics = ms,
                 gq_series = sort_key (\<lambda>s. device_order (fst s)) series\<rparr>))"

record gpm_status =
  gs_enabled :: bool
  gs_ring_count :: nat
  gs_capacity_per_gpu :: nat
  gs_valid_point_count :: nat
  gs_approx_bytes :: nat
  gs_allocated_bytes :: nat

definition gpm_cache_status :: "gpm_cache \<Rightarrow> gpm_status" where
  "gpm_cache_status c =
     (let valid_points = sum_list (map (\<lambda>kr. pr_count (snd kr)) (gc_rings c));
          bytes_per_point = 8 + length NVIDIA_GPM_METRICS * 4 + VALID_MASK_BYTES
      in \<lparr>gs_enabled = gc_enabled c, gs_ring_count = length (gc_rings c), gs_capacity_per_gpu = gc_capacity c,
          gs_valid_point_count = valid_points, gs_approx_bytes = valid_points * bytes_per_point,
          gs_allocated_bytes = length (gc_rings c) * gc_capacity c * bytes_per_point\<rparr>)"

text \<open>
  The invariant of the cache: rings and descriptions have the same keys, every ring is well formed
  and has the configured capacity, and a description carries the key it is stored under.
\<close>

definition gpm_cache_ok :: "gpm_cache \<Rightarrow> bool" where
  "gpm_cache_ok c =
     (distinct (map fst (gc_rings c)) \<and> map fst (gc_devices c) = map fst (gc_rings c) \<and>
      list_all (\<lambda>kr. gpm_ring_ok (snd kr) \<and> gpm_times_ok (snd kr) \<and> pr_capacity (snd kr) = gc_capacity c) (gc_rings c) \<and>
      list_all (\<lambda>kd. fst kd = (dv_node_id (snd kd), dv_gpu_uuid (snd kd))) (gc_devices c))"

type_synonym gpm_observation = "string \<times> string \<times> int \<times> string \<times> rat \<times> (string, pyval) dict option"

definition cache_observe :: "gpm_observation \<Rightarrow> gpm_cache \<Rightarrow> gpm_cache" where
  "cache_observe ob c =
     (case ob of (node_id, gpu_uuid, gpu_index, name, sampled_at, p) \<Rightarrow>
        gpm_cache_append node_id gpu_uuid gpu_index name sampled_at p c)"

lemma gpm_cache_ok_append:
  assumes "0 < gc_capacity c" "gpm_cache_ok c"
  shows "gpm_cache_ok (cache_observe ob c) \<and> gc_capacity (cache_observe ob c) = gc_capacity c"
proof -
  obtain node uuid idx nm t p where ob: "ob = (node, uuid, idx, nm, t, p)" by (cases ob)
  let ?key = "(node, uuid)"
  let ?good = "\<lambda>r. gpm_ring_ok r \<and> gpm_times_ok r \<and> pr_capacity r = gc_capacity c"
  let ?r = "case map_of (gc_rings c) ?key of None \<Rightarrow> new_gpm_ring (gc_capacity c) | Some r \<Rightarrow> r"
  have new: "?good (new_gpm_ring (gc_capacity c))"
    using assms(1) gpm_ring_ok_new[of "gc_capacity c"] by (simp add: gpm_times_ok_def new_gpm_ring_def)
  have all: "list_all (\<lambda>kr. ?good (snd kr)) (gc_rings c)" using assms(2) by (simp add: gpm_cache_ok_def)
  have r: "?good ?r"
  proof (cases "map_of (gc_rings c) ?key")
    case (Some r)
    then show ?thesis using list_all_lookup[OF all Some] by simp
  qed (simp add: new)
  have push: "?good (gpm_ring_append (t, q) ?r)" for q
    using r gpm_ring_ok_append[of ?r "(t, q)"] gpm_times_ok_append[of ?r "(t, q)"] pr.push_cap[of ?r "(t, q)"] by simp
  show ?thesis
  proof (cases "gc_enabled c \<and> (\<exists>q. p = Some q \<and> q \<noteq> [] \<and> dget q ''profile'' = PStr NVIDIA_GPM_PROFILE)")
    case True
    then obtain q where q: "p = Some q" "q \<noteq> []" "dget q ''profile'' = PStr NVIDIA_GPM_PROFILE" by blast
    then show ?thesis
      using assms(2) True list_all_update[OF all, of "gpm_ring_append (t, q) ?r" ?key, OF push]
      by (simp add: gpm_cache_ok_def cache_observe_def ob gpm_cache_append_def Let_def update_keys distinct_update
          list_all_update_pair)
  next
    case False
    then have "cache_observe ob c = c"
      by (auto simp: cache_observe_def ob gpm_cache_append_def split: option.splits)
    then show ?thesis using assms(2) by simp
  qed
qed

lemma gpm_cache_ok_fold:
  "0 < gc_capacity c \<Longrightarrow> gpm_cache_ok c \<Longrightarrow>
     gpm_cache_ok (fold cache_observe obs c) \<and> gc_capacity (fold cache_observe obs c) = gc_capacity c"
proof (induction obs arbitrary: c)
  case (Cons ob obs)
  then show ?case using gpm_cache_ok_append[OF Cons.prems, of ob] Cons.IH[of "cache_observe ob c"] by simp
qed simp

lemma selected_subset: "set (selected_metrics ms) \<subseteq> set NVIDIA_GPM_METRICS"
  by (auto simp: selected_metrics_def)

lemma series_many_ok:
  assumes "gpm_ring_ok r" "set ms \<subseteq> set NVIDIA_GPM_METRICS"
  shows "is_ok (metric_series_many r ms since until max_points summary_only)"
proof -
  have "list_all (has_key (pr_values r)) ms"
    using assms by (auto simp: list_all_iff has_key_iff gpm_ring_ok_def)
  then show ?thesis by (simp add: metric_series_many_def Let_def)
qed

lemma ring_series_ok:
  assumes "gpm_cache_ok c" "kr \<in> set (gc_rings c)"
  shows "\<exists>d s. ring_series c (selected_metrics ms) since until max_points summary_only kr = Inr (d, s) \<and>
    fst kr = (dv_node_id d, dv_gpu_uuid d)"
proof -
  have "fst kr \<in> set (map fst (gc_devices c))" using assms by (simp add: gpm_cache_ok_def)
  then obtain d where d: "map_of (gc_devices c) (fst kr) = Some d" using has_key_iff by (metis has_key_def not_Some_eq)
  then have "fst kr = (dv_node_id d, dv_gpu_uuid d)"
    using assms(1) map_of_SomeD[OF d] by (auto simp: gpm_cache_ok_def list_all_iff)
  moreover have "gpm_ring_ok (snd kr)" using assms by (auto simp: gpm_cache_ok_def list_all_iff)
  then have "is_ok (metric_series_many (snd kr) (selected_metrics ms) since until max_points summary_only)"
    by (rule series_many_ok[OF _ selected_subset])
  ultimately show ?thesis using d by (auto simp: ring_series_def is_ok_iff)
qed

lemma rmap_total:
  assumes "\<And>x. x \<in> set xs \<Longrightarrow> \<exists>y. f x = Inr y \<and> P x y"
  shows "\<exists>ys. rmap f xs = Inr ys \<and> list_all2 P xs ys"
  using assms
proof (induction xs)
  case (Cons x xs)
  obtain y where "f x = Inr y" "P x y" using Cons.prems[of x] by auto
  moreover obtain ys where "rmap f xs = Inr ys" "list_all2 P xs ys" using Cons by auto
  ultimately show ?case by auto
qed simp

lemma list_all2_map_eq: "list_all2 (\<lambda>x y. f x = g y) xs ys \<Longrightarrow> map f xs = map g ys"
  by (induction xs ys rule: list_all2_induct) auto

text \<open>
  The cache never loses the description of a ring, so a query of an enabled cache never raises:
  after any observations it lists each matching device of the node once, ordered by index and UUID,
  and the memory reported as used is at most the memory allocated.
\<close>

theorem gpm_cache_query_total:
  assumes "0 < capacity" "c = fold cache_observe obs (new_gpm_cache capacity True)"
  shows "\<exists>q. gpm_cache_query c node_id gpu_uuids metrics since until max_points summary_only = Inr q \<and>
    set (map (\<lambda>s. (dv_node_id (fst s), dv_gpu_uuid (fst s))) (gq_series q)) =
      {k \<in> set (map fst (gc_rings c)). fst k = node_id \<and> (case gpu_uuids of None \<Rightarrow> True | Some us \<Rightarrow> us = [] \<or> snd k \<in> set us)} \<and>
    distinct (map (\<lambda>s. dv_gpu_uuid (fst s)) (gq_series q)) \<and>
    sorted (map (\<lambda>s. device_order (fst s)) (gq_series q)) \<and>
    gs_approx_bytes (gpm_cache_status c) \<le> gs_allocated_bytes (gpm_cache_status c)"
proof -
  have ok: "gpm_cache_ok c" "gc_capacity c = capacity" "gc_enabled c"
  proof -
    let ?c = "new_gpm_cache capacity True"
    have "gpm_cache_ok ?c" "gc_capacity ?c = capacity" by (simp_all add: gpm_cache_ok_def new_gpm_cache_def)
    then show "gpm_cache_ok c" "gc_capacity c = capacity" using gpm_cache_ok_fold[of ?c obs] assms by simp_all
    have en: "gc_enabled (cache_observe ob b) = gc_enabled b" for ob b
      by (cases ob) (simp add: cache_observe_def gpm_cache_append_def Let_def split: option.split)
    have "gc_enabled (fold cache_observe obs b) = gc_enabled b" for b
      by (induction obs arbitrary: b) (simp_all add: en)
    then show "gc_enabled c" using assms(2) by (simp add: new_gpm_cache_def)
  qed
  let ?us = "case gpu_uuids of None \<Rightarrow> [] | Some us \<Rightarrow> us"
  let ?p = "\<lambda>kr. fst (fst kr) = node_id \<and> (?us = [] \<or> snd (fst kr) \<in> set ?us)"
  let ?rs = "filter ?p (gc_rings c)" and ?k = "\<lambda>s. (dv_node_id (fst s), dv_gpu_uuid (fst s))"
  obtain ys where ys: "rmap (ring_series c (selected_metrics metrics) since until max_points summary_only) ?rs = Inr ys"
    "list_all2 (\<lambda>kr s. fst kr = ?k s) ?rs ys"
    using rmap_total[of ?rs "ring_series c (selected_metrics metrics) since until max_points summary_only" "\<lambda>kr s. fst kr = ?k s"]
      ring_series_ok[OF ok(1)] by fastforce
  have keys: "map fst ?rs = map ?k ys" using ys(2) by (rule list_all2_map_eq)
  have "distinct (map fst ?rs)" using ok(1) by (simp add: gpm_cache_ok_def distinct_map_filter)
  then have "distinct (map snd (map fst ?rs))" by (auto simp: distinct_map inj_on_def)
  moreover have "map snd (map fst ?rs) = map (\<lambda>s. dv_gpu_uuid (fst s)) ys"
    using arg_cong[OF keys, of "map snd"] by (simp only: map_map o_def snd_conv)
  ultimately have d: "distinct (map (\<lambda>s. dv_gpu_uuid (fst s)) ys)" by metis
  have "set (map ?k ys) = {k \<in> set (map fst (gc_rings c)). fst k = node_id \<and> (?us = [] \<or> snd k \<in> set ?us)}"
    unfolding keys[symmetric] by auto
  also have "\<dots> = {k \<in> set (map fst (gc_rings c)). fst k = node_id \<and> (case gpu_uuids of None \<Rightarrow> True | Some us \<Rightarrow> us = [] \<or> snd k \<in> set us)}"
    by (cases gpu_uuids) simp_all
  finally have s: "set (map ?k ys) = \<dots>" .
  have "sum_list (map (\<lambda>kr. pr_count (snd kr)) (gc_rings c)) \<le> sum_list (map (\<lambda>kr. gc_capacity c) (gc_rings c))"
    using ok(1) by (intro sum_list_mono) (auto simp: gpm_cache_ok_def list_all_iff gpm_ring_ok_def)
  then have "gs_approx_bytes (gpm_cache_status c) \<le> gs_allocated_bytes (gpm_cache_status c)"
    by (simp add: gpm_cache_status_def Let_def sum_list_triv del: mult_le_cancel2)
  moreover have "distinct (map (\<lambda>s. dv_gpu_uuid (fst s)) (sort_key (\<lambda>s. device_order (fst s)) ys))"
    using d by (simp add: distinct_map)
  ultimately show ?thesis using ys(1) ok(3) s by (simp add: gpm_cache_query_def Let_def)
qed

theorem gpm_cache_query_total_witness:
  "\<exists>q. gpm_cache_query (fold cache_observe [(''n'', ''u'', 0, ''A'', 1, Some [(''profile'', PStr NVIDIA_GPM_PROFILE)])]
      (new_gpm_cache 4 True)) ''n'' None None 0 9 10 False = Inr q \<and> map (\<lambda>s. dv_gpu_uuid (fst s)) (gq_series q) \<noteq> []"
proof -
  let ?c = "fold cache_observe [(''n'', ''u'', 0, ''A'', 1, Some [(''profile'', PStr NVIDIA_GPM_PROFILE)])] (new_gpm_cache 4 True)"
  have "(''n'', ''u'') \<in> set (map fst (gc_rings ?c))"
    by (simp add: cache_observe_def gpm_cache_append_def new_gpm_cache_def dget_def Let_def)
  then show ?thesis
    using gpm_cache_query_total[of 4 ?c, OF _ refl, of "''n''" None None 0 9 10 False] by force
qed

end
