(* ===== verification/HighresCache.thy ===== *)
theory HighresCache
  imports GpmCache Ingest
begin

text \<open>
  \<open>packages/backend/src/constella/highres.py\<close>, first part: the in-memory cache of recent samples, fed
  either with snapshots or with the messages of the sidecar channel, the message itself, the
  broadcaster that hands it to subscribers, and the range of a performance query.
\<close>

subsection \<open>The cache\<close>

definition HIGHRES_RETENTION_SECONDS :: rat where "HIGHRES_RETENTION_SECONDS = 2 * 60 * 60"
definition HIGHRES_MAX_JOB_SECONDS :: rat where "HIGHRES_MAX_JOB_SECONDS = 60 * 60"
definition HIGHRES_JOB_LOOKBACK_SECONDS :: rat where "HIGHRES_JOB_LOOKBACK_SECONDS = 7 * 24 * 60 * 60"
definition JOB_MAX_LOOKBACK_SECONDS :: rat where "JOB_MAX_LOOKBACK_SECONDS = 30 * 24 * 60 * 60"
definition HIGHRES_MIN_INTERVAL_SECONDS :: rat where "HIGHRES_MIN_INTERVAL_SECONDS = 1 / 2"
definition HIGHRES_DEFAULT_PADDING_SECONDS :: rat where "HIGHRES_DEFAULT_PADDING_SECONDS = 20"
definition JOB_AUTO_2M_THRESHOLD_SECONDS :: rat where "JOB_AUTO_2M_THRESHOLD_SECONDS = 24 * 60 * 60"

record highres_cache =
  hx_retention_seconds :: rat
  hx_capacity :: nat
  hx_rings :: "(string \<times> string, gpu_ring) dict"
  hx_sample_count :: nat
  hx_dropped_samples :: nat
  hx_last_sample_at :: "rat option"
  hx_performance :: gpm_cache

definition new_highres_cache :: "rat \<Rightarrow> rat \<Rightarrow> environ \<Rightarrow> highres_cache" where
  "new_highres_cache retention_seconds min_interval_seconds env =
     (let capacity = nat \<lceil>retention_seconds / min_interval_seconds\<rceil>
      in \<lparr>hx_retention_seconds = retention_seconds, hx_capacity = capacity, hx_rings = [], hx_sample_count = 0,
          hx_dropped_samples = 0, hx_last_sample_at = None,
          hx_performance = new_gpm_cache capacity (nvidia_gpm_highres_enabled env)\<rparr>)"

definition perf_dict :: "performance \<Rightarrow> (string, pyval) dict" where
  "perf_dict p = (case perf_to_dict p of PDict d \<Rightarrow> d | _ \<Rightarrow> [])"

text \<open>The body both loops share: one accelerator of a node.\<close>

definition add_gpu_sample :: "string \<Rightarrow> rat \<Rightarrow> gpu \<Rightarrow> highres_cache \<Rightarrow> highres_cache" where
  "add_gpu_sample node_id sampled_at g c =
     (let key = (node_id, g_uuid g);
          r = (case map_of (hx_rings c) key of None \<Rightarrow> new_gpu_ring (hx_capacity c) | Some r \<Rightarrow> r)
      in c\<lparr>hx_rings := AList.update key (gpu_ring_append sampled_at g r) (hx_rings c),
           hx_performance := gpm_cache_append node_id (g_uuid g) (g_index g) (g_name g) sampled_at
             (map_option perf_dict (g_performance g)) (hx_performance c),
           hx_sample_count := hx_sample_count c + 1\<rparr>)"

definition add_snapshot :: "node_snapshot \<Rightarrow> highres_cache \<Rightarrow> highres_cache" where
  "add_snapshot s c =
     (fold (add_gpu_sample (s_node_id s) (s_sampled_at s)) (s_gpus s) c)\<lparr>hx_last_sample_at := Some (s_sampled_at s)\<rparr>"

fun add_raw_gpus :: "string \<Rightarrow> rat \<Rightarrow> nat \<Rightarrow> pyval list \<Rightarrow> highres_cache \<Rightarrow> highres_cache result" where
  "add_raw_gpus node_id sampled_at i [] c = Inr c"
| "add_raw_gpus node_id sampled_at i (x # xs) c =
     rbind (gpu_from_telemetry node_id x i []) (\<lambda>g.
       add_raw_gpus node_id sampled_at (i + 1) xs (add_gpu_sample node_id sampled_at g c))"

definition add_sample_message :: "(string, pyval) dict \<Rightarrow> highres_cache \<Rightarrow> highres_cache result" where
  "add_sample_message message c =
     (let node_id = py_str (py_or (dget message ''node_id'') (PStr []));
          sampled_at = dget_or message ''sampled_at'' (PFlt (Fin 0));
          raw_gpus = dget_or message ''gpus'' (PList [])
      in if node_id = [] \<or> \<not> accepts SAMPLE_TIME sampled_at
         then Inr (c\<lparr>hx_dropped_samples := hx_dropped_samples c + 1\<rparr>)
         else case raw_gpus of
             PList xs \<Rightarrow> rbind (add_raw_gpus node_id (num_val sampled_at) 0 xs c)
                (\<lambda>c'. Inr (c'\<lparr>hx_last_sample_at := Some (num_val sampled_at)\<rparr>))
           | _ \<Rightarrow> Inr (c\<lparr>hx_dropped_samples := hx_dropped_samples c + 1\<rparr>))"

definition series_for_gpu ::
    "highres_cache \<Rightarrow> string \<Rightarrow> string \<Rightarrow> rat \<Rightarrow> rat \<Rightarrow> gpu_ring option \<times> (string, rat) dict list" where
  "series_for_gpu c node_id gpu_uuid since until =
     (case map_of (hx_rings c) (node_id, gpu_uuid) of
        None \<Rightarrow> (None, [])
      | Some r \<Rightarrow> (Some r, gpu_ring_points r since until))"

record highres_status =
  hs_ring_count :: nat
  hs_capacity_per_gpu :: nat
  hs_valid_point_count :: nat
  hs_approx_bytes :: nat
  hs_retention_seconds :: rat
  hs_sample_count :: nat
  hs_dropped_samples :: nat
  hs_oldest_sample_at :: "rat option"
  hs_newest_sample_at :: "rat option"
  hs_last_sample_at :: "rat option"
  hs_performance :: gpm_status

definition highres_cache_status :: "highres_cache \<Rightarrow> highres_status" where
  "highres_cache_status c =
     (let rings = values_of (hx_rings c);
          valid_points = sum_list (map gr_count rings); bytes_per_point = 8 + 6 * 4
      in \<lparr>hs_ring_count = length rings, hs_capacity_per_gpu = hx_capacity c, hs_valid_point_count = valid_points,
          hs_approx_bytes = valid_points * bytes_per_point, hs_retention_seconds = hx_retention_seconds c,
          hs_sample_count = hx_sample_count c, hs_dropped_samples = hx_dropped_samples c,
          hs_oldest_sample_at = min_opt (List.map_filter gr_oldest_at rings),
          hs_newest_sample_at = max_opt (List.map_filter gr_newest_at rings),
          hs_last_sample_at = hx_last_sample_at c, hs_performance = gpm_cache_status (hx_performance c)\<rparr>)"

subsection \<open>Queries\<close>

definition curve_range :: "rat \<Rightarrow> rat option \<Rightarrow> rat option \<Rightarrow> rat \<Rightarrow> rat \<times> rat" where
  "curve_range retention since until current =
     (let range_end = (case until of None \<Rightarrow> current | Some u \<Rightarrow> min u current);
          range_start = (case since of
             None \<Rightarrow> max 0 (range_end - min (15 * 60) retention)
           | Some t \<Rightarrow> max 0 t)
      in if range_end < range_start then (range_end, range_start) else (range_start, range_end))"

definition point_limit :: "int \<Rightarrow> nat" where
  "point_limit max_points = nat (max 10 (min max_points 5000))"

definition performance_curves ::
    "highres_cache \<Rightarrow> string \<Rightarrow> string list option \<Rightarrow> string list option \<Rightarrow> rat option \<Rightarrow> rat option \<Rightarrow> int \<Rightarrow> bool \<Rightarrow> rat
      \<Rightarrow> gpm_query result" where
  "performance_curves c node_id gpu_uuids metrics since until max_points summary_only now =
     (case curve_range (hx_retention_seconds c) since until now of
        (range_start, range_end) \<Rightarrow>
          gpm_cache_query (hx_performance c) node_id gpu_uuids metrics range_start range_end (point_limit max_points) summary_only)"

definition csv_values :: "string option \<Rightarrow> string list option" where
  "csv_values v =
     (case v of
        None \<Rightarrow> None
      | Some s \<Rightarrow>
          if s = [] then None
          else let vals = filter (\<lambda>x. x \<noteq> []) (map py_strip (py_split (CHR '','') s))
               in if vals = [] then None else Some vals)"

subsection \<open>The sidecar message\<close>

text \<open>A reading of an accelerator on the wire.\<close>

definition wire_num :: "rat \<Rightarrow> pyval" where
  "wire_num x = PFlt (Fin x)"

definition sample_gpu_dict :: "gpu \<Rightarrow> (string, pyval) dict" where
  "sample_gpu_dict g =
     [(''uuid'', PStr (g_uuid g)), (''gpu_index'', PInt (g_index g)), (''name'', PStr (g_name g)),
      (''utilization_gpu'', wire_num (g_utilization_gpu g)), (''utilization_mem'', wire_num (g_utilization_mem g)),
      (''memory_used_mb'', wire_num (g_memory_used_mb g)), (''memory_total_mb'', wire_num (g_memory_total_mb g)),
      (''power_watts'', wire_num (g_power_watts g)), (''temperature_c'', wire_num (g_temperature_c g))] @
     (if g_telemetry_errors g = [] then [] else
       [(''telemetry_errors'', PDict (map (\<lambda>kv. (fst kv, PStr (snd kv))) (g_telemetry_errors g)))]) @
     (if truthy (g_error g) then [(''error'', g_error g)] else []) @
     (case g_performance g of None \<Rightarrow> [] | Some p \<Rightarrow> [(''performance'', perf_to_dict p)])"

definition gpu_sample_message :: "node_snapshot \<Rightarrow> (string, pyval) dict" where
  "gpu_sample_message s =
     [(''type'', PStr ''gpu_sample''), (''node_id'', PStr (s_node_id s)), (''sampled_at'', wire_num (s_sampled_at s)),
      (''refresh_interval'', wire_num (s_refresh_interval s)),
      (''gpus'', PList (map (\<lambda>g. PDict (sample_gpu_dict g)) (s_gpus s)))]"

subsection \<open>The broadcaster\<close>

text \<open>Queues are named by the number of the subscription; a queue holds at most \<^verbatim>\<open>queue_size\<close> messages.\<close>

record broadcaster =
  bc_queue_size :: nat
  bc_queues :: "(nat, (string, pyval) dict list) dict"
  bc_published_messages :: nat
  bc_dropped_messages :: nat

definition new_broadcaster :: "int \<Rightarrow> broadcaster" where
  "new_broadcaster queue_size =
     \<lparr>bc_queue_size = nat (max 1 queue_size), bc_queues = [], bc_published_messages = 0, bc_dropped_messages = 0\<rparr>"

definition subscribe :: "nat \<Rightarrow> broadcaster \<Rightarrow> broadcaster" where
  "subscribe q b = b\<lparr>bc_queues := AList.update q [] (bc_queues b)\<rparr>"

definition unsubscribe :: "nat \<Rightarrow> broadcaster \<Rightarrow> broadcaster" where
  "unsubscribe q b = b\<lparr>bc_queues := AList.delete q (bc_queues b)\<rparr>"

definition put_nowait :: "nat \<Rightarrow> 'm \<Rightarrow> 'm list \<Rightarrow> 'm list" where
  "put_nowait room m q = (if room \<le> length q then q else q @ [m])"

definition publish_snapshot :: "node_snapshot \<Rightarrow> broadcaster \<Rightarrow> broadcaster" where
  "publish_snapshot s b =
     (let message = gpu_sample_message s; room = bc_queue_size b
      in b\<lparr>bc_published_messages := bc_published_messages b + 1,
           bc_queues := map (\<lambda>nq. (fst nq, put_nowait room message (snd nq))) (bc_queues b),
           bc_dropped_messages := bc_dropped_messages b + length (filter (\<lambda>nq. room \<le> length (snd nq)) (bc_queues b))\<rparr>)"

text \<open>The subscriber takes the oldest message of its queue.\<close>

definition take_message :: "nat \<Rightarrow> broadcaster \<Rightarrow> broadcaster" where
  "take_message q b =
     (case map_of (bc_queues b) q of None \<Rightarrow> b | Some ms \<Rightarrow> b\<lparr>bc_queues := AList.update q (tl ms) (bc_queues b)\<rparr>)"

subsection \<open>The range of a query\<close>

lemma curve_range_ordered:
  assumes "curve_range retention since until current = (a, b)"
  shows "a \<le> b"
  using assms by (auto simp: curve_range_def Let_def split: if_splits)

lemma point_limit_bounds: "10 \<le> point_limit n \<and> point_limit n \<le> 5000"
  by (auto simp: point_limit_def nat_le_iff le_nat_iff)

text \<open>
  A list of names survives the comma-separated form: whatever \<^verbatim>\<open>csv_values\<close> returns is a
  non-empty list of stripped, non-empty names, and joining such names without commas and parsing
  the text returns exactly them.
\<close>

lemma py_split_no_sep: "c \<notin> set s \<Longrightarrow> py_split c s = [s]"
  by (induction s) auto

lemma py_split_append_sep: "c \<notin> set w \<Longrightarrow> py_split c (w @ c # s) = w # py_split c s"
  by (induction w) auto

lemma py_split_join:
  "ws \<noteq> [] \<Longrightarrow> \<forall>w \<in> set ws. c \<notin> set w \<Longrightarrow> py_split c (py_join [c] ws) = ws"
  by (induction "[c]" ws rule: py_join.induct) (simp_all add: py_split_no_sep py_split_append_sep)

theorem csv_values_roundtrip:
  assumes "ws \<noteq> []" "\<forall>w \<in> set ws. w \<noteq> [] \<and> py_strip w = w \<and> CHR '','' \<notin> set w"
  shows "csv_values (Some (py_join '','' ws)) = Some ws"
proof -
  have s: "py_split (CHR '','') (py_join '','' ws) = ws" using assms by (intro py_split_join) auto
  have "py_join '','' ws \<noteq> []" using s assms by (cases ws) auto
  moreover have "map py_strip ws = ws" using assms(2) by (intro map_idI) auto
  moreover have "filter (\<lambda>x. x \<noteq> []) ws = ws" using assms(2) by simp
  ultimately show ?thesis using assms(1) by (simp add: csv_values_def s)
qed

theorem csv_values_roundtrip_witness:
  "csv_values (Some ''ab,c'') = Some [''ab'', ''c'']"
  using csv_values_roundtrip[of "[''ab'', ''c'']"] by (simp add: py_strip_def py_ws_def)

subsection \<open>Messages never break the cache\<close>

definition highres_ok :: "highres_cache \<Rightarrow> bool" where
  "highres_ok c \<longleftrightarrow> 0 < hx_capacity c \<and>
     list_all (\<lambda>kr. gpu_ring_ok (snd kr) \<and> gr_capacity (snd kr) = hx_capacity c) (hx_rings c) \<and>
     gpm_cache_ok (hx_performance c) \<and> gc_capacity (hx_performance c) = hx_capacity c"

lemma gpu_ring_append_ok:
  "gpu_ring_ok r \<Longrightarrow> gpu_ring_ok (gpu_ring_append t g r) \<and> gr_capacity (gpu_ring_append t g r) = gr_capacity r"
  using gr.push_good[of r "(t, g)"] gr.push_cap[of r "(t, g)"] by (simp add: gpu_ring_append_def)

lemma new_gpu_ring_capacity [simp]: "gr_capacity (new_gpu_ring n) = n"
  by (simp add: new_gpu_ring_def)

lemma highres_ok_add_gpu:
  assumes "highres_ok c"
  shows "highres_ok (add_gpu_sample node_id t g c)"
proof -
  let ?good = "\<lambda>r. gpu_ring_ok r \<and> gr_capacity r = hx_capacity c"
  let ?r = "case map_of (hx_rings c) (node_id, g_uuid g) of None \<Rightarrow> new_gpu_ring (hx_capacity c) | Some r \<Rightarrow> r"
  have all: "list_all (\<lambda>kr. ?good (snd kr)) (hx_rings c)" "0 < hx_capacity c" using assms by (simp_all add: highres_ok_def)
  have "?good ?r"
  proof (cases "map_of (hx_rings c) (node_id, g_uuid g)")
    case (Some r)
    then show ?thesis using list_all_lookup[OF all(1) Some] by simp
  qed (simp add: gpu_ring_ok_new[OF all(2)])
  then have "?good (gpu_ring_append t g ?r)" using gpu_ring_append_ok[of ?r t g] by simp
  note rings = list_all_update[OF all(1) this, of "(node_id, g_uuid g)"]
  have "gpm_cache_ok (gpm_cache_append node_id (g_uuid g) (g_index g) (g_name g) t (map_option perf_dict (g_performance g)) (hx_performance c)) \<and>
      gc_capacity (gpm_cache_append node_id (g_uuid g) (g_index g) (g_name g) t (map_option perf_dict (g_performance g)) (hx_performance c)) =
      hx_capacity c"
    using assms gpm_cache_ok_append[of "hx_performance c" "(node_id, g_uuid g, g_index g, g_name g, t, map_option perf_dict (g_performance g))"]
    by (simp add: highres_ok_def cache_observe_def)
  then show ?thesis using assms rings by (simp add: highres_ok_def add_gpu_sample_def Let_def)
qed

lemma add_gpu_sample_counts [simp]:
  "hx_sample_count (add_gpu_sample node_id t g c) = hx_sample_count c + 1"
  "hx_dropped_samples (add_gpu_sample node_id t g c) = hx_dropped_samples c"
  by (simp_all add: add_gpu_sample_def Let_def)

lemma add_raw_gpus_ok:
  "highres_ok c \<Longrightarrow> \<exists>c'. add_raw_gpus node_id t i xs c = Inr c' \<and> highres_ok c' \<and>
     hx_sample_count c' = hx_sample_count c + length xs \<and> hx_dropped_samples c' = hx_dropped_samples c"
proof (induction node_id t i xs c rule: add_raw_gpus.induct)
  case (2 node_id t i x xs c)
  obtain g where g: "gpu_from_telemetry node_id x i [] = Inr g"
    using gpu_from_telemetry_total[of node_id x i "[]"] by (auto simp: is_ok_iff)
  show ?case using 2(1)[of g, OF highres_ok_add_gpu[OF 2(2)]] g by auto
qed simp

lemma highres_ok_set [simp]:
  "highres_ok (c\<lparr>hx_last_sample_at := u\<rparr>) = highres_ok c" "highres_ok (c\<lparr>hx_dropped_samples := n\<rparr>) = highres_ok c"
  by (simp_all add: highres_ok_def)

text \<open>
  A message of the sidecar channel never raises, whatever it contains, and keeps every ring of the
  cache well formed and of the configured capacity; it is either counted as dropped and changes
  nothing else, or adds exactly one sample for each entry of its list.
\<close>

theorem highres_message_total:
  assumes "highres_ok c"
  shows "\<exists>c'. add_sample_message message c = Inr c' \<and> highres_ok c' \<and>
    (c' = c\<lparr>hx_dropped_samples := hx_dropped_samples c + 1\<rparr> \<or>
     (\<exists>xs. dget_or message ''gpus'' (PList []) = PList xs \<and> hx_sample_count c' = hx_sample_count c + length xs \<and>
        hx_dropped_samples c' = hx_dropped_samples c))"
proof (cases "py_str (py_or (dget message ''node_id'') (PStr [])) = [] \<or> \<not> accepts SAMPLE_TIME (dget_or message ''sampled_at'' (PFlt (Fin 0)))
    \<or> (\<forall>xs. dget_or message ''gpus'' (PList []) \<noteq> PList xs)")
  case True
  then have "add_sample_message message c = Inr (c\<lparr>hx_dropped_samples := hx_dropped_samples c + 1\<rparr>)"
    by (auto simp: add_sample_message_def Let_def split: pyval.splits)
  then show ?thesis using assms by simp
next
  case False
  then obtain xs where xs: "dget_or message ''gpus'' (PList []) = PList xs" by blast
  let ?node = "py_str (py_or (dget message ''node_id'') (PStr []))"
  let ?t = "num_val (dget_or message ''sampled_at'' (PFlt (Fin 0)))"
  obtain c' where c': "add_raw_gpus ?node ?t 0 xs c = Inr c'" "highres_ok c'"
    "hx_sample_count c' = hx_sample_count c + length xs" "hx_dropped_samples c' = hx_dropped_samples c"
    using add_raw_gpus_ok[OF assms] by blast
  then have "add_sample_message message c = Inr (c'\<lparr>hx_last_sample_at := Some ?t\<rparr>)"
    using False xs by (simp add: add_sample_message_def Let_def)
  then show ?thesis using c' xs by simp
qed

lemma highres_ok_new:
  assumes "0 < retention" "0 < interval"
  shows "highres_ok (new_highres_cache retention interval env)"
proof -
  have "0 < \<lceil>retention / interval\<rceil>" using assms by simp
  then show ?thesis by (simp add: highres_ok_def new_highres_cache_def Let_def gpm_cache_ok_def new_gpm_cache_def)
qed

theorem highres_message_total_witness:
  "\<exists>c'. add_sample_message [(''node_id'', PStr ''n''), (''sampled_at'', PInt 5), (''gpus'', PList [PNone])]
      (new_highres_cache 60 1 (\<lambda>_. None)) = Inr c' \<and> highres_ok c'"
  using highres_message_total[OF highres_ok_new, of 60 1] by fastforce

subsection \<open>Publishing\<close>

definition broadcaster_ok :: "broadcaster \<Rightarrow> bool" where
  "broadcaster_ok b \<longleftrightarrow> dict_ok (bc_queues b) \<and> list_all (\<lambda>nq. length (snd nq) \<le> bc_queue_size b) (bc_queues b)"

text \<open>
  A slow subscriber cannot hurt another: publishing appends the message to every queue with room,
  leaves a full queue as it was, counts exactly the messages it could not deliver, and no queue ever
  exceeds its bound.
\<close>

theorem publish_isolated:
  assumes "broadcaster_ok b"
  shows "broadcaster_ok (publish_snapshot s b) \<and>
    (\<forall>n. map_of (bc_queues (publish_snapshot s b)) n =
      map_option (\<lambda>ms. if length ms < bc_queue_size b then ms @ [gpu_sample_message s] else ms) (map_of (bc_queues b) n)) \<and>
    bc_dropped_messages (publish_snapshot s b) + length (filter (\<lambda>nq. length (snd nq) < bc_queue_size b) (bc_queues b)) =
      bc_dropped_messages b + length (bc_queues b)"
proof -
  let ?put = "put_nowait (bc_queue_size b) (gpu_sample_message s)"
  have q: "bc_queues (publish_snapshot s b) = map (\<lambda>nq. (fst nq, ?put (snd nq))) (bc_queues b)"
    "bc_queue_size (publish_snapshot s b) = bc_queue_size b"
    by (simp_all add: publish_snapshot_def Let_def)
  have "broadcaster_ok (publish_snapshot s b)"
    using assms by (auto simp: broadcaster_ok_def q dict_ok_def o_def list_all_iff put_nowait_def)
  moreover have "map_of (bc_queues (publish_snapshot s b)) n =
      map_option (\<lambda>ms. if length ms < bc_queue_size b then ms @ [gpu_sample_message s] else ms) (map_of (bc_queues b) n)" for n
    unfolding q using map_of_map_values[of "\<lambda>_. ?put" "bc_queues b" n]
    by (cases "map_of (bc_queues b) n") (simp_all add: put_nowait_def)
  moreover have "length (filter (\<lambda>nq. bc_queue_size b \<le> length (snd nq)) (bc_queues b)) +
      length (filter (\<lambda>nq. length (snd nq) < bc_queue_size b) (bc_queues b)) = length (bc_queues b)"
    using sum_length_filter_compl[of "\<lambda>nq. bc_queue_size b \<le> length (snd nq)" "bc_queues b"] by (simp add: not_le)
  ultimately show ?thesis by (simp add: publish_snapshot_def Let_def)
qed

theorem publish_isolated_witness:
  "\<forall>s. map_of (bc_queues (publish_snapshot s (subscribe 1 (new_broadcaster 2)))) 1 = Some [gpu_sample_message s]"
proof
  fix s
  have "broadcaster_ok (subscribe 1 (new_broadcaster 2))"
    by (simp add: broadcaster_ok_def subscribe_def new_broadcaster_def dict_ok_def)
  then show "map_of (bc_queues (publish_snapshot s (subscribe 1 (new_broadcaster 2)))) 1 = Some [gpu_sample_message s]"
    using publish_isolated[of "subscribe 1 (new_broadcaster 2)" s]
    by (simp add: subscribe_def new_broadcaster_def)
qed

end
