(* ===== verification/Jobs.thy ===== *)
theory Jobs
  imports Analytics HighresCache
begin

text \<open>
  \<open>packages/backend/src/constella/highres.py\<close>, second part: the jobs that the process sessions form,
  their search, the lookup of one job by its key, and its curves, taken from the cache when the
  cache covers the job and from the rollups of the database otherwise.

  The text that \<^verbatim>\<open>_group_jobs\<close> collects for searching and \<^verbatim>\<open>_finalize_job\<close> throws away is left out.
\<close>

subsection \<open>Rows\<close>

record job_row =
  jr_session_id :: string
  jr_node_id :: string
  jr_pid :: int
  jr_ppid :: "int option"
  jr_process_start_time :: "rat option"
  jr_parent_start_time :: "rat option"
  jr_user :: "string option"
  jr_task_name :: "string option"
  jr_process_name :: string
  jr_exe :: "string option"
  jr_cmdline_text :: "string option"
  jr_first_seen_at :: rat
  jr_last_seen_at :: rat
  jr_status :: session_status
  jr_gpu_uuid :: string
  jr_gpu_index :: "int option"
  jr_gpu_name :: "string option"
  jr_memory_total_mb :: "rat option"

definition job_row_of :: "string \<Rightarrow> session_row \<Rightarrow> string \<Rightarrow> gpu_row option \<Rightarrow> job_row" where
  "job_row_of sid s uuid g =
     \<lparr>jr_session_id = sid, jr_node_id = ss_node_id s, jr_pid = ss_pid s, jr_ppid = int_column (ss_ppid s),
      jr_process_start_time = real_column (ss_process_start_time s),
      jr_parent_start_time = real_column (ss_parent_start_time s), jr_user = text_column (ss_user s),
      jr_task_name = text_column (ss_task_name s), jr_process_name = ss_process_name s,
      jr_exe = text_column (ss_exe s), jr_cmdline_text = text_column (ss_cmdline_text s),
      jr_first_seen_at = ss_first_seen_at s, jr_last_seen_at = ss_last_seen_at s, jr_status = ss_status s,
      jr_gpu_uuid = uuid, jr_gpu_index = map_option gw_gpu_index g, jr_gpu_name = map_option gw_name g,
      jr_memory_total_mb = map_option gw_memory_total_mb g\<rparr>"

text \<open>The joined rows of all sessions, newest first, and the conditions of the query.\<close>

definition all_job_rows :: "database \<Rightarrow> job_row list" where
  "all_job_rows db =
     sort_desc jr_last_seen_at (concat (map (\<lambda>(sid, s).
       concat (map (\<lambda>((usid, uuid), u). map (job_row_of sid s uuid) (joined_gpus db (us_node_id u) uuid))
         (filter (\<lambda>ku. fst (fst ku) = sid) (db_usages db)))) (db_sessions db)))"

definition user_condition :: "string \<Rightarrow> job_row \<Rightarrow> bool" where
  "user_condition user r =
     (if user = ''unknown'' then (case jr_user r of None \<Rightarrow> ''unknown'' | Some u \<Rightarrow> u) = user else jr_user r = Some user)"

definition job_condition ::
    "rat option \<Rightarrow> rat option \<Rightarrow> string option \<Rightarrow> string option \<Rightarrow> int option \<Rightarrow> job_row \<Rightarrow> bool" where
  "job_condition range_start range_end node_id user owner_pid r \<longleftrightarrow>
     opt_holds (\<lambda>n. jr_node_id r = n) node_id \<and> opt_holds (\<lambda>u. user_condition u r) user \<and>
     opt_holds (\<lambda>p. jr_pid r = p \<or> jr_ppid r = Some p) owner_pid \<and>
     opt_holds (\<lambda>t. t \<le> jr_last_seen_at r) range_start \<and> opt_holds (\<lambda>t. jr_first_seen_at r \<le> t) range_end"

definition job_rows ::
    "database \<Rightarrow> rat option \<Rightarrow> rat option \<Rightarrow> string option \<Rightarrow> string option \<Rightarrow> int option \<Rightarrow> job_row list" where
  "job_rows db range_start range_end node_id user owner_pid =
     filter (job_condition range_start range_end node_id user owner_pid) (all_job_rows db)"

definition row_ident :: "job_row \<Rightarrow> job_ident" where
  "row_ident r =
     \<lparr>ji_node_id = jr_node_id r, ji_user = jr_user r, ji_pid = jr_pid r, ji_ppid = jr_ppid r,
      ji_process_start_time = jr_process_start_time r, ji_parent_start_time = jr_parent_start_time r,
      ji_first_seen_at = jr_first_seen_at r\<rparr>"

definition row_job_key :: "job_row \<Rightarrow> string" where
  "row_job_key r = job_key (row_ident r)"

subsection \<open>Grouping\<close>

record job_session =
  jn_session_id :: string
  jn_pid :: int
  jn_ppid :: "int option"
  jn_task_name :: "string option"
  jn_process_name :: string
  jn_exe :: "string option"
  jn_cmdline_text :: "string option"
  jn_started_at :: rat
  jn_last_seen_at :: rat
  jn_status :: session_status

record job_gpu =
  jg_node_id :: string
  jg_gpu_uuid :: string
  jg_gpu_index :: "int option"
  jg_gpu_name :: "string option"
  jg_memory_total_mb :: "rat option"

record job_group =
  jb_node_id :: string
  jb_user :: string
  jb_task_name :: "string option"
  jb_started_at :: rat
  jb_last_seen_at :: rat
  jb_status :: session_status
  jb_sessions :: "(string, job_session) dict"
  jb_pids :: "int set"
  jb_gpus :: "(string \<times> string, job_gpu) dict"

record job =
  j_job_key :: string
  j_node_id :: string
  j_user :: string
  j_task_name :: "string option"
  j_started_at :: rat
  j_last_seen_at :: rat
  j_duration_seconds :: rat
  j_status :: session_status
  j_sessions :: "job_session list"
  j_pids :: "int list"
  j_gpus :: "job_gpu list"

definition new_group :: "job_row \<Rightarrow> job_group" where
  "new_group r =
     \<lparr>jb_node_id = jr_node_id r, jb_user = user_or_unknown (jr_user r), jb_task_name = jr_task_name r,
      jb_started_at = jr_first_seen_at r, jb_last_seen_at = jr_last_seen_at r, jb_status = jr_status r,
      jb_sessions = [], jb_pids = {}, jb_gpus = []\<rparr>"

definition new_session :: "job_row \<Rightarrow> job_session" where
  "new_session r =
     \<lparr>jn_session_id = jr_session_id r, jn_pid = jr_pid r, jn_ppid = jr_ppid r, jn_task_name = jr_task_name r,
      jn_process_name = jr_process_name r, jn_exe = jr_exe r, jn_cmdline_text = jr_cmdline_text r,
      jn_started_at = jr_first_seen_at r, jn_last_seen_at = jr_last_seen_at r, jn_status = jr_status r\<rparr>"

definition add_job_row :: "job_row \<Rightarrow> job_group \<Rightarrow> job_group" where
  "add_job_row r b =
     (let session = get_or (jb_sessions b) (jr_session_id r) (new_session r)
      in b\<lparr>jb_started_at := min (jb_started_at b) (jr_first_seen_at r),
           jb_last_seen_at := max (jb_last_seen_at b) (jr_last_seen_at r),
           jb_status := (if jr_status r = Running then Running else jb_status b),
           jb_sessions := AList.update (jr_session_id r)
             (session\<lparr>jn_last_seen_at := max (jn_last_seen_at session) (jr_last_seen_at r)\<rparr>) (jb_sessions b),
           jb_pids := insert (jr_pid r) (jb_pids b),
           jb_gpus := AList.update (jr_node_id r, jr_gpu_uuid r)
             \<lparr>jg_node_id = jr_node_id r, jg_gpu_uuid = jr_gpu_uuid r, jg_gpu_index = jr_gpu_index r,
              jg_gpu_name = jr_gpu_name r, jg_memory_total_mb = jr_memory_total_mb r\<rparr> (jb_gpus b)\<rparr>)"

definition group_step :: "job_row \<Rightarrow> (string, job_group) dict \<Rightarrow> (string, job_group) dict" where
  "group_step r jobs = AList.update (row_job_key r) (add_job_row r (get_or jobs (row_job_key r) (new_group r))) jobs"

definition gpu_order :: "job_gpu \<Rightarrow> string \<times> int \<times> int \<times> string" where
  "gpu_order g =
     (case jg_gpu_index g of
        None \<Rightarrow> (jg_node_id g, 1, 0, jg_gpu_uuid g)
      | Some i \<Rightarrow> (jg_node_id g, 0, i, jg_gpu_uuid g))"

definition finalize_job :: "string \<Rightarrow> job_group \<Rightarrow> job" where
  "finalize_job key b =
     \<lparr>j_job_key = key, j_node_id = jb_node_id b, j_user = jb_user b, j_task_name = jb_task_name b,
      j_started_at = jb_started_at b, j_last_seen_at = jb_last_seen_at b,
      j_duration_seconds = max 0 (jb_last_seen_at b - jb_started_at b), j_status = jb_status b,
      j_sessions = sort_key jn_started_at (values_of (jb_sessions b)),
      j_pids = sorted_list_of_set (jb_pids b), j_gpus = sort_key gpu_order (values_of (jb_gpus b))\<rparr>"

definition group_jobs :: "job_row list \<Rightarrow> (string, job) dict" where
  "group_jobs rows = map (\<lambda>kb. (fst kb, finalize_job (fst kb) (snd kb))) (fold group_step rows [])"

subsection \<open>Search\<close>

definition session_text :: "job_session \<Rightarrow> string" where
  "session_text s = py_lower (py_join '' ''
     [str_or (jn_task_name s) [], jn_process_name s, str_or (jn_exe s) [], str_or (jn_cmdline_text s) [],
      (if jn_pid s = 0 then [] else int_str (jn_pid s))])"

definition job_matches ::
    "job \<Rightarrow> string option \<Rightarrow> string option \<Rightarrow> int option \<Rightarrow> string option \<Rightarrow> string option \<Rightarrow> rat option \<Rightarrow> bool" where
  "job_matches j q user pid node_id status max_duration_seconds \<longleftrightarrow>
     opt_holds (\<lambda>u. u = [] \<or> j_user j = u) user \<and> opt_holds (\<lambda>n. n = [] \<or> j_node_id j = n) node_id \<and>
     opt_holds (\<lambda>s. s = [] \<or> status_text (j_status j) = s) status \<and> opt_holds (\<lambda>p. p \<in> set (j_pids j)) pid \<and>
     opt_holds (\<lambda>d. j_duration_seconds j \<le> d) max_duration_seconds \<and>
     opt_holds (\<lambda>text. let needle = py_lower (py_strip text)
        in needle = [] \<or> list_ex (\<lambda>s. py_contains needle (session_text s)) (j_sessions j) \<or>
           py_contains needle (py_lower (j_user j))) q"

definition query_jobs ::
    "database \<Rightarrow> string option \<Rightarrow> string option \<Rightarrow> int option \<Rightarrow> string option \<Rightarrow> string option \<Rightarrow> rat option \<Rightarrow> rat option
      \<Rightarrow> rat option \<Rightarrow> rat option \<Rightarrow> int \<Rightarrow> rat \<Rightarrow> job list" where
  "query_jobs db q user pid node_id status since until max_duration_seconds recent_seconds limit now =
     (let range_start = (case recent_seconds of
            None \<Rightarrow> since
          | Some rs \<Rightarrow> let recent_start = now - max 0 rs
                       in Some (case since of None \<Rightarrow> recent_start | Some t \<Rightarrow> max t recent_start));
          jobs = values_of (group_jobs (job_rows db range_start until None None None))
      in take (nat (max 1 (min limit 500))) (sort_desc j_last_seen_at
           (filter (\<lambda>j. job_matches j q user pid node_id status max_duration_seconds) jobs)))"

text \<open>\<^verbatim>\<open>s.rsplit(c, n)\<close>.\<close>

definition py_rsplit :: "char \<Rightarrow> nat \<Rightarrow> string \<Rightarrow> string list" where
  "py_rsplit c n s =
     (let parts = py_split c s; k = length parts - n
      in if length parts \<le> n + 1 then parts else py_join [c] (take k parts) # drop k parts)"

definition get_job :: "database \<Rightarrow> string \<Rightarrow> rat \<Rightarrow> rat option \<Rightarrow> job option" where
  "get_job db key now lookback_seconds =
     (let range_start = map_option (\<lambda>s. now - max 0 s) lookback_seconds
      in case py_rsplit (CHR '':'') 3 key of
           [node, user, start, owner] \<Rightarrow>
             (case (parse_int owner, py_float (PStr start)) of
                (Some owner_pid, Inr (Fin t)) \<Rightarrow>
                  if 0 < owner_pid \<and> owner_pid \<le> 2 ^ 63 - 1
                  then map_of (group_jobs (job_rows db range_start None (Some node) (Some user) (Some owner_pid))) key
                  else None
              | _ \<Rightarrow> None)
         | _ \<Rightarrow> None)"

subsection \<open>Lookup by key\<close>

lemma map_of_group_step:
  "map_of (group_step r d) k =
    (if row_job_key r = k then Some (add_job_row r (case map_of d k of None \<Rightarrow> new_group r | Some b \<Rightarrow> b))
     else map_of d k)"
  by (simp add: group_step_def map_of_update get_or_def)

lemma map_of_group_fold:
  "map_of (fold group_step rows d) k =
    (let rs = filter (\<lambda>r. row_job_key r = k) rows
     in if rs = [] then map_of d k
        else Some (fold add_job_row rs (case map_of d k of None \<Rightarrow> new_group (hd rs) | Some b \<Rightarrow> b)))"
proof (induction rows arbitrary: d)
  case (Cons r rows)
  show ?case
    by (cases "row_job_key r = k"; cases "map_of d k")
      (simp_all add: Cons [of "group_step r d"] map_of_group_step Let_def)
qed simp

lemma map_of_group_jobs:
  "map_of (group_jobs rows) k =
    (let rs = filter (\<lambda>r. row_job_key r = k) rows
     in if rs = [] then None else Some (finalize_job k (fold add_job_row rs (new_group (hd rs)))))"
  unfolding group_jobs_def map_of_map_values map_of_group_fold by (simp add: Let_def)

lemma py_split_append: "py_split c (x @ c # y) = py_split c x @ py_split c y"
  by (induction x) (auto split: list.splits)

lemma py_rsplit_3:
  assumes "c \<notin> set u" "c \<notin> set t" "c \<notin> set w"
  shows "py_rsplit c 3 (n @ c # u @ c # t @ c # w) = [n, u, t, w]"
proof -
  have "py_split c (n @ c # u @ c # t @ c # w) = py_split c n @ [u, t, w]"
    using assms by (simp add: py_split_append py_split_append_sep py_split_no_sep)
  moreover have "py_split c n \<noteq> []" by simp
  moreover have "py_join [c] (py_split c n) = n" by (rule py_join_split)
  ultimately show ?thesis by (cases "py_split c n") (auto simp: py_rsplit_def Let_def)
qed

lemma nat_str_is_digits: "list_all is_digit (nat_str n)"
proof (induction n rule: nat_str.induct)
  case (1 n)
  have d: "is_digit (digit_char m)" if "m < 10" for m
    using that unfolding is_digit_def digit_char_def by (intro nth_mem) simp
  show ?case using 1 by (subst nat_str.simps) (auto simp: d)
qed

lemma no_colon_nat_str: "CHR '':'' \<notin> set (nat_str n)"
  using digits_not_special(2)[OF nat_str_is_digits] by blast

lemma no_colon_int_text: "CHR '':'' \<notin> set (int_text v)"
  by (auto simp: int_text_def int_str_def no_colon_nat_str split: option.splits)

lemma no_colon_float_repr: "CHR '':'' \<notin> set (float_repr f)"
proof -
  have p: "CHR '':'' \<notin> set (pos_float_repr x)" for x
  proof -
    obtain m sh where ms: "shortest_from 16 1 x = (m, sh)" by fastforce
    define ds where "ds = rev (dropWhile (\<lambda>c. c = CHR ''0'') (rev (nat_str m)))"
    have "set ds \<subseteq> set (nat_str m)"
      using set_dropWhileD by (fastforce simp: ds_def)
    then have "CHR '':'' \<notin> set ds" using no_colon_nat_str by blast
    moreover from this have "CHR '':'' \<notin> set (take k ds)" "CHR '':'' \<notin> set (drop k ds)" for k
      by (auto dest: in_set_takeD in_set_dropD)
    moreover have "CHR '':'' \<notin> set (exp_str k)" for k
      by (simp add: exp_str_def Let_def no_colon_nat_str)
    ultimately show ?thesis
      unfolding pos_float_repr_def ms prod.case Let_def ds_def[symmetric] by (cases ds) simp_all
  qed
  show ?thesis by (cases f) (auto simp: p)
qed

lemma no_colon_num_text: "CHR '':'' \<notin> set (num_text v)"
  by (auto simp: num_text_def no_colon_float_repr simp del: float_repr.simps split: option.splits)

definition plain_user :: "string option \<Rightarrow> bool" where
  "plain_user u \<longleftrightarrow> u \<noteq> Some [] \<and> CHR '':'' \<notin> set (user_or_unknown u)"

lemma rsplit_row_key:
  "plain_user (jr_user r) \<Longrightarrow> py_rsplit (CHR '':'') 3 (row_job_key r) =
    [jr_node_id r, user_or_unknown (jr_user r), num_text (job_start (row_ident r)), int_text (job_owner (row_ident r))]"
  unfolding row_job_key_def job_key_def
  using py_rsplit_3[of "CHR '':''" "user_or_unknown (jr_user r)" "num_text (job_start (row_ident r))"
      "int_text (job_owner (row_ident r))" "jr_node_id r"]
  by (simp add: plain_user_def no_colon_num_text no_colon_int_text row_ident_def)

lemma user_condition_known: "plain_user (jr_user r) \<Longrightarrow> user_condition (user_or_unknown (jr_user r)) r"
  by (auto simp: plain_user_def user_condition_def user_or_unknown_def str_or_def split: option.splits if_splits)

lemma owner_of_row:
  assumes "job_owner (row_ident r) = Some p" shows "jr_pid r = p \<or> jr_ppid r = Some p"
  using assms by (auto simp: job_owner_def num_or_def row_ident_def split: if_splits)

lemma owner_of_text:
  assumes "int_text v = int_str p" shows "v = Some p"
proof (cases v)
  case None
  have "hd (int_str p) \<noteq> CHR ''N''"
    using nat_str_is_digits[of "\<bar>p\<bar>"] nat_str_digits[of "\<bar>p\<bar>"]
    by (cases "nat_str \<bar>p\<bar>") (auto simp: int_str_def is_digit_def)
  then have "int_str p \<noteq> ''None''" by auto
  then show ?thesis using assms None by (simp add: int_text_def)
next
  case (Some q)
  then show ?thesis using assms int_str_inject by (auto simp: int_text_def)
qed

text \<open>
  C33: every job in the list can be looked up. In a database whose users are neither empty nor
  contain a colon, \<^verbatim>\<open>get_job\<close> applied to the key of a job row whose start is a finite number and whose
  owner is a positive 63-bit process id returns exactly the job that grouping all the rows of the
  window gives for that key, although it reads only the rows that match the parts of the key.
\<close>

theorem get_job_complete:
  assumes "\<forall>r \<in> set (all_job_rows db). plain_user (jr_user r)" "r \<in> set (all_job_rows db)"
    and "py_float (PStr (num_text (job_start (row_ident r)))) = Inr (Fin t)"
    and "job_owner (row_ident r) = Some p" "0 < p" "p < 2 ^ 63"
  shows "get_job db (row_job_key r) now lookback =
    map_of (group_jobs (job_rows db (map_option (\<lambda>s. now - max 0 s) lookback) None None None None)) (row_job_key r)"
proof -
  let ?k = "row_job_key r" and ?s = "map_option (\<lambda>s. now - max 0 s) lookback"
  have pi: "parse_int (int_text (Some p)) = Some p"
    using assms(5) parse_int_nat_str[of p] by (simp add: int_text_def int_str_def)
  have get: "get_job db ?k now lookback =
      map_of (group_jobs (job_rows db ?s None (Some (jr_node_id r)) (Some (user_or_unknown (jr_user r))) (Some p))) ?k"
    using assms pi by (simp add: get_job_def rsplit_row_key Let_def del: py_float.simps)
  have "job_condition ?s None (Some (jr_node_id r)) (Some (user_or_unknown (jr_user r))) (Some p) q =
      job_condition ?s None None None None q"
    if q: "q \<in> set (all_job_rows db)" and key: "row_job_key q = ?k" for q
  proof -
    have pq: "plain_user (jr_user q)" and pr: "plain_user (jr_user r)" using q assms(1,2) by auto
    have parts: "jr_node_id q = jr_node_id r" "user_or_unknown (jr_user q) = user_or_unknown (jr_user r)"
      "int_text (job_owner (row_ident q)) = int_text (Some p)"
      using rsplit_row_key[OF pq] rsplit_row_key[OF pr] key assms(4) by auto
    have "job_owner (row_ident q) = Some p" using parts(3) by (intro owner_of_text) (simp add: int_text_def)
    with parts pq show ?thesis
      using user_condition_known[OF pq] owner_of_row by (auto simp: job_condition_def opt_holds_def)
  qed
  then have "filter (\<lambda>q. row_job_key q = ?k)
        (job_rows db ?s None (Some (jr_node_id r)) (Some (user_or_unknown (jr_user r))) (Some p)) =
      filter (\<lambda>q. row_job_key q = ?k) (job_rows db ?s None None None None)"
    by (auto simp: job_rows_def intro!: filter_cong)
  then show ?thesis by (simp add: get map_of_group_jobs)
qed

end
