(* ===== verification/Curves.thy ===== *)
theory Curves
  imports Jobs
begin

text \<open>
  \<open>packages/backend/src/constella/highres.py\<close>, third part: the curves of a job. A short job whose window
  the cache covers is answered from memory, every other job from the rollups of the database at a
  width that depends on the requested resolution, the age of the job and the length of its window.

  The parts of the reply that repeat its arguments (\<^verbatim>\<open>enabled\<close>, \<^verbatim>\<open>profile\<close>, \<^verbatim>\<open>device_scope\<close>) are left
  out; \<^verbatim>\<open>source\<close> and \<^verbatim>\<open>expired\<close> are the constructor of the series.
\<close>

subsection \<open>Resolution\<close>

definition ROLLUP_RESOLUTION_LABELS :: "(string, int) dict" where
  "ROLLUP_RESOLUTION_LABELS = [(''20s'', ROLLUP_20S), (''2m'', ROLLUP_2M), (''1h'', ROLLUP_1H)]"

definition normalize_resolution :: "string option \<Rightarrow> (string \<times> int option) result" where
  "normalize_resolution v =
     (let r = py_lower (py_strip (str_or v ''auto''))
      in if r = ''auto'' then Inr (''auto'', None)
         else case map_of ROLLUP_RESOLUTION_LABELS r of
             Some b \<Rightarrow> Inr (r, Some b)
           | None \<Rightarrow>
               if py_isdigit r
               then rbind (py_int (PStr r)) (\<lambda>bucket.
                      case find (\<lambda>ls. snd ls = bucket) ROLLUP_RESOLUTION_LABELS of
                        Some (label, seconds) \<Rightarrow> Inr (label, Some seconds)
                      | None \<Rightarrow> Inr (''auto'', None))
               else Inr (''auto'', None))"

definition OLD_JOB_WARNING :: string where
  "OLD_JOB_WARNING = ''Jobs with activity older than 7 days use hourly history.''"

definition HOURLY_WARNING :: string where
  "HOURLY_WARNING = ''Hourly readings cover the whole GPU and may include activity outside the job.''"

definition job_resolution :: "string \<Rightarrow> rat \<Rightarrow> rat \<Rightarrow> (string \<times> int option \<times> string list) result" where
  "job_resolution resolution started_at now =
     rbind (normalize_resolution (Some resolution)) (\<lambda>(mode0, bucket0).
       let old = started_at < now - HIGHRES_JOB_LOOKBACK_SECONDS;
           mode = (if old then (if mode0 = ''auto'' then ''auto'' else ''1h'') else mode0);
           bucket = (if old then Some ROLLUP_1H else bucket0)
       in Inr (mode, bucket, (if old then [OLD_JOB_WARNING] else []) @
                 (if bucket = Some ROLLUP_1H then [HOURLY_WARNING] else [])))"

definition auto_rollup_bucket :: "rat \<Rightarrow> rat \<Rightarrow> int" where
  "auto_rollup_bucket range_start range_end =
     (if max 0 (range_end - range_start) \<le> JOB_AUTO_2M_THRESHOLD_SECONDS then ROLLUP_20S else ROLLUP_2M)"

definition rollup_point_limit :: "rat \<Rightarrow> rat \<Rightarrow> int \<Rightarrow> int" where
  "rollup_point_limit range_start range_end bucket_seconds =
     (let expected = \<lceil>max 0 (range_end - range_start) / of_int (max 1 bucket_seconds)\<rceil> + 4
      in max 1000 (min expected 20000))"

definition gpu_label :: "job_gpu \<Rightarrow> string" where
  "gpu_label g =
     jg_node_id g @ '' '' @ (case jg_gpu_index g of Some i \<Rightarrow> ''GPU'' @ int_str i | None \<Rightarrow> jg_gpu_uuid g)"

subsection \<open>From memory\<close>

record 'p curve_series =
  cs_gpu :: job_gpu
  cs_label :: string
  cs_points :: 'p

type_synonym memory_series = "(string, rat) dict list curve_series"

record highres_reply =
  hr_coverage_start :: "rat option"
  hr_coverage_end :: "rat option"
  hr_intervals :: "rat list"
  hr_series :: "memory_series list"

definition highres_gpu :: "highres_cache \<Rightarrow> rat \<Rightarrow> rat \<Rightarrow> rat \<Rightarrow> rat \<Rightarrow> job_gpu \<Rightarrow> highres_reply \<Rightarrow> highres_reply option" where
  "highres_gpu c point_start point_end required_start required_end g acc =
     (case series_for_gpu c (jg_node_id g) (jg_gpu_uuid g) point_start point_end of
        (None, points) \<Rightarrow> None
      | (Some r, points) \<Rightarrow>
          if points = [] then None
          else case (gr_oldest_at r, gr_newest_at r) of
              (Some oldest, Some newest) \<Rightarrow>
                if required_start < oldest \<or> newest < required_end then None
                else Some (acc\<lparr>
                  hr_intervals := hr_intervals acc @
                    (case observed_interval_seconds r of None \<Rightarrow> [] | Some i \<Rightarrow> [i]),
                  hr_coverage_start := Some (case hr_coverage_start acc of None \<Rightarrow> oldest | Some t \<Rightarrow> min t oldest),
                  hr_coverage_end := Some (case hr_coverage_end acc of None \<Rightarrow> newest | Some t \<Rightarrow> max t newest),
                  hr_series := hr_series acc @ [\<lparr>cs_gpu = g, cs_label = gpu_label g, cs_points = points\<rparr>]\<rparr>)
            | _ \<Rightarrow> None)"

fun highres_gpus ::
    "highres_cache \<Rightarrow> rat \<Rightarrow> rat \<Rightarrow> rat \<Rightarrow> rat \<Rightarrow> job_gpu list \<Rightarrow> highres_reply \<Rightarrow> highres_reply option" where
  "highres_gpus c ps pe rs re [] acc = Some acc"
| "highres_gpus c ps pe rs re (g # gs) acc =
     (case highres_gpu c ps pe rs re g acc of None \<Rightarrow> None | Some acc' \<Rightarrow> highres_gpus c ps pe rs re gs acc')"

definition highres_curve :: "highres_cache \<Rightarrow> job \<Rightarrow> rat \<Rightarrow> rat \<Rightarrow> rat \<Rightarrow> rat \<Rightarrow> highres_reply option" where
  "highres_curve c j point_start point_end required_start required_end =
     highres_gpus c point_start point_end required_start required_end (j_gpus j)
       \<lparr>hr_coverage_start = None, hr_coverage_end = None, hr_intervals = [], hr_series = []\<rparr>"

text \<open>\<^verbatim>\<open>min(values, default=None)\<close>, which cannot compare \<^verbatim>\<open>None\<close>.\<close>

definition py_min_none :: "rat option list \<Rightarrow> rat option result" where
  "py_min_none vs =
     (case vs of
        [] \<Rightarrow> Inr None
      | [v] \<Rightarrow> Inr v
      | _ \<Rightarrow> if None \<in> set vs then Inl TypeError else Inr (min_opt (map the vs)))"

definition performance_ring_covers :: "highres_cache \<Rightarrow> job \<Rightarrow> job_gpu \<Rightarrow> bool" where
  "performance_ring_covers c j g =
     (case map_of (gc_rings (hx_performance c)) (jg_node_id g, jg_gpu_uuid g) of
        None \<Rightarrow> False
      | Some r \<Rightarrow>
          (case (pr_oldest_at r, pr_newest_at r) of
             (Some oldest, Some newest) \<Rightarrow> oldest \<le> j_started_at j \<and> j_last_seen_at j \<le> newest
           | _ \<Rightarrow> False))"

definition highres_performance_curve ::
    "highres_cache \<Rightarrow> job \<Rightarrow> string list \<Rightarrow> rat \<Rightarrow> rat \<Rightarrow> (gpm_query \<times> rat option) option result" where
  "highres_performance_curve c j metrics range_start range_end =
     (if \<not> list_all (performance_ring_covers c j) (j_gpus j) then Inr None
      else rbind (gpm_cache_query (hx_performance c) (j_node_id j) (Some (map jg_gpu_uuid (j_gpus j))) (Some metrics)
                    range_start range_end 5000 False) (\<lambda>payload.
           rbind (py_min_none (map observed_interval_seconds
                    (List.map_filter (\<lambda>g. map_of (hx_rings c) (jg_node_id g, jg_gpu_uuid g)) (j_gpus j)))) (\<lambda>resolution.
             Inr (Some (payload, resolution)))))"

subsection \<open>From the rollups\<close>

definition curve_since :: "rat \<Rightarrow> int \<Rightarrow> rat" where
  "curve_since range_start bucket_seconds =
     (if bucket_seconds = ROLLUP_1H
      then of_int (\<lfloor>range_start / of_int bucket_seconds\<rfloor> * bucket_seconds) else range_start)"

definition rollup_gpu_curve ::
    "rat \<Rightarrow> database \<Rightarrow> rat \<Rightarrow> rat \<Rightarrow> int \<Rightarrow> job_gpu \<Rightarrow> rollup_row list curve_series result" where
  "rollup_gpu_curve now db range_start range_end bucket_seconds g =
     rbind (query_gpu_history now (Some (jg_node_id g)) (Some (jg_gpu_uuid g))
              (Some (curve_since range_start bucket_seconds)) (Some range_end) (Some bucket_seconds)
              (rollup_point_limit range_start range_end bucket_seconds) db)
       (\<lambda>points. Inr \<lparr>cs_gpu = g, cs_label = gpu_label g, cs_points = points\<rparr>)"

definition rollup_curve ::
    "rat \<Rightarrow> database \<Rightarrow> job \<Rightarrow> rat \<Rightarrow> rat \<Rightarrow> int \<Rightarrow> rollup_row list curve_series list result" where
  "rollup_curve now db j range_start range_end bucket_seconds =
     rmap (rollup_gpu_curve now db range_start range_end bucket_seconds) (j_gpus j)"

definition history_value :: "string \<Rightarrow> gpm_history_row \<Rightarrow> (rat \<times> nat \<times> gpm_history_value) result" where
  "history_value metric row =
     (case map_of (gh_metrics row) metric of
        None \<Rightarrow> Inl KeyError
      | Some v \<Rightarrow> Inr (gh_bucket_start row, gh_expected_count row, v))"

definition history_summary :: "(rat \<times> nat \<times> gpm_history_value) list \<Rightarrow> series_summary" where
  "history_summary vs =
     (let valid_count = sum_list (map (\<lambda>(_, _, v). gh_valid_count v) vs);
          expected_count = sum_list (map (\<lambda>(_, e, _). e) vs);
          maxima = List.map_filter (\<lambda>(_, _, v). gh_max v) vs;
          weighted = sum_list (map (\<lambda>(_, _, v). case gh_avg v of None \<Rightarrow> 0 | Some a \<Rightarrow> a * of_nat (gh_valid_count v)) vs)
      in \<lparr>y_avg = (if valid_count \<noteq> 0 then Some (pyround 3 (weighted / of_nat valid_count)) else None),
          y_min = None, y_max = max_opt maxima, y_p95 = None, y_sample_count = valid_count,
          y_expected_count = expected_count,
          y_coverage = (if expected_count \<noteq> 0
             then pyround 2 (of_nat valid_count / of_nat expected_count * 100) else 0)\<rparr>)"

type_synonym metric_payload = "(string, timeline \<times> series_summary) dict"

definition metric_curve :: "gpm_history_row list \<Rightarrow> string \<Rightarrow> (string \<times> timeline \<times> series_summary) result" where
  "metric_curve rows metric =
     rbind (rmap (history_value metric) rows) (\<lambda>vs.
       Inr (metric, map (\<lambda>(t, _, v). (t, gh_avg v)) vs, history_summary vs))"

definition rollup_gpu_performance ::
    "rat \<Rightarrow> database \<Rightarrow> string list \<Rightarrow> rat \<Rightarrow> rat \<Rightarrow> int \<Rightarrow> job_gpu \<Rightarrow> metric_payload curve_series result" where
  "rollup_gpu_performance now db metrics range_start range_end bucket_seconds g =
     rbind (query_nvidia_gpm_history now (jg_node_id g) (jg_gpu_uuid g)
              (Some (curve_since range_start bucket_seconds)) (Some range_end) (Some bucket_seconds) (Some metrics)
              (rollup_point_limit range_start range_end bucket_seconds) db) (\<lambda>rows.
     rbind (rmap (metric_curve rows) metrics) (\<lambda>payload.
       Inr \<lparr>cs_gpu = g, cs_label = gpu_label g, cs_points = fold (\<lambda>(m, p). AList.update m p) payload []\<rparr>))"

definition rollup_performance_curve ::
    "rat \<Rightarrow> database \<Rightarrow> job \<Rightarrow> string list \<Rightarrow> rat \<Rightarrow> rat \<Rightarrow> int \<Rightarrow> metric_payload curve_series list result" where
  "rollup_performance_curve now db j metrics range_start range_end bucket_seconds =
     rmap (rollup_gpu_performance now db metrics range_start range_end bucket_seconds) (j_gpus j)"

definition concurrent_session_count :: "database \<Rightarrow> job \<Rightarrow> nat" where
  "concurrent_session_count db j =
     (let session_ids = map jn_session_id (j_sessions j)
      in sum_list (map (\<lambda>g. length (remdups (map (fst \<circ> fst) (filter (\<lambda>((sid, uuid), u).
             us_node_id u = jg_node_id g \<and> uuid = jg_gpu_uuid g \<and> us_first_seen_at u \<le> j_last_seen_at j \<and>
             j_started_at j \<le> us_last_seen_at u \<and> sid \<notin> set session_ids) (db_usages db))))) (j_gpus j)))"

subsection \<open>The replies\<close>

datatype curve_source = MemoryCurve "memory_series list" | RollupCurve "rollup_row list curve_series list"

record job_curve_reply =
  jc_job :: job
  jc_range_start :: rat
  jc_range_end :: rat
  jc_coverage_start :: "rat option"
  jc_coverage_end :: "rat option"
  jc_cache_retention_seconds :: rat
  jc_resolution_seconds :: "rat option"
  jc_resolution_mode :: string
  jc_warnings :: "string list"
  jc_series :: curve_source

definition clamp_padding :: "rat \<Rightarrow> rat" where
  "clamp_padding padding_seconds = max 0 (min padding_seconds 300)"

definition CACHE_GAP_WARNING :: string where
  "CACHE_GAP_WARNING = ''high-resolution cache does not cover the full job window''"

definition LONG_JOB_WARNING :: string where
  "LONG_JOB_WARNING = ''job duration is 1 hour or longer, using rollup history''"

definition rollup_job_curve ::
    "rat \<Rightarrow> database \<Rightarrow> highres_cache \<Rightarrow> job \<Rightarrow> rat \<Rightarrow> rat \<Rightarrow> string \<Rightarrow> int option \<Rightarrow> string list \<Rightarrow> job_curve_reply result" where
  "rollup_job_curve now db c j range_start range_end mode requested warnings =
     (let bucket_seconds = (case requested of Some b \<Rightarrow> b | None \<Rightarrow> auto_rollup_bucket range_start range_end)
      in rbind (rollup_curve now db j range_start range_end bucket_seconds) (\<lambda>series.
           let times = concat (map (\<lambda>s. map rr_bucket_start (cs_points s)) series)
           in Inr \<lparr>jc_job = j, jc_range_start = range_start, jc_range_end = range_end,
                jc_coverage_start = min_opt times, jc_coverage_end = max_opt times,
                jc_cache_retention_seconds = hx_retention_seconds c,
                jc_resolution_seconds = Some (of_int bucket_seconds), jc_resolution_mode = mode,
                jc_warnings = warnings, jc_series = RollupCurve series\<rparr>))"

definition job_curve ::
    "database \<Rightarrow> highres_cache \<Rightarrow> string \<Rightarrow> rat \<Rightarrow> string \<Rightarrow> rat \<Rightarrow> job_curve_reply option result" where
  "job_curve db c key padding_seconds resolution now =
     (case get_job db key now (Some JOB_MAX_LOOKBACK_SECONDS) of
        None \<Rightarrow> Inr None
      | Some j \<Rightarrow>
          (let padding = clamp_padding padding_seconds;
               range_start = max 0 (j_started_at j - padding); range_end = j_last_seen_at j + padding;
               duration = max 0 (j_duration_seconds j)
           in rbind (job_resolution resolution (j_started_at j) now) (\<lambda>(mode, requested, warnings).
                let automatic = (mode = ''auto'' \<and> requested = None);
                    rollup = (\<lambda>ws. rbind (rollup_job_curve now db c j range_start range_end mode requested ws) (Inr \<circ> Some))
                in if automatic \<and> duration < HIGHRES_MAX_JOB_SECONDS
                   then (case highres_curve c j range_start range_end (j_started_at j) (j_last_seen_at j) of
                           Some hr \<Rightarrow> Inr (Some
                             \<lparr>jc_job = j, jc_range_start = range_start, jc_range_end = range_end,
                              jc_coverage_start = hr_coverage_start hr, jc_coverage_end = hr_coverage_end hr,
                              jc_cache_retention_seconds = hx_retention_seconds c,
                              jc_resolution_seconds = min_opt (hr_intervals hr), jc_resolution_mode = mode,
                              jc_warnings = warnings, jc_series = MemoryCurve (hr_series hr)\<rparr>)
                         | None \<Rightarrow> rollup (warnings @ [CACHE_GAP_WARNING]))
                   else rollup (warnings @ (if automatic then [LONG_JOB_WARNING] else [])))))"

datatype performance_source =
  MemoryPerformance gpm_query
| RollupPerformance "metric_payload curve_series list"

record job_performance_reply =
  jpf_job :: job
  jpf_range_start :: rat
  jpf_range_end :: rat
  jpf_resolution_seconds :: "rat option"
  jpf_resolution_mode :: string
  jpf_concurrent_session_count :: nat
  jpf_warnings :: "string list"
  jpf_series :: performance_source

definition DEVICE_WIDE_WARNING :: string where
  "DEVICE_WIDE_WARNING = ''performance metrics are device-wide and are not attributed to an individual process''"

definition OVERLAP_WARNING :: string where
  "OVERLAP_WARNING = ''other process sessions overlap this GPU time window''"

definition PERFORMANCE_GAP_WARNING :: string where
  "PERFORMANCE_GAP_WARNING = ''high-resolution performance cache does not cover the full job window''"

definition rollup_job_performance ::
    "rat \<Rightarrow> database \<Rightarrow> job \<Rightarrow> string list \<Rightarrow> rat \<Rightarrow> rat \<Rightarrow> string \<Rightarrow> int option \<Rightarrow> nat \<Rightarrow> string list
      \<Rightarrow> job_performance_reply result" where
  "rollup_job_performance now db j metrics range_start range_end mode requested concurrent warnings =
     (let bucket_seconds = (case requested of Some b \<Rightarrow> b | None \<Rightarrow> auto_rollup_bucket range_start range_end)
      in rbind (rollup_performance_curve now db j metrics range_start range_end bucket_seconds) (\<lambda>series.
           Inr \<lparr>jpf_job = j, jpf_range_start = range_start, jpf_range_end = range_end,
                jpf_resolution_seconds = Some (of_int bucket_seconds), jpf_resolution_mode = mode,
                jpf_concurrent_session_count = concurrent, jpf_warnings = warnings,
                jpf_series = RollupPerformance series\<rparr>))"

definition job_performance_curve ::
    "database \<Rightarrow> highres_cache \<Rightarrow> string \<Rightarrow> string list option \<Rightarrow> rat \<Rightarrow> string \<Rightarrow> rat \<Rightarrow> job_performance_reply option result" where
  "job_performance_curve db c key metrics padding_seconds resolution now =
     (case get_job db key now (Some JOB_MAX_LOOKBACK_SECONDS) of
        None \<Rightarrow> Inr None
      | Some j \<Rightarrow>
          (let selected = selected_metrics metrics; padding = clamp_padding padding_seconds;
               range_start = max 0 (j_started_at j - padding); range_end = j_last_seen_at j + padding;
               duration = max 0 (j_duration_seconds j)
           in rbind (job_resolution resolution (j_started_at j) now) (\<lambda>(mode, requested, resolution_warnings).
                let concurrent = concurrent_session_count db j;
                    warnings = DEVICE_WIDE_WARNING # resolution_warnings @ (if concurrent \<noteq> 0 then [OVERLAP_WARNING] else []);
                    rollup = (\<lambda>ws. rbind (rollup_job_performance now db j selected range_start range_end mode requested concurrent ws)
                                (Inr \<circ> Some))
                in if mode = ''auto'' \<and> requested = None \<and> duration < HIGHRES_MAX_JOB_SECONDS
                   then rbind (highres_performance_curve c j selected range_start range_end) (\<lambda>hr.
                          case hr of
                            Some (payload, res) \<Rightarrow> Inr (Some
                              \<lparr>jpf_job = j, jpf_range_start = range_start, jpf_range_end = range_end,
                               jpf_resolution_seconds = res, jpf_resolution_mode = mode,
                               jpf_concurrent_session_count = concurrent, jpf_warnings = warnings,
                               jpf_series = MemoryPerformance payload\<rparr>)
                          | None \<Rightarrow> rollup (warnings @ [PERFORMANCE_GAP_WARNING]))
                   else rollup warnings)))"

subsection \<open>Completeness of the rollup curve\<close>

text \<open>Rows stored under their own key, one per key, starting at a multiple of their width.\<close>

definition aligned_rows :: "database \<Rightarrow> bool" where
  "aligned_rows db \<longleftrightarrow> distinct (map fst (db_rollups db)) \<and>
     (\<forall>(k, r) \<in> set (db_rollups db). k = row_key r \<and> (\<exists>i. rr_bucket_start r = of_int (i * rr_bucket_seconds r)))"

lemma aligned_values:
  assumes "aligned_rows db"
  shows "distinct (values_of (db_rollups db))" "inj_on row_key (set (values_of (db_rollups db)))"
    "r \<in> set (values_of (db_rollups db)) \<Longrightarrow> \<exists>i. rr_bucket_start r = of_int (i * rr_bucket_seconds r)"
proof -
  have "map fst (db_rollups db) = map row_key (values_of (db_rollups db))"
    using assms by (auto simp: aligned_rows_def values_of_def)
  then have d: "distinct (map row_key (values_of (db_rollups db)))" using assms by (simp add: aligned_rows_def)
  then show "distinct (values_of (db_rollups db))" "inj_on row_key (set (values_of (db_rollups db)))"
    by (simp_all add: distinct_map)
  show "r \<in> set (values_of (db_rollups db)) \<Longrightarrow> \<exists>i. rr_bucket_start r = of_int (i * rr_bucket_seconds r)"
    using assms by (auto simp: aligned_rows_def values_of_def)
qed

definition device_rows :: "database \<Rightarrow> int \<Rightarrow> job_gpu \<Rightarrow> rat \<Rightarrow> rat \<Rightarrow> rollup_row list" where
  "device_rows db b g since until =
     filter (\<lambda>r. rr_bucket_seconds r = b \<and> rr_node_id r = jg_node_id g \<and> rr_gpu_uuid r = jg_gpu_uuid g \<and>
       since \<le> rr_bucket_start r \<and> rr_bucket_start r \<le> until) (values_of (db_rollups db))"

lemma device_rows_bound:
  assumes "aligned_rows db" "0 < b"
  shows "int (length (device_rows db b g since until)) \<le> max 0 (\<lfloor>until / of_int b\<rfloor> - \<lceil>since / of_int b\<rceil> + 1)"
proof -
  let ?rs = "device_rows db b g since until" and ?f = "\<lambda>r. \<lfloor>rr_bucket_start r / of_int b\<rfloor>"
  have start: "\<exists>i. rr_bucket_start r = of_int i * of_int b" if "r \<in> set ?rs" for r
    using that aligned_values(3)[OF assms(1), of r] by (auto simp: device_rows_def)
  have inj: "inj_on ?f (set ?rs)"
  proof (rule inj_onI)
    fix r q assume r: "r \<in> set ?rs" and q: "q \<in> set ?rs" and f: "?f r = ?f q"
    have "rr_bucket_start r = rr_bucket_start q"
      using start[OF r] start[OF q] f assms(2) by auto
    then have "row_key r = row_key q" using r q by (auto simp: device_rows_def row_key_def)
    then show "r = q" using r q aligned_values(2)[OF assms(1)] by (auto simp: device_rows_def inj_on_def)
  qed
  have img: "?f ` set ?rs \<subseteq> {\<lceil>since / of_int b\<rceil>..\<lfloor>until / of_int b\<rfloor>}"
  proof
    fix x assume "x \<in> ?f ` set ?rs"
    then obtain r where r: "r \<in> set ?rs" and x: "x = ?f r" by auto
    obtain i where i: "rr_bucket_start r = of_int i * of_int b" using start[OF r] by auto
    have "since \<le> of_int i * of_int b" "of_int i * of_int b \<le> until"
      using r i by (auto simp: device_rows_def)
    then have "since / of_int b \<le> of_int i" "of_int i \<le> until / of_int b"
      using assms(2) by (simp_all add: field_simps)
    then have "\<lceil>since / of_int b\<rceil> \<le> i" "i \<le> \<lfloor>until / of_int b\<rfloor>" by (simp_all add: ceiling_le_iff le_floor_iff)
    then show "x \<in> {\<lceil>since / of_int b\<rceil>..\<lfloor>until / of_int b\<rfloor>}" using x i assms(2) by simp
  qed
  have "distinct ?rs" using aligned_values(1)[OF assms(1)] by (simp add: device_rows_def)
  then have "length ?rs = card (set ?rs)" by (simp only: distinct_card)
  also have "\<dots> = card (?f ` set ?rs)" using inj by (simp add: card_image)
  also have "\<dots> \<le> card {\<lceil>since / of_int b\<rceil>..\<lfloor>until / (of_int b :: rat)\<rfloor>}" using img by (intro card_mono) auto
  finally show ?thesis by simp
qed

lemma floor_span:
  fixes s t :: rat
  assumes "0 < b"
  shows "\<lfloor>t / of_int b\<rfloor> - \<lfloor>s / of_int b\<rfloor> \<le> \<lceil>max 0 (t - s) / of_int b\<rceil> + 1"
proof -
  have "t / of_int b - s / of_int b \<le> max 0 (t - s) / of_int b"
    using assms by (simp add: diff_divide_distrib[symmetric] divide_right_mono)
  then show ?thesis by linarith
qed

lemma rollup_limit_suffices:
  assumes "aligned_rows db" "b \<in> {ROLLUP_20S, ROLLUP_2M, ROLLUP_1H}" "range_end - range_start \<le> 19996 * of_int b"
  shows "int (length (device_rows db b g (curve_since range_start b) range_end)) \<le> rollup_point_limit range_start range_end b"
proof -
  have b: "0 < b" using assms(2) by (auto simp: rollup_consts)
  have "\<lfloor>range_start / of_int b\<rfloor> \<le> \<lceil>curve_since range_start b / of_int b\<rceil>"
    using b by (simp add: curve_since_def floor_le_ceiling)
  moreover have "0 \<le> max 0 (range_end - range_start) / rat_of_int b" using b by simp
  then have "0 \<le> \<lceil>max 0 (range_end - range_start) / rat_of_int b\<rceil>" by linarith
  ultimately have "int (length (device_rows db b g (curve_since range_start b) range_end)) \<le>
      \<lceil>max 0 (range_end - range_start) / of_int b\<rceil> + 4"
    using device_rows_bound[OF assms(1) b, of g "curve_since range_start b" range_end]
      floor_span[OF b, of range_end range_start] by linarith
  moreover have "\<lceil>max 0 (range_end - range_start) / of_int b\<rceil> \<le> 19996"
    using assms(3) b by (simp add: ceiling_le_iff field_simps)
  ultimately show ?thesis using b by (simp add: rollup_point_limit_def Let_def)
qed

text \<open>
  A rollup curve is complete: for a window of at most 19996 buckets and an accelerator with a name,
  the points of \<^verbatim>\<open>_rollup_curve\<close> are exactly the rows stored for the accelerator in the window, in time
  order; the limit \<^verbatim>\<open>_rollup_point_limit\<close> computes never cuts any of them off, the extra hourly bucket
  at the start included.
\<close>

theorem rollup_curve_complete:
  assumes "aligned_rows db" "b \<in> {ROLLUP_20S, ROLLUP_2M, ROLLUP_1H}" "range_end - range_start \<le> 19996 * of_int b"
    and "jg_node_id g \<noteq> []" "jg_gpu_uuid g \<noteq> []"
  shows "\<exists>points. rollup_gpu_curve now db range_start range_end b g =
      Inr \<lparr>cs_gpu = g, cs_label = gpu_label g, cs_points = points\<rparr> \<and> sorted (map rr_bucket_start points) \<and>
      mset points = mset (device_rows db b g (curve_since range_start b) range_end)"
proof -
  let ?since = "curve_since range_start b"
  have "filter (rollup_filters (Some (jg_node_id g)) (Some (jg_gpu_uuid g)) (Some ?since) (Some range_end) b)
      (values_of (db_rollups db)) = device_rows db b g ?since range_end"
    using assms(4,5) by (auto simp: device_rows_def rollup_filters_def opt_holds_def intro!: filter_cong)
  moreover have "history_bucket now (Some ?since) (Some range_end) (Some b) = Inr b"
    using assms(2) by (auto simp: history_bucket_def normalize_history_bucket_def has_key_def rollup_consts)
  ultimately show ?thesis
    using rollup_limit_suffices[OF assms(1-3), of g]
    by (simp add: rollup_gpu_curve_def query_gpu_history_def sql_limit_all)
qed

definition plain_gpu_of :: "string \<Rightarrow> job_gpu" where
  "plain_gpu_of uuid = \<lparr>jg_node_id = ''n'', jg_gpu_uuid = uuid, jg_gpu_index = Some 0, jg_gpu_name = None,
     jg_memory_total_mb = None\<rparr>"

theorem rollup_curve_complete_witness:
  "\<exists>points. rollup_gpu_curve 700 aging_db 5 300 20 (plain_gpu_of ''u'') =
      Inr \<lparr>cs_gpu = plain_gpu_of ''u'', cs_label = ''n GPU0'', cs_points = points\<rparr> \<and> length points = 1"
proof -
  have a: "aligned_rows aging_db"
    by (auto simp: aligned_rows_def aging_db_def empty_db_def plain_row_def row_key_def intro: exI[of _ 0] exI[of _ 5])
  have b: "(20 :: int) \<in> {ROLLUP_20S, ROLLUP_2M, ROLLUP_1H}" "(300 - 5 :: rat) \<le> 19996 * of_int 20"
    by (simp_all add: ROLLUP_20S_def)
  have n: "jg_node_id (plain_gpu_of ''u'') \<noteq> []" "jg_gpu_uuid (plain_gpu_of ''u'') \<noteq> []"
    by (simp_all add: plain_gpu_of_def)
  have l: "gpu_label (plain_gpu_of ''u'') = ''n GPU0''" by code_simp
  have d: "length (device_rows aging_db 20 (plain_gpu_of ''u'') (curve_since 5 20) 300) = 1" by code_simp
  obtain points where p: "rollup_gpu_curve 700 aging_db 5 300 20 (plain_gpu_of ''u'') =
      Inr \<lparr>cs_gpu = plain_gpu_of ''u'', cs_label = ''n GPU0'', cs_points = points\<rparr>"
    and m: "mset points = mset (device_rows aging_db 20 (plain_gpu_of ''u'') (curve_since 5 20) 300)"
    using rollup_curve_complete[OF a b n, of 700] unfolding l by blast
  show ?thesis using p mset_eq_length[OF m] d by auto
qed

subsection \<open>Replies\<close>

definition memory_covers :: "highres_cache \<Rightarrow> rat \<Rightarrow> rat \<Rightarrow> rat \<Rightarrow> rat \<Rightarrow> memory_series \<Rightarrow> bool" where
  "memory_covers c since until required_start required_end s \<longleftrightarrow>
     (\<exists>r oldest newest. map_of (hx_rings c) (jg_node_id (cs_gpu s), jg_gpu_uuid (cs_gpu s)) = Some r \<and>
       cs_points s = gpu_ring_points r since until \<and> cs_points s \<noteq> [] \<and>
       gr_oldest_at r = Some oldest \<and> oldest \<le> required_start \<and>
       gr_newest_at r = Some newest \<and> required_end \<le> newest)"

lemma highres_gpu_series:
  assumes "highres_gpu c ps pe rs re g acc = Some acc'"
  shows "\<exists>s. hr_series acc' = hr_series acc @ [s] \<and> cs_gpu s = g \<and> memory_covers c ps pe rs re s"
  using assms by (auto simp: highres_gpu_def series_for_gpu_def memory_covers_def not_less
      split: option.splits if_splits)

lemma highres_gpus_series:
  "highres_gpus c ps pe rs re gs acc = Some hr \<Longrightarrow>
    \<exists>ss. hr_series hr = hr_series acc @ ss \<and> map cs_gpu ss = gs \<and> (\<forall>s \<in> set ss. memory_covers c ps pe rs re s)"
proof (induction gs arbitrary: acc)
  case (Cons g gs)
  then obtain acc' where a: "highres_gpu c ps pe rs re g acc = Some acc'" "highres_gpus c ps pe rs re gs acc' = Some hr"
    by (auto split: option.splits)
  obtain s where s: "hr_series acc' = hr_series acc @ [s]" "cs_gpu s = g" "memory_covers c ps pe rs re s"
    using highres_gpu_series[OF a(1)] by blast
  obtain ss where "hr_series hr = hr_series acc' @ ss" "map cs_gpu ss = gs" "\<forall>s \<in> set ss. memory_covers c ps pe rs re s"
    using Cons.IH[OF a(2)] by blast
  then show ?case using s by (intro exI[of _ "s # ss"]) auto
qed simp

lemma highres_curve_series:
  "highres_curve c j ps pe rs re = Some hr \<Longrightarrow>
    map cs_gpu (hr_series hr) = j_gpus j \<and> (\<forall>s \<in> set (hr_series hr). memory_covers c ps pe rs re s)"
  unfolding highres_curve_def by (drule highres_gpus_series) auto

lemma normalize_resolution_bucket:
  "normalize_resolution v = Inr (mode, Some b) \<Longrightarrow> b \<in> {ROLLUP_20S, ROLLUP_2M, ROLLUP_1H}"
  by (auto simp: normalize_resolution_def ROLLUP_RESOLUTION_LABELS_def Let_def rbind_Inr_iff
      split: if_splits option.splits)

lemma job_resolution_bucket:
  "job_resolution r t now = Inr (mode, Some b, ws) \<Longrightarrow> b \<in> {ROLLUP_20S, ROLLUP_2M, ROLLUP_1H}"
  by (auto simp: job_resolution_def Let_def rbind_Inr_iff split: if_splits dest: normalize_resolution_bucket)

lemma rollup_curve_total:
  assumes "b \<in> {ROLLUP_20S, ROLLUP_2M, ROLLUP_1H}"
  shows "\<exists>ss. rollup_curve now db j rs re b = Inr ss \<and> map cs_gpu ss = j_gpus j"
proof -
  have "history_bucket now s u (Some b) = Inr b" for s u
    using assms by (auto simp: history_bucket_def normalize_history_bucket_def has_key_def rollup_consts)
  then have "\<exists>s. rollup_gpu_curve now db rs re b g = Inr s \<and> cs_gpu s = g" for g
    by (simp add: rollup_gpu_curve_def query_gpu_history_def)
  then obtain f where "\<And>g. rollup_gpu_curve now db rs re b g = Inr (f g) \<and> cs_gpu (f g) = g" by metis
  then show ?thesis
    by (intro exI[of _ "map f (j_gpus j)"]) (simp add: rollup_curve_def rmap_Inr_total comp_def)
qed

lemma rollup_job_curve_total:
  assumes "\<And>b. requested = Some b \<Longrightarrow> b \<in> {ROLLUP_20S, ROLLUP_2M, ROLLUP_1H}"
  shows "\<exists>reply ss. rollup_job_curve now db c j rs re mode requested ws = Inr reply \<and> jc_job reply = j \<and>
    jc_series reply = RollupCurve ss \<and> map cs_gpu ss = j_gpus j"
proof -
  define b where "b = (case requested of Some b \<Rightarrow> b | None \<Rightarrow> auto_rollup_bucket rs re)"
  have "b \<in> {ROLLUP_20S, ROLLUP_2M, ROLLUP_1H}"
    using assms by (auto simp: b_def auto_rollup_bucket_def split: option.splits)
  then obtain ss where "rollup_curve now db j rs re b = Inr ss" "map cs_gpu ss = j_gpus j"
    using rollup_curve_total by blast
  then show ?thesis by (simp add: rollup_job_curve_def b_def[symmetric] Let_def)
qed

text \<open>
  C37: a job that can be found always gets its curve, when the requested resolution can be read: the
  reply has one series for each of its accelerators, in their order. A reply from memory is given
  only to a job shorter than an hour, and then every series is the non-empty excerpt of the ring of
  its accelerator, whose samples reach back to the start of the job and forward to its end.
\<close>

theorem job_curve_sound:
  assumes "get_job db key now (Some JOB_MAX_LOOKBACK_SECONDS) = Some j"
    and "job_resolution resolution (j_started_at j) now = Inr (mode, requested, warnings)"
  shows "\<exists>reply. job_curve db c key padding resolution now = Inr (Some reply) \<and> jc_job reply = j \<and>
    (case jc_series reply of
       RollupCurve ss \<Rightarrow> map cs_gpu ss = j_gpus j
     | MemoryCurve ss \<Rightarrow> j_duration_seconds j < HIGHRES_MAX_JOB_SECONDS \<and> map cs_gpu ss = j_gpus j \<and>
         (\<forall>s \<in> set ss. memory_covers c (jc_range_start reply) (jc_range_end reply) (j_started_at j) (j_last_seen_at j) s))"
proof -
  let ?rs = "max 0 (j_started_at j - clamp_padding padding)" and ?re = "j_last_seen_at j + clamp_padding padding"
  let ?memory = "mode = ''auto'' \<and> requested = None \<and> max 0 (j_duration_seconds j) < HIGHRES_MAX_JOB_SECONDS"
  have rollup: "\<exists>reply ss. rollup_job_curve now db c j ?rs ?re mode requested ws = Inr reply \<and> jc_job reply = j \<and>
    jc_series reply = RollupCurve ss \<and> map cs_gpu ss = j_gpus j" for ws
    using assms(2) by (intro rollup_job_curve_total) (auto dest: job_resolution_bucket)
  show ?thesis
  proof (cases "?memory \<and> highres_curve c j ?rs ?re (j_started_at j) (j_last_seen_at j) \<noteq> None")
    case True
    then obtain hr where "highres_curve c j ?rs ?re (j_started_at j) (j_last_seen_at j) = Some hr" by blast
    then show ?thesis using True assms highres_curve_series by (auto simp: job_curve_def Let_def)
  next
    case False
    let ?ws = "warnings @ (if ?memory then [CACHE_GAP_WARNING]
        else if mode = ''auto'' \<and> requested = None then [LONG_JOB_WARNING] else [])"
    have "job_curve db c key padding resolution now =
        rbind (rollup_job_curve now db c j ?rs ?re mode requested ?ws) (Inr \<circ> Some)"
    proof (cases ?memory)
      case True
      then have "highres_curve c j ?rs ?re (j_started_at j) (j_last_seen_at j) = None" using False by blast
      then show ?thesis using True assms by (simp add: job_curve_def Let_def del: max_less_iff_conj)
    next
      case False
      then show ?thesis using assms unfolding job_curve_def Let_def by (auto simp del: max_less_iff_conj)
    qed
    then show ?thesis using rollup[of ?ws] by auto
  qed
qed

lemma py_min_none_error: "None \<in> set vs \<Longrightarrow> 1 < length vs \<Longrightarrow> py_min_none vs = Inl TypeError"
  by (auto simp: py_min_none_def split: list.splits)

definition plain_session :: session_row where
  "plain_session = \<lparr>ss_node_id = ''n'', ss_pid = 7, ss_ppid = PNone, ss_process_start_time = PNone,
     ss_parent_start_time = PNone, ss_user = PStr ''u'', ss_user_uid = PNone, ss_task_name = PNone,
     ss_process_name = ''p'', ss_exe = PNone, ss_cmdline_hash = PNone, ss_cmdline_text = PNone,
     ss_first_seen_at = 0, ss_last_seen_at = 60, ss_duration_seconds = 60, ss_status = Running, ss_sample_count = 2\<rparr>"

definition one_job_db :: database where
  "one_job_db = empty_db\<lparr>db_sessions := [(''s'', plain_session)],
     db_usages := [((''s'', ''g''), \<lparr>us_node_id = ''n'', us_first_seen_at = 0, us_last_seen_at = 60, us_max_memory_mb = 5,
        us_avg_memory_mb = 5, us_last_memory_mb = 5, us_sample_count = 2\<rparr>)]\<rparr>"

lemma one_job_rows: "all_job_rows one_job_db = [job_row_of ''s'' plain_session ''g'' None]"
  by code_simp

lemma one_job_key: "row_job_key (job_row_of ''s'' plain_session ''g'' None) = ''n:u:0.0:7''"
  by code_simp

lemma float_of_zero_text: "py_float (PStr ''0.0'') = Inr (Fin 0)"
proof -
  have "split_sign (py_lower (py_strip ''0.0'')) = (1, ''0.0'')" by code_simp
  moreover have "parse_mant ''0.0'' = Some 0" by code_simp
  moreover have "to_double 0 = Fin 0" by (simp add: to_double_def to_format_def rnd_bits_def)
  ultimately show ?thesis by (simp add: parse_float_def)
qed

lemma one_job_found:
  "\<exists>j. get_job one_job_db ''n:u:0.0:7'' 100 (Some JOB_MAX_LOOKBACK_SECONDS) = Some j \<and> j_started_at j = 0"
proof -
  have parts: "py_rsplit (CHR '':'') 3 ''n:u:0.0:7'' = [''n'', ''u'', ''0.0'', ''7'']" by code_simp
  have nums: "parse_int ''7'' = Some 7" by code_simp
  have cond: "job_condition (Some (100 - JOB_MAX_LOOKBACK_SECONDS)) None (Some ''n'') (Some ''u'') (Some 7)
      (job_row_of ''s'' plain_session ''g'' None)" by code_simp
  have "job_rows one_job_db (Some (100 - JOB_MAX_LOOKBACK_SECONDS)) None (Some ''n'') (Some ''u'') (Some 7) =
      [job_row_of ''s'' plain_session ''g'' None]"
    unfolding job_rows_def one_job_rows using cond by simp
  moreover have "max 0 JOB_MAX_LOOKBACK_SECONDS = JOB_MAX_LOOKBACK_SECONDS" by (simp add: JOB_MAX_LOOKBACK_SECONDS_def)
  ultimately have "get_job one_job_db ''n:u:0.0:7'' 100 (Some JOB_MAX_LOOKBACK_SECONDS) =
      map_of (group_jobs [job_row_of ''s'' plain_session ''g'' None]) ''n:u:0.0:7''"
    unfolding get_job_def parts Let_def nums float_of_zero_text list.case prod.case option.case sum.case flt.case option.map by simp
  then show ?thesis
    by (simp only: map_of_group_jobs one_job_key Let_def filter.simps) (simp add: finalize_job_def add_job_row_def new_group_def
        Let_def job_row_of_def plain_session_def)
qed

theorem get_job_complete_witness:
  "get_job one_job_db ''n:u:0.0:7'' 100 (Some JOB_MAX_LOOKBACK_SECONDS) =
    map_of (group_jobs (job_rows one_job_db (Some (100 - JOB_MAX_LOOKBACK_SECONDS)) None None None None)) ''n:u:0.0:7''"
proof -
  let ?r = "job_row_of ''s'' plain_session ''g'' None"
  have u: "\<forall>r \<in> set (all_job_rows one_job_db). plain_user (jr_user r)"
    unfolding one_job_rows list.set by code_simp
  have "num_text (job_start (row_ident ?r)) = ''0.0''" by code_simp
  then have t: "py_float (PStr (num_text (job_start (row_ident ?r)))) = Inr (Fin 0)" using float_of_zero_text by simp
  have o: "job_owner (row_ident ?r) = Some 7" by code_simp
  have r: "?r \<in> set (all_job_rows one_job_db)" unfolding one_job_rows by simp
  show ?thesis
    using get_job_complete[OF u r t o, of 100 "Some JOB_MAX_LOOKBACK_SECONDS"]
    by (simp add: one_job_key JOB_MAX_LOOKBACK_SECONDS_def)
qed

theorem job_curve_sound_witness:
  "\<exists>reply. job_curve one_job_db (new_highres_cache 60 1 (\<lambda>_. None)) ''n:u:0.0:7'' 20 ''auto'' 100 = Inr (Some reply)"
proof -
  obtain j where j: "get_job one_job_db ''n:u:0.0:7'' 100 (Some JOB_MAX_LOOKBACK_SECONDS) = Some j" "j_started_at j = 0"
    using one_job_found by blast
  have "job_resolution ''auto'' (j_started_at j) 100 = Inr (''auto'', None, [])" unfolding j(2) by code_simp
  from job_curve_sound[OF j(1) this] show ?thesis by blast
qed

definition gpm_gpu :: "string \<Rightarrow> string \<Rightarrow> gpu" where
  "gpm_gpu uuid err = (blank_gpu 0 ''n'' uuid ''card'' err)\<lparr>g_performance := Some
     \<lparr>f_profile = NVIDIA_GPM_PROFILE, f_status = ''error'', f_sampled_at = 0, f_interval_ms = None, f_metrics = [],
      f_supported_metrics = [], f_error = None, f_invalid_metrics = []\<rparr>\<rparr>"

definition two_gpu_cache :: highres_cache where
  "two_gpu_cache = fold (\<lambda>t. add_gpu_sample ''n'' t (gpm_gpu ''h'' ''lost'') \<circ> add_gpu_sample ''n'' t (gpm_gpu ''g'' ''''))
     [0, 1] (new_highres_cache 2 1 (\<lambda>_. None))"

definition two_gpu_job :: job where
  "two_gpu_job = \<lparr>j_job_key = ''k'', j_node_id = ''n'', j_user = ''u'', j_task_name = None, j_started_at = 0,
     j_last_seen_at = 1, j_duration_seconds = 1, j_status = Running, j_sessions = [], j_pids = [],
     j_gpus = [plain_gpu_of ''g'', plain_gpu_of ''h'']\<rparr>"

text \<open>
  The curves of a job on two accelerators fail when one of them reports performance counters but
  no basic readings: its ring in the cache has no interval, and \<^verbatim>\<open>min\<close> over \<^verbatim>\<open>None\<close> and a number raises.
\<close>

theorem performance_curve_min_raises:
  "highres_performance_curve two_gpu_cache two_gpu_job [''nvidia.gpm.sm_active''] 0 1 = Inl TypeError"
  by code_simp
end
