(* ===== verification/LabStore.thy ===== *)
theory LabStore
  imports PyValue
begin

text \<open>
  \<open>packages/lab/src/constella_lab/store.py\<close>: the users of the lab, the bindings of Unix accounts to users
  and the audit log, as functions of the three tables. A method of \<^verbatim>\<open>LabStore\<close> is one transaction: it
  returns the new tables and its result, or an error, and then the tables stay as they were. The
  constraints of the schema (primary keys, unique indexes, foreign keys) are written out where a
  statement can violate them. The clock, the random ids and the id of the request are arguments;
  one method reads the clock once. Opening, migrating and copying the file are left out.
\<close>

subsection \<open>Tables\<close>

datatype role = Viewer | Member | Admin
datatype user_status = UActive | UDisabled | UPending
datatype assurance = SelfClaimed | AdminVerified | NodeVerified
datatype binding_status = BActive | BRevoked | BReassigned

definition role_text :: "role \<Rightarrow> string" where
  "role_text r = (case r of Viewer \<Rightarrow> ''viewer'' | Member \<Rightarrow> ''member'' | Admin \<Rightarrow> ''admin'')"

definition user_status_text :: "user_status \<Rightarrow> string" where
  "user_status_text s =
     (case s of UActive \<Rightarrow> ''active'' | UDisabled \<Rightarrow> ''disabled'' | UPending \<Rightarrow> ''pending_identity_review'')"

definition assurance_text :: "assurance \<Rightarrow> string" where
  "assurance_text a =
     (case a of SelfClaimed \<Rightarrow> ''self_claimed'' | AdminVerified \<Rightarrow> ''admin_verified'' | NodeVerified \<Rightarrow> ''node_verified'')"

definition binding_status_text :: "binding_status \<Rightarrow> string" where
  "binding_status_text s = (case s of BActive \<Rightarrow> ''active'' | BRevoked \<Rightarrow> ''revoked'' | BReassigned \<Rightarrow> ''reassigned'')"

definition VALID_ROLES :: "(string, role) dict" where
  "VALID_ROLES = map (\<lambda>r. (role_text r, r)) [Viewer, Member, Admin]"

definition VALID_USER_STATUSES :: "(string, user_status) dict" where
  "VALID_USER_STATUSES = map (\<lambda>s. (user_status_text s, s)) [UActive, UDisabled, UPending]"

datatype lab_error =
    IntegrityError
  | LastAdminError
  | BindingConflictError
  | LabStoreError string
  | LabValueError string

type_synonym 'a lab = "lab_error + 'a"

record lab_user =
  lu_access_issuer :: string
  lu_access_subject :: string
  lu_email :: string
  lu_email_normalized :: string
  lu_display_name :: "string option"
  lu_role :: role
  lu_status :: user_status
  lu_created_at :: rat
  lu_updated_at :: rat
  lu_last_login_at :: rat
  lu_onboarding_completed_at :: "rat option"

record binding =
  lb_user_id :: string
  lb_node_id :: string
  lb_unix_uid :: int
  lb_unix_gid :: "int option"
  lb_unix_username :: string
  lb_assurance :: assurance
  lb_status :: binding_status
  lb_valid_from :: rat
  lb_valid_to :: "rat option"
  lb_created_by :: string
  lb_ended_by :: "string option"
  lb_reason :: "string option"

record audit_event =
  ae_id :: nat
  ae_occurred_at :: rat
  ae_actor_user_id :: "string option"
  ae_action :: string
  ae_target_type :: string
  ae_target_id :: "string option"
  ae_request_id :: string
  ae_details :: "(string, pyval) dict"

record lab_db =
  ld_users :: "(string, lab_user) dict"
  ld_bindings :: "(string, binding) dict"
  ld_audit :: "audit_event list"

definition empty_lab :: lab_db where
  "empty_lab = \<lparr>ld_users = [], ld_bindings = [], ld_audit = []\<rparr>"

subsection \<open>Statements\<close>

definition opt_text :: "string option \<Rightarrow> pyval" where
  "opt_text v = (case v of None \<Rightarrow> PNone | Some s \<Rightarrow> PStr s)"

definition user_exists :: "lab_db \<Rightarrow> string \<Rightarrow> bool" where
  "user_exists st u \<longleftrightarrow> has_key (ld_users st) u"

text \<open>A foreign key column that may be NULL.\<close>

definition user_ref :: "lab_db \<Rightarrow> string option \<Rightarrow> bool" where
  "user_ref st v = (case v of None \<Rightarrow> True | Some u \<Rightarrow> user_exists st u)"

definition audit_sql ::
    "string option \<Rightarrow> string \<Rightarrow> string \<Rightarrow> string option \<Rightarrow> string \<Rightarrow> (string, pyval) dict \<Rightarrow> rat \<Rightarrow> lab_db \<Rightarrow> lab_db lab" where
  "audit_sql actor action target_type target_id request_id details now st =
     (if \<not> user_ref st actor then Inl IntegrityError
      else Inr (st\<lparr>ld_audit := ld_audit st @
        [\<lparr>ae_id = length (ld_audit st) + 1, ae_occurred_at = now, ae_actor_user_id = actor, ae_action = action,
          ae_target_type = target_type, ae_target_id = target_id, ae_request_id = request_id, ae_details = details\<rparr>]\<rparr>))"

definition same_identity :: "string \<Rightarrow> string \<Rightarrow> lab_user \<Rightarrow> bool" where
  "same_identity issuer subject u \<longleftrightarrow> lu_access_issuer u = issuer \<and> lu_access_subject u = subject"

definition insert_user :: "string \<Rightarrow> lab_user \<Rightarrow> lab_db \<Rightarrow> lab_db lab" where
  "insert_user uid u st =
     (if user_exists st uid \<or>
         list_ex (same_identity (lu_access_issuer u) (lu_access_subject u)) (values_of (ld_users st))
      then Inl IntegrityError
      else Inr (st\<lparr>ld_users := ld_users st @ [(uid, u)]\<rparr>))"

text \<open>\<^verbatim>\<open>UPDATE lab_users SET ... WHERE id = ?\<close> without its identity columns, and with them.\<close>

definition update_user :: "string \<Rightarrow> (lab_user \<Rightarrow> lab_user) \<Rightarrow> lab_db \<Rightarrow> lab_db" where
  "update_user uid f st = st\<lparr>ld_users := map (\<lambda>(k, u). (k, if k = uid then f u else u)) (ld_users st)\<rparr>"

definition update_identity :: "string \<Rightarrow> string \<Rightarrow> string \<Rightarrow> (lab_user \<Rightarrow> lab_user) \<Rightarrow> lab_db \<Rightarrow> lab_db lab" where
  "update_identity uid issuer subject f st =
     (if list_ex (\<lambda>(k, u). k \<noteq> uid \<and> same_identity issuer subject u) (ld_users st) then Inl IntegrityError
      else Inr (update_user uid (\<lambda>u. (f u)\<lparr>lu_access_issuer := issuer, lu_access_subject := subject\<rparr>) st))"

definition open_binding :: "binding \<Rightarrow> bool" where
  "open_binding b \<longleftrightarrow> lb_valid_to b = None"

text \<open>The two partial unique indexes.\<close>

definition binding_conflict :: "string \<Rightarrow> string \<Rightarrow> int \<Rightarrow> binding \<Rightarrow> bool" where
  "binding_conflict user_id node_id unix_uid b \<longleftrightarrow>
     open_binding b \<and>
     (lb_user_id b = user_id \<and> lb_node_id b = node_id \<or> lb_node_id b = node_id \<and> lb_unix_uid b = unix_uid)"

definition insert_binding :: "string \<Rightarrow> binding \<Rightarrow> lab_db \<Rightarrow> lab_db lab" where
  "insert_binding bid b st =
     (if has_key (ld_bindings st) bid \<or> \<not> user_exists st (lb_user_id b) \<or> \<not> user_exists st (lb_created_by b) \<or>
         list_ex (binding_conflict (lb_user_id b) (lb_node_id b) (lb_unix_uid b)) (values_of (ld_bindings st))
      then Inl IntegrityError
      else Inr (st\<lparr>ld_bindings := ld_bindings st @ [(bid, b)]\<rparr>))"

text \<open>The update that ends bindings.\<close>

definition end_bindings ::
    "(string \<Rightarrow> binding \<Rightarrow> bool) \<Rightarrow> rat \<Rightarrow> string \<Rightarrow> binding_status \<Rightarrow> (binding \<Rightarrow> string option) \<Rightarrow> lab_db \<Rightarrow> lab_db lab" where
  "end_bindings P now actor status reason st =
     (if list_ex (\<lambda>(k, b). P k b) (ld_bindings st) \<and> \<not> user_exists st actor then Inl IntegrityError
      else Inr (st\<lparr>ld_bindings := map (\<lambda>(k, b). (k, if P k b
        then b\<lparr>lb_valid_to := Some now, lb_ended_by := Some actor, lb_status := status, lb_reason := reason b\<rparr>
        else b)) (ld_bindings st)\<rparr>))"

subsection \<open>Identities\<close>

definition normalize_email :: "string \<Rightarrow> string lab" where
  "normalize_email email =
     (let normalized = py_lower (py_strip email)
      in if normalized = [] \<or> CHR ''@'' \<notin> set normalized \<or> 320 < length normalized
         then Inl (LabValueError ''invalid email claim'') else Inr normalized)"

definition active_admin :: "lab_user \<Rightarrow> bool" where
  "active_admin u \<longleftrightarrow> lu_role u = Admin \<and> lu_status u = UActive"

definition resolve_identity ::
    "string \<Rightarrow> string \<Rightarrow> string \<Rightarrow> string \<Rightarrow> string \<Rightarrow> rat \<Rightarrow> string \<Rightarrow> lab_db \<Rightarrow> (lab_db \<times> string) lab" where
  "resolve_identity issuer subject email bootstrap_admin_email request_id now new_id st =
     rbind (normalize_email email) (\<lambda>normalized.
       case find (\<lambda>(k, u). same_identity issuer subject u) (ld_users st) of
         Some (uid, row) \<Rightarrow>
           if 300 \<le> now - lu_last_login_at row \<or> lu_email row \<noteq> email
           then Inr (update_user uid (\<lambda>u. u\<lparr>lu_email := email, lu_email_normalized := normalized,
                  lu_updated_at := now, lu_last_login_at := now\<rparr>) st, uid)
           else Inr (st, uid)
       | None \<Rightarrow>
           let conflict = list_ex (\<lambda>u. lu_email_normalized u = normalized) (values_of (ld_users st));
               admin_exists = list_ex active_admin (values_of (ld_users st))
           in rbind (normalize_email bootstrap_admin_email) (\<lambda>bootstrap.
                let role = (if normalized = bootstrap \<and> \<not> admin_exists then Admin else Member);
                    status = (if conflict then UPending else UActive)
                in rbind (insert_user new_id
                     \<lparr>lu_access_issuer = issuer, lu_access_subject = subject, lu_email = email,
                      lu_email_normalized = normalized, lu_display_name = None, lu_role = role, lu_status = status,
                      lu_created_at = now, lu_updated_at = now, lu_last_login_at = now,
                      lu_onboarding_completed_at = None\<rparr> st) (\<lambda>st1.
                   rbind (audit_sql (Some new_id) ''user.created'' ''user'' (Some new_id) request_id
                     [(''role'', PStr (role_text role)), (''status'', PStr (user_status_text status))] now st1) (\<lambda>st2.
                   Inr (st2, new_id)))))"

subsection \<open>Reading\<close>

definition list_bindings ::
    "string option \<Rightarrow> bool \<Rightarrow> lab_db \<Rightarrow> (string \<times> binding \<times> string \<times> string option) list" where
  "list_bindings user_id active_only st =
     sort_desc (\<lambda>(_, b, _). lb_valid_from b)
       (List.map_filter (\<lambda>(k, b).
          if (case user_id of None \<Rightarrow> True | Some u \<Rightarrow> lb_user_id b = u) \<and> (active_only \<longrightarrow> open_binding b)
          then map_option (\<lambda>u. (k, b, lu_email u, lu_display_name u)) (map_of (ld_users st) (lb_user_id b))
          else None) (ld_bindings st))"

definition user_with_bindings ::
    "string \<Rightarrow> lab_db \<Rightarrow> (lab_user \<times> (string \<times> binding \<times> string \<times> string option) list) option" where
  "user_with_bindings user_id st =
     map_option (\<lambda>u. (u, list_bindings (Some user_id) False st)) (map_of (ld_users st) user_id)"

definition can_bind :: "string \<Rightarrow> string \<Rightarrow> int \<Rightarrow> lab_db \<Rightarrow> bool" where
  "can_bind user_id node_id unix_uid st \<longleftrightarrow>
     \<not> list_ex (binding_conflict user_id node_id unix_uid) (values_of (ld_bindings st))"

text \<open>SQLite's \<^verbatim>\<open>LIKE\<close>: \<^verbatim>\<open>%\<close> and \<^verbatim>\<open>_\<close> are wildcards, ASCII letters compare without case.\<close>

definition ascii_lower :: "char \<Rightarrow> char" where
  "ascii_lower c = (let n = of_char c :: nat in if 65 \<le> n \<and> n \<le> 90 then char_of (n + 32) else c)"

fun sql_like :: "string \<Rightarrow> string \<Rightarrow> bool" where
  "sql_like [] s = (s = [])"
| "sql_like (p # ps) [] = (p = CHR ''%'' \<and> sql_like ps [])"
| "sql_like (p # ps) (c # s) =
     (if p = CHR ''%'' then sql_like ps (c # s) \<or> sql_like (p # ps) s
      else (p = CHR ''_'' \<or> ascii_lower p = ascii_lower c) \<and> sql_like ps s)"

definition list_users :: "string option \<Rightarrow> lab_db \<Rightarrow> (string \<times> lab_user \<times> nat) list" where
  "list_users query st =
     sort_key (\<lambda>(_, u, _). lu_created_at u)
       (map (\<lambda>(k, u). (k, u, length (filter (\<lambda>b. lb_user_id b = k \<and> open_binding b) (values_of (ld_bindings st)))))
         (filter (\<lambda>(k, u). case query of
              None \<Rightarrow> True
            | Some q \<Rightarrow> q = [] \<or>
                (let needle = ''%'' @ py_lower (py_strip q) @ ''%''
                 in sql_like needle (lu_email_normalized u) \<or>
                    (case lu_display_name u of None \<Rightarrow> False | Some n \<Rightarrow> sql_like needle n))) (ld_users st)))"

definition list_audit_events :: "int \<Rightarrow> int \<Rightarrow> lab_db \<Rightarrow> (audit_event \<times> string option) list" where
  "list_audit_events limit skip st =
     map (\<lambda>e. (e, Option.bind (ae_actor_user_id e) (\<lambda>a. map_option lu_email (map_of (ld_users st) a))))
       (take (nat (max 1 (min limit 500))) (drop (nat (max 0 skip)) (sort_desc ae_id (ld_audit st))))"

subsection \<open>Profiles\<close>

type_synonym user_view = "lab_user \<times> (string \<times> binding \<times> string \<times> string option) list"

definition view_of :: "string \<Rightarrow> lab_db \<Rightarrow> (lab_db \<times> user_view) lab" where
  "view_of user_id st =
     (case user_with_bindings user_id st of
        None \<Rightarrow> Inl (LabStoreError ''user not found'')
      | Some v \<Rightarrow> Inr (st, v))"

definition update_profile :: "string \<Rightarrow> string option \<Rightarrow> rat \<Rightarrow> lab_db \<Rightarrow> (lab_db \<times> user_view) lab" where
  "update_profile user_id display_name now st =
     (let name = (case display_name of None \<Rightarrow> None | Some n \<Rightarrow> if n = [] then None else Some (py_strip n))
      in if (case name of None \<Rightarrow> False | Some n \<Rightarrow> 80 < length n) then Inl (LabValueError ''display name is too long'')
         else view_of user_id (update_user user_id (\<lambda>u. u\<lparr>lu_display_name := name, lu_updated_at := now\<rparr>) st))"

definition choose_readonly :: "string \<Rightarrow> string \<Rightarrow> rat \<Rightarrow> lab_db \<Rightarrow> (lab_db \<times> user_view option) lab" where
  "choose_readonly user_id request_id now st =
     (case map_of (ld_users st) user_id of
        Some u \<Rightarrow>
          if lu_role u = Member \<and> lu_status u = UActive \<and> lu_onboarding_completed_at u = None \<and>
             \<not> list_ex (\<lambda>b. lb_user_id b = user_id) (values_of (ld_bindings st))
          then rbind (audit_sql (Some user_id) ''user.readonly_selected'' ''user'' (Some user_id) request_id [] now
                 (update_user user_id (\<lambda>u. u\<lparr>lu_role := Viewer, lu_onboarding_completed_at := Some now,
                    lu_updated_at := now\<rparr>) st)) (\<lambda>st1. Inr (st1, user_with_bindings user_id st1))
          else Inl (LabValueError ''readonly_onboarding_unavailable'')
      | None \<Rightarrow> Inl (LabValueError ''readonly_onboarding_unavailable''))"

subsection \<open>Bindings\<close>

record account =
  ac_node_id :: string
  ac_uid :: int
  ac_gid :: "int option"
  ac_canonical_username :: string

definition new_binding ::
    "string \<Rightarrow> account \<Rightarrow> assurance \<Rightarrow> string \<Rightarrow> string option \<Rightarrow> rat \<Rightarrow> binding" where
  "new_binding user_id account assurance actor reason now =
     \<lparr>lb_user_id = user_id, lb_node_id = ac_node_id account, lb_unix_uid = ac_uid account, lb_unix_gid = ac_gid account,
      lb_unix_username = ac_canonical_username account, lb_assurance = assurance, lb_status = BActive,
      lb_valid_from = now, lb_valid_to = None, lb_created_by = actor, lb_ended_by = None, lb_reason = reason\<rparr>"

text \<open>The insertion of a binding and its entry in the log; both methods that create bindings do this.\<close>

definition create_binding ::
    "string \<Rightarrow> string \<Rightarrow> account \<Rightarrow> assurance \<Rightarrow> string \<Rightarrow> string option \<Rightarrow> string \<Rightarrow> rat \<Rightarrow> lab_db \<Rightarrow> lab_db lab" where
  "create_binding bid user_id account assurance actor reason request_id now st =
     rbind (insert_binding bid (new_binding user_id account assurance actor reason now) st)
       (audit_sql (Some actor) ''binding.created'' ''binding'' (Some bid) request_id
          [(''user_id'', PStr user_id), (''node_id'', PStr (ac_node_id account)), (''unix_uid'', PInt (ac_uid account)),
           (''assurance'', PStr (assurance_text assurance)), (''reason'', opt_text reason)] now)"

fun create_all ::
    "string \<Rightarrow> assurance \<Rightarrow> string \<Rightarrow> string option \<Rightarrow> string \<Rightarrow> rat \<Rightarrow> (string \<times> account) list \<Rightarrow> lab_db \<Rightarrow> lab_db lab" where
  "create_all user_id assurance actor reason request_id now [] st = Inr st"
| "create_all user_id assurance actor reason request_id now ((bid, account) # rest) st =
     rbind (create_binding bid user_id account assurance actor reason request_id now st)
       (create_all user_id assurance actor reason request_id now rest)"

text \<open>\<^verbatim>\<open>except sqlite3.IntegrityError: raise BindingConflictError\<close>.\<close>

definition as_conflict :: "'a lab \<Rightarrow> 'a lab" where
  "as_conflict r = (case r of Inl IntegrityError \<Rightarrow> Inl BindingConflictError | _ \<Rightarrow> r)"

definition create_bindings ::
    "string \<Rightarrow> (string \<times> account) list \<Rightarrow> string \<Rightarrow> string \<Rightarrow> assurance \<Rightarrow> string option \<Rightarrow> rat \<Rightarrow> lab_db
      \<Rightarrow> (lab_db \<times> (string \<times> binding \<times> string \<times> string option) list) lab" where
  "create_bindings user_id accounts actor request_id assurance reason now st =
     rbind (as_conflict (
       rbind (create_all user_id assurance actor reason request_id now accounts st) (\<lambda>st1.
         case map_of (ld_users st1) user_id of
           Some u \<Rightarrow>
             if lu_onboarding_completed_at u = None
             then audit_sql (Some actor) ''user.onboarding_completed'' ''user'' (Some user_id) request_id
                    [(''binding_count'', PInt (int (length accounts)))] now
                    (update_user user_id (\<lambda>u. u\<lparr>lu_onboarding_completed_at := Some now, lu_updated_at := now\<rparr>) st1)
             else Inr st1
         | None \<Rightarrow> Inr st1))) (\<lambda>st2.
     Inr (st2, filter (\<lambda>(k, _). k \<in> set (map fst accounts)) (list_bindings (Some user_id) True st2)))"

definition end_binding ::
    "string \<Rightarrow> string \<Rightarrow> string option \<Rightarrow> string \<Rightarrow> binding_status \<Rightarrow> string option \<Rightarrow> rat \<Rightarrow> lab_db \<Rightarrow> (lab_db \<times> bool) lab" where
  "end_binding bid actor owner request_id status reason now st =
     (case map_of (ld_bindings st) bid of
        Some b \<Rightarrow>
          if open_binding b \<and> (case owner of None \<Rightarrow> True | Some u \<Rightarrow> lb_user_id b = u)
          then rbind (end_bindings (\<lambda>k _. k = bid) now actor status
                        (\<lambda>b. case reason of None \<Rightarrow> lb_reason b | Some r \<Rightarrow> Some r) st) (\<lambda>st1.
               rbind (audit_sql (Some actor) ''binding.ended'' ''binding'' (Some bid) request_id
                        [(''status'', PStr (binding_status_text status)), (''reason'', opt_text reason)] now st1) (\<lambda>st2.
               Inr (st2, True)))
          else Inr (st, False)
      | None \<Rightarrow> Inr (st, False))"

definition verify_binding :: "string \<Rightarrow> string \<Rightarrow> string \<Rightarrow> rat \<Rightarrow> lab_db \<Rightarrow> (lab_db \<times> binding option) lab" where
  "verify_binding bid actor request_id now st =
     (case map_of (ld_bindings st) bid of
        Some b \<Rightarrow>
          if open_binding b
          then rbind (audit_sql (Some actor) ''binding.verified'' ''binding'' (Some bid) request_id
                        [(''assurance'', PStr (assurance_text AdminVerified))] now
                        (st\<lparr>ld_bindings := map (\<lambda>(k, b). (k, if k = bid then b\<lparr>lb_assurance := AdminVerified\<rparr> else b))
                           (ld_bindings st)\<rparr>)) (\<lambda>st1.
               Inr (st1, map_of (ld_bindings st1) bid))
          else Inr (st, None)
      | None \<Rightarrow> Inr (st, None))"

fun reassign_each :: "string \<Rightarrow> string \<Rightarrow> string \<Rightarrow> string \<Rightarrow> rat \<Rightarrow> string list \<Rightarrow> lab_db \<Rightarrow> lab_db lab" where
  "reassign_each new_id actor reason request_id now [] st = Inr st"
| "reassign_each new_id actor reason request_id now (bid # rest) st =
     rbind (end_bindings (\<lambda>k _. k = bid) now actor BReassigned (\<lambda>_. Some reason) st) (\<lambda>st1.
     rbind (audit_sql (Some actor) ''binding.reassigned'' ''binding'' (Some bid) request_id
              [(''replacement_binding_id'', PStr new_id), (''reason'', PStr reason)] now st1)
       (reassign_each new_id actor reason request_id now rest))"

definition reassign_binding ::
    "string \<Rightarrow> string \<Rightarrow> account \<Rightarrow> string \<Rightarrow> string \<Rightarrow> string \<Rightarrow> rat \<Rightarrow> lab_db \<Rightarrow> (lab_db \<times> binding option) lab" where
  "reassign_binding new_id user_id account actor request_id reason0 now st =
     (let reason = py_strip reason0
      in if reason = [] then Inl (LabValueError ''reason is required'')
         else as_conflict
           (if (case map_of (ld_users st) user_id of None \<Rightarrow> True | Some u \<Rightarrow> lu_status u \<noteq> UActive)
            then Inl (LabStoreError ''target user is not active'')
            else let replaced = map fst (filter (\<lambda>(k, b). binding_conflict user_id (ac_node_id account) (ac_uid account) b)
                       (ld_bindings st))
                 in rbind (reassign_each new_id actor reason request_id now replaced st) (\<lambda>st1.
                    rbind (create_binding new_id user_id account AdminVerified actor (Some reason) request_id now st1) (\<lambda>st2.
                    Inr (st2, map_of (ld_bindings st2) new_id)))))"

subsection \<open>Administration\<close>

fun audit_ended :: "string \<Rightarrow> string \<Rightarrow> rat \<Rightarrow> string list \<Rightarrow> lab_db \<Rightarrow> lab_db lab" where
  "audit_ended actor request_id now [] st = Inr st"
| "audit_ended actor request_id now (bid # rest) st =
     rbind (audit_sql (Some actor) ''binding.ended'' ''binding'' (Some bid) request_id
              [(''status'', PStr ''revoked''), (''reason'', PStr ''user disabled'')] now st)
       (audit_ended actor request_id now rest)"

definition end_user_bindings :: "string \<Rightarrow> string \<Rightarrow> string \<Rightarrow> rat \<Rightarrow> lab_db \<Rightarrow> lab_db lab" where
  "end_user_bindings user_id actor request_id now st =
     (let P = (\<lambda>k b. lb_user_id b = user_id \<and> open_binding b);
          active_bindings = map fst (filter (\<lambda>(k, b). P k b) (ld_bindings st))
      in rbind (end_bindings P now actor BRevoked (\<lambda>_. Some ''user disabled'') st)
           (audit_ended actor request_id now active_bindings))"

definition admin_update_user ::
    "string \<Rightarrow> string \<Rightarrow> string \<Rightarrow> string option \<Rightarrow> string option \<Rightarrow> string option \<Rightarrow> rat \<Rightarrow> lab_db
      \<Rightarrow> (lab_db \<times> user_view) lab" where
  "admin_update_user user_id actor request_id role status display_name now st =
     (if (case role of None \<Rightarrow> False | Some r \<Rightarrow> \<not> has_key VALID_ROLES r) then Inl (LabValueError ''invalid role'')
      else if (case status of None \<Rightarrow> False | Some s \<Rightarrow> \<not> has_key VALID_USER_STATUSES s)
      then Inl (LabValueError ''invalid status'')
      else case map_of (ld_users st) user_id of
          None \<Rightarrow> Inl (LabStoreError ''user not found'')
        | Some current \<Rightarrow>
            let next_role = (case Option.bind role (map_of VALID_ROLES) of None \<Rightarrow> lu_role current | Some r \<Rightarrow> r);
                next_status = (case Option.bind status (map_of VALID_USER_STATUSES) of None \<Rightarrow> lu_status current | Some s \<Rightarrow> s);
                removes_active_admin = (active_admin current \<and> (next_role \<noteq> Admin \<or> next_status \<noteq> UActive));
                next_name = (case display_name of Some n \<Rightarrow> Some (py_strip n) | None \<Rightarrow> lu_display_name current)
            in if removes_active_admin \<and> length (filter active_admin (values_of (ld_users st))) \<le> 1 then Inl LastAdminError
               else rbind (audit_sql (Some actor) ''user.updated'' ''user'' (Some user_id) request_id
                       [(''role'', PStr (role_text next_role)), (''status'', PStr (user_status_text next_status))] now
                       (update_user user_id (\<lambda>u. u\<lparr>lu_role := next_role, lu_status := next_status,
                          lu_display_name := (if next_name = Some [] then None else next_name), lu_updated_at := now\<rparr>) st)) (\<lambda>st1.
                    rbind (if next_status \<noteq> UActive then end_user_bindings user_id actor request_id now st1 else Inr st1)
                      (view_of user_id)))"

definition migrate_identity ::
    "string \<Rightarrow> string \<Rightarrow> string \<Rightarrow> string \<Rightarrow> string \<Rightarrow> rat \<Rightarrow> lab_db \<Rightarrow> (lab_db \<times> user_view) lab" where
  "migrate_identity user_id pending_user_id actor request_id reason now st =
     (if py_strip reason = [] then Inl (LabValueError ''reason is required'')
      else case (map_of (ld_users st) user_id, map_of (ld_users st) pending_user_id) of
          (Some target, Some pending) \<Rightarrow>
            if lu_status pending \<noteq> UPending \<or> lu_email_normalized target \<noteq> lu_email_normalized pending
            then Inl (LabValueError ''identity migration candidates do not match'')
            else
              rbind (update_identity pending_user_id (''migrated:'' @ pending_user_id) (lu_access_subject pending)
                       (\<lambda>u. u\<lparr>lu_status := UDisabled, lu_updated_at := now\<rparr>) st) (\<lambda>st1.
              rbind (update_identity user_id (lu_access_issuer pending) (lu_access_subject pending)
                       (\<lambda>u. u\<lparr>lu_email := lu_email pending, lu_email_normalized := lu_email_normalized pending,
                          lu_updated_at := now, lu_last_login_at := lu_last_login_at pending\<rparr>) st1) (\<lambda>st2.
              rbind (audit_sql (Some actor) ''identity.migrated'' ''user'' (Some user_id) request_id
                       [(''pending_user_id'', PStr pending_user_id), (''reason'', PStr (py_strip reason))] now st2)
                (view_of user_id)))
        | _ \<Rightarrow> Inl (LabStoreError ''user not found''))"

subsection \<open>The invariant of the tables\<close>

text \<open>A transaction at the time \<open>now\<close>; an operation that fails changes nothing and is no step.\<close>

inductive lab_step :: "rat \<Rightarrow> lab_db \<Rightarrow> lab_db \<Rightarrow> bool" for now where
  resolve: "resolve_identity issuer subject email bootstrap request_id now new_id st = Inr (st', uid) \<Longrightarrow> lab_step now st st'"
| profile: "update_profile user_id name now st = Inr (st', v) \<Longrightarrow> lab_step now st st'"
| readonly: "choose_readonly user_id request_id now st = Inr (st', vo) \<Longrightarrow> lab_step now st st'"
| create: "create_bindings user_id accounts actor request_id assurance reason now st = Inr (st', bs) \<Longrightarrow> lab_step now st st'"
| end_one: "end_binding bid actor owner request_id status reason now st = Inr (st', ended) \<Longrightarrow> status \<noteq> BActive \<Longrightarrow>
    lab_step now st st'"
| verify: "verify_binding bid actor request_id now st = Inr (st', bo) \<Longrightarrow> lab_step now st st'"
| reassign: "reassign_binding new_id user_id account actor request_id why now st = Inr (st', bo) \<Longrightarrow> lab_step now st st'"
| admin: "admin_update_user user_id actor request_id role status name now st = Inr (st', v) \<Longrightarrow> lab_step now st st'"
| migrate: "migrate_identity user_id pending_id actor request_id why now st = Inr (st', v) \<Longrightarrow> lab_step now st st'"
| log: "audit_sql actr action target_type target_id request_id details now st = Inr st' \<Longrightarrow> lab_step now st st'"

inductive lab_reachable :: "rat \<Rightarrow> lab_db \<Rightarrow> bool" where
  start: "lab_reachable now empty_lab"
| tick: "lab_reachable now st \<Longrightarrow> now \<le> later \<Longrightarrow> lab_reachable later st"
| step: "lab_reachable now st \<Longrightarrow> lab_step now st st' \<Longrightarrow> lab_reachable now st'"

definition users_ok :: "lab_db \<Rightarrow> bool" where
  "users_ok st \<longleftrightarrow> dict_ok (ld_users st) \<and>
     distinct (map (\<lambda>u. (lu_access_issuer u, lu_access_subject u)) (values_of (ld_users st)))"

definition span_ok :: "rat \<Rightarrow> binding \<Rightarrow> bool" where
  "span_ok now b \<longleftrightarrow> (lb_status b = BActive \<longleftrightarrow> open_binding b) \<and> lb_valid_from b \<le> now \<and>
     (\<forall>t. lb_valid_to b = Some t \<longrightarrow> lb_valid_from b \<le> t \<and> t \<le> now)"

text \<open>Two bindings of one account, or of one user on one node, and the end of one before the other.\<close>

definition rivals :: "binding \<Rightarrow> binding \<Rightarrow> bool" where
  "rivals b c \<longleftrightarrow> lb_node_id b = lb_node_id c \<and> (lb_unix_uid b = lb_unix_uid c \<or> lb_user_id b = lb_user_id c)"

definition ends_before :: "binding \<Rightarrow> binding \<Rightarrow> bool" where
  "ends_before b c \<longleftrightarrow> (\<exists>t. lb_valid_to b = Some t \<and> t \<le> lb_valid_from c)"

definition bindings_ok :: "rat \<Rightarrow> (string, binding) dict \<Rightarrow> bool" where
  "bindings_ok now d \<longleftrightarrow> dict_ok d \<and> (\<forall>k b. map_of d k = Some b \<longrightarrow> span_ok now b) \<and>
     (\<forall>k b k' b'. map_of d k = Some b \<longrightarrow> map_of d k' = Some b' \<longrightarrow> k \<noteq> k' \<longrightarrow> rivals b b' \<longrightarrow>
        ends_before b b' \<or> ends_before b' b)"

definition refs_ok :: "lab_db \<Rightarrow> bool" where
  "refs_ok st \<longleftrightarrow>
     (\<forall>(k, b) \<in> set (ld_bindings st). user_exists st (lb_user_id b) \<and> user_exists st (lb_created_by b) \<and>
        user_ref st (lb_ended_by b)) \<and>
     (\<forall>e \<in> set (ld_audit st). user_ref st (ae_actor_user_id e))"

definition lab_ok :: "rat \<Rightarrow> lab_db \<Rightarrow> bool" where
  "lab_ok now st \<longleftrightarrow> users_ok st \<and> bindings_ok now (ld_bindings st) \<and> refs_ok st \<and>
     map ae_id (ld_audit st) = [1..<length (ld_audit st) + 1]"

lemma map_of_map_keyed: "map_of (map (\<lambda>(k, v). (k, g k v)) d) k = map_option (g k) (map_of d k)"
  by (induction d) auto

lemma keys_map_keyed [simp]: "map fst (map (\<lambda>(k, v). (k, g k v)) d) = map fst d"
  by (induction d) auto

lemma dict_ok_map_keyed [simp]: "dict_ok (map (\<lambda>(k, v). (k, g k v)) d) = dict_ok d"
  unfolding dict_ok_def keys_map_keyed ..

lemma map_of_snoc: "\<not> has_key d k \<Longrightarrow> map_of (d @ [(k, v)]) = (map_of d)(k \<mapsto> v)"
  by (rule ext) (auto simp: has_key_def map_add_def split: option.splits)

lemma dict_ok_snoc: "dict_ok d \<Longrightarrow> \<not> has_key d k \<Longrightarrow> dict_ok (d @ [(k, v)])"
  by (auto simp: dict_ok_def has_key_iff)

lemma user_exists_update [simp]: "user_exists (update_user uid f st) = user_exists st"
  by (rule ext) (simp add: user_exists_def update_user_def has_key_def map_of_map_keyed)

lemma update_user_simps [simp]:
  "ld_bindings (update_user uid f st) = ld_bindings st" "ld_audit (update_user uid f st) = ld_audit st"
  by (simp_all add: update_user_def)

lemma user_ref_cong: "user_exists st = user_exists st' \<Longrightarrow> user_ref st = user_ref st'"
  by (rule ext) (simp add: user_ref_def split: option.splits)

lemma user_exists_users: "ld_users st = ld_users st' \<Longrightarrow> user_exists st = user_exists st'"
  by (rule ext) (simp add: user_exists_def)

lemma lab_ok_empty: "lab_ok now empty_lab"
  by (simp add: lab_ok_def empty_lab_def users_ok_def bindings_ok_def refs_ok_def values_of_def)

lemma lab_ok_later: "lab_ok now st \<Longrightarrow> now \<le> later \<Longrightarrow> lab_ok later st"
  unfolding lab_ok_def bindings_ok_def span_ok_def by (meson order_trans)

subsection \<open>What a statement keeps\<close>

lemma audit_sqlD:
  assumes "audit_sql actor action tt ti rid details now st = Inr st'"
  shows "ld_users st' = ld_users st" "ld_bindings st' = ld_bindings st" "user_ref st actor"
    "\<exists>e. ld_audit st' = ld_audit st @ [e] \<and> ae_id e = length (ld_audit st) + 1 \<and> ae_occurred_at e = now \<and>
       ae_actor_user_id e = actor \<and> ae_action e = action \<and> ae_target_id e = ti"
  using assms by (auto simp: audit_sql_def split: if_splits)

lemma audit_sql_ok:
  assumes "lab_ok now st" "audit_sql actor action tt ti rid details when st = Inr st'"
  shows "lab_ok now st'"
proof -
  note d = audit_sqlD[OF assms(2)]
  have u: "user_exists st' = user_exists st" using d(1) by (rule user_exists_users)
  obtain e where e: "ld_audit st' = ld_audit st @ [e]" "ae_id e = length (ld_audit st) + 1" "ae_actor_user_id e = actor"
    using d(4) by blast
  show ?thesis
    using assms(1) d(3) unfolding lab_ok_def users_ok_def refs_ok_def d(1,2) e(1) u user_ref_cong[OF u]
    by (simp add: e)
qed

lemma insert_user_ok:
  assumes "lab_ok now st" "insert_user uid u st = Inr st'"
  shows "lab_ok now st'"
proof -
  have n: "\<not> user_exists st uid" "list_all (\<lambda>v. \<not> same_identity (lu_access_issuer u) (lu_access_subject u) v) (values_of (ld_users st))"
    and st': "st' = st\<lparr>ld_users := ld_users st @ [(uid, u)]\<rparr>"
    using assms(2) by (auto simp: insert_user_def list_all_iff list_ex_iff split: if_splits)
  have more: "user_exists st v \<Longrightarrow> user_exists st' v" for v
    by (auto simp: st' user_exists_def has_key_iff)
  then have "user_ref st v \<Longrightarrow> user_ref st' v" for v by (auto simp: user_ref_def split: option.splits)
  with more have "refs_ok st'" using assms(1) unfolding lab_ok_def refs_ok_def by (fastforce simp: st')
  moreover have "users_ok st'"
    using assms(1) n by (auto simp: lab_ok_def users_ok_def st' dict_ok_snoc user_exists_def values_of_def list_all_iff same_identity_def)
  ultimately show ?thesis using assms(1) by (simp add: lab_ok_def st')
qed

lemma update_user_ok:
  assumes "lab_ok now st" "\<And>u. lu_access_issuer (f u) = lu_access_issuer u" "\<And>u. lu_access_subject (f u) = lu_access_subject u"
  shows "lab_ok now (update_user uid f st)"
proof -
  have "map (\<lambda>u. (lu_access_issuer u, lu_access_subject u)) (values_of (ld_users (update_user uid f st))) =
      map (\<lambda>u. (lu_access_issuer u, lu_access_subject u)) (values_of (ld_users st))"
    using assms(2,3) by (auto simp: update_user_def values_of_def)
  then have "users_ok (update_user uid f st)" using assms(1) by (simp add: lab_ok_def users_ok_def) (simp add: update_user_def)
  then show ?thesis
    using assms(1) by (simp add: lab_ok_def refs_ok_def user_ref_cong[OF user_exists_update])
qed

lemma update_identity_ok:
  assumes "lab_ok now st" "update_identity uid issuer subject f st = Inr st'"
  shows "lab_ok now st'"
proof -
  let ?id = "\<lambda>u. (lu_access_issuer u, lu_access_subject u)"
  define g where "g = (\<lambda>u. (f u)\<lparr>lu_access_issuer := issuer, lu_access_subject := subject\<rparr>)"
  have st': "st' = update_user uid g st"
    and n: "list_all (\<lambda>(k, u). k = uid \<or> ?id u \<noteq> (issuer, subject)) (ld_users st)"
    using assms(2) by (auto simp: update_identity_def g_def list_ex_iff list_all_iff same_identity_def split: if_splits)
  have d: "dict_ok (ld_users st)" "distinct (map (\<lambda>(k, u). ?id u) (ld_users st))"
    using assms(1) by (simp_all add: lab_ok_def users_ok_def values_of_def comp_def case_prod_unfold)
  define h where "h = (\<lambda>(k, u). ?id (if k = uid then g u else u))"
  have "distinct (map h d)"
    if "dict_ok d" "distinct (map (\<lambda>(k, u). ?id u) d)" "list_all (\<lambda>(k, u). k = uid \<or> ?id u \<noteq> (issuer, subject)) d" for d
    using that
  proof (induction d)
    case (Cons ku d)
    obtain k u where ku: "ku = (k, u)" by (cases ku)
    have sub: "set (map h d) \<subseteq> insert (issuer, subject) (set (map (\<lambda>(k, u). ?id u) d))"
    proof
      fix x assume "x \<in> set (map h d)"
      then obtain k u where "(k, u) \<in> set d" "x = h (k, u)" by auto
      then show "x \<in> insert (issuer, subject) (set (map (\<lambda>(k, u). ?id u) d))"
        by (cases "k = uid") (force simp: h_def g_def)+
    qed
    have "map h d = map (\<lambda>(k, u). ?id u) d" "(issuer, subject) \<notin> set (map (\<lambda>(k, u). ?id u) d)" if "k = uid"
      using Cons.prems(1,3) that by (force simp: ku dict_ok_def h_def list_all_iff)+
    moreover have "h ku \<notin> insert (issuer, subject) (set (map (\<lambda>(k, u). ?id u) d))" if "k \<noteq> uid"
      using Cons.prems(2,3) that by (simp add: ku h_def)
    moreover have "h ku = (issuer, subject)" if "k = uid" using that by (simp add: ku h_def g_def)
    ultimately have "h ku \<notin> set (map h d)" using sub by (cases "k = uid") (metis, blast)
    then show ?case using Cons by (simp add: ku dict_ok_def)
  qed simp
  from this[OF d n] have "users_ok st'" if "dict_ok (ld_users st')"
    using that by (simp add: users_ok_def st' update_user_def values_of_def comp_def case_prod_unfold h_def)
  moreover have "dict_ok (ld_users st')" using d(1) by (simp add: st' update_user_def)
  ultimately have "users_ok st'" by blast
  then show ?thesis
    using assms(1) by (simp add: lab_ok_def refs_ok_def st' user_ref_cong[OF user_exists_update])
qed

lemma refs_ok_bindings:
  assumes "refs_ok st" "st' = st\<lparr>ld_bindings := d\<rparr>"
    and "\<And>k b. (k, b) \<in> set d \<Longrightarrow> user_exists st (lb_user_id b) \<and> user_exists st (lb_created_by b) \<and> user_ref st (lb_ended_by b)"
  shows "refs_ok st'"
proof -
  have "user_exists st' = user_exists st" by (rule user_exists_users) (simp add: assms(2))
  then show ?thesis
    using assms(1,3) by (auto simp: refs_ok_def assms(2) user_ref_cong[of st' st, unfolded assms(2)])
qed

lemma insert_binding_ok:
  assumes "lab_ok now st" "insert_binding bid b st = Inr st'"
    and b: "lb_status b = BActive" "lb_valid_from b = now" "lb_valid_to b = None" "lb_ended_by b = None"
  shows "lab_ok now st'"
proof -
  have n: "\<not> has_key (ld_bindings st) bid" "user_exists st (lb_user_id b)" "user_exists st (lb_created_by b)"
    "list_all (\<lambda>c. \<not> binding_conflict (lb_user_id b) (lb_node_id b) (lb_unix_uid b) c) (values_of (ld_bindings st))"
    and st': "st' = st\<lparr>ld_bindings := ld_bindings st @ [(bid, b)]\<rparr>"
    using assms(2) by (auto simp: insert_binding_def list_ex_iff list_all_iff split: if_splits)
  have ok: "bindings_ok now (ld_bindings st)" using assms(1) by (simp add: lab_ok_def)
  have ends: "ends_before c b" if "map_of (ld_bindings st) k = Some c" "rivals b c" for k c
  proof -
    have "c \<in> set (values_of (ld_bindings st))" using that(1) by (force simp: values_of_def dest: map_of_SomeD)
    then have "\<not> open_binding c" using n(4) that(2) by (auto simp: list_all_iff binding_conflict_def rivals_def)
    then show ?thesis using ok that(1) b(2) by (auto simp: open_binding_def ends_before_def bindings_ok_def span_ok_def)
  qed
  have sym: "rivals c b \<Longrightarrow> rivals b c" for c by (auto simp: rivals_def)
  have "span_ok now b" using b by (simp add: span_ok_def open_binding_def)
  moreover have m: "map_of (ld_bindings st') = (map_of (ld_bindings st))(bid \<mapsto> b)"
    using map_of_snoc[OF n(1)] by (simp add: st' del: map_of_append)
  moreover have "dict_ok (ld_bindings st')"
    using ok n(1) by (simp add: st' bindings_ok_def dict_ok_snoc)
  ultimately have "bindings_ok now (ld_bindings st')"
    using ok ends sym unfolding bindings_ok_def m by (simp split: if_splits)
  moreover have "refs_ok st'"
    using assms(1) n(2,3) b(4) by (intro refs_ok_bindings[OF _ st']) (auto simp: lab_ok_def refs_ok_def user_ref_def)
  ultimately show ?thesis using assms(1) by (simp add: lab_ok_def users_ok_def st')
qed

lemma end_bindings_ok:
  assumes "lab_ok now st" "end_bindings P now actor status reason st = Inr st'" "status \<noteq> BActive"
    and "\<And>k b. map_of (ld_bindings st) k = Some b \<Longrightarrow> P k b \<Longrightarrow> open_binding b"
  shows "lab_ok now st'"
proof -
  define g where "g = (\<lambda>k b. if P k b
    then b\<lparr>lb_valid_to := Some now, lb_ended_by := Some actor, lb_status := status, lb_reason := reason b\<rparr> else b)"
  have st': "st' = st\<lparr>ld_bindings := map (\<lambda>(k, b). (k, g k b)) (ld_bindings st)\<rparr>"
    using assms(2) by (auto simp: end_bindings_def g_def split: if_splits)
  have actor: "user_exists st actor" if "(k, b) \<in> set (ld_bindings st)" "P k b" for k b
    using assms(2) that by (auto simp: end_bindings_def list_ex_iff split: if_splits)
  have ok: "bindings_ok now (ld_bindings st)" using assms(1) by (simp add: lab_ok_def)
  have g: "lb_node_id (g k b) = lb_node_id b" "lb_unix_uid (g k b) = lb_unix_uid b" "lb_user_id (g k b) = lb_user_id b"
    "lb_valid_from (g k b) = lb_valid_from b" "lb_created_by (g k b) = lb_created_by b" for k b by (simp_all add: g_def)
  have span: "span_ok now (g k b)" if "map_of (ld_bindings st) k = Some b" for k b
    using ok that assms(3) by (auto simp: bindings_ok_def g_def span_ok_def open_binding_def)
  have "ends_before (g k b) (g k' c)" if "map_of (ld_bindings st) k = Some b" "ends_before b c" for k b k' c
    using that assms(4) by (auto simp: ends_before_def g_def open_binding_def)
  moreover have "rivals (g k b) (g k' c) = rivals b c" for k b k' c by (simp add: rivals_def g)
  moreover have "map_of (ld_bindings st') k = map_option (g k) (map_of (ld_bindings st) k)" for k
    by (simp add: st' map_of_map_keyed)
  moreover have "dict_ok (ld_bindings st')" using ok by (simp add: st' bindings_ok_def)
  ultimately have "bindings_ok now (ld_bindings st')"
    using ok span unfolding bindings_ok_def by (simp add: map_option_eq_Some) blast
  moreover have "refs_ok st'"
    using assms(1) actor by (intro refs_ok_bindings[OF _ st']) (auto simp: lab_ok_def refs_ok_def user_ref_def g_def)
  ultimately show ?thesis using assms(1) by (simp add: lab_ok_def users_ok_def st')
qed

subsection \<open>Operations keep the invariant\<close>

lemma as_conflict_Inr [simp]: "as_conflict r = Inr x \<longleftrightarrow> r = Inr x"
  by (auto simp: as_conflict_def split: sum.splits lab_error.splits)

lemma view_of_Inr: "view_of uid st = Inr (st', v) \<Longrightarrow> st' = st"
  by (auto simp: view_of_def split: option.splits)

lemma resolve_identity_ok:
  assumes "lab_ok now st" "resolve_identity issuer subject email bootstrap rid now nid st = Inr (st', uid)"
  shows "lab_ok now st'"
proof (cases "find (\<lambda>(k, u). same_identity issuer subject u) (ld_users st)")
  case None
  then show ?thesis
    using assms by (auto simp: resolve_identity_def rbind_Inr_iff Let_def intro: insert_user_ok audit_sql_ok)
next
  case (Some ku)
  obtain k u where "ku = (k, u)" by (cases ku)
  then show ?thesis
    using assms Some by (auto simp: resolve_identity_def rbind_Inr_iff split: if_splits intro: update_user_ok)
qed

lemma update_profile_ok:
  "lab_ok now st \<Longrightarrow> update_profile uid name now st = Inr (st', v) \<Longrightarrow> lab_ok now st'"
  by (auto simp: update_profile_def Let_def split: if_splits dest!: view_of_Inr intro: update_user_ok)

lemma choose_readonly_ok:
  "lab_ok now st \<Longrightarrow> choose_readonly uid rid now st = Inr (st', v) \<Longrightarrow> lab_ok now st'"
  by (auto simp: choose_readonly_def rbind_Inr_iff split: option.splits if_splits
      intro: update_user_ok elim!: audit_sql_ok[rotated])

lemma create_binding_ok:
  assumes "lab_ok now st" "create_binding bid uid acc ass actor reason rid now st = Inr st'"
  shows "lab_ok now st'"
proof -
  obtain st1 where a: "insert_binding bid (new_binding uid acc ass actor reason now) st = Inr st1"
    and b: "audit_sql (Some actor) ''binding.created'' ''binding'' (Some bid) rid
      [(''user_id'', PStr uid), (''node_id'', PStr (ac_node_id acc)), (''unix_uid'', PInt (ac_uid acc)),
       (''assurance'', PStr (assurance_text ass)), (''reason'', opt_text reason)] now st1 = Inr st'"
    using assms(2) by (auto simp: create_binding_def rbind_Inr_iff)
  have "lab_ok now st1" using assms(1) a by (rule insert_binding_ok) (simp_all add: new_binding_def)
  then show ?thesis using b by (rule audit_sql_ok)
qed

lemma create_all_ok:
  "create_all uid ass actor reason rid now accs st = Inr st' \<Longrightarrow> lab_ok now st \<Longrightarrow> lab_ok now st'"
proof (induction accs arbitrary: st)
  case (Cons ba accs)
  then show ?case by (cases ba) (auto simp: rbind_Inr_iff intro: create_binding_ok)
qed simp

lemma create_bindings_ok:
  assumes "lab_ok now st" "create_bindings uid accs actor rid ass reason now st = Inr (st', bs)"
  shows "lab_ok now st'"
proof -
  obtain st1 where c: "create_all uid ass actor reason rid now accs st = Inr st1"
    using assms(2) by (auto simp: create_bindings_def rbind_Inr_iff)
  have ok: "lab_ok now st1" by (rule create_all_ok[OF c assms(1)])
  show ?thesis
    using assms(2) c by (cases "map_of (ld_users st1) uid")
      (use ok in \<open>auto simp: create_bindings_def rbind_Inr_iff split: if_splits intro: update_user_ok[OF ok] elim!: audit_sql_ok[rotated]\<close>)
qed

lemma end_binding_ok:
  "lab_ok now st \<Longrightarrow> end_binding bid actor owner rid status reason now st = Inr (st', e) \<Longrightarrow> status \<noteq> BActive \<Longrightarrow> lab_ok now st'"
  by (auto simp: end_binding_def rbind_Inr_iff split: option.splits if_splits
      intro: end_bindings_ok elim!: audit_sql_ok[rotated])

lemma verify_binding_ok:
  assumes "lab_ok now st" "verify_binding bid actor rid now st = Inr (st', bo)"
  shows "lab_ok now st'"
proof -
  define g :: "string \<Rightarrow> binding \<Rightarrow> binding"
    where "g = (\<lambda>k b. if k = bid then b\<lparr>lb_assurance := AdminVerified\<rparr> else b)"
  let ?st = "st\<lparr>ld_bindings := map (\<lambda>(k, b). (k, g k b)) (ld_bindings st)\<rparr>"
  have g: "span_ok now (g k b) = span_ok now b" "rivals (g k b) (g k' c) = rivals b c"
    "ends_before (g k b) (g k' c) = ends_before b c" "lb_user_id (g k b) = lb_user_id b"
    "lb_created_by (g k b) = lb_created_by b" "lb_ended_by (g k b) = lb_ended_by b" for k b k' c
    by (simp_all add: g_def span_ok_def open_binding_def rivals_def ends_before_def)
  have "bindings_ok now (ld_bindings ?st)"
    using assms(1) unfolding lab_ok_def bindings_ok_def by (auto simp: map_of_map_keyed g map_option_eq_Some) metis
  moreover have "refs_ok ?st"
    using assms(1) by (intro refs_ok_bindings[OF _ refl]) (auto simp: lab_ok_def refs_ok_def g)
  ultimately have "lab_ok now ?st" using assms(1) by (simp add: lab_ok_def users_ok_def)
  then show ?thesis
    using assms by (auto simp: verify_binding_def rbind_Inr_iff g_def split: option.splits if_splits
        elim!: audit_sql_ok[rotated])
qed

lemma end_bindings_other:
  assumes "end_bindings P now actor status reason st = Inr st'" "\<not> P k b" "map_of (ld_bindings st) k = Some b"
  shows "map_of (ld_bindings st') k = Some b"
  using assms by (auto simp: end_bindings_def map_of_map_keyed split: if_splits)

lemma reassign_each_ok:
  "reassign_each nid actor reason rid now ids st = Inr st' \<Longrightarrow> lab_ok now st \<Longrightarrow> distinct ids \<Longrightarrow>
   \<forall>i \<in> set ids. \<exists>b. map_of (ld_bindings st) i = Some b \<and> open_binding b \<Longrightarrow> lab_ok now st'"
proof (induction ids arbitrary: st)
  case (Cons i ids)
  from Cons.prems(1) obtain st1 st2 where a: "end_bindings (\<lambda>k _. k = i) now actor BReassigned (\<lambda>_. Some reason) st = Inr st1"
    and b: "audit_sql (Some actor) ''binding.reassigned'' ''binding'' (Some i) rid
              [(''replacement_binding_id'', PStr nid), (''reason'', PStr reason)] now st1 = Inr st2"
    and c: "reassign_each nid actor reason rid now ids st2 = Inr st'" by (auto simp: rbind_Inr_iff)
  have "lab_ok now st1" using Cons.prems(2,4) by (intro end_bindings_ok[OF _ a]) auto
  then have "lab_ok now st2" using b by (rule audit_sql_ok)
  moreover have "\<forall>j \<in> set ids. \<exists>b. map_of (ld_bindings st2) j = Some b \<and> open_binding b"
    using Cons.prems(3,4) end_bindings_other[OF a] audit_sqlD(2)[OF b] by (metis distinct.simps(2) list.set_intros(2))
  ultimately show ?case using Cons.IH[OF c] Cons.prems(3) by simp
qed simp

lemma chosen_keys:
  assumes "dict_ok d"
  shows "distinct (map fst (filter (\<lambda>(k, b). P k b) d))"
    "\<forall>i \<in> set (map fst (filter (\<lambda>(k, b). P k b) d)). \<exists>b. map_of d i = Some b \<and> P i b"
  using assms by (auto simp: dict_ok_def distinct_map_filter)

lemma reassign_binding_ok:
  assumes "lab_ok now st" "reassign_binding nid uid acc actor rid why now st = Inr (st', bo)"
  shows "lab_ok now st'"
proof -
  let ?P = "\<lambda>k. binding_conflict uid (ac_node_id acc) (ac_uid acc)"
  obtain st1 where a: "reassign_each nid actor (py_strip why) rid now (map fst (filter (\<lambda>(k, b). ?P k b) (ld_bindings st))) st = Inr st1"
    and b: "create_binding nid uid acc AdminVerified actor (Some (py_strip why)) rid now st1 = Inr st'"
    using assms(2) by (auto simp: reassign_binding_def Let_def rbind_Inr_iff split: if_splits option.splits)
  have d: "dict_ok (ld_bindings st)" using assms(1) by (simp add: lab_ok_def bindings_ok_def)
  have "lab_ok now st1"
    using chosen_keys[OF d, of ?P] by (intro reassign_each_ok[OF a assms(1)]) (auto simp: binding_conflict_def)
  then show ?thesis using b by (rule create_binding_ok)
qed

lemma audit_ended_ok: "audit_ended actor rid now ids st = Inr st' \<Longrightarrow> lab_ok now st \<Longrightarrow> lab_ok now st'"
  by (induction ids arbitrary: st) (auto simp: rbind_Inr_iff dest: audit_sql_ok)

lemma end_user_bindings_ok:
  "lab_ok now st \<Longrightarrow> end_user_bindings uid actor rid now st = Inr st' \<Longrightarrow> lab_ok now st'"
  by (auto simp: end_user_bindings_def Let_def rbind_Inr_iff intro: end_bindings_ok elim!: audit_ended_ok)

lemma admin_update_user_ok:
  "lab_ok now st \<Longrightarrow> admin_update_user uid actor rid role status name now st = Inr (st', v) \<Longrightarrow> lab_ok now st'"
  by (auto simp: admin_update_user_def Let_def rbind_Inr_iff split: if_splits option.splits
      dest!: view_of_Inr intro: update_user_ok elim!: audit_sql_ok[rotated] end_user_bindings_ok[rotated])

lemma migrate_identity_ok:
  "lab_ok now st \<Longrightarrow> migrate_identity uid pid actor rid why now st = Inr (st', v) \<Longrightarrow> lab_ok now st'"
  by (auto simp: migrate_identity_def rbind_Inr_iff split: if_splits option.splits
      dest!: view_of_Inr) (drule (1) update_identity_ok, drule (1) update_identity_ok, erule (1) audit_sql_ok)

lemma lab_step_ok: "lab_step now st st' \<Longrightarrow> lab_ok now st \<Longrightarrow> lab_ok now st'"
  by (induction rule: lab_step.induct)
     (blast intro: resolve_identity_ok update_profile_ok choose_readonly_ok create_bindings_ok end_binding_ok
        verify_binding_ok reassign_binding_ok admin_update_user_ok migrate_identity_ok audit_sql_ok)+

end
