(* ===== verification/LabProps.thy ===== *)
theory LabProps
  imports LabStore
begin

text \<open>
  What the transactions of the lab promise: an account has at most one owner at any time, an active
  administrator always remains, and reassigning an account never fails halfway.
\<close>

subsection \<open>One owner at a time\<close>

definition covers :: "rat \<Rightarrow> binding \<Rightarrow> bool" where
  "covers t b \<longleftrightarrow> lb_valid_from b \<le> t \<and> (case lb_valid_to b of None \<Rightarrow> True | Some e \<Rightarrow> t < e)"

definition owners_at :: "string \<Rightarrow> int \<Rightarrow> rat \<Rightarrow> lab_db \<Rightarrow> string list" where
  "owners_at node_id unix_uid t st =
     map (lb_user_id \<circ> snd) (filter (\<lambda>(k, b). lb_node_id b = node_id \<and> lb_unix_uid b = unix_uid \<and> covers t b) (ld_bindings st))"

lemma lab_reachable_ok: "lab_reachable now st \<Longrightarrow> lab_ok now st"
  by (induction rule: lab_reachable.induct) (auto intro: lab_ok_empty lab_ok_later lab_step_ok)

lemma covers_unique:
  assumes "bindings_ok now d" "map_of d k = Some b" "map_of d k' = Some c" "rivals b c" "covers t b" "covers t c"
  shows "k = k'"
proof (rule ccontr)
  assume "k \<noteq> k'"
  then have "ends_before b c \<or> ends_before c b" using assms(1-4) unfolding bindings_ok_def by blast
  then show False using assms(5,6) by (auto simp: ends_before_def covers_def)
qed

lemma filter_at_most_one:
  assumes "dict_ok d" "\<And>k b k' c. map_of d k = Some b \<Longrightarrow> map_of d k' = Some c \<Longrightarrow> P b \<Longrightarrow> P c \<Longrightarrow> k = k'"
  shows "length (filter (\<lambda>(k, b). P b) d) \<le> 1"
proof (rule ccontr)
  let ?f = "filter (\<lambda>(k, b). P b) d"
  assume "\<not> length ?f \<le> 1"
  then obtain x y zs where f: "?f = x # y # zs" by (cases ?f; cases "List.tl ?f") auto
  have "x \<in> set ?f" "y \<in> set ?f" by (simp_all add: f)
  then have "map_of d (fst x) = Some (snd x)" "P (snd x)" "map_of d (fst y) = Some (snd y)" "P (snd y)"
    using assms(1) by (auto simp: dict_ok_def)
  then have "fst x = fst y" using assms(2) by blast
  moreover have "distinct (map fst ?f)" using assms(1) by (simp add: dict_ok_def distinct_map_filter)
  ultimately show False by (simp add: f)
qed

lemma one_owner:
  assumes "lab_reachable now st"
  shows "length (owners_at node_id unix_uid t st) \<le> 1"
proof -
  have ok: "lab_ok now st" using assms by (rule lab_reachable_ok)
  then have d: "dict_ok (ld_bindings st)" by (simp add: lab_ok_def bindings_ok_def)
  let ?P = "\<lambda>b. lb_node_id b = node_id \<and> lb_unix_uid b = unix_uid \<and> covers t b"
  have "length (filter (\<lambda>(k, b). ?P b) (ld_bindings st)) \<le> 1"
  proof (rule filter_at_most_one[OF d])
    fix k b k' c assume "map_of (ld_bindings st) k = Some b" "map_of (ld_bindings st) k' = Some c" "?P b" "?P c"
    then show "k = k'" using covers_unique[of now "ld_bindings st" k b k' c t] ok by (simp add: lab_ok_def rivals_def)
  qed
  then show ?thesis by (simp add: owners_at_def)
qed

text \<open>
  C1: whatever the users and administrators do, with a clock that does not run backwards, the tables
  stay consistent (identities are unique, every reference exists, the status of a binding is active
  exactly while it has no end, the log is numbered without gaps) and at every time, past or present,
  a Unix account of a node belongs to at most one user.
\<close>

theorem account_has_one_owner:
  assumes "lab_reachable now st"
  shows "lab_ok now st \<and> length (owners_at node_id unix_uid t st) \<le> 1"
  using assms one_owner lab_reachable_ok by blast

definition some_user :: "string \<Rightarrow> role \<Rightarrow> lab_user" where
  "some_user name r = \<lparr>lu_access_issuer = ''i'', lu_access_subject = name, lu_email = name @ ''@x'', lu_email_normalized = name @ ''@x'',
     lu_display_name = None, lu_role = r, lu_status = UActive, lu_created_at = 1, lu_updated_at = 1, lu_last_login_at = 1,
     lu_onboarding_completed_at = None\<rparr>"

definition first_login :: "lab_db lab" where
  "first_login = rbind (resolve_identity ''i'' ''a'' ''a@x'' ''a@x'' ''r'' 1 ''ua'' empty_lab) (\<lambda>(st, _). Inr st)"

definition two_users :: "lab_db lab" where
  "two_users = rbind first_login (\<lambda>st1.
     rbind (resolve_identity ''i'' ''b'' ''b@x'' ''a@x'' ''r'' 1 ''ub'' st1) (\<lambda>(st2, _). Inr st2))"

definition acc7 :: account where
  "acc7 = \<lparr>ac_node_id = ''n'', ac_uid = 1007, ac_gid = None, ac_canonical_username = ''joe''\<rparr>"

definition one_binding :: "lab_db lab" where
  "one_binding = rbind two_users (\<lambda>st2.
     rbind (create_bindings ''ub'' [(''k1'', acc7)] ''ub'' ''r'' SelfClaimed None 2 st2) (\<lambda>(st3, _). Inr st3))"

lemma two_users_reachable: "two_users = Inr st \<Longrightarrow> lab_reachable 1 st"
  unfolding two_users_def first_login_def rbind_Inr_iff
  by (auto intro: lab_reachable.step[OF lab_reachable.start] lab_reachable.step lab_step.resolve)

lemma one_binding_reachable:
  assumes "one_binding = Inr st" shows "lab_reachable 2 st"
proof -
  obtain st2 where a: "two_users = Inr st2"
    and "rbind (create_bindings ''ub'' [(''k1'', acc7)] ''ub'' ''r'' SelfClaimed None 2 st2) (\<lambda>(st3, _). Inr st3) = Inr st"
    using assms unfolding one_binding_def rbind_Inr_iff by blast
  then obtain bs where b: "create_bindings ''ub'' [(''k1'', acc7)] ''ub'' ''r'' SelfClaimed None 2 st2 = Inr (st, bs)"
    unfolding rbind_Inr_iff by (metis (mono_tags, lifting) case_prod_unfold prod.collapse sum.inject(2))
  have "lab_reachable 2 st2" using two_users_reachable[OF a] by (rule lab_reachable.tick) simp
  then show ?thesis using lab_step.create[OF b] by (rule lab_reachable.step)
qed

lemma one_binding_owner: "\<exists>st. one_binding = Inr st \<and> owners_at ''n'' 1007 5 st = [''ub'']"
proof -
  have "is_ok one_binding" by code_simp
  then obtain st where st: "one_binding = Inr st" unfolding is_ok_iff by blast
  have "rbind one_binding (\<lambda>st. Inr (owners_at ''n'' 1007 5 st)) = Inr [''ub'']" by code_simp
  then show ?thesis unfolding st by simp
qed

theorem account_has_one_owner_witness:
  "\<exists>st. one_binding = Inr st \<and> length (owners_at ''n'' 1007 5 st) \<le> 1 \<and> owners_at ''n'' 1007 5 st = [''ub'']"
  using one_binding_owner account_has_one_owner[OF one_binding_reachable] by blast

subsection \<open>An administrator remains\<close>

definition has_admin :: "lab_db \<Rightarrow> bool" where
  "has_admin st \<longleftrightarrow> list_ex active_admin (values_of (ld_users st))"

lemma has_admin_iff: "has_admin st \<longleftrightarrow> (\<exists>k u. (k, u) \<in> set (ld_users st) \<and> active_admin u)"
  by (force simp: has_admin_def list_ex_iff values_of_def)

lemma has_admin_users: "ld_users st' = ld_users st \<Longrightarrow> has_admin st' = has_admin st"
  by (simp add: has_admin_def)

lemma has_admin_audit: "audit_sql a ac tt ti rid details t st = Inr st' \<Longrightarrow> has_admin st' = has_admin st"
  by (rule has_admin_users) (rule audit_sqlD(1))

lemma has_admin_update:
  assumes "has_admin st" "\<And>u. map_of (ld_users st) uid = Some u \<Longrightarrow> active_admin u \<Longrightarrow> active_admin (f u)" "dict_ok (ld_users st)"
  shows "has_admin (update_user uid f st)"
proof -
  obtain k u where ku: "(k, u) \<in> set (ld_users st)" "active_admin u" using assms(1) by (auto simp: has_admin_iff)
  have "active_admin (if k = uid then f u else u)" using ku assms(2,3) by (auto simp: dict_ok_map_of)
  moreover have "(k, if k = uid then f u else u) \<in> set (ld_users (update_user uid f st))"
    using ku(1) by (force simp: update_user_def)
  ultimately show ?thesis by (auto simp: has_admin_iff)
qed

lemma end_bindings_users: "end_bindings P t actor status reason st = Inr st' \<Longrightarrow> ld_users st' = ld_users st"
  by (auto simp: end_bindings_def split: if_splits)

lemma insert_binding_users: "insert_binding bid b st = Inr st' \<Longrightarrow> ld_users st' = ld_users st"
  by (auto simp: insert_binding_def split: if_splits)

lemma create_binding_users: "create_binding bid uid acc ass actor reason rid t st = Inr st' \<Longrightarrow> ld_users st' = ld_users st"
  by (auto simp: create_binding_def rbind_Inr_iff dest!: insert_binding_users audit_sqlD(1))

lemma create_all_users: "create_all uid ass actor reason rid t accs st = Inr st' \<Longrightarrow> ld_users st' = ld_users st"
  by (induction accs arbitrary: st) (auto simp: rbind_Inr_iff dest!: create_binding_users)

lemma reassign_each_users: "reassign_each nid actor reason rid t ids st = Inr st' \<Longrightarrow> ld_users st' = ld_users st"
  by (induction ids arbitrary: st) (auto simp: rbind_Inr_iff dest!: end_bindings_users audit_sqlD(1))

lemma audit_ended_users: "audit_ended actor rid t ids st = Inr st' \<Longrightarrow> ld_users st' = ld_users st"
  by (induction ids arbitrary: st) (auto simp: rbind_Inr_iff dest!: audit_sqlD(1))

lemma end_user_bindings_users: "end_user_bindings uid actor rid t st = Inr st' \<Longrightarrow> ld_users st' = ld_users st"
  by (auto simp: end_user_bindings_def Let_def rbind_Inr_iff dest!: end_bindings_users audit_ended_users)

lemma another_admin:
  assumes "dict_ok (ld_users st)" "1 < length (filter active_admin (values_of (ld_users st)))"
  shows "\<exists>k u. (k, u) \<in> set (ld_users st) \<and> k \<noteq> uid \<and> active_admin u"
proof (rule ccontr)
  assume n: "\<not> ?thesis"
  have "length (filter (\<lambda>(k, u). active_admin u) (ld_users st)) \<le> 1"
    using n assms(1) by (intro filter_at_most_one) (auto simp: dict_ok_map_of)
  moreover have "length (filter active_admin (values_of (ld_users st))) = length (filter (\<lambda>(k, u). active_admin u) (ld_users st))"
    by (simp add: values_of_def filter_map comp_def case_prod_unfold)
  ultimately show False using assms(2) by simp
qed

lemma admin_update_keeps_admin:
  assumes "dict_ok (ld_users st)" "has_admin st" "admin_update_user uid actor rid role status name now st = Inr (st', v)"
  shows "has_admin st'"
proof -
  obtain current where c: "map_of (ld_users st) uid = Some current"
    using assms(3) by (auto simp: admin_update_user_def split: if_splits option.splits)
  define r where "r = (case Option.bind role (map_of VALID_ROLES) of None \<Rightarrow> lu_role current | Some r \<Rightarrow> r)"
  define s where "s = (case Option.bind status (map_of VALID_USER_STATUSES) of None \<Rightarrow> lu_status current | Some s \<Rightarrow> s)"
  define f where "f = (\<lambda>n (u :: lab_user). u\<lparr>lu_role := r, lu_status := s, lu_display_name := n, lu_updated_at := now\<rparr>)"
  obtain n where users: "ld_users st' = ld_users (update_user uid (f n) st)"
    and guard: "\<not> (active_admin current \<and> (r \<noteq> Admin \<or> s \<noteq> UActive) \<and> length (filter active_admin (values_of (ld_users st))) \<le> 1)"
    using assms(3) unfolding admin_update_user_def c option.case Let_def r_def[symmetric] s_def[symmetric] f_def
    by (auto simp: rbind_Inr_iff split: if_splits dest!: view_of_Inr audit_sqlD(1) end_user_bindings_users)
  have "has_admin (update_user uid (f n) st)"
  proof (cases "active_admin current \<and> (r \<noteq> Admin \<or> s \<noteq> UActive)")
    case True
    with guard obtain k u where "(k, u) \<in> set (ld_users st)" "k \<noteq> uid" "active_admin u"
      using another_admin[OF assms(1)] by (meson not_le)
    then show ?thesis by (force simp: has_admin_iff update_user_def)
  next
    case False
    then show ?thesis using c assms(1,2) by (intro has_admin_update) (auto simp: f_def active_admin_def)
  qed
  then show ?thesis using users has_admin_users by blast
qed

lemma migrate_keeps_admin:
  assumes "dict_ok (ld_users st)" "has_admin st" "migrate_identity uid pid actor rid why now st = Inr (st', v)"
  shows "has_admin st'"
proof -
  obtain pending st1 st2 st3 f g where p: "map_of (ld_users st) pid = Some pending" "lu_status pending = UPending"
    and a: "update_identity pid (''migrated:'' @ pid) (lu_access_subject pending) f st = Inr st1"
    and b: "update_identity uid (lu_access_issuer pending) (lu_access_subject pending) g st1 = Inr st2"
    and g: "\<And>u. lu_role (g u) = lu_role u \<and> lu_status (g u) = lu_status u"
    and c: "ld_users st' = ld_users st2"
    using assms(3) by (auto simp: migrate_identity_def rbind_Inr_iff split: if_splits option.splits
        dest!: view_of_Inr audit_sqlD(1))
  have "has_admin st1"
    using a assms(1,2) p by (auto simp: update_identity_def active_admin_def split: if_splits intro!: has_admin_update)
  moreover have "dict_ok (ld_users st1)" using a assms(1) by (auto simp: update_identity_def update_user_def split: if_splits)
  ultimately have "has_admin st2"
    using b g by (auto simp: update_identity_def active_admin_def split: if_splits intro!: has_admin_update)
  then show ?thesis using c has_admin_users by blast
qed

lemma insert_user_admin: "has_admin st \<Longrightarrow> insert_user uid u st = Inr st' \<Longrightarrow> has_admin st'"
  by (auto simp: insert_user_def has_admin_def values_of_def split: if_splits)

lemma resolve_keeps_admin:
  assumes "dict_ok (ld_users st)" "has_admin st" "resolve_identity issuer subject email bootstrap rid now nid st = Inr (st', uid)"
  shows "has_admin st'"
proof (cases "find (\<lambda>(k, u). same_identity issuer subject u) (ld_users st)")
  case None
  then show ?thesis
    using assms(3) by (auto simp: resolve_identity_def rbind_Inr_iff Let_def has_admin_audit intro: insert_user_admin[OF assms(2)])
next
  case (Some ku)
  obtain k u where "ku = (k, u)" by (cases ku)
  then show ?thesis using assms Some
    by (auto simp: resolve_identity_def rbind_Inr_iff active_admin_def split: if_splits intro!: has_admin_update)
qed

lemma create_keeps_admin:
  assumes "dict_ok (ld_users st)" "has_admin st" "create_bindings uid accs actor rid ass reason now st = Inr (st', bs)"
  shows "has_admin st'"
proof -
  obtain st1 where c: "create_all uid ass actor reason rid now accs st = Inr st1"
    using assms(3) by (auto simp: create_bindings_def rbind_Inr_iff)
  have k: "has_admin st1" "dict_ok (ld_users st1)"
    using assms create_all_users[OF c] has_admin_users[OF create_all_users[OF c]] by simp_all
  have "has_admin (update_user uid (\<lambda>u. u\<lparr>lu_onboarding_completed_at := Some now, lu_updated_at := now\<rparr>) st1)"
    using k by (intro has_admin_update) (auto simp: active_admin_def)
  then show ?thesis
    using assms(3) c k(1) by (cases "map_of (ld_users st1) uid")
      (auto simp: create_bindings_def rbind_Inr_iff has_admin_audit split: if_splits)
qed

lemma binding_steps_users:
  "reassign_binding nid uid acc actor rid why now st = Inr (st', bo) \<Longrightarrow> ld_users st' = ld_users st"
  "end_binding bid actor owner rid status reason now st = Inr (st', e) \<Longrightarrow> ld_users st' = ld_users st"
  "verify_binding bid actor rid now st = Inr (st', bo) \<Longrightarrow> ld_users st' = ld_users st"
  by (auto simp: reassign_binding_def Let_def rbind_Inr_iff split: if_splits option.splits
        dest!: reassign_each_users create_binding_users)
     (auto simp: end_binding_def verify_binding_def rbind_Inr_iff split: if_splits option.splits
        dest!: end_bindings_users audit_sqlD(1))

lemma profile_keeps_admin:
  "dict_ok (ld_users st) \<Longrightarrow> has_admin st \<Longrightarrow> update_profile uid name now st = Inr (st', v) \<Longrightarrow> has_admin st'"
  by (auto simp: update_profile_def Let_def active_admin_def split: if_splits dest!: view_of_Inr intro!: has_admin_update)

lemma readonly_keeps_admin:
  "dict_ok (ld_users st) \<Longrightarrow> has_admin st \<Longrightarrow> choose_readonly uid rid now st = Inr (st', v) \<Longrightarrow> has_admin st'"
  by (auto simp: choose_readonly_def rbind_Inr_iff active_admin_def has_admin_audit split: if_splits option.splits
      intro!: has_admin_update)

text \<open>
  C35: the lab never loses its last administrator: from a reachable state with an active
  administrator every transaction leads to a state with an active administrator.
\<close>

theorem admin_remains:
  assumes "lab_reachable now st" "has_admin st" "lab_step now st st'"
  shows "has_admin st'"
proof -
  have "dict_ok (ld_users st)" using lab_reachable_ok[OF assms(1)] by (simp add: lab_ok_def users_ok_def)
  with assms(3,2) show ?thesis
    by (induction rule: lab_step.induct)
       (blast intro: resolve_keeps_admin create_keeps_admin profile_keeps_admin readonly_keeps_admin
          admin_update_keeps_admin migrate_keeps_admin has_admin_users[THEN iffD2] binding_steps_users has_admin_audit[THEN iffD2])+
qed

theorem admin_remains_witness:
  "\<exists>st. two_users = Inr st \<and> (\<forall>uid role status name st' v.
     admin_update_user uid ''ua'' ''r'' role status name 1 st = Inr (st', v) \<longrightarrow> has_admin st')"
proof -
  have "rbind two_users (\<lambda>st. Inr (has_admin st)) = Inr True" by code_simp
  then obtain st where st: "two_users = Inr st" "has_admin st" unfolding rbind_Inr_iff by auto
  then show ?thesis using admin_remains[OF two_users_reachable[OF st(1)] st(2)] lab_step.admin by blast
qed

subsection \<open>Reassigning an account\<close>

definition ended_copy :: "rat \<Rightarrow> string \<Rightarrow> binding_status \<Rightarrow> string \<Rightarrow> binding \<Rightarrow> binding" where
  "ended_copy now actor status reason b =
     b\<lparr>lb_valid_to := Some now, lb_ended_by := Some actor, lb_status := status, lb_reason := Some reason\<rparr>"

lemma not_open_ended [simp]: "\<not> open_binding (ended_copy now actor status reason b)"
  by (simp add: open_binding_def ended_copy_def)

lemma audit_sql_total: "user_exists st actor \<Longrightarrow> \<exists>st'. audit_sql (Some actor) action tt ti rid details now st = Inr st'"
  by (simp add: audit_sql_def user_ref_def)

lemma reassign_each_total:
  "user_exists st actor \<Longrightarrow> \<exists>st'. reassign_each nid actor reason rid now ids st = Inr st' \<and> ld_users st' = ld_users st \<and>
    (\<forall>k. map_of (ld_bindings st') k =
      map_option (\<lambda>b. if k \<in> set ids then ended_copy now actor BReassigned reason b else b) (map_of (ld_bindings st) k))"
proof (induction ids arbitrary: st)
  case Nil
  then show ?case by (simp add: option.map_ident)
next
  case (Cons i ids)
  obtain st1 where a: "end_bindings (\<lambda>k _. k = i) now actor BReassigned (\<lambda>_. Some reason) st = Inr st1"
    and u1: "ld_users st1 = ld_users st"
    and m1: "ld_bindings st1 = map (\<lambda>(k, b). (k, if k = i then ended_copy now actor BReassigned reason b else b)) (ld_bindings st)"
    using Cons.prems unfolding end_bindings_def ended_copy_def by simp
  have b1: "map_of (ld_bindings st1) k =
        map_option (\<lambda>b. if k = i then ended_copy now actor BReassigned reason b else b) (map_of (ld_bindings st) k)" for k
    unfolding m1 by (rule map_of_map_keyed)
  have e1: "user_exists st1 actor" using Cons.prems user_exists_users[OF u1] by simp
  obtain st2 where b: "audit_sql (Some actor) ''binding.reassigned'' ''binding'' (Some i) rid
      [(''replacement_binding_id'', PStr nid), (''reason'', PStr reason)] now st1 = Inr st2"
    using audit_sql_total[OF e1] by blast
  note d = audit_sqlD(1,2)[OF b]
  have "user_exists st2 actor" using e1 user_exists_users[OF d(1)] by simp
  from Cons.IH[OF this] obtain st' where c: "reassign_each nid actor reason rid now ids st2 = Inr st'"
    "ld_users st' = ld_users st2"
    "\<And>k. map_of (ld_bindings st') k =
        map_option (\<lambda>b. if k \<in> set ids then ended_copy now actor BReassigned reason b else b) (map_of (ld_bindings st2) k)" by blast
  have "map_of (ld_bindings st') k =
      map_option (\<lambda>b. if k \<in> set (i # ids) then ended_copy now actor BReassigned reason b else b) (map_of (ld_bindings st) k)" for k
    by (cases "map_of (ld_bindings st) k") (simp_all add: c(3) d b1 ended_copy_def)
  moreover have "reassign_each nid actor reason rid now (i # ids) st = Inr st'" by (simp add: a b c(1))
  moreover have "ld_users st' = ld_users st" by (simp add: c(2) d(1) u1)
  ultimately show ?case by blast
qed

text \<open>
  An administrator can always move an account: with a reason, an active target user and a fresh
  id, \<^verbatim>\<open>reassign_binding\<close> succeeds; the new binding is open and verified, exactly the open bindings of
  the account and of the user on the node are ended at the same moment, and no other binding changes.
\<close>

theorem reassign_binding_exact:
  assumes "lab_reachable now st" "map_of (ld_users st) uid = Some u" "lu_status u = UActive" "user_exists st actor"
    and "py_strip why \<noteq> []" "\<not> has_key (ld_bindings st) nid"
  shows "\<exists>st'. reassign_binding nid uid acc actor rid why now st =
      Inr (st', Some (new_binding uid acc AdminVerified actor (Some (py_strip why)) now)) \<and> ld_users st' = ld_users st \<and>
    map_of (ld_bindings st') = (\<lambda>k. map_option
        (\<lambda>b. if binding_conflict uid (ac_node_id acc) (ac_uid acc) b then ended_copy now actor BReassigned (py_strip why) b else b)
        (map_of (ld_bindings st) k))(nid \<mapsto> new_binding uid acc AdminVerified actor (Some (py_strip why)) now)"
proof -
  let ?P = "binding_conflict uid (ac_node_id acc) (ac_uid acc)"
  let ?ids = "map fst (filter (\<lambda>(k, b). ?P b) (ld_bindings st))"
  let ?new = "new_binding uid acc AdminVerified actor (Some (py_strip why)) now"
  have ok: "dict_ok (ld_bindings st)" using lab_reachable_ok[OF assms(1)] by (simp add: lab_ok_def bindings_ok_def)
  have ids: "k \<in> set ?ids \<longleftrightarrow> (\<exists>b. map_of (ld_bindings st) k = Some b \<and> ?P b)" for k
    using ok by (auto simp: dict_ok_map_of image_iff)
  obtain st1 where a: "reassign_each nid actor (py_strip why) rid now ?ids st = Inr st1" "ld_users st1 = ld_users st"
    and m: "\<And>k. map_of (ld_bindings st1) k =
        map_option (\<lambda>b. if k \<in> set ?ids then ended_copy now actor BReassigned (py_strip why) b else b) (map_of (ld_bindings st) k)"
    using reassign_each_total[OF assms(4)] by blast
  have m': "map_of (ld_bindings st1) k =
      map_option (\<lambda>b. if ?P b then ended_copy now actor BReassigned (py_strip why) b else b) (map_of (ld_bindings st) k)" for k
    unfolding m ids by (cases "map_of (ld_bindings st) k") auto
  have e: "user_exists st1 v = user_exists st v" for v using user_exists_users[OF a(2)] by simp
  have fresh: "\<not> has_key (ld_bindings st1) nid" using assms(6) by (simp add: has_key_def m')
  have "\<not> ?P b" if "map_of (ld_bindings st1) k = Some b" for k b
    using that unfolding m' by (auto simp: binding_conflict_def split: if_splits dest!: arg_cong[where f = open_binding])
  moreover have "dict_ok (ld_bindings st1)"
    using reassign_each_ok[OF a(1) lab_reachable_ok[OF assms(1)] chosen_keys(1)[OF ok]] ids
    by (force simp: lab_ok_def bindings_ok_def binding_conflict_def)
  ultimately have "\<not> list_ex ?P (values_of (ld_bindings st1))"
    by (auto simp: list_ex_iff values_of_def dict_ok_map_of)
  then have ins: "insert_binding nid ?new st1 = Inr (st1\<lparr>ld_bindings := ld_bindings st1 @ [(nid, ?new)]\<rparr>)"
    using fresh assms(2,4) by (simp add: insert_binding_def new_binding_def e) (simp add: user_exists_def has_key_def)
  obtain st2 where c: "create_binding nid uid acc AdminVerified actor (Some (py_strip why)) rid now st1 = Inr st2"
    "ld_users st2 = ld_users st1" "ld_bindings st2 = ld_bindings st1 @ [(nid, ?new)]"
    using e assms(4) unfolding create_binding_def ins by (simp add: audit_sql_def user_ref_def user_exists_def)
  have new: "map_of (ld_bindings st2) = (map_of (ld_bindings st1))(nid \<mapsto> ?new)"
    unfolding c(3) by (rule map_of_snoc[OF fresh])
  then have "map_of (ld_bindings st2) = (\<lambda>k. map_option (\<lambda>b. if ?P b then ended_copy now actor BReassigned (py_strip why) b else b)
      (map_of (ld_bindings st) k))(nid \<mapsto> ?new)"
    by (auto simp: m')
  moreover have "reassign_binding nid uid acc actor rid why now st = Inr (st2, Some ?new)"
    using assms(2,3,5) a(1) c(1) by (simp add: reassign_binding_def Let_def new)
  ultimately show ?thesis using c(2) a(2) by auto
qed

theorem reassign_binding_exact_witness:
  "\<exists>st st' b. one_binding = Inr st \<and> reassign_binding ''k2'' ''ua'' acc7 ''ua'' ''r'' ''moved'' 2 st = Inr (st', Some b) \<and>
     lb_user_id b = ''ua''"
proof -
  have "rbind one_binding (\<lambda>st. Inr (map_option lu_status (map_of (ld_users st) ''ua''), has_key (ld_bindings st) ''k2'')) =
      Inr (Some UActive, False)" by code_simp
  then obtain st u where st: "one_binding = Inr st" "map_of (ld_users st) ''ua'' = Some u" "lu_status u = UActive"
    "\<not> has_key (ld_bindings st) ''k2''" unfolding rbind_Inr_iff by auto
  have "py_strip ''moved'' \<noteq> []" by code_simp
  then show ?thesis
    using reassign_binding_exact[OF one_binding_reachable[OF st(1)] st(2,3) _ _ st(4), of "''ua''" "''moved''" acc7 "''r''"]
      st(1,2) by (auto simp: user_exists_def has_key_def new_binding_def)
qed

end
