(* ===== verification/LabAudit.thy ===== *)
theory LabAudit
  imports LabProps
begin

text \<open>
  The audit log of the lab names every binding and every role a transaction changes; and an example
  of what the store does not prevent, a binding for a user who has been disabled.
\<close>

subsection \<open>The log\<close>

text \<open>The rows that differ: bindings, and users whose role (or existence) changed.\<close>

definition changed_rows :: "lab_db \<Rightarrow> lab_db \<Rightarrow> (string \<times> string) set" where
  "changed_rows st st' =
     {(''binding'', k) |k. map_of (ld_bindings st') k \<noteq> map_of (ld_bindings st) k} \<union>
     {(''user'', k) |k. map_option lu_role (map_of (ld_users st') k) \<noteq> map_option lu_role (map_of (ld_users st) k)}"

definition targets :: "audit_event list \<Rightarrow> (string \<times> string) set" where
  "targets es = {(ae_target_type e, i) |e i. e \<in> set es \<and> ae_target_id e = Some i}"

text \<open>Only events were added to the log, and the changed rows are logged or in \<open>K\<close>.\<close>

definition logs_but :: "(string \<times> string) set \<Rightarrow> lab_db \<Rightarrow> lab_db \<Rightarrow> bool" where
  "logs_but K st st' \<longleftrightarrow> (\<exists>es. ld_audit st' = ld_audit st @ es \<and> changed_rows st st' \<subseteq> K \<union> targets es)"

lemma targets_append [simp]: "targets (es @ fs) = targets es \<union> targets fs"
  by (auto simp: targets_def)

lemma changed_rows_trans: "changed_rows st st2 \<subseteq> changed_rows st st1 \<union> changed_rows st1 st2"
  by (auto simp: changed_rows_def)

lemma logs_but_trans:
  assumes "logs_but K st st1" "logs_but L st1 st2" "K \<union> L \<subseteq> M" shows "logs_but M st st2"
proof -
  obtain es fs where "ld_audit st1 = ld_audit st @ es" "changed_rows st st1 \<subseteq> K \<union> targets es"
    "ld_audit st2 = ld_audit st1 @ fs" "changed_rows st1 st2 \<subseteq> L \<union> targets fs"
    using assms(1,2) by (auto simp: logs_but_def)
  then show ?thesis using changed_rows_trans[of st st2 st1] assms(3)
    unfolding logs_but_def by (intro exI[of _ "es @ fs"]) (simp, blast)
qed

lemma logs_but_refl: "logs_but K st st"
  unfolding logs_but_def by (intro exI[of _ "[]"]) (simp add: changed_rows_def)

lemma logs_but_audit:
  assumes "logs_but K st st1" "audit_sql actor action tt (Some i) rid details now st1 = Inr st2" "K \<subseteq> insert (tt, i) M"
  shows "logs_but M st st2"
proof -
  obtain e where e: "ld_audit st2 = ld_audit st1 @ [e]" "ae_target_type e = tt" "ae_target_id e = Some i"
    and same: "ld_users st2 = ld_users st1" "ld_bindings st2 = ld_bindings st1"
    using assms(2) by (auto simp: audit_sql_def split: if_splits)
  obtain es where es: "ld_audit st1 = ld_audit st @ es" "changed_rows st st1 \<subseteq> K \<union> targets es"
    using assms(1) by (auto simp: logs_but_def)
  have "changed_rows st st2 = changed_rows st st1" by (simp add: changed_rows_def same)
  moreover have "(tt, i) \<in> targets [e]" using e by (auto simp: targets_def)
  ultimately show ?thesis using es e(1) assms(3)
    unfolding logs_but_def by (intro exI[of _ "es @ [e]"]) (simp, blast)
qed

lemma logs_but_log: "audit_sql actor action tt ti rid details now st = Inr st' \<Longrightarrow> logs_but {} st st'"
  unfolding logs_but_def by (auto simp: audit_sql_def changed_rows_def split: if_splits)

lemma logs_but_same_audit:
  "ld_audit st' = ld_audit st \<Longrightarrow> changed_rows st st' \<subseteq> K \<Longrightarrow> logs_but K st st'"
  unfolding logs_but_def by (intro exI[of _ "[]"]) auto

lemma logs_but_user: "logs_but {(''user'', uid)} st (update_user uid f st)"
proof -
  have "map_of (ld_users (update_user uid f st)) k = map_of (ld_users st) k" if "k \<noteq> uid" for k
    using that by (cases "map_of (ld_users st) k") (simp_all add: update_user_def map_of_map_keyed)
  then show ?thesis by (intro logs_but_same_audit) (auto simp: changed_rows_def, metis)
qed

lemma logs_but_user_same:
  assumes "\<And>u. lu_role (f u) = lu_role u" shows "logs_but {} st (update_user uid f st)"
proof -
  have "map_option lu_role (map_of (ld_users (update_user uid f st)) k) = map_option lu_role (map_of (ld_users st) k)" for k
    using assms by (cases "map_of (ld_users st) k") (simp_all add: update_user_def map_of_map_keyed)
  then show ?thesis unfolding logs_but_def by (intro exI[of _ "[]"]) (simp add: changed_rows_def)
qed

lemma logs_but_insert_user: "insert_user uid u st = Inr st' \<Longrightarrow> logs_but {(''user'', uid)} st st'"
proof -
  assume a: "insert_user uid u st = Inr st'"
  then have "ld_bindings st' = ld_bindings st" "ld_audit st' = ld_audit st" "ld_users st' = ld_users st @ [(uid, u)]"
    "\<not> has_key (ld_users st) uid" by (auto simp: insert_user_def user_exists_def split: if_splits)
  moreover from this have "map_of (ld_users st') = (map_of (ld_users st))(uid \<mapsto> u)" by (metis map_of_snoc)
  ultimately show ?thesis by (intro logs_but_same_audit) (auto simp: changed_rows_def simp del: map_of_append)
qed

lemma logs_but_insert_binding: "insert_binding bid b st = Inr st' \<Longrightarrow> logs_but {(''binding'', bid)} st st'"
proof -
  assume a: "insert_binding bid b st = Inr st'"
  then have "ld_users st' = ld_users st" "ld_audit st' = ld_audit st" "ld_bindings st' = ld_bindings st @ [(bid, b)]"
    "\<not> has_key (ld_bindings st) bid" by (auto simp: insert_binding_def split: if_splits)
  moreover from this have "map_of (ld_bindings st') = (map_of (ld_bindings st))(bid \<mapsto> b)" by (metis map_of_snoc)
  ultimately show ?thesis by (intro logs_but_same_audit) (auto simp: changed_rows_def simp del: map_of_append)
qed

lemma logs_but_end:
  assumes "end_bindings P now actor status reason st = Inr st'"
    and "\<And>k b. map_of (ld_bindings st) k = Some b \<Longrightarrow> P k b \<Longrightarrow> (''binding'', k) \<in> K"
  shows "logs_but K st st'"
proof -
  have "map_of (ld_bindings st') k = map_of (ld_bindings st) k" if "(''binding'', k) \<notin> K" for k
    using assms that by (cases "map_of (ld_bindings st) k") (auto simp: end_bindings_def map_of_map_keyed split: if_splits)
  then have "changed_rows st st' \<subseteq> K"
    unfolding changed_rows_def end_bindings_users[OF assms(1)] by blast
  then show ?thesis using assms(1) by (intro logs_but_same_audit) (auto simp: end_bindings_def split: if_splits)
qed

lemma logs_create_binding: "create_binding bid uid acc ass actor reason rid now st = Inr st' \<Longrightarrow> logs_but {} st st'"
  by (auto simp: create_binding_def rbind_Inr_iff dest!: logs_but_insert_binding elim!: logs_but_audit)

lemma logs_create_all: "create_all uid ass actor reason rid now accs st = Inr st' \<Longrightarrow> logs_but {} st st'"
proof (induction accs arbitrary: st)
  case (Cons ba accs)
  then show ?case
    by (cases ba) (auto simp: rbind_Inr_iff dest!: logs_create_binding intro: logs_but_trans)
qed (simp add: logs_but_refl)

lemma logs_reassign_each: "reassign_each nid actor reason rid now ids st = Inr st' \<Longrightarrow> logs_but {} st st'"
proof (induction ids arbitrary: st)
  case (Cons i ids)
  then obtain st1 st2 where a: "end_bindings (\<lambda>k _. k = i) now actor BReassigned (\<lambda>_. Some reason) st = Inr st1"
    and b: "audit_sql (Some actor) ''binding.reassigned'' ''binding'' (Some i) rid
              [(''replacement_binding_id'', PStr nid), (''reason'', PStr reason)] now st1 = Inr st2"
    and c: "reassign_each nid actor reason rid now ids st2 = Inr st'" by (auto simp: rbind_Inr_iff)
  have "logs_but {} st st2"
    using logs_but_end[OF a, of "{(''binding'', i)}"] b by (rule logs_but_audit) auto
  then show ?case using Cons.IH[OF c] by (rule logs_but_trans) simp
qed (simp add: logs_but_refl)

lemma logs_audit_ended:
  "audit_ended actor rid now ids st1 = Inr st2 \<Longrightarrow> logs_but K st st1 \<Longrightarrow> K \<subseteq> M \<union> (\<lambda>i. (''binding'', i)) ` set ids \<Longrightarrow>
   logs_but M st st2"
proof (induction ids arbitrary: st1 K)
  case Nil
  then show ?case using logs_but_trans[OF _ logs_but_refl[of "{}"], of K st st1 M] by simp
next
  case (Cons i ids)
  then obtain st' where a: "audit_sql (Some actor) ''binding.ended'' ''binding'' (Some i) rid
      [(''status'', PStr ''revoked''), (''reason'', PStr ''user disabled'')] now st1 = Inr st'"
    and b: "audit_ended actor rid now ids st' = Inr st2" by (auto simp: rbind_Inr_iff)
  have "logs_but (M \<union> (\<lambda>i. (''binding'', i)) ` set ids) st st'"
    using Cons.prems(2) a by (rule logs_but_audit) (use Cons.prems(3) in auto)
  then show ?case using b by (intro Cons.IH) auto
qed

lemma logs_end_user_bindings:
  assumes "end_user_bindings uid actor rid now st = Inr st'" shows "logs_but {} st st'"
proof -
  let ?P = "\<lambda>k b. lb_user_id b = uid \<and> open_binding b"
  let ?ids = "map fst (filter (\<lambda>(k, b). ?P k b) (ld_bindings st))"
  obtain st1 where a: "end_bindings ?P now actor BRevoked (\<lambda>_. Some ''user disabled'') st = Inr st1"
    and b: "audit_ended actor rid now ?ids st1 = Inr st'"
    using assms by (auto simp: end_user_bindings_def Let_def rbind_Inr_iff)
  have "k \<in> set ?ids" if "map_of (ld_bindings st) k = Some b" "?P k b" for k b
    using map_of_SomeD[OF that(1)] that(2) by force
  then have "logs_but ((\<lambda>i. (''binding'', i)) ` set ?ids) st st1" by (intro logs_but_end[OF a] imageI)
  then show ?thesis by (rule logs_audit_ended[OF b]) simp
qed

lemma logs_resolve:
  assumes "resolve_identity issuer subject email bootstrap rid now nid st = Inr (st', uid)" shows "logs_but {} st st'"
proof (cases "find (\<lambda>(k, u). same_identity issuer subject u) (ld_users st)")
  case None
  obtain u role status st1 where "insert_user nid u st = Inr st1"
    and b: "audit_sql (Some nid) ''user.created'' ''user'' (Some nid) rid
      [(''role'', PStr (role_text role)), (''status'', PStr (user_status_text status))] now st1 = Inr st'"
    using assms None by (auto simp: resolve_identity_def rbind_Inr_iff Let_def)
  from logs_but_insert_user[OF this(1)] b show ?thesis by (rule logs_but_audit) simp
next
  case (Some ku)
  obtain k u where "ku = (k, u)" by (cases ku)
  then show ?thesis using assms Some
    by (auto simp: resolve_identity_def rbind_Inr_iff split: if_splits intro: logs_but_refl logs_but_user_same)
qed

lemma logs_create:
  assumes "create_bindings uid accs actor rid ass reason now st = Inr (st', bs)" shows "logs_but {} st st'"
proof -
  obtain st1 where c: "create_all uid ass actor reason rid now accs st = Inr st1"
    using assms by (auto simp: create_bindings_def rbind_Inr_iff)
  let ?st2 = "update_user uid (\<lambda>u. u\<lparr>lu_onboarding_completed_at := Some now, lu_updated_at := now\<rparr>) st1"
  have l: "logs_but {} st st1" by (rule logs_create_all[OF c])
  have l2: "logs_but {} st ?st2" using l logs_but_user_same by (rule logs_but_trans) simp_all
  show ?thesis
  proof (cases "\<exists>u. map_of (ld_users st1) uid = Some u \<and> lu_onboarding_completed_at u = None")
    case True
    then have "audit_sql (Some actor) ''user.onboarding_completed'' ''user'' (Some uid) rid
        [(''binding_count'', PInt (int (length accs)))] now ?st2 = Inr st'"
      using assms c by (auto simp: create_bindings_def rbind_Inr_iff)
    with l2 show ?thesis by (rule logs_but_audit) simp
  next
    case False
    then have "st' = st1" using assms c by (auto simp: create_bindings_def rbind_Inr_iff split: option.splits)
    then show ?thesis using l by simp
  qed
qed

lemma logs_end_binding:
  assumes "end_binding bid actor owner rid status reason now st = Inr (st', e)" shows "logs_but {} st st'"
proof -
  consider "st' = st" | st1 reason' d where "end_bindings (\<lambda>k _. k = bid) now actor status reason' st = Inr st1"
    "audit_sql (Some actor) ''binding.ended'' ''binding'' (Some bid) rid d now st1 = Inr st'"
    using assms by (auto simp: end_binding_def rbind_Inr_iff split: option.splits if_splits)
  then show ?thesis
  proof cases
    case 2
    have "logs_but {(''binding'', bid)} st st1" using 2(1) by (rule logs_but_end) simp
    then show ?thesis using 2(2) by (rule logs_but_audit) simp
  qed (simp add: logs_but_refl)
qed

lemma logs_verify:
  assumes "verify_binding bid actor rid now st = Inr (st', bo)" shows "logs_but {} st st'"
proof -
  define st1 where "st1 = st\<lparr>ld_bindings :=
    map (\<lambda>(k, b). (k, if k = bid then b\<lparr>lb_assurance := AdminVerified\<rparr> else b)) (ld_bindings st)\<rparr>"
  have "map_of (ld_bindings st1) k = map_of (ld_bindings st) k" if "k \<noteq> bid" for k
    using that by (cases "map_of (ld_bindings st) k") (simp_all add: st1_def map_of_map_keyed)
  moreover have "ld_users st1 = ld_users st" "ld_audit st1 = ld_audit st" by (simp_all add: st1_def)
  ultimately have l: "logs_but {(''binding'', bid)} st st1"
    by (intro logs_but_same_audit) (auto simp: changed_rows_def)
  consider "st' = st" | d where "audit_sql (Some actor) ''binding.verified'' ''binding'' (Some bid) rid d now st1 = Inr st'"
    using assms by (auto simp: verify_binding_def st1_def rbind_Inr_iff split: option.splits if_splits)
  then show ?thesis
  proof cases
    case 2
    show ?thesis using l 2 by (rule logs_but_audit) simp
  qed (simp add: logs_but_refl)
qed

lemma logs_reassign: "reassign_binding nid uid acc actor rid why now st = Inr (st', bo) \<Longrightarrow> logs_but {} st st'"
  by (auto simp: reassign_binding_def Let_def rbind_Inr_iff split: if_splits option.splits
      dest!: logs_reassign_each logs_create_binding intro: logs_but_trans)

lemma logs_readonly: "choose_readonly uid rid now st = Inr (st', v) \<Longrightarrow> logs_but {} st st'"
  by (auto simp: choose_readonly_def rbind_Inr_iff split: option.splits if_splits
      elim!: logs_but_audit[OF logs_but_user])

lemma logs_profile: "update_profile uid name now st = Inr (st', v) \<Longrightarrow> logs_but {} st st'"
  by (auto simp: update_profile_def Let_def split: if_splits dest!: view_of_Inr intro!: logs_but_user_same)

lemma logs_admin:
  assumes "admin_update_user uid actor rid role status name now st = Inr (st', v)" shows "logs_but {} st st'"
proof -
  obtain f d st1 where a: "audit_sql (Some actor) ''user.updated'' ''user'' (Some uid) rid d now (update_user uid f st) = Inr st1"
    and b: "st' = st1 \<or> end_user_bindings uid actor rid now st1 = Inr st'"
    using assms by (auto simp: admin_update_user_def Let_def rbind_Inr_iff split: if_splits option.splits dest!: view_of_Inr)
  have "logs_but {} st st1" using logs_but_user a by (rule logs_but_audit) simp
  then show ?thesis using b logs_end_user_bindings logs_but_trans[of "{}" st st1 "{}" st' "{}"] by auto
qed

lemma logs_migrate:
  assumes "migrate_identity uid pid actor rid why now st = Inr (st', v)" shows "logs_but {} st st'"
proof -
  obtain st1 st2 i s i' s' f g d where a: "update_identity pid i s f st = Inr st1" and b: "update_identity uid i' s' g st1 = Inr st2"
    and r: "\<And>u. lu_role (f u) = lu_role u" "\<And>u. lu_role (g u) = lu_role u"
    and c: "audit_sql (Some actor) ''identity.migrated'' ''user'' (Some uid) rid d now st2 = Inr st'"
    using assms by (auto simp: migrate_identity_def rbind_Inr_iff split: if_splits option.splits dest!: view_of_Inr)
  have "logs_but {} st st1" using a r(1) by (auto simp: update_identity_def split: if_splits intro!: logs_but_user_same)
  moreover have "logs_but {} st1 st2" using b r(2) by (auto simp: update_identity_def split: if_splits intro!: logs_but_user_same)
  ultimately have "logs_but {} st st2" by (rule logs_but_trans) simp
  then show ?thesis using c by (rule logs_but_audit) simp
qed

text \<open>
  C34: the audit log is complete and only grows: a transaction keeps every event it finds, and every
  binding it adds or changes and every user it adds or gives another role is the target of an event
  that it appends.
\<close>

theorem audit_complete:
  assumes "lab_step now st st'"
  shows "\<exists>es. ld_audit st' = ld_audit st @ es \<and> changed_rows st st' \<subseteq> targets es"
proof -
  from assms have "logs_but {} st st'"
    by (cases rule: lab_step.cases)
       (blast intro: logs_resolve logs_create logs_end_binding logs_verify logs_reassign logs_readonly logs_profile
          logs_admin logs_migrate logs_but_log)+
  then show ?thesis by (simp add: logs_but_def)
qed

theorem audit_complete_witness:
  "\<exists>st es. first_login = Inr st \<and> ld_audit st = es \<and> (''user'', ''ua'') \<in> targets es"
proof -
  have "rbind first_login (\<lambda>st. Inr (map_option lu_role (map_of (ld_users st) ''ua''))) = Inr (Some Admin)" by code_simp
  then obtain st where st: "first_login = Inr st" and r: "map_option lu_role (map_of (ld_users st) ''ua'') = Some Admin"
    unfolding rbind_Inr_iff by auto
  then obtain uid where "resolve_identity ''i'' ''a'' ''a@x'' ''a@x'' ''r'' 1 ''ua'' empty_lab = Inr (st, uid)"
    by (auto simp: first_login_def rbind_Inr_iff)
  from audit_complete[OF lab_step.resolve[OF this]] have "changed_rows empty_lab st \<subseteq> targets (ld_audit st)"
    by (auto simp: empty_lab_def)
  moreover have "(''user'', ''ua'') \<in> changed_rows empty_lab st" using r by (auto simp: changed_rows_def empty_lab_def)
  ultimately show ?thesis using st by blast
qed

subsection \<open>A disabled user can gain a binding\<close>

text \<open>
  Disabling a user ends the bindings the user has, but \<^verbatim>\<open>create_bindings\<close> does not look at the
  status of the user: a request that was let in before the user was disabled, and waits for the
  lookup of its accounts meanwhile, gives the disabled user an open binding.
\<close>

theorem disabled_user_gains_binding:
  "rbind two_users (\<lambda>st.
   rbind (admin_update_user ''ub'' ''ua'' ''r'' None (Some ''disabled'') None 2 st) (\<lambda>(st1, _).
   rbind (create_bindings ''ub'' [(''k1'', acc7)] ''ub'' ''r'' SelfClaimed None 3 st1) (\<lambda>(st2, _).
     Inr (map_option lu_status (map_of (ld_users st2) ''ub''), owners_at ''n'' 1007 4 st2)))) =
   Inr (Some UDisabled, [''ub''])"
  by code_simp

end
