(* ===== verification/Activity.thy ===== *)
theory Activity
  imports Analytics LabStore
begin

text \<open>
  \<open>packages/lab/src/constella_lab/activity_usage.py\<close>: who used which card when. The rows of the usage
  query are split where the ownership of their account changes, and the resulting spans are added up
  without counting a card twice.

  The zone Asia/Shanghai is eight hours ahead of UTC, which holds since 1992.
\<close>

subsection \<open>Records\<close>

text \<open>A row of the usage query: the columns the analytics use and the uid of the account.\<close>

record activity_row =
  ay_view :: usage_view
  ay_user_uid :: "int option"

record usage =
  uo_owner :: string
  uo_label :: string
  uo_start :: rat
  uo_end :: rat
  uo_card :: string
  uo_model :: string
  uo_key :: string
  uo_row :: activity_row

type_synonym bound = "string \<times> binding \<times> string \<times> string option"

abbreviation binding_of :: "bound \<Rightarrow> binding" where
  "binding_of b \<equiv> fst (snd b)"

subsection \<open>Ownership\<close>

text \<open>Only the first owner of a name inherits the history before the first binding.\<close>

definition inherit_history :: "rat \<Rightarrow> bound list \<Rightarrow> bound list" where
  "inherit_history start history =
     (case sort_key (\<lambda>b. lb_valid_from (binding_of b)) history of
        [] \<Rightarrow> []
      | (k, b, e, n) # rest \<Rightarrow> (k, b\<lparr>lb_valid_from := min start (lb_valid_from b)\<rparr>, e, n) # rest)"

definition legacy_bindings :: "bound list \<Rightarrow> rat \<Rightarrow> (string \<times> string, bound list) dict" where
  "legacy_bindings bindings start =
     map (\<lambda>(key, history). (key, inherit_history start history))
       (group_by (\<lambda>b. (lb_node_id (binding_of b), lb_unix_username (binding_of b)))
         (filter (\<lambda>b. lb_unix_username (binding_of b) \<noteq> []) bindings) [])"

text \<open>\<^verbatim>\<open>json.dumps\<close> of a string, a number or \<^verbatim>\<open>None\<close>, with its default ASCII output.\<close>

definition hex_char :: "nat \<Rightarrow> char" where
  "hex_char n = ''0123456789abcdef'' ! n"

definition json_escape :: "char \<Rightarrow> string" where
  "json_escape c =
     (let n = of_char c :: nat
      in if c = CHR 0x22 then [CHR 0x5C, CHR 0x22]
         else if c = CHR 0x5C then [CHR 0x5C, CHR 0x5C]
         else if n = 10 then [CHR 0x5C, CHR ''n'']
         else if n = 13 then [CHR 0x5C, CHR ''r'']
         else if n = 9 then [CHR 0x5C, CHR ''t'']
         else if n = 12 then [CHR 0x5C, CHR ''f'']
         else if n = 8 then [CHR 0x5C, CHR ''b'']
         else if n < 32 \<or> 126 < n then [CHR 0x5C] @ ''u00'' @ [hex_char (n div 16), hex_char (n mod 16)]
         else [c])"

definition json_text :: "string \<Rightarrow> string" where
  "json_text s = [CHR 0x22] @ concat (map json_escape s) @ [CHR 0x22]"

definition account_key :: "activity_row \<Rightarrow> string" where
  "account_key r =
     ''['' @ json_text (uv_node_id (ay_view r)) @ '', '' @
       (case ay_user_uid r of
          Some u \<Rightarrow> int_str u
        | None \<Rightarrow> (case uv_user (ay_view r) of None \<Rightarrow> ''null'' | Some n \<Rightarrow> json_text n)) @ '']''"

definition lab_job_key :: "activity_row \<Rightarrow> string" where
  "lab_job_key r = job_key ((usage_ident (ay_view r))\<lparr>ji_first_seen_at := uv_session_first_seen_at (ay_view r)\<rparr>)"

text \<open>Names are looked up for rows without a uid, uids for the others.\<close>

definition matching_bindings :: "bound list \<Rightarrow> rat \<Rightarrow> activity_row \<Rightarrow> bound list" where
  "matching_bindings bindings start r =
     (case ay_user_uid r of
        None \<Rightarrow>
          (case uv_user (ay_view r) of
             None \<Rightarrow> []
           | Some n \<Rightarrow> get_or (legacy_bindings bindings start) (uv_node_id (ay_view r), n) [])
      | Some u \<Rightarrow> filter (\<lambda>b. lb_node_id (binding_of b) = uv_node_id (ay_view r) \<and> lb_unix_uid (binding_of b) = u) bindings)"

definition clamp :: "rat \<Rightarrow> rat \<Rightarrow> rat \<Rightarrow> rat" where
  "clamp left right x = max left (min right x)"

definition span_edges :: "rat \<Rightarrow> rat \<Rightarrow> bound list \<Rightarrow> rat list" where
  "span_edges left right matches =
     sorted_set ([left, right] @ map (clamp left right)
       (concat (map (\<lambda>b. lb_valid_from (binding_of b) #
          (case lb_valid_to (binding_of b) of None \<Rightarrow> [] | Some t \<Rightarrow> [t])) matches)))"

definition applicable :: "rat \<Rightarrow> bound \<Rightarrow> bool" where
  "applicable t b \<longleftrightarrow> lb_valid_from (binding_of b) \<le> t \<and>
     (case lb_valid_to (binding_of b) of None \<Rightarrow> True | Some e \<Rightarrow> t < e)"

fun latest :: "bound list \<Rightarrow> bound option" where
  "latest [] = None"
| "latest (b # bs) = Some (fold (\<lambda>c best.
     if lb_valid_from (binding_of best) < lb_valid_from (binding_of c) then c else best) bs b)"

definition usage_span :: "bound list \<Rightarrow> activity_row \<Rightarrow> rat \<times> rat \<Rightarrow> usage" where
  "usage_span matches r iv =
     (let v = ay_view r; owner = latest (filter (applicable (fst iv)) matches)
      in \<lparr>uo_owner = (case owner of
             Some (k, b, e, n) \<Rightarrow> ''user:'' @ lb_user_id b
           | None \<Rightarrow> ''account:'' @ account_key r),
          uo_label = (case owner of
             Some (k, b, e, n) \<Rightarrow> str_or n (str_or (uv_user v) (lb_user_id b))
           | None \<Rightarrow> str_or (uv_user v) ''Unknown'' @ '' @ '' @ uv_node_id v),
          uo_start = fst iv, uo_end = snd iv, uo_card = physical_card_key v,
          uo_model = compact_gpu_name (uv_gpu_name v), uo_key = lab_job_key r, uo_row = r\<rparr>)"

definition resolve_row :: "bound list \<Rightarrow> rat \<Rightarrow> rat \<Rightarrow> activity_row \<Rightarrow> usage list" where
  "resolve_row bindings start until r =
     (let left = max start (uv_first_seen_at (ay_view r)); right = min until (uv_last_seen_at (ay_view r))
      in if right < left then []
         else let matches = matching_bindings bindings start r;
                  edges = span_edges left right matches;
                  spans = (if left < right then zip edges (List.tl edges) else [(left, right)])
              in map (usage_span matches r) spans)"

definition resolve_usage :: "activity_row list \<Rightarrow> bound list \<Rightarrow> rat \<Rightarrow> rat \<Rightarrow> usage list" where
  "resolve_usage rows bindings start until = concat (map (resolve_row bindings start until) rows)"

subsection \<open>Interval algebra\<close>

type_synonym spans = "(rat \<times> rat) list"

definition add_span :: "rat \<times> rat \<Rightarrow> spans \<Rightarrow> spans" where
  "add_span se merged =
     (if snd se \<le> fst se then merged
      else if merged \<noteq> [] \<and> fst se \<le> snd (last merged)
      then butlast merged @ [(fst (last merged), max (snd se) (snd (last merged)))]
      else merged @ [se])"

definition union_spans :: "spans \<Rightarrow> spans" where
  "union_spans xs = fold add_span (sort xs) []"

definition clip :: "rat \<Rightarrow> rat \<Rightarrow> usage \<Rightarrow> rat \<times> rat" where
  "clip start until u = (max start (uo_start u), min until (uo_end u))"

definition card_spans :: "usage list \<Rightarrow> rat \<Rightarrow> rat \<Rightarrow> (string, spans) dict" where
  "card_spans records start until =
     map (\<lambda>(c, us). (c, map (clip start until) us)) (group_by uo_card records [])"

definition add_event :: "rat \<Rightarrow> int \<Rightarrow> (rat, int) dict \<Rightarrow> (rat, int) dict" where
  "add_event t delta events = AList.update t (get_or events t 0 + delta) events"

definition span_events :: "rat \<times> rat \<Rightarrow> (rat, int) dict \<Rightarrow> (rat, int) dict" where
  "span_events ab events = add_event (snd ab) (- 1) (add_event (fst ab) 1 events)"

record segment =
  sg_start :: rat
  sg_end :: rat
  sg_count :: int

definition sweep_step :: "rat \<times> int \<Rightarrow> int \<times> rat \<times> segment list \<Rightarrow> int \<times> rat \<times> segment list" where
  "sweep_step ev st =
     (case (ev, st) of ((t, delta), (active, previous, result)) \<Rightarrow>
        (active + delta, t,
         if active \<noteq> 0 \<and> previous < t
         then if result \<noteq> [] \<and> sg_end (last result) = previous \<and> sg_count (last result) = active
              then butlast result @ [(last result)\<lparr>sg_end := t\<rparr>]
              else result @ [\<lparr>sg_start = previous, sg_end = t, sg_count = active\<rparr>]
         else result))"

definition segments :: "usage list \<Rightarrow> rat \<Rightarrow> rat \<Rightarrow> segment list" where
  "segments records start until =
     (let events = fold (\<lambda>(c, xs). fold span_events (union_spans xs)) (card_spans records start until) []
      in snd (snd (fold sweep_step (sort_key fst events) (0, start, []))))"

subsection \<open>Days\<close>

definition day_of :: "rat \<Rightarrow> int" where
  "day_of t = \<lfloor>(t + 28800) / 86400\<rfloor>"

definition midnight :: "int \<Rightarrow> rat" where
  "midnight d = of_int (d * 86400 - 28800)"

function later_days :: "int \<Rightarrow> rat \<Rightarrow> rat list" where
  "later_days d b = (if midnight d < b then midnight d # later_days (d + 1) b else [])"
  by pat_completeness auto
termination
proof (relation "measure (\<lambda>(d, b). nat (\<lceil>(b + 28800) / 86400\<rceil> - d))", simp)
  fix d b
  assume "midnight d < b"
  then have "rat_of_int d < (b + 28800) / 86400" by (simp add: midnight_def)
  then have "d < \<lceil>(b + 28800) / 86400\<rceil>" by (simp add: less_ceiling_iff)
  then show "((d + 1, b), (d, b)) \<in> measure (\<lambda>(d, b). nat (\<lceil>(b + 28800) / 86400\<rceil> - d))" by simp
qed

declare later_days.simps [simp del]

definition observed_days :: "usage \<Rightarrow> rat \<Rightarrow> rat \<Rightarrow> rat list" where
  "observed_days u start until =
     (let a = max start (uo_start u); b = min until (uo_end u)
      in if b < a \<or> until \<le> a \<or> (b = a \<and> uo_start u \<noteq> uo_end u) then []
         else a # later_days (day_of a + 1) b)"

subsection \<open>Totals\<close>

record usage_totals =
  ut_gpu_hours :: rat
  ut_active_hours :: rat
  ut_active_days :: nat

definition segment_length :: "segment \<Rightarrow> rat" where
  "segment_length s = sg_end s - sg_start s"

definition usage_summary :: "usage list \<Rightarrow> rat \<Rightarrow> rat \<Rightarrow> usage_totals" where
  "usage_summary records start until =
     (let segs = segments records start until
      in \<lparr>ut_gpu_hours = sum_list (map (\<lambda>s. segment_length s * of_int (sg_count s)) segs) / 3600,
          ut_active_hours = sum_list (map segment_length segs) / 3600,
          ut_active_days = length (remdups (concat (map (\<lambda>r. map day_of (observed_days r start until)) records)))\<rparr>)"

record model_share =
  ms_model :: string
  ms_gpu_hours :: rat
  ms_share :: rat

definition model_statistics :: "usage list \<Rightarrow> rat \<Rightarrow> rat \<Rightarrow> model_share list" where
  "model_statistics records start until =
     (let hours = map (\<lambda>(m, items). (m, ut_gpu_hours (usage_summary items start until))) (group_by uo_model records []);
          total = sum_list (map snd hours)
      in sort_key (\<lambda>s. (- ms_gpu_hours s, ms_model s))
           (map (\<lambda>(m, h). \<lparr>ms_model = m, ms_gpu_hours = h, ms_share = (if total \<noteq> 0 then h / total else 0)\<rparr>) hours))"

record user_statistic =
  uz_user :: string
  uz_owner_key :: string
  uz_totals :: usage_totals
  uz_weighted_gpu_hours :: rat
  uz_task_count :: nat
  uz_job_count :: nat
  uz_last_seen_at :: rat
  uz_top_gpu_models :: "(string \<times> rat) list"

definition owner_statistic :: "rat \<Rightarrow> rat \<Rightarrow> string \<times> usage list \<Rightarrow> user_statistic" where
  "owner_statistic start until orc =
     (case orc of (owner, records) \<Rightarrow>
        let models = model_statistics records start until
        in \<lparr>uz_user = uo_label (hd records), uz_owner_key = owner, uz_totals = usage_summary records start until,
            uz_weighted_gpu_hours = sum_list (map (\<lambda>m. ms_gpu_hours m * gpu_weight (Some (ms_model m))) models),
            uz_task_count = length (remdups (map (\<lambda>r. uv_session_id (ay_view (uo_row r))) records)),
            uz_job_count = length (remdups (map uo_key records)),
            uz_last_seen_at = (case max_opt (map uo_end records) of Some t \<Rightarrow> t | None \<Rightarrow> 0),
            uz_top_gpu_models = map (\<lambda>m. (ms_model m, ms_gpu_hours m)) (take 3 models)\<rparr>)"

definition user_statistics :: "activity_row list \<Rightarrow> bound list \<Rightarrow> rat \<Rightarrow> rat \<Rightarrow> user_statistic list" where
  "user_statistics rows bindings start until =
     take 20 (sort_key (\<lambda>s. (- uz_weighted_gpu_hours s, uz_owner_key s))
       (map (owner_statistic start until) (group_by uo_owner (resolve_usage rows bindings start until) [])))"

end
