(* ===== verification/ActivityProps.thy ===== *)
theory ActivityProps
  imports Activity
begin

text \<open>
  The interval algebra of the usage totals: the union of spans is ordered and covers the same times,
  the sweep over its ends counts the cards in use at every time, and the hours are the lengths of
  the unions.
\<close>

subsection \<open>Unions\<close>

definition in_span :: "rat \<Rightarrow> rat \<times> rat \<Rightarrow> bool" where
  "in_span t ab \<longleftrightarrow> fst ab \<le> t \<and> t < snd ab"

definition ordered_spans :: "spans \<Rightarrow> bool" where
  "ordered_spans m \<longleftrightarrow> sorted_wrt (\<lambda>x y. snd x < fst y) m \<and> (\<forall>x \<in> set m. fst x < snd x)"

lemma ordered_snoc:
  "ordered_spans (m @ [x]) \<longleftrightarrow> ordered_spans m \<and> fst x < snd x \<and> (\<forall>y \<in> set m. snd y < fst x)"
  by (auto simp: ordered_spans_def sorted_wrt_append)

lemma add_span_ordered:
  assumes "ordered_spans m" "\<forall>x \<in> set m. fst x \<le> fst se"
  shows "ordered_spans (add_span se m) \<and> (\<forall>x \<in> set (add_span se m). fst x \<le> fst se) \<and>
    (\<forall>t. (\<exists>x \<in> set (add_span se m). in_span t x) \<longleftrightarrow> in_span t se \<or> (\<exists>x \<in> set m. in_span t x))"
proof (cases m rule: rev_cases)
  case Nil
  then show ?thesis by (auto simp: add_span_def ordered_spans_def in_span_def)
next
  case (snoc ms l)
  then show ?thesis
    using assms ordered_snoc[of m se] by (auto simp: add_span_def ordered_snoc in_span_def)
qed

lemma union_spans_exact:
  "ordered_spans (union_spans xs) \<and> (\<forall>t. (\<exists>x \<in> set (union_spans xs). in_span t x) \<longleftrightarrow> (\<exists>x \<in> set xs. in_span t x))"
proof -
  have "ordered_spans (fold add_span ys m) \<and>
      (\<forall>t. (\<exists>x \<in> set (fold add_span ys m). in_span t x) \<longleftrightarrow> (\<exists>x \<in> set ys \<union> set m. in_span t x))"
    if "sorted ys" "ordered_spans m" "\<forall>x \<in> set m. \<forall>y \<in> set ys. fst x \<le> fst y" for ys m
    using that
  proof (induction ys arbitrary: m)
    case (Cons y ys)
    have y: "\<forall>z \<in> set ys. fst y \<le> fst z" using Cons.prems(1) by (auto simp: less_eq_prod_def intro: less_imp_le)
    note a = add_span_ordered[OF Cons.prems(2), of y]
    have "ordered_spans (add_span y m)" "\<forall>x \<in> set (add_span y m). \<forall>z \<in> set ys. fst x \<le> fst z"
      using a Cons.prems(3) y by (simp, fastforce)
    then show ?case using Cons.IH[of "add_span y m"] Cons.prems(1,3) a by auto
  qed simp
  from this[of "sort xs" "[]"] show ?thesis by (simp add: union_spans_def ordered_spans_def)
qed

lemma ordered_spans_cover_once:
  "ordered_spans m \<Longrightarrow> length (filter (in_span t) m) = (if \<exists>x \<in> set m. in_span t x then 1 else 0)"
proof (induction m)
  case (Cons x m)
  have "filter (in_span t) m = []" if "in_span t x"
    using Cons.prems that by (force simp: ordered_spans_def in_span_def filter_empty_conv)
  then show ?case using Cons by (auto simp: ordered_spans_def)
qed simp

subsection \<open>Events\<close>

definition event_sum :: "(rat \<Rightarrow> 'a :: comm_ring_1) \<Rightarrow> (rat, int) dict \<Rightarrow> 'a" where
  "event_sum g evs = sum_list (map (\<lambda>ev. g (fst ev) * of_int (snd ev)) evs)"

lemma event_sum_cong: "(\<And>u. u \<in> fst ` set evs \<Longrightarrow> g u = h u) \<Longrightarrow> event_sum g evs = event_sum h evs"
  by (induction evs) (simp_all add: event_sum_def)

lemma event_sum_zero [simp]: "event_sum (\<lambda>_. 0) evs = 0"
  by (induction evs) (simp_all add: event_sum_def)

lemma event_sum_before:
  assumes "\<forall>ev \<in> set evs. t < fst ev" shows "event_sum (\<lambda>u. if u \<le> t then 1 else 0) evs = 0"
proof -
  have "event_sum (\<lambda>u. if u \<le> t then 1 else 0) evs = event_sum (\<lambda>_. 0) evs"
    using assms by (intro event_sum_cong) fastforce
  then show ?thesis by simp
qed

lemma event_sum_update:
  "dict_ok evs \<Longrightarrow> event_sum g (AList.update t v evs) = event_sum g evs + g t * of_int (v - get_or evs t 0)"
  by (induction evs) (auto simp: event_sum_def get_or_def dict_ok_def algebra_simps dest: map_of_SomeD split: option.splits)

lemma dict_ok_add_event [simp]: "dict_ok evs \<Longrightarrow> dict_ok (add_event t d evs)"
  by (simp add: add_event_def)

lemma dict_ok_span_events [simp]: "dict_ok evs \<Longrightarrow> dict_ok (span_events ab evs)"
  by (simp add: span_events_def)

lemma event_sum_add: "dict_ok evs \<Longrightarrow> event_sum g (add_event t d evs) = event_sum g evs + g t * of_int d"
  by (simp add: add_event_def event_sum_update)

lemma event_sum_spans:
  "dict_ok evs \<Longrightarrow> dict_ok (fold span_events xs evs) \<and>
    event_sum g (fold span_events xs evs) = event_sum g evs + sum_list (map (\<lambda>ab. g (fst ab) - g (snd ab)) xs)"
  by (induction xs arbitrary: evs) (simp_all add: span_events_def event_sum_add)

definition events_of :: "(string, spans) dict \<Rightarrow> (rat, int) dict" where
  "events_of cards = fold (\<lambda>(c, xs). fold span_events (union_spans xs)) cards []"

lemma event_sum_cards:
  "dict_ok (events_of cards) \<and>
   event_sum g (events_of cards) = sum_list (map (\<lambda>cx. sum_list (map (\<lambda>ab. g (fst ab) - g (snd ab)) (union_spans (snd cx)))) cards)"
proof -
  have "dict_ok evs \<Longrightarrow> dict_ok (fold (\<lambda>(c, xs). fold span_events (union_spans xs)) cards evs) \<and>
    event_sum g (fold (\<lambda>(c, xs). fold span_events (union_spans xs)) cards evs) =
      event_sum g evs + sum_list (map (\<lambda>cx. sum_list (map (\<lambda>ab. g (fst ab) - g (snd ab)) (union_spans (snd cx)))) cards)" for evs
    by (induction cards arbitrary: evs) (auto simp: event_sum_spans)
  from this[of "[]"] show ?thesis by (simp add: events_of_def event_sum_def)
qed

subsection \<open>The sweep\<close>

definition in_segment :: "rat \<Rightarrow> segment \<Rightarrow> bool" where
  "in_segment t s \<longleftrightarrow> sg_start s \<le> t \<and> t < sg_end s"

definition count_at :: "segment list \<Rightarrow> rat \<Rightarrow> int" where
  "count_at segs t = sum_list (map (\<lambda>s. if in_segment t s then sg_count s else 0) segs)"

definition card_seconds :: "segment list \<Rightarrow> rat" where
  "card_seconds segs = sum_list (map (\<lambda>s. segment_length s * of_int (sg_count s)) segs)"

definition segments_ok :: "segment list \<Rightarrow> bool" where
  "segments_ok segs \<longleftrightarrow> sorted_wrt (\<lambda>x y. sg_end x \<le> sg_start y) segs \<and>
     (\<forall>s \<in> set segs. sg_start s < sg_end s \<and> sg_count s \<noteq> 0)"

lemma sweep_step_exact:
  assumes "segments_ok res" "\<forall>s \<in> set res. sg_end s \<le> prev" "prev < t0"
  shows "\<exists>res'. sweep_step (t0, d) (active, prev, res) = (active + d, t0, res') \<and> segments_ok res' \<and>
    (\<forall>s \<in> set res'. sg_end s \<le> t0) \<and>
    (\<forall>t. count_at res' t = count_at res t + (if prev \<le> t \<and> t < t0 then active else 0)) \<and>
    card_seconds res' = card_seconds res + (t0 - prev) * of_int active"
proof (cases "active \<noteq> 0 \<and> res \<noteq> [] \<and> sg_end (last res) = prev \<and> sg_count (last res) = active")
  case True
  then obtain rs l where res: "res = rs @ [l]" by (cases res rule: rev_cases) auto
  have l: "sg_end l = prev" "sg_count l = active" "active \<noteq> 0" using True by (simp_all add: res)
  show ?thesis
    using assms l by (auto simp: sweep_step_def res segments_ok_def sorted_wrt_append count_at_def in_segment_def
        card_seconds_def segment_length_def algebra_simps)
next
  case False
  then show ?thesis
    using assms by (auto simp: sweep_step_def segments_ok_def sorted_wrt_append count_at_def in_segment_def
        card_seconds_def segment_length_def)
qed

lemma sweep_exact:
  "sorted_wrt (<) (map fst evs) \<Longrightarrow> segments_ok res \<Longrightarrow> \<forall>s \<in> set res. sg_end s \<le> prev \<Longrightarrow> \<forall>ev \<in> set evs. prev < fst ev \<Longrightarrow>
   \<exists>final. fold sweep_step evs (active, prev, res) = (active + event_sum (\<lambda>_. 1) evs, last (prev # map fst evs), final) \<and>
     segments_ok final \<and>
     (\<forall>t. count_at final t = count_at res t +
        (if prev \<le> t \<and> t < last (prev # map fst evs) then active + event_sum (\<lambda>u. if u \<le> t then 1 else 0) evs else 0)) \<and>
     card_seconds final = card_seconds res + (last (prev # map fst evs) - prev) * of_int active +
       event_sum (\<lambda>u. last (prev # map fst evs) - u) evs"
proof (induction evs arbitrary: active prev res)
  case Nil
  then show ?case by (simp add: event_sum_def)
next
  case (Cons ev evs)
  obtain t0 d where ev: "ev = (t0, d)" by (cases ev)
  have lt: "prev < t0" using Cons.prems(4) by (simp add: ev)
  obtain res' where step: "sweep_step ev (active, prev, res) = (active + d, t0, res')"
    and ok: "segments_ok res'" "\<forall>s \<in> set res'. sg_end s \<le> t0"
    and cnt: "\<And>t. count_at res' t = count_at res t + (if prev \<le> t \<and> t < t0 then active else 0)"
    and secs: "card_seconds res' = card_seconds res + (t0 - prev) * of_int active"
    using sweep_step_exact[OF Cons.prems(2,3) lt] unfolding ev by blast
  have later: "\<forall>ev \<in> set evs. t0 < fst ev" using Cons.prems(1) by (auto simp: ev)
  let ?T = "last (t0 # map fst evs)"
  have T: "t0 \<le> ?T" using later by (cases evs rule: rev_cases) (auto simp: less_imp_le)
  obtain final where f: "fold sweep_step evs (active + d, t0, res') = (active + d + event_sum (\<lambda>_. 1) evs, ?T, final)"
      "segments_ok final"
      "\<And>t. count_at final t = count_at res' t +
        (if t0 \<le> t \<and> t < ?T then active + d + event_sum (\<lambda>u. if u \<le> t then 1 else 0) evs else 0)"
      "card_seconds final = card_seconds res' + (?T - t0) * of_int (active + d) + event_sum (\<lambda>u. ?T - u) evs"
    using Cons.IH[of res' t0 "active + d", OF _ ok later] Cons.prems(1) by auto
  have none: "event_sum (\<lambda>u. if u \<le> t then 1 else (0 :: int)) evs = 0" if "t < t0" for t
    using later that by (intro event_sum_before) auto
  have "last (prev # map fst (ev # evs)) = ?T" by (simp add: ev)
  moreover have "count_at final t = count_at res t +
      (if prev \<le> t \<and> t < ?T then active + event_sum (\<lambda>u. if u \<le> t then 1 else 0) (ev # evs) else 0)" for t
    using f(3)[of t] cnt[of t] none[of t] lt T by (auto simp: ev event_sum_def)
  moreover have "card_seconds final = card_seconds res + (?T - prev) * of_int active + event_sum (\<lambda>u. ?T - u) (ev # evs)"
    using f(4) secs by (simp add: ev event_sum_def algebra_simps)
  ultimately show ?case using f(1,2) step by (simp add: event_sum_def ev)
qed

lemma event_sum_diff: "event_sum (\<lambda>u. c - u) evs = c * of_int (event_sum (\<lambda>_. 1) evs) - event_sum (\<lambda>u. u) (evs :: (rat, int) dict)"
  by (induction evs) (simp_all add: event_sum_def algebra_simps)

lemma event_sum_mset: "mset evs = mset evs' \<Longrightarrow> event_sum g evs = event_sum g evs'"
  unfolding event_sum_def by (rule sum_list_map_mset)

lemma sweep_all:
  assumes "sorted_wrt (<) (map fst evs)" "event_sum (\<lambda>_. 1) evs = (0 :: int)"
  shows "\<exists>final a t. fold sweep_step evs (0, start, []) = (a, t, final) \<and> segments_ok final \<and>
    (\<forall>t. count_at final t = event_sum (\<lambda>u. if u \<le> t then 1 else 0) evs) \<and> card_seconds final = - event_sum (\<lambda>u. u) evs"
proof (cases evs)
  case Nil
  then show ?thesis by (simp add: segments_ok_def count_at_def event_sum_def card_seconds_def)
next
  case (Cons ev es)
  obtain t0 d where ev: "ev = (t0, d)" by (cases ev)
  have later: "\<forall>e \<in> set es. t0 < fst e" "sorted_wrt (<) (map fst es)" using assms(1) by (auto simp: Cons ev)
  let ?T = "last (t0 # map fst es)"
  have first: "sweep_step ev (0, start, []) = (d, t0, [])" by (simp add: sweep_step_def ev)
  obtain final where f: "fold sweep_step es (d, t0, []) = (d + event_sum (\<lambda>_. 1) es, ?T, final)" "segments_ok final"
      "\<And>t. count_at final t = count_at [] t + (if t0 \<le> t \<and> t < ?T then d + event_sum (\<lambda>u. if u \<le> t then 1 else 0) es else 0)"
      "card_seconds final = card_seconds [] + (?T - t0) * of_int d + event_sum (\<lambda>u. ?T - u) es"
    using sweep_exact[OF later(2), of "[]" t0 d] later(1) by (auto simp: segments_ok_def)
  have total: "d + event_sum (\<lambda>_. 1) es = 0" using assms(2) by (simp add: Cons ev event_sum_def)
  have le: "u \<le> ?T" if "u \<in> fst ` set es" for u
    using later(2) that
  proof (induction es rule: rev_induct)
    case (snoc x xs)
    then show ?case by (auto simp: sorted_wrt_append less_imp_le)
  qed simp
  have early: "event_sum (\<lambda>u. if u \<le> t then 1 else (0 :: int)) es = 0" if "t < t0" for t
    using later(1) that by (intro event_sum_before) auto
  have late: "event_sum (\<lambda>u. if u \<le> t then 1 else (0 :: int)) es = event_sum (\<lambda>_. 1) es" if "?T \<le> t" for t
    using le that by (intro event_sum_cong) fastforce
  have T: "t0 \<le> ?T" using later(1) by (cases es rule: rev_cases) (auto simp: less_imp_le)
  have "count_at final t = event_sum (\<lambda>u. if u \<le> t then 1 else 0) evs" for t
    using f(3)[of t] early[of t] late[of t] total T by (auto simp: Cons ev event_sum_def count_at_def)
  moreover have "card_seconds final = - event_sum (\<lambda>u. u) evs"
  proof -
    have "rat_of_int (event_sum (\<lambda>_. 1) es) = - of_int d" using total by (metis add.inverse_unique of_int_add of_int_0)
    then show ?thesis using f(4) event_sum_diff[of ?T es] by (simp add: Cons ev event_sum_def card_seconds_def algebra_simps)
  qed
  ultimately show ?thesis using f(1,2) first by (simp add: Cons)
qed

lemma union_event_sum:
  "sum_list (map (\<lambda>ab. (if fst ab \<le> t then 1 else 0) - (if snd ab \<le> t then 1 else (0 :: int))) (union_spans xs)) =
    (if \<exists>x \<in> set xs. in_span t x then 1 else 0)"
proof -
  have u: "ordered_spans (union_spans xs)" "(\<exists>x \<in> set (union_spans xs). in_span t x) \<longleftrightarrow> (\<exists>x \<in> set xs. in_span t x)"
    using union_spans_exact[of xs] by blast+
  have "sum_list (map (\<lambda>ab. (if fst ab \<le> t then 1 else 0) - (if snd ab \<le> t then 1 else (0 :: int))) m) = int (length (filter (in_span t) m))"
    if "\<forall>x \<in> set m. fst x < snd x" for m
    using that by (induction m) (auto simp: in_span_def)
  then show ?thesis using u ordered_spans_cover_once[OF u(1), of t] by (simp add: ordered_spans_def)
qed

definition cards_in_use :: "usage list \<Rightarrow> rat \<Rightarrow> rat \<Rightarrow> rat \<Rightarrow> string set" where
  "cards_in_use records start until t = {uo_card r |r. r \<in> set records \<and> in_span t (clip start until r)}"

definition card_union :: "usage list \<Rightarrow> rat \<Rightarrow> rat \<Rightarrow> string \<Rightarrow> spans" where
  "card_union records start until c = union_spans (map (clip start until) (filter (\<lambda>r. uo_card r = c) records))"

lemma card_spans_exact:
  "dict_ok (card_spans records start until) \<and>
   set (card_spans records start until) =
     (\<lambda>c. (c, map (clip start until) (filter (\<lambda>r. uo_card r = c) records))) ` uo_card ` set records"
proof -
  let ?g = "group_by uo_card records []"
  have g: "dict_ok ?g" by (rule dict_ok_group_by) simp
  have m: "map_of ?g c = (if filter (\<lambda>r. uo_card r = c) records = [] then None else Some (filter (\<lambda>r. uo_card r = c) records))" for c
    by (simp add: map_of_group_by Let_def)
  have "(c, xs) \<in> set ?g \<longleftrightarrow> c \<in> uo_card ` set records \<and> xs = filter (\<lambda>r. uo_card r = c) records" for c xs
    unfolding dict_ok_map_of[OF g] m by (auto simp: filter_empty_conv)
  then have "set ?g = (\<lambda>c. (c, filter (\<lambda>r. uo_card r = c) records)) ` uo_card ` set records" by auto
  then show ?thesis using g by (simp add: card_spans_def dict_ok_map_keyed image_image)
qed

lemma sum_card_spans:
  fixes f :: "spans \<Rightarrow> 'a :: comm_monoid_add"
  shows "sum_list (map (\<lambda>cx. f (snd cx)) (card_spans records start until)) =
    (\<Sum>c \<in> uo_card ` set records. f (map (clip start until) (filter (\<lambda>r. uo_card r = c) records)))"
proof -
  note c = card_spans_exact[of records start until]
  have d: "distinct (card_spans records start until)" using c by (auto simp: dict_ok_def distinct_map)
  have "sum_list (map (\<lambda>cx. f (snd cx)) (card_spans records start until)) = (\<Sum>cx \<in> set (card_spans records start until). f (snd cx))"
    by (rule sum_list_distinct_conv_sum_set[OF d])
  also have "\<dots> = (\<Sum>c \<in> uo_card ` set records. f (map (clip start until) (filter (\<lambda>r. uo_card r = c) records)))"
    using c by (simp add: sum.reindex inj_on_def)
  finally show ?thesis .
qed

lemma segments_sweep:
  "\<exists>a t. fold sweep_step (sort_key fst (events_of (card_spans records start until))) (0, start, []) = (a, t, segments records start until)"
  unfolding segments_def events_of_def Let_def by (metis prod.collapse)

lemma sorted_keys_strict: "dict_ok d \<Longrightarrow> sorted_wrt (<) (map fst (sort_key fst d))"
  by (simp add: strict_sorted_iff dict_ok_def distinct_map inj_on_def) 

text \<open>
  C30: the sweep is exact: the segments are in order and do not overlap, at every time their count is
  the number of different cards in use then, and their total card time is the sum, over the cards, of
  the length of the union of the card's spans, so overlapping sessions on a card count once.
\<close>

theorem segments_exact:
  "segments_ok (segments records start until) \<and>
   (\<forall>t. count_at (segments records start until) t = int (card (cards_in_use records start until t))) \<and>
   card_seconds (segments records start until) =
     (\<Sum>c \<in> uo_card ` set records. sum_list (map (\<lambda>ab. snd ab - fst ab) (card_union records start until c)))"
proof -
  let ?cs = "card_spans records start until"
  let ?evs = "sort_key fst (events_of ?cs)"
  have ev: "event_sum g ?evs = (\<Sum>c \<in> uo_card ` set records. sum_list (map (\<lambda>ab. g (fst ab) - g (snd ab)) (card_union records start until c)))"
    for g :: "rat \<Rightarrow> 'a :: comm_ring_1"
    using event_sum_cards[of ?cs g] event_sum_mset[of ?evs "events_of ?cs" g]
      sum_card_spans[of "\<lambda>xs. sum_list (map (\<lambda>ab. g (fst ab) - g (snd ab)) (union_spans xs))" records start until]
    by (simp add: card_union_def)
  have "event_sum (\<lambda>_. 1) ?evs = (0 :: int)" unfolding ev by (simp add: sum_list_0)
  moreover have "sorted_wrt (<) (map fst ?evs)" using event_sum_cards[of ?cs "\<lambda>_. 0 :: int"] by (intro sorted_keys_strict) blast
  ultimately obtain final a t where f: "fold sweep_step ?evs (0, start, []) = (a, t, final)" "segments_ok final"
    "\<And>t. count_at final t = event_sum (\<lambda>u. if u \<le> t then 1 else 0) ?evs" "card_seconds final = - event_sum (\<lambda>u. u) ?evs"
    using sweep_all by blast
  have final: "final = segments records start until" using f(1) segments_sweep[of records start until] by auto
  have "count_at final t = int (card (cards_in_use records start until t))" for t
  proof -
    have "count_at final t = (\<Sum>c \<in> uo_card ` set records. if \<exists>r \<in> set records. uo_card r = c \<and> in_span t (clip start until r) then 1 else 0)"
      unfolding f(3) ev card_union_def union_event_sum by (intro sum.cong) auto
    also have "\<dots> = int (card {c \<in> uo_card ` set records. \<exists>r \<in> set records. uo_card r = c \<and> in_span t (clip start until r)})"
      by (simp add: sum.If_cases Int_def conj_commute)
    also have "{c \<in> uo_card ` set records. \<exists>r \<in> set records. uo_card r = c \<and> in_span t (clip start until r)} = cards_in_use records start until t"
      by (auto simp: cards_in_use_def image_iff) metis+
    finally show ?thesis .
  qed
  moreover have "card_seconds final = (\<Sum>c \<in> uo_card ` set records. sum_list (map (\<lambda>ab. snd ab - fst ab) (card_union records start until c)))"
    unfolding f(4) ev sum_negf[symmetric] by (intro sum.cong refl) (simp add: uminus_sum_list_map comp_def)
  ultimately show ?thesis using f(2) final by simp
qed

end
