(* ===== verification/Attribution.thy ===== *)
theory Attribution
  imports ActivityProps LabProps
begin

text \<open>
  Usage is charged to the user who owned the account at that moment: the cutting of a row at the edges of
  the bindings composed with the ownership the lab store keeps. The days of a usage record are exactly the
  calendar days it touches.
\<close>

subsection \<open>Cutting an interval at its edges\<close>

definition pieces :: "rat list \<Rightarrow> (rat \<times> rat) list" where
  "pieces edges = zip edges (List.tl edges)"

lemma pieces_simps [simp]: "pieces [] = []" "pieces [x] = []" "pieces (x # y # xs) = (x, y) # pieces (y # xs)"
  by (simp_all add: pieces_def)

lemma pieces_in: "(a, b) \<in> set (pieces es) \<Longrightarrow> a \<in> set es \<and> b \<in> set es"
  unfolding pieces_def by (auto dest: set_zip_leftD set_zip_rightD list.set_sel(2)[rotated]) (cases es; auto dest: set_zip_rightD)

lemma one_piece:
  assumes "sorted_wrt (<) es" "es \<noteq> []" "hd es \<le> t" "t < last es"
  shows "\<exists>a b. filter (\<lambda>p. fst p \<le> t \<and> t < snd p) (pieces es) = [(a, b)] \<and> a \<in> set es \<and> (\<forall>e \<in> set es. e \<le> a \<or> b \<le> e)"
  using assms
proof (induction es rule: induct_list012)
  case (3 x y xs)
  show ?case
  proof (cases "t < y")
    case True
    have "filter (\<lambda>p. fst p \<le> t \<and> t < snd p) (pieces (y # xs)) = []"
    proof -
      have "\<forall>e \<in> set (y # xs). t < e" using "3.prems"(1) True by auto
      then show ?thesis by (fastforce simp: filter_empty_conv dest: pieces_in)
    qed
    then show ?thesis using 3 True by (intro exI[of _ x] exI[of _ y]) auto
  next
    case False
    then obtain a b where "filter (\<lambda>p. fst p \<le> t \<and> t < snd p) (pieces (y # xs)) = [(a, b)]" "a \<in> set (y # xs)"
      "\<forall>e \<in> set (y # xs). e \<le> a \<or> b \<le> e" using 3 by auto
    then show ?thesis using False "3.prems"(1) by (intro exI[of _ a] exI[of _ b]) auto
  qed
qed simp_all

lemma sorted_set_strict: "sorted_wrt (<) (sorted_set xs)"
  by (simp add: strict_sorted_iff)

lemma sorted_set_bounds:
  assumes "x \<in> set xs" "y \<in> set xs" "\<forall>z \<in> set xs. x \<le> z \<and> z \<le> y"
  shows "sorted_set xs \<noteq> []" "hd (sorted_set xs) = x" "last (sorted_set xs) = y"
proof -
  have ne: "sorted_set xs \<noteq> []" using assms(1) by (metis empty_iff list.set(1) set_sorted_set)
  have s: "sorted (sorted_set xs)" by simp
  have "hd (sorted_set xs) \<in> set xs" "last (sorted_set xs) \<in> set xs" using ne by (metis hd_in_set set_sorted_set, metis last_in_set set_sorted_set)
  moreover have "\<forall>z \<in> set xs. hd (sorted_set xs) \<le> z" using s ne by (cases "sorted_set xs") (auto simp flip: set_sorted_set[of xs])
  moreover have "\<forall>z \<in> set xs. z \<le> last (sorted_set xs)"
    using s ne by (cases "sorted_set xs" rule: rev_cases) (auto simp: sorted_append simp flip: set_sorted_set[of xs])
  ultimately show "sorted_set xs \<noteq> []" "hd (sorted_set xs) = x" "last (sorted_set xs) = y"
    using assms ne by (simp, meson order_antisym, meson order_antisym)
qed

subsection \<open>The owner of a piece\<close>

lemma applicable_covers: "applicable t b = covers t (binding_of b)"
  by (simp add: applicable_def covers_def split: option.splits)

lemma edge_decides:
  assumes "clamp left right x \<in> set es" "\<forall>e \<in> set es. e \<le> a \<or> b \<le> e"
    "left \<le> a" "a \<le> t" "t < b" "t < right"
  shows "x \<le> t \<longleftrightarrow> x \<le> a"
proof -
  have "clamp left right x \<le> a \<or> b \<le> clamp left right x" using assms(1,2) by blast
  then show ?thesis using assms(3-6) by (auto simp: clamp_def)
qed

lemma piece_ownership:
  assumes "bd \<in> set ms" "es = span_edges left right ms" "\<forall>e \<in> set es. e \<le> a \<or> b \<le> e"
    "left \<le> a" "a \<le> t" "t < b" "t < right"
  shows "applicable a bd \<longleftrightarrow> applicable t bd"
proof -
  have f: "clamp left right (lb_valid_from (binding_of bd)) \<in> set es" using assms(1,2) by (auto simp: span_edges_def)
  have e: "clamp left right e \<in> set es" if "lb_valid_to (binding_of bd) = Some e" for e
    using assms(1,2) that by (force simp: span_edges_def)
  have "lb_valid_from (binding_of bd) \<le> t \<longleftrightarrow> lb_valid_from (binding_of bd) \<le> a"
    using edge_decides[OF f assms(3-7)] .
  moreover have "e \<le> t \<longleftrightarrow> e \<le> a" if "lb_valid_to (binding_of bd) = Some e" for e
    using edge_decides[OF e[OF that] assms(3-7)] .
  ultimately show ?thesis by (auto simp: applicable_def not_le[symmetric] split: option.splits)
qed

subsection \<open>The bindings of the lab\<close>

lemma map_filter_some: "\<forall>x \<in> set xs. \<exists>y. f x = Some y \<and> g y = x \<Longrightarrow> map g (List.map_filter f xs) = xs"
  by (induction xs) (auto simp: List.map_filter_simps)

lemma all_bindings:
  assumes "lab_ok now st"
  shows "mset (map (\<lambda>(k, b, e, n). (k, b)) (list_bindings None False st)) = mset (ld_bindings st)"
proof -
  let ?f = "\<lambda>(k, b). map_option (\<lambda>u. (k, b, lu_email u, lu_display_name u)) (map_of (ld_users st) (lb_user_id b))"
  have "map (\<lambda>(k, b, e, n). (k, b)) (List.map_filter ?f (ld_bindings st)) = ld_bindings st"
  proof (intro map_filter_some ballI)
    fix x assume x: "x \<in> set (ld_bindings st)"
    obtain k b where kb: "x = (k, b)" by (cases x)
    then have "user_exists st (lb_user_id b)" using assms x by (auto simp: lab_ok_def refs_ok_def)
    then obtain us where "map_of (ld_users st) (lb_user_id b) = Some us" by (auto simp: user_exists_def has_key_def)
    then show "\<exists>y. ?f x = Some y \<and> (case y of (k, b, e, n) \<Rightarrow> (k, b)) = x" using kb by simp
  qed
  then have "mset (map (\<lambda>(k, b, e, n). (k, b)) (List.map_filter ?f (ld_bindings st))) = mset (ld_bindings st)" by simp
  then show ?thesis unfolding list_bindings_def by (simp add: case_prod_unfold)
qed

definition owning :: "string \<Rightarrow> int \<Rightarrow> rat \<Rightarrow> binding \<Rightarrow> bool" where
  "owning node_id unix_uid t b \<longleftrightarrow> lb_node_id b = node_id \<and> lb_unix_uid b = unix_uid \<and> covers t b"

lemma owners_of_bindings:
  assumes "lab_ok now st"
  shows "mset (map (lb_user_id \<circ> binding_of) (filter (owning n u t \<circ> binding_of) (list_bindings None False st))) = mset (owners_at n u t st)"
proof -
  let ?g = "\<lambda>(k, b, e, n). (k, b)"
  have "owners_at n u t st = map (lb_user_id \<circ> snd) (filter (owning n u t \<circ> snd) (ld_bindings st))"
    by (simp add: owners_at_def owning_def case_prod_unfold comp_def)
  then have "mset (owners_at n u t st) = image_mset (lb_user_id \<circ> snd) (filter_mset (owning n u t \<circ> snd) (mset (ld_bindings st)))"
    by (simp add: comp_def)
  also have "\<dots> = image_mset (lb_user_id \<circ> snd) (filter_mset (owning n u t \<circ> snd) (mset (map ?g (list_bindings None False st))))"
    unfolding all_bindings[OF assms] ..
  also have "\<dots> = image_mset (lb_user_id \<circ> snd) (mset (map ?g (filter (owning n u t \<circ> binding_of) (list_bindings None False st))))"
    unfolding mset_filter[symmetric] filter_map by (simp add: comp_def case_prod_unfold)
  finally show ?thesis by (simp add: image_mset.compositionality comp_def case_prod_unfold)
qed

lemma clamp_bounds: "left \<le> right \<Longrightarrow> left \<le> clamp left right x \<and> clamp left right x \<le> right"
  by (simp add: clamp_def)

lemma span_edges_ok:
  assumes "left < right"
  shows "sorted_wrt (<) (span_edges left right ms)" "span_edges left right ms \<noteq> []"
    "hd (span_edges left right ms) = left" "last (span_edges left right ms) = right"
proof -
  let ?xs = "[left, right] @ map (clamp left right)
       (concat (map (\<lambda>b. lb_valid_from (binding_of b) # (case lb_valid_to (binding_of b) of None \<Rightarrow> [] | Some t \<Rightarrow> [t])) ms))"
  have "\<forall>z \<in> set ?xs. left \<le> z \<and> z \<le> right"
    unfolding set_append set_map using assms clamp_bounds[of left right] by (auto simp del: set_concat)
  moreover have "left \<in> set ?xs" "right \<in> set ?xs" by simp_all
  ultimately show "span_edges left right ms \<noteq> []" "hd (span_edges left right ms) = left" "last (span_edges left right ms) = right"
    unfolding span_edges_def using sorted_set_bounds[of left ?xs right] by blast+
  show "sorted_wrt (<) (span_edges left right ms)" unfolding span_edges_def by (rule sorted_set_strict)
qed

lemma mset_at_most_one: "mset xs = mset ys \<Longrightarrow> length ys \<le> 1 \<Longrightarrow> xs = ys"
  by (cases ys) auto

text \<open>Every time of a row lies in one piece, charged by the binding that is latest at that time.\<close>

lemma resolve_row_pieces:
  assumes "left = max start (uv_first_seen_at (ay_view r))" "right = min until (uv_last_seen_at (ay_view r))" "left < right"
    "ms = matching_bindings bindings start r"
  shows "resolve_row bindings start until r = map (usage_span ms r) (pieces (span_edges left right ms))"
  using assms(3) by (simp add: resolve_row_def pieces_def Let_def flip: assms(1,2,4))

lemma row_charged:
  assumes "max start (uv_first_seen_at (ay_view r)) \<le> t" "t < min until (uv_last_seen_at (ay_view r))"
  shows "map uo_owner (filter (\<lambda>x. uo_start x \<le> t \<and> t < uo_end x) (resolve_row bindings start until r)) =
    [case latest (filter (applicable t) (matching_bindings bindings start r)) of
       None \<Rightarrow> ''account:'' @ account_key r | Some (k, b, e, n) \<Rightarrow> ''user:'' @ lb_user_id b]"
proof -
  define left where "left = max start (uv_first_seen_at (ay_view r))"
  define right where "right = min until (uv_last_seen_at (ay_view r))"
  define ms where "ms = matching_bindings bindings start r"
  define es where "es = span_edges left right ms"
  have lr: "left < right" "left \<le> t" "t < right" using assms by (simp_all add: left_def right_def)
  have row: "resolve_row bindings start until r = map (usage_span ms r) (pieces es)"
    unfolding es_def by (rule resolve_row_pieces[OF left_def right_def lr(1) ms_def])
  have es: "sorted_wrt (<) es" "es \<noteq> []" "hd es = left" "last es = right"
    unfolding es_def using span_edges_ok[OF lr(1)] by blast+
  obtain a b where p: "filter (\<lambda>p. fst p \<le> t \<and> t < snd p) (pieces es) = [(a, b)]" "a \<in> set es" "\<forall>e \<in> set es. e \<le> a \<or> b \<le> e"
    using one_piece[of es t] es lr by auto
  then have "(a, b) \<in> set (filter (\<lambda>p. fst p \<le> t \<and> t < snd p) (pieces es))" by simp
  then have ab: "a \<le> t" "t < b" by auto
  have "left \<le> a" using es p(2) by (cases es) auto
  then have f: "filter (applicable a) ms = filter (applicable t) ms"
    using piece_ownership[OF _ es_def p(3) _ ab lr(3)] by (intro filter_cong) auto
  have "filter (\<lambda>x. uo_start x \<le> t \<and> t < uo_end x) (map (usage_span ms r) (pieces es)) =
      map (usage_span ms r) (filter (\<lambda>p. fst p \<le> t \<and> t < snd p) (pieces es))"
    by (simp add: filter_map comp_def usage_span_def Let_def)
  then show ?thesis
    by (simp add: row p(1) usage_span_def Let_def f flip: ms_def split: option.splits prod.splits)
qed

lemma latest_None [simp]: "latest xs = None \<longleftrightarrow> xs = []"
  by (cases xs) simp_all

lemma latest_fold:
  "fold (\<lambda>c best. if lb_valid_from (binding_of best) < lb_valid_from (binding_of c) then c else best) bs b = w \<Longrightarrow>
     w \<in> set (b # bs) \<and> (\<forall>c \<in> set (b # bs). lb_valid_from (binding_of c) \<le> lb_valid_from (binding_of w))"
proof (induction bs arbitrary: b)
  case (Cons c bs)
  show ?case using Cons.IH[of "if lb_valid_from (binding_of b) < lb_valid_from (binding_of c) then c else b"] Cons.prems
    by (auto split: if_splits)
qed simp

lemma latest_Some:
  assumes "latest xs = Some w"
  shows "w \<in> set xs" "c \<in> set xs \<Longrightarrow> lb_valid_from (binding_of c) \<le> lb_valid_from (binding_of w)"
  using assms latest_fold[of _ _ w] by (cases xs; auto)+

subsection \<open>Who a row is charged to\<close>

text \<open>
  The bindings of the name of an account.  A row without uid belongs at a time to the latest of those that hold
  then; before all of them it belongs to a first one.
\<close>

definition name_bindings :: "lab_db \<Rightarrow> string \<Rightarrow> string \<Rightarrow> binding set" where
  "name_bindings st node_id name =
     {b. \<exists>k. (k, b) \<in> set (ld_bindings st) \<and> lb_node_id b = node_id \<and> lb_unix_username b = name \<and> name \<noteq> []}"

definition name_owner :: "binding set \<Rightarrow> rat \<Rightarrow> string option \<Rightarrow> bool" where
  "name_owner bs t w =
     (case w of
        Some user_id \<Rightarrow> (\<exists>b \<in> bs. lb_user_id b = user_id \<and>
          (covers t b \<and> (\<forall>c \<in> bs. covers t c \<longrightarrow> lb_valid_from c \<le> lb_valid_from b) \<or>
           t < lb_valid_from b \<and> (\<forall>c \<in> bs. lb_valid_from b \<le> lb_valid_from c)))
      | None \<Rightarrow> (\<forall>b \<in> bs. \<not> covers t b) \<and> (bs = {} \<or> (\<exists>b \<in> bs. lb_valid_from b \<le> t)))"

definition row_owner :: "lab_db \<Rightarrow> activity_row \<Rightarrow> rat \<Rightarrow> string option \<Rightarrow> bool" where
  "row_owner st r t w =
     (let node_id = uv_node_id (ay_view r)
      in case ay_user_uid r of
           Some u \<Rightarrow> owners_at node_id u t st = (case w of None \<Rightarrow> [] | Some user_id \<Rightarrow> [user_id])
         | None \<Rightarrow>
             (case uv_user (ay_view r) of
                None \<Rightarrow> w = None
              | Some name \<Rightarrow> name_owner (name_bindings st node_id name) t w))"

definition charge_of :: "activity_row \<Rightarrow> string option \<Rightarrow> string" where
  "charge_of r w = (case w of None \<Rightarrow> ''account:'' @ account_key r | Some user_id \<Rightarrow> ''user:'' @ user_id)"

lemma listed_bindings:
  assumes "lab_ok now st"
  shows "(\<exists>x \<in> set (list_bindings None False st). binding_of x = b) \<longleftrightarrow> (\<exists>k. (k, b) \<in> set (ld_bindings st))"
proof -
  have "set (map (\<lambda>(k, b, e, n). (k, b)) (list_bindings None False st)) = set (ld_bindings st)"
    using all_bindings[OF assms] by (rule mset_eq_setD)
  then have "snd ` set (map (\<lambda>(k, b, e, n). (k, b)) (list_bindings None False st)) = snd ` set (ld_bindings st)" by simp
  then have "binding_of ` set (list_bindings None False st) = snd ` set (ld_bindings st)"
    by (simp add: image_image case_prod_unfold)
  then have "b \<in> binding_of ` set (list_bindings None False st) \<longleftrightarrow> b \<in> snd ` set (ld_bindings st)" by simp
  then show ?thesis by force
qed

lemma uid_row_owner:
  assumes "lab_reachable now st" "ay_user_uid r = Some u"
  shows "row_owner st r t (map_option (\<lambda>x. lb_user_id (binding_of x))
    (latest (filter (applicable t) (matching_bindings (list_bindings None False st) start r))))"
proof -
  let ?n = "uv_node_id (ay_view r)" and ?ms = "matching_bindings (list_bindings None False st) start r"
  have "filter (applicable t) ?ms = filter (owning ?n u t \<circ> binding_of) (list_bindings None False st)"
    using assms(2) by (auto simp: matching_bindings_def applicable_covers owning_def intro!: filter_cong)
  moreover have "map (lb_user_id \<circ> binding_of) (filter (owning ?n u t \<circ> binding_of) (list_bindings None False st)) = owners_at ?n u t st"
    using owners_of_bindings[OF lab_reachable_ok[OF assms(1)]] one_owner[OF assms(1)] by (rule mset_at_most_one)
  ultimately have f: "map (lb_user_id \<circ> binding_of) (filter (applicable t) ?ms) = owners_at ?n u t st" by simp
  have "length (filter (applicable t) ?ms) \<le> 1" using one_owner[OF assms(1), of ?n u t] unfolding f[symmetric] by simp
  then show ?thesis
    using f assms(2) by (cases "filter (applicable t) ?ms") (auto simp: row_owner_def Let_def)
qed

lemma name_owner_intros:
  "b \<in> bs \<Longrightarrow> covers t b \<Longrightarrow> (\<And>c. c \<in> bs \<Longrightarrow> covers t c \<Longrightarrow> lb_valid_from c \<le> lb_valid_from b) \<Longrightarrow>
     name_owner bs t (Some (lb_user_id b))"
  "b \<in> bs \<Longrightarrow> t < lb_valid_from b \<Longrightarrow> (\<And>c. c \<in> bs \<Longrightarrow> lb_valid_from b \<le> lb_valid_from c) \<Longrightarrow> name_owner bs t (Some (lb_user_id b))"
  "(\<And>b. b \<in> bs \<Longrightarrow> \<not> covers t b) \<Longrightarrow> b \<in> bs \<Longrightarrow> lb_valid_from b \<le> t \<Longrightarrow> name_owner bs t None"
  by (auto simp: name_owner_def)

lemma sorted_head: "sort_key f xs = y # ys \<Longrightarrow> z \<in> set xs \<Longrightarrow> f y \<le> f z"
proof -
  assume a: "sort_key f xs = y # ys" "z \<in> set xs"
  have "sorted (map f (sort_key f xs))" by simp
  moreover have "z \<in> set (sort_key f xs)" using a(2) by simp
  ultimately show "f y \<le> f z" using a(1) by auto
qed

lemma inherited_owner:
  assumes "\<forall>x \<in> set history. span_ok now (binding_of x)" "start \<le> t"
  shows "name_owner (binding_of ` set history) t
    (map_option (\<lambda>x. lb_user_id (binding_of x)) (latest (filter (applicable t) (inherit_history start history))))"
proof (cases "sort_key (\<lambda>b. lb_valid_from (binding_of b)) history")
  case Nil
  then have "history = []" by (metis length_0_conv length_sort)
  then show ?thesis by (simp add: name_owner_def inherit_history_def)
next
  case (Cons x rest)
  obtain k b e n where x: "x = (k, b, e, n)" by (cases x)
  let ?x = "(k, b\<lparr>lb_valid_from := min start (lb_valid_from b)\<rparr>, e, n)"
  have inh: "inherit_history start history = ?x # rest" by (simp add: inherit_history_def Cons x)
  have hist: "set history = insert x (set rest)" using arg_cong[OF Cons, of set] by simp
  have least: "lb_valid_from b \<le> lb_valid_from (binding_of z)" if "z \<in> set history" for z
    using sorted_head[OF Cons that] by (simp add: x)
  have open_end: "covers t b" if "lb_valid_from b \<le> t" "applicable t ?x" using that by (simp add: covers_def applicable_def)
  have app: "applicable t ?x \<longleftrightarrow> covers t b \<or> t < lb_valid_from b"
  proof -
    have "span_ok now b" using assms(1) hist x by auto
    then show ?thesis using assms(2) by (auto simp: applicable_def covers_def span_ok_def split: option.splits)
  qed
  show ?thesis
  proof (cases "t < lb_valid_from b")
    case True
    then have "\<not> applicable t z" if "z \<in> set rest" for z using least[of z] that hist by (auto simp: applicable_def)
    then have "filter (applicable t) (inherit_history start history) = [?x]" using app True by (simp add: inh)
    moreover have "name_owner (binding_of ` set history) t (Some (lb_user_id b))"
      using True least hist x by (intro name_owner_intros(2)) auto
    ultimately show ?thesis by simp
  next
    case False
    have cov: "applicable t z \<longleftrightarrow> covers t (binding_of z)" for z by (rule applicable_covers)
    show ?thesis
    proof (cases "latest (filter (applicable t) (inherit_history start history))")
      case None
      then have "\<not> covers t b" "\<forall>z \<in> set rest. \<not> covers t (binding_of z)" using app by (auto simp: inh filter_empty_conv cov split: if_splits)
      then have "name_owner (binding_of ` set history) t None"
        using False hist x by (intro name_owner_intros(3)[of _ t b]) auto
      then show ?thesis using None by simp
    next
      case (Some w)
      note w = latest_Some[OF Some]
      show ?thesis
      proof (cases "w = ?x \<and> w \<notin> set rest")
        case True
        have "covers t b" using w(1) True app False by auto
        moreover have "lb_valid_from (binding_of c) \<le> lb_valid_from b" if "c \<in> set rest" "covers t (binding_of c)" for c
        proof -
          have "lb_valid_from (binding_of c) \<le> lb_valid_from (binding_of w)" using w(2)[of c] that by (simp add: inh cov)
          then show ?thesis using True by auto
        qed
        ultimately have "name_owner (binding_of ` set history) t (Some (lb_user_id b))"
          using hist x by (intro name_owner_intros(1)) auto
        then show ?thesis using Some True by simp
      next
        case False
        then have rest: "w \<in> set rest" "covers t (binding_of w)" using w(1) by (auto simp: inh cov split: if_splits)
        have "lb_valid_from (binding_of c) \<le> lb_valid_from (binding_of w)" if "c \<in> set history" "covers t (binding_of c)" for c
        proof (cases "c = x")
          case True
          then show ?thesis using least[of w] rest(1) hist x by simp
        next
          case False
          then show ?thesis using w(2)[of c] that hist by (simp add: inh cov)
        qed
        then have "lb_valid_from c \<le> lb_valid_from (binding_of w)" if "c \<in> binding_of ` set history" "covers t c" for c
          using that by blast
        then have "name_owner (binding_of ` set history) t (Some (lb_user_id (binding_of w)))"
          using rest hist by (intro name_owner_intros(1)) blast+
        then show ?thesis using Some by simp
      qed
    qed
  qed
qed

lemma name_row_owner:
  assumes "lab_reachable now st" "ay_user_uid r = None" "start \<le> t"
  shows "row_owner st r t (map_option (\<lambda>x. lb_user_id (binding_of x))
    (latest (filter (applicable t) (matching_bindings (list_bindings None False st) start r))))"
proof (cases "uv_user (ay_view r)")
  case None
  then show ?thesis using assms(2) by (simp add: row_owner_def matching_bindings_def Let_def)
next
  case (Some name)
  let ?n = "uv_node_id (ay_view r)" and ?bs = "list_bindings None False st"
  let ?named = "filter (\<lambda>b. lb_unix_username (binding_of b) \<noteq> []) ?bs"
  define history where "history = filter (\<lambda>b. (lb_node_id (binding_of b), lb_unix_username (binding_of b)) = (?n, name)) ?named"
  have ok: "lab_ok now st" using assms(1) by (rule lab_reachable_ok)
  have m: "matching_bindings ?bs start r = inherit_history start history"
  proof -
    have mo: "map_of (map (\<lambda>(key, h). (key, inherit_history start h)) d) k = map_option (inherit_history start) (map_of d k)" for d :: "(string \<times> string, bound list) dict" and k
      by (induction d) auto
    have "map_of (group_by (\<lambda>b. (lb_node_id (binding_of b), lb_unix_username (binding_of b))) ?named []) (?n, name) =
        (if history = [] then None else Some history)"
      by (simp add: map_of_group_by Let_def history_def)
    moreover have "inherit_history start [] = []" by (simp add: inherit_history_def)
    ultimately show ?thesis
      using assms(2) Some by (simp add: matching_bindings_def get_or_def legacy_bindings_def mo del: group_by.simps)
  qed
  have "binding_of ` set history = name_bindings st ?n name"
  proof (rule set_eqI)
    fix b
    have "b \<in> binding_of ` set history \<longleftrightarrow>
        (\<exists>x \<in> set ?bs. binding_of x = b) \<and> lb_node_id b = ?n \<and> lb_unix_username b = name \<and> name \<noteq> []"
      unfolding history_def by (auto simp del: split_paired_Ex)
    then show "b \<in> binding_of ` set history \<longleftrightarrow> b \<in> name_bindings st ?n name"
      unfolding listed_bindings[OF ok] by (simp add: name_bindings_def)
  qed
  moreover have "\<forall>x \<in> set history. span_ok now (binding_of x)"
  proof
    fix x assume "x \<in> set history"
    then have "\<exists>k. (k, binding_of x) \<in> set (ld_bindings st)" using listed_bindings[OF ok, of "binding_of x"] by (auto simp: history_def)
    then show "span_ok now (binding_of x)" using ok by (auto simp: lab_ok_def bindings_ok_def dict_ok_def)
  qed
  ultimately show ?thesis
    using inherited_owner[OF _ assms(3), of history now] assms(2) Some by (simp add: row_owner_def m Let_def)
qed

lemma row_charged_to_owner:
  assumes "lab_reachable now st"
    and "max start (uv_first_seen_at (ay_view r)) \<le> t" "t < min until (uv_last_seen_at (ay_view r))"
  shows "\<exists>w. row_owner st r t w \<and>
    map uo_owner (filter (\<lambda>x. uo_start x \<le> t \<and> t < uo_end x) (resolve_row (list_bindings None False st) start until r)) = [charge_of r w]"
proof -
  let ?l = "latest (filter (applicable t) (matching_bindings (list_bindings None False st) start r))"
  let ?w = "map_option (\<lambda>x. lb_user_id (binding_of x)) ?l"
  have "row_owner st r t ?w"
    using uid_row_owner[OF assms(1)] name_row_owner[OF assms(1)] assms(2) by (cases "ay_user_uid r") auto
  moreover have "(case ?l of None \<Rightarrow> ''account:'' @ account_key r | Some (k, b, e, n) \<Rightarrow> ''user:'' @ lb_user_id b) = charge_of r ?w"
    by (simp add: charge_of_def split: option.splits prod.splits)
  ultimately show ?thesis using row_charged[OF assms(2,3)] by auto
qed

text \<open>
  C2: usage is charged to the owner of the moment: in every reachable state of the lab every usage row is cut so
  that every time it covers lies in exactly one piece.  If the row carries the uid of its account, the piece is
  charged to the user the account belonged to at that very time; if it carries only the name, to the user of the
  latest binding of that name on the node that held at the time, or, before all of them, of a first one.  Otherwise it is
  charged to the account itself.
\<close>

theorem usage_charged_to_owner:
  assumes "lab_reachable now st"
    and "max start (uv_first_seen_at (ay_view r)) \<le> t" "t < min until (uv_last_seen_at (ay_view r))"
  shows "\<exists>w. row_owner st r t w \<and>
    map uo_owner (filter (\<lambda>x. uo_start x \<le> t \<and> t < uo_end x) (resolve_row (list_bindings None False st) start until r)) = [charge_of r w]"
  using assms by (rule row_charged_to_owner)

definition joe_row :: activity_row where
  "joe_row = \<lparr>ay_view = \<lparr>uv_session_id = ''s'', uv_node_id = ''n'', uv_pid = 1, uv_ppid = None, uv_process_start_time = None,
     uv_parent_start_time = None, uv_user = Some ''joe'', uv_task_name = Some ''t'', uv_session_first_seen_at = 1,
     uv_session_last_seen_at = 9, uv_status = Running, uv_gpu_uuid = ''g'', uv_first_seen_at = 1, uv_last_seen_at = 9,
     uv_avg_memory_mb = 0, uv_gpu_name = None, uv_gpu_index = None, uv_device_type = None, uv_card_id = None\<rparr>, ay_user_uid = Some 1007\<rparr>"

text \<open>A row with its uid, and an old row with the name only, before the account was bound.\<close>

theorem usage_charged_to_owner_witness:
  "\<exists>st. one_binding = Inr st \<and>
     map uo_owner (filter (\<lambda>x. uo_start x \<le> 5 \<and> 5 < uo_end x) (resolve_row (list_bindings None False st) 0 100 joe_row)) = [''user:ub''] \<and>
     map uo_owner (filter (\<lambda>x. uo_start x \<le> 1 \<and> 1 < uo_end x)
       (resolve_row (list_bindings None False st) 0 100 (joe_row\<lparr>ay_user_uid := None\<rparr>))) = [''user:ub'']"
proof -
  obtain st where st: "one_binding = Inr st" and o: "owners_at ''n'' 1007 5 st = [''ub'']" using one_binding_owner by blast
  let ?old = "joe_row\<lparr>ay_user_uid := None\<rparr>"
  have t: "max 0 (uv_first_seen_at (ay_view joe_row)) \<le> 5" "5 < min 100 (uv_last_seen_at (ay_view joe_row))"
    "max 0 (uv_first_seen_at (ay_view ?old)) \<le> 1" "1 < min 100 (uv_last_seen_at (ay_view ?old))"
    by (simp_all add: joe_row_def)
  obtain w where w: "row_owner st joe_row 5 w"
    "map uo_owner (filter (\<lambda>x. uo_start x \<le> 5 \<and> 5 < uo_end x) (resolve_row (list_bindings None False st) 0 100 joe_row)) = [charge_of joe_row w]"
    using usage_charged_to_owner[OF one_binding_reachable[OF st] t(1,2)] by (elim exE conjE) (rule that)
  have "w = Some ''ub''" using w(1) o by (auto simp: row_owner_def joe_row_def Let_def split: option.splits)
  moreover obtain v where v: "row_owner st ?old 1 v"
    "map uo_owner (filter (\<lambda>x. uo_start x \<le> 1 \<and> 1 < uo_end x) (resolve_row (list_bindings None False st) 0 100 ?old)) = [charge_of ?old v]"
    using usage_charged_to_owner[OF one_binding_reachable[OF st] t(3,4)] by (elim exE conjE) (rule that)
  moreover have "v = Some ''ub''"
  proof -
    have "rbind one_binding (\<lambda>st. Inr (map (\<lambda>kb. (lb_node_id (snd kb), lb_unix_username (snd kb), lb_valid_from (snd kb), lb_user_id (snd kb))) (ld_bindings st))) =
      Inr [(''n'', ''joe'', 2, ''ub'')]" by code_simp
    then obtain k b where b: "ld_bindings st = [(k, b)]" "lb_node_id b = ''n''" "lb_unix_username b = ''joe''" "lb_valid_from b = 2" "lb_user_id b = ''ub''"
      unfolding st by (auto simp: map_eq_Cons_conv)
    then have "name_bindings st ''n'' ''joe'' = {b}" by (auto simp: name_bindings_def)
    then show ?thesis using v(1) b by (auto simp: row_owner_def name_owner_def joe_row_def Let_def covers_def split: option.splits)
  qed
  ultimately show ?thesis using st w(2) by (intro exI[of _ st]) (auto simp: charge_of_def)
qed

subsection \<open>Days\<close>

lemma day_midnight [simp]: "day_of (midnight d) = d"
  by (simp add: day_of_def midnight_def)

lemma midnight_le: "midnight d \<le> t \<longleftrightarrow> d \<le> day_of t"
proof -
  have "d \<le> day_of t \<longleftrightarrow> rat_of_int d \<le> (t + 28800) / 86400" by (simp add: day_of_def le_floor_iff)
  also have "\<dots> \<longleftrightarrow> midnight d \<le> t" by (auto simp: midnight_def field_simps)
  finally show ?thesis by simp
qed

lemma day_of_mono: "s \<le> t \<Longrightarrow> day_of s \<le> day_of t"
  by (metis midnight_le order_refl order_trans)

lemma later_days_exact:
  "sorted_wrt (<) (map day_of (later_days d b)) \<and> day_of ` set (later_days d b) = {e. d \<le> e \<and> midnight e < b}"
proof (induction d b rule: later_days.induct)
  case (1 d b)
  show ?case
  proof (cases "midnight d < b")
    case True
    have "{e. d \<le> e \<and> midnight e < b} = insert d {e. d + 1 \<le> e \<and> midnight e < b}" using True by (auto simp: order_le_less zless_imp_add1_zle)
    then show ?thesis using 1 True by (subst (1 2) later_days.simps) (auto simp: image_iff)
  next
    case False
    have "\<not> midnight e < b" if "d \<le> e" for e
    proof -
      have "midnight d \<le> midnight e" using that by (simp add: midnight_le)
      then show ?thesis using False by simp
    qed
    then show ?thesis using False by (subst (1 2) later_days.simps) auto
  qed
qed

text \<open>
  The day loop of a usage record ends after visiting, in order and once each, exactly the calendar
  days the record touches inside the window; a record of no length counts for its own day.
\<close>

theorem observed_days_exact:
  "sorted_wrt (<) (map day_of (observed_days u start until)) \<and>
   set (map day_of (observed_days u start until)) =
     {day_of t |t. max start (uo_start u) \<le> t \<and> t < until \<and> (t < uo_end u \<or> uo_start u = uo_end u \<and> t = uo_end u)}"
proof -
  define a where "a = max start (uo_start u)"
  define b where "b = min until (uo_end u)"
  let ?D = "{day_of t |t. a \<le> t \<and> t < until \<and> (t < uo_end u \<or> uo_start u = uo_end u \<and> t = uo_end u)}"
  have "sorted_wrt (<) (map day_of (observed_days u start until)) \<and> set (map day_of (observed_days u start until)) = ?D"
  proof (cases "b < a \<or> until \<le> a \<or> (b = a \<and> uo_start u \<noteq> uo_end u)")
    case True
    then have "observed_days u start until = []" by (simp only: observed_days_def Let_def a_def b_def if_True)
    moreover have "?D = {}" using True by (auto simp: a_def b_def)
    ultimately show ?thesis by simp
  next
    case False
    then have od: "observed_days u start until = a # later_days (day_of a + 1) b" by (simp only: observed_days_def Let_def a_def b_def if_False)
    have "?D = insert (day_of a) {e. day_of a + 1 \<le> e \<and> midnight e < b}" (is "_ = ?E")
    proof (intro set_eqI iffI)
      fix e assume "e \<in> ?D"
      then obtain t where t: "e = day_of t" "a \<le> t" "t < until" "t < uo_end u \<or> uo_start u = uo_end u \<and> t = uo_end u" by auto
      have "t < b \<or> t = a" using t False by (auto simp: a_def b_def)
      moreover have "midnight e \<le> t" using t(1) by (simp add: midnight_le)
      ultimately show "e \<in> ?E" using day_of_mono[OF t(2)] t(1) by auto
    next
      fix e assume "e \<in> ?E"
      then consider "e = day_of a" | "day_of a < e" "midnight e < b" by fastforce
      then show "e \<in> ?D"
      proof cases
        case 1
        then show ?thesis using False by (auto simp: a_def b_def intro!: exI[of _ a])
      next
        case 2
        then have "\<not> midnight e \<le> a" by (simp add: midnight_le)
        then show ?thesis using 2 by (intro CollectI exI[of _ "midnight e"]) (auto simp: b_def)
      qed
    qed
    moreover have "\<forall>e \<in> day_of ` set (later_days (day_of a + 1) b). day_of a < e" using later_days_exact by auto
    ultimately show ?thesis using later_days_exact[of "day_of a + 1" b] by (simp add: od)
  qed
  then show ?thesis by (simp add: a_def)
qed

end
