(* ===== verification/LabApi.thy ===== *)
theory LabApi
  imports LabProps AgentRpc Cluster
begin

text \<open>
  \<open>packages/lab/src/constella_lab/api.py\<close> and \<open>node_control.py\<close>: the endpoints of the lab.

  An endpoint is a function of the request and the tables; a refusal keeps its HTTP status and code, an
  exception that no handler catches (the framework answers 500) is the value \<open>Uncaught\<close>. An endpoint that waits
  for agents is cut at its waits: what happens before, one step per answered lookup, and what happens
  when all lookups are answered; other requests may run in between. The shapes pydantic enforces on a
  body (lengths, required fields) are checked before an endpoint runs and are not repeated.
\<close>

subsection \<open>Rate limits\<close>

type_synonym limiter = "(string \<times> string, rat list) dict"

text \<open>\<^verbatim>\<open>SlidingWindowLimiter.consume\<close>.\<close>

definition consume :: "rat \<Rightarrow> string \<times> string \<Rightarrow> nat \<Rightarrow> nat \<Rightarrow> rat \<Rightarrow> limiter \<Rightarrow> bool \<times> limiter" where
  "consume now key amount limit window w =
     (let events = dropWhile (\<lambda>t. t \<le> now - window) (get_or w key [])
      in if limit < length events + amount then (False, AList.update key events w)
         else (True, AList.update key (events @ replicate amount now) w))"

subsection \<open>Replies\<close>

datatype reply_error = HttpError int string | Uncaught lab_error

type_synonym 'a reply = "(reply_error + 'a) \<times> lab_db"

text \<open>A transaction of the store whose errors are turned into replies: a failed one leaves the tables.\<close>

definition attempt :: "(lab_error \<Rightarrow> reply_error) \<Rightarrow> lab_db \<Rightarrow> (lab_db \<times> 'a) lab \<Rightarrow> 'a reply" where
  "attempt handler st r = (case r of Inl e \<Rightarrow> (Inl (handler e), st) | Inr (st', v) \<Rightarrow> (Inr v, st'))"

definition refuse :: "int \<Rightarrow> string \<Rightarrow> lab_db \<Rightarrow> 'a reply" where
  "refuse status code st = (Inl (HttpError status code), st)"

text \<open>\<^verbatim>\<open>except ValueError\<close>; \<^verbatim>\<open>except BindingConflictError\<close>; \<^verbatim>\<open>except (ValueError, LabStoreError)\<close>.\<close>

fun is_store_error :: "lab_error \<Rightarrow> bool" where
  "is_store_error IntegrityError = False"
| "is_store_error (LabValueError _) = False"
| "is_store_error _ = True"

fun is_value_error :: "lab_error \<Rightarrow> bool" where
  "is_value_error (LabValueError _) = True"
| "is_value_error _ = False"

definition on_error :: "(lab_error \<Rightarrow> bool) \<Rightarrow> int \<Rightarrow> string \<Rightarrow> lab_error \<Rightarrow> reply_error" where
  "on_error P status code e = (if P e then HttpError status code else Uncaught e)"

subsection \<open>The signed-in user\<close>

text \<open>The row the authentication put into the request: the id and what it was at that time.\<close>

type_synonym session_user = "string \<times> lab_user"

definition is_member :: "session_user \<Rightarrow> bool" where
  "is_member user \<longleftrightarrow> lu_role (snd user) = Member \<or> lu_role (snd user) = Admin"

definition require_member :: "session_user \<Rightarrow> lab_db \<Rightarrow> 'a reply \<Rightarrow> 'a reply" where
  "require_member user st k = (if is_member user then k else refuse 403 ''member_required'' st)"

definition require_admin :: "session_user \<Rightarrow> lab_db \<Rightarrow> 'a reply \<Rightarrow> 'a reply" where
  "require_admin user st k = (if lu_role (snd user) = Admin then k else refuse 403 ''admin_required'' st)"

subsection \<open>The own profile\<close>

definition me :: "session_user \<Rightarrow> lab_db \<Rightarrow> user_view option reply" where
  "me user st = (Inr (user_with_bindings (fst user) st), st)"

definition post_readonly :: "session_user \<Rightarrow> string \<Rightarrow> rat \<Rightarrow> lab_db \<Rightarrow> user_view option reply" where
  "post_readonly user request_id now st =
     attempt (on_error is_value_error 409 ''readonly_onboarding_unavailable'') st (choose_readonly (fst user) request_id now st)"

text \<open>The profile is changed and then audited in a transaction of its own.\<close>

definition update_me :: "session_user \<Rightarrow> string option \<Rightarrow> string \<Rightarrow> rat \<Rightarrow> lab_db \<Rightarrow> user_view reply" where
  "update_me user display_name request_id now st =
     require_member user st
       (case update_profile (fst user) display_name now st of
          Inl e \<Rightarrow> (Inl (Uncaught e), st)
        | Inr (st1, v) \<Rightarrow>
            attempt Uncaught st1 (rbind (audit_sql (Some (fst user)) ''user.profile_updated'' ''user'' (Some (fst user)) request_id [] now st1)
              (\<lambda>st2. Inr (st2, v))))"

record binding_node =
  bn_node_id :: string
  bn_hostname :: string
  bn_status :: node_status
  bn_connected :: bool
  bn_supported :: bool

definition binding_nodes :: "session_user \<Rightarrow> rat \<Rightarrow> broker \<Rightarrow> cluster_state \<Rightarrow> (reply_error + binding_node list) \<times> cluster_state" where
  "binding_nodes user now b cl =
     (if \<not> is_member user then (Inl (HttpError 403 ''member_required''), cl)
      else let cl1 = snd (take_snapshot now cl)
           in (Inr (map (\<lambda>(n, r). \<lparr>bn_node_id = n, bn_hostname = r_hostname r, bn_status = s_status (r_snapshot r),
                  bn_connected = r_connected r,
                  bn_supported = (case node_capabilities n b of None \<Rightarrow> False
                    | Some d \<Rightarrow> map_of d ''account_lookup_v1'' = Some (PBool True))\<rparr>)
                (sort_key fst (k_latest cl1))), cl1))"

subsection \<open>Asking the agents about accounts\<close>

record lab_config =
  lc_account_uid_min :: int
  lc_account_uid_max :: int
  lc_account_deny_users :: "string list"
  lc_username_ok :: "string \<Rightarrow> bool"
  lc_bootstrap_admin_email :: string
  lc_public_origin :: string

text \<open>\<^verbatim>\<open>^[a-z_][a-z0-9_-]{0,31}$\<close> under \<^verbatim>\<open>fullmatch\<close>; the pattern can be configured.\<close>

definition name_start :: "char \<Rightarrow> bool" where
  "name_start c \<longleftrightarrow> c \<in> set ''abcdefghijklmnopqrstuvwxyz_''"

definition default_username :: "string \<Rightarrow> bool" where
  "default_username s \<longleftrightarrow> s \<noteq> [] \<and> name_start (hd s) \<and> length s \<le> 32 \<and>
     list_all (\<lambda>c. name_start c \<or> is_digit c \<or> c = CHR ''-'') s"

definition default_config :: "string \<Rightarrow> string \<Rightarrow> lab_config" where
  "default_config admin_email origin =
     \<lparr>lc_account_uid_min = 1000, lc_account_uid_max = 2147483647, lc_account_deny_users = [''root'', ''constella''],
      lc_username_ok = default_username, lc_bootstrap_admin_email = admin_email, lc_public_origin = origin\<rparr>"

text \<open>A Python \<^verbatim>\<open>bool\<close> is an \<^verbatim>\<open>int\<close>.\<close>

fun as_int :: "pyval \<Rightarrow> int option" where
  "as_int (PInt i) = Some i"
| "as_int (PBool b) = Some (if b then 1 else 0)"
| "as_int _ = None"

definition ends_with :: "string \<Rightarrow> string \<Rightarrow> bool" where
  "ends_with s suffix \<longleftrightarrow> length suffix \<le> length s \<and> drop (length s - length suffix) s = suffix"

definition account_rejection_reason :: "(string, pyval) dict \<Rightarrow> lab_config \<Rightarrow> string option" where
  "account_rejection_reason result config =
     (if dget result ''ok'' \<noteq> PBool True then Some ''lookup_failed''
      else if dget result ''exists'' \<noteq> PBool True then Some ''account_not_found''
      else
        let shell = py_str (py_or (dget result ''shell'') (PStr []))
        in case dget result ''canonical_username'' of
             PStr name \<Rightarrow>
               if name \<in> set (lc_account_deny_users config) then Some ''denied_username''
               else if \<not> lc_username_ok config name then Some ''denied_username''
               else (case as_int (dget result ''uid'') of
                   None \<Rightarrow> Some ''denied_uid''
                 | Some uid \<Rightarrow>
                     if \<not> (lc_account_uid_min config \<le> uid \<and> uid \<le> lc_account_uid_max config) then Some ''denied_uid''
                     else if ends_with shell ''/nologin'' \<or> ends_with shell ''/false'' then Some ''denied_shell''
                     else None)
           | _ \<Rightarrow> Some ''denied_username'')"

definition public_rejection_error :: "string \<Rightarrow> string" where
  "public_rejection_error reason =
     get_or [(''lookup_failed'', ''account_lookup_failed''), (''account_not_found'', ''account_not_found''),
       (''denied_username'', ''username_not_allowed''), (''denied_uid'', ''uid_not_allowed''),
       (''denied_shell'', ''login_disabled'')] reason ''account_not_bindable''"

text \<open>
  The result of a lookup. A group id that is neither an integer nor absent cannot be stored in the model; the
  agents only send integers.
\<close>

datatype lookup_result = NotBindable string string | Bindable account

definition lookup_error :: "rpc_error \<Rightarrow> string" where
  "lookup_error e =
     (case e of AgentCapability _ \<Rightarrow> ''account_lookup_unsupported''
      | AgentUnavailable _ \<Rightarrow> ''node_offline''
      | AgentRpcTimeout _ \<Rightarrow> ''account_lookup_unavailable'')"

definition confirmed_account :: "string \<Rightarrow> (string, pyval) dict \<Rightarrow> account" where
  "confirmed_account node_id result =
     \<lparr>ac_node_id = node_id, ac_uid = (case as_int (dget result ''uid'') of Some u \<Rightarrow> u | None \<Rightarrow> 0),
      ac_gid = as_int (dget result ''gid''),
      ac_canonical_username = (case dget result ''canonical_username'' of PStr n \<Rightarrow> n | _ \<Rightarrow> [])\<rparr>"

text \<open>
  One lookup, with the outcome of \<^verbatim>\<open>agent_rpc.account_lookup\<close>. A rejection is audited with the id the endpoint
  passes as the actor.
\<close>

definition lookup_account ::
    "lab_config \<Rightarrow> string \<Rightarrow> string \<Rightarrow> rat \<Rightarrow> bool \<Rightarrow> string \<times> string \<Rightarrow> rpc_error + (string, pyval) dict \<Rightarrow> lab_db
      \<Rightarrow> (lab_error + lookup_result) \<times> lab_db" where
  "lookup_account config user_id request_id now ignore_conflict account outcome st =
     (case account of (node_id, username) \<Rightarrow>
        if \<not> lc_username_ok config username then (Inr (NotBindable node_id ''invalid_username''), st)
        else (case outcome of
            Inl e \<Rightarrow> (Inr (NotBindable node_id (lookup_error e)), st)
          | Inr result \<Rightarrow>
              (case account_rejection_reason result config of
                 Some reason \<Rightarrow>
                   (case audit_sql (Some user_id) ''account.lookup_rejected'' ''node'' (Some node_id) request_id
                           [(''reason'', PStr reason)] now st of
                      Inl e \<Rightarrow> (Inl e, st)
                    | Inr st1 \<Rightarrow> (Inr (NotBindable node_id (public_rejection_error reason)), st1))
               | None \<Rightarrow>
                   let acc = confirmed_account node_id result
                   in if \<not> ignore_conflict \<and> \<not> can_bind user_id node_id (ac_uid acc) st
                      then (Inr (NotBindable node_id ''account_already_bound''), st)
                      else (Inr (Bindable acc), st))))"

text \<open>\<^verbatim>\<open>asyncio.gather\<close>: every lookup runs, the results keep the order of the accounts, the first exception is raised.\<close>

fun lookup_accounts ::
    "lab_config \<Rightarrow> string \<Rightarrow> string \<Rightarrow> rat \<Rightarrow> bool \<Rightarrow> ((string \<times> string) \<times> (rpc_error + (string, pyval) dict)) list \<Rightarrow> lab_db
      \<Rightarrow> (lab_error + lookup_result list) \<times> lab_db" where
  "lookup_accounts config user_id request_id now ignore_conflict [] st = (Inr [], st)"
| "lookup_accounts config user_id request_id now ignore_conflict ((account, outcome) # rest) st =
     (case lookup_account config user_id request_id now ignore_conflict account outcome st of
        (r, st1) \<Rightarrow>
          (case lookup_accounts config user_id request_id now ignore_conflict rest st1 of
             (rs, st2) \<Rightarrow> (rbind r (\<lambda>x. rbind rs (\<lambda>xs. Inr (x # xs))), st2)))"

definition unique_nodes :: "(string \<times> string) list \<Rightarrow> bool" where
  "unique_nodes accounts \<longleftrightarrow> distinct (map fst accounts)"

subsection \<open>Binding accounts\<close>

text \<open>Both limits of the preview; the tokens of the minute are spent even when the day refuses.\<close>

definition admit_preview :: "rat \<Rightarrow> string \<Rightarrow> nat \<Rightarrow> limiter \<Rightarrow> bool \<times> limiter" where
  "admit_preview now user_id n w =
     (case consume now (user_id, ''lookup-minute'') n 10 60 w of
        (False, w1) \<Rightarrow> (False, w1)
      | (True, w1) \<Rightarrow> consume now (user_id, ''lookup-day'') n 50 86400 w1)"

definition admit_binding :: "rat \<Rightarrow> string \<Rightarrow> limiter \<Rightarrow> bool \<times> limiter" where
  "admit_binding now user_id w = consume now (user_id, ''binding-day'') 1 5 86400 w"

text \<open>What both endpoints do before they ask the agents.\<close>

definition begin_lookups ::
    "(string \<Rightarrow> limiter \<Rightarrow> bool \<times> limiter) \<Rightarrow> string \<Rightarrow> session_user \<Rightarrow> (string \<times> string) list \<Rightarrow> limiter
      \<Rightarrow> (reply_error + unit) \<times> limiter" where
  "begin_lookups admit code user accounts w =
     (if \<not> is_member user then (Inl (HttpError 403 ''member_required''), w)
      else if \<not> unique_nodes accounts then (Inl (HttpError 422 ''duplicate node_id''), w)
      else case admit (fst user) w of
          (False, w1) \<Rightarrow> (Inl (HttpError 429 code), w1)
        | (True, w1) \<Rightarrow> (Inr (), w1))"

definition begin_preview :: "rat \<Rightarrow> session_user \<Rightarrow> (string \<times> string) list \<Rightarrow> limiter \<Rightarrow> (reply_error + unit) \<times> limiter" where
  "begin_preview now user accounts =
     begin_lookups (\<lambda>u. admit_preview now u (length accounts)) ''account_lookup_rate_limited'' user accounts"

definition begin_binding :: "rat \<Rightarrow> session_user \<Rightarrow> (string \<times> string) list \<Rightarrow> limiter \<Rightarrow> (reply_error + unit) \<times> limiter" where
  "begin_binding now user accounts = begin_lookups (admit_binding now) ''account_binding_rate_limited'' user accounts"

fun bindable_accounts :: "lookup_result list \<Rightarrow> account list option" where
  "bindable_accounts [] = Some []"
| "bindable_accounts (NotBindable _ _ # _) = None"
| "bindable_accounts (Bindable a # rest) = map_option ((#) a) (bindable_accounts rest)"

text \<open>The ids are the random ids of the new bindings.\<close>

definition finish_binding ::
    "session_user \<Rightarrow> string list \<Rightarrow> string \<Rightarrow> rat \<Rightarrow> lookup_result list \<Rightarrow> lab_db
      \<Rightarrow> (string \<times> binding \<times> string \<times> string option) list reply" where
  "finish_binding user new_ids request_id now results st =
     (case bindable_accounts results of
        None \<Rightarrow> refuse 422 ''account_batch_not_bindable'' st
      | Some accounts \<Rightarrow>
          attempt (on_error (\<lambda>e. e = BindingConflictError) 409 ''account_binding_conflict'') st
            (create_bindings (fst user) (zip new_ids accounts) (fst user) request_id SelfClaimed None now st))"

definition delete_binding :: "session_user \<Rightarrow> string \<Rightarrow> string \<Rightarrow> rat \<Rightarrow> lab_db \<Rightarrow> bool reply" where
  "delete_binding user bid request_id now st =
     require_member user st
       (case attempt Uncaught st (end_binding bid (fst user) (Some (fst user)) request_id BRevoked None now st) of
          (Inr False, st1) \<Rightarrow> refuse 404 ''binding_not_found'' st1
        | r \<Rightarrow> r)"

subsection \<open>Administration\<close>

definition admin_users :: "session_user \<Rightarrow> string option \<Rightarrow> lab_db \<Rightarrow> (string \<times> lab_user \<times> nat) list reply" where
  "admin_users user q st = require_admin user st (Inr (list_users q st), st)"

fun update_refusal :: "lab_error \<Rightarrow> reply_error" where
  "update_refusal LastAdminError = HttpError 409 ''last_active_admin''"
| "update_refusal IntegrityError = Uncaught IntegrityError"
| "update_refusal _ = HttpError 422 ''invalid_user_update''"

definition patch_user ::
    "session_user \<Rightarrow> string \<Rightarrow> string option \<Rightarrow> string option \<Rightarrow> string option \<Rightarrow> string \<Rightarrow> rat \<Rightarrow> lab_db \<Rightarrow> user_view reply" where
  "patch_user user user_id role status display_name request_id now st =
     require_admin user st
       (attempt update_refusal st (admin_update_user user_id (fst user) request_id role status display_name now st))"

definition post_migration ::
    "session_user \<Rightarrow> string \<Rightarrow> string \<Rightarrow> string \<Rightarrow> string \<Rightarrow> rat \<Rightarrow> lab_db \<Rightarrow> user_view reply" where
  "post_migration user user_id pending_user_id reason request_id now st =
     require_admin user st
       (attempt (on_error (\<lambda>e. is_value_error e \<or> is_store_error e) 422 ''invalid_identity_migration'') st
         (migrate_identity user_id pending_user_id (fst user) request_id reason now st))"

definition admin_bindings :: "session_user \<Rightarrow> lab_db \<Rightarrow> (string \<times> binding \<times> string \<times> string option) list reply" where
  "admin_bindings user st = require_admin user st (Inr (list_bindings None True st), st)"

text \<open>The account is looked up for the target user before this; only a conflict is caught.\<close>

definition finish_reassign ::
    "session_user \<Rightarrow> string \<Rightarrow> string \<Rightarrow> string \<Rightarrow> string \<Rightarrow> rat \<Rightarrow> lookup_result \<Rightarrow> lab_db \<Rightarrow> binding option reply" where
  "finish_reassign user user_id reason new_id request_id now result st =
     (case result of
        NotBindable _ _ \<Rightarrow> refuse 422 ''account_not_bindable'' st
      | Bindable account \<Rightarrow>
          attempt (on_error (\<lambda>e. e = BindingConflictError) 409 ''account_binding_conflict'') st
            (reassign_binding new_id user_id account (fst user) request_id reason now st))"

definition post_reassign ::
    "lab_config \<Rightarrow> session_user \<Rightarrow> string \<Rightarrow> string \<times> string \<Rightarrow> string \<Rightarrow> string \<Rightarrow> string \<Rightarrow> rat
      \<Rightarrow> rpc_error + (string, pyval) dict \<Rightarrow> lab_db \<Rightarrow> binding option reply" where
  "post_reassign config user user_id account reason new_id request_id now outcome st =
     require_admin user st
       (case lookup_account config user_id request_id now True account outcome st of
          (Inl e, st1) \<Rightarrow> (Inl (Uncaught e), st1)
        | (Inr result, st1) \<Rightarrow> finish_reassign user user_id reason new_id request_id now result st1)"

definition post_verify :: "session_user \<Rightarrow> string \<Rightarrow> string \<Rightarrow> rat \<Rightarrow> lab_db \<Rightarrow> binding option reply" where
  "post_verify user bid request_id now st =
     require_admin user st
       (case attempt Uncaught st (verify_binding bid (fst user) request_id now st) of
          (Inr None, st1) \<Rightarrow> refuse 404 ''binding_not_found'' st1
        | r \<Rightarrow> r)"

definition audit_events :: "session_user \<Rightarrow> int \<Rightarrow> int \<Rightarrow> lab_db \<Rightarrow> (audit_event \<times> string option) list reply" where
  "audit_events user limit skip st = require_admin user st (Inr (list_audit_events limit skip st), st)"

subsection \<open>Restarting an agent\<close>

record node_view =
  nv_node_id :: string
  nv_hostname :: string
  nv_status :: node_status
  nv_connected :: bool
  nv_restart_supported :: bool
  nv_manager_host :: bool
  nv_agent_version :: pyval
  nv_agent_instance_id :: pyval
  nv_last_seen_at :: "rat option"

definition list_nodes :: "session_user \<Rightarrow> string \<Rightarrow> rat \<Rightarrow> broker \<Rightarrow> cluster_state \<Rightarrow> (reply_error + node_view list) \<times> cluster_state" where
  "list_nodes user hostname now b cl =
     (if lu_role (snd user) \<noteq> Admin then (Inl (HttpError 403 ''admin_required''), cl)
      else let (snap, cl1) = take_snapshot now cl
           in (Inr (map (\<lambda>n. let caps = node_capabilities (s_node_id n) b; d = (case caps of None \<Rightarrow> [] | Some c \<Rightarrow> c)
                in \<lparr>nv_node_id = s_node_id n, nv_hostname = s_hostname n, nv_status = s_status n, nv_connected = (caps \<noteq> None),
                    nv_restart_supported = (map_of d ''agent_restart_v1'' = Some (PBool True)),
                    nv_manager_host = (s_hostname n = hostname), nv_agent_version = s_agent_version n,
                    nv_agent_instance_id = dget d ''agent_instance_id'', nv_last_seen_at = s_received_at n\<rparr>)
                (sort_key s_node_id (c_nodes snap))), cl1))"

definition audit_restart :: "session_user \<Rightarrow> string \<Rightarrow> string \<Rightarrow> rat \<Rightarrow> string \<Rightarrow> lab_db \<Rightarrow> lab_db lab" where
  "audit_restart user node_id request_id now outcome =
     audit_sql (Some (fst user)) (''agent.restart_'' @ outcome) ''node'' (Some node_id) request_id [(''scope'', PStr ''agent'')] now"

text \<open>Up to the request to the agent: the intent is in the log before anything is sent.\<close>

definition begin_restart ::
    "session_user \<Rightarrow> string \<Rightarrow> string \<Rightarrow> string \<Rightarrow> rat \<Rightarrow> broker \<Rightarrow> limiter \<Rightarrow> lab_db
      \<Rightarrow> (reply_error + (rpc_error + request_key) \<times> broker) \<times> limiter \<times> lab_db" where
  "begin_restart user node_id rpc_id request_id now b w st =
     (if lu_role (snd user) \<noteq> Admin then (Inl (HttpError 403 ''admin_required''), w, st)
      else case node_capabilities node_id b of
          None \<Rightarrow> (Inl (HttpError 409 ''node_offline''), w, st)
        | Some caps \<Rightarrow>
            if map_of caps ''agent_restart_v1'' \<noteq> Some (PBool True) then (Inl (HttpError 409 ''agent_restart_unsupported''), w, st)
            else case consume now (node_id, ''restart'') 1 1 60 w of
                (False, w1) \<Rightarrow> (Inl (HttpError 429 ''agent_restart_cooldown''), w1, st)
              | (True, w1) \<Rightarrow>
                  (case audit_restart user node_id request_id now ''requested'' st of
                     Inl e \<Rightarrow> (Inl (Uncaught e), w1, st)
                   | Inr st1 \<Rightarrow> (Inr (restart_start node_id rpc_id b), w1, st1)))"

definition restart_verdict :: "rpc_error + (string, pyval) dict \<Rightarrow> string \<times> reply_error option" where
  "restart_verdict outcome =
     (case outcome of
        Inl (AgentRpcTimeout _) \<Rightarrow> (''unconfirmed'', Some (HttpError 504 ''agent_restart_unconfirmed''))
      | Inl _ \<Rightarrow> (''unconfirmed'', Some (HttpError 409 ''agent_restart_unconfirmed''))
      | Inr response \<Rightarrow>
          if dget response ''ok'' \<noteq> PBool True then (''rejected'', Some (HttpError 502 ''agent_restart_rejected''))
          else (''accepted'', None))"

definition finish_restart ::
    "session_user \<Rightarrow> string \<Rightarrow> string \<Rightarrow> rat \<Rightarrow> rpc_error + (string, pyval) dict \<Rightarrow> lab_db \<Rightarrow> unit reply" where
  "finish_restart user node_id request_id now outcome st =
     (case restart_verdict outcome of
        (word, err) \<Rightarrow>
          (case audit_restart user node_id request_id now word st of
             Inl e \<Rightarrow> (Inl (Uncaught e), st)
           | Inr st1 \<Rightarrow> ((case err of None \<Rightarrow> Inr () | Some e \<Rightarrow> Inl e), st1)))"

end
