(* ===== verification/LabApiProps.thy ===== *)
theory LabApiProps
  imports LabApi
begin

text \<open>
  What the endpoints of the lab guarantee: the rate limits hold in every window, a user is only bound to
  accounts an agent confirmed and the configuration allows, and a restart is in the log before it is sent.
\<close>

subsection \<open>The limits hold in every window\<close>

type_synonym call = "rat \<times> (string \<times> string) \<times> nat"

text \<open>The calls that are let through.\<close>

fun granted :: "(string \<times> string \<Rightarrow> nat) \<Rightarrow> (string \<times> string \<Rightarrow> rat) \<Rightarrow> call list \<Rightarrow> limiter \<Rightarrow> call list" where
  "granted limit window [] w = []"
| "granted limit window ((now, key, amount) # rest) w =
     (case consume now key amount (limit key) (window key) w of
        (ok, w1) \<Rightarrow> (if ok then [(now, key, amount)] else []) @ granted limit window rest w1)"

definition tokens_in :: "rat \<Rightarrow> rat \<Rightarrow> string \<times> string \<Rightarrow> call list \<Rightarrow> nat" where
  "tokens_in lo hi key calls = sum_list (map (\<lambda>(t, k, n). if k = key \<and> lo < t \<and> t \<le> hi then n else 0) calls)"

definition times_of :: "string \<times> string \<Rightarrow> call list \<Rightarrow> rat list" where
  "times_of key calls = concat (map (\<lambda>(t, k, n). if k = key then replicate n t else []) calls)"

lemma tokens_in_times: "tokens_in lo hi key calls = length (filter (\<lambda>t. lo < t \<and> t \<le> hi) (times_of key calls))"
  by (induction calls) (auto simp: tokens_in_def times_of_def)

lemma dropWhile_sorted: "sorted xs \<Longrightarrow> dropWhile (\<lambda>t. t \<le> c) xs = filter (\<lambda>t. c < t) (xs :: rat list)"
  by (induction xs) (auto intro!: filter_True[symmetric])

definition window_ok :: "nat \<Rightarrow> rat \<Rightarrow> rat list \<Rightarrow> bool" where
  "window_ok limit window ts \<longleftrightarrow> (\<forall>T. length (filter (\<lambda>t. T - window < t \<and> t \<le> T) ts) \<le> limit)"

lemma window_ok_append:
  assumes "window_ok limit window ts" "length (filter (\<lambda>t. now - window < t) ts) + n \<le> limit"
  shows "window_ok limit window (ts @ replicate n now)"
  unfolding window_ok_def
proof
  fix T
  show "length (filter (\<lambda>t. T - window < t \<and> t \<le> T) (ts @ replicate n now)) \<le> limit"
  proof (cases "T < now")
    case True
    then show ?thesis using assms(1) by (simp add: window_ok_def)
  next
    case False
    have "length (filter (\<lambda>t. T - window < t \<and> t \<le> T) ts) \<le> length (filter (\<lambda>t. now - window < t) ts)"
      using False by (induction ts) auto
    moreover have "length (filter (\<lambda>t. T - window < t \<and> t \<le> T) (replicate n now)) \<le> n"
      by (metis length_filter_le length_replicate)
    ultimately show ?thesis using assms(2) by simp
  qed
qed

text \<open>What the limiter knows about one key: the tokens that can still matter.\<close>

definition remembers :: "rat \<Rightarrow> rat \<Rightarrow> rat list \<Rightarrow> rat list \<Rightarrow> bool" where
  "remembers window now ts events \<longleftrightarrow> sorted ts \<and> (\<forall>t \<in> set ts. t \<le> now) \<and>
     (\<exists>c \<le> now - window. events = filter (\<lambda>t. c < t) ts)"

lemma remembers_later:
  assumes "remembers window now ts events" "now \<le> later"
  shows "remembers window later ts events"
proof -
  obtain c where "c \<le> now - window" "events = filter (\<lambda>t. c < t) ts" using assms(1) by (auto simp: remembers_def)
  then have "c \<le> later - window \<and> events = filter (\<lambda>t. c < t) ts" using assms(2) by simp
  then show ?thesis using assms unfolding remembers_def by (metis order_trans)
qed

lemma remembers_purge:
  assumes "remembers window now ts events"
  shows "dropWhile (\<lambda>t. t \<le> now - window) events = filter (\<lambda>t. now - window < t) ts"
proof -
  obtain c where c: "c \<le> now - window" "events = filter (\<lambda>t. c < t) ts" using assms by (auto simp: remembers_def)
  have "sorted events" using assms by (simp add: remembers_def c(2) sorted_wrt_filter)
  then show ?thesis using c by (auto simp: dropWhile_sorted c(2) intro!: filter_cong)
qed

lemma granted_ok:
  assumes "0 < window key" "sorted (now # map fst calls)" "remembers (window key) now ts (get_or w key [])" "window_ok (limit key) (window key) ts"
  shows "window_ok (limit key) (window key) (ts @ times_of key (granted limit window calls w))"
  using assms
proof (induction calls arbitrary: w now ts)
  case Nil
  then show ?case by (simp add: times_of_def)
next
  case (Cons call rest)
  obtain t k n where call: "call = (t, k, n)" by (cases call)
  have t: "now \<le> t" "sorted (t # map fst rest)" using Cons.prems(2) by (auto simp: call)
  have r: "remembers (window key) t ts (get_or w key [])" using remembers_later[OF Cons.prems(3) t(1)] .
  show ?case
  proof (cases "k = key")
    case False
    obtain good w1 where c: "consume t k n (limit k) (window k) w = (good, w1)" by (cases "consume t k n (limit k) (window k) w")
    then have "get_or w1 key [] = get_or w key []" using False by (auto simp: consume_def Let_def get_or_def map_of_update split: if_splits)
    then show ?thesis using Cons.IH[OF Cons.prems(1) t(2), of ts w1] r Cons.prems(4) False by (simp add: call c times_of_def)
  next
    case True
    let ?events = "filter (\<lambda>s. t - window key < s) ts"
    have ev: "dropWhile (\<lambda>s. s \<le> t - window key) (get_or w key []) = ?events" by (rule remembers_purge[OF r])
    show ?thesis
    proof (cases "limit key < length ?events + n")
      case True
      have c: "consume t key n (limit key) (window key) w = (False, AList.update key ?events w)"
        using True by (simp add: consume_def ev)
      have "remembers (window key) t ts ?events" using r by (auto simp: remembers_def)
      then show ?thesis using Cons.IH[OF Cons.prems(1) t(2), of ts "AList.update key ?events w"] Cons.prems(4) \<open>k = key\<close>
        by (simp add: call c get_or_def map_of_update)
    next
      case False
      have c: "consume t key n (limit key) (window key) w = (True, AList.update key (?events @ replicate n t) w)"
        using False by (simp add: consume_def ev)
      let ?ts2 = "ts @ replicate n t"
      have "window_ok (limit key) (window key) ?ts2" using window_ok_append[OF Cons.prems(4), of t n] False by simp
      moreover have "remembers (window key) t ?ts2 (?events @ replicate n t)"
        using r Cons.prems(1) by (auto simp: remembers_def sorted_append intro!: exI[of _ "t - window key"] filter_True[symmetric])
      ultimately show ?thesis using Cons.IH[OF Cons.prems(1) t(2), of ?ts2 "AList.update key (?events @ replicate n t) w"] \<open>k = key\<close>
        by (simp add: call c get_or_def map_of_update times_of_def)
    qed
  qed
qed

text \<open>
  C31: whatever the order of the calls, whoever makes them and whenever, in no window of the length of a
  key does the limiter let through more than the limit of the key.
\<close>

theorem limiter_bound:
  assumes "sorted (map fst calls)" "0 < window key"
  shows "tokens_in (T - window key) T key (granted limit window calls []) \<le> limit key"
proof (cases calls)
  case Nil
  then show ?thesis by (simp add: tokens_in_def)
next
  case (Cons call rest)
  have "remembers (window key) (fst call) [] (get_or [] key [])" by (auto simp: remembers_def get_or_def)
  moreover have "sorted (fst call # map fst calls)" using assms(1) by (simp add: Cons)
  moreover have "window_ok (limit key) (window key) []" by (simp add: window_ok_def)
  ultimately have "window_ok (limit key) (window key) ([] @ times_of key (granted limit window calls []))"
    using granted_ok assms(2) by blast
  then show ?thesis by (simp add: window_ok_def tokens_in_times)
qed

definition preview_calls :: "call list" where
  "preview_calls = [(0, (''u'', ''lookup-minute''), 6), (30, (''u'', ''lookup-minute''), 5), (59, (''u'', ''lookup-minute''), 4),
     (60, (''u'', ''lookup-minute''), 6)]"

theorem limiter_bound_witness:
  "sorted (map fst preview_calls) \<and>
   map (\<lambda>(t, k, n). (t, n)) (granted (\<lambda>_. 10) (\<lambda>_. 60) preview_calls []) = [(0, 6), (59, 4), (60, 6)] \<and>
   tokens_in (60 - 60) 60 (''u'', ''lookup-minute'') (granted (\<lambda>_. 10) (\<lambda>_. 60) preview_calls []) \<le> 10"
proof (intro conjI)
  show s: "sorted (map fst preview_calls)" by (simp add: preview_calls_def)
  show "map (\<lambda>(t, k, n). (t, n)) (granted (\<lambda>_. 10) (\<lambda>_. 60) preview_calls []) = [(0, 6), (59, 4), (60, 6)]" by code_simp
  show "tokens_in (60 - 60) 60 (''u'', ''lookup-minute'') (granted (\<lambda>_. 10) (\<lambda>_. 60) preview_calls []) \<le> 10"
    using limiter_bound[OF s, of "\<lambda>_. 60" "(''u'', ''lookup-minute'')" 60 "\<lambda>_. 10"] by simp
qed

subsection \<open>Who is bound to what\<close>

text \<open>An answer of an agent that lets an account be bound, and the binding made from it.\<close>

definition allows :: "lab_config \<Rightarrow> (string, pyval) dict \<Rightarrow> string \<Rightarrow> int \<Rightarrow> bool" where
  "allows config result name uid \<longleftrightarrow>
     map_of result ''ok'' = Some (PBool True) \<and> map_of result ''exists'' = Some (PBool True) \<and>
     map_of result ''canonical_username'' = Some (PStr name) \<and>
     name \<notin> set (lc_account_deny_users config) \<and> lc_username_ok config name \<and>
     as_int (dget result ''uid'') = Some uid \<and>
     lc_account_uid_min config \<le> uid \<and> uid \<le> lc_account_uid_max config \<and>
     (\<forall>shell. map_of result ''shell'' = Some (PStr shell) \<longrightarrow> \<not> ends_with shell ''/nologin'' \<and> \<not> ends_with shell ''/false'')"

lemma dget_eq: "v \<noteq> PNone \<Longrightarrow> dget d k = v \<longleftrightarrow> map_of d k = Some v"
  by (auto simp: dget_def split: option.splits)

lemma accepted_allows:
  assumes "account_rejection_reason result config = None"
  shows "allows config result (ac_canonical_username (confirmed_account n result)) (ac_uid (confirmed_account n result))"
proof -
  have ok: "dget result ''ok'' = PBool True" "dget result ''exists'' = PBool True"
    using assms by (auto simp: account_rejection_reason_def split: if_splits)
  obtain name where name: "dget result ''canonical_username'' = PStr name"
    using assms ok by (cases "dget result ''canonical_username''") (auto simp: account_rejection_reason_def Let_def split: if_splits)
  obtain uid where uid: "as_int (dget result ''uid'') = Some uid"
    using assms ok name by (cases "as_int (dget result ''uid'')") (auto simp: account_rejection_reason_def Let_def split: if_splits)
  have m: "map_of result ''ok'' = Some (PBool True)" "map_of result ''exists'' = Some (PBool True)"
    "map_of result ''canonical_username'' = Some (PStr name)" using ok name by (simp_all add: dget_eq)
  have shell: "dget result ''shell'' = PStr shell" if "map_of result ''shell'' = Some (PStr shell)" for shell
    using that by (simp add: dget_def)
  have "py_str (py_or (PStr shell) (PStr [])) = shell" for shell by (simp add: py_or_def)
  then show ?thesis using assms
    by (auto simp: account_rejection_reason_def Let_def allows_def confirmed_account_def ok name uid m dest: shell split: if_splits)
qed

text \<open>One answered lookup of a binding request of the user, at some moment and in some state of the tables.\<close>

definition looked_up :: "lab_config \<Rightarrow> string \<Rightarrow> (string \<times> string) \<times> (rpc_error + (string, pyval) dict) \<Rightarrow> lookup_result \<Rightarrow> bool" where
  "looked_up config user_id asked r \<longleftrightarrow>
     (\<exists>request_id now st st'. lookup_account config user_id request_id now False (fst asked) (snd asked) st = (Inr r, st'))"

text \<open>The answer of the agent that was asked confirms the account of a binding.\<close>

definition confirms :: "lab_config \<Rightarrow> (string \<times> string) \<times> (rpc_error + (string, pyval) dict) \<Rightarrow> string \<Rightarrow> string \<Rightarrow> int \<Rightarrow> bool" where
  "confirms config asked node name uid \<longleftrightarrow>
     fst (fst asked) = node \<and> lc_username_ok config (snd (fst asked)) \<and> (\<exists>answer. snd asked = Inr answer \<and> allows config answer name uid)"

lemma looked_up_bindable:
  assumes "looked_up config user_id asked (Bindable acc)"
  shows "confirms config asked (ac_node_id acc) (ac_canonical_username acc) (ac_uid acc)"
proof -
  obtain node username outcome where q: "asked = ((node, username), outcome)" by (cases asked) auto
  obtain request_id now st st' where
    l: "lookup_account config user_id request_id now False (node, username) outcome st = (Inr (Bindable acc), st')"
    using assms by (auto simp: looked_up_def q)
  obtain answer where a: "outcome = Inr answer" "account_rejection_reason answer config = None"
    "acc = confirmed_account node answer" "lc_username_ok config username"
    using l by (auto simp: lookup_account_def Let_def split: if_splits sum.splits option.splits)
  have "ac_node_id acc = node" by (simp add: a(3) confirmed_account_def)
  moreover have "allows config answer (ac_canonical_username acc) (ac_uid acc)"
    using accepted_allows[OF a(2), of node] by (simp only: a(3))
  ultimately show ?thesis using a(1,4) by (simp add: confirms_def q)
qed

lemma bindable_accounts_member: "bindable_accounts rs = Some accs \<Longrightarrow> rs = map Bindable accs"
  by (induction rs arbitrary: accs rule: bindable_accounts.induct) auto

lemma create_all_bindings:
  "create_all uid ass actor reason rid now accs st = Inr st' \<Longrightarrow>
   ld_bindings st' = ld_bindings st @ map (\<lambda>(bid, acc). (bid, new_binding uid acc ass actor reason now)) accs"
proof (induction accs arbitrary: st)
  case (Cons x accs)
  obtain bid acc where x: "x = (bid, acc)" by (cases x)
  obtain st1 where "create_binding bid uid acc ass actor reason rid now st = Inr st1" "create_all uid ass actor reason rid now accs st1 = Inr st'"
    using Cons.prems by (auto simp: x rbind_Inr_iff)
  then show ?case using Cons.IH
    by (auto simp: x create_binding_def rbind_Inr_iff insert_binding_def new_binding_def dest!: audit_sqlD(2) split: if_splits)
qed simp

lemma create_bindings_exact:
  assumes "create_bindings uid accs actor rid ass reason now st = Inr (st', bs)"
  shows "ld_bindings st' = ld_bindings st @ map (\<lambda>(bid, acc). (bid, new_binding uid acc ass actor reason now)) accs"
proof -
  obtain st1 where c: "create_all uid ass actor reason rid now accs st = Inr st1"
    and r: "(case map_of (ld_users st1) uid of
           Some u \<Rightarrow>
             if lu_onboarding_completed_at u = None
             then audit_sql (Some actor) ''user.onboarding_completed'' ''user'' (Some uid) rid
                    [(''binding_count'', PInt (int (length accs)))] now
                    (update_user uid (\<lambda>u. u\<lparr>lu_onboarding_completed_at := Some now, lu_updated_at := now\<rparr>) st1)
             else Inr st1
         | None \<Rightarrow> Inr st1) = Inr st'"
    using assms unfolding create_bindings_def rbind_Inr_iff as_conflict_Inr by auto
  have "ld_bindings st' = ld_bindings st1" using r by (auto dest: audit_sqlD(2) split: option.splits if_splits)
  then show ?thesis using create_all_bindings[OF c] by simp
qed

text \<open>
  C25: a binding request that succeeds adds exactly one open, self-claimed binding per account asked for, in order
  and all for the user who asked; the account of each is the one the asked agent itself confirmed in its answer:
  on that node, with the answer marked as successful and the account as existing, under the name and the
  uid of the answer, a name that is neither denied nor malformed, a uid in the allowed range, and no shell that
  forbids logins.  No other binding is touched.
\<close>

theorem bind_only_confirmed:
  assumes "finish_binding user new_ids rid now results st = (Inr bs, st')"
    "list_all2 (looked_up config (fst user)) asked results" "length new_ids = length asked"
  shows "\<exists>added. ld_bindings st' = ld_bindings st @ zip new_ids added \<and>
    (\<forall>b \<in> set added. lb_user_id b = fst user \<and> open_binding b \<and> lb_assurance b = SelfClaimed \<and> lb_valid_from b = now) \<and>
    list_all2 (\<lambda>q b. fst (fst q) = lb_node_id b \<and>
      (\<exists>answer. snd q = Inr answer \<and>
         map_of answer ''ok'' = Some (PBool True) \<and> map_of answer ''exists'' = Some (PBool True) \<and>
         map_of answer ''canonical_username'' = Some (PStr (lb_unix_username b)) \<and>
         lb_unix_username b \<notin> set (lc_account_deny_users config) \<and> lc_username_ok config (lb_unix_username b) \<and>
         as_int (dget answer ''uid'') = Some (lb_unix_uid b) \<and>
         lc_account_uid_min config \<le> lb_unix_uid b \<and> lb_unix_uid b \<le> lc_account_uid_max config \<and>
         (\<forall>shell. map_of answer ''shell'' = Some (PStr shell) \<longrightarrow> \<not> ends_with shell ''/nologin'' \<and> \<not> ends_with shell ''/false''))) asked added"
proof -
  obtain accs where accs: "bindable_accounts results = Some accs"
    using assms(1) by (cases "bindable_accounts results") (auto simp: finish_binding_def refuse_def)
  then have rs: "results = map Bindable accs" by (rule bindable_accounts_member)
  have "create_bindings (fst user) (zip new_ids accs) (fst user) rid SelfClaimed None now st = Inr (st', bs)"
    using assms(1) accs by (auto simp: finish_binding_def attempt_def split: sum.splits)
  note b = create_bindings_exact[OF this]
  let ?added = "map (\<lambda>acc. new_binding (fst user) acc SelfClaimed (fst user) None now) accs"
  have "list_all2 (\<lambda>q acc. confirms config q (ac_node_id acc) (ac_canonical_username acc) (ac_uid acc)) asked accs"
    using assms(2) looked_up_bindable unfolding rs list_all2_map2 by (fastforce elim: list_all2_mono)
  then have "list_all2 (\<lambda>q b. confirms config q (lb_node_id b) (lb_unix_username b) (lb_unix_uid b)) asked ?added"
    by (simp add: list_all2_map2 new_binding_def)
  moreover have "ld_bindings st' = ld_bindings st @ zip new_ids ?added" using b by (simp add: zip_map2)
  moreover have "\<forall>b \<in> set ?added. lb_user_id b = fst user \<and> open_binding b \<and> lb_assurance b = SelfClaimed \<and> lb_valid_from b = now"
    by (simp add: new_binding_def open_binding_def)
  ultimately show ?thesis unfolding confirms_def allows_def by (intro exI[of _ ?added] conjI) (auto elim: list_all2_mono)
qed

definition joe_answer :: "(string, pyval) dict" where
  "joe_answer = [(''ok'', PBool True), (''exists'', PBool True), (''canonical_username'', PStr ''joe''), (''uid'', PInt 1007),
     (''gid'', PNone), (''shell'', PStr ''/bin/sh'')]"

lemma joe_looked_up: "looked_up (default_config [] []) ''ub'' ((''n'', ''joe''), Inr joe_answer) (Bindable acc7)"
proof -
  have "lookup_account (default_config [] []) ''ub'' ''r'' 3 False (''n'', ''joe'') (Inr joe_answer) empty_lab = (Inr (Bindable acc7), empty_lab)"
    by code_simp
  then show ?thesis unfolding looked_up_def by auto
qed

theorem bind_only_confirmed_witness:
  "\<exists>st st' bs b. two_users = Inr st \<and>
     finish_binding (''ub'', some_user ''b'' Member) [''k2''] ''r'' 3 [Bindable acc7] st = (Inr bs, st') \<and>
     ld_bindings st' = ld_bindings st @ [(''k2'', b)] \<and> lb_user_id b = ''ub'' \<and> lb_node_id b = ''n'' \<and> lb_unix_username b = ''joe''"
proof -
  have "case two_users of Inr st \<Rightarrow> is_ok (fst (finish_binding (''ub'', some_user ''b'' Member) [''k2''] ''r'' 3 [Bindable acc7] st)) | Inl _ \<Rightarrow> False"
    by code_simp
  then obtain st bs st' where st: "two_users = Inr st"
    and f: "finish_binding (''ub'', some_user ''b'' Member) [''k2''] ''r'' 3 [Bindable acc7] st = (Inr bs, st')"
    by (auto simp: is_ok_iff split: sum.splits) (metis prod.collapse)
  have l: "list_all2 (looked_up (default_config [] []) (fst (''ub'', some_user ''b'' Member))) [((''n'', ''joe''), Inr joe_answer)] [Bindable acc7]"
    using joe_looked_up by simp
  obtain b where "ld_bindings st' = ld_bindings st @ [(''k2'', b)]" "lb_user_id b = ''ub''" "lb_node_id b = ''n''" "lb_unix_username b = ''joe''"
    using bind_only_confirmed[OF f l] by (auto simp: list_all2_Cons1 joe_answer_def)
  then show ?thesis using st f by (intro exI[of _ st] exI[of _ st'] exI[of _ bs] exI[of _ b]) simp
qed

subsection \<open>Restarts are logged first\<close>

text \<open>
  Only an administrator gets a request to restart an agent onto the queue, at most once a minute per
  node, and then the log already holds the intent; the end of the request adds exactly one more event, and
  the restart is reported as accepted exactly when the agent answered that it accepts.
\<close>

theorem restart_logged_first:
  assumes "begin_restart user node_id rpc_id request_id now b w st = (r, w1, st1)"
  shows "(case r of
      Inl _ \<Rightarrow> st1 = st
    | Inr (_, b1) \<Rightarrow> lu_role (snd user) = Admin \<and> fst (consume now (node_id, ''restart'') 1 1 60 w) \<and>
        (\<exists>e. ld_audit st1 = ld_audit st @ [e] \<and> ae_action e = ''agent.restart_requested'' \<and> ae_actor_user_id e = Some (fst user) \<and>
           ae_target_id e = Some node_id) \<and>
        ld_users st1 = ld_users st \<and> ld_bindings st1 = ld_bindings st) \<and>
    (\<forall>outcome later st2 reply st3. user_exists st2 (fst user) \<longrightarrow>
       finish_restart user node_id request_id later outcome st2 = (reply, st3) \<longrightarrow>
       (\<exists>e. ld_audit st3 = ld_audit st2 @ [e] \<and> ae_actor_user_id e = Some (fst user)) \<and>
       (reply = Inr () \<longleftrightarrow> (\<exists>m. outcome = Inr m \<and> map_of m ''ok'' = Some (PBool True))))"
proof (intro conjI)
  show "case r of
      Inl _ \<Rightarrow> st1 = st
    | Inr (_, b1) \<Rightarrow> lu_role (snd user) = Admin \<and> fst (consume now (node_id, ''restart'') 1 1 60 w) \<and>
        (\<exists>e. ld_audit st1 = ld_audit st @ [e] \<and> ae_action e = ''agent.restart_requested'' \<and> ae_actor_user_id e = Some (fst user) \<and>
           ae_target_id e = Some node_id) \<and>
        ld_users st1 = ld_users st \<and> ld_bindings st1 = ld_bindings st"
    using assms
    by (auto simp: begin_restart_def audit_restart_def audit_sql_def split: if_splits option.splits prod.splits bool.splits sum.splits)
  show "\<forall>outcome later st2 reply st3. user_exists st2 (fst user) \<longrightarrow>
       finish_restart user node_id request_id later outcome st2 = (reply, st3) \<longrightarrow>
       (\<exists>e. ld_audit st3 = ld_audit st2 @ [e] \<and> ae_actor_user_id e = Some (fst user)) \<and>
       (reply = Inr () \<longleftrightarrow> (\<exists>m. outcome = Inr m \<and> map_of m ''ok'' = Some (PBool True)))"
    by (auto simp: finish_restart_def restart_verdict_def audit_restart_def audit_sql_def user_ref_def dget_eq
          split: sum.splits rpc_error.splits if_splits)
qed

definition restart_broker :: broker where
  "restart_broker = rpc_register ''n'' 1 [] 0 (Some [(''agent_restart_v1'', PBool True)]) new_broker"

theorem restart_logged_first_witness:
  "\<exists>st st1 w1 key b1. two_users = Inr st \<and>
     begin_restart (''ua'', some_user ''a'' Admin) ''n'' ''q'' ''r'' 3 restart_broker [] st = (Inr (Inr key, b1), w1, st1) \<and>
     (\<exists>e. ld_audit st1 = ld_audit st @ [e] \<and> ae_action e = ''agent.restart_requested'')"
proof -
  have "case two_users of
      Inr st \<Rightarrow> (case fst (begin_restart (''ua'', some_user ''a'' Admin) ''n'' ''q'' ''r'' 3 restart_broker [] st) of
        Inr (Inr key, b1) \<Rightarrow> True | _ \<Rightarrow> False)
    | Inl _ \<Rightarrow> False"
    by code_simp
  then obtain st key b1 w1 st1 where st: "two_users = Inr st"
    and f: "begin_restart (''ua'', some_user ''a'' Admin) ''n'' ''q'' ''r'' 3 restart_broker [] st = (Inr (Inr key, b1), w1, st1)"
    by (auto split: sum.splits prod.splits) (metis prod.collapse)
  have "\<exists>e. ld_audit st1 = ld_audit st @ [e] \<and> ae_action e = ''agent.restart_requested''"
    using restart_logged_first[OF f] by auto
  then show ?thesis using st f by blast
qed

subsection \<open>What reassigning does not catch\<close>

text \<open>
  The endpoint catches only a conflict: a target that is not active, and a rejected lookup for a user that does
  not exist, end in an exception that becomes an internal error.
\<close>

lemma reassign_inactive_uncaught:
  assumes "map_of (ld_users st) user_id = Some u" "lu_status u \<noteq> UActive" "py_strip reason \<noteq> []"
  shows "finish_reassign user user_id reason new_id request_id now (Bindable account) st =
    (Inl (Uncaught (LabStoreError ''target user is not active'')), st)"
  using assms by (simp add: finish_reassign_def reassign_binding_def attempt_def on_error_def as_conflict_def Let_def)

lemma reassign_unknown_uncaught:
  assumes "lu_role (snd user) = Admin" "lc_username_ok config username" "account_rejection_reason result config = Some why"
    "\<not> user_exists st user_id"
  shows "post_reassign config user user_id (node_id, username) reason new_id request_id now (Inr result) st =
    (Inl (Uncaught IntegrityError), st)"
  using assms by (simp add: post_reassign_def require_admin_def lookup_account_def audit_sql_def user_ref_def)

text \<open>A refused day still costs the minute.\<close>

lemma refused_day_spends_minute:
  assumes "consume now (u, ''lookup-minute'') n 10 60 w = (True, w1)" "consume now (u, ''lookup-day'') n 50 86400 w1 = (False, w2)"
  shows "admit_preview now u n w = (False, w2)"
  using assms by (simp add: admit_preview_def)

end
