(* ===== verification/LabAuth.thy ===== *)
theory LabAuth
  imports LabApi
begin

text \<open>
  \<open>packages/lab/src/constella_lab/auth.py\<close>: who is let in. The middleware is a function of the request
  and the tables: it lets the request pass unauthenticated, refuses it, or serves it for a user. Checking the
  signature of a token is the work of PyJWT and a parameter: a function from tokens to their claims that is
  undefined where PyJWT raises.
\<close>

subsection \<open>Identities\<close>

record access_identity =
  ai_issuer :: string
  ai_subject :: string
  ai_email :: string
  ai_expires_at :: rat

text \<open>The claims PyJWT has checked; \<^verbatim>\<open>exp\<close> and \<^verbatim>\<open>iss\<close> are among those it requires.\<close>

definition identity_of_claims :: "(string, pyval) dict \<Rightarrow> access_identity option" where
  "identity_of_claims claims =
     (if dget claims ''type'' \<noteq> PStr ''app'' then None
      else case (dget claims ''sub'', dget claims ''email'') of
          (PStr subject, PStr email) \<Rightarrow>
            if subject = [] \<or> email = [] then None
            else (case py_float (dget claims ''exp'') of
                Inr (Fin t) \<Rightarrow> Some \<lparr>ai_issuer = py_str (dget claims ''iss''), ai_subject = subject, ai_email = email, ai_expires_at = t\<rparr>
              | _ \<Rightarrow> None)
        | _ \<Rightarrow> None)"

definition verify_token :: "(string \<Rightarrow> (string, pyval) dict option) \<Rightarrow> string \<Rightarrow> access_identity option" where
  "verify_token decode token = Option.bind (decode token) identity_of_claims"

subsection \<open>Requests\<close>

datatype scope_type = HttpScope | WebsocketScope | OtherScope

text \<open>The names of the headers are in lower case.\<close>

record request =
  rq_type :: scope_type
  rq_path :: string
  rq_method :: string
  rq_headers :: "(string, string) dict"

definition header :: "request \<Rightarrow> string \<Rightarrow> string" where
  "header rq name = get_or (rq_headers rq) name []"

definition machine_or_health_path :: "string \<Rightarrow> bool" where
  "machine_or_health_path path \<longleftrightarrow> path \<in> {''/api/health'', ''/api/agents/ws'', ''/api/highres/stream''}"

definition starts_with :: "string \<Rightarrow> string \<Rightarrow> bool" where
  "starts_with s prefix \<longleftrightarrow> take (length prefix) s = prefix"

definition admin_only_path :: "request \<Rightarrow> bool" where
  "admin_only_path rq \<longleftrightarrow>
     starts_with (rq_path rq) ''/api/lab/admin'' \<or> starts_with (rq_path rq) ''/api/docs'' \<or> rq_path rq = ''/openapi.json'' \<or>
     rq_path rq = ''/api/settings'' \<and> rq_method rq = ''PATCH''"

definition rstrip_slashes :: "string \<Rightarrow> string" where
  "rstrip_slashes s = rev (dropWhile (\<lambda>c. c = CHR ''/'') (rev s))"

definition changes_state :: "request \<Rightarrow> bool" where
  "changes_state rq \<longleftrightarrow> rq_type rq = HttpScope \<and> rq_method rq \<in> {''POST'', ''PATCH'', ''DELETE''}"

definition same_origin :: "lab_config \<Rightarrow> request \<Rightarrow> bool" where
  "same_origin config rq \<longleftrightarrow>
     rstrip_slashes (header rq ''origin'') = lc_public_origin config \<and> header rq ''x-constella-request'' = ''same-origin''"

subsection \<open>The middleware\<close>

datatype auth_outcome = PassThrough | Reject int string | Serve string lab_user rat

text \<open>
  An error of the store other than a \<^verbatim>\<open>ValueError\<close> is not caught. The row of the user is the one
  \<^verbatim>\<open>resolve_identity\<close> returns.
\<close>

definition authenticate ::
    "lab_config \<Rightarrow> (string \<Rightarrow> access_identity option) \<Rightarrow> string \<Rightarrow> rat \<Rightarrow> string \<Rightarrow> request \<Rightarrow> lab_db
      \<Rightarrow> (lab_error + auth_outcome) \<times> lab_db" where
  "authenticate config verify request_id now new_id rq st =
     (if rq_type rq = OtherScope \<or> machine_or_health_path (rq_path rq) then (Inr PassThrough, st)
      else let token = header rq ''cf-access-jwt-assertion''
           in if token = [] then (Inr (Reject 401 ''access_identity_required''), st)
              else case verify token of
                  None \<Rightarrow> (Inr (Reject 401 ''invalid_access_identity''), st)
                | Some identity \<Rightarrow>
                    (case resolve_identity (ai_issuer identity) (ai_subject identity) (ai_email identity)
                            (lc_bootstrap_admin_email config) request_id now new_id st of
                       Inl (LabValueError e) \<Rightarrow> (Inr (Reject 401 ''invalid_access_identity''), st)
                     | Inl e \<Rightarrow> (Inl e, st)
                     | Inr (st1, uid) \<Rightarrow>
                         (case map_of (ld_users st1) uid of
                            None \<Rightarrow> (Inl (LabStoreError ''user not found''), st1)
                          | Some user \<Rightarrow>
                              if lu_status user \<noteq> UActive then (Inr (Reject 403 ''user_not_active''), st1)
                              else if admin_only_path rq \<and> lu_role user \<noteq> Admin then (Inr (Reject 403 ''admin_required''), st1)
                              else if changes_state rq \<and> \<not> same_origin config rq then (Inr (Reject 403 ''csrf_check_failed''), st1)
                              else (Inr (Serve uid user (ai_expires_at identity)), st1))))"

text \<open>A refused websocket only learns the class of the refusal.\<close>

datatype reject_message = WebsocketClose int | HttpReply int string

definition reject_message :: "request \<Rightarrow> int \<Rightarrow> string \<Rightarrow> reject_message" where
  "reject_message rq status code =
     (if rq_type rq = WebsocketScope then WebsocketClose (if status = 401 then 4401 else 4403) else HttpReply status code)"

subsection \<open>The life of a websocket\<close>

text \<open>The monotonic deadline of a connection and the code it is closed with at the deadline.\<close>

definition ws_deadline :: "rat \<Rightarrow> rat \<Rightarrow> rat \<Rightarrow> rat" where
  "ws_deadline expires_at now monotonic = monotonic + min 900 (max 0 (expires_at - now))"

definition ws_close_code :: "rat \<Rightarrow> rat \<Rightarrow> int" where
  "ws_close_code expires_at now = (if max 0 (expires_at - now) \<le> 900 then 4401 else 4000)"

definition ws_wait :: "rat \<Rightarrow> rat \<Rightarrow> rat" where
  "ws_wait deadline t = min 60 (deadline - t)"

text \<open>
  One round of the loop: the time it starts at, whether the application ended within the wait, and the row
  of the user afterwards.
\<close>

record ws_round =
  wr_time :: rat
  wr_done :: bool
  wr_user :: "lab_user option"

datatype ws_end = StillOpen | AppEnded | ClosedWith int

fun ws_run :: "rat \<Rightarrow> int \<Rightarrow> ws_round list \<Rightarrow> ws_end" where
  "ws_run deadline close_code [] = StillOpen"
| "ws_run deadline close_code (r # rest) =
     (if deadline - wr_time r \<le> 0 then ClosedWith close_code
      else if wr_done r then AppEnded
      else if (case wr_user r of None \<Rightarrow> True | Some u \<Rightarrow> lu_status u \<noteq> UActive) then ClosedWith 4403
      else ws_run deadline close_code rest)"

subsection \<open>Who is served\<close>

lemma find_row: "find P d = Some (k, v) \<Longrightarrow> dict_ok d \<Longrightarrow> map_of d k = Some v \<and> P (k, v)"
  by (induction d) (auto simp: dict_ok_def split: if_splits, metis fst_conv image_eqI map_of_SomeD)

lemma map_of_update_user: "map_of (ld_users (update_user uid f st)) uid = map_option f (map_of (ld_users st) uid)"
  by (simp add: update_user_def map_of_map_keyed)

lemma resolve_identity_user:
  assumes "resolve_identity issuer subject email boot rid now nid st = Inr (st', uid)" "lab_ok t st"
  shows "\<exists>u. map_of (ld_users st') uid = Some u \<and> same_identity issuer subject u"
proof (cases "find (\<lambda>(k, u). same_identity issuer subject u) (ld_users st)")
  case (Some kv)
  obtain k row where kv: "kv = (k, row)" by (cases kv)
  have d: "dict_ok (ld_users st)" using assms(2) by (simp add: lab_ok_def users_ok_def)
  have "map_of (ld_users st) k = Some row" "same_identity issuer subject row" using find_row[OF _ d] Some kv by auto
  moreover have "uid = k" and "st' = st \<or> (\<exists>n. st' = update_user k (\<lambda>u. u\<lparr>lu_email := email, lu_email_normalized := n,
      lu_updated_at := now, lu_last_login_at := now\<rparr>) st)"
    using assms(1) by (auto simp: resolve_identity_def rbind_Inr_iff Some kv split: if_splits)
  ultimately show ?thesis by (auto simp: map_of_update_user same_identity_def)
next
  case None
  obtain u st1 where i: "insert_user nid u st = Inr st1" "lu_access_issuer u = issuer" "lu_access_subject u = subject" "uid = nid" "ld_users st' = ld_users st1"
    using assms(1) by (auto simp: resolve_identity_def rbind_Inr_iff None Let_def dest!: audit_sqlD(1))
  then have "map_of (ld_users st1) nid = Some u"
    by (auto simp: insert_user_def user_exists_def has_key_def map_of_snoc simp del: map_of_append split: if_splits)
  then show ?thesis using i by (simp add: same_identity_def)
qed

text \<open>
  C6: a request is only served for the user whose identity a verified token carries: its row in the tables
  is active; a path below \<^verbatim>\<open>/api/lab/admin\<close> or \<^verbatim>\<open>/api/docs\<close>, \<^verbatim>\<open>/openapi.json\<close> and a change of \<^verbatim>\<open>/api/settings\<close> are only
  served to an administrator; and a request that changes state
  carries the configured origin and the marker header. A request that is let through unauthenticated is for
  the health check or one of the two streams of the agents, and leaves the tables as they are.
\<close>

theorem served_requests_authorised:
  assumes "authenticate config verify rid now nid rq st = (Inr out, st')" "lab_ok t st"
  shows "case out of
      Serve uid u expiry \<Rightarrow>
        (\<exists>identity. header rq ''cf-access-jwt-assertion'' \<noteq> [] \<and> verify (header rq ''cf-access-jwt-assertion'') = Some identity \<and>
           expiry = ai_expires_at identity \<and> map_of (ld_users st') uid = Some u \<and> same_identity (ai_issuer identity) (ai_subject identity) u) \<and>
        lu_status u = UActive \<and>
        ((\<exists>rest. rq_path rq = ''/api/lab/admin'' @ rest) \<or> (\<exists>rest. rq_path rq = ''/api/docs'' @ rest) \<or> rq_path rq = ''/openapi.json'' \<or>
         rq_path rq = ''/api/settings'' \<and> rq_method rq = ''PATCH'' \<longrightarrow> lu_role u = Admin) \<and>
        (rq_type rq = HttpScope \<and> rq_method rq \<in> {''POST'', ''PATCH'', ''DELETE''} \<longrightarrow>
           rstrip_slashes (header rq ''origin'') = lc_public_origin config \<and> header rq ''x-constella-request'' = ''same-origin'')
    | PassThrough \<Rightarrow> st' = st \<and> (rq_type rq = OtherScope \<or> rq_path rq \<in> {''/api/health'', ''/api/agents/ws'', ''/api/highres/stream''})
    | Reject status code \<Rightarrow> status = 401 \<or> status = 403"
proof (cases out)
  case (Serve uid u expiry)
  then obtain identity where v: "header rq ''cf-access-jwt-assertion'' \<noteq> []" "verify (header rq ''cf-access-jwt-assertion'') = Some identity"
    using assms(1) by (auto simp: authenticate_def Let_def split: if_splits option.splits)
  obtain st1 uid1 where r: "resolve_identity (ai_issuer identity) (ai_subject identity) (ai_email identity)
      (lc_bootstrap_admin_email config) rid now nid st = Inr (st1, uid1)"
    using assms(1) v Serve by (auto simp: authenticate_def Let_def split: if_splits sum.splits lab_error.splits)
  obtain u1 where u: "map_of (ld_users st1) uid1 = Some u1" "same_identity (ai_issuer identity) (ai_subject identity) u1"
    using resolve_identity_user[OF r assms(2)] by blast
  have "st' = st1 \<and> uid = uid1 \<and> u = u1 \<and> expiry = ai_expires_at identity \<and> lu_status u = UActive \<and>
      (admin_only_path rq \<longrightarrow> lu_role u = Admin) \<and> (changes_state rq \<longrightarrow> same_origin config rq)"
    using assms(1) v r u(1) Serve by (auto simp: authenticate_def Let_def split: if_splits)
  then show ?thesis using v u by (auto simp: Serve admin_only_path_def starts_with_def changes_state_def same_origin_def)
qed (use assms(1) in \<open>auto simp: authenticate_def Let_def machine_or_health_path_def
      split: if_splits option.splits sum.splits lab_error.splits\<close>)

definition admin_request :: request where
  "admin_request = \<lparr>rq_type = HttpScope, rq_path = ''/api/lab/admin/users'', rq_method = ''GET'',
     rq_headers = [(''cf-access-jwt-assertion'', ''t'')]\<rparr>"

definition one_token :: "string \<Rightarrow> access_identity option" where
  "one_token token = (if token = ''t'' then Some \<lparr>ai_issuer = ''i'', ai_subject = ''a'', ai_email = ''a@x'', ai_expires_at = 100\<rparr> else None)"

theorem served_requests_authorised_witness:
  "\<exists>uid u expiry st'. authenticate (default_config ''a@x'' ''https://lab'') one_token ''r'' 1 ''ua'' admin_request empty_lab = (Inr (Serve uid u expiry), st') \<and>
     lu_status u = UActive \<and> lu_role u = Admin"
proof -
  have "case fst (authenticate (default_config ''a@x'' ''https://lab'') one_token ''r'' 1 ''ua'' admin_request empty_lab) of
      Inr (Serve uid u expiry) \<Rightarrow> True | _ \<Rightarrow> False"
    by code_simp
  then obtain uid u expiry st' where a:
    "authenticate (default_config ''a@x'' ''https://lab'') one_token ''r'' 1 ''ua'' admin_request empty_lab = (Inr (Serve uid u expiry), st')"
    by (auto split: sum.splits auth_outcome.splits) (metis prod.collapse)
  have p: "rq_path admin_request = ''/api/lab/admin'' @ ''/users''" by (simp add: admin_request_def)
  have "lu_status u = UActive \<and> lu_role u = Admin"
    using served_requests_authorised[OF a lab_ok_empty] p by auto
  then show ?thesis using a by blast
qed

subsection \<open>A websocket ends\<close>

text \<open>The rounds of one connection: each waits its full timeout unless the application ends first.\<close>

fun rounds_from :: "rat \<Rightarrow> rat \<Rightarrow> ws_round list \<Rightarrow> bool" where
  "rounds_from deadline t [] = True"
| "rounds_from deadline t (r # rest) =
     (t \<le> wr_time r \<and> rounds_from deadline (wr_time r + ws_wait deadline (wr_time r)) rest)"

lemma ws_run_ends:
  assumes "rounds_from deadline t rounds" "deadline - t \<le> of_nat n * 60" "n < length rounds"
  shows "ws_run deadline code rounds \<noteq> StillOpen"
  using assms
proof (induction rounds arbitrary: t n)
  case (Cons r rest)
  show ?case
  proof (cases "deadline \<le> wr_time r")
    case False
    then have n: "n \<noteq> 0" using Cons.prems(1,2) by (intro notI) simp
    then obtain m where m: "n = Suc m" by (cases n) auto
    have "deadline - (wr_time r + ws_wait deadline (wr_time r)) \<le> of_nat m * 60"
      using Cons.prems(1,2) by (auto simp: m ws_wait_def min_def algebra_simps)
    then show ?thesis using Cons.IH[of "wr_time r + ws_wait deadline (wr_time r)" m] Cons.prems(1,3) m by auto
  qed simp
qed simp

lemma ws_run_prefix:
  "ws_run deadline code rounds = StillOpen \<Longrightarrow>
   r \<in> set rounds \<Longrightarrow> wr_time r < deadline \<and> (\<exists>u. wr_user r = Some u \<and> lu_status u = UActive)"
  by (induction rounds) (auto split: if_splits option.splits)

text \<open>
  An authenticated websocket does not outlive its token or a quarter of an hour: its loop ends within
  sixteen rounds, and as long as it goes on the deadline has not passed and every look at the tables
  found the user active, so disabling a user closes the connection within a round, a minute at most.
\<close>

theorem websocket_ends:
  assumes "rounds_from (ws_deadline expires_at now start) start rounds"
  shows "(16 \<le> length rounds \<longrightarrow> ws_run (ws_deadline expires_at now start) code rounds \<noteq> StillOpen) \<and>
    (ws_run (ws_deadline expires_at now start) code rounds = StillOpen \<longrightarrow>
      (\<forall>r \<in> set rounds. wr_time r - start < 900 \<and> wr_time r - start < max 0 (expires_at - now) \<and>
         (\<exists>u. wr_user r = Some u \<and> lu_status u = UActive))) \<and>
    (\<forall>t. ws_wait (ws_deadline expires_at now start) t \<le> 60)"
proof (intro conjI impI ballI allI)
  assume "16 \<le> length rounds"
  moreover have "ws_deadline expires_at now start - start \<le> of_nat 15 * 60" by (simp add: ws_deadline_def)
  ultimately show "ws_run (ws_deadline expires_at now start) code rounds \<noteq> StillOpen" using ws_run_ends[OF assms, of 15] by simp
next
  fix r assume a: "ws_run (ws_deadline expires_at now start) code rounds = StillOpen" "r \<in> set rounds"
  have "wr_time r - start < min 900 (max 0 (expires_at - now))" using ws_run_prefix[OF a] unfolding ws_deadline_def by linarith
  then have less: "wr_time r - start < 900" "wr_time r - start < max 0 (expires_at - now)" by (simp_all only: min_less_iff_conj)
  show "wr_time r - start < 900" "wr_time r - start < max 0 (expires_at - now)" "\<exists>u. wr_user r = Some u \<and> lu_status u = UActive"
    using ws_run_prefix[OF a] less by simp_all
qed (simp add: ws_wait_def)

theorem websocket_ends_witness:
  "ws_run (ws_deadline 100 0 0) 4401 [\<lparr>wr_time = 0, wr_done = False, wr_user = None\<rparr>] = ClosedWith 4403 \<and>
   (\<forall>t. ws_wait (ws_deadline 100 0 0) t \<le> 60)"
proof
  show "ws_run (ws_deadline 100 0 0) 4401 [\<lparr>wr_time = 0, wr_done = False, wr_user = None\<rparr>] = ClosedWith 4403"
    by (simp add: ws_deadline_def)
  have "rounds_from (ws_deadline 100 0 0) 0 [\<lparr>wr_time = 0, wr_done = False, wr_user = None\<rparr>]" by simp
  from websocket_ends[OF this] show "\<forall>t. ws_wait (ws_deadline 100 0 0) t \<le> 60" by blast
qed

end
