(* ===== verification/Collector.thy ===== *)
theory Collector
  imports Cluster
begin

text \<open>
  \<open>packages/backend/src/constella/collector.py\<close>: how an agent collects its snapshots. The preferred
  sampler (NVML or DCMI) is used while it works; when it fails a command line tool takes over and the preferred
  sampler is tried again after two minutes.

  The samplers are outside: what a sampler returns or the text of the exception it raises is an argument.
  The open driver handle is a flag; the cached handle of the Ascend tool has no effect of its own and is left out.
\<close>

subsection \<open>Settings\<close>

definition ALLOWED_REFRESH_INTERVALS :: "rat list" where
  "ALLOWED_REFRESH_INTERVALS = [1 / 2, 1, 2, 5]"

definition DEVICE_TYPES :: "string list" where
  "DEVICE_TYPES = [''nvidia'', ''ascend'']"

definition PREFERRED_RETRY_SECONDS :: rat where
  "PREFERRED_RETRY_SECONDS = 120"

definition validate_refresh_interval :: "rat \<Rightarrow> rat result" where
  "validate_refresh_interval value =
     (case find (\<lambda>allowed. \<bar>value - allowed\<bar> < 1 / 1000000000) ALLOWED_REFRESH_INTERVALS of
        Some allowed \<Rightarrow> Inr allowed
      | None \<Rightarrow> Inl (ValueError ''refresh_interval must be one of: 0.5s, 1s, 2s, 5s''))"

definition validate_device_type :: "string \<Rightarrow> string result" where
  "validate_device_type device_type =
     (let value = py_lower (py_strip device_type)
      in if value \<notin> set DEVICE_TYPES then Inl (ValueError ''device_type must be one of: nvidia, ascend'') else Inr value)"

subsection \<open>State\<close>

type_synonym raw_snapshot = "raw_gpu snapshot"

record collector =
  co_device_type :: string
  co_refresh_interval :: rat
  co_process_interval :: flt
  co_history_size :: nat
  co_snapshot :: "raw_snapshot option"
  co_seq :: int
  co_history :: history
  co_preferred_open :: bool
  co_preferred_retry_at :: rat
  co_preferred_error :: "string option"
  co_next_fallback_process_at :: flt
  co_fallback_processes :: "(string, gpu_process list) dict"

text \<open>\<^verbatim>\<open>max(1.0, x)\<close>, where a NaN is not larger.\<close>

fun process_of :: "flt \<Rightarrow> flt" where
  "process_of (Fin x) = Fin (max 1 x)"
| "process_of PInf = PInf"
| "process_of _ = Fin 1"

definition new_collector :: "string \<Rightarrow> rat \<Rightarrow> flt \<Rightarrow> nat \<Rightarrow> collector result" where
  "new_collector device_type refresh process n =
     rbind (validate_device_type device_type) (\<lambda>dt.
     rbind (validate_refresh_interval refresh) (\<lambda>ri.
       Inr \<lparr>co_device_type = dt, co_refresh_interval = ri, co_process_interval = process_of process, co_history_size = n,
            co_snapshot = None, co_seq = 0, co_history = [], co_preferred_open = False, co_preferred_retry_at = 0,
            co_preferred_error = None, co_next_fallback_process_at = Fin 0, co_fallback_processes = []\<rparr>))"

text \<open>\<^verbatim>\<open>max(process_interval, refresh_interval)\<close>.\<close>

definition slower :: "flt \<Rightarrow> rat \<Rightarrow> flt" where
  "slower process refresh = (case process of Fin p \<Rightarrow> Fin (max p refresh) | x \<Rightarrow> x)"

definition collector_process_interval :: "collector \<Rightarrow> flt" where
  "collector_process_interval co = slower (co_process_interval co) (co_refresh_interval co)"

text \<open>A rejected value raises and changes nothing. Whether the sleeping loop is woken is the second result.\<close>

definition set_refresh_interval :: "rat \<Rightarrow> collector \<Rightarrow> (collector \<times> bool) result" where
  "set_refresh_interval seconds co =
     rbind (validate_refresh_interval seconds) (\<lambda>interval.
       if interval \<noteq> co_refresh_interval co then Inr (co\<lparr>co_refresh_interval := interval\<rparr>, True) else Inr (co, False))"

definition set_process_interval :: "flt \<Rightarrow> collector \<Rightarrow> collector" where
  "set_process_interval seconds co = co\<lparr>co_process_interval := process_of seconds\<rparr>"

subsection \<open>Sampling\<close>

text \<open>What a sampler did: it raised, or returned a snapshot.\<close>

type_synonym sampled = "string + raw_snapshot"

definition degraded :: "raw_gpu \<Rightarrow> bool" where
  "degraded g \<longleftrightarrow> truthy (g_error g) \<or> g_telemetry_errors g \<noteq> [] \<or>
     (case g_performance g of None \<Rightarrow> False | Some p \<Rightarrow> f_status p = ''error'' \<or> f_invalid_metrics p \<noteq> [])"

definition close_preferred :: "collector \<Rightarrow> collector" where
  "close_preferred co = co\<lparr>co_preferred_open := False\<rparr>"

definition close_collector :: "collector \<Rightarrow> collector" where
  "close_collector co = (close_preferred co)\<lparr>co_preferred_retry_at := 0, co_preferred_error := None\<rparr>"

text \<open>The failure of the preferred sampler, however it fails; the clock is read again.\<close>

definition preferred_failed :: "string \<Rightarrow> rat \<Rightarrow> collector \<Rightarrow> collector" where
  "preferred_failed why later co =
     close_preferred (co\<lparr>co_preferred_error := Some why, co_preferred_retry_at := later + PREFERRED_RETRY_SECONDS\<rparr>)"

definition sample_preferred :: "rat \<Rightarrow> rat \<Rightarrow> sampled \<Rightarrow> collector \<Rightarrow> raw_snapshot option \<times> collector" where
  "sample_preferred now later preferred co =
     (case preferred of
        Inl why \<Rightarrow> (None, preferred_failed why later co)
      | Inr snap \<Rightarrow>
          if \<not> n_ok snap \<or> n_gpus snap = []
          then (None, preferred_failed (py_str (py_or (n_error snap) (PStr ''preferred sampler returned no devices''))) later co)
          else (Some snap,
            co\<lparr>co_preferred_open := True, co_preferred_error := None,
               co_preferred_retry_at :=
                 (if list_ex degraded (n_gpus snap)
                  then (if co_preferred_retry_at co = 0 \<or> co_preferred_retry_at co \<le> now then later + PREFERRED_RETRY_SECONDS
                        else co_preferred_retry_at co)
                  else 0)\<rparr>))"

definition error_snapshot :: "string \<Rightarrow> string \<Rightarrow> string \<Rightarrow> rat \<Rightarrow> raw_snapshot" where
  "error_snapshot err source hostname now =
     \<lparr>n_ok = False, n_source = source, n_hostname = hostname, n_timestamp = now, n_elapsed_ms = 0, n_gpus = [],
      n_driver_version = PNone, n_cuda_driver_version = PNone, n_nvml_version = PNone, n_error = PStr err, n_seq = 0,
      n_refresh_interval = 1, n_history = []\<rparr>"

text \<open>The tool is asked for processes only when they are due; otherwise it reuses the cached ones.\<close>

definition sample_with_nvidia_smi ::
    "rat \<Rightarrow> rat \<Rightarrow> (bool \<Rightarrow> (string, gpu_process list) dict \<Rightarrow> sampled) \<Rightarrow> collector \<Rightarrow> sampled \<times> collector" where
  "sample_with_nvidia_smi now later smi co =
     (let collect = (case co_next_fallback_process_at co of Fin t \<Rightarrow> t \<le> now | _ \<Rightarrow> False)
      in case smi collect (co_fallback_processes co) of
           Inl why \<Rightarrow> (Inl why, co)
         | Inr snap \<Rightarrow>
             (Inr snap,
              if collect
              then co\<lparr>co_fallback_processes := fold (\<lambda>g. AList.update (g_uuid g) (g_processes g)) (n_gpus snap) [],
                      co_next_fallback_process_at := (case collector_process_interval co of Fin p \<Rightarrow> Fin (later + p) | x \<Rightarrow> x)\<rparr>
              else co))"

text \<open>What a round meets: the monotonic clock, read twice, the wall clock, and the samplers.\<close>

record environment =
  ev_now :: rat
  ev_later :: rat
  ev_time :: rat
  ev_hostname :: string
  ev_preferred :: sampled
  ev_npu_smi :: sampled
  ev_nvidia_smi :: "bool \<Rightarrow> (string, gpu_process list) dict \<Rightarrow> sampled"

definition sample_fallback :: "environment \<Rightarrow> collector \<Rightarrow> raw_snapshot \<times> collector" where
  "sample_fallback ev co =
     (let failed = (\<lambda>why co'. (error_snapshot (co_device_type co @ '' preferred sampler failed: '' @
            (case co_preferred_error co of None \<Rightarrow> ''None'' | Some e \<Rightarrow> e) @ ''; fallback failed: '' @ why)
            ''none'' (ev_hostname ev) (ev_time ev), co'))
      in if co_device_type co = ''ascend''
         then (case ev_npu_smi ev of Inr snap \<Rightarrow> (snap, co) | Inl why \<Rightarrow> failed why co)
         else (case sample_with_nvidia_smi (ev_now ev) (ev_later ev) (ev_nvidia_smi ev) co of
             (Inl why, co') \<Rightarrow> failed why co'
           | (Inr snap, co') \<Rightarrow> if n_gpus snap = [] then failed ''nvidia-smi returned no devices'' co' else (snap, co')))"

definition tries_preferred :: "rat \<Rightarrow> collector \<Rightarrow> bool" where
  "tries_preferred now co \<longleftrightarrow> co_preferred_open co \<or> co_preferred_retry_at co \<le> now"

definition reset_degraded :: "rat \<Rightarrow> collector \<Rightarrow> collector" where
  "reset_degraded now co =
     (if co_preferred_retry_at co \<noteq> 0 \<and> co_preferred_retry_at co \<le> now then close_preferred co else co)"

definition sample_once :: "environment \<Rightarrow> collector \<Rightarrow> raw_snapshot \<times> collector" where
  "sample_once ev co0 =
     (let co = reset_degraded (ev_now ev) co0
      in if tries_preferred (ev_now ev) co
         then (case sample_preferred (ev_now ev) (ev_later ev) (ev_preferred ev) co of
             (Some snap, co1) \<Rightarrow> (snap, co1)
           | (None, co1) \<Rightarrow> sample_fallback ev co1)
         else sample_fallback ev co)"

subsection \<open>Publishing\<close>

definition push_reading :: "nat \<Rightarrow> raw_gpu \<Rightarrow> history \<Rightarrow> history" where
  "push_reading n g h =
     (let key = int_str (g_index g); v = numeric_gpu g
      in if \<not> basic_metrics_valid g then AList.delete key h
         else AList.update key
                (append_metric n ''temperature'' (g_temperature_c v)
                  (append_metric n ''power'' (power_percent v)
                    (append_metric n ''memory'' (memory_percent v)
                      (append_metric n ''gpu'' (g_utilization_gpu v) (series_for h key))))) h)"

definition publish :: "raw_snapshot \<Rightarrow> collector \<Rightarrow> collector" where
  "publish snap co =
     (let gpus = map validate_readings (n_gpus snap);
          history = fold (push_reading (co_history_size co)) gpus (co_history co)
      in co\<lparr>co_seq := co_seq co + 1, co_history := history,
            co_snapshot := Some (snap\<lparr>n_seq := co_seq co + 1, n_refresh_interval := co_refresh_interval co,
              n_gpus := gpus, n_history := history\<rparr>)\<rparr>)"

text \<open>One round of the loop, and how long it then sleeps.\<close>

definition collect :: "environment \<Rightarrow> collector \<Rightarrow> collector" where
  "collect ev co = (case sample_once ev co of (snap, co1) \<Rightarrow> publish snap co1)"

definition sleep_for :: "collector \<Rightarrow> rat \<Rightarrow> rat" where
  "sleep_for co elapsed = max 0 (co_refresh_interval co - elapsed)"

text \<open>\<^verbatim>\<open>wait_for_update\<close> returns at once when this holds, and else when it is woken or the time is up.\<close>

definition update_ready :: "int \<Rightarrow> collector \<Rightarrow> raw_snapshot option" where
  "update_ready last_seq co =
     (case co_snapshot co of Some s \<Rightarrow> if last_seq < n_seq s then Some s else None | None \<Rightarrow> None)"

subsection \<open>What is published\<close>

datatype collector_event = RoundEv environment | RefreshEv rat | ProcessEv flt | CloseEv

fun handle_collector :: "collector_event \<Rightarrow> collector \<Rightarrow> collector" where
  "handle_collector (RoundEv ev) co = collect ev co"
| "handle_collector (RefreshEv seconds) co =
     (case set_refresh_interval seconds co of Inr (co', _) \<Rightarrow> co' | Inl _ \<Rightarrow> co)"
| "handle_collector (ProcessEv seconds) co = set_process_interval seconds co"
| "handle_collector CloseEv co = close_collector co"

inductive collector_reachable :: "nat \<Rightarrow> int \<Rightarrow> collector \<Rightarrow> bool" for n where
  start: "new_collector device_type refresh process n = Inr co \<Longrightarrow> collector_reachable n 0 co"
| round: "collector_reachable n k co \<Longrightarrow> collector_reachable n (k + 1) (handle_collector (RoundEv ev) co)"
| other: "collector_reachable n k co \<Longrightarrow> \<not> (\<exists>r. ev = RoundEv r) \<Longrightarrow> collector_reachable n k (handle_collector ev co)"

definition readings_accepted :: "raw_gpu \<Rightarrow> bool" where
  "readings_accepted g \<longleftrightarrow>
     list_all (\<lambda>(name, r). accepts r (dget (gpu_readings g) name)) GPU_METRIC_RULES \<and>
     (num_val (g_memory_total_mb g) = 0 \<or> num_val (g_memory_used_mb g) \<le> num_val (g_memory_total_mb g))"

fun interval_ok :: "flt \<Rightarrow> bool" where
  "interval_ok (Fin x) \<longleftrightarrow> 1 \<le> x"
| "interval_ok x \<longleftrightarrow> x = PInf"

lemma process_of_ok: "interval_ok (process_of x)"
  by (cases x) auto

definition collector_inv :: "nat \<Rightarrow> int \<Rightarrow> collector \<Rightarrow> bool" where
  "collector_inv n k co \<longleftrightarrow>
     co_history_size co = n \<and> history_ok n (co_history co) \<and> co_seq co = k \<and>
     co_refresh_interval co \<in> set ALLOWED_REFRESH_INTERVALS \<and> interval_ok (co_process_interval co) \<and>
     (case co_snapshot co of
        None \<Rightarrow> k = 0
      | Some s \<Rightarrow> n_seq s = k \<and> 0 < k \<and> history_ok n (n_history s) \<and> list_all readings_accepted (n_gpus s))"

lemma validated_accepted: "readings_accepted (validate_readings g)"
proof -
  have "accepts r (dget (gpu_readings (validate_readings g)) name)" if "(name, r) \<in> set GPU_METRIC_RULES" for name r
    using validate_readings_accepts[OF that, of g] unfolding dget_def by (metis option.simps(5))
  then show ?thesis unfolding readings_accepted_def list_all_iff using validate_readings_memory[of g] by blast
qed

lemma push_reading_ok: "history_ok n h \<Longrightarrow> history_ok n (push_reading n g h)"
  by (auto simp: push_reading_def Let_def series_for_def
      intro!: history_ok_update history_ok_delete series_ok_append series_ok_empty history_ok_lookup
      split: option.splits)

lemma push_readings_ok: "history_ok n h \<Longrightarrow> history_ok n (fold (push_reading n) gs h)"
  by (induction gs arbitrary: h) (auto intro: push_reading_ok)

text \<open>Sampling only touches what belongs to the samplers.\<close>

definition same_settings :: "collector \<Rightarrow> collector \<Rightarrow> bool" where
  "same_settings co co' \<longleftrightarrow>
     co_history_size co' = co_history_size co \<and> co_history co' = co_history co \<and> co_seq co' = co_seq co \<and>
     co_refresh_interval co' = co_refresh_interval co \<and> co_process_interval co' = co_process_interval co \<and>
     co_snapshot co' = co_snapshot co \<and> co_device_type co' = co_device_type co"

lemma sample_fallback_frame:
  "same_settings co (snd (sample_fallback ev co)) \<and>
   co_preferred_open (snd (sample_fallback ev co)) = co_preferred_open co \<and>
   co_preferred_retry_at (snd (sample_fallback ev co)) = co_preferred_retry_at co \<and>
   co_preferred_error (snd (sample_fallback ev co)) = co_preferred_error co"
  by (auto simp: sample_fallback_def sample_with_nvidia_smi_def same_settings_def Let_def split: sum.splits prod.splits)

lemma same_settings_trans: "same_settings a b \<Longrightarrow> same_settings b c \<Longrightarrow> same_settings a c"
  by (simp add: same_settings_def)

lemma sample_preferred_frame: "same_settings co (snd (sample_preferred now later p co))"
  by (auto simp: sample_preferred_def preferred_failed_def close_preferred_def same_settings_def split: sum.splits)

lemma sample_once_frame: "same_settings co (snd (sample_once ev co))"
proof -
  have "same_settings co (reset_degraded now co)" for now by (simp add: reset_degraded_def close_preferred_def same_settings_def)
  then show ?thesis
    using sample_fallback_frame sample_preferred_frame
    by (auto simp: sample_once_def Let_def split: prod.splits option.splits)
      (metis same_settings_trans snd_conv)+
qed

lemma inv_collect:
  assumes "collector_inv n k co"
  shows "collector_inv n (k + 1) (collect ev co)"
proof -
  obtain snap co1 where s: "sample_once ev co = (snap, co1)" by (cases "sample_once ev co")
  have f: "same_settings co co1" using sample_once_frame[of co ev] by (simp add: s)
  have "0 \<le> k" using assms by (auto simp: collector_inv_def split: option.splits)
  then show ?thesis using assms f
    by (auto simp: collect_def s publish_def Let_def collector_inv_def same_settings_def push_readings_ok list_all_iff validated_accepted)
qed

lemma allowed_interval: "validate_refresh_interval r = Inr x \<Longrightarrow> x \<in> set ALLOWED_REFRESH_INTERVALS"
  by (auto simp: validate_refresh_interval_def find_Some_iff split: option.splits)

lemma collector_reachable_ok: "collector_reachable n k co \<Longrightarrow> collector_inv n k co"
proof (induction rule: collector_reachable.induct)
  case (start device_type refresh process co)
  then show ?case by (auto simp: new_collector_def rbind_Inr_iff collector_inv_def process_of_ok dest: allowed_interval)
next
  case (round k co ev)
  then show ?case by (simp add: inv_collect)
next
  case (other k co ev)
  then show ?case
    by (cases ev) (auto simp: collector_inv_def set_refresh_interval_def set_process_interval_def close_collector_def process_of_ok
        close_preferred_def rbind_Inr_iff dest: allowed_interval split: sum.splits if_splits)
qed

text \<open>
  C36: whatever the samplers return or raise and however the settings are changed, after the k-th round the
  snapshot that is published has the number k, all its readings are accepted by their rules and fit the
  capacity, and the history holds four series of equal length per accelerator within the configured size.
\<close>

theorem collector_publishes_valid:
  assumes "collector_reachable n k co"
  shows "collector_inv n k co"
  using assms by (rule collector_reachable_ok)

definition broken_environment :: "rat \<Rightarrow> environment" where
  "broken_environment t = \<lparr>ev_now = t, ev_later = t, ev_time = t, ev_hostname = ''h'', ev_preferred = Inl ''NVML'', ev_npu_smi = Inl [],
     ev_nvidia_smi = (\<lambda>_ _. Inl ''missing'')\<rparr>"

theorem collector_publishes_valid_witness:
  "\<exists>co. new_collector ''nvidia'' 1 (Fin 5) 120 = Inr co \<and> collector_inv 120 1 (collect (broken_environment 7) co) \<and>
     co_seq (collect (broken_environment 7) co) = 1"
proof -
  have "is_ok (new_collector ''nvidia'' 1 (Fin 5) 120)" by code_simp
  then obtain co where co: "new_collector ''nvidia'' 1 (Fin 5) 120 = Inr co" unfolding is_ok_iff by blast
  then have "collector_reachable 120 (0 + 1) (handle_collector (RoundEv (broken_environment 7)) co)"
    by (intro collector_reachable.round collector_reachable.start)
  from collector_publishes_valid[OF this] have i: "collector_inv 120 1 (collect (broken_environment 7) co)" by simp
  then have "co_seq (collect (broken_environment 7) co) = 1" by (simp add: collector_inv_def)
  then show ?thesis using co i by blast
qed

subsection \<open>The preferred sampler rests after a failure\<close>

definition resting :: "rat \<Rightarrow> collector \<Rightarrow> bool" where
  "resting t co \<longleftrightarrow> \<not> co_preferred_open co \<and> co_preferred_retry_at co = t"

lemma reset_resting: "resting t co \<Longrightarrow> reset_degraded now co = co"
  by (simp add: reset_degraded_def close_preferred_def resting_def)

lemma publish_keeps [simp]:
  "co_preferred_open (publish s co) = co_preferred_open co" "co_preferred_retry_at (publish s co) = co_preferred_retry_at co"
  by (simp_all add: publish_def Let_def)

lemma resting_collect:
  assumes "resting t co" "ev_now ev < t"
  shows "resting t (collect ev co)" "collect (ev\<lparr>ev_preferred := p\<rparr>) co = collect ev co"
proof -
  have n: "\<not> tries_preferred (ev_now ev) co" using assms by (simp add: resting_def tries_preferred_def)
  have s: "sample_once ev co = sample_fallback ev co" "sample_once (ev\<lparr>ev_preferred := p\<rparr>) co = sample_fallback ev co"
    using n by (simp_all add: sample_once_def reset_resting[OF assms(1)] sample_fallback_def)
  then show "collect (ev\<lparr>ev_preferred := p\<rparr>) co = collect ev co" by (simp add: collect_def)
  show "resting t (collect ev co)"
    using assms(1) sample_fallback_frame[of co ev] by (simp add: collect_def s(1) resting_def case_prod_unfold)
qed

lemma resting_rounds:
  assumes "resting t co" "\<forall>e \<in> set evs. ev_now e < t"
  shows "resting t (fold collect evs co) \<and> fold collect (map (\<lambda>e. e\<lparr>ev_preferred := f e\<rparr>) evs) co = fold collect evs co"
  using assms by (induction evs arbitrary: co) (simp_all add: resting_collect)

lemma failure_rests:
  assumes "tries_preferred (ev_now ev) (reset_degraded (ev_now ev) co)"
    "fst (sample_preferred (ev_now ev) (ev_later ev) (ev_preferred ev) (reset_degraded (ev_now ev) co)) = None"
  shows "resting (ev_later ev + PREFERRED_RETRY_SECONDS) (collect ev co)"
proof -
  let ?co = "reset_degraded (ev_now ev) co"
  obtain co1 where p: "sample_preferred (ev_now ev) (ev_later ev) (ev_preferred ev) ?co = (None, co1)"
    using assms(2) by (metis prod.collapse)
  then have "resting (ev_later ev + PREFERRED_RETRY_SECONDS) co1"
    by (auto simp: sample_preferred_def preferred_failed_def close_preferred_def resting_def split: sum.splits if_splits)
  moreover have "sample_once ev co = sample_fallback ev co1" using assms(1) by (simp add: sample_once_def Let_def p)
  ultimately show ?thesis
    using sample_fallback_frame[of co1 ev] by (simp add: collect_def resting_def case_prod_unfold)
qed

text \<open>
  When the preferred sampler fails, every round still publishes a snapshot, and for the next two
  minutes what the preferred sampler would do cannot influence anything that is published; the first round after
  that tries it again.
\<close>

theorem preferred_backoff:
  assumes "tries_preferred (ev_now ev) (reset_degraded (ev_now ev) co)"
    and "fst (sample_preferred (ev_now ev) (ev_later ev) (ev_preferred ev) (reset_degraded (ev_now ev) co)) = None"
    and "\<forall>e \<in> set evs. ev_now e < ev_later ev + 120"
  shows "fold collect (map (\<lambda>e. e\<lparr>ev_preferred := f e\<rparr>) evs) (collect ev co) = fold collect evs (collect ev co) \<and>
    (\<forall>e. ev_later ev + 120 \<le> ev_now e \<longrightarrow>
       tries_preferred (ev_now e) (reset_degraded (ev_now e) (fold collect evs (collect ev co))))"
proof -
  have r: "resting (ev_later ev + 120) (collect ev co)"
    using failure_rests[OF assms(1,2)] by (simp add: PREFERRED_RETRY_SECONDS_def)
  from resting_rounds[OF r assms(3)] have "resting (ev_later ev + 120) (fold collect evs (collect ev co))" by blast
  then show ?thesis using resting_rounds[OF r assms(3), of f] by (auto simp: reset_resting tries_preferred_def resting_def)
qed

definition fresh_collector :: collector where
  "fresh_collector = \<lparr>co_device_type = ''nvidia'', co_refresh_interval = 1, co_process_interval = Fin 5, co_history_size = 120,
     co_snapshot = None, co_seq = 0, co_history = [], co_preferred_open = False, co_preferred_retry_at = 0,
     co_preferred_error = None, co_next_fallback_process_at = Fin 0, co_fallback_processes = []\<rparr>"

theorem preferred_backoff_witness:
  "collect ((broken_environment 60)\<lparr>ev_preferred := Inr (error_snapshot [] [] [] 0)\<rparr>) (collect (broken_environment 0) fresh_collector) =
     collect (broken_environment 60) (collect (broken_environment 0) fresh_collector) \<and>
   tries_preferred 120 (reset_degraded 120 (collect (broken_environment 60) (collect (broken_environment 0) fresh_collector)))"
proof -
  have a: "tries_preferred (ev_now (broken_environment 0)) (reset_degraded (ev_now (broken_environment 0)) fresh_collector)"
    "fst (sample_preferred (ev_now (broken_environment 0)) (ev_later (broken_environment 0)) (ev_preferred (broken_environment 0))
      (reset_degraded (ev_now (broken_environment 0)) fresh_collector)) = None"
    by (simp_all add: broken_environment_def fresh_collector_def tries_preferred_def reset_degraded_def sample_preferred_def)
  have "\<forall>e \<in> set [broken_environment 60]. ev_now e < ev_later (broken_environment 0) + 120" by (simp add: broken_environment_def)
  note p = preferred_backoff[OF a this]
  have "collect ((broken_environment 60)\<lparr>ev_preferred := Inr (error_snapshot [] [] [] 0)\<rparr>) (collect (broken_environment 0) fresh_collector) =
     collect (broken_environment 60) (collect (broken_environment 0) fresh_collector)"
    using conjunct1[OF p[of "\<lambda>_. Inr (error_snapshot [] [] [] 0)"]] by simp
  moreover have "ev_later (broken_environment 0) + 120 \<le> ev_now (broken_environment 120)" by (simp add: broken_environment_def)
  then have "tries_preferred (ev_now (broken_environment 120)) (reset_degraded (ev_now (broken_environment 120))
      (fold collect [broken_environment 60] (collect (broken_environment 0) fresh_collector)))" using p by blast
  then have "tries_preferred 120 (reset_degraded 120 (collect (broken_environment 60) (collect (broken_environment 0) fresh_collector)))"
    by (simp add: broken_environment_def[of 120])
  ultimately show ?thesis ..
qed

end
