(* ===== verification/Agent.thy ===== *)
theory Agent
  imports Collector Wire
begin

text \<open>
  \<open>packages/backend/src/constella/agent.py\<close>: the agent's side of the connection to the manager: its
  configuration, the messages it sends, how it answers requests, and the delta encoding of the lists of
  supported metrics. The sockets, the tasks and the state file are left out; what is sent is a value.
\<close>

subsection \<open>Configuration\<close>

record agent_config =
  gc_node_id :: string
  gc_manager_url :: string
  gc_token :: string
  gc_refresh_interval :: rat
  gc_process_interval :: flt
  gc_heartbeat_seconds :: rat
  gc_device_type :: string

definition RECONNECT_DELAYS :: "rat list" where
  "RECONNECT_DELAYS = [1, 2, 5, 15, 30]"

text \<open>\<^verbatim>\<open>float(os.environ.get(name, default))\<close>; an infinity or a NaN is rejected by the checks that follow.\<close>

definition float_env :: "environ \<Rightarrow> string \<Rightarrow> rat \<Rightarrow> flt result" where
  "float_env env name dflt = (case env name of None \<Rightarrow> Inr (Fin dflt) | Some v \<Rightarrow> py_float (PStr v))"

fun refresh_of :: "flt \<Rightarrow> rat result" where
  "refresh_of (Fin x) = validate_refresh_interval x"
| "refresh_of _ = Inl (ValueError ''refresh_interval must be one of: 0.5s, 1s, 2s, 5s'')"

text \<open>
  \<^verbatim>\<open>AgentConfig.from_env\<close>: the arguments win over the environment, the token over its file. The file is
  a function that may raise.
\<close>

definition agent_config_from_env ::
    "environ \<Rightarrow> string \<Rightarrow> (string \<Rightarrow> string result) \<Rightarrow> string option \<Rightarrow> string option \<Rightarrow> string option \<Rightarrow> string option
      \<Rightarrow> rat option \<Rightarrow> rat option \<Rightarrow> string option \<Rightarrow> agent_config result" where
  "agent_config_from_env env gethostname read_file node_id manager_url token token_file refresh process device_type =
     (let token1 = str_or token (str_or (env ''CONSTELLA_AGENT_TOKEN'') []);
          file = str_or token_file (str_or (env ''CONSTELLA_AGENT_TOKEN_FILE'') [])
      in rbind (if token1 = [] \<and> file \<noteq> [] then rbind (read_file file) (\<lambda>t. Inr (py_strip t)) else Inr token1) (\<lambda>tok.
         if tok = [] then Inl (ValueError ''agent token is required via CONSTELLA_AGENT_TOKEN or token file'')
         else
           let url = str_or manager_url (str_or (env ''CONSTELLA_MANAGER_URL'') [])
           in if url = [] then Inl (ValueError ''manager url is required via CONSTELLA_MANAGER_URL'')
              else
                rbind (case refresh of Some r \<Rightarrow> Inr (Fin r) | None \<Rightarrow> float_env env ''CONSTELLA_REFRESH_SECONDS'' 1) (\<lambda>rf.
                rbind (case process of Some p \<Rightarrow> Inr (Fin p) | None \<Rightarrow> float_env env ''CONSTELLA_PROCESS_SECONDS'' 5) (\<lambda>pf.
                rbind (validate_device_type (str_or device_type
                         (case env ''CONSTELLA_DEVICE_TYPE'' of None \<Rightarrow> ''nvidia'' | Some d \<Rightarrow> d))) (\<lambda>dt.
                rbind (refresh_of rf) (\<lambda>ri.
                  Inr \<lparr>gc_node_id = str_or node_id (local_node_id env gethostname None), gc_manager_url = url, gc_token = tok,
                       gc_refresh_interval = ri, gc_process_interval = process_of pf, gc_heartbeat_seconds = 10,
                       gc_device_type = dt\<rparr>))))))"

subsection \<open>Messages\<close>

definition SCHEMA_VERSION :: int where
  "SCHEMA_VERSION = 1"

definition hw_gpu_to_dict :: "hw_gpu \<Rightarrow> pyval" where
  "hw_gpu_to_dict h = PDict
     [(''index'', PInt (h_index h)), (''uuid'', PStr (h_uuid h)), (''name'', PStr (h_name h)), (''architecture'', h_architecture h)]"

definition agent_hello_message ::
    "environ \<Rightarrow> string \<Rightarrow> string \<Rightarrow> string \<Rightarrow> agent_config \<Rightarrow> hw_gpu list option \<Rightarrow> (string, pyval) dict" where
  "agent_hello_message env hostname version instance_id config hardware =
     [(''type'', PStr ''hello''), (''schema_version'', PInt SCHEMA_VERSION), (''node_id'', PStr (gc_node_id config)),
      (''hostname'', PStr hostname), (''agent_version'', PStr version),
      (''capabilities'', PDict
        [(''device_type'', PStr (gc_device_type config)), (''dcmi'', PBool (gc_device_type config = ''ascend'')),
         (''npu_smi_fallback'', PBool (gc_device_type config = ''ascend'')), (''nvml'', PBool (gc_device_type config = ''nvidia'')),
         (''nvidia_smi_fallback'', PBool (gc_device_type config = ''nvidia'')), (''process_cmdline'', PBool True),
         (''account_lookup_v1'', PBool True), (''agent_restart_v1'', PBool True), (''agent_instance_id'', PStr instance_id),
         (''performance_profiles'', PList (map PStr (performance_profiles env (gc_device_type config))))])] @
     (case hardware of None \<Rightarrow> [] | Some gpus \<Rightarrow> [(''hardware'', PDict [(''gpus'', PList (map hw_gpu_to_dict gpus))])])"

text \<open>\<^verbatim>\<open>dataclasses.asdict\<close> of the totals and \<^verbatim>\<open>Snapshot.to_dict\<close>.\<close>

definition rat_val :: "rat \<Rightarrow> pyval" where
  "rat_val x = PFlt (Fin x)"

definition int_val :: "rat \<Rightarrow> pyval" where
  "int_val x = (if of_int \<lfloor>x\<rfloor> = x then PInt \<lfloor>x\<rfloor> else rat_val x)"

definition totals_to_dict :: "node_totals \<Rightarrow> pyval" where
  "totals_to_dict t = PDict
     [(''gpu_count'', PInt (int (t_gpu_count t))), (''accelerator_count'', PInt (int (t_accelerator_count t))),
      (''card_count'', PInt (int (t_card_count t))), (''active_processes'', PInt (t_active_processes t)),
      (''avg_gpu_utilization'', rat_val (t_avg_gpu_utilization t)), (''avg_memory_utilization'', rat_val (t_avg_memory_utilization t)),
      (''memory_used_mb'', int_val (t_memory_used_mb t)), (''memory_total_mb'', int_val (t_memory_total_mb t)),
      (''power_watts'', rat_val (t_power_watts t)), (''power_limit_watts'', rat_val (t_power_limit_watts t)),
      (''max_temperature_c'', int_val (t_max_temperature_c t))]"

definition history_to_dict :: "history \<Rightarrow> pyval" where
  "history_to_dict h = PDict (map (\<lambda>(k, s). (k, PDict (map (\<lambda>(m, xs). (m, PList (map rat_val xs))) s))) h)"

definition snapshot_to_dict :: "raw_snapshot \<Rightarrow> (string, pyval) dict" where
  "snapshot_to_dict s =
     [(''ok'', PBool (n_ok s)), (''source'', PStr (n_source s)), (''hostname'', PStr (n_hostname s)),
      (''timestamp'', rat_val (n_timestamp s)), (''elapsed_ms'', rat_val (n_elapsed_ms s)),
      (''driver_version'', n_driver_version s), (''cuda_driver_version'', n_cuda_driver_version s),
      (''nvml_version'', n_nvml_version s), (''error'', n_error s), (''seq'', PInt (n_seq s)),
      (''refresh_interval'', rat_val (n_refresh_interval s)),
      (''totals'', totals_to_dict (node_totals_from_gpus (map numeric_gpu (n_gpus s)))),
      (''gpus'', PList (map gpu_to_dict (n_gpus s))), (''history'', history_to_dict (n_history s))]"

subsection \<open>The delta of the supported metrics\<close>

type_synonym delta_key = "string \<times> string \<times> string"

record delta =
  dl_enabled :: bool
  dl_previous :: "(delta_key, string list) dict"

definition new_delta :: delta where
  "new_delta = \<lparr>dl_enabled = False, dl_previous = []\<rparr>"

text \<open>One accelerator of the payload: the lists sent so far, the keys seen, and the encoded entries.\<close>

definition delta_gpu ::
    "pyval \<Rightarrow> (delta_key, string list) dict \<times> delta_key set \<times> pyval list
      \<Rightarrow> (delta_key, string list) dict \<times> delta_key set \<times> pyval list" where
  "delta_gpu item st =
     (case st of (previous, seen, out) \<Rightarrow>
        (case item of
           PDict g \<Rightarrow>
             (case dget g ''performance'' of
                PDict p \<Rightarrow>
                  (case dget p ''supported_metrics'' of
                     PList raw \<Rightarrow>
                       let key = (str_field g ''uuid'' ''unknown'', py_str (py_or (dget g ''index'') (PInt 0)), str_field p ''profile'' []);
                           current = map py_str raw
                       in if map_of previous key = Some current
                          then (previous, insert key seen,
                                out @ [PDict (AList.update ''performance'' (PDict (AList.delete ''supported_metrics'' p)) g)])
                          else (AList.update key current previous, insert key seen, out @ [item])
                   | _ \<Rightarrow> (previous, seen, out @ [item]))
              | _ \<Rightarrow> (previous, seen, out @ [item]))
         | _ \<Rightarrow> (previous, seen, out @ [item])))"

definition delta_apply :: "pyval list \<Rightarrow> delta \<Rightarrow> pyval list \<times> delta" where
  "delta_apply items dl =
     (if \<not> dl_enabled dl then (items, dl)
      else case fold delta_gpu items (dl_previous dl, {}, []) of
          (previous, seen, out) \<Rightarrow> (out, dl\<lparr>dl_previous := filter (\<lambda>(k, _). k \<in> seen) previous\<rparr>))"

definition snapshot_to_agent_payload :: "raw_snapshot \<Rightarrow> delta option \<Rightarrow> (string, pyval) dict \<times> delta option" where
  "snapshot_to_agent_payload s dl =
     (let payload = AList.delete ''history'' (snapshot_to_dict s)
      in case dl of
           None \<Rightarrow> (payload, None)
         | Some d \<Rightarrow>
             (case delta_apply (map gpu_to_dict (n_gpus s)) d of
                (items, d') \<Rightarrow> (AList.update ''gpus'' (PList items) payload, Some d')))"

definition agent_sample ::
    "agent_config \<Rightarrow> int \<Rightarrow> raw_snapshot \<Rightarrow> flt option \<Rightarrow> delta option \<Rightarrow> (string, pyval) dict \<times> delta option" where
  "agent_sample config seq s process_interval dl =
     (case snapshot_to_agent_payload s dl of
        (payload, dl') \<Rightarrow>
          ([(''type'', PStr ''sample''), (''schema_version'', PInt SCHEMA_VERSION), (''node_id'', PStr (gc_node_id config)),
            (''seq'', PInt seq), (''sampled_at'', rat_val (n_timestamp s)), (''refresh_interval'', rat_val (n_refresh_interval s)),
            (''process_interval'', PFlt (case process_interval of Some p \<Rightarrow> p | None \<Rightarrow> gc_process_interval config)),
            (''snapshot'', PDict payload)], dl'))"

definition agent_heartbeat :: "agent_config \<Rightarrow> int \<Rightarrow> rat \<Rightarrow> (string, pyval) dict" where
  "agent_heartbeat config seq now =
     [(''type'', PStr ''heartbeat''), (''schema_version'', PInt SCHEMA_VERSION), (''node_id'', PStr (gc_node_id config)),
      (''seq'', PInt seq), (''timestamp'', rat_val now)]"

subsection \<open>Requests of the manager\<close>

text \<open>An entry of the password database.\<close>

record passwd =
  pw_name :: string
  pw_uid :: int
  pw_gid :: int
  pw_shell :: string

text \<open>The account database is a function; a failing one raises \<^verbatim>\<open>OSError\<close> with a text.\<close>

type_synonym account_db = "string \<Rightarrow> string + passwd option"

definition lookup_linux_account :: "account_db \<Rightarrow> pyval \<Rightarrow> string + (string, pyval) dict" where
  "lookup_linux_account db username =
     (case username of
        PStr name \<Rightarrow>
          if name = [] \<or> 256 < length name \<or> CHR 0x00 \<in> set name then Inl ''invalid Linux username''
          else (case db name of
              Inl e \<Rightarrow> Inl e
            | Inr None \<Rightarrow> Inr [(''exists'', PBool False)]
            | Inr (Some a) \<Rightarrow> Inr [(''exists'', PBool True), (''canonical_username'', PStr (pw_name a)), (''uid'', PInt (pw_uid a)),
                (''gid'', PInt (pw_gid a)), (''shell'', PStr (pw_shell a))])
      | _ \<Rightarrow> Inl ''invalid Linux username'')"

text \<open>A lookup that takes more than three seconds fails with an empty text.\<close>

definition account_lookup_response :: "account_db \<Rightarrow> bool \<Rightarrow> string \<Rightarrow> (string, pyval) dict \<Rightarrow> (string, pyval) dict" where
  "account_lookup_response db timed_out node_id message =
     (let request_id = str_field message ''request_id'' [];
          response = [(''type'', PStr ''account_lookup_response''), (''request_id'', PStr request_id), (''node_id'', PStr node_id)]
      in if request_id = [] \<or> str_field message ''node_id'' [] \<noteq> node_id
         then dict_update_all response [(''ok'', PBool False), (''error'', PStr ''invalid account lookup request'')]
         else (case (if timed_out then Inl [] else lookup_linux_account db (dget message ''username'')) of
             Inl e \<Rightarrow> dict_update_all response [(''ok'', PBool False), (''error'', PStr e)]
           | Inr result \<Rightarrow> dict_update_all (dict_update_all response [(''ok'', PBool True)]) result))"

definition restart_valid :: "string \<Rightarrow> (string, pyval) dict \<Rightarrow> bool" where
  "restart_valid node_id message \<longleftrightarrow>
     (case dget message ''request_id'' of PStr r \<Rightarrow> r \<noteq> [] | _ \<Rightarrow> False) \<and> dget message ''node_id'' = PStr node_id"

definition restart_response :: "string \<Rightarrow> (string, pyval) dict \<Rightarrow> (string, pyval) dict" where
  "restart_response node_id message =
     [(''type'', PStr ''agent_restart_response''), (''request_id'', dget message ''request_id''), (''node_id'', PStr node_id),
      (''ok'', PBool (restart_valid node_id message))]"

text \<open>
  What the receiver does with one message: the messages it sends, the new collector and delta, and whether
  it goes on, restarts the agent, or fails with an exception it does not suppress: an error of a conversion, or the
  \<^verbatim>\<open>AttributeError\<close> of a message that is not an object.
\<close>

datatype receiver_end = GoOn | Restart | ReceiverFails pyexc | NoAttribute

definition suppressed :: "pyexc \<Rightarrow> bool" where
  "suppressed e = (case e of ValueError _ \<Rightarrow> True | TypeError \<Rightarrow> True | _ \<Rightarrow> False)"

definition apply_interval :: "string \<Rightarrow> (flt \<Rightarrow> collector \<Rightarrow> collector result) \<Rightarrow> (string, pyval) dict \<Rightarrow> collector \<Rightarrow> collector result" where
  "apply_interval name f message co =
     (if \<not> has_key message name then Inr co
      else case rbind (py_float (dget message name)) (\<lambda>x. f x co) of
          Inr co' \<Rightarrow> Inr co'
        | Inl e \<Rightarrow> if suppressed e then Inr co else Inl e)"

fun refresh_collector :: "flt \<Rightarrow> collector \<Rightarrow> collector result" where
  "refresh_collector (Fin x) co = rbind (set_refresh_interval x co) (\<lambda>(co', _). Inr co')"
| "refresh_collector _ co = Inl (ValueError ''refresh_interval must be one of: 0.5s, 1s, 2s, 5s'')"

definition process_collector :: "flt \<Rightarrow> collector \<Rightarrow> collector result" where
  "process_collector x co = Inr (set_process_interval x co)"

definition receive_message ::
    "account_db \<Rightarrow> bool \<Rightarrow> agent_config \<Rightarrow> pyval \<Rightarrow> collector \<Rightarrow> delta
      \<Rightarrow> (string, pyval) dict list \<times> collector \<times> delta \<times> receiver_end" where
  "receive_message db timed_out config message co dl =
     (case message of
        PDict m \<Rightarrow>
          if dget m ''type'' = PStr ''agent_restart_request''
          then ([restart_response (gc_node_id config) m], co, dl, if restart_valid (gc_node_id config) m then Restart else GoOn)
          else if dget m ''type'' = PStr ''account_lookup_request''
          then ([account_lookup_response db timed_out (gc_node_id config) m], co, dl, GoOn)
          else if dget m ''type'' \<noteq> PStr ''config'' then ([], co, dl, GoOn)
          else
            let dl' = dl\<lparr>dl_enabled := dget m ''supported_metrics_delta'' = PBool True\<rparr>
            in (case apply_interval ''refresh_interval'' refresh_collector m co of
                  Inl e \<Rightarrow> ([], co, dl', ReceiverFails e)
                | Inr co1 \<Rightarrow>
                    (case apply_interval ''process_interval'' process_collector m co1 of
                       Inl e \<Rightarrow> ([], co1, dl', ReceiverFails e)
                     | Inr co2 \<Rightarrow> ([], co2, dl', GoOn)))
      | _ \<Rightarrow> ([], co, dl, NoAttribute))"

subsection \<open>Sending and reconnecting\<close>

record sender =
  sn_last_snapshot_seq :: int
  sn_message_seq :: int

definition new_sender :: sender where
  "new_sender = \<lparr>sn_last_snapshot_seq = 0, sn_message_seq = 0\<rparr>"

text \<open>One round of the sender, with what \<^verbatim>\<open>wait_for_update\<close> returned: a sample or a heartbeat.\<close>

definition sender_step ::
    "agent_config \<Rightarrow> flt \<Rightarrow> rat \<Rightarrow> raw_snapshot option \<Rightarrow> sender \<Rightarrow> delta \<Rightarrow> (string, pyval) dict \<times> sender \<times> delta" where
  "sender_step config process_interval now update sn dl =
     (case update of
        Some s \<Rightarrow>
          if sn_last_snapshot_seq sn < n_seq s
          then (case agent_sample config (sn_message_seq sn + 1) s (Some process_interval) (Some dl) of
              (m, dl') \<Rightarrow> (m, \<lparr>sn_last_snapshot_seq = n_seq s, sn_message_seq = sn_message_seq sn + 1\<rparr>,
                 case dl' of None \<Rightarrow> dl | Some d \<Rightarrow> d))
          else (agent_heartbeat config (sn_message_seq sn + 1) now, sn\<lparr>sn_message_seq := sn_message_seq sn + 1\<rparr>, dl)
      | None \<Rightarrow> (agent_heartbeat config (sn_message_seq sn + 1) now, sn\<lparr>sn_message_seq := sn_message_seq sn + 1\<rparr>, dl))"

text \<open>The random part of the delay is an argument between zero and one.\<close>

definition reconnect_delay :: "nat \<Rightarrow> rat \<Rightarrow> rat" where
  "reconnect_delay attempt random =
     (let base = RECONNECT_DELAYS ! min attempt (length RECONNECT_DELAYS - 1) in base + random * min 1 (base * (15 / 100)))"

text \<open>How a connection ended: the peer closed it cleanly, a restart was asked for, or it failed.\<close>

datatype connection_end = ClosedCleanly | RestartAsked | ConnectionFailed

text \<open>The connection loop after a connection: the next attempt and the delay before it, or the end of the loop.\<close>

fun after_connection :: "connection_end \<Rightarrow> rat \<Rightarrow> nat \<Rightarrow> (nat \<times> rat) option" where
  "after_connection ClosedCleanly random attempt = Some (0, 0)"
| "after_connection RestartAsked random attempt = None"
| "after_connection ConnectionFailed random attempt = Some (attempt + 1, reconnect_delay attempt random)"

end
