(* ===== verification/AgentProps.thy ===== *)
theory AgentProps
  imports Agent
begin

text \<open>
  What the agent's encoding keeps: leaving out the lists of supported metrics that have not changed loses
  nothing as long as every sample is accepted, and replaces them by older ones after a sample that was refused.
\<close>

subsection \<open>Reconnecting\<close>

lemma reconnect_delay_bounds:
  assumes "0 \<le> random" "random \<le> 1"
  shows "1 \<le> reconnect_delay attempt random \<and> reconnect_delay attempt random \<le> 31"
proof -
  have "RECONNECT_DELAYS ! min attempt (length RECONNECT_DELAYS - 1) \<in> set RECONNECT_DELAYS"
    by (intro nth_mem) (simp add: RECONNECT_DELAYS_def)
  then obtain b where b: "RECONNECT_DELAYS ! min attempt (length RECONNECT_DELAYS - 1) = b" "1 \<le> b" "b \<le> 30"
    by (auto simp: RECONNECT_DELAYS_def)
  define c where "c = min 1 (b * (15 / 100))"
  have "0 \<le> c" "c \<le> 1" using b(2) by (simp_all add: c_def)
  then have "0 \<le> random * c" "random * c \<le> 1" using assms mult_mono[of random 1 c 1] by simp_all
  moreover have "reconnect_delay attempt random = b + random * c" by (simp only: reconnect_delay_def Let_def b(1) c_def)
  ultimately show ?thesis using b(2,3) by linarith
qed

subsection \<open>One encoded entry\<close>

definition full_key :: "raw_gpu \<Rightarrow> performance \<Rightarrow> delta_key" where
  "full_key g q = (g_uuid g, int_str (g_index g), f_profile q)"

text \<open>What the delta remembers about an accelerator.\<close>

definition sends :: "raw_gpu \<Rightarrow> (delta_key \<times> string list) option" where
  "sends g = map_option (\<lambda>q. (full_key g q, f_supported_metrics q)) (g_performance g)"

definition pruned :: "raw_gpu \<Rightarrow> pyval" where
  "pruned g =
     (case gpu_to_dict g of
        PDict d \<Rightarrow> PDict (AList.update ''performance''
          (case dget d ''performance'' of PDict p \<Rightarrow> PDict (AList.delete ''supported_metrics'' p) | v \<Rightarrow> v) d)
      | v \<Rightarrow> v)"

definition encoded :: "(delta_key, string list) dict \<Rightarrow> raw_gpu \<Rightarrow> pyval" where
  "encoded previous g =
     (case sends g of None \<Rightarrow> gpu_to_dict g
      | Some (k, l) \<Rightarrow> if map_of previous k = Some l then pruned g else gpu_to_dict g)"

definition remembered :: "raw_gpu \<Rightarrow> (delta_key, string list) dict \<Rightarrow> (delta_key, string list) dict" where
  "remembered g previous = (case sends g of None \<Rightarrow> previous | Some (k, l) \<Rightarrow>
     if map_of previous k = Some l then previous else AList.update k l previous)"

definition sent_keys :: "raw_gpu \<Rightarrow> delta_key set" where
  "sent_keys g = (case sends g of None \<Rightarrow> {} | Some (k, _) \<Rightarrow> {k})"

lemma gpu_dict_lookups:
  assumes "wire_gpu g" "gpu_to_dict g = PDict d" "carries d g"
  shows "str_field d ''uuid'' ''unknown'' = g_uuid g" "py_str (py_or (dget d ''index'') (PInt 0)) = int_str (g_index g)"
proof -
  have m: "map_of d ''uuid'' = Some (PStr (g_uuid g))" "map_of d ''index'' = Some (PInt (g_index g))"
    using assms(3) map_of_gpu_fields(1,5)[of g] by (simp_all add: carries_def)
  show "str_field d ''uuid'' ''unknown'' = g_uuid g" using assms(1) m(1) by (intro str_field_PStr) (auto simp: wire_gpu_def)
  show "py_str (py_or (dget d ''index'') (PInt 0)) = int_str (g_index g)" by (simp add: dget_def m(2) py_or_def py_str_def)
qed

lemma perf_dict_lookups:
  "\<exists>p. perf_to_dict q = PDict p \<and> dget p ''supported_metrics'' = PList (map PStr (f_supported_metrics q)) \<and>
     str_field p ''profile'' [] = f_profile q"
  by (simp add: perf_to_dict_def dget_def str_field_def py_or_def)

lemma delta_gpu_wire:
  assumes "wire_gpu g"
  shows "delta_gpu (gpu_to_dict g) (previous, seen, out) = (remembered g previous, seen \<union> sent_keys g, out @ [encoded previous g])"
proof -
  obtain d where d: "gpu_to_dict g = PDict d" "carries d g" "dget d ''performance'' = opt_val perf_to_dict (g_performance g)"
    using gpu_to_dict_carries by blast
  note lk = gpu_dict_lookups[OF assms d(1,2)]
  show ?thesis
  proof (cases "g_performance g")
    case None
    then show ?thesis by (simp add: delta_gpu_def d opt_val_def sends_def remembered_def sent_keys_def encoded_def)
  next
    case (Some q)
    obtain p where p: "perf_to_dict q = PDict p" "dget p ''supported_metrics'' = PList (map PStr (f_supported_metrics q))"
      "str_field p ''profile'' [] = f_profile q" using perf_dict_lookups by blast
    have "map py_str (map PStr (f_supported_metrics q)) = f_supported_metrics q" by (simp add: comp_def)
    then show ?thesis
      by (simp add: delta_gpu_def d Some opt_val_def p lk Let_def sends_def remembered_def sent_keys_def encoded_def full_key_def
          pruned_def del: map_map)
  qed
qed

lemma pruned_decodes:
  assumes w: "wire_gpu g" and q: "g_performance g = Some q"
    and prev: "previous_gpu gs (g_uuid g) (g_index g) = Some h" "g_performance h = Some r" "f_profile r = f_profile q"
      "f_supported_metrics r = f_supported_metrics q"
  shows "gpu_from_telemetry node (pruned g) i gs = Inr (received_gpu node g)"
proof -
  obtain d where d: "gpu_to_dict g = PDict d" "carries d g" "dget d ''performance'' = opt_val perf_to_dict (g_performance g)"
    using gpu_to_dict_carries by blast
  obtain p where p: "perf_to_dict q = PDict p" by (simp add: perf_to_dict_def)
  let ?p = "AList.delete ''supported_metrics'' p" let ?d = "AList.update ''performance'' (PDict ?p) d"
  have e: "pruned g = PDict ?d" by (simp add: pruned_def d q opt_val_def p)
  have c: "carries ?d g" using d(2) by (simp add: carries_def map_of_update)
  have wq: "wire_performance q" using w q by (simp add: wire_gpu_def)
  have pf: "performance_from_dict (PDict ?p) = Inr (Some (q\<lparr>f_supported_metrics := []\<rparr>))"
    using performance_decodes[OF wq p, of ?p] by (simp add: dget_def supported_from_def)
  have "dget ?d ''performance'' = PDict ?p" by (simp add: dget_def map_of_update)
  moreover have "perf_of_previous (PDict ?p) (Some h) (Some (q\<lparr>f_supported_metrics := []\<rparr>)) = Some q"
    using prev by (simp add: perf_of_previous_def)
  ultimately show ?thesis unfolding e using carried_roundtrip[OF w c, of "Some (q\<lparr>f_supported_metrics := []\<rparr>)" gs node i] pf prev(1) q by simp
qed

subsection \<open>A whole sample\<close>

definition place :: "raw_gpu \<Rightarrow> string \<times> int" where
  "place g = (g_uuid g, g_index g)"

definition sendable :: "raw_gpu list \<Rightarrow> bool" where
  "sendable rs \<longleftrightarrow> list_all wire_gpu rs \<and> distinct (map place rs)"

lemma full_key_place: "full_key g q = full_key h r \<Longrightarrow> place g = place h"
  by (auto simp: full_key_def place_def int_str_inject)

lemma encoded_remembered: "place g \<noteq> place h \<Longrightarrow> encoded (remembered g previous) h = encoded previous h"
  by (cases "g_performance g"; cases "g_performance h")
    (auto simp: encoded_def remembered_def sends_def map_of_update dest: full_key_place)

lemma delta_fold:
  assumes "sendable rs"
  shows "fold delta_gpu (map gpu_to_dict rs) (previous, seen, out) =
    (fold remembered rs previous, seen \<union> (\<Union>g \<in> set rs. sent_keys g), out @ map (encoded previous) rs)"
  using assms
proof (induction rs arbitrary: previous seen out)
  case (Cons g rs)
  have "map (encoded (remembered g previous)) rs = map (encoded previous) rs"
    using Cons.prems by (auto simp: sendable_def intro!: encoded_remembered)
  then show ?case using Cons by (simp add: sendable_def delta_gpu_wire Un_assoc)
qed simp

lemma remembered_other: "k \<notin> sent_keys g \<Longrightarrow> map_of (remembered g previous) k = map_of previous k"
  by (auto simp: remembered_def sent_keys_def map_of_update split: option.splits)

lemma remembered_own: "sends g = Some (k, l) \<Longrightarrow> map_of (remembered g previous) k = Some l"
  by (simp add: remembered_def map_of_update)

lemma sent_keys_place: "k \<in> sent_keys g \<Longrightarrow> k \<in> sent_keys h \<Longrightarrow> place g = place h"
  by (auto simp: sent_keys_def sends_def dest: full_key_place split: option.splits)

lemma fold_remembered_other: "\<forall>x \<in> set rs. k \<notin> sent_keys x \<Longrightarrow> map_of (fold remembered rs previous) k = map_of previous k"
  by (induction rs arbitrary: previous) (simp_all add: remembered_other)

lemma fold_remembered:
  assumes "distinct (map place rs)" "g \<in> set rs" "sends g = Some (k, l)"
  shows "map_of (fold remembered rs previous) k = Some l"
  using assms
proof (induction rs arbitrary: previous)
  case (Cons h rs)
  have k: "k \<in> sent_keys g" using Cons.prems(3) by (simp add: sent_keys_def)
  show ?case
  proof (cases "g = h")
    case True
    have "\<forall>x \<in> set rs. k \<notin> sent_keys x"
    proof (intro ballI notI)
      fix x assume "x \<in> set rs" "k \<in> sent_keys x"
      then have "place x = place h" using k True by (auto dest: sent_keys_place)
      then show False using Cons.prems(1) \<open>x \<in> set rs\<close> by (metis image_eqI list.set_map distinct.simps(2) list.simps(9))
    qed
    then show ?thesis using Cons.prems(3) True by (simp add: fold_remembered_other remembered_own)
  next
    case False
    then show ?thesis using Cons by simp
  qed
qed simp

lemma dict_ok_remembered: "dict_ok previous \<Longrightarrow> dict_ok (remembered g previous)"
  by (auto simp: remembered_def split: option.splits)

lemma map_of_filter_keys: "map_of (filter (\<lambda>(k, _). P k) d) k = (if P k then map_of d k else None)"
  by (induction d) auto

text \<open>What the delta and the manager agree on: every list the delta will leave out is the one the manager has.\<close>

definition synced :: "(delta_key, string list) dict \<Rightarrow> gpu list \<Rightarrow> bool" where
  "synced previous gs \<longleftrightarrow>
     (\<forall>u i p l. map_of previous (u, int_str i, p) = Some l \<longrightarrow>
        (\<exists>h r. previous_gpu gs u i = Some h \<and> g_performance h = Some r \<and> f_profile r = p \<and> f_supported_metrics r = l))"

lemma encoded_decodes:
  assumes "wire_gpu g" "synced previous gs"
  shows "gpu_from_telemetry node (encoded previous g) i gs = Inr (received_gpu node g)"
proof (cases "\<exists>q. g_performance g = Some q \<and> map_of previous (full_key g q) = Some (f_supported_metrics q)")
  case True
  then obtain q where q: "g_performance g = Some q" "map_of previous (full_key g q) = Some (f_supported_metrics q)" by blast
  then obtain h r where "previous_gpu gs (g_uuid g) (g_index g) = Some h" "g_performance h = Some r" "f_profile r = f_profile q"
    "f_supported_metrics r = f_supported_metrics q" using assms(2) unfolding synced_def full_key_def by blast
  then show ?thesis using pruned_decodes[OF assms(1) q(1)] q by (simp add: encoded_def sends_def)
next
  case False
  then have "encoded previous g = gpu_to_dict g" by (auto simp: encoded_def sends_def split: option.splits)
  then show ?thesis by (simp add: gpu_roundtrip[OF assms(1)])
qed

lemma decode_encoded:
  assumes "sendable rs" "synced previous gs"
  shows "decode_gpus node (map (encoded previous) rs) gs = decode_gpus node (map gpu_to_dict rs) gs'"
proof -
  have *: "rmap (\<lambda>(i, item). gpu_from_telemetry node item i hs) (enumerate n (map f xs)) = Inr (map (received_gpu node) xs)"
    if "\<And>x i. x \<in> set xs \<Longrightarrow> gpu_from_telemetry node (f x) i hs = Inr (received_gpu node x)"
    for f hs n and xs :: "raw_gpu list"
    using that by (induction xs arbitrary: n) simp_all
  have "\<forall>g \<in> set rs. wire_gpu g" using assms(1) by (simp add: sendable_def list_all_iff)
  then show ?thesis
    unfolding decode_gpus_def using *[of rs "encoded previous" gs] *[of rs gpu_to_dict gs'] assms(2)
    by (simp add: encoded_decodes gpu_roundtrip)
qed

lemma delta_apply_sendable:
  assumes "sendable rs" "dl_enabled dl"
  shows "delta_apply (map gpu_to_dict rs) dl =
    (map (encoded (dl_previous dl)) rs,
     dl\<lparr>dl_previous := filter (\<lambda>(k, _). k \<in> (\<Union>g \<in> set rs. sent_keys g)) (fold remembered rs (dl_previous dl))\<rparr>)"
  using assms by (simp add: delta_apply_def delta_fold)

lemma rmap_filter_frame:
  "rmap filter_gpu_processes xs = Inr ys \<Longrightarrow>
   map (\<lambda>g. (g_uuid g, g_index g, g_performance g)) ys = map (\<lambda>g. (g_uuid g, g_index g, g_performance g)) xs"
  by (induction xs arbitrary: ys) (auto simp: rbind_Inr_iff filter_gpu_processes_def)

lemma previous_gpu_member:
  assumes "distinct (map (\<lambda>g. (g_uuid g, g_index g)) gs)" "h \<in> set gs"
  shows "previous_gpu gs (g_uuid h) (g_index h) = Some h"
proof -
  have "find (\<lambda>g. g_uuid g = g_uuid h \<and> g_index g = g_index h) xs = Some h"
    if "distinct (map (\<lambda>g. (g_uuid g, g_index g)) xs)" "h \<in> set xs" for xs
    using that by (induction xs) (auto simp: image_iff)
  from this[of "rev gs"] show ?thesis using assms by (simp add: previous_gpu_def rev_map[symmetric])
qed

lemma decoded_frame:
  assumes "sendable rs" "decode_gpus node (map gpu_to_dict rs) gs = Inr gs1"
  shows "map (\<lambda>g. (g_uuid g, g_index g, g_performance g)) gs1 = map (\<lambda>g. (g_uuid g, g_index g, g_performance g)) rs"
proof -
  have "rmap (\<lambda>(i, item). gpu_from_telemetry node item i gs) (enumerate n (map gpu_to_dict xs)) = Inr (map (received_gpu node) xs)"
    if "list_all wire_gpu xs" for n and xs :: "raw_gpu list"
    using that by (induction xs arbitrary: n) (simp_all add: gpu_roundtrip)
  then have "rmap filter_gpu_processes (map (received_gpu node) rs) = Inr gs1"
    using assms by (simp add: decode_gpus_def sendable_def)
  from rmap_filter_frame[OF this] show ?thesis by (simp add: received_gpu_def numeric_gpu_def comp_def)
qed

lemma synced_after:
  assumes s: "sendable rs" and gs1: "map (\<lambda>g. (g_uuid g, g_index g, g_performance g)) gs1 = map (\<lambda>g. (g_uuid g, g_index g, g_performance g)) rs"
  shows "synced (filter (\<lambda>(k, _). k \<in> (\<Union>g \<in> set rs. sent_keys g)) (fold remembered rs previous)) gs1"
  unfolding synced_def
proof (intro allI impI)
  fix u i p l
  assume m: "map_of (filter (\<lambda>(k, _). k \<in> (\<Union>g \<in> set rs. sent_keys g)) (fold remembered rs previous)) (u, int_str i, p) = Some l"
  then obtain g where g: "g \<in> set rs" "(u, int_str i, p) \<in> sent_keys g" and
    l: "map_of (fold remembered rs previous) (u, int_str i, p) = Some l"
    by (auto simp: map_of_filter_keys split: if_splits)
  obtain q where q: "g_performance g = Some q" "full_key g q = (u, int_str i, p)"
    using g(2) by (auto simp: sent_keys_def sends_def split: option.splits)
  have "map_of (fold remembered rs previous) (full_key g q) = Some (f_supported_metrics q)"
    using fold_remembered[of rs g] s g(1) q by (simp add: sendable_def sends_def)
  then have l: "l = f_supported_metrics q" using l q(2) by simp
  have k: "u = g_uuid g" "i = g_index g" "p = f_profile q" using q(2) by (auto simp: full_key_def int_str_inject)
  have "(g_uuid g, g_index g, g_performance g) \<in> set (map (\<lambda>g. (g_uuid g, g_index g, g_performance g)) gs1)"
    unfolding gs1 using g(1) by simp
  then obtain h where h: "h \<in> set gs1" "g_uuid h = g_uuid g" "g_index h = g_index g" "g_performance h = g_performance g" by auto
  have "map (\<lambda>g. (g_uuid g, g_index g)) gs1 = map place rs"
    using arg_cong[OF gs1, of "map (\<lambda>(u, i, p). (u, i))"] by (simp add: comp_def place_def)
  then have "distinct (map (\<lambda>g. (g_uuid g, g_index g)) gs1)" using s by (simp add: sendable_def)
  from previous_gpu_member[OF this h(1)] have "previous_gpu gs1 u i = Some h" using h k by simp
  then show "\<exists>h r. previous_gpu gs1 u i = Some h \<and> g_performance h = Some r \<and> f_profile r = p \<and> f_supported_metrics r = l"
    using h(4) q(1) k(3) l by auto
qed

text \<open>
  What the manager has stored after each sample of a connection, with and without the delta.  A sample
  comes with the flag of the manager's settings at the time: the agent starts with the delta off and
  switches it on when the settings arrive.
\<close>

fun stream_with_delta :: "string \<Rightarrow> delta \<Rightarrow> gpu list \<Rightarrow> (bool \<times> raw_gpu list) list \<Rightarrow> gpu list list result" where
  "stream_with_delta node dl gs [] = Inr []"
| "stream_with_delta node dl gs ((on, rs) # rest) =
     (case delta_apply (map gpu_to_dict rs) (dl\<lparr>dl_enabled := on\<rparr>) of
        (items, dl') \<Rightarrow> rbind (decode_gpus node items gs) (\<lambda>gs1. rbind (stream_with_delta node dl' gs1 rest) (\<lambda>gss. Inr (gs1 # gss))))"

fun stream_plain :: "string \<Rightarrow> gpu list \<Rightarrow> raw_gpu list list \<Rightarrow> gpu list list result" where
  "stream_plain node gs [] = Inr []"
| "stream_plain node gs (rs # rest) =
     rbind (decode_gpus node (map gpu_to_dict rs) gs) (\<lambda>gs1. rbind (stream_plain node gs1 rest) (\<lambda>gss. Inr (gs1 # gss)))"

lemma stream_synced:
  assumes "synced (dl_previous dl) gs" "list_all sendable rss"
  shows "stream_with_delta node dl gs (map (Pair True) rss) = stream_plain node gs rss"
  using assms
proof (induction rss arbitrary: dl gs)
  case (Cons rs rss)
  let ?on = "dl\<lparr>dl_enabled := True\<rparr>"
  let ?dl = "?on\<lparr>dl_previous := filter (\<lambda>(k, _). k \<in> (\<Union>g \<in> set rs. sent_keys g)) (fold remembered rs (dl_previous dl))\<rparr>"
  have s: "sendable rs" using Cons.prems(2) by simp
  have d: "decode_gpus node (map (encoded (dl_previous dl)) rs) gs = decode_gpus node (map gpu_to_dict rs) gs"
    by (rule decode_encoded[OF s Cons.prems(1)])
  have "stream_with_delta node ?dl gs1 (map (Pair True) rss) = stream_plain node gs1 rss"
    if "decode_gpus node (map gpu_to_dict rs) gs = Inr gs1" for gs1
    using Cons synced_after[OF s decoded_frame[OF s that]] by simp
  then show ?case
    using delta_apply_sendable[OF s, of ?on]
    by (cases "decode_gpus node (map gpu_to_dict rs) gs") (simp_all add: d)
qed simp

text \<open>
  C3: on a connection, leaving out the lists of supported metrics that have not changed loses nothing:
  the delta is off for the samples before the manager's settings arrive and on for all later ones; the samples
  meet the rules of the telemetry and list no accelerator twice, and accelerators may come and go.  Whatever the
  manager knew before, as long as it accepts the samples it stores after each one exactly what it
  would store had the agent sent everything.
\<close>

theorem delta_lossless:
  assumes "list_all sendable (early @ late)"
  shows "stream_with_delta node new_delta gs (map (Pair False) early @ map (Pair True) late) =
    stream_plain node gs (early @ late)"
  using assms
proof (induction early arbitrary: gs)
  case Nil
  then show ?case by (simp add: stream_synced new_delta_def synced_def)
next
  case (Cons rs early)
  have "new_delta\<lparr>dl_enabled := False\<rparr> = new_delta" by (simp add: new_delta_def)
  moreover have "delta_apply items new_delta = (items, new_delta)" for items by (simp add: delta_apply_def new_delta_def)
  ultimately show ?case
    using Cons by (cases "decode_gpus node (map gpu_to_dict rs) gs") simp_all
qed

lemma fields_without_performance:
  "n \<noteq> ''performance'' \<Longrightarrow> map_of (gpu_fields (g\<lparr>g_performance := p\<rparr>)) n = map_of (gpu_fields g) n"
  by (simp add: gpu_fields_def del: if_split)

text \<open>The list the manager already has for an accelerator under a profile.\<close>

definition metrics_held :: "gpu list \<Rightarrow> raw_gpu \<Rightarrow> performance \<Rightarrow> string list" where
  "metrics_held gs g q =
     (case previous_gpu gs (g_uuid g) (g_index g) of None \<Rightarrow> []
      | Some h \<Rightarrow> (case g_performance h of None \<Rightarrow> []
          | Some r \<Rightarrow> if f_profile r = f_profile q then f_supported_metrics r else []))"

definition stored_for :: "(delta_key, string list) dict \<Rightarrow> gpu list \<Rightarrow> raw_gpu \<Rightarrow> raw_gpu" where
  "stored_for previous gs g =
     (case g_performance g of None \<Rightarrow> g
      | Some q \<Rightarrow> if map_of previous (full_key g q) = Some (f_supported_metrics q)
          then g\<lparr>g_performance := Some (q\<lparr>f_supported_metrics := metrics_held gs g q\<rparr>)\<rparr> else g)"

lemma pruned_stored:
  assumes w: "wire_gpu g" and q: "g_performance g = Some q"
    and l: "set (metrics_held gs g q) \<subseteq> {m. m \<noteq> [] \<and> py_strip m = m}" "distinct (metrics_held gs g q)"
  shows "gpu_from_telemetry node (pruned g) i gs =
    Inr (received_gpu node (g\<lparr>g_performance := Some (q\<lparr>f_supported_metrics := metrics_held gs g q\<rparr>)\<rparr>))"
proof -
  obtain d where d: "gpu_to_dict g = PDict d" "carries d g" "dget d ''performance'' = opt_val perf_to_dict (g_performance g)"
    using gpu_to_dict_carries by blast
  obtain p where p: "perf_to_dict q = PDict p" by (simp add: perf_to_dict_def)
  let ?q = "q\<lparr>f_supported_metrics := metrics_held gs g q\<rparr>" let ?p = "AList.delete ''supported_metrics'' p"
  let ?g = "g\<lparr>g_performance := Some ?q\<rparr>"
  have wq: "wire_performance q" using w q by (simp add: wire_gpu_def)
  have w': "wire_gpu ?g" using w q l by (auto simp: wire_gpu_def wire_performance_def performance_in_range_def gpu_readings_def list_all_iff)
  have e: "pruned g = PDict (AList.update ''performance'' (PDict ?p) d)" by (simp add: pruned_def d q opt_val_def p)
  have c: "carries (AList.update ''performance'' (PDict ?p) d) ?g"
    using d(2) by (simp add: carries_def map_of_update fields_without_performance)
  have "performance_from_dict (PDict ?p) = Inr (Some (q\<lparr>f_supported_metrics := []\<rparr>))"
    using performance_decodes[OF wq p, of ?p] by (simp add: dget_def supported_from_def)
  moreover have "perf_of_previous (PDict ?p) (previous_gpu gs (g_uuid g) (g_index g)) (Some (q\<lparr>f_supported_metrics := []\<rparr>)) = Some ?q"
    by (auto simp: perf_of_previous_def metrics_held_def split: option.splits)
  ultimately show ?thesis
    using carried_roundtrip[OF w' c, of "Some (q\<lparr>f_supported_metrics := []\<rparr>)" gs node i] by (simp add: e dget_def map_of_update)
qed

definition clean_lists :: "gpu list \<Rightarrow> bool" where
  "clean_lists gs \<longleftrightarrow> (\<forall>h \<in> set gs. case g_performance h of None \<Rightarrow> True
     | Some r \<Rightarrow> distinct (f_supported_metrics r) \<and> (\<forall>m \<in> set (f_supported_metrics r). m \<noteq> [] \<and> py_strip m = m))"

lemma metrics_held_clean:
  assumes "clean_lists gs"
  shows "set (metrics_held gs g q) \<subseteq> {m. m \<noteq> [] \<and> py_strip m = m}" "distinct (metrics_held gs g q)"
proof -
  have "h \<in> set gs" if "previous_gpu gs u i = Some h" for h u i
    using that by (auto simp: previous_gpu_def find_Some_iff) (metis length_rev nth_mem set_rev)
  then have "distinct (f_supported_metrics r) \<and> (\<forall>m \<in> set (f_supported_metrics r). m \<noteq> [] \<and> py_strip m = m)"
    if "previous_gpu gs (g_uuid g) (g_index g) = Some h" "g_performance h = Some r" for h r
    using that assms by (fastforce simp: clean_lists_def)
  then have "distinct (metrics_held gs g q) \<and> (\<forall>m \<in> set (metrics_held gs g q). m \<noteq> [] \<and> py_strip m = m)"
    by (simp add: metrics_held_def split: option.split)
  then show "set (metrics_held gs g q) \<subseteq> {m. m \<noteq> [] \<and> py_strip m = m}" "distinct (metrics_held gs g q)" by auto
qed

lemma encoded_stored:
  assumes "wire_gpu g" "clean_lists gs"
  shows "gpu_from_telemetry node (encoded previous g) i gs = Inr (received_gpu node (stored_for previous gs g))"
proof (cases "\<exists>q. g_performance g = Some q \<and> map_of previous (full_key g q) = Some (f_supported_metrics q)")
  case True
  then obtain q where q: "g_performance g = Some q" "map_of previous (full_key g q) = Some (f_supported_metrics q)" by blast
  then show ?thesis
    using pruned_stored[OF assms(1) q(1) metrics_held_clean[OF assms(2)]] by (simp add: encoded_def sends_def stored_for_def)
next
  case False
  then have "encoded previous g = gpu_to_dict g" "stored_for previous gs g = g"
    by (auto simp: encoded_def sends_def stored_for_def split: option.splits)
  then show ?thesis by (simp add: gpu_roundtrip[OF assms(1)])
qed

lemma decoded_stored:
  assumes "list_all wire_gpu rs" "clean_lists gs" "decode_gpus node (map (encoded previous) rs) gs = Inr gs2" "g \<in> set rs"
  shows "\<exists>h \<in> set gs2. g_uuid h = g_uuid g \<and> g_index h = g_index g \<and> g_performance h = g_performance (stored_for previous gs g)"
proof -
  have "rmap (\<lambda>(i, item). gpu_from_telemetry node item i gs) (enumerate n (map (encoded previous) xs)) =
      Inr (map (\<lambda>x. received_gpu node (stored_for previous gs x)) xs)"
    if "list_all wire_gpu xs" for n and xs :: "raw_gpu list"
    using that by (induction xs arbitrary: n) (simp_all add: encoded_stored[OF _ assms(2)])
  then have "rmap filter_gpu_processes (map (\<lambda>x. received_gpu node (stored_for previous gs x)) rs) = Inr gs2"
    using assms(1,3) by (simp add: decode_gpus_def)
  from rmap_filter_frame[OF this]
  have "(g_uuid g, g_index g, g_performance (stored_for previous gs g)) \<in> set (map (\<lambda>g. (g_uuid g, g_index g, g_performance g)) gs2)"
    using assms(4) by (force simp: received_gpu_def numeric_gpu_def stored_for_def split: option.split)
  then show ?thesis by auto
qed

text \<open>
  One connection on which samples may be refused: the delta moves on with every sample sent, the list of the
  manager only with those it accepts.
\<close>

fun stream_refusing :: "string \<Rightarrow> delta \<Rightarrow> gpu list \<Rightarrow> (bool \<times> raw_gpu list) list \<Rightarrow> (delta \<times> gpu list) result" where
  "stream_refusing node dl gs [] = Inr (dl, gs)"
| "stream_refusing node dl gs ((accepted, rs) # rest) =
     (case delta_apply (map gpu_to_dict rs) dl of
        (items, dl') \<Rightarrow>
          rbind (if accepted then decode_gpus node items gs else Inr gs) (\<lambda>gs1. stream_refusing node dl' gs1 rest))"

text \<open>
  C38: a refused sample costs lists: whatever the manager holds, after a sample that it refused and the next
  one, which it accepts, an accelerator that both samples list with the same profile and the same
  supported metrics is stored not with these, but with the list the manager had for it under this profile
  before, or with none.
\<close>

theorem refused_sample_loses_metrics:
  assumes "sendable rs1" "sendable rs2" "dl_enabled dl" "clean_lists gs"
    and "stream_refusing node dl gs [(False, rs1), (True, rs2)] = Inr (dl2, gs2)"
    and "g1 \<in> set rs1" "g_performance g1 = Some q1" "g \<in> set rs2" "g_performance g = Some q"
    and "place g1 = place g" "f_profile q1 = f_profile q" "f_supported_metrics q1 = f_supported_metrics q"
  shows "\<exists>h \<in> set gs2. g_uuid h = g_uuid g \<and> g_index h = g_index g \<and> g_performance h = Some (q\<lparr>f_supported_metrics := metrics_held gs g q\<rparr>)"
proof -
  let ?prev = "filter (\<lambda>(k, _). k \<in> (\<Union>g \<in> set rs1. sent_keys g)) (fold remembered rs1 (dl_previous dl))"
  let ?dl1 = "dl\<lparr>dl_previous := ?prev\<rparr>"
  have key: "full_key g q = full_key g1 q1" using assms(10,11) by (simp add: full_key_def place_def)
  have "full_key g q \<in> sent_keys g1" using assms(7) by (simp add: sent_keys_def sends_def key)
  then have "map_of ?prev (full_key g q) = Some (f_supported_metrics q)"
    using fold_remembered[of rs1 g1] assms(1,6,7,12)
    by (auto simp: map_of_filter_keys key sendable_def sends_def)
  then have st: "g_performance (stored_for ?prev gs g) = Some (q\<lparr>f_supported_metrics := metrics_held gs g q\<rparr>)"
    using assms(9) by (simp add: stored_for_def)
  have dec: "decode_gpus node (map (encoded ?prev) rs2) gs = Inr gs2"
    using assms(5) delta_apply_sendable[OF assms(1,3)] delta_apply_sendable[OF assms(2), of ?dl1] assms(3)
    by (auto simp: rbind_Inr_iff)
  have "list_all wire_gpu rs2" using assms(2) by (simp add: sendable_def)
  from decoded_stored[OF this assms(4) dec assms(8)] show ?thesis by (simp only: st)
qed

definition gpm_performance :: performance where
  "gpm_performance = \<lparr>f_profile = ''nvidia.gpm.v1'', f_status = ''warming'', f_sampled_at = 0, f_interval_ms = None, f_metrics = [],
     f_supported_metrics = [''sm_util''], f_error = None, f_invalid_metrics = []\<rparr>"

definition gpm_gpu :: raw_gpu where
  "gpm_gpu = sample_raw_gpu\<lparr>g_performance := Some gpm_performance, g_processes := []\<rparr>"

lemma gpm_gpu_wire: "wire_gpu gpm_gpu"
proof -
  have "numeric_issues (gpu_readings gpm_gpu) GPU_METRIC_RULES = []"
    by (simp add: numeric_issues_def gpu_readings_def GPU_METRIC_RULES_def gpm_gpu_def sample_raw_gpu_def rule_defs)
  moreover have "wire_performance gpm_performance"
    by (simp add: wire_performance_def performance_in_range_def gpm_performance_def PERFORMANCE_STATUSES_def py_strip_def py_ws_def Let_def)
  ultimately show ?thesis
    by (simp add: wire_gpu_def) (simp add: gpm_gpu_def sample_raw_gpu_def rule_defs)
qed

theorem delta_lossless_witness:
  "stream_with_delta ''n'' new_delta [] (map (Pair False) [[gpm_gpu]] @ map (Pair True) [[gpm_gpu], [], [gpm_gpu]]) =
     stream_plain ''n'' [] ([[gpm_gpu]] @ [[gpm_gpu], [], [gpm_gpu]])"
  using gpm_gpu_wire by (intro delta_lossless) (simp add: sendable_def)

text \<open>A manager that knows an older list of the same accelerator keeps it.\<close>

definition older_gpm_gpu :: gpu where
  "older_gpm_gpu = received_gpu ''n'' (gpm_gpu\<lparr>g_performance := Some (gpm_performance\<lparr>f_supported_metrics := [''old_metric'']\<rparr>)\<rparr>)"

theorem refused_sample_loses_metrics_witness:
  "\<exists>dl2 gs2. stream_refusing ''n'' (new_delta\<lparr>dl_enabled := True\<rparr>) [older_gpm_gpu] [(False, [gpm_gpu]), (True, [gpm_gpu])] = Inr (dl2, gs2) \<and>
     (\<exists>h \<in> set gs2. map_option f_supported_metrics (g_performance h) = Some [''old_metric''])"
proof -
  let ?dl = "new_delta\<lparr>dl_enabled := True\<rparr>"
  have p: "g_performance gpm_gpu = Some gpm_performance" "g_processes gpm_gpu = []" "g_other_users gpm_gpu = []"
    by (simp_all add: gpm_gpu_def sample_raw_gpu_def)
  have clean: "clean_lists [older_gpm_gpu]"
    by (simp add: clean_lists_def older_gpm_gpu_def received_gpu_def numeric_gpu_def py_strip_def py_ws_def)
  have known: "metrics_held [older_gpm_gpu] gpm_gpu gpm_performance = [''old_metric'']"
    by (simp add: metrics_held_def previous_gpu_def older_gpm_gpu_def received_gpu_def numeric_gpu_def)
  have s: "sendable [gpm_gpu]" using gpm_gpu_wire by (simp add: sendable_def)
  have e: "delta_apply [gpu_to_dict gpm_gpu] dl = (map (encoded (dl_previous dl)) [gpm_gpu],
      dl\<lparr>dl_previous := filter (\<lambda>(k, _). k \<in> (\<Union>g \<in> set [gpm_gpu]. sent_keys g)) (fold remembered [gpm_gpu] (dl_previous dl))\<rparr>)"
    if "dl_enabled dl" for dl using delta_apply_sendable[OF s that] by simp
  have "\<exists>gs2. decode_gpus ''n'' [encoded previous gpm_gpu] [older_gpm_gpu] = Inr gs2" for previous
    using encoded_stored[OF gpm_gpu_wire clean, of "''n''" previous] p
    by (simp add: decode_gpus_def filter_gpu_processes_def received_gpu_def numeric_gpu_def stored_for_def split: option.split)
  then obtain later where "decode_gpus ''n'' [encoded previous gpm_gpu] [older_gpm_gpu] = Inr (later previous)" for previous
    by metis
  then obtain dl2 gs2 where run:
    "stream_refusing ''n'' ?dl [older_gpm_gpu] [(False, [gpm_gpu]), (True, [gpm_gpu])] = Inr (dl2, gs2)"
    by (simp add: e)
  from refused_sample_loses_metrics[OF s s _ clean run, of gpm_gpu gpm_performance gpm_gpu gpm_performance] p(1) known
  obtain h where "h \<in> set gs2" "g_performance h = Some (gpm_performance\<lparr>f_supported_metrics := [''old_metric'']\<rparr>)" by auto
  then have "\<exists>h \<in> set gs2. map_option f_supported_metrics (g_performance h) = Some [''old_metric'']" by force
  with run show ?thesis by blast
qed

end
