(* ===== verification/AccountLookup.thy ===== *)
theory AccountLookup
  imports AgentProps LabApiProps
begin

text \<open>
  An account lookup from end to end: the broker of the manager queues the request, the agent answers it from
  its account database, the broker matches the answer with the request, and the lab judges it.
\<close>

text \<open>An account of the agent's machine that the configuration of the lab accepts.\<close>

definition account_accepted :: "lab_config \<Rightarrow> passwd \<Rightarrow> bool" where
  "account_accepted config a \<longleftrightarrow>
     pw_name a \<notin> set (lc_account_deny_users config) \<and> lc_username_ok config (pw_name a) \<and>
     lc_account_uid_min config \<le> pw_uid a \<and> pw_uid a \<le> lc_account_uid_max config \<and>
     \<not> ends_with (pw_shell a) ''/nologin'' \<and> \<not> ends_with (pw_shell a) ''/false''"

text \<open>The message that a started request puts on the queue of the connection.\<close>

definition lookup_request :: "string \<Rightarrow> string \<Rightarrow> string \<Rightarrow> (string, pyval) dict" where
  "lookup_request node username request_id =
     dict_update_all [(''type'', PStr ''account_lookup_request''), (''request_id'', PStr request_id), (''node_id'', PStr node)]
       [(''username'', PStr username)]"

lemma started_request:
  assumes "account_lookup_start node username request_id b = (Inr key, b1)"
  shows "\<exists>c. map_of (b_connections b) node = Some c \<and> key = (node, request_id, ''account_lookup_response'') \<and>
    map_of (b_connections b1) node = Some (c\<lparr>ac_queue := ac_queue c @ [lookup_request node username request_id]\<rparr>) \<and>
    map_of (b_pending b1) key = Some Waiting"
  using assms
  by (auto simp: account_lookup_start_def request_start_def Let_def lookup_request_def map_of_update split: option.splits if_splits)

lemma agent_answer:
  assumes "request_id \<noteq> []"
  shows "account_lookup_response db False node (lookup_request node username request_id) =
    (case lookup_linux_account db (PStr username) of
       Inl e \<Rightarrow> [(''type'', PStr ''account_lookup_response''), (''request_id'', PStr request_id), (''node_id'', PStr node),
          (''ok'', PBool False), (''error'', PStr e)]
     | Inr result \<Rightarrow> dict_update_all [(''type'', PStr ''account_lookup_response''), (''request_id'', PStr request_id),
          (''node_id'', PStr node), (''ok'', PBool True)] result)"
  using assms
  by (auto simp: account_lookup_response_def lookup_request_def Let_def str_field_def dget_def py_or_def
      split: sum.splits)

definition valid_username :: "string \<Rightarrow> bool" where
  "valid_username name \<longleftrightarrow> name \<noteq> [] \<and> length name \<le> 256 \<and> CHR 0x00 \<notin> set name"

lemma lookup_result_cases:
  "lookup_linux_account db (PStr name) =
    (if \<not> valid_username name then Inl ''invalid Linux username''
     else case db name of
         Inl e \<Rightarrow> Inl e
       | Inr None \<Rightarrow> Inr [(''exists'', PBool False)]
       | Inr (Some a) \<Rightarrow> Inr [(''exists'', PBool True), (''canonical_username'', PStr (pw_name a)), (''uid'', PInt (pw_uid a)),
           (''gid'', PInt (pw_gid a)), (''shell'', PStr (pw_shell a))])"
  by (auto simp: lookup_linux_account_def valid_username_def)

lemma answer_fields:
  assumes "request_id \<noteq> []"
  shows "dget (account_lookup_response db False node (lookup_request node username request_id)) ''type'' = PStr ''account_lookup_response''"
    "dget (account_lookup_response db False node (lookup_request node username request_id)) ''request_id'' = PStr request_id"
    "dget (account_lookup_response db False node (lookup_request node username request_id)) ''node_id'' = PStr node"
  by (auto simp: agent_answer[OF assms] lookup_result_cases dget_def split: sum.splits option.splits)

lemma answer_judged:
  assumes "request_id \<noteq> []"
  shows "account_rejection_reason (account_lookup_response db False node (lookup_request node username request_id)) config = None \<longleftrightarrow>
    (\<exists>a. valid_username username \<and> db username = Inr (Some a) \<and> account_accepted config a)"
proof (cases "\<exists>a. valid_username username \<and> db username = Inr (Some a)")
  case True
  then obtain a where a: "valid_username username" "db username = Inr (Some a)" by blast
  have shell: "py_str (py_or (PStr (pw_shell a)) (PStr [])) = pw_shell a" by (simp add: py_or_def)
  show ?thesis
    by (auto simp: agent_answer[OF assms] lookup_result_cases a account_rejection_reason_def Let_def dget_def shell account_accepted_def)
next
  case False
  have "dget (account_lookup_response db False node (lookup_request node username request_id)) ''ok'' \<noteq> PBool True \<or>
      dget (account_lookup_response db False node (lookup_request node username request_id)) ''exists'' \<noteq> PBool True"
    using False by (auto simp: agent_answer[OF assms] lookup_result_cases dget_def split: sum.splits option.splits)
  then have "account_rejection_reason (account_lookup_response db False node (lookup_request node username request_id)) config \<noteq> None"
    by (auto simp: account_rejection_reason_def)
  then show ?thesis using False by blast
qed

text \<open>
  C11: a lookup that is started reaches the agent as a request whose answer the broker takes for exactly this
  request, and the lab accepts the answer exactly when the machine of the agent has the account and the
  configuration allows it; what is then bound is the account as the machine has it.
\<close>

theorem lookup_end_to_end:
  assumes "account_lookup_start node username request_id b = (Inr key, b1)" "request_id \<noteq> []" "node \<noteq> []"
  shows "\<exists>c message answer b2.
    map_of (b_connections b1) node = Some c \<and> last (ac_queue c) = message \<and>
    answer = account_lookup_response db False node message \<and>
    resolve_account_lookup answer (ac_connection_id c) b1 = (True, b2) \<and>
    fst (request_finish key ''account_lookup_request'' b2) = Inr answer \<and>
    (account_rejection_reason answer config = None \<longleftrightarrow>
       (\<exists>a. valid_username username \<and> db username = Inr (Some a) \<and> account_accepted config a)) \<and>
    (\<forall>a. valid_username username \<longrightarrow> db username = Inr (Some a) \<longrightarrow>
       confirmed_account node answer =
         \<lparr>ac_node_id = node, ac_uid = pw_uid a, ac_gid = Some (pw_gid a), ac_canonical_username = pw_name a\<rparr>)"
proof -
  define message where "message = lookup_request node username request_id"
  define answer where "answer = account_lookup_response db False node message"
  obtain c0 where c0: "key = (node, request_id, ''account_lookup_response'')"
    "map_of (b_connections b1) node = Some (c0\<lparr>ac_queue := ac_queue c0 @ [message]\<rparr>)" "map_of (b_pending b1) key = Some Waiting"
    using started_request[OF assms(1)] unfolding message_def by blast
  let ?c = "c0\<lparr>ac_queue := ac_queue c0 @ [message]\<rparr>"
  have f: "dget answer ''type'' = PStr ''account_lookup_response''" "dget answer ''request_id'' = PStr request_id"
    "dget answer ''node_id'' = PStr node"
    unfolding answer_def message_def by (rule answer_fields[OF assms(2)])+
  have k: "response_key answer = key" by (simp add: response_key_def str_field_def f py_or_def c0(1) assms(2,3))
  define b2 where "b2 = b1\<lparr>b_pending := AList.update key (Response answer) (b_pending b1)\<rparr>"
  have "resolve_account_lookup answer (ac_connection_id ?c) b1 = (True, b2)"
    using c0(2,3) assms(2,3) by (simp add: resolve_account_lookup_def f resolve_response_def k c0(1) b2_def)
  moreover have "fst (request_finish key ''account_lookup_request'' b2) = Inr answer"
    by (simp add: request_finish_def b2_def map_of_update)
  moreover have "account_rejection_reason answer config = None \<longleftrightarrow>
      (\<exists>a. valid_username username \<and> db username = Inr (Some a) \<and> account_accepted config a)"
    unfolding answer_def message_def by (rule answer_judged[OF assms(2)])
  moreover have "confirmed_account node answer =
      \<lparr>ac_node_id = node, ac_uid = pw_uid a, ac_gid = Some (pw_gid a), ac_canonical_username = pw_name a\<rparr>"
    if "valid_username username" "db username = Inr (Some a)" for a
    using that by (simp add: answer_def message_def agent_answer[OF assms(2)] lookup_result_cases confirmed_account_def dget_def)
  ultimately show ?thesis using c0(2)
    by (intro exI[of _ ?c] exI[of _ message] exI[of _ answer] exI[of _ b2]) (simp add: answer_def)
qed

definition lookup_broker :: broker where
  "lookup_broker = rpc_register ''n'' 1 [] 0 (Some [(''account_lookup_v1'', PBool True)]) new_broker"

definition joe_db :: account_db where
  "joe_db name = (if name = ''joe'' then Inr (Some \<lparr>pw_name = ''joe'', pw_uid = 1007, pw_gid = 1007, pw_shell = ''/bin/sh''\<rparr>) else Inr None)"

theorem lookup_end_to_end_witness:
  "\<exists>key b1 (c :: agent_connection) answer b2. account_lookup_start ''n'' ''joe'' ''q'' lookup_broker = (Inr key, b1) \<and>
     resolve_account_lookup answer (ac_connection_id c) b1 = (True, b2) \<and>
     account_rejection_reason answer (default_config [] []) = None"
proof -
  have "case account_lookup_start ''n'' ''joe'' ''q'' lookup_broker of (Inr key, b1) \<Rightarrow> True | _ \<Rightarrow> False" by code_simp
  then obtain key b1 where s: "account_lookup_start ''n'' ''joe'' ''q'' lookup_broker = (Inr key, b1)"
    by (auto split: sum.splits prod.splits)
  have a: "valid_username ''joe'' \<and> joe_db ''joe'' = Inr (Some \<lparr>pw_name = ''joe'', pw_uid = 1007, pw_gid = 1007, pw_shell = ''/bin/sh''\<rparr>) \<and>
      account_accepted (default_config [] []) \<lparr>pw_name = ''joe'', pw_uid = 1007, pw_gid = 1007, pw_shell = ''/bin/sh''\<rparr>"
    by (simp add: valid_username_def joe_db_def account_accepted_def default_config_def default_username_def name_start_def ends_with_def)
  have ne: "''q'' \<noteq> []" "''n'' \<noteq> []" by simp_all
  have accepted: "account_rejection_reason answer (default_config [] []) = None"
    if "account_rejection_reason answer (default_config [] []) = None \<longleftrightarrow>
      (\<exists>a. valid_username ''joe'' \<and> joe_db ''joe'' = Inr (Some a) \<and> account_accepted (default_config [] []) a)" for answer
    unfolding that using a by blast
  show ?thesis
    using lookup_end_to_end[OF s ne, of joe_db "default_config [] []"]
    by (elim exE conjE) (drule accepted, intro exI conjI, rule s, assumption, assumption)
qed

end
