(* ===== verification/ActivityView.thy ===== *)
theory ActivityView
  imports Attribution Cluster
begin

text \<open>
  \<open>packages/lab/src/constella_lab/activity.py\<close>: what a person sees of the own usage. The usage rows of the
  person's accounts are read for a period, cached under a bound, grouped into jobs and returned in pages.
\<close>

subsection \<open>Reading a period\<close>

definition ACTIVITY_MAX_ROWS :: nat where
  "ACTIVITY_MAX_ROWS = 100000"

definition MAX_CACHE_BYTES :: nat where
  "MAX_CACHE_BYTES = 16 * 1024 * 1024"

definition CACHE_SECONDS :: rat where
  "CACHE_SECONDS = 60"

text \<open>\<^verbatim>\<open>date.isoformat()\<close> of a day, counted from the first of January 1970.\<close>

definition padded :: "nat \<Rightarrow> int \<Rightarrow> string" where
  "padded n i = (let s = int_str i in replicate (n - length s) (CHR ''0'') @ s)"

definition iso_date :: "int \<Rightarrow> string" where
  "iso_date d =
     (let z = d + 719468; era = z div 146097; doe = z mod 146097;
          yoe = (doe - doe div 1460 + doe div 36524 - doe div 146096) div 365;
          doy = doe - (365 * yoe + yoe div 4 - yoe div 100);
          mp = (5 * doy + 2) div 153;
          month = (if mp < 10 then mp + 3 else mp - 9);
          year = yoe + era * 400 + (if month \<le> 2 then 1 else 0)
      in padded 4 year @ ''-'' @ padded 2 month @ ''-'' @ padded 2 (doy - (153 * mp + 2) div 5 + 1))"

record activity_day =
  dy_label :: string
  dy_start :: rat
  dy_end :: rat

record activity_data =
  ad_records :: "usage list"
  ad_as_of :: rat
  ad_start :: rat
  ad_days :: "activity_day list"
  ad_eligible :: spans
  ad_missing_uid :: nat
  ad_size :: nat

definition first_day :: "rat \<Rightarrow> nat \<Rightarrow> int" where
  "first_day now period = day_of now - (int period - 1)"

definition activity_days :: "rat \<Rightarrow> nat \<Rightarrow> activity_day list" where
  "activity_days now period =
     map (\<lambda>i. let d = first_day now period + int i
          in \<lparr>dy_label = iso_date d, dy_start = midnight d, dy_end = min now (midnight (d + 1))\<rparr>) [0..<period]"

text \<open>When the person could have used an account.\<close>

definition eligible_spans :: "bound list \<Rightarrow> string \<Rightarrow> rat \<Rightarrow> rat \<Rightarrow> spans" where
  "eligible_spans bindings user_id start now =
     union_spans (map (\<lambda>b. (max start (lb_valid_from (binding_of b)),
         min now (case num_or (lb_valid_to (binding_of b)) (Some now) of Some t \<Rightarrow> t | None \<Rightarrow> now)))
       (filter (\<lambda>b. lb_user_id (binding_of b) = user_id) (bindings @ concat (map snd (legacy_bindings bindings start)))))"

text \<open>The accounts of the person: the uids per node.\<close>

definition own_accounts :: "bound list \<Rightarrow> string \<Rightarrow> (string, int list) dict" where
  "own_accounts bindings user_id =
     map (\<lambda>(node, bs). (node, sorted_set (map (\<lambda>b. lb_unix_uid (binding_of b)) bs)))
       (group_by (\<lambda>b. lb_node_id (binding_of b)) (filter (\<lambda>b. lb_user_id (binding_of b) = user_id) bindings) [])"

text \<open>A row of the join, for a session that exists.\<close>

definition rows_of_usage :: "database \<Rightarrow> (string \<times> string) \<times> usage_row \<Rightarrow> activity_row list" where
  "rows_of_usage db ku =
     (case ku of ((sid, uuid), u) \<Rightarrow>
        (case map_of (db_sessions db) sid of
           None \<Rightarrow> []
         | Some s \<Rightarrow> map (\<lambda>g. \<lparr>ay_view = usage_view_of sid s uuid u g, ay_user_uid = int_column (ss_user_uid s)\<rparr>)
             (joined_gpus db (us_node_id u) uuid)))"

definition node_activity_rows :: "database \<Rightarrow> rat \<Rightarrow> rat \<Rightarrow> string \<Rightarrow> int list \<Rightarrow> activity_row list" where
  "node_activity_rows db now start node uids =
     filter (\<lambda>r. case ay_user_uid r of None \<Rightarrow> True | Some i \<Rightarrow> i \<in> set uids)
       (concat (map (rows_of_usage db)
         (filter (\<lambda>ku. us_node_id (snd ku) = node \<and> us_first_seen_at (snd ku) \<le> now \<and> start \<le> us_last_seen_at (snd ku))
           (db_usages db))))"

text \<open>The limit of a query only serves to notice that there are too many rows.\<close>

fun read_nodes ::
    "database \<Rightarrow> rat \<Rightarrow> rat \<Rightarrow> (string, int list) dict \<Rightarrow> activity_row list \<Rightarrow> activity_row list result" where
  "read_nodes db now start [] rows = Inr rows"
| "read_nodes db now start ((node, uids) # nodes) rows =
     (let rows' = rows @ take (ACTIVITY_MAX_ROWS + 1 - length rows) (node_activity_rows db now start node uids)
      in if ACTIVITY_MAX_ROWS < length rows' then Inl (ValueError ''activity_query_too_large'')
         else read_nodes db now start nodes rows')"

text \<open>
  Whether the query is interrupted by its deadline of two seconds is an argument, and so are the sizes that
  \<^verbatim>\<open>sys.getsizeof\<close> reports for a record and for the list.
\<close>

definition read_activity ::
    "(usage \<Rightarrow> nat) \<Rightarrow> (usage list \<Rightarrow> nat) \<Rightarrow> bool \<Rightarrow> database \<Rightarrow> bound list \<Rightarrow> string \<Rightarrow> nat \<Rightarrow> rat
      \<Rightarrow> activity_data result" where
  "read_activity record_size list_size interrupted db bindings user_id period now =
     (let start = midnight (first_day now period);
          nodes = own_accounts bindings user_id
      in rbind (if nodes \<noteq> [] \<and> interrupted then Inl (DatabaseError ''interrupted'') else read_nodes db now start nodes [])
           (\<lambda>rows.
             let records = filter (\<lambda>u. uo_owner u = ''user:'' @ user_id) (resolve_usage rows bindings start now)
             in Inr \<lparr>ad_records = records, ad_as_of = now, ad_start = start, ad_days = activity_days now period,
                   ad_eligible = eligible_spans bindings user_id start now,
                   ad_missing_uid = length (remdups (map (\<lambda>r. uv_session_id (ay_view r))
                     (filter (\<lambda>r. ay_user_uid r = None) rows))),
                   ad_size = sum_list (map (\<lambda>r. 128 + record_size r) records) + list_size records + 4096\<rparr>))"

subsection \<open>The cache\<close>

text \<open>The ordered dictionary of loaded data, oldest use first, and the keys being loaded.\<close>

record activity_service =
  as_cache :: "(string, activity_data) dict"
  as_pending :: "string list"

definition new_activity_service :: activity_service where
  "new_activity_service = \<lparr>as_cache = [], as_pending = []\<rparr>"

definition move_to_end :: "string \<Rightarrow> activity_data \<Rightarrow> (string, activity_data) dict \<Rightarrow> (string, activity_data) dict" where
  "move_to_end key data cache = filter (\<lambda>kd. fst kd \<noteq> key) cache @ [(key, data)]"

fun evict :: "(string, activity_data) dict \<Rightarrow> (string, activity_data) dict" where
  "evict [] = []"
| "evict (kd # cache) =
     (if 16 < length (kd # cache) \<or> MAX_CACHE_BYTES < sum_list (map (\<lambda>kd. ad_size (snd kd)) (kd # cache))
      then evict cache else kd # cache)"

text \<open>\<^verbatim>\<open>ActivityService.get\<close> up to its wait: data from the cache, a task to wait for, or a refusal.\<close>

datatype activity_lookup = Cached activity_data | WaitFor | ActivityBusy

definition activity_get :: "string \<Rightarrow> rat \<Rightarrow> activity_service \<Rightarrow> activity_lookup \<times> activity_service" where
  "activity_get key now sv =
     (case map_of (as_cache sv) key of
        Some data \<Rightarrow>
          if now - ad_as_of data < CACHE_SECONDS then (Cached data, sv\<lparr>as_cache := move_to_end key data (as_cache sv)\<rparr>)
          else if key \<in> set (as_pending sv) then (WaitFor, sv)
          else if 16 \<le> length (as_pending sv) then (ActivityBusy, sv)
          else (WaitFor, sv\<lparr>as_pending := as_pending sv @ [key]\<rparr>)
      | None \<Rightarrow>
          if key \<in> set (as_pending sv) then (WaitFor, sv)
          else if 16 \<le> length (as_pending sv) then (ActivityBusy, sv)
          else (WaitFor, sv\<lparr>as_pending := as_pending sv @ [key]\<rparr>))"

text \<open>The end of the task of a key, which everyone waiting for the key sees.\<close>

definition activity_loaded :: "string \<Rightarrow> activity_data result \<Rightarrow> activity_service \<Rightarrow> activity_service" where
  "activity_loaded key outcome sv =
     sv\<lparr>as_pending := filter (\<lambda>k. k \<noteq> key) (as_pending sv),
        as_cache := (case outcome of
            Inl e \<Rightarrow> as_cache sv
          | Inr data \<Rightarrow>
              if ad_size data \<le> MAX_CACHE_BYTES then evict (move_to_end key data (as_cache sv)) else as_cache sv)\<rparr>"

subsection \<open>Jobs\<close>

record activity_interval =
  ai_start :: rat
  ai_end :: rat
  ai_model :: string
  ai_card :: string

record activity_job =
  aj_job_key :: string
  aj_node_id :: string
  aj_user :: "string option"
  aj_task_name :: "string option"
  aj_pids :: "int list"
  aj_sessions :: "(int \<times> rat option) list"
  aj_started_at :: rat
  aj_last_seen_at :: rat
  aj_status :: string
  aj_models :: "string list"
  aj_gpu_count :: nat
  aj_segments :: "segment list"
  aj_intervals :: "activity_interval list"

text \<open>Equality of a start time a node reports with the one of a column.\<close>

fun same_start :: "pyval \<Rightarrow> rat option \<Rightarrow> bool" where
  "same_start PNone t \<longleftrightarrow> t = None"
| "same_start (PInt i) t \<longleftrightarrow> t = Some (of_int i)"
| "same_start (PBool b) t \<longleftrightarrow> t = Some (if b then 1 else 0)"
| "same_start (PFlt (Fin x)) t \<longleftrightarrow> t = Some x"
| "same_start _ t \<longleftrightarrow> False"

definition current_status :: "activity_job \<Rightarrow> cluster_state \<Rightarrow> rat \<Rightarrow> string" where
  "current_status job cs now =
     (let otherwise = (if aj_status job = ''ended'' then ''ended'' else ''unknown'')
      in case map_of (k_latest cs) (aj_node_id job) of
           None \<Rightarrow> otherwise
         | Some rt \<Rightarrow>
             let snap = r_snapshot rt
             in if r_connected rt \<and> s_status snap = Online \<and> now - s_sampled_at snap < max 30 (3 * s_process_interval snap)
                then if list_ex (\<lambda>g. list_ex (\<lambda>p. list_ex (\<lambda>(pid, t). p_pid p = pid \<and> same_start (p_start_time p) t)
                          (aj_sessions job)) (g_processes g)) (s_gpus snap)
                     then ''running''
                     else if s_gpus snap = [] \<or> truthy (s_error snap) \<or>
                             list_ex (\<lambda>g. g_other_users g \<noteq> [] \<or> truthy (g_error g)) (s_gpus snap)
                     then ''unknown''
                     else ''ended''
                else otherwise)"

definition activity_job :: "cluster_state \<Rightarrow> rat \<Rightarrow> string \<times> usage list \<Rightarrow> activity_job" where
  "activity_job cs now grp =
     (case grp of (key, items) \<Rightarrow>
        let views = map (\<lambda>r. ay_view (uo_row r)) items;
            row = hd views;
            low = (case min_opt (map uo_start items) of Some t \<Rightarrow> t | None \<Rightarrow> 0);
            high = (case max_opt (map uo_end items) of Some t \<Rightarrow> t | None \<Rightarrow> 0);
            job = \<lparr>aj_job_key = key, aj_node_id = uv_node_id row, aj_user = uv_user row, aj_task_name = uv_task_name row,
              aj_pids = sorted_set (map uv_pid views),
              aj_sessions = values_of (fold (\<lambda>v. AList.update (uv_session_id v) (uv_pid v, uv_process_start_time v)) views []),
              aj_started_at = (case min_opt (map uv_session_first_seen_at views) of Some t \<Rightarrow> t | None \<Rightarrow> 0),
              aj_last_seen_at = (case max_opt (map uv_session_last_seen_at views) of Some t \<Rightarrow> t | None \<Rightarrow> 0),
              aj_status = (if list_ex (\<lambda>v. uv_status v = Running) views then ''running'' else ''ended''),
              aj_models = sorted_set (map uo_model items),
              aj_gpu_count = length (remdups (map uo_card items)),
              aj_segments = segments items low high,
              aj_intervals = map (\<lambda>r. \<lparr>ai_start = uo_start r, ai_end = uo_end r, ai_model = uo_model r, ai_card = uo_card r\<rparr>) items\<rparr>
        in job\<lparr>aj_status := current_status job cs now\<rparr>)"

definition activity_jobs :: "usage list \<Rightarrow> cluster_state \<Rightarrow> rat \<Rightarrow> activity_job list" where
  "activity_jobs records cs now =
     sort_key (\<lambda>j. (aj_status j \<noteq> ''running'', - aj_last_seen_at j, aj_job_key j))
       (map (activity_job cs now) (group_by uo_key records []))"

text \<open>The hour of the day that starts the three busiest ones, relative to the time an account was there.\<close>

definition hour_part :: "activity_day \<Rightarrow> nat \<Rightarrow> rat \<times> rat" where
  "hour_part d hour = (dy_start d + of_nat hour * 3600, min (dy_end d) (dy_start d + (of_nat hour + 1) * 3600))"

definition hour_average :: "activity_data \<Rightarrow> segment list \<Rightarrow> nat \<Rightarrow> rat" where
  "hour_average data spans hour =
     (let parts = filter (\<lambda>(a, b). a < b) (map (\<lambda>d. hour_part d hour) (ad_days data));
          use = sum_list (map (\<lambda>(a, b). sum_list (map (\<lambda>s. max 0 (min b (sg_end s) - max a (sg_start s)) * of_int (sg_count s)) spans)) parts);
          exposure = sum_list (map (\<lambda>(a, b). sum_list (map (\<lambda>(x, y). max 0 (min b y - max a x)) (ad_eligible data))) parts)
      in if exposure \<noteq> 0 then use / exposure else 0)"

definition busiest_hours :: "activity_data \<Rightarrow> usage list \<Rightarrow> (nat \<times> nat) option" where
  "busiest_hours data records =
     (let spans = segments records (ad_start data) (ad_as_of data);
          averages = map (hour_average data spans) [0..<24];
          three = (\<lambda>h. sum_list (map (\<lambda>i. averages ! ((h + i) mod 24)) [0..<3]));
          peak = fold (\<lambda>h best. if three best < three h then h else best) [1..<24] 0
      in if list_ex (\<lambda>a. a \<noteq> 0) averages then Some (peak, (peak + 3) mod 24) else None)"

subsection \<open>The answer\<close>

text \<open>\<^verbatim>\<open>str.casefold\<close>: only the sharp s differs from its lower case form.\<close>

definition py_casefold :: "string \<Rightarrow> string" where
  "py_casefold s = concat (map (\<lambda>c. if c = CHR 0xDF then ''ss'' else [lower_char c]) s)"

record activity_query =
  aq_date :: "string option"
  aq_model :: string
  aq_status :: string
  aq_q :: string
  aq_cursor :: "string option"
  aq_limit :: nat

record day_totals =
  dt_day :: activity_day
  dt_totals :: usage_totals
  dt_segments :: "segment list"

datatype page_error = DateOutsidePeriod | ActivityPageExpired | InvalidCursor

record activity_page =
  ap_items :: "activity_job list"
  ap_next_cursor :: "string option"
  ap_total :: nat

record activity_payload =
  pl_as_of :: rat
  pl_range_start :: rat
  pl_missing_uid_sessions :: nat
  pl_summary :: usage_totals
  pl_selection :: usage_totals
  pl_days :: "day_totals list"
  pl_gpu_models :: "model_share list"
  pl_busiest_hours :: "(nat \<times> nat) option"
  pl_jobs :: activity_page
  pl_day_jobs :: "activity_job list \<times> nat"

text \<open>A record or an interval touches a day; one without length counts for the day it starts.\<close>

definition touches :: "rat \<Rightarrow> rat \<Rightarrow> activity_day \<Rightarrow> bool" where
  "touches a b d \<longleftrightarrow> a < dy_end d \<and> (dy_start d < b \<or> (a = b \<and> b = dy_start d))"

definition job_text :: "activity_job \<Rightarrow> string" where
  "job_text j =
     (let txt = (\<lambda>v. case v of None \<Rightarrow> ''None'' | Some t \<Rightarrow> t)
      in py_casefold (txt (aj_task_name j) @ '' '' @ aj_node_id j @ '' '' @ txt (aj_user j) @ '' '' @
           py_join '' '' (map int_str (aj_pids j))))"

definition matching_job :: "activity_query \<Rightarrow> activity_day option \<Rightarrow> activity_job \<Rightarrow> bool" where
  "matching_job rq day j \<longleftrightarrow>
     (aq_status rq = ''all'' \<or> aj_status j = aq_status rq) \<and>
     (let query = py_casefold (py_strip (aq_q rq)) in query = [] \<or> py_contains query (job_text j)) \<and>
     (aj_status j = ''running'' \<or>
      list_ex (\<lambda>r. (aq_model rq = [] \<or> ai_model r = aq_model rq) \<and>
         (case day of None \<Rightarrow> True | Some d \<Rightarrow> touches (ai_start r) (ai_end r) d)) (aj_intervals j))"

text \<open>The text whose digest names a list of jobs, and the digest as a parameter.\<close>

definition page_signature :: "(string \<Rightarrow> string) \<Rightarrow> rat \<Rightarrow> activity_query \<Rightarrow> activity_job list \<Rightarrow> string" where
  "page_signature sha256 as_of rq jobs =
     take 20 (sha256 (''['' @ float_repr (Fin as_of) @ '', '' @
       (case aq_date rq of None \<Rightarrow> ''null'' | Some d \<Rightarrow> json_text d) @ '', '' @ json_text (aq_model rq) @ '', '' @
       json_text (aq_status rq) @ '', '' @ json_text (aq_q rq) @ '', ['' @
       py_join '', '' (map (\<lambda>j. json_text (aj_job_key j)) jobs) @ '']]''))"

text \<open>Unpacking a decoded cursor into two values.\<close>

fun unpack_pair :: "pyval \<Rightarrow> (pyval \<times> pyval) result" where
  "unpack_pair (PList [a, b]) = Inr (a, b)"
| "unpack_pair (PStr [a, b]) = Inr (PStr [a], PStr [b])"
| "unpack_pair (PDict [(a, _), (b, _)]) = Inr (PStr a, PStr b)"
| "unpack_pair (PList _) = Inl (ValueError ''unpack'')"
| "unpack_pair (PStr _) = Inl (ValueError ''unpack'')"
| "unpack_pair (PDict _) = Inl (ValueError ''unpack'')"
| "unpack_pair _ = Inl TypeError"

definition page_offset :: "(string \<Rightarrow> pyval result) \<Rightarrow> string \<Rightarrow> nat \<Rightarrow> string option \<Rightarrow> page_error + nat" where
  "page_offset decode signature n cursor =
     (case cursor of
        None \<Rightarrow> Inr 0
      | Some c \<Rightarrow>
          if c = [] then Inr 0
          else case rbind (decode c) unpack_pair of
              Inl e \<Rightarrow> Inl InvalidCursor
            | Inr (token, at_job) \<Rightarrow>
                if token \<noteq> PStr signature then Inl ActivityPageExpired
                else case at_job of
                    PInt i \<Rightarrow> if i < 0 \<or> int n < i then Inl InvalidCursor else Inr (nat i)
                  | PBool b \<Rightarrow> if b \<and> n = 0 then Inl InvalidCursor else Inr (if b then 1 else 0)
                  | _ \<Rightarrow> Inl InvalidCursor)"

definition page_of ::
    "(string \<Rightarrow> int \<Rightarrow> string) \<Rightarrow> (string \<Rightarrow> pyval result) \<Rightarrow> string \<Rightarrow> string option \<Rightarrow> nat \<Rightarrow> activity_job list
      \<Rightarrow> page_error + activity_page" where
  "page_of encode decode signature cursor limit jobs =
     rbind (page_offset decode signature (length jobs) cursor) (\<lambda>start.
       let following = start + limit
       in Inr \<lparr>ap_items = take limit (drop start jobs),
            ap_next_cursor = (if following < length jobs then Some (encode signature (int following)) else None),
            ap_total = length jobs\<rparr>)"

text \<open>The clock is read once for the jobs and once for the tracks of the day.\<close>

definition activity_payload ::
    "(string \<Rightarrow> string) \<Rightarrow> (string \<Rightarrow> int \<Rightarrow> string) \<Rightarrow> (string \<Rightarrow> pyval result) \<Rightarrow> activity_data \<Rightarrow> cluster_state
      \<Rightarrow> rat \<Rightarrow> rat \<Rightarrow> activity_query \<Rightarrow> page_error + activity_payload" where
  "activity_payload sha256 encode decode data cs now later rq =
     (if (case aq_date rq of None \<Rightarrow> False | Some d \<Rightarrow> d \<noteq> [] \<and> d \<notin> set (map dy_label (ad_days data)))
      then Inl DateOutsidePeriod
      else
        let selected = filter (\<lambda>r. aq_model rq = [] \<or> uo_model r = aq_model rq) (ad_records data);
            days = map (\<lambda>d. \<lparr>dt_day = d, dt_totals = usage_summary selected (dy_start d) (dy_end d),
                         dt_segments = segments selected (dy_start d) (dy_end d)\<rparr>) (ad_days data);
            day = find (\<lambda>d. Some (dy_label d) = aq_date rq) (ad_days data);
            matching = filter (matching_job rq day) (activity_jobs (ad_records data) cs now);
            tracks = activity_jobs (filter (\<lambda>r. case day of None \<Rightarrow> False | Some d \<Rightarrow> touches (uo_start r) (uo_end r) d) selected) cs later
        in rbind (page_of encode decode (page_signature sha256 (ad_as_of data) rq matching) (aq_cursor rq) (aq_limit rq) matching)
             (\<lambda>page. Inr
               \<lparr>pl_as_of = ad_as_of data, pl_range_start = ad_start data, pl_missing_uid_sessions = ad_missing_uid data,
                pl_summary = usage_summary (ad_records data) (ad_start data) (ad_as_of data),
                pl_selection = (case day of None \<Rightarrow> usage_summary selected (ad_start data) (ad_as_of data)
                   | Some d \<Rightarrow> usage_summary selected (dy_start d) (dy_end d)),
                pl_days = days, pl_gpu_models = model_statistics (ad_records data) (ad_start data) (ad_as_of data),
                pl_busiest_hours = busiest_hours data selected, pl_jobs = page,
                pl_day_jobs = (take 100 tracks, length tracks)\<rparr>))"

subsection \<open>The endpoint\<close>

datatype activity_reply = ActivityRefused int string | HistoryDisabled | ActivityReady activity_payload string

text \<open>Up to the wait for the data, and from the data on. The key of the cache is an argument.\<close>

definition begin_activity ::
    "role \<Rightarrow> bool \<Rightarrow> string \<Rightarrow> rat \<Rightarrow> activity_service \<Rightarrow> (activity_reply + activity_lookup) \<times> activity_service" where
  "begin_activity role has_sink key now sv =
     (if role = Viewer then (Inl (ActivityRefused 403 ''member_required''), sv)
      else if \<not> has_sink then (Inl HistoryDisabled, sv)
      else case activity_get key now sv of
          (ActivityBusy, sv') \<Rightarrow> (Inl (ActivityRefused 503 ''activity_busy''), sv')
        | (found, sv') \<Rightarrow> (Inr found, sv'))"

fun page_refusal :: "page_error \<Rightarrow> activity_reply" where
  "page_refusal DateOutsidePeriod = ActivityRefused 422 ''date_outside_period''"
| "page_refusal ActivityPageExpired = ActivityRefused 409 ''activity_page_expired''"
| "page_refusal InvalidCursor = ActivityRefused 422 ''invalid_cursor''"

text \<open>Errors of the database and value errors become a refusal, any other one escapes.\<close>

definition finish_activity ::
    "(string \<Rightarrow> string) \<Rightarrow> (string \<Rightarrow> int \<Rightarrow> string) \<Rightarrow> (string \<Rightarrow> pyval result) \<Rightarrow> cluster_state \<Rightarrow> rat \<Rightarrow> rat
      \<Rightarrow> bound list \<Rightarrow> string \<Rightarrow> activity_query \<Rightarrow> activity_data result \<Rightarrow> activity_reply result" where
  "finish_activity sha256 encode decode cs now later bindings user_id rq outcome =
     (case outcome of
        Inl (ValueError e) \<Rightarrow> Inr (ActivityRefused 503 ''activity_temporarily_unavailable'')
      | Inl (DatabaseError e) \<Rightarrow> Inr (ActivityRefused 503 ''activity_temporarily_unavailable'')
      | Inl e \<Rightarrow> Inl e
      | Inr data \<Rightarrow>
          (case activity_payload sha256 encode decode data cs now later rq of
             Inl e \<Rightarrow> Inr (page_refusal e)
           | Inr answer \<Rightarrow> Inr (ActivityReady answer
               (if list_ex (\<lambda>b. lb_user_id (binding_of b) = user_id) bindings then ''ready'' else ''unbound''))))"

end
