(* ===== verification/ActivityViewProps.thy ===== *)
theory ActivityViewProps
  imports ActivityView
begin

text \<open>
  The activity of a person is complete although only the rows of the own accounts are read, belongs to that
  person alone, is cached within bounds, and reaches the client in full when it follows the pages.
\<close>

subsection \<open>Reading only the own accounts loses nothing\<close>

definition own_row :: "(string, int list) dict \<Rightarrow> activity_row \<Rightarrow> bool" where
  "own_row nodes r \<longleftrightarrow>
     (case map_of nodes (uv_node_id (ay_view r)) of
        None \<Rightarrow> False
      | Some uids \<Rightarrow> (case ay_user_uid r of None \<Rightarrow> True | Some i \<Rightarrow> i \<in> set uids))"

definition all_activity_rows :: "database \<Rightarrow> rat \<Rightarrow> rat \<Rightarrow> activity_row list" where
  "all_activity_rows db now start =
     concat (map (rows_of_usage db)
       (filter (\<lambda>ku. us_first_seen_at (snd ku) \<le> now \<and> start \<le> us_last_seen_at (snd ku)) (db_usages db)))"

definition usages_on_their_node :: "database \<Rightarrow> bool" where
  "usages_on_their_node db \<longleftrightarrow>
     (\<forall>((sid, uuid), u) \<in> set (db_usages db). case map_of (db_sessions db) sid of
        None \<Rightarrow> True | Some s \<Rightarrow> ss_node_id s = us_node_id u)"

lemma read_nodes_rows:
  assumes "read_nodes db now start nodes rows = Inr out"
  shows "out = rows @ concat (map (\<lambda>(node, uids). node_activity_rows db now start node uids) nodes)"
  using assms
proof (induction db now start nodes rows rule: read_nodes.induct)
  case (2 db now start node uids nodes rows)
  let ?r = "node_activity_rows db now start node uids"
  let ?t = "take (ACTIVITY_MAX_ROWS + 1 - length rows) ?r"
  have le: "length rows + length ?t \<le> ACTIVITY_MAX_ROWS" and r: "read_nodes db now start nodes (rows @ ?t) = Inr out"
    using "2.prems" by (auto simp: Let_def split: if_splits)
  have "?t = ?r" using le by (simp add: min_def split: if_splits)
  then show ?case using "2.IH"[OF refl _ ] r le by (simp add: Let_def)
qed simp

lemma row_node:
  assumes "usages_on_their_node db" "ku \<in> set (db_usages db)" "r \<in> set (rows_of_usage db ku)"
  shows "uv_node_id (ay_view r) = us_node_id (snd ku)"
  using assms by (fastforce simp: usages_on_their_node_def rows_of_usage_def usage_view_of_def split: prod.splits option.splits)

lemma node_rows_filter:
  assumes "usages_on_their_node db"
  shows "node_activity_rows db now start node uids =
    filter (\<lambda>r. uv_node_id (ay_view r) = node \<and> (case ay_user_uid r of None \<Rightarrow> True | Some i \<Rightarrow> i \<in> set uids))
      (all_activity_rows db now start)"
proof -
  have "filter P (concat (map (rows_of_usage db) (filter (\<lambda>ku. us_node_id (snd ku) = node \<and> Q ku) us))) =
      filter (\<lambda>r. uv_node_id (ay_view r) = node \<and> P r) (concat (map (rows_of_usage db) (filter Q us)))"
    if "set us \<subseteq> set (db_usages db)" for P Q us
    using that
  proof (induction us)
    case (Cons ku us)
    have n: "\<forall>r \<in> set (rows_of_usage db ku). uv_node_id (ay_view r) = us_node_id (snd ku)"
      using row_node[OF assms] Cons.prems by simp
    have "filter P (rows_of_usage db ku) = filter (\<lambda>r. uv_node_id (ay_view r) = node \<and> P r) (rows_of_usage db ku)"
      if "us_node_id (snd ku) = node" using n that by (intro filter_cong) auto
    moreover have "filter (\<lambda>r. uv_node_id (ay_view r) = node \<and> P r) (rows_of_usage db ku) = []"
      if "us_node_id (snd ku) \<noteq> node" using n that by (auto simp: filter_empty_conv)
    ultimately show ?case using Cons by simp
  qed simp
  note step = this[OF subset_refl, of "\<lambda>r. case ay_user_uid r of None \<Rightarrow> True | Some i \<Rightarrow> i \<in> set uids"
    "\<lambda>ku. us_first_seen_at (snd ku) \<le> now \<and> start \<le> us_last_seen_at (snd ku)"]
  show ?thesis unfolding node_activity_rows_def all_activity_rows_def by (rule step)
qed

lemma one_node_of:
  assumes "dict_ok nodes"
  shows "sum_list (map (\<lambda>(n, u). if k = n \<and> P u then X else {#}) nodes) =
    (case map_of nodes k of None \<Rightarrow> {#} | Some u \<Rightarrow> if P u then X else {#})"
  using assms
  by (induction nodes) (auto simp: dict_ok_def map_of_eq_None_iff image_iff split: option.splits)

lemma mset_concat_filter: "mset (concat (map F (filter P xs))) = sum_list (map (\<lambda>x. if P x then mset (F x) else {#}) xs)"
  by (induction xs) simp_all

lemma sum_list_swap: "sum_list (map (\<lambda>x. sum_list (map (\<lambda>y. f x y) ys)) xs) = sum_list (map (\<lambda>y. sum_list (map (\<lambda>x. f x y) xs)) ys)"
  for f :: "'a \<Rightarrow> 'b \<Rightarrow> 'c :: comm_monoid_add"
  by (induction xs) (simp_all add: sum_list_addf)

lemma own_rows_once:
  assumes "dict_ok nodes" "usages_on_their_node db"
  shows "mset (concat (map F (concat (map (\<lambda>(node, uids). node_activity_rows db now start node uids) nodes)))) =
    mset (concat (map F (filter (own_row nodes) (all_activity_rows db now start))))"
proof -
  let ?P = "\<lambda>r uids. case ay_user_uid r of None \<Rightarrow> True | Some i \<Rightarrow> i \<in> set uids"
  have "mset (concat (map F (concat (map (\<lambda>(node, uids). node_activity_rows db now start node uids) nodes)))) =
      sum_list (map (\<lambda>(node, uids). mset (concat (map F (node_activity_rows db now start node uids)))) nodes)"
    by (induction nodes) (auto simp: mset_concat)
  also have "\<dots> = sum_list (map (\<lambda>nu. sum_list (map (\<lambda>r. case nu of (node, uids) \<Rightarrow>
      if uv_node_id (ay_view r) = node \<and> ?P r uids then mset (F r) else {#}) (all_activity_rows db now start))) nodes)"
    by (intro arg_cong[of _ _ sum_list] map_cong) (auto simp: node_rows_filter[OF assms(2)] mset_concat_filter split: prod.splits)
  also have "\<dots> = sum_list (map (\<lambda>r. sum_list (map (\<lambda>(node, uids).
      if uv_node_id (ay_view r) = node \<and> ?P r uids then mset (F r) else {#}) nodes)) (all_activity_rows db now start))"
    by (rule sum_list_swap)
  also have "\<dots> = sum_list (map (\<lambda>r. if own_row nodes r then mset (F r) else {#}) (all_activity_rows db now start))"
    by (intro arg_cong[of _ _ sum_list] map_cong refl)
      (auto simp: one_node_of[OF assms(1)] own_row_def split: option.splits)
  finally show ?thesis by (simp add: mset_concat_filter)
qed

subsection \<open>Every record of the person comes from an own account\<close>

lemma latest_in: "latest xs = Some b \<Longrightarrow> b \<in> set xs"
proof (cases xs)
  case (Cons x ys)
  have "fold (\<lambda>c best. if lb_valid_from (binding_of best) < lb_valid_from (binding_of c) then c else best) ys x \<in> insert x (set ys)"
    by (induction ys arbitrary: x) auto
  then show "latest xs = Some b \<Longrightarrow> b \<in> set xs" using Cons by auto
qed simp

lemma charged_binding:
  assumes "u \<in> set (resolve_row bindings start until r)" "uo_owner u = ''user:'' @ user_id"
  shows "\<exists>b \<in> set (matching_bindings bindings start r). lb_user_id (binding_of b) = user_id"
  using assms
  by (auto simp: resolve_row_def usage_span_def Let_def split: if_splits option.splits dest!: latest_in)
    (metis fst_conv snd_conv)+

lemma inherited_binding:
  assumes "b \<in> set (inherit_history start history)"
  shows "\<exists>b' \<in> set history. lb_user_id (binding_of b') = lb_user_id (binding_of b) \<and> lb_node_id (binding_of b') = lb_node_id (binding_of b)"
proof -
  obtain xs where xs: "xs = sort_key (\<lambda>b. lb_valid_from (binding_of b)) history" "set xs = set history" by simp
  show ?thesis
  proof (cases xs)
    case (Cons x rest)
    obtain k b0 e n where x: "x = (k, b0, e, n)" by (metis prod_cases4)
    then have "b = (k, b0\<lparr>lb_valid_from := min start (lb_valid_from b0)\<rparr>, e, n) \<or> b \<in> set rest"
      using assms Cons by (simp add: inherit_history_def flip: xs(1))
    then show ?thesis
    proof
      assume "b \<in> set rest"
      then show ?thesis using xs(2) Cons by (intro bexI[of _ b]) auto
    qed (use xs(2) Cons x in \<open>auto intro!: bexI[of _ x]\<close>)
  qed (use assms xs(1) in \<open>simp add: inherit_history_def\<close>)
qed

lemma matching_known:
  assumes "b \<in> set (matching_bindings bindings start r)"
  shows "\<exists>b' \<in> set bindings. lb_user_id (binding_of b') = lb_user_id (binding_of b) \<and>
    lb_node_id (binding_of b') = uv_node_id (ay_view r) \<and>
    (case ay_user_uid r of None \<Rightarrow> True | Some i \<Rightarrow> lb_unix_uid (binding_of b') = i)"
proof (cases "ay_user_uid r")
  case None
  then obtain name where m: "b \<in> set (get_or (legacy_bindings bindings start) (uv_node_id (ay_view r), name) [])"
    using assms by (auto simp: matching_bindings_def split: option.splits)
  let ?named = "filter (\<lambda>b. lb_unix_username (binding_of b) \<noteq> []) bindings"
  have mo: "map_of (map (\<lambda>(key, history). (key, inherit_history start history)) d) k = map_option (inherit_history start) (map_of d k)" for d k
    by (induction d) auto
  then obtain history where
    h: "map_of (group_by (\<lambda>b. (lb_node_id (binding_of b), lb_unix_username (binding_of b))) ?named []) (uv_node_id (ay_view r), name) = Some history"
    "b \<in> set (inherit_history start history)"
    using m unfolding get_or_def legacy_bindings_def mo by (auto split: option.splits) metis
  then show ?thesis using inherited_binding[OF h(2)] group_by_member[OF h(1)] None by fastforce
qed (use assms in \<open>auto simp: matching_bindings_def\<close>)

lemma dict_ok_own_accounts: "dict_ok (own_accounts bindings user_id)"
proof -
  have "map fst (map (\<lambda>(node, bs). (node, f bs)) d) = map fst d" for f :: "'a \<Rightarrow> 'b" and d :: "(string \<times> 'a) list"
    by (induction d) auto
  then show ?thesis using dict_ok_group_by[of "[]"] by (simp add: own_accounts_def dict_ok_def comp_def case_prod_unfold)
qed

lemma own_account_row:
  assumes "b \<in> set bindings" "lb_user_id (binding_of b) = user_id" "lb_node_id (binding_of b) = uv_node_id (ay_view r)"
    "case ay_user_uid r of None \<Rightarrow> True | Some i \<Rightarrow> lb_unix_uid (binding_of b) = i"
  shows "own_row (own_accounts bindings user_id) r"
proof -
  have mo: "map_of (map (\<lambda>(node, bs). (node, f bs)) d) k = map_option f (map_of d k)" for f :: "'a \<Rightarrow> 'b" and d :: "(string \<times> 'a) list" and k
    by (induction d) auto
  show ?thesis using assms
    by (auto simp: own_row_def own_accounts_def mo map_of_group_by Let_def filter_empty_conv split: option.splits)
qed

lemma charged_own_row:
  assumes "u \<in> set (resolve_row bindings start until r)" "uo_owner u = ''user:'' @ user_id"
  shows "own_row (own_accounts bindings user_id) r"
  using charged_binding[OF assms] matching_known own_account_row by blast

text \<open>
  C19: reading only the rows of the own accounts, node by node, gives the same records as resolving all rows of
  the period and keeping those charged to the person; a period with too many rows is refused, never cut short.
\<close>

theorem activity_complete:
  assumes "read_activity record_size list_size interrupted db bindings user_id period now = Inr data"
    "usages_on_their_node db"
  shows "mset (ad_records data) =
    mset (filter (\<lambda>u. uo_owner u = ''user:'' @ user_id)
      (resolve_usage (all_activity_rows db now (ad_start data)) bindings (ad_start data) now))"
proof -
  let ?own = "own_accounts bindings user_id"
  let ?F = "\<lambda>r. filter (\<lambda>u. uo_owner u = ''user:'' @ user_id) (resolve_row bindings (ad_start data) now r)"
  let ?all = "all_activity_rows db now (ad_start data)"
  obtain rows where rows: "read_nodes db now (ad_start data) ?own [] = Inr rows"
    "ad_records data = filter (\<lambda>u. uo_owner u = ''user:'' @ user_id) (resolve_usage rows bindings (ad_start data) now)"
    using assms(1) by (auto simp: read_activity_def Let_def rbind_Inr_iff split: if_splits)
  have c: "filter P (resolve_usage rows bindings s n) = concat (map (\<lambda>r. filter P (resolve_row bindings s n r)) rows)" for P rows s n
    by (simp add: resolve_usage_def filter_concat comp_def)
  have "mset (ad_records data) = mset (concat (map ?F (filter (own_row ?own) ?all)))"
    unfolding rows(2) c using read_nodes_rows[OF rows(1)] own_rows_once[OF dict_ok_own_accounts assms(2), of ?F] by simp
  also have "\<dots> = mset (concat (map ?F ?all))"
  proof -
    have "?F r = []" if "\<not> own_row ?own r" for r using that charged_own_row by (auto simp: filter_empty_conv)
    then have "concat (map ?F (filter (own_row ?own) xs)) = concat (map ?F xs)" for xs by (induction xs) simp_all
    then show ?thesis by simp
  qed
  finally show ?thesis unfolding c .
qed

definition joe_session :: session_row where
  "joe_session = \<lparr>ss_node_id = ''n'', ss_pid = 7, ss_ppid = PNone, ss_process_start_time = PNone, ss_parent_start_time = PNone,
     ss_user = PStr ''joe'', ss_user_uid = PInt 1007, ss_task_name = PNone, ss_process_name = ''x'', ss_exe = PNone,
     ss_cmdline_hash = PNone, ss_cmdline_text = PNone, ss_first_seen_at = 1, ss_last_seen_at = 9, ss_duration_seconds = 8,
     ss_status = Running, ss_sample_count = 2\<rparr>"

definition joe_usages :: database where
  "joe_usages = empty_db\<lparr>db_sessions := [(''s'', joe_session)],
     db_usages := [((''s'', ''g''), \<lparr>us_node_id = ''n'', us_first_seen_at = 1, us_last_seen_at = 9, us_max_memory_mb = 5,
        us_avg_memory_mb = 5, us_last_memory_mb = 5, us_sample_count = 2\<rparr>)]\<rparr>"

definition read_joe :: "lab_db \<Rightarrow> activity_data result" where
  "read_joe st = read_activity (\<lambda>_. 100) (\<lambda>_. 100) False joe_usages (list_bindings None False st) ''ub'' 1 100"

definition joe_bound :: bound where
  "joe_bound = (''k1'', \<lparr>lb_user_id = ''ub'', lb_node_id = ''n'', lb_unix_uid = 1007, lb_unix_gid = None, lb_unix_username = ''joe'',
     lb_assurance = SelfClaimed, lb_status = BActive, lb_valid_from = 2, lb_valid_to = None, lb_created_by = ''ub'',
     lb_ended_by = None, lb_reason = None\<rparr>, ''b@x'', None)"

lemma joe_bindings:
  assumes "one_binding = Inr st"
  shows "list_bindings None False st = [joe_bound]"
proof -
  have "rbind one_binding (\<lambda>st. Inr (list_bindings None False st)) = Inr [joe_bound]" by code_simp
  then show ?thesis by (simp add: assms)
qed

lemma joe_window: "midnight (first_day 100 1) = - 28800"
  by (simp add: first_day_def day_of_def midnight_def floor_eq_iff)

lemma joe_own: "own_accounts [joe_bound] ''ub'' = [(''n'', [1007])]"
  by (simp add: own_accounts_def joe_bound_def sorted_set_def)

lemma joe_rows: "read_nodes joe_usages 100 (- 28800) [(''n'', [1007])] [] =
    Inr (rows_of_usage joe_usages (hd (db_usages joe_usages)))"
  by (simp add: joe_usages_def ACTIVITY_MAX_ROWS_def node_activity_rows_def rows_of_usage_def joe_session_def joined_gpus_def empty_db_def values_of_def)

lemma joe_resolved: 
   "map (\<lambda>u. (uo_owner u = ''user:ub'', uo_start u, uo_end u, ay_user_uid (uo_row u), uv_node_id (ay_view (uo_row u))))
     (resolve_usage (rows_of_usage joe_usages (hd (db_usages joe_usages))) [joe_bound] (- 28800) 100) =
    [(False, 1, 2, Some 1007, ''n''), (True, 2, 9, Some 1007, ''n'')]"
  by (simp add: joe_usages_def joe_session_def empty_db_def values_of_def joined_gpus_def rows_of_usage_def resolve_usage_def resolve_row_def matching_bindings_def usage_view_of_def
     joe_bound_def span_edges_def clamp_def sorted_set_def Let_def usage_span_def applicable_def)

lemma joe_activity:
  "\<exists>st data r. one_binding = Inr st \<and> read_joe st = Inr data \<and> ad_records data = [r] \<and> ay_user_uid (uo_row r) = Some 1007 \<and>
     uo_start r = 2 \<and> uo_end r = 9 \<and> uv_node_id (ay_view (uo_row r)) = ''n''"
proof -
  obtain st where st: "one_binding = Inr st" using one_binding_owner by blast
  obtain x y where xy: "resolve_usage (rows_of_usage joe_usages (hd (db_usages joe_usages))) [joe_bound] (- 28800) 100 = [x, y]"
    "uo_owner x \<noteq> ''user:ub''" "uo_owner y = ''user:ub''" "ay_user_uid (uo_row y) = Some 1007" "uo_start y = 2" "uo_end y = 9"
    "uv_node_id (ay_view (uo_row y)) = ''n''"
    using joe_resolved by (auto simp: map_eq_Cons_conv)
  have "is_ok (read_joe st)"
    by (simp add: read_joe_def joe_bindings[OF st] read_activity_def joe_window[simplified] joe_own joe_rows Let_def del: read_nodes.simps)
  then obtain data where d: "read_joe st = Inr data" unfolding is_ok_iff by blast
  then have "ad_records data = [y]" using xy(1,2,3)
    by (auto simp: read_joe_def joe_bindings[OF st] read_activity_def joe_window[simplified] joe_own joe_rows Let_def simp del: read_nodes.simps)
  with st d xy show ?thesis by blast
qed
theorem activity_complete_witness:
  "\<exists>st data. one_binding = Inr st \<and> read_joe st = Inr data \<and> ad_records data \<noteq> [] \<and>
     mset (ad_records data) = mset (filter (\<lambda>u. uo_owner u = ''user:'' @ ''ub'')
       (resolve_usage (all_activity_rows joe_usages 100 (ad_start data)) (list_bindings None False st) (ad_start data) 100))"
proof -
  obtain st data r where d: "one_binding = Inr st" "read_joe st = Inr data" "ad_records data = [r]" using joe_activity by blast
  have "usages_on_their_node joe_usages" by (simp add: usages_on_their_node_def joe_usages_def joe_session_def)
  from activity_complete[OF d(2)[unfolded read_joe_def] this] d show ?thesis by (intro exI[of _ st] exI[of _ data] conjI) simp_all
qed

subsection \<open>The activity shows nothing of other owners\<close>

lemma pieces_inside:
  assumes "sorted_wrt (<) es" "(a, b) \<in> set (pieces es)"
  shows "hd es \<le> a \<and> a < b \<and> b \<le> last es"
  using assms
proof (induction es rule: induct_list012)
  case (3 x y xs)
  have "y \<le> last (y # xs)" using "3.prems"(1) by (cases xs) (auto intro: less_imp_le)
  then show ?case using 3 by (auto split: if_splits)
qed simp_all

lemma charged_throughout:
  assumes "lab_reachable now st" "u \<in> set (resolve_row (list_bindings None False st) start until r)"
    "uo_owner u = ''user:'' @ user_id" "uo_start u \<le> t" "t < uo_end u \<or> t = uo_start u"
  shows "row_owner st r t (Some user_id)"
proof -
  let ?left = "max start (uv_first_seen_at (ay_view r))" and ?right = "min until (uv_last_seen_at (ay_view r))"
  let ?ms = "matching_bindings (list_bindings None False st) start r"
  let ?owner = "\<lambda>t. map_option (\<lambda>x. lb_user_id (binding_of x)) (latest (filter (applicable t) ?ms))"
  have rule: "row_owner st r t (?owner t)" if "?left \<le> t"
    using uid_row_owner[OF assms(1)] name_row_owner[OF assms(1)] that by (cases "ay_user_uid r") auto
  show ?thesis
  proof (cases "?left < ?right")
    case True
    then obtain a b where ab: "(a, b) \<in> set (pieces (span_edges ?left ?right ?ms))" "u = usage_span ?ms r (a, b)"
      using assms(2) resolve_row_pieces[OF refl refl True refl] by auto
    have "?left \<le> a \<and> a < b \<and> b \<le> ?right"
      using pieces_inside[OF span_edges_ok(1)[OF True] ab(1)] span_edges_ok(3,4)[OF True] by simp
    moreover have "a \<le> t" "t < b \<or> t = a" using assms(4,5) by (simp_all add: ab(2) usage_span_def Let_def)
    ultimately have t: "?left \<le> t" "t < ?right" "t < b" by linarith+
    have "u \<in> set (filter (\<lambda>x. uo_start x \<le> t \<and> t < uo_end x) (resolve_row (list_bindings None False st) start until r))"
      using assms(2,4) t(3) by (simp add: ab(2) usage_span_def Let_def)
    moreover obtain w where w: "row_owner st r t w"
      "map uo_owner (filter (\<lambda>x. uo_start x \<le> t \<and> t < uo_end x) (resolve_row (list_bindings None False st) start until r)) = [charge_of r w]"
      using row_charged_to_owner[OF assms(1) t(1,2)] by (elim exE conjE) (rule that)
    ultimately have "uo_owner u \<in> set [charge_of r w]" unfolding w(2)[symmetric] set_map by (intro imageI)
    then have "w = Some user_id" using assms(3) by (cases w) (simp_all add: charge_of_def)
    then show ?thesis using w(1) by simp
  next
    case False
    then have u: "u = usage_span ?ms r (?left, ?right)" "?left = ?right"
      using assms(2) by (auto simp: resolve_row_def Let_def split: if_splits)
    then have t: "t = ?left" using assms(4,5) by (auto simp: usage_span_def Let_def)
    have mine: "?owner t = Some user_id"
      using assms(3) u(1) unfolding t by (auto simp: usage_span_def Let_def split: option.splits)
    have "row_owner st r t (?owner t)" by (rule rule) (simp only: t order_refl)
    then show ?thesis unfolding mine .
  qed
qed

text \<open>
  C24: whatever a person sees as own activity is that person's: in every reachable state of the lab and at every moment
  of every record, the row of the record belonged to the person who asked.  A row that carries the uid of its account
  belongs to the owner of the account at that moment, a row with the name only to the user of the latest
  binding of the name that held at the moment, or, before all of them, of a first one.
\<close>

theorem activity_owned:
  assumes "lab_reachable t st"
    and "read_activity record_size list_size interrupted db (list_bindings None False st) user_id period now = Inr data"
    and "u \<in> set (ad_records data)" "uo_start u \<le> s" "s < uo_end u \<or> s = uo_start u"
  shows "row_owner st (uo_row u) s (Some user_id)"
proof -
  obtain rows where "ad_records data = filter (\<lambda>u. uo_owner u = ''user:'' @ user_id)
      (resolve_usage rows (list_bindings None False st) (ad_start data) now)"
    using assms(2) by (auto simp: read_activity_def Let_def rbind_Inr_iff split: if_splits)
  then obtain r where r: "u \<in> set (resolve_row (list_bindings None False st) (ad_start data) now r)" "uo_owner u = ''user:'' @ user_id"
    using assms(3) by (auto simp: resolve_usage_def)
  then have "uo_row u = r" by (auto simp: resolve_row_def usage_span_def Let_def split: if_splits)
  then show ?thesis using charged_throughout[OF assms(1) r] assms(4,5) by simp
qed

theorem activity_owned_witness:
  "\<exists>st data r. one_binding = Inr st \<and> read_joe st = Inr data \<and> r \<in> set (ad_records data) \<and>
     owners_at ''n'' 1007 5 st = [''ub'']"
proof -
  obtain st data r where d: "one_binding = Inr st" "read_joe st = Inr data" "ad_records data = [r]" "ay_user_uid (uo_row r) = Some 1007"
    "uo_start r = 2" "uo_end r = 9" "uv_node_id (ay_view (uo_row r)) = ''n''" using joe_activity by blast
  have m: "r \<in> set (ad_records data)" "uo_start r \<le> 5" "5 < uo_end r \<or> 5 = uo_start r" using d by simp_all
  have "row_owner st (uo_row r) 5 (Some ''ub'')"
    by (rule activity_owned[OF one_binding_reachable[OF d(1)] d(2)[unfolded read_joe_def] m])
  then have "owners_at ''n'' 1007 5 st = [''ub'']" using d(4,7) by (simp add: row_owner_def Let_def)
  with d m show ?thesis by (intro exI[of _ st] exI[of _ data] exI[of _ r] conjI) simp_all
qed

subsection \<open>The cache is bounded\<close>

definition cache_size :: "(string, activity_data) dict \<Rightarrow> nat" where
  "cache_size cache = sum_list (map (\<lambda>kd. ad_size (snd kd)) cache)"

text \<open>Any calls and ends of tasks in any order; the set remembers what was loaded for which key.\<close>

inductive service_reachable :: "(string \<times> activity_data) set \<Rightarrow> activity_service \<Rightarrow> bool" where
  start: "service_reachable {} new_activity_service"
| get: "service_reachable L sv \<Longrightarrow> service_reachable L (snd (activity_get key now sv))"
| failed: "service_reachable L sv \<Longrightarrow> service_reachable L (activity_loaded key (Inl e) sv)"
| loaded: "service_reachable L sv \<Longrightarrow> service_reachable (insert (key, data) L) (activity_loaded key (Inr data) sv)"

definition service_inv :: "(string \<times> activity_data) set \<Rightarrow> activity_service \<Rightarrow> bool" where
  "service_inv L sv \<longleftrightarrow> dict_ok (as_cache sv) \<and> length (as_cache sv) \<le> 16 \<and> cache_size (as_cache sv) \<le> MAX_CACHE_BYTES \<and>
     set (as_cache sv) \<subseteq> L \<and> distinct (as_pending sv) \<and> length (as_pending sv) \<le> 16"

lemma evict_suffix: "\<exists>old. cache = old @ evict cache"
proof (induction cache)
  case (Cons kd cache)
  then obtain old where "cache = old @ evict cache" by blast
  then show ?case by (cases "evict (kd # cache) = kd # cache") (auto intro: exI[of _ "kd # old"])
qed simp

lemma evict_bounds: "length (evict cache) \<le> 16 \<and> cache_size (evict cache) \<le> MAX_CACHE_BYTES"
  by (induction cache) (auto simp: cache_size_def)

lemma evict_keeps_newest:
  assumes "ad_size data \<le> MAX_CACHE_BYTES"
  shows "\<exists>old. evict (cache @ [(key, data)]) = old @ [(key, data)]"
  using assms by (induction cache) auto

lemma move_to_end_ok:
  assumes "dict_ok cache"
  shows "dict_ok (move_to_end key data cache)" "set (move_to_end key data cache) \<subseteq> insert (key, data) (set cache)"
  using assms by (auto simp: move_to_end_def dict_ok_def distinct_map_filter)

lemma move_to_end_same:
  assumes "dict_ok cache" "map_of cache key = Some data"
  shows "mset (move_to_end key data cache) = mset cache"
  using assms
proof (induction cache)
  case (Cons kd cache)
  show ?case
  proof (cases "fst kd = key")
    case True
    then have "\<forall>x \<in> set cache. fst x \<noteq> key" using Cons.prems(1) by (auto simp: dict_ok_def image_iff)
    then have "filter (\<lambda>x. fst x \<noteq> key) cache = cache" by (simp add: filter_id_conv)
    then show ?thesis using True Cons.prems(2) by (cases kd) (simp add: move_to_end_def)
  next
    case False
    then show ?thesis using Cons by (cases kd) (simp add: move_to_end_def dict_ok_def)
  qed
qed simp

lemma evict_inv:
  fixes key :: string
  assumes "service_inv L sv" "ad_size data \<le> MAX_CACHE_BYTES"
  defines "cache \<equiv> evict (move_to_end key data (as_cache sv))"
  shows "dict_ok cache \<and> length cache \<le> 16 \<and> cache_size cache \<le> MAX_CACHE_BYTES \<and> set cache \<subseteq> insert (key, data) L \<and>
    map_of cache key = Some data"
proof -
  have ok: "dict_ok (as_cache sv)" "set (as_cache sv) \<subseteq> L" using assms(1) by (simp_all add: service_inv_def)
  obtain old where o: "move_to_end key data (as_cache sv) = old @ cache" unfolding cache_def using evict_suffix by blast
  have d: "dict_ok cache" using move_to_end_ok(1)[OF ok(1), of key data] by (simp add: o dict_ok_def)
  have s: "set cache \<subseteq> insert (key, data) L" using move_to_end_ok(2)[OF ok(1), of key data] ok(2) unfolding o by auto
  have "(key, data) \<in> set cache" unfolding cache_def move_to_end_def using evict_keeps_newest[OF assms(2)] by (metis in_set_conv_decomp)
  then have "map_of cache key = Some data" using d by (simp add: dict_ok_def)
  then show ?thesis using d s evict_bounds unfolding cache_def by blast
qed

lemma service_reachable_ok: "service_reachable L sv \<Longrightarrow> service_inv L sv"
proof (induction rule: service_reachable.induct)
  case (get L sv key now)
  have "cache_size (move_to_end key data (as_cache sv)) = cache_size (as_cache sv) \<and>
      length (move_to_end key data (as_cache sv)) = length (as_cache sv) \<and>
      set (move_to_end key data (as_cache sv)) = set (as_cache sv) \<and> dict_ok (move_to_end key data (as_cache sv))"
    if "map_of (as_cache sv) key = Some data" for data
  proof -
    have ok: "dict_ok (as_cache sv)" using get.IH by (simp add: service_inv_def)
    note m = move_to_end_same[OF ok that]
    show ?thesis using m[THEN mset_eq_setD] m[THEN mset_eq_length] move_to_end_ok(1)[OF ok]
        arg_cong[OF m, of "\<lambda>M. sum_mset (image_mset (\<lambda>kd. ad_size (snd kd)) M)"]
      by (simp add: cache_size_def flip: sum_mset_sum_list)
  qed
  then show ?case using get.IH by (auto simp: activity_get_def service_inv_def split: option.splits)
next
  case (failed L sv key e)
  then show ?case by (auto simp: activity_loaded_def service_inv_def intro: le_trans[OF length_filter_le])
next
  case (loaded L sv key data)
  then show ?case using evict_inv[OF loaded.IH, of data key]
    by (auto simp: activity_loaded_def service_inv_def intro: le_trans[OF length_filter_le])
qed (simp add: new_activity_service_def service_inv_def cache_size_def dict_ok_def)

text \<open>
  Whatever calls come in and tasks end in whatever order, the activity cache holds at most sixteen entries
  of together at most sixteen megabytes and at most sixteen keys are being loaded; an answer from the cache was
  loaded for the very key and is younger than a minute, and freshly loaded data that fits is never evicted by
  its own insertion.
\<close>

theorem activity_cache_bounded:
  assumes "service_reachable L sv"
  shows "length (as_cache sv) \<le> 16 \<and> cache_size (as_cache sv) \<le> MAX_CACHE_BYTES \<and> length (as_pending sv) \<le> 16 \<and>
    (\<forall>key now data sv'. activity_get key now sv = (Cached data, sv') \<longrightarrow> (key, data) \<in> L \<and> now - ad_as_of data < 60) \<and>
    (\<forall>key data. ad_size data \<le> MAX_CACHE_BYTES \<longrightarrow> map_of (as_cache (activity_loaded key (Inr data) sv)) key = Some data)"
proof -
  note inv = service_reachable_ok[OF assms]
  have "(key, data) \<in> L \<and> now - ad_as_of data < 60" if "activity_get key now sv = (Cached data, sv')" for key now data sv'
    using that inv by (auto simp: activity_get_def service_inv_def CACHE_SECONDS_def split: option.splits if_splits dest!: map_of_SomeD)
  moreover have "map_of (as_cache (activity_loaded key (Inr data) sv)) key = Some data" if "ad_size data \<le> MAX_CACHE_BYTES" for key data
    using evict_inv[OF inv that] that by (simp add: activity_loaded_def)
  ultimately show ?thesis using inv by (auto simp: service_inv_def)
qed

definition small_data :: "rat \<Rightarrow> activity_data" where
  "small_data t = \<lparr>ad_records = [], ad_as_of = t, ad_start = 0, ad_days = [], ad_eligible = [], ad_missing_uid = 0, ad_size = 5000\<rparr>"

theorem activity_cache_bounded_witness:
  "\<exists>L sv. service_reachable L sv \<and> length (as_cache sv) = 1 \<and> length (as_cache sv) \<le> 16 \<and>
     fst (activity_get ''k'' 30 sv) = Cached (small_data 0)"
proof -
  let ?sv = "activity_loaded ''k'' (Inr (small_data 0)) (snd (activity_get ''k'' 0 new_activity_service))"
  have r: "service_reachable (insert (''k'', small_data 0) {}) ?sv" by (intro service_reachable.intros)
  have l: "length (as_cache ?sv) = 1" "fst (activity_get ''k'' 30 ?sv) = Cached (small_data 0)"
    by (simp_all add: activity_get_def activity_loaded_def new_activity_service_def small_data_def MAX_CACHE_BYTES_def
        move_to_end_def CACHE_SECONDS_def)
  with r activity_cache_bounded[OF r] show ?thesis by (intro exI[of _ "insert (''k'', small_data 0) {}"] exI[of _ ?sv] conjI) simp_all
qed

subsection \<open>Following the pages\<close>

text \<open>A client that asks for the next page until there is none, with fuel.\<close>

fun follow_pages :: "(string option \<Rightarrow> page_error + activity_page) \<Rightarrow> nat \<Rightarrow> string option \<Rightarrow> activity_page list option" where
  "follow_pages answer 0 cursor = None"
| "follow_pages answer (Suc n) cursor =
     (case answer cursor of
        Inl e \<Rightarrow> None
      | Inr page \<Rightarrow>
          (case ap_next_cursor page of
             None \<Rightarrow> Some [page]
           | Some c \<Rightarrow> map_option (Cons page) (follow_pages answer n (Some c))))"

text \<open>What a cursor is: a token that decodes to the pair it was made from.\<close>

definition cursor_codec :: "(string \<Rightarrow> int \<Rightarrow> string) \<Rightarrow> (string \<Rightarrow> pyval result) \<Rightarrow> bool" where
  "cursor_codec encode decode \<longleftrightarrow>
     (\<forall>s n. encode s n \<noteq> [] \<and> decode (encode s n) = Inr (PList [PStr s, PInt n]))"

lemma next_offset:
  assumes "cursor_codec encode decode" "start \<le> n"
  shows "page_offset decode signature n (Some (encode signature (int start))) = Inr start"
  using assms by (simp add: page_offset_def cursor_codec_def)

lemma follow_from:
  assumes "cursor_codec encode decode" "0 < limit" "start \<le> length jobs"
    "page_offset decode signature (length jobs) cursor = Inr start"
  shows "\<exists>pages. follow_pages (\<lambda>c. page_of encode decode signature c limit jobs) (Suc ((length jobs - start) div limit)) cursor = Some pages \<and>
    concat (map ap_items pages) = drop start jobs \<and>
    (\<forall>p \<in> set pages. ap_total p = length jobs \<and> length (ap_items p) \<le> limit)"
  using assms(3,4)
proof (induction "length jobs - start" arbitrary: start cursor rule: less_induct)
  case less
  show ?case
  proof (cases "start + limit < length jobs")
    case True
    let ?next = "Some (encode signature (int (start + limit)))"
    have o: "page_offset decode signature (length jobs) ?next = Inr (start + limit)"
      using next_offset[OF assms(1), of "start + limit" "length jobs"] True by simp
    have "length jobs - (start + limit) < length jobs - start" using True assms(2) by simp
    from less.hyps[OF this _ o] True obtain pages where p:
      "follow_pages (\<lambda>c. page_of encode decode signature c limit jobs) (Suc ((length jobs - (start + limit)) div limit)) ?next = Some pages"
      "concat (map ap_items pages) = drop (start + limit) jobs"
      "\<forall>p \<in> set pages. ap_total p = length jobs \<and> length (ap_items p) \<le> limit" by auto
    have d: "(length jobs - start) div limit = Suc ((length jobs - (start + limit)) div limit)"
      using True assms(2) by (simp add: le_div_geq)
    have "take limit (drop start jobs) @ drop (start + limit) jobs = drop start jobs"
      by (metis append_take_drop_id drop_drop add.commute)
    then show ?thesis using p less.prems(2) True by (auto simp: d page_of_def Let_def)
  next
    case False
    then show ?thesis using less.prems by (auto simp: page_of_def Let_def)
  qed
qed

lemma follow_pages_cong: "(\<And>c. f c = g c) \<Longrightarrow> follow_pages f n c = follow_pages g n c"
  by (rule arg_cong[of f g "\<lambda>h. follow_pages h n c"]) auto

lemma rbind_assoc_page: "rbind (rbind x (\<lambda>p. Inr (f p))) (\<lambda>a. Inr (pl_jobs a)) = x" if "\<And>p. pl_jobs (f p) = p"
  using that by (cases x) simp_all

text \<open>
  C20: a client that follows the cursors of the activity answers gets, after at most one page more than full
  pages are needed, every job that matches the query exactly once and in order; every page reports the true
  total and respects the limit, and none is refused, as long as the data and the cluster stay the same.
\<close>

theorem activity_pages_complete:
  fixes cs :: cluster_state and now :: rat
  assumes "cursor_codec encode decode" "0 < aq_limit rq"
    and "case aq_date rq of None \<Rightarrow> True | Some d \<Rightarrow> d = [] \<or> d \<in> set (map dy_label (ad_days data))"
  defines "jobs \<equiv> filter (matching_job rq (find (\<lambda>d. Some (dy_label d) = aq_date rq) (ad_days data)))
      (activity_jobs (ad_records data) cs now)"
  shows "\<exists>pages. follow_pages
      (\<lambda>c. rbind (activity_payload sha256 encode decode data cs now later (rq\<lparr>aq_cursor := c\<rparr>)) (\<lambda>answer. Inr (pl_jobs answer)))
      (Suc (length jobs div aq_limit rq)) None = Some pages \<and>
    concat (map ap_items pages) = jobs \<and>
    (\<forall>p \<in> set pages. ap_total p = length jobs \<and> length (ap_items p) \<le> aq_limit rq)"
proof -
  have m: "matching_job (rq\<lparr>aq_cursor := c\<rparr>) day j = matching_job rq day j" for c day j by (simp add: matching_job_def)
  have s: "page_signature sha256 t (rq\<lparr>aq_cursor := c\<rparr>) js = page_signature sha256 t rq js" for t c js
    by (simp add: page_signature_def)
  have dated: "(case aq_date (rq\<lparr>aq_cursor := c\<rparr>) of None \<Rightarrow> False | Some d \<Rightarrow> d \<noteq> [] \<and> d \<notin> set (map dy_label (ad_days data))) = False" for c
    using assms(3) by (simp split: option.splits)
  have "rbind (activity_payload sha256 encode decode data cs now later (rq\<lparr>aq_cursor := c\<rparr>)) (\<lambda>answer. Inr (pl_jobs answer)) =
      page_of encode decode (page_signature sha256 (ad_as_of data) rq jobs) c (aq_limit rq) jobs" for c
    unfolding activity_payload_def Let_def dated m s jobs_def
    by (simp add: rbind_assoc_page dated m s)
  note answers = follow_pages_cong[OF this]
  show ?thesis unfolding answers
    using follow_from[OF assms(1,2), of 0 jobs "page_signature sha256 (ad_as_of data) rq jobs" None]
    by (simp add: page_offset_def)
qed

definition plain_query :: activity_query where
  "plain_query = \<lparr>aq_date = None, aq_model = [], aq_status = ''all'', aq_q = [], aq_cursor = None, aq_limit = 1\<rparr>"

text \<open>A codec: the offset in unary, then the token.\<close>

definition unary_encode :: "string \<Rightarrow> int \<Rightarrow> string" where
  "unary_encode s n = (if n < 0 then ''-'' else ''+'') @ replicate (nat \<bar>n\<bar>) (CHR ''1'') @ ''.'' @ s"

definition unary_decode :: "string \<Rightarrow> pyval result" where
  "unary_decode c =
     (case c of [] \<Rightarrow> Inl (ValueError ''empty'')
      | sign # r \<Rightarrow>
          let n = int (length (takeWhile (\<lambda>x. x = CHR ''1'') r))
          in Inr (PList [PStr (List.tl (dropWhile (\<lambda>x. x = CHR ''1'') r)), PInt (if sign = CHR ''-'' then - n else n)]))"

lemma unary_codec: "cursor_codec unary_encode unary_decode"
proof -
  have "takeWhile (\<lambda>x. x = CHR ''1'') (replicate k (CHR ''1'') @ CHR ''.'' # s) = replicate k (CHR ''1'')"
    "dropWhile (\<lambda>x. x = CHR ''1'') (replicate k (CHR ''1'') @ CHR ''.'' # s) = CHR ''.'' # s" for k s
    by (induction k) simp_all
  then show ?thesis by (simp add: cursor_codec_def unary_encode_def unary_decode_def Let_def)
qed

definition joe_use :: "string \<Rightarrow> usage" where
  "joe_use key = \<lparr>uo_owner = ''user:ub'', uo_label = ''joe'', uo_start = 1, uo_end = 9, uo_card = ''c'', uo_model = ''m'', uo_key = key,
     uo_row = joe_row\<rparr>"

definition two_jobs :: activity_data where
  "two_jobs = (small_data 0)\<lparr>ad_records := [joe_use ''a'', joe_use ''b'']\<rparr>"

lemma two_jobs_match: "length (filter (matching_job plain_query None) (activity_jobs (ad_records two_jobs) cs now)) = 2"
proof -
  have "matching_job plain_query None (activity_job cs now (k, [joe_use k']))" for k k'
    by (simp add: matching_job_def plain_query_def activity_job_def Let_def py_strip_def py_casefold_def)
  moreover have g: "group_by uo_key (ad_records two_jobs) [] = [(''a'', [joe_use ''a'']), (''b'', [joe_use ''b''])]"
    by (simp add: two_jobs_def joe_use_def)
  have "set (activity_jobs (ad_records two_jobs) cs now) =
      {activity_job cs now (''a'', [joe_use ''a'']), activity_job cs now (''b'', [joe_use ''b''])}"
    "length (activity_jobs (ad_records two_jobs) cs now) = 2"
    unfolding activity_jobs_def g by (simp_all only: set_sort length_sort list.map list.set list.size)
  ultimately show ?thesis by (simp add: filter_id_conv)
qed

theorem activity_pages_complete_witness:
  "\<exists>pages. follow_pages
      (\<lambda>c. rbind (activity_payload id unary_encode unary_decode two_jobs (new_cluster ''n'' None None 10) 0 0 (plain_query\<lparr>aq_cursor := c\<rparr>))
        (\<lambda>answer. Inr (pl_jobs answer))) 3 None = Some pages \<and> length (concat (map ap_items pages)) = 2 \<and>
     (\<forall>p \<in> set pages. length (ap_items p) \<le> 1)"
proof -
  have q: "0 < aq_limit plain_query" "aq_limit plain_query = 1" "aq_date plain_query = None"
    by (simp_all add: plain_query_def)
  have d: "case aq_date plain_query of None \<Rightarrow> True | Some d \<Rightarrow> d = [] \<or> d \<in> set (map dy_label (ad_days two_jobs))"
    by (simp add: q)
  have f: "find (\<lambda>d. Some (dy_label d) = aq_date plain_query) (ad_days two_jobs) = None" by (simp add: two_jobs_def small_data_def)
  have "Suc (2 div aq_limit plain_query) = 3" by (simp add: q)
  then show ?thesis
    using activity_pages_complete[OF unary_codec q(1) d, where cs = "new_cluster ''n'' None None 10" and now = 0 and later = 0 and ?sha256.0 = id, unfolded f two_jobs_match]
    by (metis q(2) two_jobs_match)
qed

end
