(* ===== verification/Manager.thy ===== *)
theory Manager
  imports Agent AgentRpc DbSink HighresCache
begin

text \<open>
  \<open>packages/backend/src/constella/app.py\<close>: the manager, which joins the state of the cluster, the broker of
  requests to agents, the cache of the last hours, the stream to subscribers and the database behind one
  websocket per agent. A handler is cut at its waits; between two of them it runs alone.
\<close>

subsection \<open>Settings\<close>

record manager_settings =
  ms_refresh_interval :: rat
  ms_process_interval :: flt

definition settings_from_env :: "environ \<Rightarrow> rat option \<Rightarrow> rat option \<Rightarrow> manager_settings result" where
  "settings_from_env env refresh process =
     rbind (case refresh of Some r \<Rightarrow> Inr (Fin r) | None \<Rightarrow> float_env env ''CONSTELLA_REFRESH_SECONDS'' 1) (\<lambda>rf.
     rbind (case process of Some p \<Rightarrow> Inr (Fin p) | None \<Rightarrow> float_env env ''CONSTELLA_PROCESS_SECONDS'' 5) (\<lambda>pf.
     rbind (refresh_of rf) (\<lambda>r. Inr \<lparr>ms_refresh_interval = r, ms_process_interval = process_of pf\<rparr>)))"

definition settings_process_interval :: "manager_settings \<Rightarrow> flt" where
  "settings_process_interval s = slower (ms_process_interval s) (ms_refresh_interval s)"

definition settings_to_dict :: "manager_settings \<Rightarrow> (string, pyval) dict" where
  "settings_to_dict s =
     [(''refresh_interval'', PFlt (Fin (ms_refresh_interval s))),
      (''allowed_refresh_intervals'', PList (map (PFlt \<circ> Fin) ALLOWED_REFRESH_INTERVALS)),
      (''process_interval'', PFlt (settings_process_interval s))]"

definition config_message :: "manager_settings \<Rightarrow> (string, pyval) dict" where
  "config_message s =
     [(''type'', PStr ''config''), (''refresh_interval'', PFlt (Fin (ms_refresh_interval s))),
      (''process_interval'', PFlt (settings_process_interval s)), (''supported_metrics_delta'', PBool True)]"

text \<open>An update with a refresh interval that is not allowed raises before anything is changed.\<close>

definition update_settings :: "flt option \<Rightarrow> flt option \<Rightarrow> manager_settings \<Rightarrow> manager_settings result" where
  "update_settings refresh process s =
     rbind (case refresh of None \<Rightarrow> Inr s | Some x \<Rightarrow> rbind (refresh_of x) (\<lambda>r. Inr (s\<lparr>ms_refresh_interval := r\<rparr>))) (\<lambda>s1.
       Inr (case process of None \<Rightarrow> s1 | Some x \<Rightarrow> s1\<lparr>ms_process_interval := process_of x\<rparr>))"

subsection \<open>State\<close>

text \<open>
  A socket of an agent: the node it greeted for and its queue of messages to send. The queue of the socket that
  is registered for its node is the one in the broker, which puts its requests there.
\<close>

record agent_socket =
  so_node :: "string option"
  so_queue :: "(string, pyval) dict list"

record manager =
  mg_token :: "string option"
  mg_settings :: manager_settings
  mg_cluster :: cluster_state
  mg_broker :: broker
  mg_cache :: highres_cache
  mg_stream :: broadcaster
  mg_sink :: "db_sink option"
  mg_sockets :: "(nat, agent_socket) dict"

definition SEND_QUEUE_SIZE :: nat where
  "SEND_QUEUE_SIZE = 128"

definition registered_node :: "nat \<Rightarrow> manager \<Rightarrow> string option" where
  "registered_node cid m =
     (case map_of (mg_sockets m) cid of
        None \<Rightarrow> None
      | Some so \<Rightarrow>
          (case so_node so of
             None \<Rightarrow> None
           | Some n \<Rightarrow>
               (case map_of (b_connections (mg_broker m)) n of
                  None \<Rightarrow> None
                | Some c \<Rightarrow> if ac_connection_id c = cid then Some n else None)))"

definition send_queue :: "nat \<Rightarrow> manager \<Rightarrow> (string, pyval) dict list" where
  "send_queue cid m =
     (case registered_node cid m of
        Some n \<Rightarrow> (case map_of (b_connections (mg_broker m)) n of Some c \<Rightarrow> ac_queue c | None \<Rightarrow> [])
      | None \<Rightarrow> (case map_of (mg_sockets m) cid of Some so \<Rightarrow> so_queue so | None \<Rightarrow> []))"

definition set_send_queue :: "nat \<Rightarrow> (string, pyval) dict list \<Rightarrow> manager \<Rightarrow> manager" where
  "set_send_queue cid q m =
     (case registered_node cid m of
        Some n \<Rightarrow>
          (case map_of (b_connections (mg_broker m)) n of
             Some c \<Rightarrow> m\<lparr>mg_broker := (mg_broker m)\<lparr>b_connections :=
                 AList.update n (c\<lparr>ac_queue := q\<rparr>) (b_connections (mg_broker m))\<rparr>\<rparr>
           | None \<Rightarrow> m)
      | None \<Rightarrow>
          (case map_of (mg_sockets m) cid of
             Some so \<Rightarrow> m\<lparr>mg_sockets := AList.update cid (so\<lparr>so_queue := q\<rparr>) (mg_sockets m)\<rparr>
           | None \<Rightarrow> m))"

text \<open>\<^verbatim>\<open>put_nowait\<close> raises on a full queue.\<close>

definition put_reply :: "nat \<Rightarrow> (string, pyval) dict \<Rightarrow> manager \<Rightarrow> manager option" where
  "put_reply cid reply m =
     (if SEND_QUEUE_SIZE \<le> length (send_queue cid m) then None else Some (set_send_queue cid (send_queue cid m @ [reply]) m))"

text \<open>Every open socket gets the settings, unless its queue is full.\<close>

definition broadcast_config :: "manager \<Rightarrow> manager" where
  "broadcast_config m =
     fold (\<lambda>cid m. case put_reply cid (config_message (mg_settings m)) m of None \<Rightarrow> m | Some m' \<Rightarrow> m') (map fst (mg_sockets m)) m"

definition patch_settings :: "flt option \<Rightarrow> flt option \<Rightarrow> manager \<Rightarrow> manager result" where
  "patch_settings refresh process m =
     rbind (update_settings refresh process (mg_settings m)) (\<lambda>s. Inr (broadcast_config (m\<lparr>mg_settings := s\<rparr>)))"

subsection \<open>The socket of an agent\<close>

definition agent_authorized :: "string \<Rightarrow> string option \<Rightarrow> bool" where
  "agent_authorized header token =
     (case token of
        None \<Rightarrow> False
      | Some t \<Rightarrow> t \<noteq> [] \<and> py_startswith header ''Bearer '' \<and> drop 7 header = t)"

definition open_socket :: "nat \<Rightarrow> string \<Rightarrow> manager \<Rightarrow> manager" where
  "open_socket cid header m =
     (if agent_authorized header (mg_token m)
      then m\<lparr>mg_sockets := AList.update cid \<lparr>so_node = None, so_queue = []\<rparr> (mg_sockets m)\<rparr>
      else m)"

text \<open>What runs however the handler ends.\<close>

definition close_socket :: "nat \<Rightarrow> manager \<Rightarrow> manager" where
  "close_socket cid m =
     (case map_of (mg_sockets m) cid of
        None \<Rightarrow> m
      | Some so \<Rightarrow>
          let m1 = (case so_node so of
              None \<Rightarrow> m
            | Some n \<Rightarrow> m\<lparr>mg_cluster := disconnect n None (Some cid) (mg_cluster m), mg_broker := rpc_unregister n cid (mg_broker m)\<rparr>)
          in m1\<lparr>mg_sockets := AList.delete cid (mg_sockets m1)\<rparr>)"

text \<open>The queue of a connection that is about to be replaced stays with its socket.\<close>

definition detach_queue :: "string \<Rightarrow> nat \<Rightarrow> manager \<Rightarrow> manager" where
  "detach_queue n cid m =
     (case map_of (b_connections (mg_broker m)) n of
        None \<Rightarrow> m
      | Some c \<Rightarrow>
          if ac_connection_id c = cid then m
          else (case map_of (mg_sockets m) (ac_connection_id c) of
              None \<Rightarrow> m
            | Some so \<Rightarrow> m\<lparr>mg_sockets := AList.update (ac_connection_id c) (so\<lparr>so_queue := ac_queue c\<rparr>) (mg_sockets m)\<rparr>))"

definition greet :: "nat \<Rightarrow> agent_hello \<Rightarrow> rat \<Rightarrow> manager \<Rightarrow> manager" where
  "greet cid hello now m =
     (let n = a_node_id hello; m1 = detach_queue n cid m
      in m1\<lparr>mg_cluster := register_hello hello now (Some cid) (mg_cluster m1),
            mg_broker := rpc_register n cid (send_queue cid m) SEND_QUEUE_SIZE (a_capabilities hello) (mg_broker m1),
            mg_sockets := AList.update cid \<lparr>so_node = Some n, so_queue = []\<rparr> (mg_sockets m1)\<rparr>)"

text \<open>What a socket delivers: JSON, something else, or its end.\<close>

datatype incoming = InvalidJson | Json pyval | Gone

text \<open>The first message. The second result says whether the handler goes on; if not, the socket is closed.\<close>

definition first_message :: "nat \<Rightarrow> incoming \<Rightarrow> rat \<Rightarrow> manager \<Rightarrow> manager \<times> bool" where
  "first_message cid received now m =
     (case received of
        Json (PDict message) \<Rightarrow>
          (case parse_agent_hello message of
             Inl e \<Rightarrow> (m, False)
           | Inr hello \<Rightarrow>
               let m1 = greet cid hello now m
               in (case put_reply cid (config_message (mg_settings m1)) m1 of None \<Rightarrow> (m1, False) | Some m2 \<Rightarrow> (m2, True)))
      | _ \<Rightarrow> (m, False))"

definition ack :: "(string, pyval) dict \<Rightarrow> (string, pyval) dict" where
  "ack parts = (''type'', PStr ''ack'') # parts"

definition answer :: "nat \<Rightarrow> (string, pyval) dict \<Rightarrow> manager \<Rightarrow> manager \<times> bool" where
  "answer cid reply m = (case put_reply cid reply m of None \<Rightarrow> (m, False) | Some m' \<Rightarrow> (m', True))"

definition refuse_message :: "nat \<Rightarrow> string \<Rightarrow> (string, pyval) dict \<Rightarrow> manager \<Rightarrow> manager \<times> bool" where
  "refuse_message cid n reply m = answer cid reply (m\<lparr>mg_cluster := reject_sample n (Some cid) (mg_cluster m)\<rparr>)"

text \<open>An accepted sample goes to the cache, to the subscribers and to the database.\<close>

definition store_sample :: "node_snapshot \<Rightarrow> manager \<Rightarrow> manager" where
  "store_sample snapshot m =
     m\<lparr>mg_cache := add_snapshot snapshot (mg_cache m), mg_stream := publish_snapshot snapshot (mg_stream m),
       mg_sink := map_option (\<lambda>k. fst (submit_node_snapshot snapshot k)) (mg_sink m)\<rparr>"

definition on_sample :: "nat \<Rightarrow> string \<Rightarrow> (string, pyval) dict \<Rightarrow> rat \<Rightarrow> manager \<Rightarrow> manager \<times> bool" where
  "on_sample cid n message now m =
     (case ingest_sample message now (Some cid) (mg_cluster m) of
        Inl e \<Rightarrow>
          if conversion_error e
          then refuse_message cid n (ack [(''seq'', dget message ''seq''), (''accepted'', PBool False),
                 (''error'', PStr ''invalid_sample'')]) m
          else (m, False)
      | Inr (accepted, cs) \<Rightarrow>
          let m1 = m\<lparr>mg_cluster := cs\<rparr>;
              m2 = (if accepted
                    then (case map_of (k_latest cs) (str_field message ''node_id'' []) of
                            None \<Rightarrow> m1 | Some r \<Rightarrow> store_sample (r_snapshot r) m1)
                    else m1)
          in answer cid (ack [(''seq'', dget message ''seq''), (''accepted'', PBool accepted)]) m2)"

definition on_heartbeat :: "nat \<Rightarrow> string \<Rightarrow> (string, pyval) dict \<Rightarrow> rat \<Rightarrow> manager \<Rightarrow> manager \<times> bool" where
  "on_heartbeat cid n message now m =
     (if \<not> accepts COUNT (dget_or message ''seq'' (PInt 0))
      then refuse_message cid n (ack [(''accepted'', PBool False), (''error'', PStr ''invalid_heartbeat'')]) m
      else case py_int (py_or (dget message ''seq'') (PInt 0)) of
          Inl e \<Rightarrow> (m, False)
        | Inr seq \<Rightarrow>
            let named = str_field message ''node_id'' n;
                m1 = (if named = [] then m
                      else m\<lparr>mg_cluster := ingest_heartbeat named (Some seq) now (Some cid) (mg_cluster m)\<rparr>)
            in answer cid (ack [(''seq'', dget message ''seq'')]) m1)"

definition agent_message :: "nat \<Rightarrow> string \<Rightarrow> incoming \<Rightarrow> rat \<Rightarrow> manager \<Rightarrow> manager \<times> bool" where
  "agent_message cid n received now m =
     (case received of
        Gone \<Rightarrow> (m, False)
      | InvalidJson \<Rightarrow> refuse_message cid n (ack [(''accepted'', PBool False), (''error'', PStr ''invalid_json'')]) m
      | Json (PDict message) \<Rightarrow>
          (let ty = dget message ''type''
           in if ty = PStr ''sample'' then on_sample cid n message now m
              else if ty = PStr ''heartbeat'' then on_heartbeat cid n message now m
              else if ty = PStr ''account_lookup_response''
              then (m\<lparr>mg_broker := snd (resolve_account_lookup message cid (mg_broker m))\<rparr>, True)
              else if ty = PStr ''agent_restart_response''
              then (m\<lparr>mg_broker := snd (resolve_restart message cid (mg_broker m))\<rparr>, True)
              else answer cid [(''type'', PStr ''error''), (''error'', PStr (''unsupported agent message: '' @ py_str ty))] m)
      | Json _ \<Rightarrow> refuse_message cid n (ack [(''accepted'', PBool False), (''error'', PStr ''invalid_sample'')]) m)"

text \<open>One message of a socket, whichever it is, with the end of the handler where it ends.\<close>

definition socket_step :: "nat \<Rightarrow> incoming \<Rightarrow> rat \<Rightarrow> manager \<Rightarrow> manager" where
  "socket_step cid received now m =
     (case map_of (mg_sockets m) cid of
        None \<Rightarrow> m
      | Some so \<Rightarrow>
          (case (case so_node so of
                   None \<Rightarrow> first_message cid received now m
                 | Some n \<Rightarrow> agent_message cid n received now m) of
             (m', goes_on) \<Rightarrow> if goes_on then m' else close_socket cid m'))"

text \<open>The sending task takes the oldest message of the queue.\<close>

definition drain :: "nat \<Rightarrow> manager \<Rightarrow> (string, pyval) dict option \<times> manager" where
  "drain cid m =
     (case send_queue cid m of [] \<Rightarrow> (None, m) | reply # q \<Rightarrow> (Some reply, set_send_queue cid q m))"

end
