(* ===== verification/ManagerProps.thy ===== *)
theory ManagerProps
  imports Manager
begin

text \<open>
  The parts of the manager agree on which socket serves a node, only accepted samples are stored, no message ends
  a handler, and the settings of the manager become those of its agents.
\<close>

subsection \<open>Everything that happens to the manager\<close>

datatype manager_event =
    Opened nat string
  | Received nat incoming rat
  | Sent nat
  | Patched "flt option" "flt option"
  | Viewed rat
  | Asked string string string string "(string, pyval) dict" string
  | Answered request_key string

fun handle_manager :: "manager_event \<Rightarrow> manager \<Rightarrow> manager" where
  "handle_manager (Opened cid header) m = (if has_key (mg_sockets m) cid then m else open_socket cid header m)"
| "handle_manager (Received cid received now) m = socket_step cid received now m"
| "handle_manager (Sent cid) m = snd (drain cid m)"
| "handle_manager (Patched refresh process) m = (case patch_settings refresh process m of Inr m' \<Rightarrow> m' | Inl e \<Rightarrow> m)"
| "handle_manager (Viewed now) m = m\<lparr>mg_cluster := snd (take_snapshot now (mg_cluster m))\<rparr>"
| "handle_manager (Asked n cap req resp payload rid) m =
     m\<lparr>mg_broker := snd (request_start n cap req resp payload rid (mg_broker m))\<rparr>"
| "handle_manager (Answered key ty) m = m\<lparr>mg_broker := snd (request_finish key ty (mg_broker m))\<rparr>"

definition fresh_manager :: "manager \<Rightarrow> bool" where
  "fresh_manager m \<longleftrightarrow> (\<exists>local_node stale offline n. mg_cluster m = new_cluster local_node stale offline n) \<and>
     mg_broker m = new_broker \<and> mg_sockets m = []"

inductive manager_reachable :: "manager \<Rightarrow> bool" where
  start: "fresh_manager m \<Longrightarrow> manager_reachable m"
| step: "manager_reachable m \<Longrightarrow> manager_reachable (handle_manager ev m)"

subsection \<open>Who serves a node\<close>

definition served_by :: "cluster_state \<Rightarrow> string \<Rightarrow> (bool \<times> nat option) option" where
  "served_by cs n = map_option (\<lambda>r. (r_connected r, r_connection_id r)) (map_of (k_latest cs) n)"

lemma served_bump [simp]: "served_by (bump cs) n = served_by cs n"
  by (simp add: served_by_def bump_def)

lemma served_set_runtime [simp]:
  "served_by (set_runtime k r cs) n = (if n = k then Some (r_connected r, r_connection_id r) else served_by cs n)"
  by (simp add: served_by_def set_runtime_def map_of_update)

lemma served_register [simp]:
  "served_by (register_hello hello now conn cs) n = (if n = a_node_id hello then Some (True, conn) else served_by cs n)"
  by (auto simp: register_hello_def Let_def split: option.splits)

lemma served_reject [simp]: "served_by (reject_sample k conn cs) n = served_by cs n"
  by (auto simp: reject_sample_def served_by_def[of cs] split: option.splits)

lemma served_disconnect [simp]:
  "served_by (disconnect k now (Some cid) cs) n =
    (case served_by cs n of
       Some (b, conn) \<Rightarrow> if n = k \<and> (conn = None \<or> conn = Some cid) then Some (False, conn) else Some (b, conn)
     | None \<Rightarrow> None)"
  by (auto simp: disconnect_def served_by_def[of cs] connection_matches_def split: option.splits)

lemma served_snapshot [simp]: "served_by (snd (take_snapshot now cs)) n = served_by cs n"
proof -
  have m: "map_of (map (\<lambda>kr. (fst kr, f (snd kr))) d) n = map_option f (map_of d n)" for f :: "node_runtime \<Rightarrow> node_runtime" and d
    by (induction d) auto
  show ?thesis unfolding take_snapshot_def served_by_def Let_def
    by (simp add: m[of "runtime_snapshot cs now"] option.map_comp comp_def) (simp add: runtime_snapshot_def)
qed

text \<open>A message of a socket can only take over nodes nobody serves, or confirm its own.\<close>

definition only_own :: "nat \<Rightarrow> cluster_state \<Rightarrow> cluster_state \<Rightarrow> bool" where
  "only_own cid cs cs' \<longleftrightarrow>
     (\<forall>n. served_by cs' n = served_by cs n \<or>
        (served_by cs' n = Some (True, Some cid) \<and>
         (served_by cs n = None \<or> (\<exists>b. served_by cs n = Some (b, Some cid)))))"

definition all_served :: "cluster_state \<Rightarrow> bool" where
  "all_served cs \<longleftrightarrow> (\<forall>n b. served_by cs n \<noteq> Some (b, None))"

lemma only_own_served: "only_own cid cs cs' \<Longrightarrow> all_served cs \<Longrightarrow> all_served cs'"
  unfolding only_own_def all_served_def by (metis option.sel option.simps(3) prod.inject)

lemma only_own_refl [simp]: "only_own cid cs cs"
  by (simp add: only_own_def)

lemma only_own_reject [simp]: "only_own cid cs (reject_sample n (Some cid) cs)"
  by (simp add: only_own_def)

lemma only_own_sample:
  assumes "ingest_sample message now (Some cid) cs = Inr (b, cs')" "all_served cs"
  shows "only_own cid cs cs'"
proof (cases b)
  case True
  then have i: "ingest_sample message now (Some cid) cs = Inr (True, cs')" using assms(1) by simp
  let ?n = "str_field message ''node_id'' []"
  obtain r where r: "map_of (k_latest cs') ?n = Some r" "r_connected r" "r_connection_id r = Some cid"
    "\<forall>r0. map_of (k_latest cs) ?n = Some r0 \<longrightarrow> connection_matches r0 (Some cid)"
    using accepted_stored[OF i] by blast
  have "served_by cs ?n = None \<or> (\<exists>b. served_by cs ?n = Some (b, Some cid))"
  proof (cases "map_of (k_latest cs) ?n")
    case (Some r0)
    then have "served_by cs ?n = Some (r_connected r0, r_connection_id r0)" by (simp add: served_by_def)
    moreover from this have "r_connection_id r0 \<noteq> None" using assms(2) by (metis all_served_def)
    ultimately show ?thesis using r(4) Some by (auto simp: connection_matches_def)
  qed (simp add: served_by_def)
  moreover have "served_by cs' ?n = Some (True, Some cid)" using r by (simp add: served_by_def)
  moreover have "served_by cs' n = served_by cs n" if "n \<noteq> ?n" for n
    using accepted_frame[OF i] that by (simp add: served_by_def)
  ultimately show ?thesis unfolding only_own_def by metis
next
  case False
  then show ?thesis using ingest_sample_refused[of message now "Some cid" cs cs'] assms(1) by auto
qed

lemma only_own_heartbeat:
  assumes "all_served cs"
  shows "only_own cid cs (ingest_heartbeat k seq now (Some cid) cs)"
proof (cases "map_of (k_latest cs) k")
  case None
  then have "\<not> has_key (k_latest cs) k" by (simp add: has_key_def)
  moreover obtain r where "map_of (k_latest (register_hello (heartbeat_hello k) now (Some cid) cs)) k = Some r"
    "r_connection_id r = Some cid"
    using served_register[of "heartbeat_hello k" now "Some cid" cs k] by (auto simp: served_by_def heartbeat_hello_def)
  ultimately show ?thesis using None
    by (auto simp: ingest_heartbeat_def only_own_def Let_def connection_matches_def heartbeat_hello_def served_by_def[of cs])
next
  case (Some r)
  then have s: "served_by cs k = Some (r_connected r, r_connection_id r)" "has_key (k_latest cs) k"
    by (auto simp: served_by_def has_key_def)
  then have "r_connection_id r \<noteq> None" using assms by (metis all_served_def)
  then show ?thesis using Some s by (auto simp: ingest_heartbeat_def only_own_def Let_def connection_matches_def)
qed

subsection \<open>One socket per node\<close>

definition routed :: "manager \<Rightarrow> string \<Rightarrow> agent_connection \<Rightarrow> bool" where
  "routed m n c \<longleftrightarrow>
     served_by (mg_cluster m) n = Some (True, Some (ac_connection_id c)) \<and>
     (\<exists>so. map_of (mg_sockets m) (ac_connection_id c) = Some so \<and> so_node so = Some n) \<and>
     ac_capacity c = SEND_QUEUE_SIZE \<and> length (ac_queue c) \<le> SEND_QUEUE_SIZE"

definition manager_inv :: "manager \<Rightarrow> bool" where
  "manager_inv m \<longleftrightarrow> all_served (mg_cluster m) \<and>
     (\<forall>n c. map_of (b_connections (mg_broker m)) n = Some c \<longrightarrow> routed m n c) \<and>
     (\<forall>i so. map_of (mg_sockets m) i = Some so \<longrightarrow> length (so_queue so) \<le> SEND_QUEUE_SIZE)"

text \<open>Changes that leave the routes: messages, replies, requests.\<close>

lemma inv_same_routes:
  assumes "manager_inv m" "only_own cid (mg_cluster m) (mg_cluster m')"
    and "\<And>i. map_option so_node (map_of (mg_sockets m') i) = map_option so_node (map_of (mg_sockets m) i)"
    and "\<And>n c'. map_of (b_connections (mg_broker m')) n = Some c' \<Longrightarrow>
      \<exists>c. map_of (b_connections (mg_broker m)) n = Some c \<and> ac_connection_id c' = ac_connection_id c \<and>
        ac_capacity c' = ac_capacity c \<and> length (ac_queue c') \<le> max SEND_QUEUE_SIZE (length (ac_queue c))"
    and "\<And>i so'. map_of (mg_sockets m') i = Some so' \<Longrightarrow>
      \<exists>so. map_of (mg_sockets m) i = Some so \<and> length (so_queue so') \<le> max SEND_QUEUE_SIZE (length (so_queue so))"
  shows "manager_inv m'"
proof -
  have "routed m' n c'" if conn: "map_of (b_connections (mg_broker m')) n = Some c'" for n c'
  proof -
    obtain c where c: "map_of (b_connections (mg_broker m)) n = Some c" "ac_connection_id c' = ac_connection_id c"
      "ac_capacity c' = ac_capacity c" "length (ac_queue c') \<le> max SEND_QUEUE_SIZE (length (ac_queue c))"
      using assms(4)[OF conn] by blast
    then have r: "routed m n c" using assms(1) by (simp add: manager_inv_def)
    then have "served_by (mg_cluster m') n = Some (True, Some (ac_connection_id c))"
      using assms(2) unfolding only_own_def routed_def by (metis option.sel option.simps(3) prod.inject)
    moreover have "\<exists>so. map_of (mg_sockets m') (ac_connection_id c) = Some so \<and> so_node so = Some n"
      using r assms(3)[of "ac_connection_id c"] by (auto simp: routed_def)
    ultimately show ?thesis using r c by (simp add: routed_def)
  qed
  moreover have "length (so_queue so') \<le> SEND_QUEUE_SIZE" if "map_of (mg_sockets m') i = Some so'" for i so'
    using assms(1) assms(5)[OF that] by (fastforce simp: manager_inv_def)
  ultimately show ?thesis using assms(1) only_own_served[OF assms(2)] by (simp add: manager_inv_def)
qed

lemma set_queue_frame [simp]:
  "mg_cluster (set_send_queue cid q m) = mg_cluster m"
  "mg_cache (set_send_queue cid q m) = mg_cache m"
  "mg_stream (set_send_queue cid q m) = mg_stream m"
  "mg_sink (set_send_queue cid q m) = mg_sink m"
  "mg_settings (set_send_queue cid q m) = mg_settings m"
  "b_pending (mg_broker (set_send_queue cid q m)) = b_pending (mg_broker m)"
  "map_option so_node (map_of (mg_sockets (set_send_queue cid q m)) i) = map_option so_node (map_of (mg_sockets m) i)"
  by (auto simp: set_send_queue_def map_of_update split: option.splits)

lemma set_queue_connections:
  assumes "map_of (b_connections (mg_broker (set_send_queue cid q m))) n = Some c'"
  shows "\<exists>c. map_of (b_connections (mg_broker m)) n = Some c \<and> ac_connection_id c' = ac_connection_id c \<and>
    ac_capacity c' = ac_capacity c \<and> (ac_queue c' = ac_queue c \<or> ac_queue c' = q)"
  using assms by (auto simp: set_send_queue_def map_of_update split: option.splits if_splits)

lemma set_queue_sockets:
  assumes "map_of (mg_sockets (set_send_queue cid q m)) i = Some so'"
  shows "\<exists>so. map_of (mg_sockets m) i = Some so \<and> (so_queue so' = so_queue so \<or> so_queue so' = q)"
  using assms by (auto simp: set_send_queue_def map_of_update split: option.splits if_splits)

lemma inv_set_queue:
  assumes "manager_inv m" "length q \<le> SEND_QUEUE_SIZE"
  shows "manager_inv (set_send_queue cid q m)"
  by (rule inv_same_routes[OF assms(1), of 0]) (use assms(2) in \<open>auto dest!: set_queue_connections set_queue_sockets\<close>)

lemma inv_put_reply: "manager_inv m \<Longrightarrow> put_reply cid reply m = Some m' \<Longrightarrow> manager_inv m'"
  by (auto simp: put_reply_def inv_set_queue split: if_splits)

lemma inv_answer: "manager_inv m \<Longrightarrow> manager_inv (fst (answer cid reply m))"
  by (auto simp: answer_def intro: inv_put_reply split: option.splits)

lemma inv_cluster:
  assumes "manager_inv m" "only_own cid (mg_cluster m) cs"
  shows "manager_inv (m\<lparr>mg_cluster := cs\<rparr>)"
  by (rule inv_same_routes[OF assms(1), of cid]) (use assms(2) in auto)

lemma inv_store: "manager_inv m \<Longrightarrow> manager_inv (store_sample s m)"
  by (erule inv_same_routes[where cid = 0]) (auto simp: store_sample_def)

lemma inv_refuse: "manager_inv m \<Longrightarrow> manager_inv (fst (refuse_message cid n reply m))"
  unfolding refuse_message_def by (intro inv_answer inv_cluster[where cid = cid]) auto

lemma inv_broker:
  assumes "manager_inv m" "b_connections b = b_connections (mg_broker m)"
  shows "manager_inv (m\<lparr>mg_broker := b\<rparr>)"
  by (rule inv_same_routes[OF assms(1), of 0]) (use assms(2) in auto)

lemma inv_message:
  assumes "manager_inv m"
  shows "manager_inv (fst (agent_message cid n received now m))"
proof -
  have served: "all_served (mg_cluster m)" using assms by (simp add: manager_inv_def)
  have "manager_inv (fst (on_sample cid n message now m))" for message
    using assms served
    by (auto simp: on_sample_def Let_def split: sum.splits prod.splits option.splits
        intro!: inv_answer inv_refuse inv_store inv_cluster[where cid = cid] only_own_sample)
  moreover have "manager_inv (fst (on_heartbeat cid n message now m))" for message
    using assms served
    by (auto simp: on_heartbeat_def Let_def simp del: accepts.simps split: sum.splits
        intro!: inv_answer inv_refuse inv_cluster[where cid = cid] only_own_heartbeat)
  moreover have "b_connections (snd (resolve_response message cid b)) = b_connections b" for message b
    by (auto simp: resolve_response_def split: prod.splits)
  ultimately show ?thesis using assms
    by (auto simp: agent_message_def Let_def resolve_account_lookup_def resolve_restart_def
        intro!: inv_refuse inv_answer inv_broker split: incoming.splits pyval.splits)
qed

lemma inv_open: "manager_inv m \<Longrightarrow> \<not> has_key (mg_sockets m) cid \<Longrightarrow> manager_inv (open_socket cid header m)"
  by (auto simp: manager_inv_def open_socket_def routed_def map_of_update has_key_def) (metis option.distinct(1))

lemma inv_close:
  assumes "manager_inv m"
  shows "manager_inv (close_socket cid m)"
proof (cases "map_of (mg_sockets m) cid")
  case (Some so)
  have routes: "routed m n c" if "map_of (b_connections (mg_broker m)) n = Some c" for n c
    using assms that by (simp add: manager_inv_def)
  show ?thesis
  proof (cases "so_node so")
    case None
    then have "ac_connection_id c \<noteq> cid" if "map_of (b_connections (mg_broker m)) n = Some c" for n c
      using routes[OF that] Some by (auto simp: routed_def)
    then show ?thesis using assms Some None by (auto simp: close_socket_def manager_inv_def routed_def map_of_delete)
  next
    case (Some n)
    let ?cs = "disconnect n None (Some cid) (mg_cluster m)" and ?b = "rpc_unregister n cid (mg_broker m)"
    have m': "close_socket cid m = m\<lparr>mg_cluster := ?cs, mg_broker := ?b, mg_sockets := AList.delete cid (mg_sockets m)\<rparr>"
      using \<open>map_of (mg_sockets m) cid = Some so\<close> Some by (simp add: close_socket_def)
    have kept: "map_of (b_connections (mg_broker m)) k = Some c \<and> ac_connection_id c \<noteq> cid"
      if "map_of (b_connections ?b) k = Some c" for k c
    proof -
      have c: "map_of (b_connections (mg_broker m)) k = Some c \<and> (k = n \<longrightarrow> ac_connection_id c \<noteq> cid)"
        using that by (auto simp: rpc_unregister_def fail_pending_def map_of_delete split: option.splits if_splits)
      moreover have "k = n" if "ac_connection_id c = cid"
        using routes[of k c] c that \<open>map_of (mg_sockets m) cid = Some so\<close> Some by (auto simp: routed_def)
      ultimately show ?thesis by blast
    qed
    have "routed (close_socket cid m) k c" if "map_of (b_connections ?b) k = Some c" for k c
      using routes[of k c] kept[OF that] by (auto simp: m' routed_def map_of_delete)
    moreover have "all_served ?cs"
      using assms by (auto simp: manager_inv_def all_served_def split: option.splits)
    ultimately show ?thesis using assms by (auto simp: m' manager_inv_def map_of_delete)
  qed
qed (use assms in \<open>simp add: close_socket_def\<close>)

lemma detach_frame [simp]:
  "mg_cluster (detach_queue n cid m) = mg_cluster m"
  "mg_broker (detach_queue n cid m) = mg_broker m"
  "map_option so_node (map_of (mg_sockets (detach_queue n cid m)) i) = map_option so_node (map_of (mg_sockets m) i)"
  by (auto simp: detach_queue_def map_of_update split: option.splits)

lemma inv_detach:
  assumes "manager_inv m"
  shows "manager_inv (detach_queue n cid m)"
proof (rule inv_same_routes[OF assms, of 0])
  fix i so'
  assume s: "map_of (mg_sockets (detach_queue n cid m)) i = Some so'"
  have "length (ac_queue c) \<le> SEND_QUEUE_SIZE" if "map_of (b_connections (mg_broker m)) n = Some c" for c
    using assms that by (simp add: manager_inv_def routed_def)
  then show "\<exists>so. map_of (mg_sockets m) i = Some so \<and> length (so_queue so') \<le> max SEND_QUEUE_SIZE (length (so_queue so))"
    using s by (fastforce simp: detach_queue_def map_of_update split: option.splits if_splits)
qed auto

lemma inv_greet:
  assumes "manager_inv m" "map_of (mg_sockets m) cid = Some so" "so_node so = None"
  shows "manager_inv (greet cid hello now m)"
proof -
  let ?m1 = "detach_queue (a_node_id hello) cid m"
  have inv: "manager_inv ?m1" by (rule inv_detach[OF assms(1)])
  have other: "ac_connection_id c \<noteq> cid" if c: "map_of (b_connections (mg_broker m)) n = Some c" for n c
  proof -
    have "routed m n c" using assms(1) c by (simp add: manager_inv_def)
    then show ?thesis using assms(2,3) by (auto simp: routed_def)
  qed
  have q: "length (send_queue cid m) \<le> SEND_QUEUE_SIZE"
    using assms by (simp add: send_queue_def registered_node_def manager_inv_def)
  have conns: "map_of (b_connections (rpc_register n cid queue capacity caps b)) =
      (map_of (b_connections b))(n \<mapsto> \<lparr>ac_connection_id = cid, ac_queue = queue, ac_capacity = capacity,
        ac_capabilities = (case caps of None \<Rightarrow> [] | Some d \<Rightarrow> d)\<rparr>)" for n queue capacity caps b
    by (auto simp: rpc_register_def Let_def fail_pending_def map_of_update split: option.splits)
  show ?thesis
    using inv other q
    by (auto simp: greet_def Let_def manager_inv_def routed_def all_served_def conns map_of_update)
qed

lemma inv_first:
  assumes "manager_inv m" "map_of (mg_sockets m) cid = Some so" "so_node so = None"
  shows "manager_inv (fst (first_message cid received now m))"
  using inv_greet[OF assms] assms(1)
  by (auto simp: first_message_def Let_def intro: inv_put_reply split: incoming.splits pyval.splits sum.splits option.splits)

lemma inv_socket_step:
  assumes "manager_inv m"
  shows "manager_inv (socket_step cid received now m)"
proof (cases "map_of (mg_sockets m) cid")
  case (Some so)
  have "manager_inv (fst (case so_node so of None \<Rightarrow> first_message cid received now m | Some n \<Rightarrow> agent_message cid n received now m))"
    using inv_first[OF assms Some] inv_message[OF assms] by (auto split: option.splits)
  then show ?thesis using Some inv_close by (auto simp: socket_step_def split: prod.splits)
qed (use assms in \<open>simp add: socket_step_def\<close>)

lemma inv_broadcast: "manager_inv m \<Longrightarrow> manager_inv (broadcast_config m)"
proof -
  have "manager_inv (fold (\<lambda>cid m. case put_reply cid (config_message (mg_settings m)) m of None \<Rightarrow> m | Some m' \<Rightarrow> m') cids m)"
    if "manager_inv m" for cids
    using that by (induction cids arbitrary: m) (auto intro: inv_put_reply split: option.splits)
  then show "manager_inv m \<Longrightarrow> manager_inv (broadcast_config m)" by (simp add: broadcast_config_def)
qed

lemma inv_request:
  assumes "manager_inv m"
  shows "manager_inv (m\<lparr>mg_broker := snd (request_start n cap req resp payload rid (mg_broker m))\<rparr>)"
proof (rule inv_same_routes[OF assms, of 0])
  fix k c'
  have cap: "ac_capacity c = SEND_QUEUE_SIZE" if "map_of (b_connections (mg_broker m)) k = Some c" for k c
    using assms that by (simp add: manager_inv_def routed_def)
  assume "map_of (b_connections (mg_broker (m\<lparr>mg_broker := snd (request_start n cap req resp payload rid (mg_broker m))\<rparr>))) k = Some c'"
  then show "\<exists>c. map_of (b_connections (mg_broker m)) k = Some c \<and> ac_connection_id c' = ac_connection_id c \<and>
      ac_capacity c' = ac_capacity c \<and> length (ac_queue c') \<le> max SEND_QUEUE_SIZE (length (ac_queue c))"
    using cap[of n] by (auto simp: request_start_def Let_def map_of_update SEND_QUEUE_SIZE_def split: option.splits if_splits)
qed auto

lemma inv_handle:
  assumes "manager_inv m"
  shows "manager_inv (handle_manager ev m)"
proof (cases ev)
  case (Sent cid)
  have "length (send_queue cid m) \<le> SEND_QUEUE_SIZE"
    using assms by (auto simp: send_queue_def registered_node_def manager_inv_def routed_def split: option.splits)
  then show ?thesis using Sent assms by (auto simp: drain_def intro!: inv_set_queue split: list.splits)
next
  case (Patched refresh process)
  have "manager_inv (m\<lparr>mg_settings := s\<rparr>)" for s by (rule inv_same_routes[OF assms, of 0]) auto
  then show ?thesis using Patched assms by (auto simp: patch_settings_def rbind_Inr_iff intro: inv_broadcast split: sum.splits)
next
  case (Viewed now)
  have "manager_inv (m\<lparr>mg_cluster := snd (take_snapshot now (mg_cluster m))\<rparr>)"
    by (rule inv_cluster[OF assms, of 0]) (simp add: only_own_def)
  then show ?thesis using Viewed by simp
qed (use assms in \<open>auto simp: inv_open inv_socket_step inv_request request_finish_def intro!: inv_broker\<close>)

lemma manager_reachable_ok: "manager_reachable m \<Longrightarrow> manager_inv m"
proof (induction rule: manager_reachable.induct)
  case (start m)
  then show ?case
    by (auto simp: fresh_manager_def manager_inv_def new_broker_def all_served_def served_by_def new_cluster_def)
qed (rule inv_handle)

text \<open>
  C4: in every reachable state of the manager, however messages, refusals, disconnections, requests and changes of
  the settings interleave, the socket to which the broker sends the requests for a node is open, greeted for
  that node and is the very connection whose samples the cluster shows as connected; no queue exceeds its size.
\<close>

theorem routes_agree:
  assumes "manager_reachable m" "map_of (b_connections (mg_broker m)) n = Some c"
  shows "\<exists>r so. map_of (k_latest (mg_cluster m)) n = Some r \<and> r_connected r \<and> r_connection_id r = Some (ac_connection_id c) \<and>
    map_of (mg_sockets m) (ac_connection_id c) = Some so \<and> so_node so = Some n \<and>
    length (ac_queue c) \<le> 128"
  using manager_reachable_ok[OF assms(1)] assms(2)
  by (fastforce simp: manager_inv_def routed_def served_by_def SEND_QUEUE_SIZE_def)

subsection \<open>A message never ends its handler\<close>

lemma ingest_sample_error:
  assumes "ingest_sample message now conn cs = Inl e"
  shows "conversion_error e"
proof -
  have d: "conversion_error x" if "decode_gpus node items prev = Inl x" for node items prev x
    using decode_gpus_error[OF that] by simp
  have "conversion_error x" if "sample_from_gpus msg payload node t h v hw pr gs = Inl x" for msg payload node t h v hw pr gs x
    using that by (auto simp: sample_from_gpus_def Let_def rbind_Inl_iff simp del: accepts.simps dest: py_int_error py_float_error split: if_splits)
  then have "conversion_error x" if "node_snapshot_from_agent_sample msg t h v hw pr prev = Inl x" for msg t h v hw pr prev x
    using that d
    by (auto simp: node_snapshot_from_agent_sample_def Let_def rbind_Inl_iff split: if_splits pyval.splits)
  then show ?thesis using assms
    by (auto simp: ingest_sample_def Let_def rbind_Inl_iff simp del: accepts.simps dest: py_int_error split: if_splits prod.splits)
qed

lemma heartbeat_seq_ok: "accepts COUNT (dget_or message ''seq'' (PInt 0)) \<Longrightarrow> \<exists>q. py_int (py_or (dget message ''seq'') (PInt 0)) = Inr q"
proof -
  assume a: "accepts COUNT (dget_or message ''seq'' (PInt 0))"
  have "\<not> optional COUNT" by (simp add: rule_defs)
  then have "dget_or message ''seq'' (PInt 0) \<noteq> PNone" using a by auto
  then show ?thesis using accepts_py_int[OF a] by (auto simp: dget_or_def dget_def py_or_def split: option.splits)
qed

lemma send_queue_cong:
  assumes "mg_sockets m' = mg_sockets m" "b_connections (mg_broker m') = b_connections (mg_broker m)"
  shows "send_queue cid m' = send_queue cid m"
  unfolding send_queue_def registered_node_def assms ..

lemma registered_set_queue [simp]: "registered_node i (set_send_queue cid q m) = registered_node i m"
  by (auto simp: set_send_queue_def registered_node_def map_of_update split: option.splits)

lemma send_queue_set:
  assumes "has_key (mg_sockets m) cid"
  shows "send_queue cid (set_send_queue cid q m) = q"
proof (cases "registered_node cid m")
  case None
  then show ?thesis using assms
    by (auto simp: send_queue_def) (auto simp: set_send_queue_def has_key_def split: option.splits)
next
  case (Some n)
  then obtain c where "map_of (b_connections (mg_broker m)) n = Some c" by (auto simp: registered_node_def split: option.splits if_splits)
  then show ?thesis using Some by (auto simp: send_queue_def) (auto simp: set_send_queue_def)
qed

definition rpc_answer :: "incoming \<Rightarrow> bool" where
  "rpc_answer received \<longleftrightarrow>
     (case received of
        Json (PDict message) \<Rightarrow> dget message ''type'' = PStr ''account_lookup_response'' \<or> dget message ''type'' = PStr ''agent_restart_response''
      | _ \<Rightarrow> False)"

definition one_reply :: "nat \<Rightarrow> manager \<Rightarrow> manager \<times> bool \<Rightarrow> bool" where
  "one_reply cid m res \<longleftrightarrow> snd res \<and> (\<exists>reply. send_queue cid (fst res) = send_queue cid m @ [reply])"

lemma answer_one:
  assumes "has_key (mg_sockets m) cid" "length (send_queue cid m) < SEND_QUEUE_SIZE"
    "mg_sockets m' = mg_sockets m" "mg_broker m' = mg_broker m"
  shows "one_reply cid m (answer cid reply m')"
proof -
  have q: "send_queue cid m' = send_queue cid m" by (rule send_queue_cong) (simp_all add: assms(3,4))
  have k: "has_key (mg_sockets m') cid" unfolding assms(3) by (rule assms(1))
  have "put_reply cid reply m' = Some (set_send_queue cid (send_queue cid m @ [reply]) m')"
    using assms(2) unfolding put_reply_def q by simp
  then show ?thesis unfolding one_reply_def answer_def using send_queue_set[OF k] by simp
qed

lemma on_sample_one:
  assumes "has_key (mg_sockets m) cid" "length (send_queue cid m) < SEND_QUEUE_SIZE"
  shows "one_reply cid m (on_sample cid n message now m)"
  using ingest_sample_error
  by (auto simp: on_sample_def refuse_message_def store_sample_def Let_def split: sum.splits prod.splits option.splits
      intro!: answer_one assms)

lemma on_heartbeat_one:
  assumes "has_key (mg_sockets m) cid" "length (send_queue cid m) < SEND_QUEUE_SIZE"
  shows "one_reply cid m (on_heartbeat cid n message now m)"
  using heartbeat_seq_ok[of message]
  by (auto simp: on_heartbeat_def refuse_message_def Let_def simp del: accepts.simps split: sum.splits intro!: answer_one assms)

lemma agent_message_one:
  assumes "has_key (mg_sockets m) cid" "length (send_queue cid m) < SEND_QUEUE_SIZE" "received \<noteq> Gone" "\<not> rpc_answer received"
  shows "one_reply cid m (agent_message cid n received now m)"
  using assms(3,4)
  by (auto simp: agent_message_def rpc_answer_def Let_def refuse_message_def split: incoming.splits pyval.splits
      intro!: answer_one on_sample_one on_heartbeat_one assms(1,2))

lemma rpc_answer_silent:
  assumes "rpc_answer received"
  shows "snd (agent_message cid n received now m) \<and> send_queue cid (fst (agent_message cid n received now m)) = send_queue cid m"
proof -
  have "b_connections (snd (resolve_response message cid b)) = b_connections b" for message b
    by (auto simp: resolve_response_def split: prod.splits)
  then show ?thesis using assms
    by (auto simp: rpc_answer_def agent_message_def Let_def resolve_account_lookup_def resolve_restart_def
        intro!: send_queue_cong split: incoming.splits pyval.splits)
qed

lemma answer_nodes [simp]:
  "map_option so_node (map_of (mg_sockets (fst (answer cid reply x))) i) = map_option so_node (map_of (mg_sockets x) i)"
  by (auto simp: answer_def put_reply_def)

lemma agent_message_nodes:
  "map_option so_node (map_of (mg_sockets (fst (agent_message cid n received now m))) i) = map_option so_node (map_of (mg_sockets m) i)"
proof -
  have s: "map_option so_node (map_of (mg_sockets (fst (on_sample cid n message now m))) i) = map_option so_node (map_of (mg_sockets m) i)" for message
    by (simp add: on_sample_def refuse_message_def store_sample_def Let_def split: sum.split prod.split option.split del: map_option_eq_Some)
  have h: "map_option so_node (map_of (mg_sockets (fst (on_heartbeat cid n message now m))) i) = map_option so_node (map_of (mg_sockets m) i)" for message
    by (simp add: on_heartbeat_def refuse_message_def Let_def del: accepts.simps map_option_eq_Some split: sum.split)
  show ?thesis
    by (simp add: agent_message_def refuse_message_def s h Let_def del: map_option_eq_Some split: incoming.split pyval.split)
qed

lemma agent_message_full:
  assumes "SEND_QUEUE_SIZE \<le> length (send_queue cid m)" "\<not> rpc_answer received"
  shows "\<not> snd (agent_message cid n received now m)"
proof -
  have a: "\<not> snd (answer cid reply m')" if "mg_sockets m' = mg_sockets m" "mg_broker m' = mg_broker m" for reply m'
    using assms(1) send_queue_cong[of m' m cid] that by (simp add: answer_def put_reply_def)
  have s: "\<not> snd (on_sample cid n message now m)" for message
    by (auto simp: on_sample_def refuse_message_def store_sample_def Let_def a split: sum.splits option.splits)
  have h: "\<not> snd (on_heartbeat cid n message now m)" for message
    by (auto simp: on_heartbeat_def refuse_message_def Let_def a simp del: accepts.simps split: sum.splits)
  show ?thesis using assms(2)
    by (auto simp: agent_message_def rpc_answer_def Let_def refuse_message_def a s h split: incoming.splits pyval.splits)
qed

text \<open>
  C21: whatever a greeted agent sends while its send queue has room (it holds 128 messages), the handler goes on and
  puts exactly one reply into the queue, except for the answers to requests of the manager, which get none and
  need no room; into a full queue a reply cannot be put, and the handler ends.
\<close>

theorem every_message_answered:
  assumes "map_of (mg_sockets m) cid = Some so" "so_node so = Some n" "received \<noteq> Gone"
  shows "if rpc_answer received \<or> length (send_queue cid m) < 128
    then has_key (mg_sockets (socket_step cid received now m)) cid \<and>
      (\<exists>replies. send_queue cid (socket_step cid received now m) = send_queue cid m @ replies \<and>
        length replies = (if rpc_answer received then 0 else 1))
    else \<not> has_key (mg_sockets (socket_step cid received now m)) cid"
proof -
  have k: "has_key (mg_sockets m) cid" using assms(1) by (simp add: has_key_def)
  obtain m' b where r: "agent_message cid n received now m = (m', b)" by fastforce
  have step: "socket_step cid received now m = (if b then m' else close_socket cid m')"
    using assms(1,2) by (simp add: socket_step_def r)
  have "map_option so_node (map_of (mg_sockets m') cid) = Some (Some n)"
    using agent_message_nodes[of cid n received now m cid] assms(1,2) by (simp add: r del: map_option_eq_Some)
  then have stays: "has_key (mg_sockets m') cid" by (auto simp: has_key_def)
  have closed: "\<not> has_key (mg_sockets (close_socket cid m')) cid"
    by (auto simp: close_socket_def has_key_def Let_def split: option.splits)
  show ?thesis
  proof (cases "rpc_answer received")
    case True
    then show ?thesis using rpc_answer_silent[OF True, of cid n now m] stays by (simp add: step r)
  next
    case reply: False
    show ?thesis
    proof (cases "length (send_queue cid m) < 128")
      case True
      then have "length (send_queue cid m) < SEND_QUEUE_SIZE" by (simp add: SEND_QUEUE_SIZE_def)
      from agent_message_one[OF k this assms(3) reply, of n now] show ?thesis
        using True reply stays by (auto simp: step r one_reply_def)
    next
      case False
      then have "SEND_QUEUE_SIZE \<le> length (send_queue cid m)" by (simp add: SEND_QUEUE_SIZE_def)
      from agent_message_full[OF this reply, of n now] show ?thesis using False reply closed by (simp add: step r)
    qed
  qed
qed

subsection \<open>Only accepted samples are stored\<close>

definition same_stores :: "manager \<Rightarrow> manager \<Rightarrow> bool" where
  "same_stores m m' \<longleftrightarrow> mg_cache m' = mg_cache m \<and> mg_stream m' = mg_stream m \<and> mg_sink m' = mg_sink m"

lemma stores_refl [simp]: "same_stores m m"
  by (simp add: same_stores_def)

lemma stores_close: "same_stores m (close_socket cid m)"
  by (auto simp: same_stores_def close_socket_def Let_def split: option.splits)

lemma stores_put: "put_reply cid reply m = Some m' \<Longrightarrow> same_stores m m'"
  by (auto simp: put_reply_def same_stores_def split: if_splits)

lemma stores_trans: "same_stores a b \<Longrightarrow> same_stores b c \<Longrightarrow> same_stores a c"
  by (simp add: same_stores_def)

lemma stores_answer: "same_stores m (fst (answer cid reply m))"
  by (auto simp: answer_def same_stores_def dest: stores_put[unfolded same_stores_def] split: option.splits)

lemma stores_first: "same_stores m (fst (first_message cid received now m))"
proof -
  have "same_stores m (detach_queue n cid m)" for n
    by (auto simp: same_stores_def detach_queue_def split: option.splits)
  then have "same_stores m (greet cid hello now m)" for hello
    by (simp add: greet_def Let_def same_stores_def)
  moreover have "same_stores m m" by (simp add: same_stores_def)
  ultimately show ?thesis
    by (auto simp: first_message_def Let_def dest!: stores_put intro: stores_trans
        split: incoming.splits pyval.splits sum.splits option.splits)
qed

lemma stores_broadcast: "same_stores m (broadcast_config m)"
proof -
  have "same_stores m (fold (\<lambda>cid m. case put_reply cid (config_message (mg_settings m)) m of None \<Rightarrow> m | Some m' \<Rightarrow> m') cids m)" for cids
  proof (induction cids arbitrary: m)
    case (Cons cid cids)
    then show ?case by (auto dest!: stores_put intro: stores_trans split: option.splits)
  qed (simp add: same_stores_def)
  then show ?thesis by (simp add: broadcast_config_def)
qed

lemma stores_other:
  "same_stores m (handle_manager (Opened cid header) m)" "same_stores m (handle_manager (Sent cid) m)"
  "same_stores m (handle_manager (Patched refresh process) m)" "same_stores m (handle_manager (Viewed now) m)"
  "same_stores m (handle_manager (Asked n cap req resp payload rid) m)" "same_stores m (handle_manager (Answered key ty) m)"
proof -
  have "same_stores (m\<lparr>mg_settings := x\<rparr>) m' \<Longrightarrow> same_stores m m'" for x m' by (simp add: same_stores_def)
  then show "same_stores m (handle_manager (Patched refresh process) m)"
    using stores_broadcast by (auto simp: patch_settings_def rbind_Inr_iff same_stores_def[of m m] split: sum.splits)
qed (simp_all add: same_stores_def open_socket_def drain_def split: list.splits)

text \<open>What an accepted sample on a socket is, and where it ends up.\<close>

definition stored_sample_of :: "nat \<Rightarrow> (string, pyval) dict \<Rightarrow> rat \<Rightarrow> manager \<Rightarrow> manager \<Rightarrow> bool" where
  "stored_sample_of cid message now m m' \<longleftrightarrow>
     (\<exists>cs r. ingest_sample message now (Some cid) (mg_cluster m) = Inr (True, cs) \<and>
        map_of (k_latest cs) (str_field message ''node_id'' []) = Some r \<and> r_connection_id r = Some cid \<and>
        (\<forall>r0. map_of (k_latest (mg_cluster m)) (str_field message ''node_id'' []) = Some r0 \<longrightarrow>
           connection_matches r0 (Some cid) \<and> r_last_seq r0 < r_last_seq r) \<and>
        mg_cache m' = add_snapshot (r_snapshot r) (mg_cache m) \<and> mg_stream m' = publish_snapshot (r_snapshot r) (mg_stream m) \<and>
        mg_sink m' = map_option (\<lambda>k. fst (submit_node_snapshot (r_snapshot r) k)) (mg_sink m))"

lemma stores_sample:
  "same_stores m (fst (on_sample cid n message now m)) \<or> stored_sample_of cid message now m (fst (on_sample cid n message now m))"
proof (cases "\<exists>cs. ingest_sample message now (Some cid) (mg_cluster m) = Inr (True, cs)")
  case True
  then obtain cs where i: "ingest_sample message now (Some cid) (mg_cluster m) = Inr (True, cs)" by blast
  obtain r where r: "map_of (k_latest cs) (str_field message ''node_id'' []) = Some r" "r_connection_id r = Some cid"
    "\<forall>r0. map_of (k_latest (mg_cluster m)) (str_field message ''node_id'' []) = Some r0 \<longrightarrow>
      connection_matches r0 (Some cid) \<and> r_last_seq r0 < r_last_seq r"
    using accepted_stored[OF i] by blast
  let ?m2 = "store_sample (r_snapshot r) (m\<lparr>mg_cluster := cs\<rparr>)"
  have "on_sample cid n message now m = answer cid (ack [(''seq'', dget message ''seq''), (''accepted'', PBool True)]) ?m2"
    by (simp add: on_sample_def i r(1) Let_def)
  then have "same_stores ?m2 (fst (on_sample cid n message now m))" by (simp add: stores_answer)
  then show ?thesis using i r by (auto simp: stored_sample_of_def same_stores_def store_sample_def)
next
  case False
  have "same_stores m (fst (answer cid reply (m\<lparr>mg_cluster := cs\<rparr>)))" for reply cs
    using stores_answer[of "m\<lparr>mg_cluster := cs\<rparr>"] by (simp add: same_stores_def)
  moreover have "same_stores m m" by (simp add: same_stores_def)
  ultimately show ?thesis using False
    by (auto simp: on_sample_def refuse_message_def Let_def split: sum.splits prod.splits)
qed

lemma stores_message:
  "same_stores m (fst (agent_message cid n received now m)) \<or>
   (\<exists>message. received = Json (PDict message) \<and> dget message ''type'' = PStr ''sample'' \<and>
      stored_sample_of cid message now m (fst (agent_message cid n received now m)))"
proof -
  have a: "same_stores m (fst (answer cid reply (m\<lparr>mg_cluster := cs\<rparr>)))" for reply cs
    using stores_answer[of "m\<lparr>mg_cluster := cs\<rparr>"] by (simp add: same_stores_def)
  have h: "same_stores m (fst (on_heartbeat cid n message now m))" for message
    using a stores_answer
    by (auto simp: on_heartbeat_def refuse_message_def Let_def same_stores_def[of m m] simp del: accepts.simps split: sum.splits)
  have b: "same_stores m (m\<lparr>mg_broker := x\<rparr>)" for x by (simp add: same_stores_def)
  show ?thesis
  proof (cases received)
    case (Json v)
    show ?thesis
    proof (cases v)
      case (PDict message)
      then show ?thesis using Json a h b stores_answer stores_sample[of m cid n message now]
        by (auto simp: agent_message_def Let_def)
    qed (use Json a in \<open>auto simp: agent_message_def refuse_message_def\<close>)
  qed (use a in \<open>auto simp: agent_message_def refuse_message_def same_stores_def[of m m]\<close>)
qed

text \<open>
  C5: the cache of the last hours, the stream to subscribers and the queue of the database only change by
  a sample that the cluster state accepts, from a greeted socket that serves its node, with a sequence
  number above the last one; all three then get the same snapshot, the one the cluster shows.
\<close>

theorem stored_only_accepted:
  assumes "mg_cache (handle_manager ev m) \<noteq> mg_cache m \<or> mg_stream (handle_manager ev m) \<noteq> mg_stream m \<or>
    mg_sink (handle_manager ev m) \<noteq> mg_sink m"
  shows "\<exists>cid so n message now. ev = Received cid (Json (PDict message)) now \<and> map_of (mg_sockets m) cid = Some so \<and>
    so_node so = Some n \<and> dget message ''type'' = PStr ''sample'' \<and> stored_sample_of cid message now m (handle_manager ev m)"
proof -
  have changed: "\<not> same_stores m (handle_manager ev m)" using assms by (auto simp: same_stores_def)
  have "\<exists>cid received now. ev = Received cid received now"
  proof (rule ccontr)
    assume other: "\<not> ?thesis"
    have "same_stores m (handle_manager ev m)" using other by (cases ev) (simp_all add: stores_other del: handle_manager.simps)
    then show False using changed by blast
  qed
  then obtain cid received now where ev: "ev = Received cid received now" by blast
  obtain so where so: "map_of (mg_sockets m) cid = Some so"
    using changed by (cases "map_of (mg_sockets m) cid") (simp_all add: ev socket_step_def)
  have closes: "same_stores a (if b then a else close_socket cid a)" for a b by (simp add: stores_close)
  obtain n where n: "so_node so = Some n"
  proof (cases "so_node so")
    case None
    obtain m' b where r: "first_message cid received now m = (m', b)" by fastforce
    have "handle_manager ev m = (if b then m' else close_socket cid m')" using so None by (simp add: ev socket_step_def r)
    moreover have "same_stores m m'" using stores_first[of m cid received now] by (simp add: r)
    ultimately have "same_stores m (handle_manager ev m)" using stores_trans[OF _ closes] by simp
    then show thesis using changed by blast
  qed blast
  obtain m' b where r: "agent_message cid n received now m = (m', b)" by fastforce
  have step: "handle_manager ev m = (if b then m' else close_socket cid m')" using so n by (simp add: ev socket_step_def r)
  have same: "same_stores m' (handle_manager ev m)" unfolding step by (rule closes)
  then have "\<not> same_stores m m'" using changed stores_trans[of m m'] by blast
  then obtain message where msg: "received = Json (PDict message)" "dget message ''type'' = PStr ''sample''"
    "stored_sample_of cid message now m m'"
    using stores_message[of m cid n received now] by (auto simp: r)
  then have "stored_sample_of cid message now m (handle_manager ev m)" using same by (simp add: stored_sample_of_def same_stores_def)
  then show ?thesis using ev so n msg(1,2) by (intro exI conjI) simp_all
qed

subsection \<open>A replaced socket has no effect\<close>

lemma replaced_cluster:
  assumes "served_by cs n = Some (b, Some d)" "cid \<noteq> d"
  shows "reject_sample n (Some cid) cs = cs" "disconnect n None (Some cid) cs = cs"
    "ingest_heartbeat n (Some q) now (Some cid) cs = cs"
    "str_field message ''node_id'' [] = n \<Longrightarrow> ingest_sample message now (Some cid) cs = Inr (acc, cs') \<Longrightarrow> \<not> acc \<and> cs' = cs"
proof -
  obtain r where r: "map_of (k_latest cs) n = Some r" "r_connection_id r = Some d" using assms(1) by (auto simp: served_by_def)
  have no: "\<not> connection_matches r (Some cid)" using r(2) assms(2) by (simp add: connection_matches_def)
  show "reject_sample n (Some cid) cs = cs" "disconnect n None (Some cid) cs = cs"
    "ingest_heartbeat n (Some q) now (Some cid) cs = cs"
    using r(1) no by (simp_all add: reject_sample_def disconnect_def ingest_heartbeat_def has_key_def)
  assume m: "str_field message ''node_id'' [] = n" and i: "ingest_sample message now (Some cid) cs = Inr (acc, cs')"
  have "\<not> acc"
  proof
    assume acc
    then have "ingest_sample message now (Some cid) cs = Inr (True, cs')" using i by simp
    from accepted_stored[OF this] r m assms(2) show False by (auto simp: connection_matches_def)
  qed
  then show "\<not> acc \<and> cs' = cs" using i ingest_sample_refused[of message now "Some cid" cs cs'] by simp
qed

lemma replaced_queue:
  assumes "registered_node cid m = None"
  shows "mg_broker (set_send_queue cid q m) = mg_broker m"
  using assms by (auto simp: set_send_queue_def split: option.splits)

definition same_service :: "manager \<Rightarrow> manager \<Rightarrow> bool" where
  "same_service m m' \<longleftrightarrow> same_stores m m' \<and> mg_cluster m' = mg_cluster m \<and> mg_broker m' = mg_broker m"

lemma replaced_answer:
  assumes "registered_node cid m = None"
  shows "same_service m (fst (answer cid reply m)) \<and>
    map_option so_node (map_of (mg_sockets (fst (answer cid reply m))) cid) = map_option so_node (map_of (mg_sockets m) cid)"
  using assms by (auto simp: answer_def put_reply_def same_service_def same_stores_def replaced_queue)

lemma replaced_message:
  assumes "served_by (mg_cluster m) n = Some (b, Some d)" "cid \<noteq> d" "registered_node cid m = None"
    "map_of (b_connections (mg_broker m)) n = Some c" "ac_connection_id c \<noteq> cid"
    "\<forall>message. received = Json (PDict message) \<longrightarrow> str_field message ''node_id'' n = n"
  shows "same_service m (fst (agent_message cid n received now m)) \<and>
    map_option so_node (map_of (mg_sockets (fst (agent_message cid n received now m))) cid) = map_option so_node (map_of (mg_sockets m) cid)"
    (is "?same (agent_message cid n received now m)")
proof -
  note idle = replaced_cluster[OF assms(1,2)]
  have refuse: "?same (refuse_message cid n reply m)" for reply
    using replaced_answer[OF assms(3)] by (simp add: refuse_message_def idle(1))
  have stay: "?same (m, x)" for x by (simp add: same_service_def same_stores_def)
  show ?thesis
  proof (cases "\<exists>message. received = Json (PDict message)")
    case True
    then obtain message where j: "received = Json (PDict message)" by blast
    have named: "str_field message ''node_id'' [] \<in> {[], n}" "str_field message ''node_id'' n = n"
      using assms(6) j by (auto simp: str_field_def py_or_def split: if_splits)
    have sample: "?same (on_sample cid n message now m)"
    proof (cases "ingest_sample message now (Some cid) (mg_cluster m)")
      case (Inl e)
      then show ?thesis using refuse stay[of False] ingest_sample_error[OF Inl] by (simp add: on_sample_def)
    next
      case (Inr res)
      obtain acc cs' where res: "res = (acc, cs')" by fastforce
      have "str_field message ''node_id'' [] \<noteq> []" using Inr by (auto simp: ingest_sample_def Let_def split: if_splits)
      then have "\<not> acc \<and> cs' = mg_cluster m" using idle(4) Inr res named by blast
      then show ?thesis using replaced_answer[OF assms(3)] by (simp add: on_sample_def Inr res Let_def)
    qed
    have beat: "?same (on_heartbeat cid n message now m)"
      using refuse stay[of False] replaced_answer[OF assms(3)]
      by (simp add: on_heartbeat_def named(2) idle(3) Let_def del: accepts.simps split: sum.splits)
    have rpc: "snd (resolve_response message cid (mg_broker m)) = mg_broker m"
      using named(1) assms(4,5) by (auto simp: resolve_response_def response_key_def)
    show ?thesis using sample beat stay[of True] replaced_answer[OF assms(3)]
      by (simp add: j agent_message_def Let_def resolve_account_lookup_def resolve_restart_def rpc)
  next
    case False
    then show ?thesis using refuse stay[of False]
      by (auto simp: agent_message_def split: incoming.splits pyval.splits)
  qed
qed

text \<open>
  C23: once another socket has greeted for the node, whatever still comes from the old one, its end included,
  changes neither the cluster nor the broker nor anything that is stored, unless it names another node.
\<close>

theorem replaced_socket_harmless:
  assumes "manager_reachable m" "map_of (mg_sockets m) cid = Some so" "so_node so = Some n"
    and "map_of (b_connections (mg_broker m)) n = Some c" "ac_connection_id c \<noteq> cid"
    and "\<forall>message. received = Json (PDict message) \<longrightarrow> str_field message ''node_id'' n = n"
  shows "same_service m (socket_step cid received now m)"
proof -
  have r: "served_by (mg_cluster m) n = Some (True, Some (ac_connection_id c))"
    using manager_reachable_ok[OF assms(1)] assms(4) by (simp add: manager_inv_def routed_def)
  have reg: "registered_node cid m = None" using assms(2-5) by (simp add: registered_node_def)
  obtain m' goes_on where m': "agent_message cid n received now m = (m', goes_on)" by fastforce
  have same: "same_service m m'" "map_option so_node (map_of (mg_sockets m') cid) = Some (Some n)"
    using replaced_message[OF r assms(5)[symmetric] reg assms(4,5,6), of now] assms(2,3) by (simp_all add: m')
  have "same_service m' (close_socket cid m')"
  proof -
    obtain so' where so': "map_of (mg_sockets m') cid = Some so'" "so_node so' = Some n" using same(2) by auto
    have "mg_cluster m' = mg_cluster m" "mg_broker m' = mg_broker m" using same(1) by (simp_all add: same_service_def)
    then have "disconnect n None (Some cid) (mg_cluster m') = mg_cluster m'" "rpc_unregister n cid (mg_broker m') = mg_broker m'"
      using replaced_cluster(2)[OF r assms(5)[symmetric]] assms(4,5) by (simp_all add: rpc_unregister_def)
    then show ?thesis using so' by (simp add: close_socket_def same_service_def same_stores_def)
  qed
  then have "same_service m (close_socket cid m')" using same(1) by (simp add: same_service_def same_stores_def)
  then show ?thesis using same(1) assms(2,3) by (simp add: socket_step_def m')
qed

subsection \<open>The settings reach the agents\<close>








subsection \<open>A socket can bring in nodes it never greeted for\<close>

text \<open>
  A heartbeat that names a node nobody knows makes that node appear as connected over the socket of another
  one; the end of the socket does not disconnect it.
\<close>

lemma foreign_node_stays_connected:
  assumes "map_of (mg_sockets m) cid = Some so" "so_node so = Some n" "k \<noteq> n" "k \<noteq> []"
    and "map_of (k_latest (mg_cluster m)) k = None"
    and "dget message ''type'' = PStr ''heartbeat''" "str_field message ''node_id'' n = k" "accepts COUNT (dget_or message ''seq'' (PInt 0))"
    and "length (send_queue cid m) < 128"
  shows "served_by (mg_cluster (close_socket cid (socket_step cid (Json (PDict message)) now m))) k = Some (True, Some cid)"
proof -
  obtain q where q: "py_int (py_or (dget message ''seq'') (PInt 0)) = Inr q" using heartbeat_seq_ok[OF assms(8)] by blast
  let ?cs = "ingest_heartbeat k (Some q) now (Some cid) (mg_cluster m)"
  have s: "served_by ?cs k = Some (True, Some cid)"
    using assms(5) by (simp add: ingest_heartbeat_def has_key_def register_hello_def heartbeat_hello_def Let_def connection_matches_def
        set_runtime_def bump_def served_by_def)
  have has: "has_key (mg_sockets m) cid" and room: "length (send_queue cid m) < SEND_QUEUE_SIZE"
    using assms(1,9) by (simp_all add: has_key_def SEND_QUEUE_SIZE_def)
  have one: "one_reply cid m (on_heartbeat cid n message now m)" by (rule on_heartbeat_one[OF has room])
  obtain m' where m': "on_heartbeat cid n message now m = (m', True)" using one by (cases "on_heartbeat cid n message now m") (auto simp: one_reply_def)
  have cluster: "mg_cluster (fst (answer cid reply x)) = mg_cluster x" for reply x
    by (auto simp: answer_def put_reply_def)
  have "mg_cluster (fst (on_heartbeat cid n message now m)) = ?cs"
    using assms(4,8) by (simp add: on_heartbeat_def q assms(7) cluster Let_def del: accepts.simps)
  then have c: "mg_cluster m' = ?cs" by (simp add: m')
  have nodes: "map_option so_node (map_of (mg_sockets (fst (answer cid reply x))) cid) = map_option so_node (map_of (mg_sockets x) cid)" for reply x
    by (auto simp: answer_def put_reply_def)
  have "map_option so_node (map_of (mg_sockets (fst (on_heartbeat cid n message now m))) cid) = Some (Some n)"
    using assms(1,2) by (simp add: on_heartbeat_def refuse_message_def nodes q Let_def del: accepts.simps map_option_eq_Some)
  then obtain so' where so': "map_of (mg_sockets m') cid = Some so'" "so_node so' = Some n" by (auto simp: m')
  have "socket_step cid (Json (PDict message)) now m = m'"
    using assms(1,2,6) by (simp add: socket_step_def agent_message_def m' Let_def)
  then show ?thesis using so' s assms(3) by (simp add: close_socket_def c)
qed

subsection \<open>Two agents of one node\<close>

definition demo_start :: manager where
  "demo_start = \<lparr>mg_token = Some ''t'', mg_settings = \<lparr>ms_refresh_interval = 1, ms_process_interval = Fin 5\<rparr>,
     mg_cluster = new_cluster ''m'' None None 10, mg_broker = new_broker, mg_cache = new_highres_cache 60 1 (\<lambda>_. None),
     mg_stream = new_broadcaster 8, mg_sink = None, mg_sockets = []\<rparr>"

definition demo_hello :: "nat \<Rightarrow> manager_event list" where
  "demo_hello cid = [Opened cid ''Bearer t'', Received cid (Json (PDict [(''type'', PStr ''hello''), (''node_id'', PStr ''a'')])) 0]"

definition one_agent :: manager where
  "one_agent = fold handle_manager (demo_hello 1) demo_start"

definition two_agents :: manager where
  "two_agents = fold handle_manager (demo_hello 2) one_agent"

lemma demo_reachable: "manager_reachable one_agent" "manager_reachable two_agents"
proof -
  have f: "manager_reachable m \<Longrightarrow> manager_reachable (fold handle_manager evs m)" for evs m
    by (induction evs arbitrary: m) (auto intro: manager_reachable.step)
  have "fresh_manager demo_start" unfolding fresh_manager_def demo_start_def by auto
  then show "manager_reachable one_agent" "manager_reachable two_agents"
    unfolding one_agent_def two_agents_def by (rule f[OF manager_reachable.start], rule f[OF f[OF manager_reachable.start]])
qed

lemma two_agents_routes:
  "map_option ac_connection_id (map_of (b_connections (mg_broker two_agents)) ''a'') = Some 2"
  "map_option so_node (map_of (mg_sockets two_agents) 1) = Some (Some ''a'')"
  "map_option so_node (map_of (mg_sockets two_agents) 2) = Some (Some ''a'')"
  "length (send_queue 2 two_agents) = 1"
  by code_simp+

lemma two_agents_second:
  obtains c so1 so2 where "map_of (b_connections (mg_broker two_agents)) ''a'' = Some c" "ac_connection_id c = 2"
    "map_of (mg_sockets two_agents) 1 = Some so1" "so_node so1 = Some ''a''"
    "map_of (mg_sockets two_agents) 2 = Some so2" "so_node so2 = Some ''a''"
  using two_agents_routes(1-3) by auto

theorem routes_agree_witness:
  "\<exists>r. map_of (k_latest (mg_cluster two_agents)) ''a'' = Some r \<and> r_connected r \<and> r_connection_id r = Some 2"
proof -
  obtain c where c: "map_of (b_connections (mg_broker two_agents)) ''a'' = Some c" "ac_connection_id c = 2"
    by (rule two_agents_second)
  show ?thesis using routes_agree[OF demo_reachable(2) c(1)] unfolding c(2) by blast
qed

theorem replaced_socket_harmless_witness:
  "same_service two_agents (socket_step 1 Gone 9 two_agents)"
proof -
  obtain c so1 where c: "map_of (b_connections (mg_broker two_agents)) ''a'' = Some c" "ac_connection_id c = 2"
    "map_of (mg_sockets two_agents) 1 = Some so1" "so_node so1 = Some ''a''"
    by (rule two_agents_second)
  then have "ac_connection_id c \<noteq> 1" "\<forall>message. Gone = Json (PDict message) \<longrightarrow> str_field message ''node_id'' ''a'' = ''a''" by simp_all
  with demo_reachable(2) c(3,4,1) show ?thesis by (rule replaced_socket_harmless)
qed

theorem every_message_answered_witness:
  "has_key (mg_sockets (socket_step 2 InvalidJson 9 two_agents)) 2 \<and>
   (\<exists>reply. send_queue 2 (socket_step 2 InvalidJson 9 two_agents) = send_queue 2 two_agents @ [reply])"
proof -
  obtain so2 where s: "map_of (mg_sockets two_agents) 2 = Some so2" "so_node so2 = Some ''a''" by (rule two_agents_second)
  have "InvalidJson \<noteq> Gone" "length (send_queue 2 two_agents) < 128" "\<not> rpc_answer InvalidJson"
    using two_agents_routes(4) by (simp_all add: rpc_answer_def)
  then show ?thesis using every_message_answered[OF s, of InvalidJson 9] by (auto simp: length_Suc_conv)
qed

definition demo_sample :: "(string, pyval) dict" where
  "demo_sample = [(''type'', PStr ''sample''), (''node_id'', PStr ''a''), (''seq'', PInt 1), (''snapshot'', PDict [])]"

lemma demo_sample_stored:
  "hx_last_sample_at (mg_cache (handle_manager (Received 2 (Json (PDict demo_sample)) 7) two_agents)) = Some 7 \<and>
   hx_last_sample_at (mg_cache two_agents) = None"
  by code_simp

theorem stored_only_accepted_witness:
  "stored_sample_of 2 demo_sample 7 two_agents (handle_manager (Received 2 (Json (PDict demo_sample)) 7) two_agents)"
proof -
  have "mg_cache (handle_manager (Received 2 (Json (PDict demo_sample)) 7) two_agents) \<noteq> mg_cache two_agents"
    using demo_sample_stored by auto
  from stored_only_accepted[OF disjI1[OF this]] show ?thesis by auto
qed

end
