(* ===== verification/ManagerApi.thy ===== *)
theory ManagerApi
  imports Manager Curves Analytics
begin

text \<open>
  The rest of \<open>packages/backend/src/constella/app.py\<close>: what the manager loads from its environment, its read
  endpoints and the sockets of its clients.
\<close>

subsection \<open>The environment\<close>

text \<open>A token from the environment, or from a file that may be unreadable.\<close>

definition load_token :: "string \<Rightarrow> string \<Rightarrow> environ \<Rightarrow> (string \<Rightarrow> string option) \<Rightarrow> string option" where
  "load_token name file_name env read_file =
     (case env name of
        Some (c # t) \<Rightarrow> Some (c # t)
      | _ \<Rightarrow>
          (case env file_name of
             Some (c # f) \<Rightarrow> map_option py_strip (read_file (c # f))
           | _ \<Rightarrow> None))"

definition load_agent_token :: "environ \<Rightarrow> (string \<Rightarrow> string option) \<Rightarrow> string option" where
  "load_agent_token = load_token ''CONSTELLA_AGENT_TOKEN'' ''CONSTELLA_AGENT_TOKEN_FILE''"

definition load_highres_token :: "environ \<Rightarrow> (string \<Rightarrow> string option) \<Rightarrow> string option" where
  "load_highres_token = load_token ''CONSTELLA_HIGHRES_TOKEN'' ''CONSTELLA_HIGHRES_TOKEN_FILE''"

record sink_config =
  kc_path :: string
  kc_queue_size :: int
  kc_raw_snapshot_interval :: flt

definition load_sink_config :: "environ \<Rightarrow> sink_config option result" where
  "load_sink_config env =
     (case env ''CONSTELLA_DB_PATH'' of
        Some (c # p) \<Rightarrow>
          rbind (py_int (PStr (case env ''CONSTELLA_DB_QUEUE_SIZE'' of None \<Rightarrow> ''1024'' | Some v \<Rightarrow> v))) (\<lambda>n.
          rbind (float_env env ''CONSTELLA_RAW_SNAPSHOT_SECONDS'' 0) (\<lambda>raw.
            Inr (Some \<lparr>kc_path = c # p, kc_queue_size = n, kc_raw_snapshot_interval = raw\<rparr>)))
      | _ \<Rightarrow> Inr None)"

subsection \<open>Health\<close>

definition telemetry_degraded :: "gpu \<Rightarrow> bool" where
  "telemetry_degraded g \<longleftrightarrow> truthy (g_error g) \<or> g_telemetry_errors g \<noteq> [] \<or>
     (case g_performance g of None \<Rightarrow> False | Some p \<Rightarrow> f_invalid_metrics p \<noteq> [] \<or> str_or (f_error p) [] \<noteq> [])"

record health =
  he_ok :: bool
  he_seq :: nat
  he_agent_ingest_enabled :: bool
  he_node_count :: nat
  he_online_node_count :: nat
  he_gpu_count :: nat
  he_degraded_gpu_count :: nat
  he_invalid_metric_count :: nat

text \<open>Whether the database is open and its worker has failed are facts of the runtime.\<close>

definition manager_health :: "bool \<Rightarrow> bool \<Rightarrow> rat \<Rightarrow> manager \<Rightarrow> health \<times> manager" where
  "manager_health is_open worker_failed now m =
     (case take_snapshot now (mg_cluster m) of (snap, cs) \<Rightarrow>
        let gpus = concat (map s_gpus (c_nodes snap))
        in (\<lparr>he_ok = (case mg_sink m of None \<Rightarrow> True | Some k \<Rightarrow> sink_healthy is_open worker_failed k),
             he_seq = c_seq snap, he_agent_ingest_enabled = (mg_token m \<noteq> None),
             he_node_count = t_node_count (c_totals snap), he_online_node_count = t_online_node_count (c_totals snap),
             he_gpu_count = t_gpu_count (c_totals snap),
             he_degraded_gpu_count = length (filter telemetry_degraded gpus),
             he_invalid_metric_count = sum_list (map (\<lambda>g. case g_performance g of None \<Rightarrow> 0
                | Some p \<Rightarrow> length (f_invalid_metrics p)) gpus)\<rparr>,
            m\<lparr>mg_cluster := cs\<rparr>))"

subsection \<open>Read endpoints\<close>

text \<open>A reply: no database, something, or a job that is not found.\<close>

datatype 'a api_reply = HistoryOff | Items 'a | JobNotFound

definition with_database :: "manager \<Rightarrow> (database \<Rightarrow> 'a) \<Rightarrow> 'a api_reply" where
  "with_database m f = (case mg_sink m of None \<Rightarrow> HistoryOff | Some k \<Rightarrow> Items (f (sk_db k)))"

definition api_gpu_history ::
    "manager \<Rightarrow> rat \<Rightarrow> string option \<Rightarrow> string option \<Rightarrow> rat option \<Rightarrow> rat option \<Rightarrow> int \<Rightarrow> rollup_row list result api_reply" where
  "api_gpu_history m now node_id gpu_uuid since until limit =
     with_database m (query_gpu_history now node_id gpu_uuid since until None (max 1 (min limit 5000)))"

definition api_tasks :: "manager \<Rightarrow> string option \<Rightarrow> string option \<Rightarrow> int \<Rightarrow> (string \<times> session_row) list api_reply" where
  "api_tasks m user status limit = with_database m (query_tasks user status (max 1 (min limit 1000)))"

definition api_users :: "manager \<Rightarrow> user_summary list api_reply" where
  "api_users m = with_database m query_users"

definition api_highres_status :: "manager \<Rightarrow> highres_status" where
  "api_highres_status m = highres_cache_status (mg_cache m)"

definition api_highres_performance ::
    "manager \<Rightarrow> rat \<Rightarrow> string \<Rightarrow> string option \<Rightarrow> string option \<Rightarrow> rat option \<Rightarrow> rat option \<Rightarrow> int \<Rightarrow> bool \<Rightarrow> gpm_query result" where
  "api_highres_performance m now node_id gpu_uuid metrics since until max_points summary_only =
     performance_curves (mg_cache m) node_id (csv_values gpu_uuid) (csv_values metrics) since until max_points summary_only now"

definition api_jobs ::
    "manager \<Rightarrow> rat \<Rightarrow> string option \<Rightarrow> string option \<Rightarrow> int option \<Rightarrow> string option \<Rightarrow> string option \<Rightarrow> rat option \<Rightarrow> rat option
      \<Rightarrow> rat option \<Rightarrow> rat \<Rightarrow> int \<Rightarrow> job list api_reply" where
  "api_jobs m now q user pid node_id status since until max_duration recent limit =
     with_database m (\<lambda>db. query_jobs db q user pid node_id status since until
       (map_option (\<lambda>d. max 1 (min d HIGHRES_JOB_LOOKBACK_SECONDS)) max_duration)
       (Some (max 60 (min recent JOB_MAX_LOOKBACK_SECONDS))) (max 1 (min limit 500)) now)"

definition found :: "'a option api_reply \<Rightarrow> 'a api_reply" where
  "found r = (case r of HistoryOff \<Rightarrow> HistoryOff | JobNotFound \<Rightarrow> JobNotFound | Items None \<Rightarrow> JobNotFound | Items (Some x) \<Rightarrow> Items x)"

text \<open>Errors of a curve escape as they are.\<close>

definition found_or_error :: "'a option result api_reply \<Rightarrow> 'a api_reply result" where
  "found_or_error r =
     (case r of HistoryOff \<Rightarrow> Inr HistoryOff | JobNotFound \<Rightarrow> Inr JobNotFound
      | Items (Inl e) \<Rightarrow> Inl e | Items (Inr None) \<Rightarrow> Inr JobNotFound | Items (Inr (Some x)) \<Rightarrow> Inr (Items x))"

definition api_job_gpu :: "manager \<Rightarrow> rat \<Rightarrow> string \<Rightarrow> rat \<Rightarrow> string \<Rightarrow> job_curve_reply api_reply result" where
  "api_job_gpu m now key padding resolution =
     found_or_error (with_database m (\<lambda>db. job_curve db (mg_cache m) key padding resolution now))"

definition api_job_performance ::
    "manager \<Rightarrow> rat \<Rightarrow> string \<Rightarrow> string option \<Rightarrow> rat \<Rightarrow> string \<Rightarrow> job_performance_reply api_reply result" where
  "api_job_performance m now key metrics padding resolution =
     found_or_error (with_database m (\<lambda>db. job_performance_curve db (mg_cache m) key (csv_values metrics) padding resolution now))"

definition api_job :: "manager \<Rightarrow> rat \<Rightarrow> string \<Rightarrow> job api_reply" where
  "api_job m now key = found (with_database m (\<lambda>db. get_job db key now (Some JOB_MAX_LOOKBACK_SECONDS)))"

definition api_overview ::
    "manager \<Rightarrow> (rat \<Rightarrow> nat \<times> nat) \<Rightarrow> rat \<Rightarrow> string \<Rightarrow> (usage_view list \<Rightarrow> rat \<Rightarrow> rat \<Rightarrow> 'p) option \<Rightarrow> 'p overview api_reply" where
  "api_overview m local now range_name resolver = with_database m (\<lambda>db. overview_analytics local db range_name now resolver)"

definition api_node :: "manager \<Rightarrow> rat \<Rightarrow> string \<Rightarrow> string \<Rightarrow> node_report api_reply" where
  "api_node m now node_id range_name = with_database m (\<lambda>db. node_analytics db node_id range_name now)"

subsection \<open>A client that watches the cluster\<close>

text \<open>
  One round of the loop behind \<^verbatim>\<open>/ws/cluster\<close>: a snapshot is sent when the number has changed or five seconds
  have passed; the second result is how long the round then waits for a change.
\<close>

record viewer =
  vw_last_seq :: int
  vw_last_sent_at :: rat

definition new_viewer :: viewer where
  "new_viewer = \<lparr>vw_last_seq = - 1, vw_last_sent_at = 0\<rparr>"

definition viewer_interval :: "manager \<Rightarrow> rat" where
  "viewer_interval m = max (ms_refresh_interval (mg_settings m)) (1 / 2)"

definition viewer_round ::
    "rat \<Rightarrow> rat \<Rightarrow> rat \<Rightarrow> manager \<Rightarrow> viewer \<Rightarrow> cluster_snapshot option \<times> viewer \<times> manager" where
  "viewer_round now monotonic sent_at m vw =
     (case take_snapshot now (mg_cluster m) of (snap, cs) \<Rightarrow>
        if int (c_seq snap) \<noteq> vw_last_seq vw \<or> 5 \<le> monotonic - vw_last_sent_at vw
        then (Some snap, \<lparr>vw_last_seq = int (c_seq snap), vw_last_sent_at = sent_at\<rparr>, m\<lparr>mg_cluster := cs\<rparr>)
        else (None, vw, m\<lparr>mg_cluster := cs\<rparr>))"

text \<open>How long it sleeps after the wait has ended.\<close>

definition viewer_pause :: "rat \<Rightarrow> rat \<Rightarrow> viewer \<Rightarrow> rat" where
  "viewer_pause interval monotonic vw = max 0 (interval - (monotonic - vw_last_sent_at vw))"

subsection \<open>A client of the stream\<close>

definition stream_admits :: "string \<Rightarrow> string option \<Rightarrow> bool" where
  "stream_admits header token = (case token of None \<Rightarrow> True | Some t \<Rightarrow> t = [] \<or> agent_authorized header token)"

definition open_stream :: "nat \<Rightarrow> string \<Rightarrow> string option \<Rightarrow> manager \<Rightarrow> manager" where
  "open_stream q header token m = (if stream_admits header token then m\<lparr>mg_stream := subscribe q (mg_stream m)\<rparr> else m)"

definition close_stream :: "nat \<Rightarrow> manager \<Rightarrow> manager" where
  "close_stream q m = m\<lparr>mg_stream := unsubscribe q (mg_stream m)\<rparr>"

text \<open>
  After every round the client has been sent the state of the cluster under its current number, and a
  client that pauses as the loop does is sent at most one snapshot per interval.
\<close>

lemma viewer_is_current:
  assumes "viewer_round now monotonic sent_at m vw = (sent, vw', m')"
  shows "vw_last_seq vw' = int (k_seq (mg_cluster m'))"
    "sent = None \<Longrightarrow> vw' = vw" "sent = Some snap \<Longrightarrow> c_seq snap = k_seq (mg_cluster m') \<and> vw_last_sent_at vw' = sent_at"
  using assms by (auto simp: viewer_round_def take_snapshot_def cluster_snapshot_from_nodes_def Let_def split: if_splits)

lemma viewer_is_paced:
  assumes "resumed = monotonic + viewer_pause (viewer_interval m) monotonic vw"
  shows "vw_last_sent_at vw + 1 / 2 \<le> resumed"
  using assms by (simp add: viewer_pause_def viewer_interval_def)

text \<open>A token file with nothing in it lets no agent in although the health reply says that agents are taken in.\<close>

lemma empty_token_file:
  assumes "env ''CONSTELLA_AGENT_TOKEN'' = None" "env ''CONSTELLA_AGENT_TOKEN_FILE'' = Some ''f''" "read_file ''f'' = Some []"
    "mg_token m = load_agent_token env read_file"
  shows "he_agent_ingest_enabled (fst (manager_health is_open failed now m)) \<and> \<not> agent_authorized header (mg_token m)"
  using assms by (simp add: load_agent_token_def load_token_def py_strip_def manager_health_def Let_def agent_authorized_def split: prod.splits)

end
