(* ===== verification/Procfs.thy ===== *)
theory Procfs
  imports Schema
begin

text \<open>
  \<open>packages/backend/src/constella/procfs.py\<close>: what an agent reads about a process from \<^verbatim>\<open>/proc\<close>. The files,
  the account database, the clock and the hash function are the record \<open>host\<close>; a file that cannot be read is
  \<^term>\<open>None\<close>. The texts are the decoded contents.
\<close>

datatype file_read = NotPermitted | Unreadable | Contents string

record host =
  os_proc_stat :: "string option"
  os_boot_time :: "int option"
  os_clk_tck :: "int option"
  os_time :: rat
  os_stat :: "int \<Rightarrow> string option"
  os_comm :: "int \<Rightarrow> string option"
  os_exe :: "int \<Rightarrow> string option"
  os_cmdline :: "int \<Rightarrow> file_read"
  os_uid :: "int \<Rightarrow> int option"
  os_user_name :: "int \<Rightarrow> string option"
  os_sha256 :: "string \<Rightarrow> string"

subsection \<open>The time of boot\<close>

text \<open>A line with nothing after its name raises; a word that is no number gives no time.\<close>

fun btime_of_lines :: "string list \<Rightarrow> int option result" where
  "btime_of_lines [] = Inr None"
| "btime_of_lines (line # lines) =
     (if py_startswith line ''btime ''
      then (case py_split_ws line of _ # w # _ \<Rightarrow> Inr (parse_int w) | _ \<Rightarrow> Inl IndexError)
      else btime_of_lines lines)"

definition boot_time_seconds :: "host \<Rightarrow> int option result" where
  "boot_time_seconds h =
     (case os_boot_time h of
        Some t \<Rightarrow> Inr (Some t)
      | None \<Rightarrow> (case os_proc_stat h of None \<Rightarrow> Inr None | Some text \<Rightarrow> btime_of_lines (py_split (CHR 0x0A) text)))"

text \<open>The time is kept once it is known.\<close>

definition remember_boot_time :: "host \<Rightarrow> host" where
  "remember_boot_time h = (case boot_time_seconds h of Inr (Some t) \<Rightarrow> h\<lparr>os_boot_time := Some t\<rparr> | _ \<Rightarrow> h)"

lemma boot_time_remembered [simp]: "boot_time_seconds (remember_boot_time h) = boot_time_seconds h"
  by (simp add: remember_boot_time_def boot_time_seconds_def split: sum.splits option.splits)

subsection \<open>The status line of a process\<close>

definition rfind_char :: "char \<Rightarrow> string \<Rightarrow> nat option" where
  "rfind_char c s = (if c \<in> set s then Some (length (dropWhile (\<lambda>x. x \<noteq> c) (rev s)) - 1) else None)"

text \<open>The name of the program stands in brackets and may hold anything, so the fields are those after the last one.\<close>

definition stat_fields_after_comm :: "host \<Rightarrow> int \<Rightarrow> string list option" where
  "stat_fields_after_comm h pid =
     (case os_stat h pid of
        None \<Rightarrow> None
      | Some stat \<Rightarrow> map_option (\<lambda>k. py_split_ws (drop (k + 2) stat)) (rfind_char (CHR '')'') stat))"

definition process_parent_pid :: "host \<Rightarrow> int \<Rightarrow> int option" where
  "process_parent_pid h pid =
     (case stat_fields_after_comm h pid of
        None \<Rightarrow> None
      | Some parts \<Rightarrow> if length parts \<le> 1 then None else parse_int (parts ! 1))"

definition process_start_time_seconds :: "host \<Rightarrow> int \<Rightarrow> rat option result" where
  "process_start_time_seconds h pid =
     rbind (boot_time_seconds h) (\<lambda>boot.
       case (boot, os_clk_tck h, stat_fields_after_comm h pid) of
         (Some boot_time, Some ticks_per_second, Some parts) \<Rightarrow>
           if length parts \<le> 19 then Inr None
           else (case parse_int (parts ! 19) of
               None \<Rightarrow> Inr None
             | Some start_ticks \<Rightarrow>
                 if ticks_per_second = 0 then Inl ZeroDivisionError
                 else Inr (Some (of_int boot_time + of_int start_ticks / of_int ticks_per_second)))
       | _ \<Rightarrow> Inr None)"

definition process_runtime_seconds :: "host \<Rightarrow> int \<Rightarrow> int option result" where
  "process_runtime_seconds h pid =
     rbind (process_start_time_seconds h pid) (\<lambda>started_at.
       Inr (map_option (\<lambda>t. max 0 (trunc (os_time h - t))) started_at))"

subsection \<open>Owner, program and command line\<close>

definition process_uid :: "host \<Rightarrow> int \<Rightarrow> int option" where
  "process_uid h pid = os_uid h pid"

definition username_for_uid :: "host \<Rightarrow> int option \<Rightarrow> string option" where
  "username_for_uid h uid =
     (case uid of None \<Rightarrow> None | Some u \<Rightarrow> Some (case os_user_name h u of None \<Rightarrow> int_str u | Some name \<Rightarrow> name))"

definition process_exe :: "host \<Rightarrow> int \<Rightarrow> string option" where
  "process_exe h pid = os_exe h pid"

definition text_or_none :: "string \<Rightarrow> string option" where
  "text_or_none s = (if s = [] then None else Some s)"

definition process_cmdline :: "host \<Rightarrow> int \<Rightarrow> string option \<times> string" where
  "process_cmdline h pid =
     (case os_cmdline h pid of
        NotPermitted \<Rightarrow> (None, ''permission_denied'')
      | Unreadable \<Rightarrow> (None, ''unavailable'')
      | Contents raw \<Rightarrow>
          if raw = [] then (None, ''empty'')
          else (text_or_none (py_strip (map (\<lambda>c. if c = CHR 0x00 then CHR '' '' else c) raw)), ''ok''))"

text \<open>\<^verbatim>\<open>cmdline_fingerprint\<close> of \<open>schema.py\<close>.\<close>

definition cmdline_fingerprint :: "host \<Rightarrow> string option \<Rightarrow> string option" where
  "cmdline_fingerprint h cmdline =
     (case cmdline of None \<Rightarrow> None | Some c \<Rightarrow> if c = [] then None else Some (take 16 (os_sha256 h c)))"

subsection \<open>The fields are found whatever the program is called\<close>

lemma split_ws_word:
  assumes "\<forall>c \<in> set w. \<not> py_ws c"
  shows "py_split_ws_acc acc (w @ s) = py_split_ws_acc (rev w @ acc) s"
  using assms by (induction w arbitrary: acc) auto

lemma split_ws_blank: "\<forall>c \<in> set s. py_ws c \<Longrightarrow> py_split_ws_acc w s = (if w = [] then [] else [rev w])"
  by (induction s arbitrary: w) auto

lemma split_ws_join:
  assumes "\<forall>f \<in> set fs. f \<noteq> [] \<and> (\<forall>c \<in> set f. \<not> py_ws c)" "\<forall>c \<in> set tail. py_ws c"
  shows "py_split_ws (py_join '' '' fs @ tail) = fs"
  using assms(1)
proof (induction "'' ''" fs rule: py_join.induct)
  case 1
  then show ?case using assms(2) by (simp add: py_split_ws_def split_ws_blank)
next
  case (2 w)
  then show ?case using assms(2) by (simp add: py_split_ws_def split_ws_word split_ws_blank)
next
  case (3 w v ws)
  have "py_ws (CHR '' '')" by code_simp
  then show ?case using 3 by (simp add: py_split_ws_def split_ws_word)
qed

lemma rfind_last: "c \<notin> set t \<Longrightarrow> rfind_char c (s @ c # t) = Some (length s)"
  by (auto simp: rfind_char_def dropWhile_append3)

lemma join_chars: "set (py_join sep fs) \<subseteq> (\<Union>f \<in> set fs. set f) \<union> set sep"
  by (induction sep fs rule: py_join.induct) auto

lemma stat_line_fields:
  assumes "os_stat h pid = Some (number @ '' ('' @ comm @ '') '' @ py_join '' '' fs @ tail)"
    and "\<forall>f \<in> set fs. f \<noteq> [] \<and> (\<forall>c \<in> set f. \<not> py_ws c \<and> c \<noteq> CHR '')'')" "\<forall>c \<in> set tail. py_ws c"
  shows "stat_fields_after_comm h pid = Some fs"
proof -
  let ?rest = "'' '' @ py_join '' '' fs @ tail"
  have bracket: "\<not> py_ws (CHR '')'')" by code_simp
  have "CHR '')'' \<notin> set ?rest" using join_chars[of "'' ''" fs] assms(2,3) bracket by auto
  then have "rfind_char (CHR '')'') (number @ '' ('' @ comm @ '')'' @ ?rest) = Some (length (number @ '' ('' @ comm))"
    using rfind_last[of "CHR '')''" ?rest "number @ '' ('' @ comm"] by simp
  moreover have "drop (length (number @ '' ('' @ comm) + 2) (number @ '' ('' @ comm @ '') '' @ py_join '' '' fs @ tail) =
      py_join '' '' fs @ tail"
  proof -
    have d: "drop n (pre @ x) = x" if "n = length pre" for n and pre x :: string using that by simp
    show ?thesis by (rule trans[OF _ d[of _ "number @ '' ('' @ comm @ '') ''"]]) (simp_all del: drop_append)
  qed
  ultimately show ?thesis using split_ws_join[OF _ assms(3), of fs] assms(2)
    by (simp only: stat_fields_after_comm_def assms(1) append_assoc append_Cons append_Nil option.case option.map) simp
qed

text \<open>
  C18: from the status line of a process its parent and the time of its start are read correctly whatever the
  program is called, brackets and blanks in its name included.
\<close>

theorem stat_line_read:
  assumes "os_stat h pid = Some (number @ '' ('' @ comm @ '') '' @ py_join '' '' fs @ tail)"
    and "\<forall>f \<in> set fs. f \<noteq> [] \<and> (\<forall>c \<in> set f. \<not> py_ws c \<and> c \<noteq> CHR '')'')" "\<forall>c \<in> set tail. py_ws c"
    and "20 \<le> length fs" "fs ! 1 = nat_str ppid" "fs ! 19 = nat_str ticks" "0 \<le> ppid" "0 \<le> ticks"
    and "boot_time_seconds h = Inr (Some boot)" "os_clk_tck h = Some hertz" "0 < hertz"
  shows "process_parent_pid h pid = Some ppid \<and>
    process_start_time_seconds h pid = Inr (Some (of_int boot + of_int ticks / of_int hertz)) \<and>
    process_runtime_seconds h pid = Inr (Some (max 0 (trunc (os_time h - (of_int boot + of_int ticks / of_int hertz)))))"
proof -
  have parts: "stat_fields_after_comm h pid = Some fs" by (rule stat_line_fields[OF assms(1-3)])
  have start: "process_start_time_seconds h pid = Inr (Some (of_int boot + of_int ticks / of_int hertz))"
    using assms(4-) by (simp add: process_start_time_seconds_def parts parse_int_nat_str)
  show ?thesis
    using assms(4-8) by (simp add: start process_parent_pid_def process_runtime_seconds_def parts parse_int_nat_str)
qed

definition demo_host :: host where
  "demo_host = \<lparr>os_proc_stat = Some ''cpu 1 2'', os_boot_time = Some 1000, os_clk_tck = Some 100, os_time = 1600,
     os_stat = (\<lambda>p. if p = 42 then Some ''42 (a) b (c) S 7 1 1 0 -1 4 9 0 0 0 5 6 0 0 20 0 1 0 50000 8'' else None),
     os_comm = (\<lambda>p. Some ''a) b (c''), os_exe = (\<lambda>p. Some ''/usr/bin/python3''),
     os_cmdline = (\<lambda>p. Contents (''python'' @ [CHR 0x00] @ ''train.py'' @ [CHR 0x00])), os_uid = (\<lambda>p. Some 1007),
     os_user_name = (\<lambda>u. Some ''joe''), os_sha256 = (\<lambda>s. s)\<rparr>"

lemma stat_line_read_witness:
  "process_parent_pid demo_host 42 = Some 7 \<and> process_start_time_seconds demo_host 42 = Inr (Some 1500) \<and>
   process_runtime_seconds demo_host 42 = Inr (Some 100)"
proof -
  let ?fs = "[''S'', ''7'', ''1'', ''1'', ''0'', ''-1'', ''4'', ''9'', ''0'', ''0'', ''0'', ''5'', ''6'', ''0'', ''0'', ''20'', ''0'',
    ''1'', ''0'', ''50000'', ''8'']"
  have line: "os_stat demo_host 42 = Some (''42'' @ '' ('' @ ''a) b (c'' @ '') '' @ py_join '' '' ?fs @ [])"
    by (simp add: demo_host_def)
  have words: "\<forall>f \<in> set ?fs. f \<noteq> [] \<and> (\<forall>c \<in> set f. \<not> py_ws c \<and> c \<noteq> CHR '')'')" by code_simp
  have numbers: "?fs ! 1 = nat_str 7" "?fs ! 19 = nat_str 50000" by code_simp+
  have boot: "boot_time_seconds demo_host = Inr (Some 1000)" "os_clk_tck demo_host = Some 100" "os_time demo_host = 1600"
    by (simp_all add: boot_time_seconds_def demo_host_def)
  have runtime: "max 0 (trunc (1600 - (1000 + 50000 / 100))) = 100" by (simp add: trunc_def)
  show ?thesis
    using stat_line_read[OF line words _ _ numbers _ _ boot(1,2)] runtime by (simp add: boot(3))
qed

end
