(* ===== verification/NvidiaSmi.thy ===== *)
theory NvidiaSmi
  imports Procfs
begin

text \<open>
  \<open>packages/backend/src/constella/nvidia_smi.py\<close>: the sampler that reads the output of the command line tool.
  The tool is a parameter, the reader of \<^verbatim>\<open>csv\<close> in its default dialect is written out.
\<close>

subsection \<open>The reader of comma separated values\<close>

datatype csv_state = StartRecord | StartField | InField | InQuotedField | QuoteInQuotedField | EatNewline

record csv_reader =
  cv_state :: csv_state
  cv_field :: string
  cv_row :: "string list"

definition new_record :: csv_reader where
  "new_record = \<lparr>cv_state = StartRecord, cv_field = [], cv_row = []\<rparr>"

definition FIELD_LIMIT :: nat where
  "FIELD_LIMIT = 131072"

definition csv_add :: "char \<Rightarrow> csv_state \<Rightarrow> csv_reader \<Rightarrow> csv_reader result" where
  "csv_add c st r =
     (if FIELD_LIMIT \<le> length (cv_field r) then Inl (CsvError ''field larger than field limit (131072)'')
      else Inr (r\<lparr>cv_field := cv_field r @ [c], cv_state := st\<rparr>))"

definition csv_save :: "csv_state \<Rightarrow> csv_reader \<Rightarrow> csv_reader" where
  "csv_save st r = r\<lparr>cv_row := cv_row r @ [cv_field r], cv_field := [], cv_state := st\<rparr>"

text \<open>A character, or the end of the line as \<^term>\<open>None\<close>.\<close>

definition newline :: "char \<Rightarrow> bool" where
  "newline c \<longleftrightarrow> c = CHR 0x0A \<or> c = CHR 0x0D"

definition csv_start_field :: "char option \<Rightarrow> csv_reader \<Rightarrow> csv_reader result" where
  "csv_start_field c r =
     (case c of
        None \<Rightarrow> Inr (csv_save StartRecord r)
      | Some x \<Rightarrow>
          if newline x then Inr (csv_save EatNewline r)
          else if x = CHR 0x22 then Inr (r\<lparr>cv_state := InQuotedField\<rparr>)
          else if x = CHR '','' then Inr (csv_save StartField r)
          else csv_add x InField r)"

definition csv_char :: "char option \<Rightarrow> csv_reader \<Rightarrow> csv_reader result" where
  "csv_char c r =
     (case cv_state r of
        StartRecord \<Rightarrow>
          (case c of None \<Rightarrow> Inr r | Some x \<Rightarrow> if newline x then Inr (r\<lparr>cv_state := EatNewline\<rparr>) else csv_start_field c r)
      | StartField \<Rightarrow> csv_start_field c r
      | InField \<Rightarrow>
          (case c of
             None \<Rightarrow> Inr (csv_save StartRecord r)
           | Some x \<Rightarrow> if newline x then Inr (csv_save EatNewline r)
                       else if x = CHR '','' then Inr (csv_save StartField r) else csv_add x InField r)
      | InQuotedField \<Rightarrow>
          (case c of None \<Rightarrow> Inr r
           | Some x \<Rightarrow> if x = CHR 0x22 then Inr (r\<lparr>cv_state := QuoteInQuotedField\<rparr>) else csv_add x InQuotedField r)
      | QuoteInQuotedField \<Rightarrow>
          (case c of
             None \<Rightarrow> Inr (csv_save StartRecord r)
           | Some x \<Rightarrow> if x = CHR 0x22 then csv_add x InQuotedField r
                       else if x = CHR '','' then Inr (csv_save StartField r)
                       else if newline x then Inr (csv_save EatNewline r) else csv_add x InField r)
      | EatNewline \<Rightarrow>
          (case c of None \<Rightarrow> Inr (r\<lparr>cv_state := StartRecord\<rparr>)
           | Some x \<Rightarrow> if newline x then Inr r else Inl (CsvError ''new-line character seen in unquoted field'')))"

fun csv_chars :: "char option list \<Rightarrow> csv_reader \<Rightarrow> csv_reader result" where
  "csv_chars [] r = Inr r"
| "csv_chars (c # cs) r = rbind (csv_char c r) (csv_chars cs)"

definition csv_line :: "string \<Rightarrow> csv_reader \<Rightarrow> csv_reader result" where
  "csv_line line r = csv_chars (map Some line @ [None]) r"

text \<open>Records are read on demand: those before an error, and the error.\<close>

fun csv_records :: "csv_reader \<Rightarrow> string list \<Rightarrow> string list list \<times> pyexc option" where
  "csv_records r [] =
     (if cv_field r \<noteq> [] \<or> cv_state r = InQuotedField then [cv_row r @ [cv_field r]] else [], None)"
| "csv_records r (line # lines) =
     (case csv_line line r of
        Inl e \<Rightarrow> ([], Some e)
      | Inr r' \<Rightarrow>
          if cv_state r' = StartRecord
          then (case csv_records new_record lines of (rows, e) \<Rightarrow> (cv_row r' # rows, e))
          else csv_records r' lines)"

text \<open>The lines of a text with their ends.\<close>

fun text_lines :: "string \<Rightarrow> string list" where
  "text_lines [] = []"
| "text_lines (c # s) =
     (if c = CHR 0x0A then [c] # text_lines s
      else case text_lines s of [] \<Rightarrow> [[c]] | line # lines \<Rightarrow> (c # line) # lines)"

definition csv_rows :: "string \<Rightarrow> string list list \<times> pyexc option" where
  "csv_rows output = csv_records new_record (text_lines output)"

subsection \<open>Fields\<close>

definition GPU_NUMERIC_FIELDS :: "(string, string) dict" where
  "GPU_NUMERIC_FIELDS =
    [(''utilization_gpu'', ''utilization.gpu''), (''utilization_mem'', ''utilization.memory''),
     (''memory_total_mb'', ''memory.total''), (''memory_used_mb'', ''memory.used''),
     (''memory_free_mb'', ''memory.free''), (''temperature_c'', ''temperature.gpu''),
     (''power_watts'', ''power.draw''), (''power_limit_watts'', ''power.limit''),
     (''clock_sm_mhz'', ''clocks.sm''), (''clock_mem_mhz'', ''clocks.mem'')]"

definition GPU_QUERY_FIELDS :: "string list" where
  "GPU_QUERY_FIELDS =
    [''index'', ''uuid'', ''name'', ''pci.bus_id'', ''driver_version'', ''temperature.gpu'', ''utilization.gpu'',
     ''utilization.memory'', ''memory.total'', ''memory.used'', ''memory.free'', ''power.draw'', ''power.limit'',
     ''clocks.sm'', ''clocks.mem'', ''pstate'', ''compute_mode'', ''mig.mode.current'']"

definition smi_clean :: "string option \<Rightarrow> string option" where
  "smi_clean v =
     (case v of
        None \<Rightarrow> None
      | Some s \<Rightarrow>
          let t = py_strip s
          in if t = [] \<or> py_upper t \<in> set [''N/A'', ''[N/A]'', ''NOT SUPPORTED''] then None else Some t)"

definition smi_to_int :: "string option \<Rightarrow> int" where
  "smi_to_int v = (case smi_clean v of None \<Rightarrow> 0
     | Some t \<Rightarrow> (case parse_float t of Some (Fin x) \<Rightarrow> trunc x | _ \<Rightarrow> 0))"

definition smi_to_float :: "string option \<Rightarrow> flt" where
  "smi_to_float v = (case smi_clean v of None \<Rightarrow> Fin 0
     | Some t \<Rightarrow> (case parse_float t of Some x \<Rightarrow> x | None \<Rightarrow> Fin 0))"

text \<open>\<^verbatim>\<open>GpuInfo(index=...)\<close> with its defaults.\<close>

definition new_gpu :: "int \<Rightarrow> raw_gpu" where
  "new_gpu index =
     \<lparr>g_index = index, g_node_id = None, g_gpu_id = None, g_device_type = ''nvidia'', g_card_id = None, g_die_id = None,
      g_uuid = ''unknown'', g_name = ''unknown'', g_pci_bus_id = PNone, g_utilization_gpu = PInt 0,
      g_utilization_mem = PInt 0, g_memory_total_mb = PInt 0, g_memory_used_mb = PInt 0, g_memory_free_mb = PInt 0,
      g_temperature_c = PInt 0, g_power_watts = PFlt (Fin 0), g_power_limit_watts = PFlt (Fin 0),
      g_clock_sm_mhz = PNone, g_clock_mem_mhz = PNone, g_max_clock_sm_mhz = PNone, g_max_clock_mem_mhz = PNone,
      g_pstate = PNone, g_compute_mode = PNone, g_mig_mode = PNone, g_ecc_mode = PNone, g_performance = None,
      g_processes = [], g_other_users = [], g_error = PNone, g_telemetry_errors = []\<rparr>"

text \<open>\<^verbatim>\<open>GpuProcess(pid=..., name=..., gpu_memory_mb=..., kind=...)\<close> with its defaults.\<close>

definition new_process :: "int \<Rightarrow> string \<Rightarrow> int \<Rightarrow> string \<Rightarrow> gpu_process" where
  "new_process pid name mem kind =
     \<lparr>p_pid = pid, p_name = name, p_gpu_memory_mb = mem, p_ppid = PNone, p_user = PNone, p_task_name = PNone,
      p_exe = PNone, p_cmdline = PNone, p_cmdline_hash = PNone, p_kind = kind, p_runtime_seconds = PNone,
      p_start_time = PNone, p_parent_start_time = PNone, p_detail_status = ''unknown'', p_detail_error = PNone,
      p_user_uid = PNone\<rparr>"

subsection \<open>Accelerators\<close>

definition row_values :: "string list \<Rightarrow> (string, string) dict" where
  "row_values row =
     map (\<lambda>(i, f). (f, if i < length row then py_strip (row ! i) else [])) (enumerate 0 GPU_QUERY_FIELDS)"

definition or_none :: "int \<Rightarrow> pyval" where
  "or_none i = (if i = 0 then PNone else PInt i)"

definition gpu_of_values :: "(string \<Rightarrow> string option) \<Rightarrow> raw_gpu" where
  "gpu_of_values v =
     (new_gpu (smi_to_int (v ''index'')))
     \<lparr>g_uuid := str_or (smi_clean (v ''uuid'')) ''unknown'', g_name := str_or (smi_clean (v ''name'')) ''unknown'',
      g_pci_bus_id := opt_val PStr (smi_clean (v ''pci.bus_id'')),
      g_utilization_gpu := PInt (smi_to_int (v ''utilization.gpu'')),
      g_utilization_mem := PInt (smi_to_int (v ''utilization.memory'')),
      g_memory_total_mb := PInt (smi_to_int (v ''memory.total'')),
      g_memory_used_mb := PInt (smi_to_int (v ''memory.used'')),
      g_memory_free_mb := PInt (smi_to_int (v ''memory.free'')),
      g_temperature_c := PInt (smi_to_int (v ''temperature.gpu'')),
      g_power_watts := PFlt (flt_round 1 (smi_to_float (v ''power.draw''))),
      g_power_limit_watts := PFlt (flt_round 1 (smi_to_float (v ''power.limit''))),
      g_clock_sm_mhz := or_none (smi_to_int (v ''clocks.sm'')),
      g_clock_mem_mhz := or_none (smi_to_int (v ''clocks.mem'')),
      g_pstate := opt_val PStr (smi_clean (v ''pstate'')),
      g_compute_mode := opt_val PStr (smi_clean (v ''compute_mode'')),
      g_mig_mode := opt_val PStr (smi_clean (v ''mig.mode.current''))\<rparr>"

text \<open>The number a field holds, as the check sees it.\<close>

definition smi_numeric :: "string option \<Rightarrow> pyval" where
  "smi_numeric v = (case smi_clean v of None \<Rightarrow> PNone
     | Some t \<Rightarrow> (case parse_float t of Some x \<Rightarrow> PFlt x | None \<Rightarrow> PNone))"

definition check_field :: "(string \<Rightarrow> string option) \<Rightarrow> string \<times> string \<Rightarrow> raw_gpu \<Rightarrow> raw_gpu" where
  "check_field v nq g =
     (case nq of (name, query) \<Rightarrow>
        case map_of GPU_METRIC_RULES name of
          None \<Rightarrow> g
        | Some rule \<Rightarrow>
            if accepts rule (smi_numeric (v query)) then g
            else set_reading name (reset_value name)
                   (g\<lparr>g_telemetry_errors := AList.update name ''nvidia-smi reading unavailable'' (g_telemetry_errors g)\<rparr>))"

definition gpu_of_row :: "string list \<Rightarrow> raw_gpu" where
  "gpu_of_row row = (let v = map_of (row_values row) in fold (check_field v) GPU_NUMERIC_FIELDS (gpu_of_values v))"

definition blank_row :: "string list \<Rightarrow> bool" where
  "blank_row row \<longleftrightarrow> list_all (\<lambda>cell. py_strip cell = []) row"

definition first_driver :: "string list list \<Rightarrow> string option" where
  "first_driver rows = fold (\<lambda>row found. case found of Some d \<Rightarrow> Some d
     | None \<Rightarrow> smi_clean (map_of (row_values row) ''driver_version'')) rows None"

definition parse_gpu_query_csv :: "string \<Rightarrow> (raw_gpu list \<times> string option) result" where
  "parse_gpu_query_csv output =
     (case csv_rows output of
        (rows, Some e) \<Rightarrow> Inl e
      | (rows, None) \<Rightarrow>
          let kept = filter (\<lambda>row. \<not> blank_row row) rows in Inr (map gpu_of_row kept, first_driver kept))"

subsection \<open>Processes\<close>

definition start_of_parent :: "host \<Rightarrow> int option \<Rightarrow> rat option result" where
  "start_of_parent h ppid =
     (case ppid of None \<Rightarrow> Inr None | Some p \<Rightarrow> if p = 0 then Inr None else process_start_time_seconds h p)"

definition seconds_val :: "rat option \<Rightarrow> pyval" where
  "seconds_val t = opt_val (\<lambda>x. PFlt (Fin x)) t"

text \<open>What is known of a process besides its name and memory.\<close>

definition describe_process :: "host \<Rightarrow> gpu_process \<Rightarrow> gpu_process result" where
  "describe_process h p =
     (let pid = p_pid p; ppid = process_parent_pid h pid; exe = process_exe h pid; uid = process_uid h pid
      in case process_cmdline h pid of (cmdline, detail_status) \<Rightarrow>
           rbind (process_runtime_seconds h pid) (\<lambda>runtime.
           rbind (process_start_time_seconds h pid) (\<lambda>start.
           rbind (start_of_parent h ppid) (\<lambda>parent_start.
             Inr (p\<lparr>p_ppid := opt_val PInt ppid, p_user_uid := opt_val PInt uid,
                    p_user := opt_val PStr (username_for_uid h uid), p_cmdline := opt_val PStr cmdline,
                    p_cmdline_hash := opt_val PStr (cmdline_fingerprint h cmdline), p_exe := opt_val PStr exe,
                    p_runtime_seconds := opt_val PInt runtime, p_start_time := seconds_val start,
                    p_parent_start_time := seconds_val parent_start, p_detail_status := detail_status,
                    p_task_name := PStr (infer_task_name cmdline exe None (Some (p_name p)) (Some pid))\<rparr>)))))"

type_synonym process_table = "(string, gpu_process list) dict"

definition add_process :: "string \<Rightarrow> gpu_process \<Rightarrow> process_table \<Rightarrow> process_table" where
  "add_process uuid p d = AList.update uuid (get_or d uuid [] @ [p]) d"

definition process_row :: "host \<Rightarrow> string list \<Rightarrow> process_table \<Rightarrow> process_table result" where
  "process_row h row d =
     (case map py_strip row of
        uuid # pid # name # used # _ \<Rightarrow>
          let p = new_process (smi_to_int (Some pid)) (str_or (smi_clean (Some name)) ''?'') (smi_to_int (Some used)) ''compute''
          in if p_pid p = 0 then Inr d
             else rbind (describe_process h p) (\<lambda>q. Inr (add_process (str_or (smi_clean (Some uuid)) ''unknown'') q d))
      | _ \<Rightarrow> Inr d)"

fun process_rows :: "host \<Rightarrow> string list list \<Rightarrow> process_table \<Rightarrow> process_table result" where
  "process_rows h [] d = Inr d"
| "process_rows h (row # rows) d = rbind (process_row h row d) (process_rows h rows)"

definition parse_process_query_csv :: "host \<Rightarrow> string \<Rightarrow> process_table result" where
  "parse_process_query_csv h output =
     (case csv_rows output of (rows, e) \<Rightarrow>
        rbind (process_rows h rows []) (\<lambda>d. case e of None \<Rightarrow> Inr d | Some err \<Rightarrow> Inl err))"

subsection \<open>A sample\<close>

text \<open>
  A run of the tool: what it printed, that it failed in one of the ways the query of processes tolerates (a
  bad exit, not found, too slow), or another exception.
\<close>

datatype tool_run = Printed string | ToolFailed string | ToolError string

definition smi_processes :: "host \<Rightarrow> bool \<Rightarrow> process_table option \<Rightarrow> tool_run \<Rightarrow> process_table result" where
  "smi_processes h collect cached run =
     (let kept = (case cached of None \<Rightarrow> [] | Some d \<Rightarrow> d)
      in if collect
         then (case run of Printed out \<Rightarrow> parse_process_query_csv h out | ToolFailed why \<Rightarrow> Inr kept | ToolError why \<Rightarrow> Inl (RuntimeError why))
         else Inr kept)"

definition smi_sample ::
    "host \<Rightarrow> string \<Rightarrow> rat \<Rightarrow> rat \<Rightarrow> tool_run \<Rightarrow> tool_run \<Rightarrow> bool \<Rightarrow> process_table option \<Rightarrow> raw_gpu snapshot result" where
  "smi_sample h hostname started ended gpu_run process_run collect cached =
     (case gpu_run of
        Printed out \<Rightarrow>
          rbind (parse_gpu_query_csv out) (\<lambda>(gpus, driver).
          rbind (smi_processes h collect cached process_run) (\<lambda>d.
            Inr \<lparr>n_ok = True, n_source = ''nvidia-smi'', n_hostname = hostname, n_timestamp = os_time h,
                 n_elapsed_ms = pyround 1 ((ended - started) * 1000),
                 n_gpus = map (\<lambda>g. g\<lparr>g_processes := get_or d (g_uuid g) []\<rparr>) gpus,
                 n_driver_version = opt_val PStr driver, n_cuda_driver_version = PNone, n_nvml_version = PNone,
                 n_error = PNone, n_seq = 0, n_refresh_interval = 1, n_history = []\<rparr>))
      | ToolFailed why \<Rightarrow> Inl (RuntimeError why)
      | ToolError why \<Rightarrow> Inl (RuntimeError why))"

end
