(* ===== verification/SmiProps.thy ===== *)
theory SmiProps
  imports NvidiaSmi
begin

subsection \<open>A reading is shown as the tool printed it, or marked\<close>

definition refused :: "(string \<Rightarrow> string option) \<Rightarrow> string \<Rightarrow> string \<Rightarrow> bool" where
  "refused v name query = (case map_of GPU_METRIC_RULES name of None \<Rightarrow> False | Some rule \<Rightarrow> \<not> accepts rule (smi_numeric (v query)))"

lemma check_field_one:
  "map_of (gpu_readings (check_field v (n, q) g)) m = (if m = n \<and> refused v n q then Some (reset_value m) else map_of (gpu_readings g) m)"
  "has_key (g_telemetry_errors (check_field v (n, q) g)) m \<longleftrightarrow> (m = n \<and> refused v n q) \<or> has_key (g_telemetry_errors g) m"
proof -
  have e: "g_telemetry_errors (set_reading n x g) = g_telemetry_errors g" for n x and g :: raw_gpu by (simp add: set_reading_def)
  have k: "\<exists>y. map_of (gpu_readings g) n = Some y" if "map_of GPU_METRIC_RULES n = Some r" for r
    using that has_key_gpu_readings[of g n] by (simp add: has_key_def)
  show "map_of (gpu_readings (check_field v (n, q) g)) m = (if m = n \<and> refused v n q then Some (reset_value m) else map_of (gpu_readings g) m)"
    using k by (auto simp: check_field_def refused_def gpu_readings_set_reading has_key_def split: option.splits)
  show "has_key (g_telemetry_errors (check_field v (n, q) g)) m \<longleftrightarrow> (m = n \<and> refused v n q) \<or> has_key (g_telemetry_errors g) m"
    by (auto simp: check_field_def refused_def e has_key_def update_conv' split: option.splits)
qed

lemma check_fields:
  "map_of (gpu_readings (fold (check_field v) nqs g)) m =
     (if \<exists>q. (m, q) \<in> set nqs \<and> refused v m q then Some (reset_value m) else map_of (gpu_readings g) m)"
  "has_key (g_telemetry_errors (fold (check_field v) nqs g)) m \<longleftrightarrow>
     (\<exists>q. (m, q) \<in> set nqs \<and> refused v m q) \<or> has_key (g_telemetry_errors g) m"
proof (induction nqs arbitrary: g)
  case (Cons nq nqs)
  case 1
  then show ?case using Cons check_field_one(1)[of v "fst nq" "snd nq" g m] by (cases nq) auto
  case 2
  then show ?case using Cons check_field_one(2)[of v "fst nq" "snd nq" g m] by (cases nq) auto
qed auto

lemma smi_to_int_numeric: "smi_to_int w = (case smi_numeric w of PFlt (Fin x) \<Rightarrow> trunc x | _ \<Rightarrow> 0)"
  by (simp add: smi_to_int_def smi_numeric_def split: option.splits flt.splits)

lemma smi_to_float_numeric: "smi_to_float w = (case smi_numeric w of PFlt x \<Rightarrow> x | _ \<Rightarrow> Fin 0)"
  by (simp add: smi_to_float_def smi_numeric_def split: option.splits)

lemma smi_numeric_cases: "smi_numeric w = PNone \<or> (\<exists>x. smi_numeric w = PFlt x)"
  by (simp add: smi_numeric_def split: option.splits)

lemma trunc_close: "\<bar>of_int (trunc x) - x\<bar> < (1 :: rat)"
  by (auto simp: trunc_def abs_less_iff) linarith+

lemma pyround_close: "\<bar>pyround 1 x - x\<bar> < (1 :: rat)"
  using pyround_error[of 1 x] by simp

lemma accepted_number:
  assumes "accepts r (smi_numeric w)" "\<not> optional r \<or> smi_numeric w \<noteq> PNone"
  shows "\<exists>x. smi_numeric w = PFlt (Fin x) \<and> minimum r \<le> x \<and> x \<le> maximum r"
proof -
  obtain f where f: "smi_numeric w = PFlt f" using assms smi_numeric_cases[of w] by auto
  then show ?thesis using assms(1) by (cases f) auto
qed

lemma int_field_ok:
  assumes "accepts r (smi_numeric w)" "\<not> optional r" "minimum r \<le> 0" "0 \<le> maximum r"
  shows "accepts r (PInt (smi_to_int w)) \<and> \<bar>of_int (smi_to_int w) - num_val (smi_numeric w)\<bar> < 1"
proof -
  obtain x where x: "smi_numeric w = PFlt (Fin x)" "minimum r \<le> x" "x \<le> maximum r"
    using accepted_number[OF assms(1)] assms(2) by blast
  have "minimum r \<le> of_int (trunc x) \<and> of_int (trunc x) \<le> maximum r"
  proof (cases "0 \<le> x")
    case True
    then show ?thesis using trunc_le[of x] trunc_nonneg[of x] x(3) assms(3) by (auto intro: order_trans)
  next
    case False
    then have "x \<le> of_int (trunc x)" "trunc x \<le> 0" by (simp_all add: trunc_def ceiling_le_iff)
    then show ?thesis using x(2) assms(4) by (auto intro: order_trans)
  qed
  then show ?thesis using trunc_close[of x] by (simp add: smi_to_int_numeric x(1))
qed

lemma count_field_ok:
  assumes "accepts OPTIONAL_COUNT (smi_numeric w)"
  shows "accepts OPTIONAL_COUNT (or_none (smi_to_int w)) \<and> \<bar>num_val (or_none (smi_to_int w)) - num_val (smi_numeric w)\<bar> < 1"
proof (cases "smi_numeric w = PNone")
  case False
  then obtain x where x: "smi_numeric w = PFlt (Fin x)" using accepted_number[OF assms] by blast
  have "accepts COUNT (smi_numeric w)" using assms by (simp add: x rule_defs)
  from int_field_ok[OF this] show ?thesis by (auto simp: or_none_def rule_defs)
qed (simp add: smi_to_int_numeric or_none_def rule_defs)

lemma power_field_ok:
  assumes "accepts default_rule (smi_numeric w)"
  shows "accepts default_rule (PFlt (flt_round 1 (smi_to_float w))) \<and>
    \<bar>num_val (PFlt (flt_round 1 (smi_to_float w))) - num_val (smi_numeric w)\<bar> < 1"
proof -
  obtain x where x: "smi_numeric w = PFlt (Fin x)" "0 \<le> x" "x \<le> of_int (2 ^ 63 - 1)"
    using accepted_number[OF assms] by (auto simp: default_rule_def SQLITE_INT_MAX_def)
  moreover have "pyround 1 x \<le> SQLITE_INT_MAX" using pyround_le_of_int[OF x(3), of 1] by (simp add: SQLITE_INT_MAX_def)
  ultimately show ?thesis
    using pyround_nonneg[of x 1] pyround_close[of x] by (simp add: smi_to_float_numeric default_rule_def)
qed

lemma field_kinds:
  assumes "(name, query) \<in> set GPU_NUMERIC_FIELDS" "map_of GPU_METRIC_RULES name = Some rule"
  shows "(map_of (gpu_readings (gpu_of_values v)) name = Some (PInt (smi_to_int (v query))) \<and>
      \<not> optional rule \<and> minimum rule \<le> 0 \<and> 0 \<le> maximum rule) \<or>
    (map_of (gpu_readings (gpu_of_values v)) name = Some (or_none (smi_to_int (v query))) \<and> rule = OPTIONAL_COUNT) \<or>
    (map_of (gpu_readings (gpu_of_values v)) name = Some (PFlt (flt_round 1 (smi_to_float (v query)))) \<and> rule = default_rule)"
proof -
  have rule: "rule = the (map_of GPU_METRIC_RULES name)" using assms(2) by simp
  show ?thesis
    using assms(1) unfolding rule GPU_NUMERIC_FIELDS_def list.set insert_iff empty_iff prod.inject
    by (elim disjE FalseE conjE)
      (simp_all add: gpu_readings_def gpu_of_values_def GPU_METRIC_RULES_def PERCENT_def COUNT_def default_rule_def SQLITE_INT_MAX_def)
qed

text \<open>The reading of a field before the checks, where the number is accepted.\<close>

lemma reading_of_field:
  assumes "(name, query) \<in> set GPU_NUMERIC_FIELDS" "map_of GPU_METRIC_RULES name = Some rule" "accepts rule (smi_numeric (v query))"
  shows "\<exists>r. map_of (gpu_readings (gpu_of_values v)) name = Some r \<and> accepts rule r \<and>
    \<bar>num_val r - num_val (smi_numeric (v query))\<bar> < 1"
  using field_kinds[OF assms(1,2), of v] int_field_ok[of rule "v query"] count_field_ok[of "v query"] power_field_ok[of "v query"] assms(3)
  by (elim disjE conjE) auto

lemma field_unique: "(n, q) \<in> set GPU_NUMERIC_FIELDS \<Longrightarrow> (n, q') \<in> set GPU_NUMERIC_FIELDS \<Longrightarrow> q = q'"
  by (auto simp: GPU_NUMERIC_FIELDS_def)

lemma row_reading:
  assumes "(name, query) \<in> set GPU_NUMERIC_FIELDS" "map_of GPU_METRIC_RULES name = Some rule"
  shows "\<exists>r. map_of (gpu_readings (gpu_of_row row)) name = Some r \<and> accepts rule r \<and>
    (if accepts rule (smi_numeric (map_of (row_values row) query))
     then \<bar>num_val r - num_val (smi_numeric (map_of (row_values row) query))\<bar> < 1 \<and>
       \<not> has_key (g_telemetry_errors (gpu_of_row row)) name
     else r = reset_value name \<and> has_key (g_telemetry_errors (gpu_of_row row)) name)"
proof -
  let ?v = "map_of (row_values row)"
  have bad: "(\<exists>q. (name, q) \<in> set GPU_NUMERIC_FIELDS \<and> refused ?v name q) \<longleftrightarrow> \<not> accepts rule (smi_numeric (?v query))"
  proof -
    have "refused ?v name query \<longleftrightarrow> \<not> accepts rule (smi_numeric (?v query))" by (simp add: refused_def assms(2))
    then show ?thesis using assms(1) field_unique[OF assms(1)] by blast
  qed
  have none: "g_telemetry_errors (gpu_of_values ?v) = []" by (simp add: gpu_of_values_def new_gpu_def)
  have reset: "accepts rule (reset_value name)"
    using reset_value_accepted[of name rule] map_of_SomeD[OF assms(2)] by simp
  have shown: "map_of (gpu_readings (gpu_of_row row)) name =
      (if accepts rule (smi_numeric (?v query)) then map_of (gpu_readings (gpu_of_values ?v)) name else Some (reset_value name))"
    and marked: "has_key (g_telemetry_errors (gpu_of_row row)) name \<longleftrightarrow> \<not> accepts rule (smi_numeric (?v query))"
    unfolding gpu_of_row_def Let_def check_fields bad none by (simp_all add: has_key_def)
  show ?thesis
  proof (cases "accepts rule (smi_numeric (?v query))")
    case True
    from reading_of_field[where v = ?v, OF assms True] show ?thesis unfolding shown marked using True by simp
  next
    case False
    then show ?thesis unfolding shown marked using reset by simp
  qed
qed

text \<open>
  C17: every number the tool is asked for is shown within one unit of what it printed if its rule accepts it, and
  is else reset to a value the rule accepts and marked as unavailable; nothing else is marked.
\<close>

theorem smi_reading_exact:
  assumes "(name, query) \<in> set GPU_NUMERIC_FIELDS" "map_of GPU_METRIC_RULES name = Some rule"
  shows "\<exists>r. map_of (gpu_readings (gpu_of_row row)) name = Some r \<and> accepts rule r \<and>
    (if accepts rule (smi_numeric (map_of (row_values row) query))
     then \<bar>num_val r - num_val (smi_numeric (map_of (row_values row) query))\<bar> < 1 \<and>
       \<not> has_key (g_telemetry_errors (gpu_of_row row)) name
     else r = reset_value name \<and> has_key (g_telemetry_errors (gpu_of_row row)) name)"
  by (rule row_reading[OF assms])

lemma smi_reading_exact_witness:
  "\<exists>r. map_of (gpu_readings (gpu_of_row [''0'', ''GPU-1'', ''H100'', ''00:1'', ''550'', ''[N/A]''])) ''temperature_c'' = Some r \<and>
     r = PInt 0 \<and> has_key (g_telemetry_errors (gpu_of_row [''0'', ''GPU-1'', ''H100'', ''00:1'', ''550'', ''[N/A]''])) ''temperature_c''"
proof -
  have "(''temperature_c'', ''temperature.gpu'') \<in> set GPU_NUMERIC_FIELDS" by code_simp
  moreover have "map_of GPU_METRIC_RULES ''temperature_c'' = Some (default_rule\<lparr>minimum := - 27315 / 100\<rparr>)" by (simp add: GPU_METRIC_RULES_def)
  moreover have "smi_numeric (map_of (row_values [''0'', ''GPU-1'', ''H100'', ''00:1'', ''550'', ''[N/A]'']) ''temperature.gpu'') = PNone"
    by code_simp
  moreover have "reset_value ''temperature_c'' = PInt 0" by (simp add: reset_value_def GPU_METRIC_RULES_def default_rule_def)
  moreover have "\<not> accepts (default_rule\<lparr>minimum := - 27315 / 100\<rparr>) PNone" by (simp add: default_rule_def)
  ultimately show ?thesis
    using smi_reading_exact[of "''temperature_c''" "''temperature.gpu''" "default_rule\<lparr>minimum := - 27315 / 100\<rparr>"
        "[''0'', ''GPU-1'', ''H100'', ''00:1'', ''550'', ''[N/A]'']"] by presburger
qed

subsection \<open>The output of the tool is read back\<close>

definition plain_cell :: "string \<Rightarrow> bool" where
  "plain_cell w \<longleftrightarrow> (\<forall>c \<in> set w. c \<noteq> CHR '','' \<and> c \<noteq> CHR 0x22 \<and> \<not> newline c) \<and> length w < FIELD_LIMIT"

lemma csv_chars_append: "csv_chars (a @ b) r = rbind (csv_chars a r) (csv_chars b)"
  by (induction a arbitrary: r) (auto, metis rbind.simps sum.exhaust)

lemma csv_cell:
  assumes "\<forall>c \<in> set w. c \<noteq> CHR '','' \<and> c \<noteq> CHR 0x22 \<and> \<not> newline c" "length (cv_field r) + length w \<le> FIELD_LIMIT"
    and "cv_state r \<in> {StartField, InField}"
  shows "csv_chars (map Some w) r = Inr (r\<lparr>cv_field := cv_field r @ w, cv_state := if w = [] then cv_state r else InField\<rparr>)"
  using assms
proof (induction w arbitrary: r)
  case (Cons c w)
  have "csv_char (Some c) r = Inr (r\<lparr>cv_field := cv_field r @ [c], cv_state := InField\<rparr>)"
    using Cons.prems by (cases "cv_state r") (simp_all add: csv_char_def csv_start_field_def csv_add_def)
  moreover have "csv_chars (map Some w) (r\<lparr>cv_field := cv_field r @ [c], cv_state := InField\<rparr>) =
      Inr (r\<lparr>cv_field := cv_field r @ c # w, cv_state := InField\<rparr>)"
    using Cons.IH[of "r\<lparr>cv_field := cv_field r @ [c], cv_state := InField\<rparr>"] Cons.prems by simp
  ultimately show ?case by simp
qed simp

lemma csv_end:
  assumes "cv_state r \<in> {StartField, InField}"
  shows "csv_chars (map Some [CHR 0x0A] @ [None]) r = Inr (r\<lparr>cv_state := StartRecord, cv_field := [], cv_row := cv_row r @ [cv_field r]\<rparr>)"
  using assms by (auto simp: csv_char_def csv_start_field_def csv_save_def newline_def)

lemma csv_comma:
  assumes "cv_state r \<in> {StartField, InField}"
  shows "csv_char (Some (CHR '','')) r = Inr (r\<lparr>cv_state := StartField, cv_field := [], cv_row := cv_row r @ [cv_field r]\<rparr>)"
  using assms by (auto simp: csv_char_def csv_start_field_def csv_save_def newline_def)

lemma csv_cells:
  assumes "ws \<noteq> []" "\<forall>w \<in> set ws. plain_cell w" "cv_state r = StartField" "cv_field r = []"
  shows "csv_line (py_join '','' ws @ [CHR 0x0A]) r = Inr (r\<lparr>cv_state := StartRecord, cv_field := [], cv_row := cv_row r @ ws\<rparr>)"
  using assms
proof (induction "'',''" ws arbitrary: r rule: py_join.induct)
  case (2 w)
  let ?r = "r\<lparr>cv_field := w, cv_state := if w = [] then cv_state r else InField\<rparr>"
  have "csv_chars (map Some w) r = Inr ?r" using csv_cell[of w r] 2 by (simp add: plain_cell_def)
  moreover have "cv_state ?r \<in> {StartField, InField}" using 2 by simp
  ultimately show ?case using csv_end[of ?r] by (simp add: csv_line_def csv_chars_append del: csv_chars.simps)
next
  case (3 w v ws)
  let ?r = "r\<lparr>cv_field := w, cv_state := if w = [] then cv_state r else InField\<rparr>"
  let ?q = "r\<lparr>cv_state := StartField, cv_field := [], cv_row := cv_row r @ [w]\<rparr>"
  have w: "csv_chars (map Some w) r = Inr ?r" using csv_cell[of w r] 3 by (simp add: plain_cell_def)
  have "cv_state ?r \<in> {StartField, InField}" using 3 by simp
  from csv_comma[OF this] have c: "csv_char (Some (CHR '','')) ?r = Inr ?q" by simp
  have "csv_line (py_join '','' (w # v # ws) @ [CHR 0x0A]) r = csv_line (py_join '','' (v # ws) @ [CHR 0x0A]) ?q"
    by (simp add: csv_line_def csv_chars_append w c)
  also have "\<dots> = Inr (r\<lparr>cv_state := StartRecord, cv_field := [], cv_row := cv_row r @ w # v # ws\<rparr>)"
    using 3(1)[of ?q] 3(3) by simp
  finally show ?case .
qed simp

lemma text_lines_line: "CHR 0x0A \<notin> set l \<Longrightarrow> text_lines (l @ CHR 0x0A # s) = (l @ [CHR 0x0A]) # text_lines s"
  by (induction l) auto

text \<open>How the tool prints a table: cells apart by a comma and a blank, a line for each row.\<close>

definition printed_row :: "string list \<Rightarrow> string" where
  "printed_row ws = py_join '', '' ws @ [CHR 0x0A]"

fun spaced :: "string list \<Rightarrow> string list" where
  "spaced [] = []"
| "spaced (w # ws) = w # map (\<lambda>v. CHR '' '' # v) ws"

definition printable_row :: "string list \<Rightarrow> bool" where
  "printable_row ws \<longleftrightarrow> \<not> blank_row ws \<and> (\<forall>w \<in> set ws. plain_cell w \<and> length w + 1 < FIELD_LIMIT)"

lemma join_spaced: "py_join '', '' ws = py_join '','' (spaced ws)"
proof (induction "'', ''" ws rule: py_join.induct)
  case (3 w v ws)
  then show ?case by (cases ws) auto
qed auto

lemma spaced_plain: "printable_row ws \<Longrightarrow> \<forall>w \<in> set (spaced ws). plain_cell w"
proof (cases ws)
  case (Cons w vs)
  assume "printable_row ws"
  then show ?thesis unfolding Cons printable_row_def plain_cell_def by (auto simp: newline_def)
qed simp

lemma strip_spaced: "py_strip (spaced ws ! i) = py_strip (ws ! i)" if "i < length ws"
proof -
  have "py_strip (CHR '' '' # v) = py_strip v" for v by (simp add: py_strip_def py_ws_def)
  then show ?thesis using that by (cases ws; cases i) auto
qed

lemma spaced_length [simp]: "length (spaced ws) = length ws"
  by (cases ws) auto

lemma row_values_spaced: "row_values (spaced ws) = row_values ws"
  by (auto simp: row_values_def strip_spaced)

lemma blank_spaced: "blank_row (spaced ws) = blank_row ws"
  by (auto simp: blank_row_def list_all_length strip_spaced)

lemma line_is_row:
  assumes "printable_row ws"
  shows "csv_line (printed_row ws) new_record = Inr \<lparr>cv_state = StartRecord, cv_field = [], cv_row = spaced ws\<rparr>"
proof -
  have ne: "ws \<noteq> []" "ws \<noteq> [[]]" using assms by (auto simp: printable_row_def blank_row_def py_strip_def)
  let ?line = "py_join '','' (spaced ws)"
  have first: "\<exists>c s. ?line = c # s \<and> \<not> newline c"
    using ne spaced_plain[OF assms]
    by (cases ws; cases "tl ws"; cases "hd ws") (auto simp: plain_cell_def newline_def)
  then obtain c s where c: "?line = c # s" "\<not> newline c" by blast
  have "csv_char (Some c) new_record = csv_char (Some c) (new_record\<lparr>cv_state := StartField\<rparr>)"
    using c(2) by (simp add: csv_char_def csv_start_field_def csv_add_def csv_save_def new_record_def)
  then have "csv_line (printed_row ws) new_record = csv_line (?line @ [CHR 0x0A]) (new_record\<lparr>cv_state := StartField\<rparr>)"
    by (simp add: csv_line_def printed_row_def join_spaced c(1))
  then show ?thesis using csv_cells[of "spaced ws" "new_record\<lparr>cv_state := StartField\<rparr>"] ne spaced_plain[OF assms]
    by (cases ws) (simp_all add: new_record_def)
qed

lemma csv_rows_printed: "\<forall>ws \<in> set rows. printable_row ws \<Longrightarrow> csv_rows (concat (map printed_row rows)) = (map spaced rows, None)"
proof (induction rows)
  case Nil
  then show ?case by (simp add: csv_rows_def new_record_def)
next
  case (Cons ws rows)
  have "CHR 0x0A \<notin> set (py_join '', '' ws)"
    using join_chars[of "'', ''" ws] Cons.prems by (auto simp: printable_row_def plain_cell_def newline_def)
  then have "text_lines (concat (map printed_row (ws # rows))) = printed_row ws # text_lines (concat (map printed_row rows))"
    using text_lines_line by (simp add: printed_row_def)
  then show ?case using Cons by (simp add: csv_rows_def line_is_row)
qed

text \<open>
  What a row says, by the position of its cells: a cell that is missing, blank or not available says nothing.
\<close>

definition cell :: "string list \<Rightarrow> nat \<Rightarrow> string option" where
  "cell ws k =
     (if k < length ws \<and> py_strip (ws ! k) \<noteq> [] \<and> py_upper (py_strip (ws ! k)) \<notin> {''N/A'', ''[N/A]'', ''NOT SUPPORTED''}
      then Some (py_strip (ws ! k)) else None)"

definition cell_number :: "string list \<Rightarrow> nat \<Rightarrow> pyval" where
  "cell_number ws k =
     (case cell ws k of None \<Rightarrow> PNone | Some t \<Rightarrow> (case parse_float t of None \<Rightarrow> PNone | Some x \<Rightarrow> PFlt x))"

definition NUMBER_COLUMNS :: "(string \<times> nat) list" where
  "NUMBER_COLUMNS =
     [(''temperature_c'', 5), (''utilization_gpu'', 6), (''utilization_mem'', 7), (''memory_total_mb'', 8), (''memory_used_mb'', 9),
      (''memory_free_mb'', 10), (''power_watts'', 11), (''power_limit_watts'', 12), (''clock_sm_mhz'', 13), (''clock_mem_mhz'', 14)]"

definition row_read :: "string list \<Rightarrow> raw_gpu \<Rightarrow> bool" where
  "row_read ws g \<longleftrightarrow>
     g_index g = (case cell_number ws 0 of PFlt (Fin x) \<Rightarrow> trunc x | _ \<Rightarrow> 0) \<and>
     g_uuid g = (case cell ws 1 of None \<Rightarrow> ''unknown'' | Some t \<Rightarrow> t) \<and>
     g_name g = (case cell ws 2 of None \<Rightarrow> ''unknown'' | Some t \<Rightarrow> t) \<and>
     g_pci_bus_id g = (case cell ws 3 of None \<Rightarrow> PNone | Some t \<Rightarrow> PStr t) \<and>
     g_pstate g = (case cell ws 15 of None \<Rightarrow> PNone | Some t \<Rightarrow> PStr t) \<and>
     g_compute_mode g = (case cell ws 16 of None \<Rightarrow> PNone | Some t \<Rightarrow> PStr t) \<and>
     g_mig_mode g = (case cell ws 17 of None \<Rightarrow> PNone | Some t \<Rightarrow> PStr t) \<and>
     (\<forall>(name, k) \<in> set NUMBER_COLUMNS. \<forall>rule. map_of GPU_METRIC_RULES name = Some rule \<longrightarrow>
        (\<exists>r. map_of (gpu_readings g) name = Some r \<and>
          (if accepts rule (cell_number ws k)
           then \<bar>num_val r - num_val (cell_number ws k)\<bar> < 1 \<and> \<not> has_key (g_telemetry_errors g) name
           else r = reset_value name \<and> has_key (g_telemetry_errors g) name)))"

lemma row_value_cell:
  assumes "k < length GPU_QUERY_FIELDS"
  shows "smi_clean (map_of (row_values ws) (GPU_QUERY_FIELDS ! k)) = cell ws k"
proof -
  have "map fst (row_values ws) = GPU_QUERY_FIELDS" by (simp add: row_values_def comp_def case_prod_unfold)
  then have d: "distinct (map fst (row_values ws))" by (simp add: GPU_QUERY_FIELDS_def)
  have "k < length (row_values ws)" using assms by (simp add: row_values_def)
  from nth_mem[OF this] have "(GPU_QUERY_FIELDS ! k, if k < length ws then py_strip (ws ! k) else []) \<in> set (row_values ws)"
    using assms by (simp add: row_values_def nth_enumerate_eq)
  then have "map_of (row_values ws) (GPU_QUERY_FIELDS ! k) = Some (if k < length ws then py_strip (ws ! k) else [])"
    by (rule map_of_is_SomeI[OF d])
  moreover have "py_strip [] = []" by (simp add: py_strip_def)
  ultimately show ?thesis by (simp add: smi_clean_def cell_def Let_def)
qed

lemma row_number_cell:
  "k < length GPU_QUERY_FIELDS \<Longrightarrow> smi_numeric (map_of (row_values ws) (GPU_QUERY_FIELDS ! k)) = cell_number ws k"
  by (simp add: smi_numeric_def row_value_cell cell_number_def split: option.split)

lemma query_field_count: "length GPU_QUERY_FIELDS = 18"
  by (simp add: GPU_QUERY_FIELDS_def)

lemma number_column: "(name, k) \<in> set NUMBER_COLUMNS \<Longrightarrow> k < 18 \<and> (name, GPU_QUERY_FIELDS ! k) \<in> set GPU_NUMERIC_FIELDS"
  unfolding NUMBER_COLUMNS_def list.set insert_iff empty_iff prod.inject
  by (elim disjE FalseE conjE) (simp_all add: GPU_QUERY_FIELDS_def GPU_NUMERIC_FIELDS_def)

definition texts_of :: "raw_gpu \<Rightarrow> int \<times> string \<times> string \<times> pyval \<times> pyval \<times> pyval \<times> pyval" where
  "texts_of g = (g_index g, g_uuid g, g_name g, g_pci_bus_id g, g_pstate g, g_compute_mode g, g_mig_mode g)"

lemma check_fields_texts: "texts_of (fold (check_field v) nqs g) = texts_of g"
proof (induction nqs arbitrary: g)
  case (Cons nq nqs)
  have "texts_of (set_reading n x h) = texts_of h" for n x h by (simp add: set_reading_def texts_of_def)
  moreover have "texts_of (h\<lparr>g_telemetry_errors := e\<rparr>) = texts_of h" for h e by (simp add: texts_of_def)
  ultimately have "texts_of (check_field v nq g) = texts_of g" by (simp add: check_field_def split: prod.split option.split)
  then show ?case using Cons by simp
qed simp

lemma row_read_gpu: "row_read ws (gpu_of_row ws)"
proof -
  let ?v = "map_of (row_values ws)"
  have t: "smi_clean (?v ''uuid'') = cell ws 1" "smi_clean (?v ''name'') = cell ws 2" "smi_clean (?v ''pci.bus_id'') = cell ws 3"
    "smi_clean (?v ''pstate'') = cell ws 15" "smi_clean (?v ''compute_mode'') = cell ws 16" "smi_clean (?v ''mig.mode.current'') = cell ws 17"
    "smi_numeric (?v ''index'') = cell_number ws 0"
    using row_value_cell[of 1 ws] row_value_cell[of 2 ws] row_value_cell[of 3 ws] row_value_cell[of 15 ws] row_value_cell[of 16 ws]
      row_value_cell[of 17 ws] row_number_cell[of 0 ws]
    by (simp_all add: GPU_QUERY_FIELDS_def)
  have o: "str_or w ''unknown'' = (case w of None \<Rightarrow> ''unknown'' | Some t \<Rightarrow> t)" if "w \<noteq> Some []" for w
    using that by (auto simp: str_or_def split: option.split list.split)
  have ne: "cell ws k \<noteq> Some []" for k by (simp add: cell_def)
  have texts: "texts_of (gpu_of_row ws) = texts_of (gpu_of_values ?v)" by (simp add: gpu_of_row_def Let_def check_fields_texts)
  have numbers: "\<exists>r. map_of (gpu_readings (gpu_of_row ws)) name = Some r \<and>
      (if accepts rule (cell_number ws k)
       then \<bar>num_val r - num_val (cell_number ws k)\<bar> < 1 \<and> \<not> has_key (g_telemetry_errors (gpu_of_row ws)) name
       else r = reset_value name \<and> has_key (g_telemetry_errors (gpu_of_row ws)) name)"
    if "(name, k) \<in> set NUMBER_COLUMNS" "map_of GPU_METRIC_RULES name = Some rule" for name k rule
    using row_reading[OF conjunct2[OF number_column[OF that(1)]] that(2), of ws] row_number_cell[of k ws] number_column[OF that(1)]
    by (auto simp: query_field_count)
  show ?thesis
    unfolding row_read_def using texts numbers
    by (simp add: texts_of_def gpu_of_values_def new_gpu_def t o ne opt_val_def smi_to_int_numeric split_beta)
qed

lemma first_driver_find: "first_driver rows = Option.bind (find (\<lambda>ws. cell ws 4 \<noteq> None) rows) (\<lambda>ws. cell ws 4)"
proof -
  have c: "smi_clean (map_of (row_values ws) ''driver_version'') = cell ws 4" for ws
    using row_value_cell[of 4 ws] by (simp add: GPU_QUERY_FIELDS_def)
  have found: "fold (\<lambda>ws found. case found of Some d \<Rightarrow> Some d | None \<Rightarrow> cell ws 4) rows (Some d) = Some d" for rows d
    by (induction rows) simp_all
  show ?thesis unfolding first_driver_def c by (induction rows) (auto simp: found split: option.splits)
qed

text \<open>
  C16: whatever table of accelerators the tool prints, in cells without commas, quotes and line breaks, parsing
  its output gives one accelerator per row, in order, with the index, the texts and the numbers of that row's cells,
  each from the column the tool was asked to print there; a text that is missing or not available is unknown, and a
  number that its rule refuses is reset and marked.  The driver version is the first one a row holds.
\<close>

theorem smi_output_read:
  assumes "\<forall>ws \<in> set rows. printable_row ws"
  shows "\<exists>gpus. parse_gpu_query_csv (concat (map printed_row rows)) =
      Inr (gpus, Option.bind (find (\<lambda>ws. cell ws 4 \<noteq> None) rows) (\<lambda>ws. cell ws 4)) \<and>
    list_all2 row_read rows gpus"
proof -
  have keep: "filter (\<lambda>row. \<not> blank_row row) (map spaced rows) = map spaced rows"
    using assms by (induction rows) (auto simp: printable_row_def blank_spaced)
  have gpu: "gpu_of_row (spaced ws) = gpu_of_row ws" for ws by (simp add: gpu_of_row_def row_values_spaced)
  have "first_driver (map spaced rows) = first_driver rows" by (simp add: first_driver_def fold_map comp_def row_values_spaced)
  then have "parse_gpu_query_csv (concat (map printed_row rows)) = Inr (map gpu_of_row rows, first_driver rows)"
    by (simp add: parse_gpu_query_csv_def csv_rows_printed[OF assms] keep gpu Let_def)
  moreover have "list_all2 row_read rows (map gpu_of_row rows)" by (simp add: list_all2_conv_all_nth row_read_gpu)
  ultimately show ?thesis by (auto simp: first_driver_find)
qed

lemma smi_output_read_witness:
  "\<exists>g h. parse_gpu_query_csv (''0, GPU-1, H100, N/A, 550'' @ [CHR 0x0A] @ ''1, GPU-2'' @ [CHR 0x0A]) = Inr ([g, h], Some ''550'') \<and>
     g_uuid g = ''GPU-1'' \<and> g_name g = ''H100'' \<and> g_pci_bus_id g = PNone \<and> g_uuid h = ''GPU-2'' \<and> g_name h = ''unknown''"
proof -
  let ?rows = "[[''0'', ''GPU-1'', ''H100'', ''N/A'', ''550''], [''1'', ''GPU-2'']]"
  have p: "\<forall>ws \<in> set ?rows. printable_row ws"
    by (simp add: printable_row_def blank_row_def plain_cell_def newline_def FIELD_LIMIT_def py_strip_def py_ws_def)
  have out: "concat (map printed_row ?rows) = ''0, GPU-1, H100, N/A, 550'' @ [CHR 0x0A] @ ''1, GPU-2'' @ [CHR 0x0A]"
    by (simp add: printed_row_def)
  have c: "Option.bind (find (\<lambda>ws. cell ws 4 \<noteq> None) ?rows) (\<lambda>ws. cell ws 4) = Some ''550''"
    "cell (?rows ! 0) 1 = Some ''GPU-1''" "cell (?rows ! 0) 2 = Some ''H100''" "cell (?rows ! 0) 3 = None"
    "cell (?rows ! 1) 1 = Some ''GPU-2''" "cell (?rows ! 1) 2 = None"
    by code_simp+
  obtain gpus where g: "parse_gpu_query_csv (concat (map printed_row ?rows)) = Inr (gpus, Some ''550'')" "list_all2 row_read ?rows gpus"
    using smi_output_read[OF p] unfolding c(1) by blast
  then obtain a b where ab: "gpus = [a, b]" "row_read (?rows ! 0) a" "row_read (?rows ! 1) b"
    by (auto simp: list_all2_Cons1)
  have a: "g_uuid a = ''GPU-1''" "g_name a = ''H100''" "g_pci_bus_id a = PNone"
    using ab(2) c unfolding row_read_def by (metis option.simps(4,5))+
  have b: "g_uuid b = ''GPU-2''" "g_name b = ''unknown''"
    using ab(3) c unfolding row_read_def by (metis option.simps(4,5))+
  show ?thesis using g(1) out a b ab(1) by (intro exI[of _ a] exI[of _ b]) simp
qed

end
