(* ===== verification/GpmSampler.thy ===== *)
theory GpmSampler
  imports Schema
begin

text \<open>
  \<open>packages/backend/src/constella/nvml_gpm.py\<close>: the performance metrics of an NVIDIA accelerator are measured
  between two samples of its counters, which the driver keeps in two buffers that take turns.

  What the driver does in one round is the record \<open>gpm_driver\<close>; the contents of a buffer are of any type. The
  calls return a code, zero for success. A buffer is freed by a call that changes no state here.
\<close>

record 's gpm_driver =
  gv_support :: "int \<times> bool"
  gv_alloc :: "(int \<times> 's) \<times> (int \<times> 's)"
  gv_sample :: "int \<times> 's"
  gv_metrics :: "'s \<Rightarrow> 's \<Rightarrow> string list \<Rightarrow> int \<times> (nat \<Rightarrow> int \<times> flt)"

definition NVML_ERROR_NOT_SUPPORTED :: int where
  "NVML_ERROR_NOT_SUPPORTED = 3"

record 's gpm_state =
  gd_samples :: "('s \<times> 's) option"
  gd_current :: nat
  gd_previous_at :: "rat option"
  gd_supported :: "bool option"
  gd_supported_metrics :: "string list option"
  gd_errors :: nat
  gd_retry_at :: rat

definition new_gpm_state :: "'s gpm_state" where
  "new_gpm_state =
     \<lparr>gd_samples = None, gd_current = 0, gd_previous_at = None, gd_supported = None, gd_supported_metrics = None,
      gd_errors = 0, gd_retry_at = 0\<rparr>"

record 's gpm_provider =
  gp_available :: bool
  gp_retry_seconds :: rat
  gp_states :: "(nat, 's gpm_state) dict"

definition GPM_FUNCTIONS :: "string list" where
  "GPM_FUNCTIONS = [''nvmlGpmQueryDeviceSupport'', ''nvmlGpmSampleAlloc'', ''nvmlGpmSampleFree'', ''nvmlGpmSampleGet'',
     ''nvmlGpmMetricsGet'']"

definition new_gpm_provider :: "environ \<Rightarrow> (string \<Rightarrow> bool) \<Rightarrow> rat \<Rightarrow> 's gpm_provider" where
  "new_gpm_provider env has_function retry =
     \<lparr>gp_available = (nvidia_gpm_enabled env \<and> list_all has_function GPM_FUNCTIONS), gp_retry_seconds = retry, gp_states = []\<rparr>"

definition close_gpm_provider :: "'s gpm_provider \<Rightarrow> 's gpm_provider" where
  "close_gpm_provider gp = (if gp_available gp then gp\<lparr>gp_states := []\<rparr> else gp)"

definition gpm_result ::
    "string \<Rightarrow> rat \<Rightarrow> rat option \<Rightarrow> (string, pyval) dict \<Rightarrow> string list \<Rightarrow> string option \<Rightarrow> string list \<Rightarrow> performance result" where
  "gpm_result status sampled_at interval_ms metrics supported err invalid =
     mk_performance NVIDIA_GPM_PROFILE status (PFlt (Fin sampled_at)) (opt_val (\<lambda>x. PFlt (Fin x)) interval_ms)
       metrics supported err invalid"

text \<open>Two slots that take turns.\<close>

definition slot :: "nat \<Rightarrow> 's \<times> 's \<Rightarrow> 's" where
  "slot i p = (if i = 0 then fst p else snd p)"

definition put_slot :: "nat \<Rightarrow> 's \<Rightarrow> 's \<times> 's \<Rightarrow> 's \<times> 's" where
  "put_slot i s p = (if i = 0 then (s, snd p) else (fst p, s))"

lemma slot_put [simp]: "slot i (put_slot i s p) = s" "i \<le> Suc 0 \<Longrightarrow> slot (Suc 0 - i) (put_slot i s p) = slot (Suc 0 - i) p"
  by (auto simp: slot_def put_slot_def)

definition failed_call :: "string \<Rightarrow> int \<Rightarrow> string" where
  "failed_call name rc = name @ '' failed with code '' @ int_str rc"

definition query_support :: "'s gpm_driver \<Rightarrow> 's gpm_state \<Rightarrow> string + bool" where
  "query_support v d =
     (case gd_supported d of
        Some b \<Rightarrow> Inr b
      | None \<Rightarrow> if fst (gv_support v) \<noteq> 0 then Inl (failed_call ''nvmlGpmQueryDeviceSupport'' (fst (gv_support v)))
                else Inr (snd (gv_support v)))"

definition allocate_samples :: "'s gpm_driver \<Rightarrow> 's gpm_state \<Rightarrow> string + 's \<times> 's" where
  "allocate_samples v d =
     (case gd_samples d of
        Some p \<Rightarrow> Inr p
      | None \<Rightarrow>
          (case gv_alloc v of ((rc1, s1), (rc2, s2)) \<Rightarrow>
             if rc1 \<noteq> 0 then Inl (failed_call ''nvmlGpmSampleAlloc'' rc1)
             else if rc2 \<noteq> 0 then Inl (failed_call ''nvmlGpmSampleAlloc'' rc2)
             else Inr (s1, s2)))"

definition gpm_values :: "(nat \<Rightarrow> int \<times> flt) \<Rightarrow> string list \<Rightarrow> (string, pyval) dict" where
  "gpm_values entry requested =
     map (\<lambda>(i, m). (m, PFlt (flt_round 3 (snd (entry i))))) (filter (\<lambda>(i, m). fst (entry i) = 0) (enumerate 0 requested))"

definition gpm_metrics ::
    "'s gpm_driver \<Rightarrow> 's \<Rightarrow> 's \<Rightarrow> string list \<Rightarrow> string + (string, pyval) dict \<times> string list \<times> string list" where
  "gpm_metrics v first second requested =
     (case gv_metrics v first second requested of (rc, entry) \<Rightarrow>
        if rc \<noteq> 0 then Inl (failed_call ''nvmlGpmMetricsGet'' rc)
        else Inr (gpm_values entry requested,
          map snd (filter (\<lambda>(i, m). fst (entry i) \<noteq> NVML_ERROR_NOT_SUPPORTED) (enumerate 0 requested)),
          map snd (filter (\<lambda>(i, m). fst (entry i) \<notin> {0, NVML_ERROR_NOT_SUPPORTED}) (enumerate 0 requested))))"

definition known_metrics :: "'s gpm_state \<Rightarrow> string list" where
  "known_metrics d = (case gd_supported_metrics d of None \<Rightarrow> [] | Some ms \<Rightarrow> ms)"

definition requested_metrics :: "'s gpm_state \<Rightarrow> string list" where
  "requested_metrics d = (if known_metrics d = [] then NVIDIA_GPM_METRICS else known_metrics d)"

definition advance :: "rat \<Rightarrow> 's gpm_state \<Rightarrow> 's gpm_state" where
  "advance now d = d\<lparr>gd_previous_at := Some now, gd_current := 1 - gd_current d, gd_errors := 0\<rparr>"

text \<open>
  The body of the try block: the text of the exception with the metrics that are already known to be invalid, or
  the result.
\<close>

definition measure_interval :: "rat \<Rightarrow> rat \<Rightarrow> rat \<Rightarrow> 's gpm_driver \<Rightarrow> 's \<times> 's \<Rightarrow> 's gpm_state
    \<Rightarrow> ((string \<times> string list) + performance result) \<times> 's gpm_state" where
  "measure_interval now sampled_at previous_at v p d =
     (let interval_ms = max 0 ((now - previous_at) * 1000)
      in if interval_ms < 100
         then (Inr (gpm_result ''warming'' sampled_at (Some (pyround 1 interval_ms)) [] (known_metrics d) None []), d)
         else (case gpm_metrics v (slot (1 - gd_current d) p) (slot (gd_current d) p) (requested_metrics d) of
             Inl why \<Rightarrow> (Inl (why, []), d)
           | Inr (metrics, supported, invalid) \<Rightarrow>
               let d1 = advance now (d\<lparr>gd_supported_metrics :=
                     (case gd_supported_metrics d of None \<Rightarrow> Some supported | Some ms \<Rightarrow> Some ms)\<rparr>)
               in if metrics = [] then (Inl (''NVML GPM returned no supported metrics'', invalid), d1)
                  else (Inr (gpm_result ''available'' sampled_at (Some (pyround 1 interval_ms)) metrics (known_metrics d1) None invalid),
                        d1)))"

definition try_sample :: "rat \<Rightarrow> rat \<Rightarrow> 's gpm_driver \<Rightarrow> 's gpm_state
    \<Rightarrow> ((string \<times> string list) + performance result) \<times> 's gpm_state" where
  "try_sample now sampled_at v d =
     (case query_support v d of
        Inl why \<Rightarrow> (Inl (why, []), d)
      | Inr supported \<Rightarrow>
          let d1 = d\<lparr>gd_supported := Some supported\<rparr>
          in if \<not> supported then (Inr (gpm_result ''unsupported'' sampled_at None [] [] None []), d1)
             else (case allocate_samples v d1 of
                 Inl why \<Rightarrow> (Inl (why, []), d1)
               | Inr p0 \<Rightarrow>
                   let p = put_slot (gd_current d1) (snd (gv_sample v)) p0; d2 = d1\<lparr>gd_samples := Some p\<rparr>
                   in if fst (gv_sample v) \<noteq> 0 then (Inl (failed_call ''nvmlGpmSampleGet'' (fst (gv_sample v)), []), d2)
                      else (case gd_previous_at d2 of
                          None \<Rightarrow> (Inr (gpm_result ''warming'' sampled_at None [] [] None []), advance now d2)
                        | Some t \<Rightarrow> measure_interval now sampled_at t v p d2)))"

text \<open>The third failure in a row puts the device aside for a while.\<close>

definition sample_failed :: "rat \<Rightarrow> rat \<Rightarrow> 's gpm_state \<Rightarrow> 's gpm_state" where
  "sample_failed retry now d =
     (let d1 = d\<lparr>gd_previous_at := None, gd_errors := gd_errors d + 1\<rparr>
      in if 3 \<le> gd_errors d1 then d1\<lparr>gd_retry_at := now + retry, gd_errors := 0\<rparr> else d1)"

definition sample_device ::
    "rat \<Rightarrow> rat \<Rightarrow> rat \<Rightarrow> 's gpm_driver \<Rightarrow> 's gpm_state \<Rightarrow> performance result \<times> 's gpm_state" where
  "sample_device retry now sampled_at v d =
     (if now < gd_retry_at d
      then (gpm_result ''error'' sampled_at None [] (known_metrics d) (Some ''GPM retry pending'') [], d)
      else (case try_sample now sampled_at v d of
          (Inr r, d1) \<Rightarrow> (r, d1)
        | (Inl (why, invalid), d1) \<Rightarrow>
            let d2 = sample_failed retry now d1
            in (gpm_result ''error'' sampled_at None [] (known_metrics d2) (Some why) invalid, d2)))"

definition gpm_sample ::
    "rat \<Rightarrow> rat \<Rightarrow> nat \<Rightarrow> 's gpm_driver \<Rightarrow> 's gpm_provider \<Rightarrow> performance result \<times> 's gpm_provider" where
  "gpm_sample now sampled_at index v gp =
     (if \<not> gp_available gp then (gpm_result ''unsupported'' sampled_at None [] [] None [], gp)
      else (case sample_device (gp_retry_seconds gp) now sampled_at v (get_or (gp_states gp) index new_gpm_state) of
          (r, d) \<Rightarrow> (r, gp\<lparr>gp_states := AList.update index d (gp_states gp)\<rparr>)))"

subsection \<open>Measurements\<close>

text \<open>The constructor accepts every result that is built here.\<close>

lemma gpm_result_ok:
  assumes "status \<in> {''warming'', ''available'', ''unsupported'', ''error''}"
  shows "\<exists>p. gpm_result status sampled_at interval ms known err invalid = Inr p \<and> f_sampled_at p = sampled_at \<and>
    f_interval_ms p = interval \<and> f_supported_metrics p = known \<and>
    f_metrics p = fst (filter_readings ms NVIDIA_GPM_RULES) \<and>
    (f_status p = status \<or> f_status p = ''error'')"
  using assms
  by (cases interval) (auto simp: gpm_result_def mk_performance_def PERFORMANCE_STATUSES_def opt_val_def Let_def split: prod.splits)

text \<open>The rounds of a device, the last one first: when each took place and what the driver did.\<close>

inductive gpm_run :: "rat \<Rightarrow> (rat \<times> 's gpm_driver) list \<Rightarrow> 's gpm_state \<Rightarrow> bool" for retry where
  start: "gpm_run retry [] new_gpm_state"
| round: "gpm_run retry hist d \<Longrightarrow> gpm_run retry ((now, v) # hist) (snd (sample_device retry now wall v d))"

inductive_cases gpm_run_nonempty: "gpm_run retry ((now, v) # hist) d"

text \<open>
  While the device remembers when it last sampled, the slot that is not written next holds exactly that sample.
\<close>

definition gpm_state_ok :: "(rat \<times> 's gpm_driver) list \<Rightarrow> 's gpm_state \<Rightarrow> bool" where
  "gpm_state_ok hist d \<longleftrightarrow> gd_current d \<le> 1 \<and>
     (\<forall>t. gd_previous_at d = Some t \<longrightarrow>
        (\<exists>v p. (t, v) \<in> set hist \<and> fst (gv_sample v) = 0 \<and> gd_samples d = Some p \<and>
           slot (1 - gd_current d) p = snd (gv_sample v)))"

lemma ok_failed: "gd_current d \<le> 1 \<Longrightarrow> gpm_state_ok hist (sample_failed retry now d)"
  by (simp add: sample_failed_def gpm_state_ok_def Let_def)

lemma current_advance [simp]: "gd_current (advance now d) \<le> Suc 0"
  by (simp add: advance_def)

lemma ok_advance:
  "gd_current d \<le> 1 \<Longrightarrow> gd_samples d = Some p \<Longrightarrow> slot (gd_current d) p = snd (gv_sample v) \<Longrightarrow> fst (gv_sample v) = 0 \<Longrightarrow>
     gpm_state_ok ((now, v) # hist) (advance now d)"
  by (fastforce simp: gpm_state_ok_def advance_def)

lemma ok_more: "gpm_state_ok hist d \<Longrightarrow> gpm_state_ok (x # hist) d"
  by (fastforce simp: gpm_state_ok_def)

text \<open>What the try block leaves is in order unless it raised, and then the handler forgets the last sample.\<close>

lemma try_sample_ok:
  assumes "gpm_state_ok hist d" "try_sample now wall v d = (r, d')"
  shows "gd_current d' \<le> 1 \<and> (is_ok r \<longrightarrow> gpm_state_ok ((now, v) # hist) d')"
proof -
  have c: "gd_current d \<le> 1" using assms(1) by (simp add: gpm_state_ok_def)
  let ?p = "\<lambda>p0. put_slot (gd_current d) (snd (gv_sample v)) p0"
  let ?d2 = "\<lambda>p0. d\<lparr>gd_supported := Some True, gd_samples := Some (?p p0)\<rparr>"
  have kept: "gpm_state_ok ((now, v) # hist) (?d2 p0)" if "allocate_samples v (d\<lparr>gd_supported := Some True\<rparr>) = Inr p0" for p0
    using assms(1) that c by (fastforce simp: gpm_state_ok_def allocate_samples_def split: option.splits)
  have idle: "gpm_state_ok ((now, v) # hist) (d\<lparr>gd_supported := b\<rparr>)" for b
    using ok_more[OF assms(1), of "(now, v)"] by (simp add: gpm_state_ok_def)
  have moved: "gpm_state_ok ((now, v) # hist) (advance now (?d2 p0))" if "fst (gv_sample v) = 0" for p0
    using that c by (intro ok_advance[of _ "?p p0"]) simp_all
  have moved': "gpm_state_ok ((now, v) # hist) (advance now ((?d2 p0)\<lparr>gd_supported_metrics := ms\<rparr>))"
    if "fst (gv_sample v) = 0" for p0 ms
    using that c by (intro ok_advance[of _ "?p p0"]) simp_all
  show ?thesis
    using assms(2) c
    by (auto simp: try_sample_def measure_interval_def Let_def kept idle moved moved' split: sum.splits option.splits if_splits prod.splits)
qed

lemma gpm_run_ok: "gpm_run retry hist d \<Longrightarrow> gpm_state_ok hist d"
proof (induction rule: gpm_run.induct)
  case start
  then show ?case by (simp add: gpm_state_ok_def new_gpm_state_def)
next
  case (round hist d now v wall)
  obtain r d1 where t: "try_sample now wall v d = (r, d1)" by fastforce
  show ?case
    using try_sample_ok[OF round.IH t] ok_more[OF round.IH] ok_failed[of d1]
    by (cases r) (auto simp: sample_device_def t Let_def)
qed

lemma available_only:
  assumes "gpm_result status sampled_at interval ms known err invalid = Inr p" "f_status p = ''available''"
  shows "status = ''available''"
  using assms by (auto simp: gpm_result_def mk_performance_def Let_def split: if_splits prod.splits)

text \<open>The only way to a result that is available.\<close>

lemma tried_available:
  assumes "try_sample now wall v d = (Inr (Inr p), d1)" "f_status p = ''available''"
  shows "\<exists>t slots entry ks inv. gd_previous_at d = Some t \<and> allocate_samples v (d\<lparr>gd_supported := Some True\<rparr>) = Inr slots \<and>
    fst (gv_sample v) = 0 \<and> 100 \<le> (now - t) * 1000 \<and>
    gv_metrics v (slot (1 - gd_current d) (put_slot (gd_current d) (snd (gv_sample v)) slots)) (snd (gv_sample v))
      (requested_metrics d) = (0, entry) \<and>
    gpm_result ''available'' wall (Some (pyround 1 ((now - t) * 1000))) (gpm_values entry (requested_metrics d)) ks None inv = Inr p"
proof -
  have other: "gpm_result status at' i ms k e inv \<noteq> Inr p" if "status \<noteq> ''available''" for status at' i ms k e inv
    using available_only[OF _ assms(2)] that by blast
  have same: "requested_metrics (d\<lparr>gd_supported := b, gd_samples := q\<rparr>) = requested_metrics d" for b q
    by (simp add: requested_metrics_def known_metrics_def)
  show ?thesis
    using assms(1)
    by (auto simp: try_sample_def measure_interval_def gpm_metrics_def Let_def max_def other same split: option.splits prod.splits sum.splits if_splits) blast+
qed

text \<open>
  C13: metrics that are reported as available were computed by the driver from the sample the device took at the
  earlier round whose distance is reported, in that order, and from the sample of this round, at least a tenth of
  a second apart, and are the driver's values that their rules accept.
\<close>

theorem gpm_measures_interval:
  assumes "gpm_run retry hist d" "sample_device retry now wall v d = (Inr p, d')" "f_status p = ''available''"
  shows "\<exists>t u entry. (t, u) \<in> set hist \<and> fst (gv_sample u) = 0 \<and> fst (gv_sample v) = 0 \<and> t + 1 / 10 \<le> now \<and>
    gv_metrics v (snd (gv_sample u)) (snd (gv_sample v)) (requested_metrics d) = (0, entry) \<and>
    f_metrics p = fst (filter_readings (gpm_values entry (requested_metrics d)) NVIDIA_GPM_RULES) \<and>
    f_interval_ms p = Some (pyround 1 ((now - t) * 1000)) \<and> f_sampled_at p = wall"
proof -
  have now: "\<not> now < gd_retry_at d"
    using assms(2) by (auto simp: sample_device_def dest: available_only[OF _ assms(3)] split: if_splits)
  obtain r d1 where tried: "try_sample now wall v d = (r, d1)" by fastforce
  have ran: "r = Inr (Inr p)"
    using assms(2) now
    by (cases r) (auto simp: sample_device_def tried Let_def dest: available_only[OF _ assms(3)])
  from tried_available[OF tried[unfolded ran] assms(3)] obtain t slots entry ks inv where
    m: "gd_previous_at d = Some t" "allocate_samples v (d\<lparr>gd_supported := Some True\<rparr>) = Inr slots" "fst (gv_sample v) = 0"
      "100 \<le> (now - t) * 1000"
      "gv_metrics v (slot (1 - gd_current d) (put_slot (gd_current d) (snd (gv_sample v)) slots)) (snd (gv_sample v))
        (requested_metrics d) = (0, entry)"
      "gpm_result ''available'' wall (Some (pyround 1 ((now - t) * 1000))) (gpm_values entry (requested_metrics d)) ks None inv = Inr p"
    by blast
  have ok: "gpm_state_ok hist d" by (rule gpm_run_ok[OF assms(1)])
  then obtain u where u: "(t, u) \<in> set hist" "fst (gv_sample u) = 0" "slot (1 - gd_current d) slots = snd (gv_sample u)"
    using m(1,2) by (fastforce simp: gpm_state_ok_def allocate_samples_def)
  have older: "slot (1 - gd_current d) (put_slot (gd_current d) (snd (gv_sample v)) slots) = snd (gv_sample u)"
    using ok u(3) by (simp add: gpm_state_ok_def)
  have "f_metrics p = fst (filter_readings (gpm_values entry (requested_metrics d)) NVIDIA_GPM_RULES) \<and>
      f_interval_ms p = Some (pyround 1 ((now - t) * 1000)) \<and> f_sampled_at p = wall"
    using gpm_result_ok[of "''available''" wall "Some (pyround 1 ((now - t) * 1000))" "gpm_values entry (requested_metrics d)" ks None inv] m(6)
    by auto
  moreover have "t + 1 / 10 \<le> now" using m(4) by simp
  ultimately show ?thesis using u(1,2) m(3) m(5)[unfolded older] by blast
qed

text \<open>A device whose calls all succeed, but for those that compute metrics.\<close>

definition only_metrics_fail :: "'s gpm_driver \<Rightarrow> bool" where
  "only_metrics_fail v \<longleftrightarrow> fst (gv_support v) = 0 \<and> fst (fst (gv_alloc v)) = 0 \<and> fst (snd (gv_alloc v)) = 0 \<and> fst (gv_sample v) = 0"

lemma measure_frame:
  assumes "measure_interval now wall t v p d = (r, d')"
  shows "gd_retry_at d' = gd_retry_at d \<and> gd_errors d' \<le> gd_errors d"
  using assms by (auto simp: measure_interval_def advance_def Let_def split: sum.splits if_splits)

lemma try_without_call_errors:
  assumes "only_metrics_fail v" "try_sample now wall v d = (r, d')"
  shows "gd_retry_at d' = gd_retry_at d \<and> gd_errors d' \<le> gd_errors d \<and>
    (gd_previous_at d = None \<longrightarrow> is_ok r \<and> (gd_previous_at d' = None \<or> gd_errors d' = 0))"
proof -
  have calls: "\<exists>b. query_support v d = Inr b" "\<exists>q. allocate_samples v d0 = Inr q" for d0
    using assms(1) by (auto simp: only_metrics_fail_def query_support_def allocate_samples_def split: option.splits prod.splits)
  obtain b where b: "query_support v d = Inr b" using calls(1) by blast
  obtain q where q: "allocate_samples v (d\<lparr>gd_supported := Some True\<rparr>) = Inr q" using calls(2) by blast
  have s: "fst (gv_sample v) = 0" using assms(1) by (simp add: only_metrics_fail_def)
  show ?thesis
  proof (cases "gd_previous_at d")
    case None
    then show ?thesis using assms(2) by (cases b) (auto simp: try_sample_def b q s Let_def advance_def)
  next
    case (Some t)
    then show ?thesis using assms(2) measure_frame[of now wall t v]
      by (cases b) (fastforce simp: try_sample_def b q s Let_def)+
  qed
qed

lemma metrics_round:
  assumes "only_metrics_fail v" "gd_retry_at d = 0" "gd_errors d \<le> 1" "gd_errors d = 1 \<longrightarrow> gd_previous_at d = None" "0 \<le> now"
    and "sample_device retry now wall v d = (r, d')"
  shows "gd_retry_at d' = 0 \<and> gd_errors d' \<le> 1 \<and> (gd_errors d' = 1 \<longrightarrow> gd_previous_at d' = None)"
proof -
  obtain r1 d1 where t: "try_sample now wall v d = (r1, d1)" by fastforce
  note frame = try_without_call_errors[OF assms(1) t]
  have "d' = (case r1 of Inl e \<Rightarrow> sample_failed retry now d1 | Inr x \<Rightarrow> d1)"
    using assms(2,5,6) by (cases r1) (auto simp: sample_device_def t Let_def)
  then show ?thesis
    using frame assms(2-4) by (cases r1; cases "gd_previous_at d") (auto simp: sample_failed_def Let_def)
qed

text \<open>
  C39: a failure to compute metrics never puts the device aside: the round after it warms up again, which clears
  the count of errors, so that the third failure in a row, after which the device would rest, never comes.
\<close>

theorem metric_failures_never_rest:
  assumes "gpm_run retry hist d" "\<forall>(t, v) \<in> set hist. only_metrics_fail v \<and> 0 \<le> t"
  shows "gd_retry_at d = 0 \<and> gd_errors d \<le> 1"
proof -
  have "gd_retry_at d = 0 \<and> gd_errors d \<le> 1 \<and> (gd_errors d = 1 \<longrightarrow> gd_previous_at d = None)" using assms
  proof (induction rule: gpm_run.induct)
    case start
    then show ?case by (simp add: new_gpm_state_def)
  next
    case (round hist d now v wall)
    obtain r d' where s: "sample_device retry now wall v d = (r, d')" by fastforce
    show ?case using metrics_round[OF _ _ _ _ _ s] round by (simp add: s)
  qed
  then show ?thesis by simp
qed

text \<open>Failures to take a sample do put it aside.\<close>

lemma sample_failures_rest:
  assumes "fst (gv_sample v) \<noteq> 0" "gd_supported d = Some True" "gd_samples d \<noteq> None" "gd_retry_at d \<le> now" "gd_errors d = 2"
  shows "gd_retry_at (snd (sample_device retry now wall v d)) = now + retry"
  using assms by (auto simp: sample_device_def try_sample_def query_support_def allocate_samples_def sample_failed_def Let_def)

subsection \<open>Examples\<close>

definition counting_driver :: "int \<Rightarrow> nat \<Rightarrow> nat gpm_driver" where
  "counting_driver rc n =
     \<lparr>gv_support = (0, True), gv_alloc = ((0, 0), (0, 0)), gv_sample = (0, n),
      gv_metrics = (\<lambda>a b ms. (rc, \<lambda>i. (0, Fin (of_nat (b - a)))))\<rparr>"

definition after_one_round :: "nat gpm_state" where
  "after_one_round = snd (sample_device 30 10 100 (counting_driver 0 5) new_gpm_state)"

lemma gpm_measures_interval_witness:
  "\<exists>p d' t u entry. sample_device 30 11 101 (counting_driver 0 47) after_one_round = (Inr p, d') \<and> f_status p = ''available'' \<and>
     (t, u) \<in> set [(10, counting_driver 0 5)] \<and>
     f_metrics p = fst (filter_readings (gpm_values entry (requested_metrics after_one_round)) NVIDIA_GPM_RULES) \<and>
     f_interval_ms p = Some (pyround 1 ((11 - t) * 1000))"
proof -
  have run: "gpm_run 30 [(10, counting_driver 0 5)] after_one_round"
    unfolding after_one_round_def by (intro gpm_run.intros)
  have "case fst (sample_device 30 11 101 (counting_driver 0 47) after_one_round) of Inl e \<Rightarrow> False | Inr p \<Rightarrow> f_status p = ''available''"
    by code_simp
  then obtain p d' where s: "sample_device 30 11 101 (counting_driver 0 47) after_one_round = (Inr p, d')" "f_status p = ''available''"
    by (cases "sample_device 30 11 101 (counting_driver 0 47) after_one_round") (auto split: sum.splits)
  from gpm_measures_interval[OF run s] s show ?thesis by blast
qed

definition broken_rounds :: "nat gpm_state" where
  "broken_rounds = fold (\<lambda>now d. snd (sample_device 30 now now (counting_driver 999 5) d)) [10, 11, 12, 13, 14, 15] new_gpm_state"

lemma metric_failures_never_rest_witness:
  "gd_retry_at broken_rounds = 0 \<and> gd_errors broken_rounds \<le> 1"
proof -
  let ?v = "counting_driver 999 5"
  have "gpm_run 30 [(15, ?v), (14, ?v), (13, ?v), (12, ?v), (11, ?v), (10, ?v)] broken_rounds"
    unfolding broken_rounds_def fold_Cons fold_Nil o_apply id_apply by (intro gpm_run.intros)
  from metric_failures_never_rest[OF this] show ?thesis by (simp add: only_metrics_fail_def counting_driver_def)
qed

end
