(* ===== verification/Nvml.thy ===== *)
theory Nvml
  imports Collector NvidiaSmi GpmSampler "HOL-Library.Word"
begin

text \<open>
  \<open>packages/backend/src/constella/nvml.py\<close>: the preferred sampler of NVIDIA accelerators, which calls the driver
  library through \<^verbatim>\<open>ctypes\<close>. What the library answers during one sample is the record \<open>nvml\<close>: every call gives
  its return code, zero for success, and what it wrote, words of the width of the C types. A device is its index;
  the code of fetching its handle is one of the answers. Strings are the decoded contents of the buffers.
\<close>

record nvml =
  nv_has :: "string \<Rightarrow> bool"
  nv_count :: "int \<times> 32 word"
  nv_handle :: "nat \<Rightarrow> int"
  nv_system_string :: "string \<Rightarrow> int \<times> string"
  nv_cuda_version :: "int \<times> int"
  nv_string :: "string \<Rightarrow> nat \<Rightarrow> int \<times> string"
  nv_uint :: "string \<Rightarrow> nat \<Rightarrow> nat option \<Rightarrow> int \<times> 32 word"
  nv_mode :: "string \<Rightarrow> nat \<Rightarrow> int \<times> 32 word"
  nv_memory :: "nat \<Rightarrow> int \<times> 64 word \<times> 64 word"
  nv_memory_v2 :: "nat \<Rightarrow> int \<times> 64 word \<times> 64 word \<times> 64 word"
  nv_utilization :: "nat \<Rightarrow> int \<times> 32 word \<times> 32 word"
  nv_process_count :: "string \<Rightarrow> nat \<Rightarrow> int \<times> 32 word"
  nv_processes :: "string \<Rightarrow> nat \<Rightarrow> 32 word \<Rightarrow> int \<times> 32 word \<times> (nat \<Rightarrow> 32 word \<times> 64 word)"

definition NVML_ERROR_NO_PERMISSION :: int where
  "NVML_ERROR_NO_PERMISSION = 4"

definition NVML_ERROR_INSUFFICIENT_SIZE :: int where
  "NVML_ERROR_INSUFFICIENT_SIZE = 7"

definition NVML_CLOCK_SM :: nat where
  "NVML_CLOCK_SM = 1"

definition NVML_CLOCK_MEM :: nat where
  "NVML_CLOCK_MEM = 2"

definition STATIC_GPU_INFO_REFRESH_SECONDS :: rat where
  "STATIC_GPU_INFO_REFRESH_SECONDS = 60"

definition ARCHITECTURE_MAP :: "(int, string) dict" where
  "ARCHITECTURE_MAP = [(2, ''Kepler''), (3, ''Maxwell''), (4, ''Pascal''), (5, ''Volta''), (6, ''Turing''), (7, ''Ampere''),
     (8, ''Ada''), (9, ''Hopper''), (10, ''Blackwell''), (11, ''Orin'')]"

definition PSTATE_MAP :: "(int, string) dict" where
  "PSTATE_MAP = map (\<lambda>i. (int i, ''P'' @ int_str (int i))) [0..<16]"

definition COMPUTE_MODE_MAP :: "(int, string) dict" where
  "COMPUTE_MODE_MAP = [(0, ''Default''), (1, ''Exclusive Thread''), (2, ''Prohibited''), (3, ''Exclusive Process'')]"

definition ECC_MODE_MAP :: "(int, string) dict" where
  "ECC_MODE_MAP = [(0, ''Disabled''), (1, ''Enabled'')]"

definition MIG_MODE_MAP :: "(int, string) dict" where
  "MIG_MODE_MAP = [(0, ''Disabled''), (1, ''Enabled'')]"

definition decode_buffer :: "string \<Rightarrow> string option" where
  "decode_buffer text = text_or_none (py_strip text)"

definition proc_comm :: "host \<Rightarrow> int \<Rightarrow> string option" where
  "proc_comm h pid = (case os_comm h pid of None \<Rightarrow> None | Some text \<Rightarrow> text_or_none (py_strip text))"

definition process_detail_mode :: "environ \<Rightarrow> string" where
  "process_detail_mode env =
     (let v = py_lower (py_strip (case env ''CONSTELLA_PROCESS_DETAIL_MODE'' of None \<Rightarrow> ''all'' | Some s \<Rightarrow> s))
      in if v \<notin> set [''all'', ''names'', ''aggregate''] then ''all'' else v)"

definition cuda_driver_version :: "int \<Rightarrow> string" where
  "cuda_driver_version v = (if v \<le> 0 then ''unknown'' else int_str (v div 1000) @ ''.'' @ int_str (v mod 1000 div 10))"

definition architecture_label :: "int option \<Rightarrow> string option" where
  "architecture_label v = (case v of None \<Rightarrow> None | Some i \<Rightarrow> if i = 0xFFFFFFFF then None else map_of ARCHITECTURE_MAP i)"

subsection \<open>Calls\<close>

definition system_string :: "nvml \<Rightarrow> string \<Rightarrow> string option" where
  "system_string lib f = (case nv_system_string lib f of (rc, text) \<Rightarrow> if rc \<noteq> 0 then None else decode_buffer text)"

definition cuda_version :: "nvml \<Rightarrow> string option" where
  "cuda_version lib =
     (if nv_has lib ''nvmlSystemGetCudaDriverVersion_v2'' \<or> nv_has lib ''nvmlSystemGetCudaDriverVersion''
      then (if fst (nv_cuda_version lib) \<noteq> 0 then None else Some (cuda_driver_version (snd (nv_cuda_version lib))))
      else None)"

definition device_string :: "nvml \<Rightarrow> nat \<Rightarrow> string \<Rightarrow> string" where
  "device_string lib i f =
     (case nv_string lib f i of (rc, text) \<Rightarrow> if rc \<noteq> 0 then ''unknown'' else str_or (decode_buffer text) ''unknown'')"

definition uint_device_call :: "nvml \<Rightarrow> nat \<Rightarrow> string \<Rightarrow> nat option \<Rightarrow> int" where
  "uint_device_call lib i f arg = (case nv_uint lib f i arg of (rc, v) \<Rightarrow> if rc \<noteq> 0 then 0 else uint v)"

definition optional_uint_device_call :: "nvml \<Rightarrow> nat \<Rightarrow> string \<Rightarrow> nat option \<Rightarrow> int option" where
  "optional_uint_device_call lib i f arg = (case nv_uint lib f i arg of (rc, v) \<Rightarrow> if rc \<noteq> 0 then None else Some (uint v))"

definition architecture :: "nvml \<Rightarrow> nat \<Rightarrow> string option" where
  "architecture lib i =
     (if nv_has lib ''nvmlDeviceGetArchitecture''
      then architecture_label (optional_uint_device_call lib i ''nvmlDeviceGetArchitecture'' None) else None)"

definition record_metric_error :: "string list \<Rightarrow> int \<Rightarrow> raw_gpu \<Rightarrow> raw_gpu" where
  "record_metric_error names rc g =
     (let reason = (if rc = 16 then ''GPU requires reset'' else ''NVML query unavailable (code '' @ int_str rc @ '')'');
          g1 = g\<lparr>g_telemetry_errors := dict_update_all (g_telemetry_errors g) (map (\<lambda>n. (n, reason)) names)\<rparr>
      in if rc = 16 then g1\<lparr>g_error := PStr reason\<rparr> else g1)"

text \<open>A required reading that fails is zero, an optional one none; that one may be unsupported without a mark.\<close>

definition gpu_uint_call :: "nvml \<Rightarrow> string \<Rightarrow> nat \<Rightarrow> string \<Rightarrow> nat option \<Rightarrow> bool \<Rightarrow> raw_gpu \<Rightarrow> int option \<times> raw_gpu" where
  "gpu_uint_call lib field i f arg opt g =
     (case nv_uint lib f i arg of (rc, v) \<Rightarrow>
        if rc \<noteq> 0
        then (if opt then None else Some 0, if \<not> opt \<or> rc \<noteq> 3 then record_metric_error [field] rc g else g)
        else (Some (uint v), g))"

definition mode_label :: "(int, string) dict \<Rightarrow> int \<times> 32 word \<Rightarrow> string option" where
  "mode_label labels answer =
     (case answer of (rc, v) \<Rightarrow> if rc \<noteq> 0 then None else Some (get_or labels (uint v) (int_str (uint v))))"

definition ecc_mode :: "nvml \<Rightarrow> nat \<Rightarrow> string option" where
  "ecc_mode lib i = mode_label ECC_MODE_MAP (nv_mode lib ''nvmlDeviceGetEccMode'' i)"

definition mig_mode :: "nvml \<Rightarrow> nat \<Rightarrow> string option" where
  "mig_mode lib i =
     (if nv_has lib ''nvmlDeviceGetMigMode'' then mode_label MIG_MODE_MAP (nv_mode lib ''nvmlDeviceGetMigMode'' i) else None)"

subsection \<open>Memory and utilisation\<close>

definition MIB :: int where
  "MIB = 1024 * 1024"

definition try_memory_v2 :: "nvml \<Rightarrow> nat \<Rightarrow> (int \<times> int) option" where
  "try_memory_v2 lib i =
     (if \<not> nv_has lib ''nvmlDeviceGetMemoryInfo_v2'' then None
      else (case nv_memory_v2 lib i of (rc, whole, reserved, free) \<Rightarrow>
          if rc \<noteq> 0 then None
          else Some (uint whole div MIB, max 0 ((uint whole - uint free - uint reserved) div MIB))))"

definition memory_of :: "(nat, int) dict \<Rightarrow> nvml \<Rightarrow> nat \<Rightarrow> int + int \<times> int" where
  "memory_of offsets lib i =
     (case try_memory_v2 lib i of
        Some tu \<Rightarrow> Inr tu
      | None \<Rightarrow>
          (case nv_memory lib i of (rc, whole, free) \<Rightarrow>
             if rc \<noteq> 0 then Inl rc
             else Inr (uint whole div MIB, uint whole div MIB - uint free div MIB - get_or offsets i 0)))"

definition fill_memory :: "(nat, int) dict \<Rightarrow> nvml \<Rightarrow> nat \<Rightarrow> raw_gpu \<Rightarrow> raw_gpu" where
  "fill_memory offsets lib i g =
     (case memory_of offsets lib i of
        Inl rc \<Rightarrow> record_metric_error [''memory_total_mb'', ''memory_used_mb'', ''memory_free_mb''] rc g
      | Inr (whole, used) \<Rightarrow>
          g\<lparr>g_memory_total_mb := PInt whole, g_memory_used_mb := PInt (max 0 used),
            g_memory_free_mb := PInt (max 0 (whole - max 0 used))\<rparr>)"

text \<open>
  Drivers without the second version count memory the tool does not; the difference is measured once. Without
  the tool there is no correction.
\<close>

definition smi_used :: "raw_gpu snapshot \<Rightarrow> (int, int) dict" where
  "smi_used snap = fold (\<lambda>g. AList.update (g_index g) (trunc (num_val (g_memory_used_mb g)))) (n_gpus snap) []"

definition calibrate_reserved :: "raw_gpu snapshot result \<Rightarrow> nvml \<Rightarrow> nat \<Rightarrow> (nat, int) dict" where
  "calibrate_reserved smi lib n =
     (if nv_has lib ''nvmlDeviceGetMemoryInfo_v2'' \<and> nv_handle lib 0 = 0 \<and> try_memory_v2 lib 0 \<noteq> None then []
      else (case smi of
          Inl e \<Rightarrow> []
        | Inr snap \<Rightarrow>
            fold (\<lambda>i offsets.
              if nv_handle lib i \<noteq> 0 then offsets
              else (case nv_memory lib i of (rc, whole, free) \<Rightarrow>
                  if rc \<noteq> 0 then offsets
                  else let raw_used = (uint whole - uint free) div MIB;
                           reserved = raw_used - get_or (smi_used snap) (int i) raw_used
                       in if 0 < reserved then AList.update i reserved offsets else offsets)) [0..<n] []))"

definition fill_utilization :: "nvml \<Rightarrow> nat \<Rightarrow> raw_gpu \<Rightarrow> raw_gpu" where
  "fill_utilization lib i g =
     (case nv_utilization lib i of (rc, gpu, memory) \<Rightarrow>
        if rc \<noteq> 0 then record_metric_error [''utilization_gpu'', ''utilization_mem''] rc g
        else g\<lparr>g_utilization_gpu := PInt (uint gpu), g_utilization_mem := PInt (uint memory)\<rparr>)"

subsection \<open>Processes\<close>

text \<open>
  The processes of one kind, \<^term>\<open>None\<close> without permission. The second call fills a buffer of the announced size
  and says how many entries it wrote; an entry beyond the buffer raises. Half of the range of the memory stands
  for an unknown amount.
\<close>

definition process_entry_of :: "host \<Rightarrow> string \<Rightarrow> 32 word \<times> 64 word \<Rightarrow> gpu_process result" where
  "process_entry_of h kind info =
     (let pid = uint (fst info); ppid = process_parent_pid h pid;
          used = (if uint (snd info) \<ge> 2 ^ 63 then 0 else uint (snd info))
      in rbind (process_runtime_seconds h pid) (\<lambda>runtime.
         rbind (process_start_time_seconds h pid) (\<lambda>start.
         rbind (start_of_parent h ppid) (\<lambda>parent_start.
           Inr ((new_process pid (str_or (proc_comm h pid) ''?'') (used div MIB) kind)
             \<lparr>p_ppid := opt_val PInt ppid, p_runtime_seconds := opt_val PInt runtime, p_start_time := seconds_val start,
              p_parent_start_time := seconds_val parent_start\<rparr>)))))"

fun read_entries :: "host \<Rightarrow> string \<Rightarrow> (nat \<Rightarrow> 32 word \<times> 64 word) \<Rightarrow> nat \<Rightarrow> nat list \<Rightarrow> gpu_process list result" where
  "read_entries h kind buffer capacity [] = Inr []"
| "read_entries h kind buffer capacity (i # is) =
     (if capacity \<le> i then Inl IndexError
      else rbind (process_entry_of h kind (buffer i)) (\<lambda>p.
           rbind (read_entries h kind buffer capacity is) (\<lambda>ps. Inr (p # ps))))"

definition running_processes :: "host \<Rightarrow> nvml \<Rightarrow> nat \<Rightarrow> string \<Rightarrow> string \<Rightarrow> gpu_process list option result" where
  "running_processes h lib i f kind =
     (if \<not> nv_has lib f then Inr (Some [])
      else (case nv_process_count lib f i of (rc, n) \<Rightarrow>
        if rc = NVML_ERROR_NO_PERMISSION then Inr None
        else if rc = 0 \<and> n = 0 then Inr (Some [])
        else if rc \<notin> {0, NVML_ERROR_INSUFFICIENT_SIZE} then Inr (Some [])
        else if n = 0 then Inr (Some [])
        else (case nv_processes lib f i n of (rc2, n2, buffer) \<Rightarrow>
            if rc2 = NVML_ERROR_NO_PERMISSION then Inr None
            else if rc2 \<noteq> 0 then Inr (Some [])
            else rbind (read_entries h kind buffer (unat n) [0..<unat n2]) (\<lambda>ps. Inr (Some ps)))))"

text \<open>A process of both kinds is listed once, with the larger memory, at its first place.\<close>

definition merge_process :: "gpu_process \<Rightarrow> (int, gpu_process) dict \<Rightarrow> (int, gpu_process) dict" where
  "merge_process p unique =
     (case map_of unique (p_pid p) of
        Some e \<Rightarrow> AList.update (p_pid p) (e\<lparr>p_gpu_memory_mb := max (p_gpu_memory_mb e) (p_gpu_memory_mb p)\<rparr>) unique
      | None \<Rightarrow> AList.update (p_pid p) p unique)"

definition unique_processes :: "gpu_process list \<Rightarrow> gpu_process list" where
  "unique_processes raw = values_of (fold merge_process raw [])"

definition fill_process_detail :: "host \<Rightarrow> bool \<Rightarrow> gpu_process \<Rightarrow> gpu_process result" where
  "fill_process_detail h include_cmdline p =
     (let pid = p_pid p; uid = process_uid h pid; user = username_for_uid h uid; comm = proc_comm h pid;
          exe = process_exe h pid; ppid = process_parent_pid h pid;
          (cmdline, detail_status) = (if include_cmdline then process_cmdline h pid else (None, ''names''));
          name = (if p_name p \<noteq> [] then p_name p else str_or comm ''?'')
      in rbind (process_start_time_seconds h pid) (\<lambda>start.
         rbind (start_of_parent h ppid) (\<lambda>parent_start.
         rbind (if truthy (p_runtime_seconds p) then Inr (p_runtime_seconds p)
                else rbind (process_runtime_seconds h pid) (\<lambda>r. Inr (opt_val PInt r))) (\<lambda>runtime.
           Inr (p\<lparr>p_ppid := opt_val PInt ppid, p_user := py_or (p_user p) (opt_val PStr user),
                  p_user_uid := (if p_user_uid p \<noteq> PNone then p_user_uid p else opt_val PInt uid), p_name := name,
                  p_exe := opt_val PStr exe, p_cmdline := opt_val PStr cmdline,
                  p_cmdline_hash := opt_val PStr (cmdline_fingerprint h cmdline), p_start_time := seconds_val start,
                  p_parent_start_time := seconds_val parent_start, p_runtime_seconds := runtime,
                  p_detail_status := detail_status,
                  p_task_name := PStr (infer_task_name cmdline exe comm (Some name) (Some pid))\<rparr>)))))"

text \<open>In the aggregate mode the processes of others only count.\<close>

definition add_other :: "gpu_process \<Rightarrow> (string, other_user) dict \<Rightarrow> (string, other_user) dict" where
  "add_other p others =
     (let key = (case p_user p of PStr u \<Rightarrow> str_or (Some u) ''?'' | _ \<Rightarrow> ''?'');
          e = get_or others key \<lparr>o_user = key, o_process_count = 0, o_total_memory_mb = 0, o_runtime_seconds = PNone\<rparr>
      in AList.update key
           (e\<lparr>o_process_count := o_process_count e + 1, o_total_memory_mb := o_total_memory_mb e + p_gpu_memory_mb p,
              o_runtime_seconds := (case p_runtime_seconds p of
                 PInt r \<Rightarrow> PInt (max (case o_runtime_seconds e of PInt x \<Rightarrow> x | _ \<Rightarrow> 0) r) | _ \<Rightarrow> o_runtime_seconds e)\<rparr>) others)"

definition is_own :: "string option \<Rightarrow> gpu_process \<Rightarrow> bool" where
  "is_own own_user p \<longleftrightarrow> (case own_user of None \<Rightarrow> False | Some u \<Rightarrow> u \<noteq> [] \<and> p_user p = PStr u)"

definition split_owners :: "string option \<Rightarrow> gpu_process list \<Rightarrow> gpu_process list \<times> other_user list" where
  "split_owners own_user ps =
     (filter (is_own own_user) ps,
      sort_desc o_total_memory_mb (values_of (fold add_other (filter (\<lambda>p. \<not> is_own own_user p) ps) [])))"

text \<open>
  Without permission the table of the command line tool is used, read once for all devices of a sample. Its
  entries are the objects that are merged and described, so what later devices read are the changed ones.
\<close>

fun changed_entries :: "int list \<Rightarrow> (int, gpu_process) dict \<Rightarrow> gpu_process list \<Rightarrow> gpu_process list" where
  "changed_entries seen d [] = []"
| "changed_entries seen d (p # ps) =
     (if p_pid p \<in> set seen then p else get_or d (p_pid p) p) # changed_entries (p_pid p # seen) d ps"

definition fallback_table :: "host \<Rightarrow> tool_run \<Rightarrow> process_table" where
  "fallback_table h run =
     (case run of Printed out \<Rightarrow> (case parse_process_query_csv h out of Inr d \<Rightarrow> d | Inl e \<Rightarrow> []) | _ \<Rightarrow> [])"

definition device_processes ::
    "host \<Rightarrow> environ \<Rightarrow> string option \<Rightarrow> nvml \<Rightarrow> tool_run \<Rightarrow> nat \<Rightarrow> string \<Rightarrow> process_table option
      \<Rightarrow> ((gpu_process list \<times> other_user list) \<times> process_table option) result" where
  "device_processes h env own_user lib run i uuid cache =
     rbind (running_processes h lib i ''nvmlDeviceGetComputeRunningProcesses'' ''compute'') (\<lambda>compute.
       let cache1 = (case (compute, cache) of (None, None) \<Rightarrow> Some (fallback_table h run) | _ \<Rightarrow> cache);
           table = (case cache1 of None \<Rightarrow> [] | Some d \<Rightarrow> d);
           raw0 = (case compute of Some ps \<Rightarrow> ps | None \<Rightarrow> get_or table uuid [])
       in rbind (running_processes h lib i ''nvmlDeviceGetGraphicsRunningProcesses'' ''graphics'') (\<lambda>graphics.
          let raw = unique_processes (raw0 @ (case graphics of None \<Rightarrow> [] | Some ps \<Rightarrow> ps)); mode = process_detail_mode env
          in rbind (rmap (fill_process_detail h (mode \<noteq> ''names'')) raw) (\<lambda>ps.
             let changed = changed_entries [] (map (\<lambda>p. (p_pid p, p)) ps) raw0;
                 cache2 = (if compute = None \<and> has_key table uuid then Some (AList.update uuid changed table) else cache1)
             in Inr (if mode = ''aggregate'' then split_owners own_user ps else (sort_desc p_gpu_memory_mb ps, []), cache2))))"

subsection \<open>The sampler\<close>

record static_info =
  si_refreshed_at :: rat
  si_name :: string
  si_uuid :: string
  si_power_limit_watts :: rat
  si_max_clock_sm_mhz :: "int option"
  si_max_clock_mem_mhz :: "int option"
  si_compute_mode :: "string option"
  si_ecc_mode :: "string option"
  si_mig_mode :: "string option"

record 's nvml_sampler =
  nm_own_user :: "string option"
  nm_process_interval :: flt
  nm_reserved_offsets :: "(nat, int) dict option"
  nm_last_process_at :: rat
  nm_next_process_at :: flt
  nm_process_snapshot :: "(string, gpu_process list \<times> other_user list) dict"
  nm_static :: "(nat, static_info) dict"
  nm_gpm :: "'s gpm_provider"
  nm_closed :: bool

text \<open>What a sample meets: the host, the clocks at their readings, the library, the tool and the counters.\<close>

record 's nvml_round =
  nr_host :: host
  nr_env :: environ
  nr_hostname :: string
  nr_started :: rat
  nr_now :: rat
  nr_processes_at :: rat
  nr_ended :: rat
  nr_lib :: nvml
  nr_process_run :: tool_run
  nr_smi :: "raw_gpu snapshot result"
  nr_gpm :: "nat \<Rightarrow> rat \<times> 's gpm_driver"

definition new_nvml_sampler :: "string option \<Rightarrow> environ \<Rightarrow> flt \<Rightarrow> nvml \<Rightarrow> int \<Rightarrow> 's nvml_sampler result" where
  "new_nvml_sampler own_user env process lib init =
     (if init \<noteq> 0 then Inl (RuntimeError (''nvmlInit failed with code '' @ int_str init))
      else Inr \<lparr>nm_own_user = (case own_user of None \<Rightarrow> env ''USER'' | Some u \<Rightarrow> if u = [] then env ''USER'' else Some u),
                nm_process_interval = process_of process, nm_reserved_offsets = None, nm_last_process_at = 0,
                nm_next_process_at = Fin 0, nm_process_snapshot = [], nm_static = [],
                nm_gpm = new_gpm_provider env (nv_has lib) 30, nm_closed = False\<rparr>)"

fun flt_plus :: "rat \<Rightarrow> flt \<Rightarrow> flt" where
  "flt_plus r (Fin x) = Fin (r + x)"
| "flt_plus r x = x"

definition nvml_set_process_interval :: "flt \<Rightarrow> 's nvml_sampler \<Rightarrow> 's nvml_sampler" where
  "nvml_set_process_interval process sa =
     (let sa1 = sa\<lparr>nm_process_interval := process_of process\<rparr>
      in if nm_last_process_at sa1 \<noteq> 0
         then sa1\<lparr>nm_next_process_at := flt_plus (nm_last_process_at sa1) (nm_process_interval sa1)\<rparr> else sa1)"

definition close_nvml :: "'s nvml_sampler \<Rightarrow> 's nvml_sampler" where
  "close_nvml sa = (if nm_closed sa then sa else sa\<lparr>nm_closed := True, nm_gpm := close_gpm_provider (nm_gpm sa)\<rparr>)"

definition read_static :: "nvml \<Rightarrow> nat \<Rightarrow> rat \<Rightarrow> static_info" where
  "read_static lib i now =
     \<lparr>si_refreshed_at = now, si_name = device_string lib i ''nvmlDeviceGetName'', si_uuid = device_string lib i ''nvmlDeviceGetUUID'',
      si_power_limit_watts = pyround 1 (of_int (uint_device_call lib i ''nvmlDeviceGetPowerManagementLimit'' None) / 1000),
      si_max_clock_sm_mhz = optional_uint_device_call lib i ''nvmlDeviceGetMaxClockInfo'' (Some NVML_CLOCK_SM),
      si_max_clock_mem_mhz = optional_uint_device_call lib i ''nvmlDeviceGetMaxClockInfo'' (Some NVML_CLOCK_MEM),
      si_compute_mode = (case optional_uint_device_call lib i ''nvmlDeviceGetComputeMode'' None of
         None \<Rightarrow> None | Some m \<Rightarrow> map_of COMPUTE_MODE_MAP m),
      si_ecc_mode = ecc_mode lib i, si_mig_mode = mig_mode lib i\<rparr>"

definition static_gpu_snapshot :: "nvml \<Rightarrow> nat \<Rightarrow> rat \<Rightarrow> (nat, static_info) dict \<Rightarrow> static_info \<times> (nat, static_info) dict" where
  "static_gpu_snapshot lib i now cache =
     (case map_of cache i of
        Some si \<Rightarrow> if now - si_refreshed_at si < STATIC_GPU_INFO_REFRESH_SECONDS then (si, cache)
                   else (read_static lib i now, AList.update i (read_static lib i now) cache)
      | None \<Rightarrow> (read_static lib i now, AList.update i (read_static lib i now) cache))"

text \<open>The readings of a device, without its performance and its processes.\<close>

definition read_clock :: "nvml \<Rightarrow> string \<Rightarrow> nat \<Rightarrow> nat \<Rightarrow> raw_gpu \<Rightarrow> pyval \<times> raw_gpu" where
  "read_clock lib field i clock g =
     (case gpu_uint_call lib field i ''nvmlDeviceGetClockInfo'' (Some clock) True g of (v, g1) \<Rightarrow> (opt_val PInt v, g1))"

definition read_gpu :: "nvml \<Rightarrow> nat \<Rightarrow> (nat, int) dict \<Rightarrow> static_info \<Rightarrow> raw_gpu" where
  "read_gpu lib i offsets si =
     (let g0 = (new_gpu (int i))\<lparr>g_name := si_name si, g_uuid := si_uuid si\<rparr>;
          g1 = fill_utilization lib i (fill_memory offsets lib i g0)
      in case gpu_uint_call lib ''temperature_c'' i ''nvmlDeviceGetTemperature'' (Some 0) False g1 of (temperature, g2) \<Rightarrow>
         let g3 = g2\<lparr>g_temperature_c := opt_val PInt temperature\<rparr>
         in case gpu_uint_call lib ''power_watts'' i ''nvmlDeviceGetPowerUsage'' None False g3 of (draw, g4) \<Rightarrow>
            let g5 = g4\<lparr>g_power_watts := PFlt (Fin (pyround 1 (of_int (case draw of None \<Rightarrow> 0 | Some w \<Rightarrow> w) / 1000))),
                        g_power_limit_watts := PFlt (Fin (si_power_limit_watts si))\<rparr>
            in case read_clock lib ''clock_sm_mhz'' i NVML_CLOCK_SM g5 of (sm, g6) \<Rightarrow>
               case read_clock lib ''clock_mem_mhz'' i NVML_CLOCK_MEM (g6\<lparr>g_clock_sm_mhz := sm\<rparr>) of (mem, g7) \<Rightarrow>
               g7\<lparr>g_clock_mem_mhz := mem, g_max_clock_sm_mhz := opt_val PInt (si_max_clock_sm_mhz si),
                  g_max_clock_mem_mhz := opt_val PInt (si_max_clock_mem_mhz si),
                  g_pstate := opt_val PStr (case optional_uint_device_call lib i ''nvmlDeviceGetPerformanceState'' None of
                     None \<Rightarrow> None | Some v \<Rightarrow> map_of PSTATE_MAP v),
                  g_compute_mode := opt_val PStr (si_compute_mode si), g_ecc_mode := opt_val PStr (si_ecc_mode si),
                  g_mig_mode := opt_val PStr (si_mig_mode si)\<rparr>)"

text \<open>An exception of the counters becomes a performance record of its own.\<close>

definition sample_performance :: "'s nvml_round \<Rightarrow> nat \<Rightarrow> 's gpm_provider \<Rightarrow> performance option \<times> 's gpm_provider" where
  "sample_performance nr i gp =
     (case gpm_sample (fst (nr_gpm nr i)) (os_time (nr_host nr)) i (snd (nr_gpm nr i)) gp of
        (Inr p, gp1) \<Rightarrow> (Some p, gp1)
      | (Inl e, gp1) \<Rightarrow>
          (case gpm_result ''error'' (os_time (nr_host nr)) None [] [] (Some ''GPM sample failed'') [] of
             Inr p \<Rightarrow> (Some p, gp1) | Inl e2 \<Rightarrow> (None, gp1)))"

definition sample_gpu_processes ::
    "'s nvml_round \<Rightarrow> bool \<Rightarrow> nat \<Rightarrow> string \<Rightarrow> process_table option \<Rightarrow> 's nvml_sampler
      \<Rightarrow> ((gpu_process list \<times> other_user list) \<times> process_table option \<times> 's nvml_sampler) result" where
  "sample_gpu_processes nr due i uuid cache sa =
     (if due
      then rbind (device_processes (nr_host nr) (nr_env nr) (nm_own_user sa) (nr_lib nr) (nr_process_run nr) i uuid cache)
             (\<lambda>(pu, cache1). Inr (pu, cache1, sa\<lparr>nm_process_snapshot := AList.update uuid pu (nm_process_snapshot sa)\<rparr>))
      else Inr (get_or (nm_process_snapshot sa) uuid ([], []), cache, sa))"

definition sample_nvml_gpu ::
    "'s nvml_round \<Rightarrow> bool \<Rightarrow> nat \<Rightarrow> process_table option \<Rightarrow> 's nvml_sampler
      \<Rightarrow> (raw_gpu \<times> process_table option \<times> 's nvml_sampler) result" where
  "sample_nvml_gpu nr due i cache sa =
     (if nv_handle (nr_lib nr) i \<noteq> 0
      then Inr ((new_gpu (int i))\<lparr>g_error := PStr (''nvmlDeviceGetHandleByIndex failed: '' @ int_str (nv_handle (nr_lib nr) i))\<rparr>, cache, sa)
      else (case static_gpu_snapshot (nr_lib nr) i (nr_now nr) (nm_static sa) of (si, static) \<Rightarrow>
        let g = read_gpu (nr_lib nr) i (case nm_reserved_offsets sa of None \<Rightarrow> [] | Some d \<Rightarrow> d) si
        in (case sample_performance nr i (nm_gpm sa) of (perf, gpm) \<Rightarrow>
          rbind (sample_gpu_processes nr due i (g_uuid g) cache (sa\<lparr>nm_static := static, nm_gpm := gpm\<rparr>))
            (\<lambda>((ps, others), cache1, sa1).
              Inr (g\<lparr>g_performance := perf, g_processes := ps, g_other_users := others\<rparr>, cache1, sa1)))))"

fun sample_nvml_gpus ::
    "'s nvml_round \<Rightarrow> bool \<Rightarrow> nat list \<Rightarrow> process_table option \<Rightarrow> 's nvml_sampler \<Rightarrow> (raw_gpu list \<times> 's nvml_sampler) result" where
  "sample_nvml_gpus nr due [] cache sa = Inr ([], sa)"
| "sample_nvml_gpus nr due (i # is) cache sa =
     rbind (sample_nvml_gpu nr due i cache sa) (\<lambda>(g, cache1, sa1).
     rbind (sample_nvml_gpus nr due is cache1 sa1) (\<lambda>(gs, sa2). Inr (g # gs, sa2)))"

definition processes_due :: "rat \<Rightarrow> 's nvml_sampler \<Rightarrow> bool" where
  "processes_due now sa = (case nm_next_process_at sa of Fin t \<Rightarrow> t \<le> now | NInf \<Rightarrow> True | _ \<Rightarrow> False)"

text \<open>After an exception the collector drops the sampler, so its state is not kept.\<close>

definition nvml_sample :: "'s nvml_round \<Rightarrow> 's nvml_sampler \<Rightarrow> (raw_gpu snapshot \<times> 's nvml_sampler) result" where
  "nvml_sample nr sa =
     (case nv_count (nr_lib nr) of (rc, n) \<Rightarrow>
        if rc \<noteq> 0 then Inl (RuntimeError (''nvmlDeviceGetCount failed with code '' @ int_str rc))
        else
          let offsets = (case nm_reserved_offsets sa of None \<Rightarrow> calibrate_reserved (nr_smi nr) (nr_lib nr) (unat n) | Some d \<Rightarrow> d);
              sa1 = sa\<lparr>nm_reserved_offsets := Some offsets\<rparr>; due = processes_due (nr_now nr) sa1
          in rbind (sample_nvml_gpus nr due [0..<unat n] None sa1) (\<lambda>(gpus, sa2).
             let sa3 = (if due
                        then sa2\<lparr>nm_last_process_at := nr_processes_at nr,
                                 nm_next_process_at := flt_plus (nr_processes_at nr) (nm_process_interval sa2)\<rparr>
                        else sa2)
             in Inr (\<lparr>n_ok = True, n_source = ''nvml'', n_hostname = nr_hostname nr, n_timestamp = os_time (nr_host nr),
                      n_elapsed_ms = pyround 1 ((nr_ended nr - nr_started nr) * 1000), n_gpus = gpus,
                      n_driver_version = opt_val PStr (system_string (nr_lib nr) ''nvmlSystemGetDriverVersion''),
                      n_cuda_driver_version = opt_val PStr (cuda_version (nr_lib nr)),
                      n_nvml_version = opt_val PStr (system_string (nr_lib nr) ''nvmlSystemGetNVMLVersion''),
                      n_error = PNone, n_seq = 0, n_refresh_interval = 1, n_history = []\<rparr>, sa3)))"

definition hardware_of :: "nvml \<Rightarrow> nat \<Rightarrow> hw_gpu" where
  "hardware_of lib i =
     (if nv_handle lib i \<noteq> 0 then \<lparr>h_index = int i, h_uuid = ''unknown'', h_name = ''unknown'', h_architecture = PNone\<rparr>
      else \<lparr>h_index = int i, h_uuid = device_string lib i ''nvmlDeviceGetUUID'', h_name = device_string lib i ''nvmlDeviceGetName'',
            h_architecture = opt_val PStr (architecture lib i)\<rparr>)"

definition hardware_inventory :: "nvml \<Rightarrow> hw_gpu list result" where
  "hardware_inventory lib =
     (case nv_count lib of (rc, n) \<Rightarrow>
        if rc \<noteq> 0 then Inl (RuntimeError (''nvmlDeviceGetCount failed with code '' @ int_str rc))
        else Inr (map (hardware_of lib) [0..<unat n]))"

text \<open>Any exception gives no inventory.\<close>

definition sample_hardware_inventory :: "nvml \<Rightarrow> int \<Rightarrow> hw_gpu list option" where
  "sample_hardware_inventory lib init =
     (if init \<noteq> 0 then None else case hardware_inventory lib of Inl e \<Rightarrow> None | Inr gpus \<Rightarrow> Some gpus)"

end
