(* ===== verification/NvmlProps.thy ===== *)
theory NvmlProps
  imports Nvml
begin

text \<open>What the driver sampler of \<open>nvml.py\<close> promises about memory, failed queries and processes.\<close>

subsection \<open>Memory\<close>

lemma uint_mib: "0 \<le> uint (w :: 64 word) div MIB" "uint w div MIB < 2 ^ 44"
proof -
  have b: "0 \<le> uint w" "uint w < 2 ^ 64" using uint_ge_0[of w] uint_bounded[of w] by auto
  show "0 \<le> uint w div MIB" using b(1) by (simp add: MIB_def pos_imp_zdiv_nonneg_iff)
  have "uint w < MIB * 2 ^ 44" using b(2) by (simp add: MIB_def)
  then show "uint w div MIB < 2 ^ 44" by (simp add: MIB_def div_less_iff_less_mult)
qed

definition offsets_ok :: "(nat, int) dict \<Rightarrow> bool" where
  "offsets_ok d \<longleftrightarrow> (\<forall>i x. map_of d i = Some x \<longrightarrow> 0 < x)"

lemma offsets_nonneg: "offsets_ok d \<Longrightarrow> 0 \<le> get_or d i 0"
  by (auto simp: offsets_ok_def get_or_def less_imp_le split: option.splits)

lemma calibrated_ok: "offsets_ok (calibrate_reserved smi lib n)"
proof -
  have "offsets_ok (fold (\<lambda>i offsets.
      if nv_handle lib i \<noteq> 0 then offsets
      else (case nv_memory lib i of (rc, whole, free) \<Rightarrow>
          if rc \<noteq> 0 then offsets
          else let raw_used = (uint whole - uint free) div MIB; reserved = raw_used - get_or used (int i) raw_used
               in if 0 < reserved then AList.update i reserved offsets else offsets)) is d)"
    if "offsets_ok d" for used "is" d
    using that
  proof (induction "is" arbitrary: d)
    case (Cons i "is")
    have up: "offsets_ok (AList.update i x e)" if "offsets_ok e" "0 < x" for x e
      using that by (auto simp: offsets_ok_def update_conv')
    show ?case using Cons.prems by (auto simp: Let_def up intro!: Cons.IH split: prod.splits)
  qed simp
  moreover have "offsets_ok []" by (simp add: offsets_ok_def)
  ultimately show ?thesis by (auto simp: calibrate_reserved_def split: sum.splits)
qed

lemma memory_of_bounds:
  assumes "memory_of offsets lib i = Inr (whole, used)" "offsets_ok offsets"
  shows "0 \<le> whole \<and> whole < 2 ^ 44 \<and> used \<le> whole"
proof (cases "try_memory_v2 lib i")
  case None
  then show ?thesis using assms(1) uint_mib offsets_nonneg[OF assms(2), of i]
    by (auto simp: memory_of_def split: prod.splits if_splits) (smt (verit) uint_mib(1))
next
  case (Some tu)
  then obtain rc w r f where v2: "nv_memory_v2 lib i = (rc, w, r, f)" "whole = uint w div MIB"
    "used = max 0 ((uint w - uint f - uint r) div MIB)"
    using assms(1) by (auto simp: memory_of_def try_memory_v2_def split: prod.splits if_splits)
  have "(uint w - uint f - uint r) div MIB \<le> uint w div MIB"
  proof -
    have "uint w - uint f - uint r \<le> uint w" using uint_ge_0[of f] uint_ge_0[of r] by linarith
    then show ?thesis by (rule zdiv_mono1) (simp add: MIB_def)
  qed
  then show ?thesis using uint_mib[of w] by (simp add: v2(2,3))
qed

definition memory_adds_up :: "raw_gpu \<Rightarrow> bool" where
  "memory_adds_up g \<longleftrightarrow> (\<exists>whole used free. g_memory_total_mb g = PInt whole \<and> g_memory_used_mb g = PInt used \<and>
     g_memory_free_mb g = PInt free \<and> used + free = whole \<and> 0 \<le> used \<and> 0 \<le> free \<and> whole < 2 ^ 44)"

lemma filled_memory: "offsets_ok offsets \<Longrightarrow> memory_adds_up (fill_memory offsets lib i ((new_gpu k)\<lparr>g_name := n, g_uuid := u\<rparr>))"
  using memory_of_bounds[of offsets lib i]
  by (auto simp: fill_memory_def record_metric_error_def new_gpu_def memory_adds_up_def Let_def split: sum.splits prod.splits)

subsection \<open>What a query changes\<close>

definition call_failed :: "nvml \<Rightarrow> string \<Rightarrow> nat \<Rightarrow> nat option \<Rightarrow> bool \<Rightarrow> bool" where
  "call_failed lib f i arg opt \<longleftrightarrow> fst (nv_uint lib f i arg) \<noteq> 0 \<and> (\<not> opt \<or> fst (nv_uint lib f i arg) \<noteq> 3)"

lemma keys_update_all: "has_key (dict_update_all d es) m \<longleftrightarrow> m \<in> fst ` set es \<or> has_key d m"
  by (induction d es rule: dict_update_all.induct) (auto simp: has_key_def update_conv')

lemma metric_error_keys [simp]:
  "has_key (g_telemetry_errors (record_metric_error names rc g)) m \<longleftrightarrow> m \<in> set names \<or> has_key (g_telemetry_errors g) m"
proof -
  have "fst ` set (map (\<lambda>n. (n, reason)) names) = set names" for reason :: string by (simp add: image_image)
  then show ?thesis by (simp add: record_metric_error_def Let_def keys_update_all del: set_map)
qed

lemma metric_error_readings [simp]: "gpu_readings (record_metric_error names rc g) = gpu_readings g"
  by (simp add: record_metric_error_def Let_def gpu_readings_def)

lemma call_keys [simp]:
  "has_key (g_telemetry_errors (snd (gpu_uint_call lib field i f arg opt g))) m \<longleftrightarrow>
     (m = field \<and> call_failed lib f i arg opt) \<or> has_key (g_telemetry_errors g) m"
  by (auto simp: gpu_uint_call_def call_failed_def split: prod.splits)

lemma call_readings [simp]: "gpu_readings (snd (gpu_uint_call lib field i f arg opt g)) = gpu_readings g"
  by (simp add: gpu_uint_call_def split: prod.splits)

lemma call_value:
  "fst (gpu_uint_call lib field i f arg opt g) =
     (if fst (nv_uint lib f i arg) = 0 then Some (uint (snd (nv_uint lib f i arg))) else if opt then None else Some 0)"
  by (simp add: gpu_uint_call_def split: prod.splits)

definition memory_failed :: "nvml \<Rightarrow> nat \<Rightarrow> bool" where
  "memory_failed lib i \<longleftrightarrow> try_memory_v2 lib i = None \<and> fst (nv_memory lib i) \<noteq> 0"

lemma memory_keys [simp]:
  "has_key (g_telemetry_errors (fill_memory offsets lib i g)) m \<longleftrightarrow>
     (m \<in> {''memory_total_mb'', ''memory_used_mb'', ''memory_free_mb''} \<and> memory_failed lib i) \<or> has_key (g_telemetry_errors g) m"
  by (auto simp: fill_memory_def memory_of_def memory_failed_def split: sum.splits prod.splits option.splits if_splits)

lemma utilization_keys [simp]:
  "has_key (g_telemetry_errors (fill_utilization lib i g)) m \<longleftrightarrow>
     (m \<in> {''utilization_gpu'', ''utilization_mem''} \<and> fst (nv_utilization lib i) \<noteq> 0) \<or> has_key (g_telemetry_errors g) m"
  by (auto simp: fill_utilization_def split: prod.splits)

lemma utilization_memory [simp]:
  "g_memory_total_mb (fill_utilization lib i g) = g_memory_total_mb g" "g_memory_used_mb (fill_utilization lib i g) = g_memory_used_mb g"
  "g_memory_free_mb (fill_utilization lib i g) = g_memory_free_mb g"
  by (auto simp: fill_utilization_def record_metric_error_def Let_def split: prod.splits)

lemma call_memory [simp]:
  "g_memory_total_mb (snd (gpu_uint_call lib field i f arg opt g)) = g_memory_total_mb g"
  "g_memory_used_mb (snd (gpu_uint_call lib field i f arg opt g)) = g_memory_used_mb g"
  "g_memory_free_mb (snd (gpu_uint_call lib field i f arg opt g)) = g_memory_free_mb g"
  by (auto simp: gpu_uint_call_def record_metric_error_def Let_def split: prod.splits)

lemma clock_parts:
  "fst (read_clock lib field i clock g) = opt_val PInt (fst (gpu_uint_call lib field i ''nvmlDeviceGetClockInfo'' (Some clock) True g))"
  "snd (read_clock lib field i clock g) = snd (gpu_uint_call lib field i ''nvmlDeviceGetClockInfo'' (Some clock) True g)"
  by (simp_all add: read_clock_def split: prod.splits)

text \<open>
  Whether the query behind a metric has failed (of the optional queries for the clocks, "not supported" is no
  failure), and the metrics the sampler marks when theirs does: the limit of the power and the highest clocks are
  queried as well, but a failure there leaves no mark.
\<close>

definition query_failed :: "nvml \<Rightarrow> nat \<Rightarrow> string \<Rightarrow> bool" where
  "query_failed lib i name \<longleftrightarrow>
     (name \<in> {''memory_total_mb'', ''memory_used_mb'', ''memory_free_mb''} \<and> memory_failed lib i) \<or>
     (name \<in> {''utilization_gpu'', ''utilization_mem''} \<and> fst (nv_utilization lib i) \<noteq> 0) \<or>
     (name = ''temperature_c'' \<and> call_failed lib ''nvmlDeviceGetTemperature'' i (Some 0) False) \<or>
     (name = ''power_watts'' \<and> call_failed lib ''nvmlDeviceGetPowerUsage'' i None False) \<or>
     (name = ''power_limit_watts'' \<and> call_failed lib ''nvmlDeviceGetPowerManagementLimit'' i None False) \<or>
     (name = ''clock_sm_mhz'' \<and> call_failed lib ''nvmlDeviceGetClockInfo'' i (Some NVML_CLOCK_SM) True) \<or>
     (name = ''clock_mem_mhz'' \<and> call_failed lib ''nvmlDeviceGetClockInfo'' i (Some NVML_CLOCK_MEM) True) \<or>
     (name = ''max_clock_sm_mhz'' \<and> call_failed lib ''nvmlDeviceGetMaxClockInfo'' i (Some NVML_CLOCK_SM) True) \<or>
     (name = ''max_clock_mem_mhz'' \<and> call_failed lib ''nvmlDeviceGetMaxClockInfo'' i (Some NVML_CLOCK_MEM) True)"

definition marked_metrics :: "string set" where
  "marked_metrics = {''memory_total_mb'', ''memory_used_mb'', ''memory_free_mb'', ''utilization_gpu'', ''utilization_mem'',
     ''temperature_c'', ''power_watts'', ''clock_sm_mhz'', ''clock_mem_mhz''}"

lemma read_gpu_keys:
  "has_key (g_telemetry_errors (read_gpu lib i offsets si)) name \<longleftrightarrow> name \<in> marked_metrics \<and> query_failed lib i name"
proof -
  have none: "\<not> has_key (g_telemetry_errors (new_gpu k)) m" for k m
    by (simp add: new_gpu_def has_key_def)
  have "has_key (g_telemetry_errors (read_gpu lib i offsets si)) name \<longleftrightarrow>
     (name \<in> {''memory_total_mb'', ''memory_used_mb'', ''memory_free_mb''} \<and> memory_failed lib i) \<or>
     (name \<in> {''utilization_gpu'', ''utilization_mem''} \<and> fst (nv_utilization lib i) \<noteq> 0) \<or>
     (name = ''temperature_c'' \<and> call_failed lib ''nvmlDeviceGetTemperature'' i (Some 0) False) \<or>
     (name = ''power_watts'' \<and> call_failed lib ''nvmlDeviceGetPowerUsage'' i None False) \<or>
     (name = ''clock_sm_mhz'' \<and> call_failed lib ''nvmlDeviceGetClockInfo'' i (Some NVML_CLOCK_SM) True) \<or>
     (name = ''clock_mem_mhz'' \<and> call_failed lib ''nvmlDeviceGetClockInfo'' i (Some NVML_CLOCK_MEM) True)"
    unfolding read_gpu_def Let_def case_prod_beta by (simp add: clock_parts none disj_commute disj_left_commute)
  then show ?thesis by (auto simp: query_failed_def marked_metrics_def)
qed

lemma read_gpu_memory:
  assumes "offsets_ok offsets"
  shows "memory_adds_up (read_gpu lib i offsets si)"
proof -
  let ?g = "fill_memory offsets lib i ((new_gpu (int i))\<lparr>g_name := si_name si, g_uuid := si_uuid si\<rparr>)"
  have "g_memory_total_mb (read_gpu lib i offsets si) = g_memory_total_mb ?g \<and>
      g_memory_used_mb (read_gpu lib i offsets si) = g_memory_used_mb ?g \<and>
      g_memory_free_mb (read_gpu lib i offsets si) = g_memory_free_mb ?g"
    unfolding read_gpu_def Let_def case_prod_beta by (simp add: clock_parts)
  then show ?thesis using filled_memory[OF assms, of lib i] by (simp add: memory_adds_up_def)
qed

subsection \<open>A whole sample\<close>

text \<open>The states a sampler can get into.\<close>

inductive nvml_run :: "'s nvml_sampler \<Rightarrow> bool" where
  start: "new_nvml_sampler own_user env process lib init = Inr sa \<Longrightarrow> nvml_run sa"
| sample: "nvml_run sa \<Longrightarrow> nvml_sample nr sa = Inr (snap, sa') \<Longrightarrow> nvml_run sa'"
| interval: "nvml_run sa \<Longrightarrow> nvml_run (nvml_set_process_interval process sa)"
| close: "nvml_run sa \<Longrightarrow> nvml_run (close_nvml sa)"

definition sampler_ok :: "'s nvml_sampler \<Rightarrow> bool" where
  "sampler_ok sa \<longleftrightarrow> (case nm_reserved_offsets sa of None \<Rightarrow> True | Some d \<Rightarrow> offsets_ok d) \<and> interval_ok (nm_process_interval sa) \<and>
     (if nm_last_process_at sa = 0 then True else nm_next_process_at sa = flt_plus (nm_last_process_at sa) (nm_process_interval sa))"

text \<open>A device that was sampled: its handle failed, or its readings with what was added to them.\<close>

definition sampled_device :: "nvml \<Rightarrow> (nat, int) dict \<Rightarrow> nat \<Rightarrow> raw_gpu \<Rightarrow> bool" where
  "sampled_device lib offsets i g \<longleftrightarrow>
     (if nv_handle lib i \<noteq> 0
      then g = (new_gpu (int i))\<lparr>g_error := PStr (''nvmlDeviceGetHandleByIndex failed: '' @ int_str (nv_handle lib i))\<rparr>
      else \<exists>si perf ps others. g = (read_gpu lib i offsets si)\<lparr>g_performance := perf, g_processes := ps, g_other_users := others\<rparr>)"

definition kept_of :: "'s nvml_sampler \<Rightarrow> (nat, int) dict option \<times> flt \<times> rat \<times> flt" where
  "kept_of sa = (nm_reserved_offsets sa, nm_process_interval sa, nm_last_process_at sa, nm_next_process_at sa)"

lemma processes_frame:
  assumes "sample_gpu_processes nr due i uuid cache sa = Inr (pu, cache1, sa1)"
  shows "kept_of sa1 = kept_of sa"
  using assms by (auto simp: sample_gpu_processes_def rbind_Inr_iff kept_of_def split: if_splits)

lemma sample_one:
  assumes "sample_nvml_gpu nr due i cache sa = Inr (g, cache1, sa1)" "nm_reserved_offsets sa = Some offsets"
  shows "sampled_device (nr_lib nr) offsets i g \<and> kept_of sa1 = kept_of sa"
proof (cases "nv_handle (nr_lib nr) i = 0")
  case True
  obtain si static where si: "static_gpu_snapshot (nr_lib nr) i (nr_now nr) (nm_static sa) = (si, static)" by fastforce
  obtain perf gpm where perf: "sample_performance nr i (nm_gpm sa) = (perf, gpm)" by fastforce
  from assms True obtain ps others where
    "sample_gpu_processes nr due i (g_uuid (read_gpu (nr_lib nr) i offsets si)) cache (sa\<lparr>nm_static := static, nm_gpm := gpm\<rparr>)
       = Inr ((ps, others), cache1, sa1)"
    "g = (read_gpu (nr_lib nr) i offsets si)\<lparr>g_performance := perf, g_processes := ps, g_other_users := others\<rparr>"
    by (auto simp: sample_nvml_gpu_def si perf rbind_Inr_iff Let_def)
  then show ?thesis using processes_frame[of nr due i _ cache "sa\<lparr>nm_static := static, nm_gpm := gpm\<rparr>"] True
    by (auto simp: sampled_device_def kept_of_def)
next
  case False
  then show ?thesis using assms by (simp add: sample_nvml_gpu_def sampled_device_def)
qed

lemma sample_all:
  assumes "sample_nvml_gpus nr due is cache sa = Inr (gs, sa')" "nm_reserved_offsets sa = Some offsets"
  shows "list_all2 (sampled_device (nr_lib nr) offsets) is gs \<and> kept_of sa' = kept_of sa"
  using assms
proof (induction "is" arbitrary: cache sa gs)
  case (Cons i "is")
  from Cons.prems(1) obtain g cache1 sa1 gs1 where
    s: "sample_nvml_gpu nr due i cache sa = Inr (g, cache1, sa1)" "sample_nvml_gpus nr due is cache1 sa1 = Inr (gs1, sa')" "gs = g # gs1"
    by (auto simp: rbind_Inr_iff)
  note one = sample_one[OF s(1) Cons.prems(2)]
  then have "nm_reserved_offsets sa1 = Some offsets" using Cons.prems(2) by (simp add: kept_of_def)
  from Cons.IH[OF s(2) this] one show ?case by (simp add: s(3))
qed simp

definition offsets_used :: "'s nvml_round \<Rightarrow> 's nvml_sampler \<Rightarrow> (nat, int) dict" where
  "offsets_used nr sa = (case nm_reserved_offsets sa of
     None \<Rightarrow> calibrate_reserved (nr_smi nr) (nr_lib nr) (unat (snd (nv_count (nr_lib nr)))) | Some d \<Rightarrow> d)"

lemma nvml_sample_parts:
  assumes "nvml_sample nr sa = Inr (snap, sa')"
  shows "list_all2 (sampled_device (nr_lib nr) (offsets_used nr sa)) [0..<unat (snd (nv_count (nr_lib nr)))] (n_gpus snap) \<and>
    n_ok snap \<and> nm_reserved_offsets sa' = Some (offsets_used nr sa) \<and> nm_process_interval sa' = nm_process_interval sa \<and>
    (if processes_due (nr_now nr) sa
     then nm_last_process_at sa' = nr_processes_at nr \<and> nm_next_process_at sa' = flt_plus (nr_processes_at nr) (nm_process_interval sa)
     else nm_last_process_at sa' = nm_last_process_at sa \<and> nm_next_process_at sa' = nm_next_process_at sa)"
proof -
  obtain rc n where n: "nv_count (nr_lib nr) = (rc, n)" by fastforce
  let ?sa1 = "sa\<lparr>nm_reserved_offsets := Some (offsets_used nr sa)\<rparr>"
  have offs: "(case nm_reserved_offsets sa of None \<Rightarrow> calibrate_reserved (nr_smi nr) (nr_lib nr) (unat n) | Some d \<Rightarrow> d) =
      offsets_used nr sa" unfolding offsets_used_def n snd_conv ..
  have due: "processes_due (nr_now nr) ?sa1 = processes_due (nr_now nr) sa" by (simp add: processes_due_def)
  obtain gpus sa2 where s: "sample_nvml_gpus nr (processes_due (nr_now nr) sa) [0..<unat n] None ?sa1 = Inr (gpus, sa2)"
    "n_gpus snap = gpus" "n_ok snap"
    "sa' = (if processes_due (nr_now nr) sa
       then sa2\<lparr>nm_last_process_at := nr_processes_at nr, nm_next_process_at := flt_plus (nr_processes_at nr) (nm_process_interval sa2)\<rparr>
       else sa2)"
    using assms unfolding nvml_sample_def n prod.case Let_def offs due
    by (cases "rc = 0"; cases "sample_nvml_gpus nr (processes_due (nr_now nr) sa) [0..<unat n] None ?sa1") auto
  from sample_all[OF s(1), of "offsets_used nr sa"] s(2-4) show ?thesis by (auto simp: n kept_of_def)
qed

lemma nvml_run_ok: "nvml_run sa \<Longrightarrow> sampler_ok sa"
proof (induction rule: nvml_run.induct)
  case (start own_user env process lib init sa)
  then show ?case by (auto simp: new_nvml_sampler_def sampler_ok_def process_of_ok split: if_splits)
next
  case (sample sa nr snap sa')
  have "offsets_ok (offsets_used nr sa)"
    using sample.IH by (auto simp: offsets_used_def sampler_ok_def calibrated_ok split: option.splits)
  then show ?case using nvml_sample_parts[OF sample.hyps(2)] sample.IH by (auto simp: sampler_ok_def split: if_splits)
next
  case (interval sa process)
  then show ?case by (simp add: sampler_ok_def nvml_set_process_interval_def process_of_ok Let_def)
next
  case (close sa)
  then show ?case by (simp add: sampler_ok_def close_nvml_def)
qed

text \<open>
  C15: for every device of every sample the used and the free memory add up to the capacity, none is negative and
  the capacity is what 64 bits of bytes can hold, whatever words the driver wrote and whichever of its versions
  answered; where the query failed all three are zero.
\<close>

theorem nvml_memory_adds_up:
  assumes "nvml_run sa" "nvml_sample nr sa = Inr (snap, sa')" "g \<in> set (n_gpus snap)"
  shows "\<exists>whole used free. g_memory_total_mb g = PInt whole \<and> g_memory_used_mb g = PInt used \<and> g_memory_free_mb g = PInt free \<and>
    used + free = whole \<and> 0 \<le> used \<and> 0 \<le> free \<and> whole < 2 ^ 44"
proof -
  have ok: "offsets_ok (offsets_used nr sa)"
    using nvml_run_ok[OF assms(1)] by (auto simp: offsets_used_def sampler_ok_def calibrated_ok split: option.splits)
  obtain i where i: "sampled_device (nr_lib nr) (offsets_used nr sa) i g"
    using nvml_sample_parts[OF assms(2)] assms(3) by (fastforce simp: list_all2_conv_all_nth in_set_conv_nth)
  show ?thesis
  proof (cases "nv_handle (nr_lib nr) i = 0")
    case True
    then show ?thesis using i read_gpu_memory[OF ok, of "nr_lib nr" i] by (auto simp: sampled_device_def memory_adds_up_def)
  qed (use i in \<open>simp add: sampled_device_def new_gpu_def\<close>)
qed


subsection \<open>Processes\<close>

definition memory_of_pid :: "int \<Rightarrow> gpu_process list \<Rightarrow> int set" where
  "memory_of_pid k ps = {p_gpu_memory_mb p | p. p \<in> set ps \<and> p_pid p = k}"

lemma memory_of_pid_snoc:
  "memory_of_pid k (ps @ [p]) = (if p_pid p = k then insert (p_gpu_memory_mb p) (memory_of_pid k ps) else memory_of_pid k ps)"
  by (auto simp: memory_of_pid_def)

lemma memory_of_pid_finite [simp]: "finite (memory_of_pid k ps)"
  by (rule finite_subset[of _ "p_gpu_memory_mb ` set ps"]) (auto simp: memory_of_pid_def)

lemma merged:
  "dict_ok (fold merge_process raw []) \<and>
   (\<forall>k. case map_of (fold merge_process raw []) k of
      None \<Rightarrow> memory_of_pid k raw = {}
    | Some e \<Rightarrow> p_pid e = k \<and> memory_of_pid k raw \<noteq> {} \<and> p_gpu_memory_mb e = Max (memory_of_pid k raw))"
proof (induction raw rule: rev_induct)
  case Nil
  then show ?case by (simp add: dict_ok_def memory_of_pid_def)
next
  case (snoc p raw)
  let ?d = "fold merge_process raw []"
  have d: "dict_ok ?d" using snoc by simp
  have k: "case map_of ?d k of None \<Rightarrow> memory_of_pid k raw = {}
      | Some e \<Rightarrow> p_pid e = k \<and> memory_of_pid k raw \<noteq> {} \<and> p_gpu_memory_mb e = Max (memory_of_pid k raw)" for k
    using snoc by blast
  have "dict_ok (merge_process p ?d)" using d by (auto simp: merge_process_def split: option.splits)
  moreover have "case map_of (merge_process p ?d) k of None \<Rightarrow> memory_of_pid k (raw @ [p]) = {}
      | Some e \<Rightarrow> p_pid e = k \<and> memory_of_pid k (raw @ [p]) \<noteq> {} \<and> p_gpu_memory_mb e = Max (memory_of_pid k (raw @ [p]))" for k
    using k[of k] k[of "p_pid p"]
    by (auto simp: merge_process_def update_conv' memory_of_pid_snoc max.commute split: option.splits)
  ultimately show ?case by simp
qed

lemma unique_pids:
  "distinct (map p_pid (unique_processes raw)) \<and> set (map p_pid (unique_processes raw)) = p_pid ` set raw \<and>
   (\<forall>p \<in> set (unique_processes raw). p_gpu_memory_mb p = Max (memory_of_pid (p_pid p) raw))"
proof -
  let ?d = "fold merge_process raw []"
  have ok: "dict_ok ?d" using merged by blast
  have e: "p_pid e = k \<and> p_gpu_memory_mb e = Max (memory_of_pid k raw)" if "(k, e) \<in> set ?d" for k e
    using merged[of raw] dict_ok_map_of[OF ok] that by (auto dest: spec[of _ k])
  have keys: "map p_pid (unique_processes raw) = map fst ?d" using e by (auto simp: unique_processes_def values_of_def)
  have dom: "k \<in> fst ` set ?d \<longleftrightarrow> k \<in> p_pid ` set raw" for k
  proof -
    have "k \<in> fst ` set ?d \<longleftrightarrow> map_of ?d k \<noteq> None" by (simp add: map_of_eq_None_iff)
    also have "\<dots> \<longleftrightarrow> memory_of_pid k raw \<noteq> {}" using merged[of raw] by (auto dest!: spec[of _ k] split: option.splits)
    also have "\<dots> \<longleftrightarrow> k \<in> p_pid ` set raw" by (auto simp: memory_of_pid_def)
    finally show ?thesis .
  qed
  have largest: "\<forall>p \<in> set (unique_processes raw). p_gpu_memory_mb p = Max (memory_of_pid (p_pid p) raw)"
  proof
    fix p assume "p \<in> set (unique_processes raw)"
    then obtain k where "(k, p) \<in> set ?d" by (auto simp: unique_processes_def values_of_def)
    from e[OF this] show "p_gpu_memory_mb p = Max (memory_of_pid (p_pid p) raw)" by simp
  qed
  show ?thesis
    unfolding keys set_map using ok dom largest by (simp add: dict_ok_def set_eq_iff)
qed

lemma detail_frame: "fill_process_detail h b p = Inr q \<Longrightarrow> p_pid q = p_pid p \<and> p_gpu_memory_mb q = p_gpu_memory_mb p"
  by (auto simp: fill_process_detail_def Let_def rbind_Inr_iff split: prod.splits)

lemma details_frame:
  "rmap (fill_process_detail h b) ps = Inr qs \<Longrightarrow> map p_pid qs = map p_pid ps \<and> map p_gpu_memory_mb qs = map p_gpu_memory_mb ps"
  by (induction ps arbitrary: qs) (auto simp: rbind_Inr_iff detail_frame)

lemma sum_update:
  fixes f :: "'v \<Rightarrow> int"
  assumes "dict_ok d"
  shows "sum_list (map f (values_of (AList.update k v d))) =
    sum_list (map f (values_of d)) - (case map_of d k of None \<Rightarrow> 0 | Some x \<Rightarrow> f x) + f v"
  using assms by (induction d) (auto simp: values_of_def dict_ok_def split: option.splits)

lemma add_other_sums:
  assumes "dict_ok d"
  shows "dict_ok (add_other p d) \<and>
    sum_list (map o_process_count (values_of (add_other p d))) = sum_list (map o_process_count (values_of d)) + 1 \<and>
    sum_list (map o_total_memory_mb (values_of (add_other p d))) = sum_list (map o_total_memory_mb (values_of d)) + p_gpu_memory_mb p"
  using assms by (auto simp: add_other_def Let_def sum_update get_or_def split: option.splits)

lemma add_others_sums:
  assumes "dict_ok d"
  shows "sum_list (map o_process_count (values_of (fold add_other ps d))) = sum_list (map o_process_count (values_of d)) + int (length ps) \<and>
    sum_list (map o_total_memory_mb (values_of (fold add_other ps d))) =
      sum_list (map o_total_memory_mb (values_of d)) + sum_list (map p_gpu_memory_mb ps)"
  using assms
proof (induction ps arbitrary: d)
  case (Cons p ps)
  show ?case using Cons.IH[of "add_other p d"] add_other_sums[OF Cons.prems, of p] by simp
qed simp

lemma filter_parts:
  "length (filter P xs) + length (filter (\<lambda>x. \<not> P x) xs) = length xs"
  "sum_list (map f (filter P xs)) + sum_list (map f (filter (\<lambda>x. \<not> P x) xs)) = (sum_list (map f xs) :: int)"
  by (induction xs) auto

lemma split_owners_sums:
  assumes "split_owners own ps = (mine, others)"
  shows "int (length mine) + sum_list (map o_process_count others) = int (length ps) \<and>
    sum_list (map p_gpu_memory_mb mine) + sum_list (map o_total_memory_mb others) = sum_list (map p_gpu_memory_mb ps)"
proof -
  let ?rest = "filter (\<lambda>p. \<not> is_own own p) ps"
  have sorted: "sum_list (map f (sort_desc g xs)) = sum_list (map f xs)" for f :: "other_user \<Rightarrow> int" and g :: "other_user \<Rightarrow> int" and xs
    by (rule sum_list_map_mset) simp
  have "dict_ok ([] :: (string, other_user) dict)" by (simp add: dict_ok_def)
  from add_others_sums[OF this, of ?rest] show ?thesis
    using assms filter_parts(1)[of "is_own own" ps] filter_parts(2)[of p_gpu_memory_mb "is_own own" ps]
    by (auto simp: split_owners_def sorted values_of_def)
qed

text \<open>
  C12: when both lists of processes of a device can be read, every process that is in one of them is listed
  exactly once, with the larger of its two amounts of memory, the largest first; in the aggregate mode the own
  processes and the counts and amounts of the other users together account for exactly these.
\<close>

theorem processes_listed_once:
  assumes "running_processes h lib i ''nvmlDeviceGetComputeRunningProcesses'' ''compute'' = Inr (Some cs)"
    and "running_processes h lib i ''nvmlDeviceGetGraphicsRunningProcesses'' ''graphics'' = Inr (Some gs)"
    and "device_processes h env own lib run i uuid cache = Inr ((ps, others), cache')"
  shows "if process_detail_mode env \<noteq> ''aggregate''
    then others = [] \<and> distinct (map p_pid ps) \<and> set (map p_pid ps) = p_pid ` set (cs @ gs) \<and>
      (\<forall>p \<in> set ps. p_gpu_memory_mb p = Max {p_gpu_memory_mb q | q. q \<in> set (cs @ gs) \<and> p_pid q = p_pid p}) \<and>
      sorted (rev (map p_gpu_memory_mb ps))
    else int (length ps) + sum_list (map o_process_count others) = int (card (p_pid ` set (cs @ gs))) \<and>
      sum_list (map p_gpu_memory_mb ps) + sum_list (map o_total_memory_mb others) =
        (\<Sum>k \<in> p_pid ` set (cs @ gs). Max {p_gpu_memory_mb q | q. q \<in> set (cs @ gs) \<and> p_pid q = k})"
proof -
  let ?mode = "process_detail_mode env" and ?us = "unique_processes (cs @ gs)"
  let ?max = "\<lambda>k. Max (memory_of_pid k (cs @ gs))"
  obtain qs where qs: "rmap (fill_process_detail h (?mode \<noteq> ''names'')) ?us = Inr qs"
    "(ps, others) = (if ?mode = ''aggregate'' then split_owners own qs else (sort_desc p_gpu_memory_mb qs, []))"
    using assms by (auto simp: device_processes_def rbind_Inr_iff Let_def)
  note frame = details_frame[OF qs(1)]
  have pids: "distinct (map p_pid qs)" "set (map p_pid qs) = p_pid ` set (cs @ gs)" using frame unique_pids[of "cs @ gs"] by simp_all
  have mem: "map p_gpu_memory_mb qs = map (?max \<circ> p_pid) qs"
  proof -
    have "map p_gpu_memory_mb ?us = map (?max \<circ> p_pid) ?us" using unique_pids[of "cs @ gs"] by simp
    then show ?thesis using frame by (metis map_map)
  qed
  have each: "p_gpu_memory_mb q = ?max (p_pid q)" if "q \<in> set qs" for q using mem that by (metis comp_apply map_eq_conv)
  show ?thesis
  proof (cases "?mode = ''aggregate''")
    case True
    have "int (length qs) = int (card (p_pid ` set (cs @ gs)))" using distinct_card[OF pids(1)] pids(2) by simp
    moreover have "sum_list (map p_gpu_memory_mb qs) = (\<Sum>k \<in> p_pid ` set (cs @ gs). ?max k)"
      unfolding mem using sum_list_distinct_conv_sum_set[OF pids(1), of ?max] pids(2) by simp
    ultimately show ?thesis using split_owners_sums[of own qs ps others] qs(2) True by (simp add: memory_of_pid_def)
  next
    case False
    then have p: "ps = sort_desc p_gpu_memory_mb qs" "others = []" using qs(2) by simp_all
    have "mset (map p_pid ps) = mset (map p_pid qs)" by (simp add: p)
    then have "distinct (map p_pid ps)" "set (map p_pid ps) = p_pid ` set (cs @ gs)"
      using pids by (metis mset_eq_imp_distinct_iff, metis mset_eq_setD)
    then show ?thesis using False p(2) each sorted_sort_desc[of p_gpu_memory_mb qs] by (simp add: p(1) memory_of_pid_def)
  qed
qed

subsection \<open>What is not marked, and what is mixed up\<close>

text \<open>A limit of the power that cannot be read is a limit of zero watts without a mark.\<close>

lemma power_limit_failure_unmarked:
  assumes "fst (nv_uint lib ''nvmlDeviceGetPowerManagementLimit'' i None) \<noteq> 0"
  shows "g_power_limit_watts (read_gpu lib i offsets (read_static lib i now)) = PFlt (Fin 0) \<and>
    \<not> has_key (g_telemetry_errors (read_gpu lib i offsets (read_static lib i now))) ''power_limit_watts''"
proof -
  have limit: "si_power_limit_watts (read_static lib i now) = 0"
    using assms by (auto simp: read_static_def uint_device_call_def split: prod.splits)
  have "g_power_limit_watts (snd (gpu_uint_call lib f i n a b g)) = g_power_limit_watts g" for f n a b g
    by (simp add: gpu_uint_call_def record_metric_error_def Let_def split: prod.splits)
  then have "g_power_limit_watts (read_gpu lib i offsets (read_static lib i now)) = PFlt (Fin 0)"
    unfolding read_gpu_def Let_def case_prod_beta by (simp add: clock_parts limit)
  then show ?thesis by (simp add: read_gpu_keys marked_metrics_def)
qed

text \<open>Two devices without a readable uuid share one entry of remembered processes: between two refreshes the first shows the second's.\<close>

lemma shared_uuid_mixes_processes:
  assumes "sample_gpu_processes nr True i uuid c sa = Inr (pu1, c1, sa1)" "sample_gpu_processes nr True j uuid c1 sa1 = Inr (pu2, c2, sa2)"
  shows "sample_gpu_processes nr' False i uuid c' sa2 = Inr (pu2, c', sa2)"
  using assms(2) by (auto simp: sample_gpu_processes_def rbind_Inr_iff get_or_def)

subsection \<open>Processes are refreshed at the configured pace\<close>

lemma processes_paced:
  assumes "nvml_run sa" "nm_last_process_at sa \<noteq> 0" "nm_process_interval sa = Fin p"
  shows "1 \<le> p \<and> (processes_due now sa \<longleftrightarrow> nm_last_process_at sa + p \<le> now)"
  using nvml_run_ok[OF assms(1)] assms(2,3) by (simp add: sampler_ok_def processes_due_def)

subsection \<open>A sample is taken whatever single devices and processes do\<close>

definition host_readable :: "host \<Rightarrow> bool" where
  "host_readable h \<longleftrightarrow> is_ok (boot_time_seconds h) \<and> os_clk_tck h \<noteq> Some 0"

definition fills_within_buffer :: "nvml \<Rightarrow> bool" where
  "fills_within_buffer lib \<longleftrightarrow> (\<forall>f i. let n = snd (nv_process_count lib f i)
     in fst (nv_processes lib f i n) = 0 \<longrightarrow> fst (snd (nv_processes lib f i n)) \<le> n)"

lemma is_ok_rbindI: "is_ok r \<Longrightarrow> (\<And>x. r = Inr x \<Longrightarrow> is_ok (f x)) \<Longrightarrow> is_ok (rbind r f)"
  by (cases r) auto

lemma start_time_ok: "host_readable h \<Longrightarrow> is_ok (process_start_time_seconds h pid)"
  by (auto simp: host_readable_def process_start_time_seconds_def intro!: is_ok_rbindI split: option.splits)

lemma runtime_ok: "host_readable h \<Longrightarrow> is_ok (process_runtime_seconds h pid)"
  by (auto simp: process_runtime_seconds_def intro!: is_ok_rbindI start_time_ok)

lemma parent_start_ok: "host_readable h \<Longrightarrow> is_ok (start_of_parent h ppid)"
  by (auto simp: start_of_parent_def start_time_ok split: option.splits)

lemma entry_ok: "host_readable h \<Longrightarrow> is_ok (process_entry_of h kind info)"
  by (auto simp: process_entry_of_def Let_def intro!: is_ok_rbindI start_time_ok runtime_ok parent_start_ok)

lemma entries_ok: "host_readable h \<Longrightarrow> \<forall>i \<in> set is. i < capacity \<Longrightarrow> is_ok (read_entries h kind buffer capacity is)"
  by (induction "is") (auto intro!: is_ok_rbindI entry_ok)

lemma running_ok:
  assumes "host_readable h" "fills_within_buffer lib"
  shows "is_ok (running_processes h lib i f kind)"
proof -
  have "is_ok (read_entries h kind buffer (unat n) [0..<unat n2])"
    if "nv_process_count lib f i = (rc, n)" "nv_processes lib f i n = (0, n2, buffer)" for rc n n2 buffer
  proof (rule entries_ok[OF assms(1)])
    have "let n = snd (nv_process_count lib f i) in fst (nv_processes lib f i n) = 0 \<longrightarrow> fst (snd (nv_processes lib f i n)) \<le> n"
      using assms(2) unfolding fills_within_buffer_def by blast
    then have "n2 \<le> n" by (simp add: that)
    then show "\<forall>k \<in> set [0..<unat n2]. k < unat n" by (auto simp: word_le_nat_alt)
  qed
  then show ?thesis by (auto simp: running_processes_def intro!: is_ok_rbindI split: prod.splits)
qed

lemma detail_ok: "host_readable h \<Longrightarrow> is_ok (fill_process_detail h b p)"
  by (auto simp: fill_process_detail_def Let_def intro!: is_ok_rbindI start_time_ok runtime_ok parent_start_ok split: prod.splits)

lemma details_ok: "host_readable h \<Longrightarrow> is_ok (rmap (fill_process_detail h b) ps)"
  by (induction ps) (auto intro!: is_ok_rbindI detail_ok)

lemma device_processes_ok:
  assumes "host_readable h" "fills_within_buffer lib"
  shows "is_ok (device_processes h env own lib run i uuid cache)"
  unfolding device_processes_def Let_def
  by (intro is_ok_rbindI running_ok[OF assms] details_ok[OF assms(1)]) simp

lemma sample_one_ok:
  assumes "host_readable (nr_host nr)" "fills_within_buffer (nr_lib nr)"
  shows "is_ok (sample_nvml_gpu nr due i cache sa)"
proof -
  have "is_ok (sample_gpu_processes nr due i uuid c s)" for uuid c s
    by (auto simp: sample_gpu_processes_def intro!: is_ok_rbindI device_processes_ok[OF assms])
  then show ?thesis by (auto simp: sample_nvml_gpu_def Let_def intro!: is_ok_rbindI split: prod.splits)
qed

lemma sample_all_ok:
  assumes "host_readable (nr_host nr)" "fills_within_buffer (nr_lib nr)"
  shows "is_ok (sample_nvml_gpus nr due is cache sa)"
  by (induction "is" arbitrary: cache sa) (auto intro!: is_ok_rbindI sample_one_ok[OF assms] split: prod.splits)

lemma nvml_sample_ok:
  assumes "fst (nv_count (nr_lib nr)) = 0" "host_readable (nr_host nr)" "fills_within_buffer (nr_lib nr)"
  shows "is_ok (nvml_sample nr sa)"
  using assms(1) by (auto simp: nvml_sample_def Let_def intro!: is_ok_rbindI sample_all_ok[OF assms(2,3)] split: prod.splits)

text \<open>
  C40: a sample is taken whenever the driver can count its devices, however the queries of single devices fail
  and whatever is gone or unreadable of single processes: only a broken table of \<^verbatim>\<open>/proc/stat\<close> or a driver
  that writes past the buffer it was given could make it raise.
\<close>

theorem nvml_sample_total:
  assumes "fst (nv_count (nr_lib nr)) = 0" "host_readable (nr_host nr)" "fills_within_buffer (nr_lib nr)"
  shows "\<exists>snap sa'. nvml_sample nr sa = Inr (snap, sa') \<and> n_ok snap"
proof -
  have "is_ok (nvml_sample nr sa)" by (rule nvml_sample_ok[OF assms])
  then obtain snap sa' where s: "nvml_sample nr sa = Inr (snap, sa')" by (auto simp: is_ok_iff)
  then show ?thesis using nvml_sample_parts[OF s] by blast
qed

subsection \<open>Examples\<close>

text \<open>One device whose temperature cannot be read, with a process in both lists.\<close>

definition demo_lib :: nvml where
  "demo_lib =
     \<lparr>nv_has = (\<lambda>f. f \<noteq> ''nvmlDeviceGetMemoryInfo_v2''), nv_count = (0, 1), nv_handle = (\<lambda>i. 0),
      nv_system_string = (\<lambda>f. (0, ''550'')), nv_cuda_version = (0, 12040), nv_string = (\<lambda>f i. (0, ''H100'')),
      nv_uint = (\<lambda>f i a. if f = ''nvmlDeviceGetTemperature'' then (999, 0) else (0, 0)), nv_mode = (\<lambda>f i. (0, 0)),
      nv_memory = (\<lambda>i. (0, 85899345920, 10737418240)), nv_memory_v2 = (\<lambda>i. (0, 0, 0, 0)), nv_utilization = (\<lambda>i. (0, 50, 20)),
      nv_process_count = (\<lambda>f i. (0, 1)),
      nv_processes = (\<lambda>f i n. (0, 1, \<lambda>k. (42, if f = ''nvmlDeviceGetGraphicsRunningProcesses'' then 2097152 else 1048576)))\<rparr>"

definition demo_round :: "nat nvml_round" where
  "demo_round =
     \<lparr>nr_host = demo_host, nr_env = (\<lambda>k. None), nr_hostname = ''node'', nr_started = 10, nr_now = 10, nr_processes_at = 11, nr_ended = 11,
      nr_lib = demo_lib, nr_process_run = ToolFailed ''gone'', nr_smi = Inl (RuntimeError ''gone''),
      nr_gpm = (\<lambda>i. (10, counting_driver 0 5))\<rparr>"

definition demo_sampler :: "nat nvml_sampler" where
  "demo_sampler = (case new_nvml_sampler None (\<lambda>k. None) (Fin 5) demo_lib 0 of Inr sa \<Rightarrow> sa | Inl e \<Rightarrow> undefined)"

lemma demo_sampler_run: "nvml_run demo_sampler"
proof -
  have "new_nvml_sampler None (\<lambda>k. None) (Fin 5) demo_lib 0 = Inr demo_sampler" by (simp add: demo_sampler_def new_nvml_sampler_def)
  then show ?thesis by (rule nvml_run.start)
qed

lemma demo_host_readable: "host_readable demo_host"
  by (simp add: host_readable_def boot_time_seconds_def demo_host_def)

lemma demo_fills: "fills_within_buffer demo_lib"
  by (simp add: fills_within_buffer_def demo_lib_def)

lemma demo_ready:
  "fst (nv_count (nr_lib demo_round)) = 0" "host_readable (nr_host demo_round)" "fills_within_buffer (nr_lib demo_round)"
  using demo_host_readable demo_fills by (simp_all add: demo_round_def demo_lib_def)

lemma demo_sampled: "\<exists>snap sa'. nvml_sample demo_round demo_sampler = Inr (snap, sa') \<and> length (n_gpus snap) = 1"
proof -
  obtain snap sa' where s: "nvml_sample demo_round demo_sampler = Inr (snap, sa')"
    using nvml_sample_ok[OF demo_ready, of demo_sampler] by (auto simp: is_ok_iff)
  have "snd (nv_count (nr_lib demo_round)) = 1" by (simp add: demo_round_def demo_lib_def)
  then show ?thesis using nvml_sample_parts[OF s] s by (auto simp: list_all2_conv_all_nth)
qed

lemma nvml_sample_total_witness:
  "\<exists>snap sa'. nvml_sample demo_round demo_sampler = Inr (snap, sa') \<and> n_ok snap"
  by (rule nvml_sample_total[OF demo_ready])

lemma nvml_memory_adds_up_witness:
  "\<exists>snap sa' g whole used free. nvml_sample demo_round demo_sampler = Inr (snap, sa') \<and> g \<in> set (n_gpus snap) \<and>
     g_memory_total_mb g = PInt whole \<and> g_memory_used_mb g = PInt used \<and> g_memory_free_mb g = PInt free \<and> used + free = whole"
proof -
  obtain snap sa' where s: "nvml_sample demo_round demo_sampler = Inr (snap, sa')" "length (n_gpus snap) = 1" using demo_sampled by blast
  then have "n_gpus snap ! 0 \<in> set (n_gpus snap)" by (intro nth_mem) simp
  from nvml_memory_adds_up[OF demo_sampler_run s(1) this] s(1) this show ?thesis by blast
qed


lemma demo_running:
  assumes "f = ''nvmlDeviceGetComputeRunningProcesses'' \<or> f = ''nvmlDeviceGetGraphicsRunningProcesses''"
  shows "\<exists>ps. running_processes demo_host demo_lib 0 f kind = Inr (Some ps)"
proof -
  obtain x where x: "running_processes demo_host demo_lib 0 f kind = Inr x"
    using running_ok[OF demo_host_readable demo_fills, of 0 f kind] by (auto simp: is_ok_iff)
  then have "x \<noteq> None"
    by (auto simp: running_processes_def demo_lib_def NVML_ERROR_NO_PERMISSION_def rbind_Inr_iff split: if_splits)
  then show ?thesis using x by auto
qed

lemma processes_listed_once_witness:
  "\<exists>ps others cache'. device_processes demo_host (\<lambda>k. None) None demo_lib (ToolFailed ''gone'') 0 ''GPU-1'' None = Inr ((ps, others), cache') \<and>
     others = [] \<and> distinct (map p_pid ps)"
proof -
  obtain cs where cs: "running_processes demo_host demo_lib 0 ''nvmlDeviceGetComputeRunningProcesses'' ''compute'' = Inr (Some cs)"
    using demo_running[of "''nvmlDeviceGetComputeRunningProcesses''" "''compute''"] by blast
  obtain gs where gs: "running_processes demo_host demo_lib 0 ''nvmlDeviceGetGraphicsRunningProcesses'' ''graphics'' = Inr (Some gs)"
    using demo_running[of "''nvmlDeviceGetGraphicsRunningProcesses''" "''graphics''"] by blast
  obtain ps others cache' where d:
    "device_processes demo_host (\<lambda>k. None) None demo_lib (ToolFailed ''gone'') 0 ''GPU-1'' None = Inr ((ps, others), cache')"
    using device_processes_ok[OF demo_host_readable demo_fills, of "\<lambda>k. None" None "ToolFailed ''gone''" 0 "''GPU-1''" None]
    by (auto simp: is_ok_iff)
  have "process_detail_mode (\<lambda>k. None) \<noteq> ''aggregate''" by code_simp
  with processes_listed_once[OF cs gs d] d show ?thesis by auto
qed

end
