(* ===== verification/Spec2Isabelle.thy ===== *)
theory Spec2Isabelle
  imports Wire Cluster AgentRpc DbSink Curves LabAudit Attribution LabApiProps LabAuth AccountLookup ActivityViewProps ManagerProps ManagerApi SmiProps NvmlProps
begin

text \<open>
  Constella watches the accelerators of a cluster. This library models its Python packages
  \<^verbatim>\<open>packages/backend\<close> and \<^verbatim>\<open>packages/lab\<close> and proves what they promise. Paths below are
  relative to \<^verbatim>\<open>packages/backend/src/constella\<close> and \<^verbatim>\<open>packages/lab/src/constella_lab\<close>.

  \<^bold>\<open>The program.\<close> An agent on every node samples its accelerators (\<^verbatim>\<open>collector.py\<close>, through
  \<^verbatim>\<open>nvml.py\<close> and \<^verbatim>\<open>nvml_gpm.py\<close> or \<^verbatim>\<open>nvidia_smi.py\<close>), turns the
  snapshot into JSON (\<^verbatim>\<open>schema.py\<close>, \<^verbatim>\<open>agent.py\<close>) and sends it over a websocket. The manager
  decodes it against the rules of \<^verbatim>\<open>telemetry.py\<close> and keeps the latest sample and a short history
  per node (\<^verbatim>\<open>cluster.py\<close>); it asks agents for accounts and restarts (\<^verbatim>\<open>agent_rpc.py\<close>); both
  sides of one websocket per agent are in \<^verbatim>\<open>app.py\<close>. Each
  accepted sample goes to the memory rings of the last hours (\<^verbatim>\<open>highres.py\<close>,
  \<^verbatim>\<open>performance_highres.py\<close>) and to the database (\<^verbatim>\<open>db.py\<close>, \<^verbatim>\<open>performance_rollup.py\<close>), which
  stores raw rows, sessions of processes and buckets of 20 seconds, merged to two minutes and one hour.
  From these \<^verbatim>\<open>analytics.py\<close> and \<^verbatim>\<open>highres.py\<close> answer queries about usage, jobs and curves. The lab
  extension binds Unix accounts to people (\<^verbatim>\<open>store.py\<close>, \<^verbatim>\<open>api.py\<close>), authenticates them
  (\<^verbatim>\<open>auth.py\<close>), restarts agents (\<^verbatim>\<open>node_control.py\<close>) and charges usage to people
  (\<^verbatim>\<open>activity_usage.py\<close>), which it shows to them (\<^verbatim>\<open>activity.py\<close>).

  \<^bold>\<open>The theories\<close>, in the order they build on each other:
  \<^item> \<^verbatim>\<open>Prelude\<close>: results (a Python exception or a value), dictionaries as association lists in
    insertion order, sorting, rounding, bounded queues. \<^verbatim>\<open>PyValue\<close>: the values of JSON, Python's
    text functions, \<^verbatim>\<open>int()\<close>, \<^verbatim>\<open>float()\<close>, \<^verbatim>\<open>str()\<close> and \<^verbatim>\<open>repr()\<close> on them.
  \<^item> \<^verbatim>\<open>Telemetry\<close>: \<^verbatim>\<open>telemetry.py\<close> and \<^verbatim>\<open>performance.py\<close>. \<^verbatim>\<open>Schema\<close>: the records of
    \<^verbatim>\<open>schema.py\<close> with their validation and aggregation. \<^verbatim>\<open>ProcessFilter\<close>: \<^verbatim>\<open>process_filter.py\<close>.
  \<^item> \<^verbatim>\<open>Ingest\<close>: the decoding half of \<^verbatim>\<open>cluster.py\<close>; \<^verbatim>\<open>Wire\<close>: that it inverts the encoding.
    \<^verbatim>\<open>Cluster\<close>: \<^verbatim>\<open>ClusterState\<close> and its history as a state machine over messages of agents.
  \<^item> \<^verbatim>\<open>AgentRpc\<close>: the broker of \<^verbatim>\<open>agent_rpc.py\<close>, a request cut into the steps around its wait.
  \<^item> \<^verbatim>\<open>Collector\<close>, \<^verbatim>\<open>Agent\<close>, \<^verbatim>\<open>AgentProps\<close>: \<^verbatim>\<open>collector.py\<close>, \<^verbatim>\<open>agent.py\<close> and the delta encoding
    between agent and manager.
  \<^item> \<^verbatim>\<open>SampleRings\<close>, \<^verbatim>\<open>HighresCache\<close>: the ring arrays and the cache of \<^verbatim>\<open>highres.py\<close>; \<^verbatim>\<open>GpmRing\<close>,
    \<^verbatim>\<open>GpmCache\<close>: those of \<^verbatim>\<open>performance_highres.py\<close>, refined to queues.
  \<^item> \<^verbatim>\<open>Rollup\<close>: the buckets of \<^verbatim>\<open>db.py\<close> and \<^verbatim>\<open>performance_rollup.py\<close> and the SQL that merges them;
    \<^verbatim>\<open>Database\<close>: the store; \<^verbatim>\<open>DbSink\<close>: the queue and the buckets in front of it.
  \<^item> \<^verbatim>\<open>Analytics\<close>, \<^verbatim>\<open>Jobs\<close>, \<^verbatim>\<open>Curves\<close>: the queries.
  \<^item> \<^verbatim>\<open>LabStore\<close>, \<^verbatim>\<open>LabProps\<close>, \<^verbatim>\<open>LabAudit\<close>: the tables of the lab and their invariants;
    \<^verbatim>\<open>Activity\<close>, \<^verbatim>\<open>ActivityProps\<close>, \<^verbatim>\<open>Attribution\<close>: usage per person; \<^verbatim>\<open>ActivityView\<close>,
    \<^verbatim>\<open>ActivityViewProps\<close>: its reading, caching and paging; \<^verbatim>\<open>LabApi\<close>, \<^verbatim>\<open>LabApiProps\<close>,
    \<^verbatim>\<open>LabAuth\<close>: the endpoints and the middleware; \<^verbatim>\<open>AccountLookup\<close>: a lookup through broker, agent
    and lab.
  \<^item> \<^verbatim>\<open>Procfs\<close>: \<^verbatim>\<open>procfs.py\<close>; \<^verbatim>\<open>NvidiaSmi\<close>, \<^verbatim>\<open>SmiProps\<close>: \<^verbatim>\<open>nvidia_smi.py\<close> with the reader of csv;
    \<^verbatim>\<open>GpmSampler\<close>: \<^verbatim>\<open>nvml_gpm.py\<close>; \<^verbatim>\<open>Nvml\<close>, \<^verbatim>\<open>NvmlProps\<close>: \<^verbatim>\<open>nvml.py\<close>, over the answers of the
    driver library as words of their C types.
  \<^item> \<^verbatim>\<open>Manager\<close>, \<^verbatim>\<open>ManagerProps\<close>: the manager of \<^verbatim>\<open>app.py\<close>, which joins cluster, broker, cache,
    stream and database behind one websocket per agent, as a state machine over what the sockets deliver;
    \<^verbatim>\<open>ManagerApi\<close>: its environment, health reply, read endpoints and the sockets of its clients.

  \<^bold>\<open>How code becomes definitions.\<close> A class is a record of its attributes, a method a function from the
  state to the new state and the result, an exception a value \<^verbatim>\<open>Inl\<close>. The step relations
  (\<^verbatim>\<open>cluster_reachable\<close>, \<^verbatim>\<open>rpc_reachable\<close>, \<^verbatim>\<open>sink_step\<close>, \<^verbatim>\<open>lab_reachable\<close>,
  \<^verbatim>\<open>collector_reachable\<close>, \<^verbatim>\<open>manager_reachable\<close>) and the runs of a sampler (\<^verbatim>\<open>gpm_run\<close>) let every operation happen with any arguments in any order, so an invariant
  holds under every interleaving the event loop or the threads can produce between two waits. Locks are
  held for whole operations in the code and so disappear.

  \<^bold>\<open>What the lemmas show.\<close> Decoding is total and safe, inverts the encoding and accepts samples in
  order; the rings keep exactly the newest samples and answer like a scan; buckets and merges lose and count no
  sample twice up to the failures that are stated; queries equal their definition by quantification over the
  rows; an account of a node has one owner at a time, every change is in the audit log, and usage is charged
  to the owner of the moment; requests are served only with authority and within the rate limits; sockets,
  retries and loops end or come back. Theorems of kind error show where the code departs from this.

  \<^bold>\<open>Bounds and fuel.\<close> Recursion is structural or comes with a measure (\<^verbatim>\<open>nat_str\<close>, the binary searches of
  the rings, \<^verbatim>\<open>later_days\<close>, \<^verbatim>\<open>observed_days\<close>); fuel is used in \<^verbatim>\<open>shortest_from\<close> (17 digits, which
  determine every double) and in \<^verbatim>\<open>ws_run\<close>, whose theorem shows that sixteen rounds are enough.
  Readings are bounded by the rules; 32-bit ring slots and 64-bit columns are
  shown to hold what the rules admit.

  \<^bold>\<open>Idealisations.\<close> A finite double is the rational it denotes and arithmetic on it is exact; infinities
  and NaN are values of their own. Text is a list of characters up to 255. Clocks, environment variables,
  host names, random numbers, request and user ids are arguments. SQLite tables are dictionaries under their
  primary keys; a transaction that fails leaves them; column affinities and the order of ties that SQL leaves
  open are not modelled. \<^verbatim>\<open>Analytics\<close> takes the offset of the local zone as a parameter, Asia/Shanghai is
  UTC+8. The answers of the driver library, the output of \<^verbatim>\<open>nvidia-smi\<close> and
  the files of \<^verbatim>\<open>/proc\<close>, the account database of the operating system, the signature check of tokens and
  patterns of the configuration are parameters.

  \<^bold>\<open>Not modelled:\<close> the samplers of Ascend cards (\<^verbatim>\<open>dcmi.py\<close>, \<^verbatim>\<open>npu.py\<close>) and, of the others, the
  declarations and the loading of the driver library; the wiring of the
  web applications (the lifespan, middleware and frontend files of \<^verbatim>\<open>app.py\<close>, \<^verbatim>\<open>highres_sidecar.py\<close>); the command lines and services, which run
  systemd and ssh; the terminal and web interfaces.
\<close>

end
